(* ===== verification/Prelude.thy ===== *)
theory Prelude
  imports Main
begin

text \<open>
  Shared vocabulary of the development: the C integer conversions that matter, bytes and
  little-endian integers as they are read from a guest process, C strings, the status codes of
  \<^verbatim>\<open>shared_headers/haiku_errors.h\<close> that the modelled calls return, and the generic
  lemmas and theorem collections the component theories use.
\<close>

unbundle bit_operations_syntax

named_theorems status_codes \<open>definitions of the Haiku status codes\<close>

section \<open>C integers\<close>

text \<open>
  A value of a C integer type is an \<^typ>\<open>int\<close> in the range of the type. Where an operation can
  leave the range, the model applies the conversion the compiler applies: \<open>to_int32\<close> for a
  conversion to (or an atomic addition in) \<open>int\<close>, \<open>to_uint64\<close> for \<open>size_t\<close> arithmetic.
\<close>

definition to_int32 :: "int \<Rightarrow> int" where
  "to_int32 x = signed_take_bit 31 x"

definition to_uint32 :: "int \<Rightarrow> int" where
  "to_uint32 x = take_bit 32 x"

definition to_uint64 :: "int \<Rightarrow> int" where
  "to_uint64 x = take_bit 64 x"

definition is_int32 :: "int \<Rightarrow> bool" where
  "is_int32 x \<longleftrightarrow> - (2 ^ 31) \<le> x \<and> x < 2 ^ 31"

abbreviation INT_MAX :: int where
  "INT_MAX \<equiv> 2147483647"

lemma to_int32_id [simp]: "is_int32 x \<Longrightarrow> to_int32 x = x"
  by (simp add: to_int32_def is_int32_def signed_take_bit_int_eq_self)

lemma is_int32_to_int32 [simp]: "is_int32 (to_int32 x)"
  using signed_take_bit_int_greater_eq_minus_exp [of 31 x] signed_take_bit_int_less_exp [of 31 x]
  by (simp add: to_int32_def is_int32_def)

lemma to_uint64_id: "0 \<le> x \<Longrightarrow> x < 2 ^ 64 \<Longrightarrow> to_uint64 x = x"
  by (simp add: to_uint64_def take_bit_int_eq_self)

section \<open>Bytes and strings\<close>

text \<open>
  A byte is an Isabelle character, which is eight bits; memory contents and C strings then
  share one type.
\<close>

type_synonym byte = char

definition le_val :: "byte list \<Rightarrow> int" where
  "le_val bs = foldr (\<lambda>b acc. of_char b + 256 * acc) bs 0"

primrec le_bytes :: "nat \<Rightarrow> int \<Rightarrow> byte list" where
  "le_bytes 0 x = []"
| "le_bytes (Suc n) x = char_of x # le_bytes n (x div 256)"

lemma le_val_simps [simp]:
  "le_val [] = 0" "le_val (b # bs) = of_char b + 256 * le_val bs"
  by (simp_all add: le_val_def)

lemma length_le_bytes [simp]: "length (le_bytes n x) = n"
  by (induction n arbitrary: x) simp_all

lemma le_val_le_bytes: "le_val (le_bytes n x) = x mod 2 ^ (8 * n)"
proof (induction n arbitrary: x)
  case (Suc n)
  have "le_val (le_bytes (Suc n) x) = x mod 256 + 256 * (x div 256 mod 2 ^ (8 * n))"
    by (simp add: Suc.IH of_char_of take_bit_eq_mod)
  also have "\<dots> = x mod (256 * 2 ^ (8 * n))"
    by (simp add: zmod_zmult2_eq)
  finally show ?case by (simp add: power_add)
qed simp

definition dec_int32 :: "byte list \<Rightarrow> int" where
  "dec_int32 bs = to_int32 (le_val (take 4 bs))"

definition dec_uint64 :: "byte list \<Rightarrow> int" where
  "dec_uint64 bs = le_val (take 8 bs)"

lemma to_int32_mod: "to_int32 (x mod 2 ^ 32) = to_int32 x"
proof -
  have "take_bit (Suc 31) (x mod 2 ^ 32) = take_bit (Suc 31) x"
    by (simp add: take_bit_eq_mod)
  then show ?thesis
    unfolding to_int32_def by (simp add: signed_take_bit_eq_iff_take_bit_eq)
qed

lemma dec_int32_le_bytes: "is_int32 x \<Longrightarrow> dec_int32 (le_bytes 4 x) = x"
  using le_val_le_bytes [of 4 x] to_int32_mod [of x] by (simp add: dec_int32_def)

text \<open>\<open>std::string(const char*)\<close> and \<open>strnlen\<close> stop at the first NUL.\<close>

definition cstr :: "byte list \<Rightarrow> string" where
  "cstr bs = takeWhile (\<lambda>b. b \<noteq> CHR 0x00) bs"

lemma length_cstr_le: "length (cstr bs) \<le> length bs"
  by (simp add: cstr_def length_takeWhile_le)

lemma cstr_no_nul: "CHR 0x00 \<notin> set (cstr bs)"
  by (auto simp: cstr_def dest: set_takeWhileD)

lemma cstr_idem [simp]: "cstr (cstr bs) = cstr bs"
  by (simp add: cstr_def takeWhile_idem)

text \<open>\<open>strncpy\<close> into an array of \<open>n\<close> characters: cut or padded with NULs.\<close>

definition strncpy :: "nat \<Rightarrow> byte list \<Rightarrow> byte list" where
  "strncpy n s = take n (cstr s @ replicate n (CHR 0x00))"

text \<open>\<open>std::to_string\<close> and the output of an integer to a stream.\<close>

fun nat_digits :: "nat \<Rightarrow> string" where
  "nat_digits n =
    (if n < 10 then [char_of (48 + n)] else nat_digits (n div 10) @ [char_of (48 + n mod 10)])"

declare nat_digits.simps [simp del]

definition to_string :: "int \<Rightarrow> string" where
  "to_string x = (if x < 0 then CHR ''-'' # nat_digits (nat (- x)) else nat_digits (nat x))"

section \<open>Finite maps\<close>

lemma card_dom_pred:
  "finite (dom m) \<Longrightarrow> m k = Some v \<Longrightarrow> int (card (dom m) - Suc 0) = int (card (dom m)) - 1"
  by (metis One_nat_def card_gt_0_iff domIff empty_iff of_nat_1 of_nat_diff Suc_leI option.distinct(1))

section \<open>Status codes\<close>

definition B_GENERAL_ERROR_BASE :: int where
  [status_codes]: "B_GENERAL_ERROR_BASE = -2147483648"

definition B_OS_ERROR_BASE :: int where
  [status_codes]: "B_OS_ERROR_BASE = B_GENERAL_ERROR_BASE + 0x1000"

definition B_STORAGE_ERROR_BASE :: int where
  [status_codes]: "B_STORAGE_ERROR_BASE = B_GENERAL_ERROR_BASE + 0x6000"

definition B_POSIX_ERROR_BASE :: int where
  [status_codes]: "B_POSIX_ERROR_BASE = B_GENERAL_ERROR_BASE + 0x7000"

definition B_NO_MEMORY :: int where [status_codes]: "B_NO_MEMORY = B_GENERAL_ERROR_BASE + 0"
definition B_BAD_VALUE :: int where [status_codes]: "B_BAD_VALUE = B_GENERAL_ERROR_BASE + 5"
definition B_NAME_NOT_FOUND :: int where
  [status_codes]: "B_NAME_NOT_FOUND = B_GENERAL_ERROR_BASE + 7"
definition B_TIMED_OUT :: int where [status_codes]: "B_TIMED_OUT = B_GENERAL_ERROR_BASE + 9"
definition B_WOULD_BLOCK :: int where [status_codes]: "B_WOULD_BLOCK = B_GENERAL_ERROR_BASE + 11"
definition B_NOT_ALLOWED :: int where [status_codes]: "B_NOT_ALLOWED = B_GENERAL_ERROR_BASE + 15"
definition B_OK :: int where [status_codes]: "B_OK = 0"

definition B_BAD_SEM_ID :: int where [status_codes]: "B_BAD_SEM_ID = B_OS_ERROR_BASE + 0"
definition B_BAD_THREAD_ID :: int where
  [status_codes]: "B_BAD_THREAD_ID = B_OS_ERROR_BASE + 0x100"
definition B_BAD_TEAM_ID :: int where [status_codes]: "B_BAD_TEAM_ID = B_OS_ERROR_BASE + 0x103"
definition B_BAD_PORT_ID :: int where [status_codes]: "B_BAD_PORT_ID = B_OS_ERROR_BASE + 0x200"
definition B_BAD_ADDRESS :: int where [status_codes]: "B_BAD_ADDRESS = B_OS_ERROR_BASE + 0x301"

definition B_FILE_ERROR :: int where [status_codes]: "B_FILE_ERROR = B_STORAGE_ERROR_BASE + 0"
definition B_ENTRY_NOT_FOUND :: int where
  [status_codes]: "B_ENTRY_NOT_FOUND = B_STORAGE_ERROR_BASE + 3"
definition B_NAME_TOO_LONG :: int where
  [status_codes]: "B_NAME_TOO_LONG = B_STORAGE_ERROR_BASE + 4"

definition HAIKU_POSIX_ENOSYS :: int where
  [status_codes]: "HAIKU_POSIX_ENOSYS = B_POSIX_ERROR_BASE + 9"
definition HAIKU_POSIX_EOVERFLOW :: int where
  [status_codes]: "HAIKU_POSIX_EOVERFLOW = B_POSIX_ERROR_BASE + 41"
definition HAIKU_POSIX_ENOMEM :: int where
  [status_codes]: "HAIKU_POSIX_ENOMEM = B_NO_MEMORY"
definition HAIKU_POSIX_EBADF :: int where
  [status_codes]: "HAIKU_POSIX_EBADF = B_FILE_ERROR"
definition B_BUFFER_OVERFLOW :: int where
  [status_codes]: "B_BUFFER_OVERFLOW = HAIKU_POSIX_EOVERFLOW"

text \<open>Every code other than \<open>B_OK\<close> is negative, so no error is mistaken for an id.\<close>

lemma status_codes_negative:
  "s \<in> {B_NO_MEMORY, B_BAD_VALUE, B_NAME_NOT_FOUND, B_TIMED_OUT, B_WOULD_BLOCK, B_NOT_ALLOWED,
    B_BAD_SEM_ID, B_BAD_THREAD_ID, B_BAD_TEAM_ID, B_BAD_PORT_ID, B_BAD_ADDRESS, B_FILE_ERROR,
    B_ENTRY_NOT_FOUND, B_NAME_TOO_LONG, HAIKU_POSIX_ENOSYS, HAIKU_POSIX_EOVERFLOW} \<Longrightarrow> s < 0"
  by (auto simp: status_codes)

end
