(* ===== verification/Containers.thy ===== *)
theory Containers
  imports Prelude
begin

text \<open>
  The standard containers the server keeps its tables in. \<open>std::map<int, T>\<close> and
  \<open>std::set<int>\<close> are lists in strictly ascending key order, so that iteration and
  \<open>upper_bound\<close> compute; \<open>om_*\<close> and \<open>os_*\<close> are the members the source calls, related to
  \<open>map_of\<close> and \<open>set\<close>. The locale \<open>id_cursor\<close> is the interface of every table that is
  enumerated with \<open>while ((id = Next(id)) != -1)\<close>.
\<close>

named_theorems container_simps \<open>lookup after an update of a container\<close>
named_theorems container_ok \<open>updates keep a container in order\<close>

section \<open>std::set of ints\<close>

type_synonym oset = "int list"

definition os_ok :: "oset \<Rightarrow> bool" where
  "os_ok s \<longleftrightarrow> sorted_wrt (<) s"

fun os_insert :: "int \<Rightarrow> oset \<Rightarrow> oset" where
  "os_insert x [] = [x]"
| "os_insert x (y # ys) = (if x < y then x # y # ys else if x = y then y # ys else y # os_insert x ys)"

definition os_erase :: "int \<Rightarrow> oset \<Rightarrow> oset" where
  "os_erase x s = filter (\<lambda>y. y \<noteq> x) s"

definition os_lower_bound :: "oset \<Rightarrow> int \<Rightarrow> int option" where
  "os_lower_bound s x = (case dropWhile (\<lambda>y. y < x) s of [] \<Rightarrow> None | y # _ \<Rightarrow> Some y)"

lemma set_os_insert [container_simps]: "set (os_insert x s) = insert x (set s)"
  by (induction x s rule: os_insert.induct) auto

lemma set_os_erase [container_simps]: "set (os_erase x s) = set s - {x}"
  by (auto simp: os_erase_def)

lemma os_ok_insert [container_ok]: "os_ok s \<Longrightarrow> os_ok (os_insert x s)"
  unfolding os_ok_def by (induction x s rule: os_insert.induct) (auto simp: set_os_insert)

lemma os_ok_erase [container_ok]: "os_ok s \<Longrightarrow> os_ok (os_erase x s)"
  by (simp add: os_ok_def os_erase_def sorted_wrt_filter)

lemma os_ok_Nil [container_ok]: "os_ok []"
  by (simp add: os_ok_def)

lemma os_ok_hd_least: "os_ok s \<Longrightarrow> x \<in> set s \<Longrightarrow> hd s \<le> x"
  by (cases s) (auto simp: os_ok_def)

lemma os_ok_distinct: "os_ok s \<Longrightarrow> distinct s"
  by (auto simp: os_ok_def strict_sorted_iff)

lemma os_lower_bound_None: "os_lower_bound s x = None \<longleftrightarrow> (\<forall>y\<in>set s. y < x)"
  unfolding os_lower_bound_def by (induction s) auto

lemma os_lower_bound_Some:
  "os_ok s \<Longrightarrow> os_lower_bound s x = Some y \<Longrightarrow>
    y \<in> set s \<and> x \<le> y \<and> (\<forall>z\<in>set s. x \<le> z \<longrightarrow> y \<le> z)"
  unfolding os_lower_bound_def os_ok_def
  by (induction s) (auto split: if_splits)

section \<open>std::map from ints\<close>

type_synonym 'v omap = "(int \<times> 'v) list"

definition om_ok :: "'v omap \<Rightarrow> bool" where
  "om_ok m \<longleftrightarrow> sorted_wrt (<) (map fst m)"

fun om_insert :: "int \<Rightarrow> 'v \<Rightarrow> 'v omap \<Rightarrow> 'v omap" where
  "om_insert k v [] = [(k, v)]"
| "om_insert k v ((k', v') # m) =
    (if k < k' then (k, v) # (k', v') # m
     else if k = k' then (k, v) # m
     else (k', v') # om_insert k v m)"

definition om_erase :: "int \<Rightarrow> 'v omap \<Rightarrow> 'v omap" where
  "om_erase k m = filter (\<lambda>p. fst p \<noteq> k) m"

definition om_upper_bound :: "'v omap \<Rightarrow> int \<Rightarrow> (int \<times> 'v) option" where
  "om_upper_bound m k = (case dropWhile (\<lambda>p. fst p \<le> k) m of [] \<Rightarrow> None | p # _ \<Rightarrow> Some p)"

abbreviation om_keys :: "'v omap \<Rightarrow> int set" where
  "om_keys m \<equiv> fst ` set m"

lemma om_keys_insert: "om_keys (om_insert k v m) = insert k (om_keys m)"
  by (induction k v m rule: om_insert.induct) auto

lemma om_ok_Nil [container_ok]: "om_ok []"
  by (simp add: om_ok_def)

lemma om_ok_insert [container_ok]: "om_ok m \<Longrightarrow> om_ok (om_insert k v m)"
proof (induction k v m rule: om_insert.induct)
  case (2 k v k' v' m)
  then show ?case
    using om_keys_insert [of k v m] by (auto simp: om_ok_def)
qed (simp add: om_ok_def)

lemma om_ok_erase [container_ok]: "om_ok m \<Longrightarrow> om_ok (om_erase k m)"
  by (induction m) (auto simp: om_ok_def om_erase_def)

lemma om_ok_distinct: "om_ok m \<Longrightarrow> distinct (map fst m)"
  by (simp add: om_ok_def strict_sorted_iff)

lemma map_of_om_erase [container_simps]: "map_of (om_erase k m) = (map_of m)(k := None)"
  by (induction m) (auto simp: om_erase_def fun_eq_iff)

lemma map_of_om_insert [container_simps]:
  "om_ok m \<Longrightarrow> map_of (om_insert k v m) = (map_of m)(k \<mapsto> v)"
proof (induction k v m rule: om_insert.induct)
  case (2 k v k' v' m)
  have "om_ok m" using "2.prems" by (simp add: om_ok_def)
  moreover have "k < k' \<Longrightarrow> map_of m k' = None"
    using "2.prems" by (auto simp: om_ok_def map_of_eq_None_iff)
  ultimately show ?case using 2 by (auto simp: fun_eq_iff)
qed simp

lemma om_keys_dom: "om_keys m = dom (map_of m)"
  by (simp add: dom_map_of_conv_image_fst)

lemma om_upper_bound_None: "om_upper_bound m k = None \<longleftrightarrow> (\<forall>j\<in>om_keys m. j \<le> k)"
  unfolding om_upper_bound_def by (induction m) auto

lemma om_upper_bound_Some:
  "om_ok m \<Longrightarrow> om_upper_bound m k = Some p \<Longrightarrow>
    p \<in> set m \<and> k < fst p \<and> (\<forall>j\<in>om_keys m. k < j \<longrightarrow> fst p \<le> j)"
  unfolding om_upper_bound_def om_ok_def
  by (induction m) (auto split: if_splits)

text \<open>The recurring \<open>it = m.upper_bound(k); return it == end ? -1 : it->first\<close>.\<close>

definition om_next :: "'v omap \<Rightarrow> int \<Rightarrow> int" where
  "om_next m k = (case om_upper_bound m k of None \<Rightarrow> -1 | Some p \<Rightarrow> fst p)"

section \<open>Enumerating a table through its cursor\<close>

text \<open>
  The loop \<open>id = i; while ((id = next(id)) != -1) visit(id);\<close> as the list of the ids it
  visits; the fuel bounds the number of rounds.
\<close>

fun cursor_walk :: "('s \<Rightarrow> int \<Rightarrow> int) \<Rightarrow> nat \<Rightarrow> 's \<Rightarrow> int \<Rightarrow> int list" where
  "cursor_walk nxt 0 s i = []"
| "cursor_walk nxt (Suc n) s i =
    (let j = nxt s i in if j = -1 then [] else j # cursor_walk nxt n s j)"

locale id_cursor =
  fixes ids :: "'s \<Rightarrow> int set"
    and nxt :: "'s \<Rightarrow> int \<Rightarrow> int"
    and ok :: "'s \<Rightarrow> bool"
  assumes finite_ids: "ok s \<Longrightarrow> finite (ids s)"
    and ids_nonneg: "ok s \<Longrightarrow> i \<in> ids s \<Longrightarrow> 0 \<le> i"
    and nxt_hit: "ok s \<Longrightarrow> -1 \<le> i \<Longrightarrow> j \<in> ids s \<Longrightarrow> i < j \<Longrightarrow>
      nxt s i \<in> ids s \<and> i < nxt s i \<and> nxt s i \<le> j"
    and nxt_miss: "ok s \<Longrightarrow> -1 \<le> i \<Longrightarrow> \<forall>j\<in>ids s. j \<le> i \<Longrightarrow> nxt s i = -1"
begin

lemma nxt_cases:
  assumes "ok s" "-1 \<le> i"
  shows "(nxt s i = -1 \<and> {j \<in> ids s. i < j} = {}) \<or>
    (nxt s i \<in> ids s \<and> i < nxt s i \<and> 0 \<le> nxt s i \<and>
     {j \<in> ids s. i < j} = insert (nxt s i) {j \<in> ids s. nxt s i < j})"
proof (cases "\<exists>j\<in>ids s. i < j")
  case True
  then obtain j where "j \<in> ids s" "i < j" by blast
  then have "nxt s i \<in> ids s" "i < nxt s i"
    using nxt_hit [OF assms] by blast+
  moreover have "k \<in> ids s \<Longrightarrow> i < k \<Longrightarrow> nxt s i \<le> k" for k
    using nxt_hit [OF assms] by blast
  ultimately show ?thesis
    using ids_nonneg [OF assms(1)] by force
next
  case False
  then show ?thesis using nxt_miss [OF assms] by fastforce
qed

lemma nxt_least: "ok s \<Longrightarrow> -1 \<le> i \<Longrightarrow> nxt s i \<noteq> -1 \<Longrightarrow>
  nxt s i \<in> ids s \<and> i < nxt s i \<and> (\<forall>j\<in>ids s. i < j \<longrightarrow> nxt s i \<le> j)"
  by (metis (no_types, lifting) insert_iff mem_Collect_eq nxt_cases order.order_iff_strict)

text \<open>With fuel for every id above the start the loop visits exactly those ids, in order.\<close>

lemma walk_complete:
  assumes "ok s" "-1 \<le> i" "card {j \<in> ids s. i < j} \<le> n"
  shows "sorted_wrt (<) (cursor_walk nxt n s i) \<and> set (cursor_walk nxt n s i) = {j \<in> ids s. i < j}"
  using assms(2,3)
proof (induction n arbitrary: i)
  case 0
  then show ?case using finite_ids [OF assms(1)] by simp
next
  case (Suc n)
  from nxt_cases [OF assms(1) Suc.prems(1)] show ?case
  proof
    assume hit: "nxt s i \<in> ids s \<and> i < nxt s i \<and> 0 \<le> nxt s i \<and>
      {j \<in> ids s. i < j} = insert (nxt s i) {j \<in> ids s. nxt s i < j}"
    then have "card {j \<in> ids s. nxt s i < j} \<le> n"
      using Suc.prems(2) finite_ids [OF assms(1)] by simp
    with Suc.IH [of "nxt s i"] hit show ?thesis by (auto simp: Let_def)
  qed (simp add: Let_def)
qed

lemma walk_from_start:
  assumes "ok s" "card (ids s) \<le> n"
  shows "cursor_walk nxt n s (-1) = sorted_list_of_set (ids s)"
proof -
  have "{j \<in> ids s. -1 < j} = ids s"
    using ids_nonneg [OF assms(1)] by force
  with walk_complete [OF assms(1), of "-1" n] assms(2)
  have "sorted_wrt (<) (cursor_walk nxt n s (-1)) \<and> set (cursor_walk nxt n s (-1)) = ids s"
    by simp
  then show ?thesis
    using sorted_list_of_set.idem_if_sorted_distinct strict_sorted_iff by metis
qed

end

definition nonneg_keys :: "'v omap \<Rightarrow> bool" where
  "nonneg_keys m \<longleftrightarrow> om_ok m \<and> (\<forall>k\<in>om_keys m. 0 \<le> k)"

interpretation map_cursor: id_cursor "om_keys" om_next nonneg_keys
proof (unfold_locales, goal_cases)
  case (3 m i j)
  then obtain p where p: "om_upper_bound m i = Some p"
    using om_upper_bound_None [of m i] by fastforce
  with 3 om_upper_bound_Some [of m i p] show ?case
    by (auto simp: om_next_def nonneg_keys_def)
next
  case (4 m i)
  then show ?case
    using om_upper_bound_None [of m i] by (simp add: om_next_def)
qed (auto simp: nonneg_keys_def)

end
