(* ===== verification/IdMap.thy ===== *)
theory IdMap
  imports Containers
begin

text \<open>
  \<^verbatim>\<open>hyclone_server/id_map.h\<close>: the table that hands out small ids for ports, semaphores and
  images. Freed ids are kept in an ordered set and the smallest one is reused first. \<open>Get\<close>
  and \<open>Remove\<close> index the vector unchecked: outside of it C++ has no behaviour, and the model
  returns \<open>None\<close>. The locale \<open>id_table\<close> is the contract the owners of the tables rely on.
\<close>

record 'a IdMap =
  items :: "'a list"
  freeIds :: oset

definition IdMap_empty :: "'a IdMap" where
  "IdMap_empty = \<lparr>items = [], freeIds = []\<rparr>"

definition IdMap_Add :: "'a IdMap \<Rightarrow> 'a \<Rightarrow> int \<times> 'a IdMap" where
  "IdMap_Add m item =
    (case freeIds m of
       [] \<Rightarrow> (let m' = m\<lparr>items := items m @ [item]\<rparr>
             in (to_int32 (int (length (items m')) - 1), m'))
     | i # _ \<Rightarrow> (i, m\<lparr>freeIds := os_erase i (freeIds m), items := (items m)[nat i := item]\<rparr>))"

definition in_vector :: "'a IdMap \<Rightarrow> int \<Rightarrow> bool" where
  "in_vector m i \<longleftrightarrow> 0 \<le> i \<and> i < int (length (items m))"

definition IdMap_Get :: "'a IdMap \<Rightarrow> int \<Rightarrow> 'a option" where
  "IdMap_Get m i = (if in_vector m i then Some (items m ! nat i) else None)"

definition IdMap_MaxId :: "'a IdMap \<Rightarrow> int" where
  "IdMap_MaxId m = to_int32 (int (length (items m)) - 1)"

function IdMap_NextId :: "'a IdMap \<Rightarrow> int \<Rightarrow> int" where
  "IdMap_NextId m i =
    (if i \<ge> IdMap_MaxId m then -1
     else if i + 1 \<in> set (freeIds m) then IdMap_NextId m (i + 1)
     else i + 1)"
  by pat_completeness auto
termination
  by (relation "measure (\<lambda>(m, i). nat (IdMap_MaxId m - i))") auto

declare IdMap_NextId.simps [simp del]

definition IdMap_IsValidId :: "'a IdMap \<Rightarrow> int \<Rightarrow> bool" where
  "IdMap_IsValidId m i \<longleftrightarrow> i \<ge> 0 \<and> i \<le> IdMap_MaxId m \<and> i \<notin> set (freeIds m)"

text \<open>\<open>Remove\<close> resets the slot to \<open>T()\<close>, here the argument \<open>t0\<close>.\<close>

definition IdMap_Remove :: "'a \<Rightarrow> 'a IdMap \<Rightarrow> int \<Rightarrow> 'a IdMap option" where
  "IdMap_Remove t0 m i =
    (if in_vector m i
     then Some (m\<lparr>freeIds := os_insert i (freeIds m), items := (items m)[nat i := t0]\<rparr>)
     else None)"

definition IdMap_Size :: "'a IdMap \<Rightarrow> nat" where
  "IdMap_Size m = length (items m) - length (freeIds m)"

definition IdMap_Clear :: "'a IdMap \<Rightarrow> 'a IdMap" where
  "IdMap_Clear m = m\<lparr>items := [], freeIds := []\<rparr>"

section \<open>Invariant and abstraction\<close>

definition IdMap_ok :: "'a IdMap \<Rightarrow> bool" where
  "IdMap_ok m \<longleftrightarrow> os_ok (freeIds m) \<and> (\<forall>i\<in>set (freeIds m). in_vector m i) \<and>
     length (items m) \<le> 2 ^ 31"

definition IdMap_has_room :: "'a IdMap \<Rightarrow> bool" where
  "IdMap_has_room m \<longleftrightarrow> freeIds m \<noteq> [] \<or> length (items m) < 2 ^ 31"

definition IdMap_lookup :: "'a IdMap \<Rightarrow> int \<Rightarrow> 'a option" where
  "IdMap_lookup m i = (if IdMap_IsValidId m i then IdMap_Get m i else None)"

lemma IdMap_MaxId_ok: "IdMap_ok m \<Longrightarrow> IdMap_MaxId m = int (length (items m)) - 1"
  unfolding IdMap_MaxId_def by (rule to_int32_id) (auto simp: IdMap_ok_def is_int32_def)

lemma IdMap_IsValidId_ok:
  "IdMap_ok m \<Longrightarrow> IdMap_IsValidId m i \<longleftrightarrow> in_vector m i \<and> i \<notin> set (freeIds m)"
  by (auto simp: IdMap_IsValidId_def IdMap_MaxId_ok in_vector_def)

lemma IdMap_lookup_ok:
  "IdMap_ok m \<Longrightarrow> IdMap_lookup m i =
    (if in_vector m i \<and> i \<notin> set (freeIds m) then Some (items m ! nat i) else None)"
  by (auto simp: IdMap_lookup_def IdMap_IsValidId_ok IdMap_Get_def)

lemma IdMap_lookup_valid: "IdMap_ok m \<Longrightarrow> IdMap_lookup m i \<noteq> None \<longleftrightarrow> IdMap_IsValidId m i"
  by (simp add: IdMap_lookup_ok IdMap_IsValidId_ok)

lemma IdMap_Get_valid: "IdMap_ok m \<Longrightarrow> IdMap_IsValidId m i \<Longrightarrow> IdMap_Get m i = IdMap_lookup m i"
  by (simp add: IdMap_lookup_def)

lemma IdMap_ok_empty [container_ok]: "IdMap_ok IdMap_empty"
  by (simp add: IdMap_ok_def IdMap_empty_def os_ok_Nil)

lemma IdMap_ok_Clear [container_ok]: "IdMap_ok (IdMap_Clear m)"
  by (simp add: IdMap_ok_def IdMap_Clear_def os_ok_Nil)

lemma IdMap_Clear_lookup [container_simps]: "IdMap_lookup (IdMap_Clear m) i = None"
  by (simp add: IdMap_lookup_ok [OF IdMap_ok_Clear]) (simp add: IdMap_Clear_def in_vector_def)

lemma IdMap_Add_cases:
  assumes "IdMap_ok m" "IdMap_has_room m"
  obtains (append) "freeIds m = []"
      "IdMap_Add m x = (int (length (items m)), m\<lparr>items := items m @ [x]\<rparr>)"
    | (reuse) i fs where "freeIds m = i # fs" "in_vector m i" "i \<notin> set fs"
      "IdMap_Add m x = (i, m\<lparr>freeIds := fs, items := (items m)[nat i := x]\<rparr>)"
proof (cases "freeIds m")
  case Nil
  then have "length (items m) < 2 ^ 31" using assms by (simp add: IdMap_has_room_def)
  then have "to_int32 (int (length (items m))) = int (length (items m))"
    by (intro to_int32_id) (simp add: is_int32_def)
  with Nil show ?thesis by (intro append) (simp_all add: IdMap_Add_def Let_def)
next
  case (Cons i fs)
  then have "i \<notin> set fs" "in_vector m i"
    using assms(1) by (auto simp: IdMap_ok_def os_ok_def)
  moreover then have "os_erase i (freeIds m) = fs"
    using Cons by (auto simp: os_erase_def intro!: filter_True)
  ultimately show ?thesis using Cons by (intro reuse) (simp_all add: IdMap_Add_def)
qed

lemma IdMap_ok_Add:
  assumes "IdMap_ok m" "IdMap_has_room m"
  shows "IdMap_ok (snd (IdMap_Add m x))"
  using assms
  by (rule IdMap_Add_cases [where x = x])
    (use assms in \<open>auto simp: IdMap_ok_def in_vector_def os_ok_def IdMap_has_room_def\<close>)

lemma IdMap_Add_fresh:
  assumes "IdMap_ok m" "IdMap_has_room m"
  shows "IdMap_lookup m (fst (IdMap_Add m x)) = None"
  using assms
  by (rule IdMap_Add_cases [where x = x])
    (use assms in \<open>auto simp: IdMap_lookup_ok in_vector_def\<close>)

lemma IdMap_Add_lookup:
  assumes "IdMap_ok m" "IdMap_has_room m"
  shows "IdMap_lookup (snd (IdMap_Add m x)) = (IdMap_lookup m)(fst (IdMap_Add m x) \<mapsto> x)"
  using assms
proof (rule IdMap_Add_cases [where x = x])
  assume "freeIds m = []" "IdMap_Add m x = (int (length (items m)), m\<lparr>items := items m @ [x]\<rparr>)"
  then show ?thesis
    using assms IdMap_ok_Add [OF assms, of x]
    by (auto simp: IdMap_lookup_ok in_vector_def fun_eq_iff nth_append)
next
  fix i fs
  assume "freeIds m = i # fs" "in_vector m i" "i \<notin> set fs"
    "IdMap_Add m x = (i, m\<lparr>freeIds := fs, items := (items m)[nat i := x]\<rparr>)"
  then show ?thesis
    using assms IdMap_ok_Add [OF assms, of x]
    by (auto simp: IdMap_lookup_ok in_vector_def fun_eq_iff nth_list_update eq_nat_nat_iff)
qed

lemma IdMap_Add_nonneg:
  assumes "IdMap_ok m" "IdMap_has_room m"
  shows "0 \<le> fst (IdMap_Add m x)"
  using assms by (rule IdMap_Add_cases [where x = x]) (auto simp: in_vector_def)

lemma IdMap_Remove_valid:
  assumes "IdMap_ok m" "IdMap_lookup m i \<noteq> None"
  obtains m' where "IdMap_Remove t0 m i = Some m'" "IdMap_ok m'"
    "IdMap_lookup m' = (IdMap_lookup m)(i := None)"
proof -
  let ?m' = "m\<lparr>freeIds := os_insert i (freeIds m), items := (items m)[nat i := t0]\<rparr>"
  have i: "in_vector m i" "i \<notin> set (freeIds m)"
    using assms by (auto simp: IdMap_lookup_ok split: if_splits)
  then have ok: "IdMap_ok ?m'"
    using assms(1) by (auto simp: IdMap_ok_def in_vector_def os_ok_insert set_os_insert)
  have "IdMap_lookup ?m' = (IdMap_lookup m)(i := None)"
    using i assms(1) ok
    by (auto simp: IdMap_lookup_ok in_vector_def set_os_insert fun_eq_iff nth_list_update)
  with ok i show ?thesis by (intro that [of ?m']) (simp_all add: IdMap_Remove_def)
qed

text \<open>The reused id is the smallest id that is not in use.\<close>

lemma IdMap_Add_least:
  assumes "IdMap_ok m" "IdMap_has_room m" "0 \<le> j" "j < fst (IdMap_Add m x)"
  shows "IdMap_IsValidId m j"
  using assms(1,2)
proof (rule IdMap_Add_cases [where x = x])
  fix i fs
  assume "freeIds m = i # fs" "in_vector m i"
    "IdMap_Add m x = (i, m\<lparr>freeIds := fs, items := (items m)[nat i := x]\<rparr>)"
  then show ?thesis
    using assms os_ok_hd_least [of "freeIds m" j]
    by (auto simp: IdMap_IsValidId_ok IdMap_ok_def in_vector_def)
qed (use assms in \<open>auto simp: IdMap_IsValidId_ok in_vector_def\<close>)

lemma IdMap_ids_finite: "finite {i. IdMap_IsValidId m i}"
  by (rule finite_subset [of _ "{0..IdMap_MaxId m}"]) (auto simp: IdMap_IsValidId_def)

lemma IdMap_Size_card:
  assumes "IdMap_ok m"
  shows "IdMap_Size m = card {i. IdMap_IsValidId m i}"
proof -
  let ?all = "{0..<int (length (items m))}"
  have "{i. IdMap_IsValidId m i} = ?all - set (freeIds m)"
    using assms by (auto simp: IdMap_IsValidId_ok in_vector_def)
  moreover have "set (freeIds m) \<subseteq> ?all" "distinct (freeIds m)"
    using assms by (auto simp: IdMap_ok_def in_vector_def os_ok_distinct)
  ultimately show ?thesis
    by (simp add: IdMap_Size_def card_Diff_subset distinct_card)
qed

section \<open>The contract of an id table\<close>

locale id_table =
  fixes lookup :: "'t \<Rightarrow> int \<Rightarrow> 'a option"
    and add :: "'t \<Rightarrow> 'a \<Rightarrow> int \<times> 't"
    and remove :: "'t \<Rightarrow> int \<Rightarrow> 't option"
    and ok :: "'t \<Rightarrow> bool"
    and room :: "'t \<Rightarrow> bool"
  assumes add_ok: "ok t \<Longrightarrow> room t \<Longrightarrow> ok (snd (add t x))"
    and add_fresh: "ok t \<Longrightarrow> room t \<Longrightarrow> lookup t (fst (add t x)) = None"
    and add_nonneg: "ok t \<Longrightarrow> room t \<Longrightarrow> 0 \<le> fst (add t x)"
    and add_lookup: "ok t \<Longrightarrow> room t \<Longrightarrow>
      lookup (snd (add t x)) = (lookup t)(fst (add t x) \<mapsto> x)"
    and remove_ok: "ok t \<Longrightarrow> lookup t i \<noteq> None \<Longrightarrow>
      \<exists>t'. remove t i = Some t' \<and> ok t' \<and> lookup t' = (lookup t)(i := None)"
begin

lemma add_keeps: "ok t \<Longrightarrow> room t \<Longrightarrow> lookup t i = Some y \<Longrightarrow>
    i \<noteq> fst (add t x) \<and> lookup (snd (add t x)) i = Some y"
  using add_fresh [of t x] by (auto simp: add_lookup)

lemma add_dom: "ok t \<Longrightarrow> room t \<Longrightarrow>
    dom (lookup (snd (add t x))) = insert (fst (add t x)) (dom (lookup t))"
  by (simp add: add_lookup)

lemma add_then_remove:
  assumes "ok t" "room t"
  shows "\<exists>t'. remove (snd (add t x)) (fst (add t x)) = Some t' \<and> ok t' \<and> lookup t' = lookup t"
proof -
  obtain t' where "remove (snd (add t x)) (fst (add t x)) = Some t'" "ok t'"
    "lookup t' = (lookup (snd (add t x)))(fst (add t x) := None)"
    using remove_ok [OF add_ok [OF assms, of x], of "fst (add t x)"] assms
    by (auto simp: add_lookup)
  then show ?thesis
    using add_fresh [OF assms, of x] by (auto simp: add_lookup [OF assms] fun_eq_iff)
qed

end

interpretation idmap: id_table IdMap_lookup IdMap_Add "IdMap_Remove t0" IdMap_ok IdMap_has_room
  for t0 :: "'a"
proof (unfold_locales, goal_cases)
  case (5 t i)
  then show ?case by (metis IdMap_Remove_valid)
qed (auto simp: IdMap_ok_Add IdMap_Add_fresh IdMap_Add_nonneg IdMap_Add_lookup)

text \<open>\<open>NextId\<close> is a cursor over the ids in use.\<close>

lemma IdMap_NextId_spec:
  assumes "IdMap_ok m" "-1 \<le> i"
  shows "(\<forall>j. IdMap_IsValidId m j \<and> i < j \<longrightarrow>
      IdMap_IsValidId m (IdMap_NextId m i) \<and> i < IdMap_NextId m i \<and> IdMap_NextId m i \<le> j) \<and>
    ((\<forall>j. IdMap_IsValidId m j \<longrightarrow> j \<le> i) \<longrightarrow> IdMap_NextId m i = -1)"
  using assms
proof (induction m i rule: IdMap_NextId.induct)
  case (1 m i)
  show ?case
  proof (cases "i \<ge> IdMap_MaxId m")
    case True
    then show ?thesis by (auto simp: IdMap_NextId.simps [of m i] IdMap_IsValidId_def)
  next
    case below: False
    show ?thesis
    proof (cases "i + 1 \<in> set (freeIds m)")
      case True
      then have eq: "IdMap_NextId m i = IdMap_NextId m (i + 1)"
        using below by (simp add: IdMap_NextId.simps [of m i])
      have skip: "IdMap_IsValidId m j \<Longrightarrow> i < j \<longleftrightarrow> i + 1 < j" for j
        using True by (cases "j = i + 1") (auto simp: IdMap_IsValidId_def)
      show ?thesis
        using "1.IH" [OF below True "1.prems"(1)] "1.prems"(2) skip unfolding eq by force
    next
      case False
      then have "IdMap_NextId m i = i + 1"
        using below by (simp add: IdMap_NextId.simps [of m i])
      moreover have "IdMap_IsValidId m (i + 1)"
        using False below "1.prems" by (simp add: IdMap_IsValidId_def)
      ultimately show ?thesis by force
    qed
  qed
qed

interpretation idmap_cursor: id_cursor "\<lambda>m. {i. IdMap_IsValidId m i}" IdMap_NextId IdMap_ok
proof (unfold_locales, goal_cases)
  case (3 m i j)
  then show ?case using IdMap_NextId_spec [of m i] by blast
next
  case (4 m i)
  then show ?case using IdMap_NextId_spec [of m i] by simp
qed (simp_all add: IdMap_ids_finite, simp add: IdMap_IsValidId_def)

end
