(* ===== verification/Guest.thy ===== *)
theory Guest
  imports Containers
begin

text \<open>
  The data the server exchanges with a guest process: the Haiku structures of
  \<^verbatim>\<open>shared_headers/\<close>, their decoding from guest memory, and the two primitives of
  \<^verbatim>\<open>hyclone_server/sys/linux/server_native.cpp\<close> that copy between address spaces. A read
  delivers the bytes the kernel found; a write is recorded as the object written, so that a
  theorem can say what reached the guest.
\<close>

section \<open>Haiku structures\<close>

record haiku_port_info =
  pi_port :: int
  pi_team :: int
  pi_name :: string
  pi_capacity :: int
  pi_queue_count :: int
  pi_total_count :: int

record haiku_port_message_info =
  mi_size :: int
  mi_sender :: int
  mi_sender_group :: int
  mi_sender_team :: int

record haiku_sem_info =
  si_sem :: int
  si_team :: int
  si_name :: string
  si_count :: int

text \<open>The name of an area is the raw 32-byte field: it comes from the guest as it is.\<close>

record haiku_area_info =
  ai_area :: int
  ai_name :: "byte list"
  ai_size :: int
  ai_lock :: int
  ai_protection :: int
  ai_team :: int
  ai_ram_size :: int
  ai_copy_count :: int
  ai_in_count :: int
  ai_out_count :: int
  ai_address :: int

record haiku_team_info =
  ti_team :: int
  ti_thread_count :: int
  ti_image_count :: int
  ti_area_count :: int
  ti_debugger_nub_thread :: int
  ti_debugger_nub_port :: int
  ti_argc :: int
  ti_args :: "byte list"
  ti_uid :: int
  ti_gid :: int
  ti_real_uid :: int
  ti_real_gid :: int
  ti_group_id :: int
  ti_session_id :: int
  ti_parent :: int
  ti_name :: "byte list"
  ti_start_time :: int

record haiku_thread_info =
  hi_thread :: int
  hi_team :: int
  hi_name :: "byte list"
  hi_state :: int
  hi_priority :: int
  hi_sem :: int
  hi_user_time :: int
  hi_kernel_time :: int
  hi_stack_base :: int
  hi_stack_end :: int

text \<open>
  Of an image the server reads the id and the type; the other fields travel as one block of
  bytes, those of \<open>basic_info\<close> (offsets 8 to 1104) and those after it.
\<close>

record haiku_image_info =
  ii_id :: int
  ii_type :: int
  ii_rest :: "byte list"

record haiku_extended_image_info =
  xi_basic_info :: haiku_image_info
  xi_rest :: "byte list"

section \<open>Decoding\<close>

definition field :: "nat \<Rightarrow> nat \<Rightarrow> byte list \<Rightarrow> byte list" where
  "field off n bs = take n (drop off bs)"

definition i32_at :: "nat \<Rightarrow> byte list \<Rightarrow> int" where
  "i32_at off bs = to_int32 (le_val (field off 4 bs))"

definition u32_at :: "nat \<Rightarrow> byte list \<Rightarrow> int" where
  "u32_at off bs = le_val (field off 4 bs)"

definition u64_at :: "nat \<Rightarrow> byte list \<Rightarrow> int" where
  "u64_at off bs = le_val (field off 8 bs)"

definition sizeof_area_info :: int where "sizeof_area_info = 88"
definition sizeof_team_info :: int where "sizeof_team_info = 160"
definition sizeof_thread_info :: int where "sizeof_thread_info = 88"
definition sizeof_port_info :: int where "sizeof_port_info = 52"
definition sizeof_port_message_info :: int where "sizeof_port_message_info = 24"
definition sizeof_image_info :: int where "sizeof_image_info = 1104"
definition sizeof_extended_image_info :: int where "sizeof_extended_image_info = 1136"

lemmas sizeof_defs = sizeof_area_info_def sizeof_team_info_def sizeof_thread_info_def
  sizeof_port_info_def sizeof_port_message_info_def sizeof_image_info_def
  sizeof_extended_image_info_def

definition dec_area_info :: "byte list \<Rightarrow> haiku_area_info" where
  "dec_area_info bs =
    \<lparr>ai_area = i32_at 0 bs, ai_name = field 4 32 bs, ai_size = u64_at 40 bs, ai_lock = u32_at 48 bs,
     ai_protection = u32_at 52 bs, ai_team = i32_at 56 bs, ai_ram_size = u32_at 60 bs,
     ai_copy_count = u32_at 64 bs, ai_in_count = u32_at 68 bs, ai_out_count = u32_at 72 bs,
     ai_address = u64_at 80 bs\<rparr>"

definition dec_team_info :: "byte list \<Rightarrow> haiku_team_info" where
  "dec_team_info bs =
    \<lparr>ti_team = i32_at 0 bs, ti_thread_count = i32_at 4 bs, ti_image_count = i32_at 8 bs,
     ti_area_count = i32_at 12 bs, ti_debugger_nub_thread = i32_at 16 bs,
     ti_debugger_nub_port = i32_at 20 bs, ti_argc = i32_at 24 bs, ti_args = field 28 64 bs,
     ti_uid = u32_at 92 bs, ti_gid = u32_at 96 bs, ti_real_uid = u32_at 100 bs,
     ti_real_gid = u32_at 104 bs, ti_group_id = i32_at 108 bs, ti_session_id = i32_at 112 bs,
     ti_parent = i32_at 116 bs, ti_name = field 120 32 bs, ti_start_time = u64_at 152 bs\<rparr>"

definition dec_thread_info :: "byte list \<Rightarrow> haiku_thread_info" where
  "dec_thread_info bs =
    \<lparr>hi_thread = i32_at 0 bs, hi_team = i32_at 4 bs, hi_name = field 8 32 bs,
     hi_state = u32_at 40 bs, hi_priority = i32_at 44 bs, hi_sem = i32_at 48 bs,
     hi_user_time = u64_at 56 bs, hi_kernel_time = u64_at 64 bs, hi_stack_base = u64_at 72 bs,
     hi_stack_end = u64_at 80 bs\<rparr>"

definition dec_extended_image_info :: "byte list \<Rightarrow> haiku_extended_image_info" where
  "dec_extended_image_info bs =
    \<lparr>xi_basic_info = \<lparr>ii_id = i32_at 0 bs, ii_type = u32_at 4 bs, ii_rest = field 8 1096 bs\<rparr>,
     xi_rest = drop 1104 bs\<rparr>"

section \<open>Copying between address spaces\<close>

datatype guest_object =
    OBytes "byte list"
  | OInt32 int
  | OUint64 int
  | OInt32s "int list"
  | OInt64s "int list"
  | OPortInfo haiku_port_info
  | OPortMessageInfo haiku_port_message_info
  | OAreaInfo haiku_area_info
  | OTeamInfo haiku_team_info
  | OThreadInfo haiku_thread_info
  | OImageInfo haiku_image_info
  | OTransferAreaArgs int int int int
  | OInstallDebuggerArgs int int

fun size_of :: "guest_object \<Rightarrow> int" where
  "size_of (OBytes bs) = int (length bs)"
| "size_of (OInt32 _) = 4"
| "size_of (OUint64 _) = 8"
| "size_of (OInt32s xs) = 4 * int (length xs)"
| "size_of (OInt64s xs) = 8 * int (length xs)"
| "size_of (OPortInfo _) = sizeof_port_info"
| "size_of (OPortMessageInfo _) = sizeof_port_message_info"
| "size_of (OAreaInfo _) = sizeof_area_info"
| "size_of (OTeamInfo _) = sizeof_team_info"
| "size_of (OThreadInfo _) = sizeof_thread_info"
| "size_of (OImageInfo _) = sizeof_image_info"
| "size_of (OTransferAreaArgs _ _ _ _) = 24"
| "size_of (OInstallDebuggerArgs _ _) = 12"

text \<open>
  What the host kernel answers. \<open>vm_read pid addr n\<close> is the result of \<open>process_vm_readv\<close>:
  the bytes transferred, or \<open>None\<close> for -1; \<open>vm_write pid addr n\<close> says whether
  \<open>process_vm_writev\<close> transferred all \<open>n\<close> bytes of its single segment. The clocks are the
  readings of \<open>steady_clock\<close> in nanoseconds and \<open>system_clock\<close> in microseconds.
\<close>

record host =
  vm_read :: "int \<Rightarrow> int \<Rightarrow> int \<Rightarrow> byte list option"
  vm_write :: "int \<Rightarrow> int \<Rightarrow> int \<Rightarrow> bool"
  steady_ns :: int
  system_us :: int

definition SIZE_ERROR :: int where
  "SIZE_ERROR = 2 ^ 64 - 1"

definition server_read_process_memory ::
    "host \<Rightarrow> int \<Rightarrow> int \<Rightarrow> int \<Rightarrow> int \<times> byte list" where
  "server_read_process_memory h pid addr n =
    (if n = 0 then (0, [])
     else case vm_read h pid addr n of
       None \<Rightarrow> (SIZE_ERROR, [])
     | Some bs \<Rightarrow> (int (length bs), bs))"

definition server_write_process_memory :: "host \<Rightarrow> int \<Rightarrow> int \<Rightarrow> guest_object \<Rightarrow> int" where
  "server_write_process_memory h pid addr obj =
    (if size_of obj = 0 then 0
     else if vm_write h pid addr (size_of obj) then size_of obj else SIZE_ERROR)"

text \<open>The test \<open>read(addr, buf, n) != n\<close> that guards every use of a guest pointer.\<close>

definition read_exact :: "host \<Rightarrow> int \<Rightarrow> int \<Rightarrow> int \<Rightarrow> byte list option" where
  "read_exact h pid addr n =
    (let (k, bs) = server_read_process_memory h pid addr n in if k \<noteq> n then None else Some bs)"

definition write_exact :: "host \<Rightarrow> int \<Rightarrow> int \<Rightarrow> guest_object \<Rightarrow> bool" where
  "write_exact h pid addr obj \<longleftrightarrow> server_write_process_memory h pid addr obj = size_of obj"

lemma read_exact_length:
  "read_exact h pid addr n = Some bs \<Longrightarrow> n < SIZE_ERROR \<Longrightarrow> int (length bs) = n"
  by (auto simp: read_exact_def server_read_process_memory_def split: if_splits option.splits)

lemma write_exact_iff:
  "size_of obj < SIZE_ERROR \<Longrightarrow>
    write_exact h pid addr obj \<longleftrightarrow> size_of obj = 0 \<or> vm_write h pid addr (size_of obj)"
  by (auto simp: write_exact_def server_write_process_memory_def)

type_synonym guest_write = "int \<times> int \<times> guest_object"

end
