(* ===== verification/ServerTime.thy ===== *)
theory ServerTime
  imports Guest
begin

text \<open>
  \<^verbatim>\<open>hyclone_server/server_time.h\<close>: the conversion of a Haiku (flags, timeout) pair into the
  relative timeout of the wait primitives. \<open>bigtime_t\<close> is an unsigned 64-bit count of
  microseconds.
\<close>

definition B_INFINITE_TIMEOUT :: int where "B_INFINITE_TIMEOUT = 9223372036854775807"
definition B_RELATIVE_TIMEOUT :: int where "B_RELATIVE_TIMEOUT = 0x8"
definition B_ABSOLUTE_TIMEOUT :: int where "B_ABSOLUTE_TIMEOUT = 0x10"
definition B_TIMEOUT_REAL_TIME_BASE :: int where "B_TIMEOUT_REAL_TIME_BASE = 0x40"

lemmas timeout_flag_defs = B_RELATIVE_TIMEOUT_def B_ABSOLUTE_TIMEOUT_def
  B_TIMEOUT_REAL_TIME_BASE_def

text \<open>\<open>steady_clock\<close> counts nanoseconds in a signed 64-bit integer.\<close>

definition kMaxTimePoint :: int where
  "kMaxTimePoint = (2 ^ 63 - 1) div 1000"

definition has_flag :: "int \<Rightarrow> int \<Rightarrow> bool" where
  "has_flag flags f \<longleftrightarrow> flags AND f \<noteq> 0"

definition server_is_infinite_timeout :: "host \<Rightarrow> int \<Rightarrow> int \<Rightarrow> bool" where
  "server_is_infinite_timeout h timeout flags \<longleftrightarrow>
     timeout = B_INFINITE_TIMEOUT \<or> timeout > kMaxTimePoint \<or>
     (has_flag flags B_RELATIVE_TIMEOUT \<and> timeout > (2 ^ 63 - 1 - steady_ns h) div 1000)"

definition server_relative_timeout :: "host \<Rightarrow> int \<Rightarrow> int \<Rightarrow> int" where
  "server_relative_timeout h flags timeout =
    (if \<not> has_flag flags (B_RELATIVE_TIMEOUT OR B_ABSOLUTE_TIMEOUT) then B_INFINITE_TIMEOUT
     else if server_is_infinite_timeout h timeout flags then B_INFINITE_TIMEOUT
     else if has_flag flags B_ABSOLUTE_TIMEOUT then
       (let now = (if has_flag flags B_TIMEOUT_REAL_TIME_BASE then system_us h
                   else steady_ns h div 1000)
        in if timeout \<le> now then 0 else timeout - now)
     else timeout)"

text \<open>The clock an absolute deadline is measured against.\<close>

definition deadline_clock :: "host \<Rightarrow> int \<Rightarrow> int" where
  "deadline_clock h flags =
    (if has_flag flags B_TIMEOUT_REAL_TIME_BASE then system_us h else steady_ns h div 1000)"

lemma has_flag_or: "has_flag flags (a OR b) \<longleftrightarrow> has_flag flags a \<or> has_flag flags b"
  by (simp add: has_flag_def bit.conj_disj_distrib or_eq_0_iff)

text \<open>
  C37: a timed request is turned into a wait that ends exactly at the deadline. For an absolute
  deadline the result counts from the clock the flags select and is 0 (a poll) when the deadline
  has passed; a relative one is passed on. Either way the result is finite and in the range the
  wait primitives accept.
\<close>

theorem relative_timeout_meets_deadline:
  assumes "has_flag flags B_ABSOLUTE_TIMEOUT \<or> has_flag flags B_RELATIVE_TIMEOUT"
    and "\<not> server_is_infinite_timeout h timeout flags"
    and "0 \<le> timeout" and "0 \<le> steady_ns h" and "0 \<le> system_us h"
  shows "0 \<le> server_relative_timeout h flags timeout \<and>
    server_relative_timeout h flags timeout \<le> kMaxTimePoint \<and>
    server_relative_timeout h flags timeout =
      (if has_flag flags B_ABSOLUTE_TIMEOUT
       then max timeout (deadline_clock h flags) - deadline_clock h flags else timeout)"
proof -
  have le: "timeout \<le> kMaxTimePoint"
    using assms(2) by (simp add: server_is_infinite_timeout_def)
  have clock: "0 \<le> deadline_clock h flags"
    using assms(4,5) by (simp add: deadline_clock_def pos_imp_zdiv_nonneg_iff)
  have "server_relative_timeout h flags timeout =
      (if has_flag flags B_ABSOLUTE_TIMEOUT
       then max timeout (deadline_clock h flags) - deadline_clock h flags else timeout)"
    using assms(1,2)
    by (auto simp: server_relative_timeout_def deadline_clock_def has_flag_or Let_def)
  then show ?thesis using le clock assms(3) by auto
qed

definition sample_host :: host where
  "sample_host = \<lparr>vm_read = (\<lambda>_ _ _. None), vm_write = (\<lambda>_ _ _. True), steady_ns = 5000000,
     system_us = 7000\<rparr>"

theorem relative_timeout_meets_deadline_witness:
  "server_relative_timeout sample_host 0x10 6000 = 1000 \<and>
   server_relative_timeout sample_host 0x50 6000 = 0 \<and>
   server_relative_timeout sample_host 0x8 6000 = 6000"
proof -
  note defs = has_flag_def timeout_flag_defs server_is_infinite_timeout_def kMaxTimePoint_def
    B_INFINITE_TIMEOUT_def sample_host_def deadline_clock_def
  show ?thesis
    using relative_timeout_meets_deadline [of "0x10" sample_host 6000]
      relative_timeout_meets_deadline [of "0x50" sample_host 6000]
      relative_timeout_meets_deadline [of "0x8" sample_host 6000]
    by (simp add: defs)
qed

end
