(* ===== verification/Semaphore.thy ===== *)
theory Semaphore
  imports ServerTime
begin

text \<open>
  The class \<open>Semaphore\<close> of \<^verbatim>\<open>hyclone_server/hsemaphore.cpp\<close>. Every member runs under
  \<open>_countLock\<close>; a member that waits releases the lock in the middle, so it is two atomic
  halves, \<open>_begin\<close> and \<open>_end\<close>. \<open>Inl\<close> of a begin half is a result without waiting. The
  whole member takes \<open>env\<close>, what other threads did to the semaphore during the wait. The step
  relation at the end interleaves the halves of any number of threads.
\<close>

record semaphore =
  sem_info :: haiku_sem_info
  sem_count :: int
  sem_registered :: bool
  sem_waitCount :: int

text \<open>
  \<open>strncpy\<close> into a 32-byte array whose last byte is then cleared. The constructor leaves the
  id unset; \<open>System::CreateSemaphore\<close> fills it in before the object is shared.
\<close>

definition os_name :: "byte list \<Rightarrow> string" where
  "os_name name = take 31 (cstr name)"

definition Semaphore_new :: "int \<Rightarrow> int \<Rightarrow> byte list \<Rightarrow> semaphore" where
  "Semaphore_new pid count name =
    \<lparr>sem_info = \<lparr>si_sem = 0, si_team = pid, si_name = os_name name, si_count = count\<rparr>,
     sem_count = count, sem_registered = False, sem_waitCount = 0\<rparr>"

definition take_count :: "semaphore \<Rightarrow> int \<Rightarrow> semaphore" where
  "take_count s count = s\<lparr>sem_count := to_int32 (sem_count s - count)\<rparr>"

definition sem_wait_done :: "semaphore \<Rightarrow> int \<Rightarrow> bool" where
  "sem_wait_done s count \<longleftrightarrow> \<not> sem_registered s \<or> sem_count s \<ge> count"

definition Semaphore_Acquire_begin ::
    "semaphore \<Rightarrow> int \<Rightarrow> (int \<times> semaphore) + semaphore" where
  "Semaphore_Acquire_begin s count =
    (if sem_count s \<ge> count then Inl (B_OK, take_count s count)
     else Inr (s\<lparr>sem_waitCount := sem_waitCount s + 1\<rparr>))"

definition Semaphore_Acquire_end :: "semaphore \<Rightarrow> int \<Rightarrow> int \<times> semaphore" where
  "Semaphore_Acquire_end s0 count =
    (let s = s0\<lparr>sem_waitCount := sem_waitCount s0 - 1\<rparr>
     in if \<not> sem_registered s then (B_BAD_SEM_ID, s) else (B_OK, take_count s count))"

definition Semaphore_Acquire ::
    "(semaphore \<Rightarrow> semaphore) \<Rightarrow> semaphore \<Rightarrow> int \<Rightarrow> int \<times> semaphore" where
  "Semaphore_Acquire env s count =
    (case Semaphore_Acquire_begin s count of
       Inl r \<Rightarrow> r
     | Inr s1 \<Rightarrow> Semaphore_Acquire_end (env s1) count)"

definition Semaphore_TryAcquire :: "semaphore \<Rightarrow> int \<Rightarrow> int \<times> semaphore" where
  "Semaphore_TryAcquire s count =
    (if sem_count s \<ge> count then (B_OK, take_count s count) else (B_WOULD_BLOCK, s))"

text \<open>\<open>TryAcquireFor\<close> counts itself as a waiter before it looks at the count.\<close>

definition Semaphore_TryAcquireFor_begin :: "semaphore \<Rightarrow> semaphore" where
  "Semaphore_TryAcquireFor_begin s = s\<lparr>sem_waitCount := sem_waitCount s + 1\<rparr>"

definition Semaphore_TryAcquireFor_end :: "semaphore \<Rightarrow> int \<Rightarrow> int \<Rightarrow> int \<times> semaphore" where
  "Semaphore_TryAcquireFor_end s0 count timeout =
    (let s = s0\<lparr>sem_waitCount := sem_waitCount s0 - 1\<rparr>
     in if \<not> sem_registered s then (B_BAD_SEM_ID, s)
        else if sem_count s < count then (if timeout = 0 then B_WOULD_BLOCK else B_TIMED_OUT, s)
        else (B_OK, take_count s count))"

definition Semaphore_TryAcquireFor ::
    "(semaphore \<Rightarrow> semaphore) \<Rightarrow> semaphore \<Rightarrow> int \<Rightarrow> int \<Rightarrow> int \<times> semaphore" where
  "Semaphore_TryAcquireFor env s count timeout =
    Semaphore_TryAcquireFor_end (env (Semaphore_TryAcquireFor_begin s)) count timeout"

definition Semaphore_TryAcquireUntil_begin ::
    "semaphore \<Rightarrow> int \<Rightarrow> (int \<times> semaphore) + semaphore" where
  "Semaphore_TryAcquireUntil_begin s count =
    (if sem_count s \<ge> count then Inl (B_OK, take_count s count)
     else Inr (s\<lparr>sem_waitCount := sem_waitCount s + 1\<rparr>))"

definition Semaphore_TryAcquireUntil_end :: "semaphore \<Rightarrow> int \<Rightarrow> int \<times> semaphore" where
  "Semaphore_TryAcquireUntil_end s0 count =
    (let s = s0\<lparr>sem_waitCount := sem_waitCount s0 - 1\<rparr>
     in if \<not> sem_registered s then (B_BAD_SEM_ID, s)
        else if sem_count s < count then (B_TIMED_OUT, s)
        else (B_OK, take_count s count))"

definition Semaphore_TryAcquireUntil ::
    "(semaphore \<Rightarrow> semaphore) \<Rightarrow> semaphore \<Rightarrow> int \<Rightarrow> int \<times> semaphore" where
  "Semaphore_TryAcquireUntil env s count =
    (case Semaphore_TryAcquireUntil_begin s count of
       Inl r \<Rightarrow> r
     | Inr s1 \<Rightarrow> Semaphore_TryAcquireUntil_end (env s1) count)"

definition Semaphore_Release :: "semaphore \<Rightarrow> int \<Rightarrow> semaphore" where
  "Semaphore_Release s count = s\<lparr>sem_count := to_int32 (sem_count s + count)\<rparr>"

definition Semaphore_GetSemCount :: "semaphore \<Rightarrow> int" where
  "Semaphore_GetSemCount s = (if sem_count s \<ge> 0 then sem_count s else - sem_waitCount s)"

section \<open>Concurrent use of one semaphore\<close>

text \<open>
  A system of threads on one semaphore. \<open>waiting\<close> holds the count each blocked thread asked
  for and whether its wait is timed; \<open>acquired\<close> and \<open>released\<close> are ghost totals of the units
  taken by completed acquisitions and put back by releases.
\<close>

datatype wait_kind = Untimed | For int | Until

record sem_sys =
  the_sem :: semaphore
  waiting :: "int \<rightharpoonup> int \<times> wait_kind"
  acquired :: int
  released :: int

definition sem_result :: "sem_sys \<Rightarrow> int \<Rightarrow> int \<times> semaphore \<Rightarrow> sem_sys" where
  "sem_result y c r =
    y\<lparr>the_sem := snd r, acquired := acquired y + (if fst r = B_OK then c else 0)\<rparr>"

inductive sem_step :: "sem_sys \<Rightarrow> sem_sys \<Rightarrow> bool" where
  acquire_now: "waiting y t = None \<Longrightarrow> Semaphore_Acquire_begin (the_sem y) c = Inl r \<Longrightarrow>
    sem_step y (sem_result y c r)"
| acquire_block: "waiting y t = None \<Longrightarrow> Semaphore_Acquire_begin (the_sem y) c = Inr s \<Longrightarrow>
    sem_step y (y\<lparr>the_sem := s, waiting := (waiting y)(t \<mapsto> (c, Untimed))\<rparr>)"
| acquire_wake: "waiting y t = Some (c, Untimed) \<Longrightarrow> sem_wait_done (the_sem y) c \<Longrightarrow>
    sem_step y (sem_result (y\<lparr>waiting := (waiting y)(t := None)\<rparr>) c
      (Semaphore_Acquire_end (the_sem y) c))"
| try_acquire: "waiting y t = None \<Longrightarrow>
    sem_step y (sem_result y c (Semaphore_TryAcquire (the_sem y) c))"
| for_block: "waiting y t = None \<Longrightarrow>
    sem_step y (y\<lparr>the_sem := Semaphore_TryAcquireFor_begin (the_sem y),
      waiting := (waiting y)(t \<mapsto> (c, For d))\<rparr>)"
| for_wake: "waiting y t = Some (c, For d) \<Longrightarrow>
    sem_step y (sem_result (y\<lparr>waiting := (waiting y)(t := None)\<rparr>) c
      (Semaphore_TryAcquireFor_end (the_sem y) c d))"
| until_now: "waiting y t = None \<Longrightarrow> Semaphore_TryAcquireUntil_begin (the_sem y) c = Inl r \<Longrightarrow>
    sem_step y (sem_result y c r)"
| until_block: "waiting y t = None \<Longrightarrow> Semaphore_TryAcquireUntil_begin (the_sem y) c = Inr s \<Longrightarrow>
    sem_step y (y\<lparr>the_sem := s, waiting := (waiting y)(t \<mapsto> (c, Until))\<rparr>)"
| until_wake: "waiting y t = Some (c, Until) \<Longrightarrow>
    sem_step y (sem_result (y\<lparr>waiting := (waiting y)(t := None)\<rparr>) c
      (Semaphore_TryAcquireUntil_end (the_sem y) c))"
| release: "sem_step y (y\<lparr>the_sem := Semaphore_Release (the_sem y) c, released := released y + c\<rparr>)"
| unregister: "sem_step y (y\<lparr>the_sem := (the_sem y)\<lparr>sem_registered := False\<rparr>\<rparr>)"

definition sem_start :: "int \<Rightarrow> int \<Rightarrow> byte list \<Rightarrow> sem_sys" where
  "sem_start pid count name =
    \<lparr>the_sem = (Semaphore_new pid count name)\<lparr>sem_registered := True\<rparr>, waiting = Map.empty,
     acquired = 0, released = 0\<rparr>"

inductive sem_reachable :: "int \<Rightarrow> sem_sys \<Rightarrow> bool" for count where
  start: "sem_reachable count (sem_start pid count name)"
| step: "sem_reachable count y \<Longrightarrow> sem_step y z \<Longrightarrow> sem_reachable count z"

text \<open>The count is always the initial count plus releases minus acquisitions, modulo \<open>2^32\<close>.\<close>

definition sem_balanced :: "int \<Rightarrow> sem_sys \<Rightarrow> bool" where
  "sem_balanced count y \<longleftrightarrow>
     sem_count (the_sem y) = to_int32 (count + released y - acquired y)"

definition sem_waiters_counted :: "sem_sys \<Rightarrow> bool" where
  "sem_waiters_counted y \<longleftrightarrow>
     finite (dom (waiting y)) \<and> sem_waitCount (the_sem y) = int (card (dom (waiting y)))"

lemmas sem_halves = Semaphore_Acquire_begin_def Semaphore_Acquire_end_def
  Semaphore_TryAcquire_def Semaphore_TryAcquireFor_begin_def Semaphore_TryAcquireFor_end_def
  Semaphore_TryAcquireUntil_begin_def Semaphore_TryAcquireUntil_end_def Semaphore_Release_def
  take_count_def

lemma to_int32_add_cong: "to_int32 a = to_int32 b \<Longrightarrow> to_int32 (a + c) = to_int32 (b + c)"
proof -
  have iff: "to_int32 x = to_int32 y \<longleftrightarrow> x mod 2 ^ 32 = y mod 2 ^ 32" for x y
    unfolding to_int32_def
    by (simp add: signed_take_bit_eq_iff_take_bit_eq take_bit_eq_mod)
  assume "to_int32 a = to_int32 b"
  then show ?thesis by (metis iff mod_add_left_eq)
qed

lemma to_int32_idem [simp]: "to_int32 (to_int32 x) = to_int32 x"
  by simp

lemma to_int32_add [simp]: "to_int32 (to_int32 a + c) = to_int32 (a + c)"
  by (rule to_int32_add_cong) simp

lemma to_int32_diff [simp]: "to_int32 (to_int32 a - c) = to_int32 (a - c)"
  using to_int32_add [of a "- c"] by simp

lemma to_int32_add_right [simp]: "to_int32 (c + to_int32 a) = to_int32 (c + a)"
  using to_int32_add [of a c] by (simp add: add.commute)

lemma status_neq_ok [simp]:
  "B_BAD_SEM_ID \<noteq> B_OK" "B_WOULD_BLOCK \<noteq> B_OK" "B_TIMED_OUT \<noteq> B_OK"
  by (simp_all add: status_codes)

lemma sem_step_balanced: "sem_step y z \<Longrightarrow> sem_balanced count y \<Longrightarrow> sem_balanced count z"
  by (induction rule: sem_step.induct)
    (auto simp: sem_balanced_def sem_halves sem_result_def Let_def algebra_simps split: if_splits)

lemma sem_step_waiters: "sem_step y z \<Longrightarrow> sem_waiters_counted y \<Longrightarrow> sem_waiters_counted z"
proof (induction rule: sem_step.induct)
qed (auto simp: sem_waiters_counted_def sem_halves sem_result_def Let_def card_insert_if
    card_Diff_singleton domIff card_dom_pred split: if_splits)

lemma sem_start_inv: "is_int32 count \<Longrightarrow> sem_balanced count (sem_start pid count name) \<and>
    sem_waiters_counted (sem_start pid count name)"
  by (simp add: sem_balanced_def sem_waiters_counted_def sem_start_def Semaphore_new_def)

lemma semaphore_balance:
  assumes "sem_reachable count y" and "is_int32 count"
  shows "sem_count (the_sem y) = to_int32 (count + released y - acquired y)"
    and "sem_waitCount (the_sem y) = int (card (dom (waiting y)))"
proof -
  have "sem_balanced count y \<and> sem_waiters_counted y"
    using assms
    by (induction rule: sem_reachable.induct)
      (auto simp: sem_start_inv intro: sem_step_balanced sem_step_waiters)
  then show "sem_count (the_sem y) = to_int32 (count + released y - acquired y)"
    and "sem_waitCount (the_sem y) = int (card (dom (waiting y)))"
    by (simp_all add: sem_balanced_def sem_waiters_counted_def)
qed

text \<open>
  In every interleaving of acquisitions, timed acquisitions, releases and an unregistration,
  the count is the initial count plus the released minus the acquired units (in 32-bit
  arithmetic), and the wait count is the number of threads blocked in the semaphore.
\<close>

theorem semaphore_conserves_units:
  assumes "sem_reachable count y" and "is_int32 count"
  shows "sem_count (the_sem y) = to_int32 (count + released y - acquired y) \<and>
    sem_waitCount (the_sem y) = int (card (dom (waiting y)))"
  using semaphore_balance [OF assms] by simp

text \<open>
  Runs in which no call asks for, or releases, a negative number of units and the releases do
  not overflow an \<open>int\<close>.
\<close>

inductive sem_fair_run :: "int \<Rightarrow> sem_sys \<Rightarrow> bool" for count where
  fair_start: "sem_fair_run count (sem_start pid count name)"
| fair_step: "sem_fair_run count y \<Longrightarrow> sem_step y z \<Longrightarrow> acquired y \<le> acquired z \<Longrightarrow>
    released y \<le> released z \<Longrightarrow> count + released z \<le> INT_MAX \<Longrightarrow> sem_fair_run count z"

lemma sem_step_enough:
  assumes "sem_step y z" "acquired y < acquired z"
  shows "acquired z - acquired y \<le> sem_count (the_sem y) \<and> released z = released y"
  using assms
  by (induction rule: sem_step.induct)
    (auto simp: sem_halves sem_result_def sem_wait_done_def Let_def split: if_splits)

lemma sem_fair_run_reachable: "sem_fair_run count y \<Longrightarrow> sem_reachable count y"
  by (induction rule: sem_fair_run.induct) (auto intro: sem_reachable.intros)

lemma semaphore_level:
  assumes "sem_fair_run count y" and "0 \<le> count" and "count \<le> INT_MAX"
  shows "acquired y \<le> count + released y"
    and "sem_count (the_sem y) = count + released y - acquired y"
proof -
  have int32: "is_int32 count" using assms(2,3) by (simp add: is_int32_def)
  have val: "sem_count (the_sem u) = count + released u - acquired u"
    if "sem_fair_run count u" "acquired u \<le> count + released u" "0 \<le> acquired u"
      "count + released u \<le> INT_MAX" for u
  proof -
    have "is_int32 (count + released u - acquired u)"
      using that(2-4) by (simp add: is_int32_def)
    then show ?thesis
      using semaphore_balance [OF sem_fair_run_reachable [OF that(1)] int32] by simp
  qed
  have "0 \<le> acquired y \<and> acquired y \<le> count + released y \<and> count + released y \<le> INT_MAX"
    using assms(1)
  proof (induction rule: sem_fair_run.induct)
    case (fair_start pid name)
    then show ?case using assms(2,3) by (simp add: sem_start_def)
  next
    case (fair_step y z)
    then show ?case
      using val [of y] sem_step_enough [OF fair_step.hyps(2)] by fastforce
  qed
  then show "acquired y \<le> count + released y"
    and "sem_count (the_sem y) = count + released y - acquired y"
    using val [OF assms(1)] by simp_all
qed

text \<open>
  C11: no unit is handed out twice. In every interleaving of the calls of all threads in which no
  call asks for or releases a negative number of units, and in which the initial count, not negative,
  plus all released units stays within an \<open>int\<close>, the acquired units never exceed the initial count
  plus the released units, and the count is exactly the difference, so it never goes below zero. The
  source checks neither of the two conditions.
\<close>

theorem semaphore_never_oversold:
  assumes "sem_fair_run count y" and "0 \<le> count" and "count \<le> INT_MAX"
  shows "acquired y \<le> count + released y \<and>
    sem_count (the_sem y) = count + released y - acquired y"
  using semaphore_level [OF assms] by simp_all

text \<open>A run: a semaphore with two units, both acquired by thread 5, thread 6 blocked on it.\<close>

definition sample_taken :: sem_sys where
  "sample_taken = sem_result (sem_start 4 2 ''gate'') 2
     (B_OK, take_count (the_sem (sem_start 4 2 ''gate'')) 2)"

definition sample_blocked :: sem_sys where
  "sample_blocked = sample_taken\<lparr>
     the_sem := (the_sem sample_taken)\<lparr>sem_waitCount := sem_waitCount (the_sem sample_taken) + 1\<rparr>,
     waiting := (waiting sample_taken)(6 \<mapsto> (1, Untimed))\<rparr>"

lemmas sample_sem_defs = sample_blocked_def sample_taken_def sem_start_def Semaphore_new_def
  sem_result_def take_count_def to_int32_def

lemma sample_taken_run: "sem_fair_run 2 sample_taken"
proof (rule sem_fair_run.fair_step [OF sem_fair_run.fair_start [of 2 4 "''gate''"]])
  show "sem_step (sem_start 4 2 ''gate'') sample_taken"
    unfolding sample_taken_def
    by (rule sem_step.acquire_now [where t = 5])
      (simp_all add: sem_start_def Semaphore_Acquire_begin_def Semaphore_new_def)
qed (simp_all add: sample_sem_defs)

lemma sample_blocked_run: "sem_fair_run 2 sample_blocked"
proof (rule sem_fair_run.fair_step [OF sample_taken_run])
  show "sem_step sample_taken sample_blocked"
    unfolding sample_blocked_def
    by (rule sem_step.acquire_block)
      (simp_all add: sample_sem_defs Semaphore_Acquire_begin_def)
qed (simp_all add: sample_sem_defs)

theorem semaphore_conserves_units_witness:
  "sem_count (the_sem sample_blocked) = 0 \<and> sem_waitCount (the_sem sample_blocked) = 1"
  using semaphore_conserves_units [OF sem_fair_run_reachable [OF sample_blocked_run]]
  by (simp add: sample_sem_defs is_int32_def)

theorem semaphore_never_oversold_witness:
  "acquired sample_blocked \<le> 2 + released sample_blocked \<and> sem_count (the_sem sample_blocked) = 0"
  using semaphore_never_oversold [OF sample_blocked_run] by (simp add: sample_sem_defs)

text \<open>
  A poll (\<open>TryAcquireFor\<close> with timeout 0, nothing happening in between) is
  \<open>TryAcquire\<close>, except that a semaphore that is no longer registered is reported as such.
\<close>

theorem semaphore_poll_is_try_acquire:
  "Semaphore_TryAcquireFor id s count 0 =
    (if sem_registered s then Semaphore_TryAcquire s count else (B_BAD_SEM_ID, s))"
  by (simp add: Semaphore_TryAcquireFor_def sem_halves Let_def)

text \<open>
  In such a run \<open>GetSemCount\<close> returns the number of units left and never the negated
  number of waiting threads: its second branch is not reached, since blocked threads do not
  lower the count.
\<close>

theorem semaphore_count_hides_waiters:
  assumes "sem_fair_run count y" and "0 \<le> count" and "count \<le> INT_MAX"
  shows "0 \<le> Semaphore_GetSemCount (the_sem y) \<and>
    Semaphore_GetSemCount (the_sem y) = sem_count (the_sem y)"
  using semaphore_level [OF assms] by (simp add: Semaphore_GetSemCount_def)

theorem semaphore_count_hides_waiters_witness:
  "Semaphore_GetSemCount (the_sem sample_blocked) = 0 \<and> sem_waitCount (the_sem sample_blocked) = 1"
  using semaphore_count_hides_waiters [OF sample_blocked_run] by (simp add: sample_sem_defs)

end
