(* ===== verification/Port.thy ===== *)
theory Port
  imports Semaphore
begin

text \<open>
  The class \<open>Port\<close> of \<^verbatim>\<open>hyclone_server/port.cpp\<close>: a bounded message queue with blocking
  reads and writes. As for semaphores, a member that waits is split at the wait: \<open>_begin\<close> is
  the part before it (\<open>Inl\<close> a result, \<open>Inr\<close> blocked), \<open>_finish\<close> the part that runs when the
  lock is held again, and \<open>env\<close> is what other threads did to the port in between.
\<close>

record port_message =
  msg_data :: "byte list"
  msg_info :: haiku_port_message_info
  msg_code :: int

record port =
  port_info :: haiku_port_info
  port_messages :: "port_message list"
  port_registered :: bool
  port_closed :: bool

definition HAIKU_PORT_MAX_QUEUE_LENGTH :: int where
  "HAIKU_PORT_MAX_QUEUE_LENGTH = 4096"

definition Port_new :: "int \<Rightarrow> int \<Rightarrow> byte list \<Rightarrow> port" where
  "Port_new pid capacity name =
    \<lparr>port_info = \<lparr>pi_port = 0, pi_team = pid, pi_name = os_name name, pi_capacity = capacity,
       pi_queue_count = 0, pi_total_count = 0\<rparr>,
     port_messages = [], port_registered = False, port_closed = False\<rparr>"

abbreviation queue_count :: "port \<Rightarrow> int" where
  "queue_count p \<equiv> pi_queue_count (port_info p)"

abbreviation capacity :: "port \<Rightarrow> int" where
  "capacity p \<equiv> pi_capacity (port_info p)"

abbreviation set_queue_count :: "port \<Rightarrow> int \<Rightarrow> port" where
  "set_queue_count p n \<equiv> p\<lparr>port_info := (port_info p)\<lparr>pi_queue_count := n\<rparr>\<rparr>"

definition with_size :: "port_message \<Rightarrow> port_message" where
  "with_size m = m\<lparr>msg_info := (msg_info m)\<lparr>mi_size := int (length (msg_data m))\<rparr>\<rparr>"

definition Port_Write_finish :: "port \<Rightarrow> port_message \<Rightarrow> int \<times> port" where
  "Port_Write_finish p m =
    (if \<not> port_registered p \<or> port_closed p then (B_BAD_PORT_ID, p)
     else if queue_count p = capacity p then (B_TIMED_OUT, p)
     else (B_OK, (set_queue_count p (to_int32 (queue_count p + 1)))
                   \<lparr>port_messages := port_messages p @ [m]\<rparr>))"

definition Port_Write_begin :: "port \<Rightarrow> port_message \<Rightarrow> int \<Rightarrow> (int \<times> port) + port" where
  "Port_Write_begin p m timeout =
    (if queue_count p = capacity p then
       (if timeout = 0 then Inl (B_WOULD_BLOCK, p) else Inr p)
     else Inl (Port_Write_finish p (with_size m)))"

definition Port_Write ::
    "(port \<Rightarrow> port) \<Rightarrow> port \<Rightarrow> port_message \<Rightarrow> int \<Rightarrow> int \<times> port" where
  "Port_Write env p m timeout =
    (case Port_Write_begin p m timeout of
       Inl r \<Rightarrow> r
     | Inr p' \<Rightarrow> Port_Write_finish (env p') (with_size m))"

text \<open>\<open>writableOrDead\<close> and \<open>readableOrDead\<close>, the predicates of the waits.\<close>

definition writable_or_dead :: "port \<Rightarrow> bool" where
  "writable_or_dead p \<longleftrightarrow> \<not> port_registered p \<or> port_closed p \<or> queue_count p < capacity p"

definition readable_or_dead :: "port \<Rightarrow> bool" where
  "readable_or_dead p \<longleftrightarrow> \<not> port_registered p \<or> port_closed p \<or> queue_count p > 0"

text \<open>
  The message goes to the caller's buffer: \<open>None\<close> leaves it as it was. The front of the queue
  exists because \<open>queue_count\<close> is its length (\<open>port_ok\<close> below); were it empty, \<open>front()\<close>
  would be undefined and the model returns no result.
\<close>

definition Port_Read_finish :: "port \<Rightarrow> (int \<times> port_message option \<times> port) option" where
  "Port_Read_finish p =
    (if \<not> port_registered p then Some (B_BAD_PORT_ID, None, p)
     else if queue_count p = 0 then
       Some (if port_closed p then B_BAD_PORT_ID else B_TIMED_OUT, None, p)
     else case port_messages p of
       [] \<Rightarrow> None
     | m # ms \<Rightarrow>
         Some (B_OK, Some m,
           p\<lparr>port_info := (port_info p)\<lparr>pi_queue_count := to_int32 (queue_count p - 1),
               pi_total_count := to_int32 (pi_total_count (port_info p) + 1)\<rparr>,
             port_messages := ms\<rparr>))"

definition Port_Read_begin ::
    "port \<Rightarrow> int \<Rightarrow> (int \<times> port_message option \<times> port) option + port" where
  "Port_Read_begin p timeout =
    (if queue_count p = 0 then
       (if port_closed p then Inl (Some (B_BAD_PORT_ID, None, p))
        else if timeout = 0 then Inl (Some (B_WOULD_BLOCK, None, p))
        else Inr p)
     else Inl (Port_Read_finish p))"

definition Port_Read ::
    "(port \<Rightarrow> port) \<Rightarrow> port \<Rightarrow> int \<Rightarrow> (int \<times> port_message option \<times> port) option" where
  "Port_Read env p timeout =
    (case Port_Read_begin p timeout of Inl r \<Rightarrow> r | Inr p' \<Rightarrow> Port_Read_finish (env p'))"

definition Port_GetMessageInfo_finish ::
    "port \<Rightarrow> (int \<times> haiku_port_message_info option \<times> port) option" where
  "Port_GetMessageInfo_finish p =
    (if \<not> port_registered p then Some (B_BAD_PORT_ID, None, p)
     else if queue_count p = 0 then
       Some (if port_closed p then B_BAD_PORT_ID else B_TIMED_OUT, None, p)
     else case port_messages p of
       [] \<Rightarrow> None
     | m # _ \<Rightarrow> Some (B_OK, Some (msg_info m), p))"

definition Port_GetMessageInfo_begin ::
    "port \<Rightarrow> int \<Rightarrow> (int \<times> haiku_port_message_info option \<times> port) option + port" where
  "Port_GetMessageInfo_begin p timeout =
    (if queue_count p = 0 then
       (if port_closed p then Inl (Some (B_BAD_PORT_ID, None, p))
        else if timeout = 0 then Inl (Some (B_WOULD_BLOCK, None, p))
        else Inr p)
     else Inl (Port_GetMessageInfo_finish p))"

definition Port_GetMessageInfo ::
    "(port \<Rightarrow> port) \<Rightarrow> port \<Rightarrow> int \<Rightarrow> (int \<times> haiku_port_message_info option \<times> port) option" where
  "Port_GetMessageInfo env p timeout =
    (case Port_GetMessageInfo_begin p timeout of
       Inl r \<Rightarrow> r
     | Inr p' \<Rightarrow> Port_GetMessageInfo_finish (env p'))"

definition Port_Close :: "port \<Rightarrow> int \<times> port" where
  "Port_Close p =
    (if port_closed p then (B_BAD_PORT_ID, p) else (B_OK, p\<lparr>port_closed := True\<rparr>))"

definition Port_SetOwner :: "port \<Rightarrow> int \<Rightarrow> port" where
  "Port_SetOwner p team = p\<lparr>port_info := (port_info p)\<lparr>pi_team := team\<rparr>\<rparr>"

lemmas port_halves = Port_Write_finish_def Port_Write_begin_def Port_Read_finish_def
  Port_Read_begin_def Port_GetMessageInfo_finish_def Port_GetMessageInfo_begin_def
  Port_Close_def Port_SetOwner_def

section \<open>Invariant\<close>

definition port_ok :: "port \<Rightarrow> bool" where
  "port_ok p \<longleftrightarrow> queue_count p = int (length (port_messages p)) \<and> queue_count p \<le> capacity p \<and>
     1 \<le> capacity p \<and> capacity p \<le> HAIKU_PORT_MAX_QUEUE_LENGTH \<and>
     (\<forall>m\<in>set (port_messages p). mi_size (msg_info m) = int (length (msg_data m)))"

lemma port_ok_new:
  "1 \<le> cap \<Longrightarrow> cap \<le> HAIKU_PORT_MAX_QUEUE_LENGTH \<Longrightarrow> port_ok (Port_new pid cap name)"
  by (simp add: port_ok_def Port_new_def)

lemma port_ok_int32:
  "port_ok p \<Longrightarrow> is_int32 (queue_count p + 1) \<and> is_int32 (queue_count p - 1)"
  by (auto simp: port_ok_def is_int32_def HAIKU_PORT_MAX_QUEUE_LENGTH_def)

lemma with_size_size [simp]: "mi_size (msg_info (with_size m)) = int (length (msg_data m))"
  by (simp add: with_size_def)

lemma with_size_data [simp]: "msg_data (with_size m) = msg_data m"
  by (simp add: with_size_def)

lemma Port_Write_finish_ok:
  assumes "port_ok p" "mi_size (msg_info m) = int (length (msg_data m))"
  shows "port_ok (snd (Port_Write_finish p m))"
  using assms port_ok_int32 [OF assms(1)]
  by (auto simp: port_ok_def Port_Write_finish_def)

lemma Port_Read_finish_ok:
  assumes "port_ok p"
  shows "\<exists>r m p'. Port_Read_finish p = Some (r, m, p') \<and> port_ok p'"
  using assms port_ok_int32 [OF assms]
  by (cases "port_messages p") (auto simp: Port_Read_finish_def port_ok_def)

lemma Port_GetMessageInfo_finish_ok:
  "port_ok p \<Longrightarrow> \<exists>r i. Port_GetMessageInfo_finish p = Some (r, i, p)"
  by (cases "port_messages p") (auto simp: Port_GetMessageInfo_finish_def port_ok_def)

section \<open>The channel contract\<close>

text \<open>
  What a first-in first-out channel promises, over the list of its contents. The client lemma
  runs any sequence of operations and compares what went in with what came out.
\<close>

datatype ('m, 'o) channel_op = Put 'm | Get | Other 'o

locale fifo_channel =
  fixes contents :: "'p \<Rightarrow> 'm list"
    and put :: "'p \<Rightarrow> 'm \<Rightarrow> bool \<times> 'p"
    and get :: "'p \<Rightarrow> 'm option \<times> 'p"
    and other :: "'o \<Rightarrow> 'p \<Rightarrow> 'p"
    and ok :: "'p \<Rightarrow> bool"
  assumes put_ok: "ok p \<Longrightarrow> ok (snd (put p m))"
    and get_ok: "ok p \<Longrightarrow> ok (snd (get p))"
    and other_ok: "ok p \<Longrightarrow> ok (other k p)"
    and put_contents: "ok p \<Longrightarrow>
      contents (snd (put p m)) = contents p @ (if fst (put p m) then [m] else [])"
    and get_contents: "ok p \<Longrightarrow>
      (case fst (get p) of None \<Rightarrow> [] | Some m \<Rightarrow> [m]) @ contents (snd (get p)) = contents p"
    and other_contents: "ok p \<Longrightarrow> contents (other k p) = contents p"

text \<open>The channel after a sequence of operations, with the accepted and the delivered messages.\<close>

fun channel_run ::
    "('p \<Rightarrow> 'm \<Rightarrow> bool \<times> 'p) \<Rightarrow> ('p \<Rightarrow> 'm option \<times> 'p) \<Rightarrow> ('o \<Rightarrow> 'p \<Rightarrow> 'p) \<Rightarrow>
     'p \<Rightarrow> ('m, 'o) channel_op list \<Rightarrow> 'p \<times> 'm list \<times> 'm list" where
  "channel_run put get other p [] = (p, [], [])"
| "channel_run put get other p (Put m # ops) =
    (let (b, p1) = put p m; (p', acc, del) = channel_run put get other p1 ops
     in (p', (if b then m # acc else acc), del))"
| "channel_run put get other p (Get # ops) =
    (let (x, p1) = get p; (p', acc, del) = channel_run put get other p1 ops
     in (p', acc, (case x of None \<Rightarrow> del | Some m \<Rightarrow> m # del)))"
| "channel_run put get other p (Other k # ops) = channel_run put get other (other k p) ops"

context fifo_channel begin

lemma run_fifo:
  assumes "ok p" "channel_run put get other p ops = (p', acc, del)"
  shows "ok p' \<and> contents p @ acc = del @ contents p'"
  using assms
proof (induction ops arbitrary: p p' acc del)
  case (Cons op ops)
  show ?case
  proof (cases op)
    case (Put m)
    obtain b p1 where b: "put p m = (b, p1)" by fastforce
    obtain acc1 del1 where r: "channel_run put get other p1 ops = (p', acc1, del1)"
      using Cons.prems(2) Put b by (auto split: prod.splits)
    show ?thesis
      using Cons.IH [OF _ r] put_ok [OF Cons.prems(1), of m] put_contents [OF Cons.prems(1), of m]
        Cons.prems(2) Put b r by auto
  next
    case Get
    obtain x p1 where x: "get p = (x, p1)" by fastforce
    obtain acc1 del1 where r: "channel_run put get other p1 ops = (p', acc1, del1)"
      using Cons.prems(2) Get x by (auto split: prod.splits)
    show ?thesis
      using Cons.IH [OF _ r] get_ok [OF Cons.prems(1)]
        get_contents [OF Cons.prems(1), symmetric] Cons.prems(2) Get x r
      by (auto split: option.splits)
  next
    case (Other k)
    then show ?thesis
      using Cons.IH [of "other k p"] Cons.prems other_ok [OF Cons.prems(1)]
        other_contents [OF Cons.prems(1)] by simp
  qed
qed simp

end

text \<open>
  A port as a channel: the put is the atomic finish half of a write (with the size filled in, as
  the write does), the get is the finish half of a read, and the remaining operations are a peek,
  a close, an unregistration and a change of owner.
\<close>

definition port_put :: "port \<Rightarrow> port_message \<Rightarrow> bool \<times> port" where
  "port_put p m = (case Port_Write_finish p m of (r, p') \<Rightarrow> (r = B_OK, p'))"

definition port_get :: "port \<Rightarrow> port_message option \<times> port" where
  "port_get p = (case Port_Read_finish p of None \<Rightarrow> (None, p) | Some (r, m, p') \<Rightarrow> (m, p'))"

datatype port_event = Peek | Close | Unregister | ChangeOwner int

fun port_other :: "port_event \<Rightarrow> port \<Rightarrow> port" where
  "port_other Peek p =
    (case Port_GetMessageInfo_finish p of None \<Rightarrow> p | Some (_, _, p') \<Rightarrow> p')"
| "port_other Close p = snd (Port_Close p)"
| "port_other Unregister p = p\<lparr>port_registered := False\<rparr>"
| "port_other (ChangeOwner team) p = Port_SetOwner p team"

text \<open>The part of the invariant the queue itself needs.\<close>

definition queue_ok :: "port \<Rightarrow> bool" where
  "queue_ok p \<longleftrightarrow> queue_count p = int (length (port_messages p)) \<and> queue_count p \<le> capacity p \<and>
     capacity p \<le> HAIKU_PORT_MAX_QUEUE_LENGTH"

lemma port_ok_queue_ok: "port_ok p \<Longrightarrow> queue_ok p"
  by (simp add: port_ok_def queue_ok_def)

lemma queue_ok_int32: "queue_ok p \<Longrightarrow> queue_count p \<noteq> capacity p \<Longrightarrow>
    to_int32 (queue_count p + 1) = queue_count p + 1"
  by (rule to_int32_id) (auto simp: queue_ok_def is_int32_def HAIKU_PORT_MAX_QUEUE_LENGTH_def)

lemma queue_ok_int32': "queue_ok p \<Longrightarrow> to_int32 (queue_count p - 1) = queue_count p - 1"
  by (rule to_int32_id) (auto simp: queue_ok_def is_int32_def HAIKU_PORT_MAX_QUEUE_LENGTH_def)

interpretation port_channel: fifo_channel port_messages port_put port_get port_other queue_ok
proof (unfold_locales, goal_cases)
  case (1 p m)
  then show ?case
    by (auto simp: port_put_def Port_Write_finish_def queue_ok_int32) (auto simp: queue_ok_def)
next
  case (2 p)
  then show ?case
    by (auto simp: port_get_def Port_Read_finish_def queue_ok_int32' split: list.splits)
      (auto simp: queue_ok_def)
next
  case (3 p k)
  then show ?case
    by (cases k) (auto simp: Port_GetMessageInfo_finish_def Port_Close_def Port_SetOwner_def
        queue_ok_def split: list.splits)
next
  case (4 p m)
  then show ?case by (auto simp: port_put_def Port_Write_finish_def status_codes)
next
  case (5 p)
  then show ?case by (auto simp: port_get_def Port_Read_finish_def split: list.splits)
next
  case (6 p k)
  then show ?case
    by (cases k) (auto simp: Port_GetMessageInfo_finish_def Port_Close_def Port_SetOwner_def
        split: list.splits)
qed

abbreviation port_run :: "port \<Rightarrow> (port_message, port_event) channel_op list \<Rightarrow>
    port \<times> port_message list \<times> port_message list" where
  "port_run \<equiv> channel_run port_put port_get port_other"

text \<open>
  C1: a port is a bounded first-in first-out queue. Over any sequence of the atomic steps of
  its members (writes, reads, peeks, closing, unregistering, a change of owner), the messages
  held at first followed by the accepted ones are the delivered ones followed by those still
  held, so nothing is lost, duplicated or reordered; and the port never holds more than its
  capacity.
\<close>

theorem port_is_bounded_fifo:
  assumes "queue_ok p" and "port_run p ops = (p', accepted, delivered)"
  shows "port_messages p @ accepted = delivered @ port_messages p' \<and>
    int (length (port_messages p')) \<le> capacity p' \<and>
    queue_count p' = int (length (port_messages p'))"
  using port_channel.run_fifo [OF assms] by (auto simp: queue_ok_def)

definition sample_message :: "string \<Rightarrow> port_message" where
  "sample_message s =
    \<lparr>msg_data = s, msg_info = \<lparr>mi_size = int (length s), mi_sender = 0, mi_sender_group = 0,
       mi_sender_team = 3\<rparr>, msg_code = 17\<rparr>"

definition sample_port :: port where
  "sample_port = (Port_new 3 2 ''looper'')\<lparr>port_registered := True\<rparr>"

lemmas port_step_defs = port_put_def port_get_def Port_Write_finish_def Port_Read_finish_def
  Port_Close_def status_codes

theorem port_is_bounded_fifo_witness:
  "\<exists>p'. port_run sample_port [Put (sample_message ''a''), Put (sample_message ''b''),
      Put (sample_message ''c''), Get, Other Close, Put (sample_message ''d''), Get, Get]
    = (p', [sample_message ''a'', sample_message ''b''],
       [sample_message ''a'', sample_message ''b'']) \<and> port_messages p' = []"
proof -
  let ?ops = "[Put (sample_message ''a''), Put (sample_message ''b''),
      Put (sample_message ''c''), Get, Other Close, Put (sample_message ''d''), Get, Get]"
  have ok: "queue_ok sample_port"
    by (simp add: queue_ok_def sample_port_def Port_new_def HAIKU_PORT_MAX_QUEUE_LENGTH_def)
  obtain p' acc del where run: "port_run sample_port ?ops = (p', acc, del)"
    by (metis prod_cases3)
  then have "acc = [sample_message ''a'', sample_message ''b'']" "del = acc"
    by (auto simp: port_step_defs sample_port_def Port_new_def to_int32_def)
  moreover have "port_messages sample_port = []"
    by (simp add: sample_port_def Port_new_def)
  ultimately show ?thesis
    using port_is_bounded_fifo [OF ok run] run by (auto simp del: channel_run.simps)
qed

section \<open>Blocking operations\<close>

text \<open>
  C35: the outcome of a write. On \<open>B_OK\<close> exactly the message, with its size filled in, is
  appended to the queue as it is when the lock is held; on any other status the queue is not
  touched. A write to a port with room, or with a zero timeout, does not wait: what the other
  threads would do in between makes no difference to it. \<open>B_WOULD_BLOCK\<close> is the answer exactly to
  a zero timeout at a full port, and a wait that ends only when the port has room or is dead never
  ends in \<open>B_TIMED_OUT\<close>.
\<close>

theorem port_write_outcome:
  assumes "Port_Write env p m timeout = (r, p')"
  shows "(if r = B_OK
      then port_messages p' =
        port_messages (if queue_count p = capacity p \<and> timeout \<noteq> 0 then env p else p) @ [with_size m]
      else p' = (if queue_count p = capacity p \<and> timeout \<noteq> 0 then env p else p)) \<and>
    (queue_count p \<noteq> capacity p \<or> timeout = 0 \<longrightarrow> (\<forall>env'. Port_Write env' p m timeout = (r, p'))) \<and>
    r \<in> {B_OK, B_BAD_PORT_ID, B_WOULD_BLOCK, B_TIMED_OUT} \<and>
    (r = B_WOULD_BLOCK \<longleftrightarrow> timeout = 0 \<and> queue_count p = capacity p) \<and>
    (writable_or_dead (env p) \<longrightarrow> r \<noteq> B_TIMED_OUT)"
  using assms
  by (auto simp: Port_Write_def Port_Write_begin_def Port_Write_finish_def writable_or_dead_def
      status_codes split: if_splits)

theorem port_write_outcome_witness:
  "\<exists>p'. Port_Write (\<lambda>q. snd (port_get q))
      (fst (port_run sample_port [Put (sample_message ''a''), Put (sample_message ''b'')]))
      (sample_message ''c'') 50 = (B_OK, p') \<and>
    map msg_data (port_messages p') = [''b'', ''c'']"
proof -
  let ?p = "fst (port_run sample_port [Put (sample_message ''a''), Put (sample_message ''b'')])"
  have full: "queue_count ?p = capacity ?p"
    and after: "map msg_data (port_messages (snd (port_get ?p))) = [''b'']"
    by (simp_all add: port_step_defs sample_port_def Port_new_def sample_message_def to_int32_def)
  obtain r p' where w: "Port_Write (\<lambda>q. snd (port_get q)) ?p (sample_message ''c'') 50 = (r, p')"
    by fastforce
  moreover have "r = B_OK"
    using w full
    by (simp add: Port_Write_def Port_Write_begin_def port_step_defs sample_port_def Port_new_def
        sample_message_def to_int32_def)
  ultimately show ?thesis
    using port_write_outcome [OF w] full after by (simp add: sample_message_def)
qed

text \<open>Reading a port until a read does not deliver a message.\<close>

fun port_drain :: "nat \<Rightarrow> port \<Rightarrow> port_message list \<times> int option" where
  "port_drain 0 p = ([], None)"
| "port_drain (Suc n) p =
    (case Port_Read id p 0 of
       None \<Rightarrow> ([], None)
     | Some (r, None, p') \<Rightarrow> ([], Some r)
     | Some (r, Some m, p') \<Rightarrow> (case port_drain n p' of (ms, x) \<Rightarrow> (m # ms, x)))"

lemma port_drain_closed:
  assumes "queue_ok p" "port_closed p" "port_registered p" "length (port_messages p) < n"
  shows "port_drain n p = (port_messages p, Some B_BAD_PORT_ID)"
  using assms
proof (induction n arbitrary: p)
  case (Suc n)
  show ?case
  proof (cases "port_messages p")
    case Nil
    with Suc.prems show ?thesis
      by (simp add: Port_Read_def Port_Read_begin_def queue_ok_def)
  next
    case (Cons m ms)
    define p1 where "p1 = snd (port_get p)"
    have "queue_ok p1"
      unfolding p1_def using port_channel.get_ok [OF Suc.prems(1)] .
    moreover have "Port_Read id p 0 = Some (B_OK, Some m, p1)" "port_messages p1 = ms"
      "port_closed p1" "port_registered p1"
      using Suc.prems(1-3) Cons
      by (simp_all add: Port_Read_def Port_Read_begin_def Port_Read_finish_def p1_def port_get_def
          queue_ok_def)
    ultimately show ?thesis
      using Suc.IH [of p1] Suc.prems(4) Cons by simp
  qed
qed simp

text \<open>
  Closing a port does not lose what it holds. Readers of a closed port get every message
  that was accepted before, in order, and then \<open>B_BAD_PORT_ID\<close>, while every write is refused.
\<close>

theorem closed_port_drains:
  assumes "queue_ok p" and "port_registered p" and "port_closed p"
    and "length (port_messages p) < n"
  shows "port_drain n p = (port_messages p, Some B_BAD_PORT_ID) \<and>
    fst (Port_Write id p m timeout) \<in> {B_BAD_PORT_ID, B_WOULD_BLOCK}"
  using port_drain_closed [OF assms(1,3,2,4)] assms(3)
  by (auto simp: Port_Write_def Port_Write_begin_def Port_Write_finish_def)

theorem closed_port_drains_witness:
  "port_drain 2 ((fst (port_run sample_port [Put (sample_message ''a'')]))\<lparr>port_closed := True\<rparr>)
    = ([sample_message ''a''], Some B_BAD_PORT_ID)"
proof -
  let ?p = "(fst (port_run sample_port [Put (sample_message ''a'')]))\<lparr>port_closed := True\<rparr>"
  have "queue_ok ?p" "port_registered ?p" "port_messages ?p = [sample_message ''a'']"
    by (simp_all add: queue_ok_def port_step_defs sample_port_def Port_new_def to_int32_def
        HAIKU_PORT_MAX_QUEUE_LENGTH_def)
  then show ?thesis using closed_port_drains [of ?p 2 "sample_message ''b''" 0] by simp
qed

end
