(* ===== verification/Path.thy ===== *)
theory Path
  imports Prelude
begin

text \<open>
  What the server uses of \<open>std::filesystem::path\<close> with POSIX syntax: a path is a string, and
  iterating over it gives the root directory, the names between slashes, and an empty name after
  a trailing slash.
\<close>

type_synonym path = string

definition is_absolute :: "path \<Rightarrow> bool" where
  "is_absolute p \<longleftrightarrow> p \<noteq> [] \<and> hd p = CHR ''/''"

text \<open>The names between slashes; runs of slashes separate once.\<close>

fun split_names :: "string \<Rightarrow> string \<Rightarrow> string list" where
  "split_names cur [] = (if cur = [] then [] else [rev cur])"
| "split_names cur (c # cs) =
    (if c = CHR ''/'' then (if cur = [] then split_names [] cs else rev cur # split_names [] cs)
     else split_names (c # cur) cs)"

definition names :: "path \<Rightarrow> string list" where
  "names p = split_names [] p"

definition path_parts :: "path \<Rightarrow> string list" where
  "path_parts p =
    (if is_absolute p then [''/''] else []) @ names p @
    (if names p \<noteq> [] \<and> last p = CHR ''/'' then [''''] else [])"

definition filename :: "path \<Rightarrow> string" where
  "filename p = (if p = [] \<or> last p = CHR ''/'' then [] else last (names p))"

definition has_filename :: "path \<Rightarrow> bool" where
  "has_filename p \<longleftrightarrow> filename p \<noteq> []"

text \<open>\<open>operator/\<close>: an absolute right-hand side replaces the left-hand side.\<close>

definition path_append :: "path \<Rightarrow> path \<Rightarrow> path" where
  "path_append a b =
    (if is_absolute b then b
     else if has_filename a then a @ ''/'' @ b else a @ b)"

lemma split_names_append_slash:
  "split_names cur (a @ CHR ''/'' # b) = split_names cur a @ split_names [] b"
  by (induction cur a rule: split_names.induct) auto

lemma names_slash: "names (a @ CHR ''/'' # b) = names a @ names b"
  by (simp add: names_def split_names_append_slash)

lemma split_names_plain: "CHR ''/'' \<notin> set n \<Longrightarrow>
    split_names cur n = (if cur = [] \<and> n = [] then [] else [rev cur @ n])"
  by (induction n arbitrary: cur) auto

lemma names_plain: "CHR ''/'' \<notin> set n \<Longrightarrow> n \<noteq> [] \<Longrightarrow> names n = [n]"
  by (simp add: names_def split_names_plain)

lemma names_nil [simp]: "names [] = []"
  by (simp add: names_def)

lemma names_no_slash: "n \<in> set (split_names cur p) \<Longrightarrow> CHR ''/'' \<notin> set cur \<Longrightarrow>
    CHR ''/'' \<notin> set n \<and> n \<noteq> []"
  by (induction cur p rule: split_names.induct) (auto split: if_splits)

end
