(* ===== verification/MemoryService.thy ===== *)
theory MemoryService
  imports Containers Path
begin

text \<open>
  \<^verbatim>\<open>hyclone_server/server_memory.h\<close> and \<^verbatim>\<open>server_memory.cpp\<close>: reference-counted
  shared files, keyed by device and inode. The calls into the host kernel
  (\<^verbatim>\<open>sys/linux/server_memory.cpp\<close>) are the record \<open>memory_host\<close>; closing a handle and
  removing a file are recorded in the service state.
\<close>

datatype entry_ref = EntryRef (GetDevice: int) (GetInode: int)

instantiation entry_ref :: linorder
begin

definition less_eq_entry_ref :: "entry_ref \<Rightarrow> entry_ref \<Rightarrow> bool" where
  "less_eq_entry_ref a b \<longleftrightarrow>
     GetDevice a < GetDevice b \<or> (GetDevice a = GetDevice b \<and> GetInode a \<le> GetInode b)"

definition less_entry_ref :: "entry_ref \<Rightarrow> entry_ref \<Rightarrow> bool" where
  "less_entry_ref a b \<longleftrightarrow>
     GetDevice a < GetDevice b \<or> (GetDevice a = GetDevice b \<and> GetInode a < GetInode b)"

instance
  by intro_classes (auto simp: less_eq_entry_ref_def less_entry_ref_def entry_ref.expand)

end

record memory_host =
  prefix :: path
  open_shared_file :: "string \<Rightarrow> int \<Rightarrow> int"
  clone_shared_file :: "string \<Rightarrow> path \<Rightarrow> int"
  open_file :: "path \<Rightarrow> bool \<Rightarrow> int"
  acquire_process_file_handle :: "int \<Rightarrow> int \<Rightarrow> bool \<Rightarrow> int"
  get_entry_ref :: "int \<Rightarrow> entry_ref option"
  map_memory :: "int \<Rightarrow> int \<Rightarrow> int \<Rightarrow> bool \<Rightarrow> int"

text \<open>\<open>std::variant<std::string, intptr_t>\<close> is a sum: \<open>Inl\<close> a name, \<open>Inr\<close> a handle.\<close>

record shared_file =
  handleOrName :: "path + int"
  writable :: bool
  refCount :: int

record memory_service =
  sharedFiles :: "entry_ref \<rightharpoonup> shared_file"
  closedHandles :: "int list"
  removedFiles :: "path list"

definition memory_service_init :: memory_service where
  "memory_service_init = \<lparr>sharedFiles = Map.empty, closedHandles = [], removedFiles = []\<rparr>"

definition HasHandle :: "shared_file \<Rightarrow> bool" where
  "HasHandle f = (case handleOrName f of Inl _ \<Rightarrow> False | Inr _ \<Rightarrow> True)"

definition server_close_file :: "int \<Rightarrow> memory_service \<Rightarrow> memory_service" where
  "server_close_file fd ms = ms\<lparr>closedHandles := closedHandles ms @ [fd]\<rparr>"

definition put_file :: "entry_ref \<Rightarrow> shared_file \<Rightarrow> memory_service \<Rightarrow> memory_service" where
  "put_file ref f ms = ms\<lparr>sharedFiles := (sharedFiles ms)(ref \<mapsto> f)\<rparr>"

fun IsSubDir_parts :: "string list \<Rightarrow> string list \<Rightarrow> bool" where
  "IsSubDir_parts [] cs = True"
| "IsSubDir_parts (p # ps) [] = False"
| "IsSubDir_parts (p # ps) (c # cs) = (if p = c then IsSubDir_parts ps cs else False)"

definition IsSubDir :: "path \<Rightarrow> path \<Rightarrow> bool" where
  "IsSubDir parent child = IsSubDir_parts (path_parts parent) (path_parts child)"

definition shm_dir :: "memory_host \<Rightarrow> path" where
  "shm_dir mh = path_append (prefix mh) ''.hyclone.shm''"

definition CreateSharedFile ::
    "memory_host \<Rightarrow> memory_service \<Rightarrow> string \<Rightarrow> int \<Rightarrow> path option \<times> memory_service" where
  "CreateSharedFile mh ms name nbytes =
    (let fd = open_shared_file mh name nbytes
     in if fd = -1 then (None, ms)
        else (Some (path_append (shm_dir mh) name), server_close_file fd ms))"

definition CloneSharedFile ::
    "memory_host \<Rightarrow> memory_service \<Rightarrow> string \<Rightarrow> entry_ref \<Rightarrow> path option \<times> memory_service" where
  "CloneSharedFile mh ms name ref =
    (case sharedFiles ms ref of
       None \<Rightarrow> (None, ms)
     | Some f \<Rightarrow>
         (case handleOrName f of
            Inr _ \<Rightarrow> (None, ms)
          | Inl fname \<Rightarrow>
              (let fd = clone_shared_file mh name fname
               in if fd = -1 then (None, ms)
                  else (Some (path_append (shm_dir mh) name), server_close_file fd ms))))"

text \<open>Open for writing if possible, else for reading if the caller did not insist.\<close>

definition open_preferring_write :: "(bool \<Rightarrow> int) \<Rightarrow> bool \<Rightarrow> (int \<times> bool) option" where
  "open_preferring_write opener want_write =
    (let fd = opener True
     in if fd = -1 \<and> want_write then None
        else if fd = -1 then
          (let fd' = opener False in if fd' = -1 then None else Some (fd', want_write))
        else Some (fd, True))"

text \<open>
  \<open>server_close_file(file.HasHandle())\<close> closes the descriptor numbered by the truth value.
\<close>

definition OpenSharedFile_handle ::
    "memory_host \<Rightarrow> memory_service \<Rightarrow> int \<Rightarrow> int \<Rightarrow> bool \<Rightarrow> entry_ref option \<times> memory_service" where
  "OpenSharedFile_handle mh ms pid userHandle want_write =
    (case open_preferring_write (acquire_process_file_handle mh pid userHandle) want_write of
       None \<Rightarrow> (None, ms)
     | Some (fd, w) \<Rightarrow>
         (case get_entry_ref mh fd of
            None \<Rightarrow> (None, server_close_file fd ms)
          | Some ref \<Rightarrow>
              (case sharedFiles ms ref of
                 Some f0 \<Rightarrow>
                   (let f = f0\<lparr>refCount := refCount f0 + 1\<rparr>
                    in if w \<and> \<not> writable f then
                         (let ms1 = (if HasHandle f
                                     then server_close_file (of_bool (HasHandle f)) ms else ms)
                          in (Some ref,
                              put_file ref (f\<lparr>handleOrName := Inr fd, writable := True\<rparr>) ms1))
                       else (Some ref, server_close_file fd (put_file ref f ms)))
               | None \<Rightarrow>
                   (Some ref,
                    put_file ref \<lparr>handleOrName = Inr fd, writable = w, refCount = 1\<rparr> ms))))"

definition OpenSharedFile_name ::
    "memory_host \<Rightarrow> memory_service \<Rightarrow> path \<Rightarrow> bool \<Rightarrow> entry_ref option \<times> memory_service" where
  "OpenSharedFile_name mh ms name want_write =
    (case open_preferring_write (open_file mh name) want_write of
       None \<Rightarrow> (None, ms)
     | Some (fd, w) \<Rightarrow>
         (case get_entry_ref mh fd of
            None \<Rightarrow> (None, server_close_file fd ms)
          | Some ref \<Rightarrow>
              (let ms0 = server_close_file fd ms
               in case sharedFiles ms0 ref of
                 Some f0 \<Rightarrow>
                   (let f = f0\<lparr>refCount := refCount f0 + 1\<rparr>
                    in if w \<and> \<not> writable f then
                         (let ms1 = (case handleOrName f of
                                       Inr old \<Rightarrow> server_close_file old ms0 | Inl _ \<Rightarrow> ms0)
                          in (Some ref,
                              put_file ref (f\<lparr>handleOrName := Inl name, writable := True\<rparr>) ms1))
                       else (Some ref, put_file ref f ms0))
               | None \<Rightarrow>
                   (Some ref,
                    put_file ref \<lparr>handleOrName = Inl name, writable = w, refCount = 1\<rparr> ms0))))"

definition AcquireSharedFile :: "memory_service \<Rightarrow> entry_ref \<Rightarrow> bool \<times> memory_service" where
  "AcquireSharedFile ms ref =
    (case sharedFiles ms ref of
       Some f \<Rightarrow> (True, put_file ref (f\<lparr>refCount := refCount f + 1\<rparr>) ms)
     | None \<Rightarrow> (False, ms))"

definition GetSharedFilePath :: "memory_service \<Rightarrow> entry_ref \<Rightarrow> path option" where
  "GetSharedFilePath ms ref =
    (case sharedFiles ms ref of
       None \<Rightarrow> None
     | Some f \<Rightarrow> (case handleOrName f of Inr _ \<Rightarrow> None | Inl name \<Rightarrow> Some name))"

text \<open>The parameters of \<open>map_memory\<close> are handle, nbytes, offset, writable; 0 is \<open>NULL\<close>.\<close>

definition AcquireMemory ::
    "memory_host \<Rightarrow> memory_service \<Rightarrow> entry_ref \<Rightarrow> int \<Rightarrow> int \<Rightarrow> bool \<Rightarrow> int \<times> memory_service" where
  "AcquireMemory mh ms ref nbytes offset want_write =
    (case sharedFiles ms ref of
       None \<Rightarrow> (0, ms)
     | Some f \<Rightarrow>
         if want_write \<and> \<not> writable f then (0, ms)
         else case handleOrName f of
             Inr fd \<Rightarrow> (map_memory mh fd offset nbytes want_write, ms)
           | Inl name \<Rightarrow>
               (let fd = open_file mh name want_write
                in if fd = -1 then (0, ms)
                   else (map_memory mh fd nbytes offset want_write, server_close_file fd ms)))"

definition ReleaseSharedFile :: "memory_host \<Rightarrow> memory_service \<Rightarrow> entry_ref \<Rightarrow> memory_service" where
  "ReleaseSharedFile mh ms ref =
    (case sharedFiles ms ref of
       None \<Rightarrow> ms
     | Some f0 \<Rightarrow>
         (let f = f0\<lparr>refCount := refCount f0 - 1\<rparr>
          in if refCount f = 0 then
               (let ms1 = (case handleOrName f of
                      Inr fd \<Rightarrow> server_close_file fd ms
                    | Inl name \<Rightarrow>
                        (if IsSubDir (shm_dir mh) name
                         then ms\<lparr>removedFiles := removedFiles ms @ [name]\<rparr> else ms))
                in ms1\<lparr>sharedFiles := (sharedFiles ms1)(ref := None)\<rparr>)
             else put_file ref f ms))"

section \<open>Reference counts\<close>

definition ref_count :: "memory_service \<Rightarrow> entry_ref \<Rightarrow> int" where
  "ref_count ms ref = (case sharedFiles ms ref of None \<Rightarrow> 0 | Some f \<Rightarrow> refCount f)"

definition counts_ok :: "memory_service \<Rightarrow> bool" where
  "counts_ok ms \<longleftrightarrow> (\<forall>ref f. sharedFiles ms ref = Some f \<longrightarrow> 1 \<le> refCount f)"

lemma counts_ok_init: "counts_ok memory_service_init"
  by (simp add: counts_ok_def memory_service_init_def)

lemma sharedFiles_close [simp]: "sharedFiles (server_close_file fd ms) = sharedFiles ms"
  by (simp add: server_close_file_def)

lemma sharedFiles_put [simp]: "sharedFiles (put_file ref f ms) = (sharedFiles ms)(ref \<mapsto> f)"
  by (simp add: put_file_def)

lemma removedFiles_simps [simp]:
  "removedFiles (server_close_file fd ms) = removedFiles ms"
  "removedFiles (put_file ref f ms) = removedFiles ms"
  by (simp_all add: server_close_file_def put_file_def)

text \<open>The interface of a table of reference-counted resources.\<close>

locale ref_counts =
  fixes count :: "'s \<Rightarrow> 'r \<Rightarrow> int"
    and acquire :: "'s \<Rightarrow> 'r \<Rightarrow> bool \<times> 's"
    and release :: "'s \<Rightarrow> 'r \<Rightarrow> 's"
    and ok :: "'s \<Rightarrow> bool"
  assumes count_nonneg: "ok s \<Longrightarrow> 0 \<le> count s r"
    and acquire_ok: "ok s \<Longrightarrow> ok (snd (acquire s r))"
    and acquire_succeeds: "ok s \<Longrightarrow> fst (acquire s r) \<longleftrightarrow> 0 < count s r"
    and acquire_count: "ok s \<Longrightarrow>
      count (snd (acquire s r)) r' = count s r' + (if r' = r \<and> 0 < count s r then 1 else 0)"
    and release_ok: "ok s \<Longrightarrow> ok (release s r)"
    and release_count: "ok s \<Longrightarrow>
      count (release s r) r' = count s r' - (if r' = r \<and> 0 < count s r then 1 else 0)"
begin

lemma release_many:
  "ok s \<Longrightarrow> ok (foldl release s rs) \<and>
    count (foldl release s rs) r = max 0 (count s r - int (count_list rs r))"
proof (induction rs arbitrary: s)
  case Nil
  then show ?case using count_nonneg by simp
next
  case (Cons x rs)
  then show ?case
    using Cons.IH [OF release_ok [OF Cons.prems], of x] release_count [OF Cons.prems, of x r]
      count_nonneg [OF Cons.prems, of r]
    by auto
qed

lemma acquire_then_release: "ok s \<Longrightarrow> fst (acquire s r) \<Longrightarrow>
    count (release (snd (acquire s r)) r) r' = count s r'"
  by (simp add: release_count acquire_ok acquire_count acquire_succeeds)

end

lemma ReleaseSharedFile_files:
  "sharedFiles (ReleaseSharedFile mh ms ref) =
    (case sharedFiles ms ref of None \<Rightarrow> sharedFiles ms
     | Some f \<Rightarrow> (sharedFiles ms)(ref :=
         (if refCount f = 1 then None else Some (f\<lparr>refCount := refCount f - 1\<rparr>))))"
  by (auto simp: ReleaseSharedFile_def Let_def split: option.splits sum.splits)

interpretation shared_files: ref_counts ref_count AcquireSharedFile "ReleaseSharedFile mh" counts_ok
  for mh
proof (unfold_locales, goal_cases)
  case (1 s r)
  then show ?case by (force simp: ref_count_def counts_ok_def split: option.splits)
next
  case (2 s r)
  then show ?case by (force simp: counts_ok_def AcquireSharedFile_def split: option.splits)
next
  case (3 s r)
  then show ?case
    by (force simp: ref_count_def counts_ok_def AcquireSharedFile_def split: option.splits)
next
  case (4 s r r')
  then show ?case
    by (force simp: ref_count_def counts_ok_def AcquireSharedFile_def split: option.splits)
next
  case (5 s r)
  then show ?case
    by (force simp: counts_ok_def ReleaseSharedFile_files split: option.splits)
next
  case (6 s r r')
  then show ?case
    by (force simp: ref_count_def counts_ok_def ReleaseSharedFile_files split: option.splits)
qed

lemma OpenSharedFile_handle_count:
  assumes "OpenSharedFile_handle mh ms pid u w = (Some ref, ms')"
  shows "ref_count ms' r = ref_count ms r + (if r = ref then 1 else 0)"
  using assms
  by (auto simp: OpenSharedFile_handle_def ref_count_def Let_def split: option.splits if_splits)

lemma OpenSharedFile_name_count:
  assumes "OpenSharedFile_name mh ms name w = (Some ref, ms')"
  shows "ref_count ms' r = ref_count ms r + (if r = ref then 1 else 0)"
  using assms
  by (auto simp: OpenSharedFile_name_def ref_count_def Let_def
      split: option.splits if_splits sum.splits)

lemma OpenSharedFile_ok:
  "counts_ok ms \<Longrightarrow> counts_ok (snd (OpenSharedFile_handle mh ms pid u w))"
  "counts_ok ms \<Longrightarrow> counts_ok (snd (OpenSharedFile_name mh ms name w))"
  by (force simp: OpenSharedFile_handle_def OpenSharedFile_name_def counts_ok_def Let_def
      split: option.splits sum.splits)+

section \<open>Runs of the service\<close>

datatype memory_op =
    OpenHandle int int bool
  | OpenName path bool
  | Acquire entry_ref
  | Release entry_ref
  | Create string int
  | Clone string entry_ref
  | Map entry_ref int int bool

fun memory_step :: "memory_host \<Rightarrow> memory_service \<Rightarrow> memory_op \<Rightarrow> memory_service" where
  "memory_step mh ms (OpenHandle pid u w) = snd (OpenSharedFile_handle mh ms pid u w)"
| "memory_step mh ms (OpenName name w) = snd (OpenSharedFile_name mh ms name w)"
| "memory_step mh ms (Acquire ref) = snd (AcquireSharedFile ms ref)"
| "memory_step mh ms (Release ref) = ReleaseSharedFile mh ms ref"
| "memory_step mh ms (Create name nbytes) = snd (CreateSharedFile mh ms name nbytes)"
| "memory_step mh ms (Clone name ref) = snd (CloneSharedFile mh ms name ref)"
| "memory_step mh ms (Map ref nbytes offset w) = snd (AcquireMemory mh ms ref nbytes offset w)"

definition memory_run :: "memory_host \<Rightarrow> memory_service \<Rightarrow> memory_op list \<Rightarrow> memory_service" where
  "memory_run mh ms ops = foldl (memory_step mh) ms ops"

lemma memory_step_files_unchanged:
  "sharedFiles (memory_step mh ms (Create name nbytes)) = sharedFiles ms"
  "sharedFiles (memory_step mh ms (Clone name ref)) = sharedFiles ms"
  "sharedFiles (memory_step mh ms (Map ref nbytes offset w)) = sharedFiles ms"
  by (auto simp: CreateSharedFile_def CloneSharedFile_def AcquireMemory_def Let_def
      split: option.splits sum.splits)

lemma memory_step_ok: "counts_ok ms \<Longrightarrow> counts_ok (memory_step mh ms op)"
proof (cases op)
  case (Acquire ref)
  then show "counts_ok ms \<Longrightarrow> counts_ok (memory_step mh ms op)"
    using shared_files.acquire_ok [of ms ref] by simp
next
  case (Release ref)
  then show "counts_ok ms \<Longrightarrow> counts_ok (memory_step mh ms op)"
    using shared_files.release_ok [of ms mh ref] by simp
qed (simp_all add: OpenSharedFile_ok counts_ok_def memory_step_files_unchanged del: memory_step.simps,
     simp_all add: counts_ok_def [symmetric] OpenSharedFile_ok)

lemma memory_run_ok: "counts_ok ms \<Longrightarrow> counts_ok (memory_run mh ms ops)"
  unfolding memory_run_def
  by (induction ops arbitrary: ms) (simp_all add: memory_step_ok del: memory_step.simps)

text \<open>
  C15: a shared file lives exactly as long as it is referenced. After any history of the
  service, an open yields a reference with count at least 1, the file stays in the table for
  fewer releases than its count, and disappears from it with the last one; releases of one file
  never touch another.
\<close>

theorem shared_file_lifetime:
  assumes "ms = memory_run mh memory_service_init ops"
    and "OpenSharedFile_name mh ms name w = (Some ref, ms')"
  shows "ref_count ms' ref = ref_count ms ref + 1 \<and> 1 \<le> ref_count ms' ref \<and>
    (\<forall>n. sharedFiles (foldl (ReleaseSharedFile mh) ms' (replicate n ref)) ref = None \<longleftrightarrow>
       ref_count ms' ref \<le> int n) \<and>
    (\<forall>n r. r \<noteq> ref \<longrightarrow>
       ref_count (foldl (ReleaseSharedFile mh) ms' (replicate n ref)) r = ref_count ms r)"
proof -
  have ok: "counts_ok ms" "counts_ok ms'"
    using memory_run_ok [OF counts_ok_init, of mh ops] OpenSharedFile_ok(2) [of ms mh name w] assms
    by simp_all
  have inc: "ref_count ms' r = ref_count ms r + (if r = ref then 1 else 0)" for r
    by (rule OpenSharedFile_name_count [OF assms(2)])
  have rel: "counts_ok (foldl (ReleaseSharedFile mh) ms' (replicate n ref)) \<and>
      ref_count (foldl (ReleaseSharedFile mh) ms' (replicate n ref)) r =
        max 0 (ref_count ms' r - int (count_list (replicate n ref) r))" for n r
    by (rule shared_files.release_many [OF ok(2)])
  have none: "sharedFiles s r = None \<longleftrightarrow> ref_count s r = 0" if "counts_ok s" for s r
    using that by (force simp: ref_count_def counts_ok_def split: option.splits)
  have cnt: "count_list (replicate n ref) r = (if r = ref then n else 0)" for n r
    by (induction n) auto
  show ?thesis
    using inc rel none shared_files.count_nonneg [OF ok(1)] cnt by auto
qed

lemma memory_step_removed:
  assumes "\<forall>n\<in>set (removedFiles ms). IsSubDir (shm_dir mh) n"
  shows "\<forall>n\<in>set (removedFiles (memory_step mh ms op)). IsSubDir (shm_dir mh) n"
  using assms
  by (cases op) (auto simp: OpenSharedFile_handle_def OpenSharedFile_name_def AcquireSharedFile_def
      ReleaseSharedFile_def CreateSharedFile_def CloneSharedFile_def AcquireMemory_def Let_def
      split: option.splits sum.splits if_splits)

text \<open>
  The service deletes only files of its own directory: whatever the history, every path it
  removed lies under \<open>gHaikuPrefix / HYCLONE_SHM_NAME\<close>, so files guests merely mapped are never
  deleted.
\<close>

theorem shared_files_removed_under_shm:
  assumes "n \<in> set (removedFiles (memory_run mh memory_service_init ops))"
  shows "IsSubDir (shm_dir mh) n"
proof -
  have "\<forall>n\<in>set (removedFiles (memory_run mh ms ops)). IsSubDir (shm_dir mh) n"
    if "\<forall>n\<in>set (removedFiles ms). IsSubDir (shm_dir mh) n" for ms
    using that unfolding memory_run_def
  proof (induction ops arbitrary: ms)
    case (Cons op ops)
    show ?case
      using Cons.IH [OF memory_step_removed [OF Cons.prems]] by (simp del: memory_step.simps)
  qed simp
  from this [of memory_service_init] show ?thesis
    using assms by (simp add: memory_service_init_def)
qed

definition sample_memory_host :: memory_host where
  "sample_memory_host =
    \<lparr>prefix = ''/h'', open_shared_file = (\<lambda>_ _. 9), clone_shared_file = (\<lambda>_ _. 9),
     open_file = (\<lambda>n _. if n = ''/etc/x'' then 11 else 10),
     acquire_process_file_handle = (\<lambda>_ _ _. 12),
     get_entry_ref = (\<lambda>fd. Some (EntryRef 1 fd)), map_memory = (\<lambda>fd _ _ _. 4096 * fd)\<rparr>"

theorem shared_file_lifetime_witness:
  "sharedFiles (ReleaseSharedFile sample_memory_host
     (snd (OpenSharedFile_name sample_memory_host
       (memory_run sample_memory_host memory_service_init []) ''/h/.hyclone.shm/7'' True))
     (EntryRef 1 10)) (EntryRef 1 10) = None"
proof -
  let ?ms = "memory_run sample_memory_host memory_service_init []"
  obtain ms' where o: "OpenSharedFile_name sample_memory_host ?ms ''/h/.hyclone.shm/7'' True
      = (Some (EntryRef 1 10), ms')"
    by (simp add: OpenSharedFile_name_def open_preferring_write_def sample_memory_host_def
        memory_run_def memory_service_init_def)
  have "ref_count ms' (EntryRef 1 10) = 1"
    using OpenSharedFile_name_count [OF o]
    by (simp add: ref_count_def memory_run_def memory_service_init_def)
  with shared_file_lifetime [OF refl o]
  have "sharedFiles (foldl (ReleaseSharedFile sample_memory_host) ms'
      (replicate 1 (EntryRef 1 10))) (EntryRef 1 10) = None"
    by (metis of_nat_1 order_refl)
  then show ?thesis using o by simp
qed

theorem shared_files_removed_under_shm_witness:
  "IsSubDir (shm_dir sample_memory_host) ''/h/.hyclone.shm/7''"
proof -
  let ?ops = "[OpenName ''/h/.hyclone.shm/7'' True, Release (EntryRef 1 10),
    OpenName ''/etc/x'' True, Release (EntryRef 1 11)]"
  have "IsSubDir (shm_dir sample_memory_host) ''/h/.hyclone.shm/7''" if
    "''/h/.hyclone.shm/7'' \<in> set (removedFiles (memory_run sample_memory_host memory_service_init ?ops))"
    using shared_files_removed_under_shm [OF that] .
  moreover have "removedFiles (memory_run sample_memory_host memory_service_init ?ops)
      = [''/h/.hyclone.shm/7'']"
    by (simp add: memory_run_def memory_service_init_def OpenSharedFile_name_def
        open_preferring_write_def sample_memory_host_def ReleaseSharedFile_def server_close_file_def
        put_file_def shm_dir_def IsSubDir_def path_append_def is_absolute_def has_filename_def
        filename_def path_parts_def names_def)
  ultimately show ?thesis by simp
qed

end
