(* ===== verification/Area.thy ===== *)
theory Area
  imports Guest MemoryService "HOL-Library.Multiset"
begin

text \<open>
  The class \<open>Area\<close> (\<^verbatim>\<open>hyclone_server/area.h\<close>) and the address-range computations of
  \<^verbatim>\<open>hyclone_server/area.cpp\<close>: \<open>Split\<close>, and how \<open>unmap_memory\<close> and
  \<open>set_memory_protection\<close> cut one area at the ends of a range. Addresses and sizes are unsigned
  64-bit; a sum wraps (\<open>ptr_add\<close>).
\<close>

section \<open>The class\<close>

record area =
  area_info :: haiku_area_info
  area_entryRef :: entry_ref
  area_offset :: int
  area_mapping :: int

definition NO_OFFSET :: int where "NO_OFFSET = 2 ^ 64 - 1"
definition REGION_NO_PRIVATE_MAP :: int where "REGION_NO_PRIVATE_MAP = 0"
definition REGION_PRIVATE_MAP :: int where "REGION_PRIVATE_MAP = 1"
definition B_WRITE_AREA :: int where "B_WRITE_AREA = 2"
definition B_FULL_LOCK :: int where "B_FULL_LOCK = 2"
definition B_CLONEABLE_AREA :: int where "B_CLONEABLE_AREA = 256"

definition Area_new :: "haiku_area_info \<Rightarrow> area" where
  "Area_new i = \<lparr>area_info = i, area_entryRef = EntryRef 0 0, area_offset = NO_OFFSET,
     area_mapping = REGION_NO_PRIVATE_MAP\<rparr>"

abbreviation area_address :: "area \<Rightarrow> int" where
  "area_address a \<equiv> ai_address (area_info a)"

abbreviation area_size :: "area \<Rightarrow> int" where
  "area_size a \<equiv> ai_size (area_info a)"

definition ptr_add :: "int \<Rightarrow> int \<Rightarrow> int" where
  "ptr_add p n = to_uint64 (p + n)"

abbreviation area_end :: "area \<Rightarrow> int" where
  "area_end a \<equiv> ptr_add (area_address a) (area_size a)"

definition Area_IsShared :: "area \<Rightarrow> bool" where
  "Area_IsShared a \<longleftrightarrow> area_offset a \<noteq> NO_OFFSET"

definition Area_Share :: "area \<Rightarrow> entry_ref \<Rightarrow> int \<Rightarrow> area" where
  "Area_Share a ref off = a\<lparr>area_entryRef := ref, area_offset := off\<rparr>"

definition Area_Unshare :: "area \<Rightarrow> area" where
  "Area_Unshare a = a\<lparr>area_entryRef := EntryRef 0 0, area_offset := NO_OFFSET\<rparr>"

definition Area_IsWritable :: "area \<Rightarrow> bool" where
  "Area_IsWritable a \<longleftrightarrow> ai_protection (area_info a) AND B_WRITE_AREA \<noteq> 0"

definition set_range :: "area \<Rightarrow> int \<times> int \<Rightarrow> area" where
  "set_range a r = a\<lparr>area_info := (area_info a)\<lparr>ai_address := fst r, ai_size := to_uint64 (snd r - fst r)\<rparr>\<rparr>"

definition set_offset :: "area \<Rightarrow> int \<Rightarrow> area" where
  "set_offset a off = (if Area_IsShared a then a\<lparr>area_offset := to_uint64 off\<rparr> else a)"

text \<open>
  \<open>Split\<close> keeps the first range in the area itself and returns copies for the others. An
  empty list of ranges is outside of the precondition (\<open>ranges[0]\<close>).
\<close>

fun Area_Split :: "area \<Rightarrow> (int \<times> int) list \<Rightarrow> (area \<times> area list) option" where
  "Area_Split a [] = None"
| "Area_Split a (r # rs) =
    (let a0 = set_offset (set_range a r) (area_offset a + (fst r - area_address a))
     in Some (a0, map (\<lambda>r'. set_offset (set_range a0 r')
                         (area_offset a + (fst r' - area_address a))) rs))"

section \<open>Cutting at the ends of a range\<close>

text \<open>
  Both calls sort the four end points of the area \<open>[A, E)\<close> and the range \<open>[lo, hi)\<close> and look at
  the three intervals between neighbours.
\<close>

definition cut_points :: "int \<Rightarrow> int \<Rightarrow> int \<Rightarrow> int \<Rightarrow> (int \<times> int) list" where
  "cut_points A E lo hi =
    (let ps = sort [A, E, lo, hi] in filter (\<lambda>(a, b). a \<noteq> b) (zip ps (tl ps)))"

definition outside_range :: "int \<Rightarrow> int \<Rightarrow> int \<times> int \<Rightarrow> bool" where
  "outside_range lo hi r \<longleftrightarrow> snd r \<le> lo \<or> fst r \<ge> hi"

definition inside_area :: "int \<Rightarrow> int \<Rightarrow> int \<times> int \<Rightarrow> bool" where
  "inside_area A E r \<longleftrightarrow> fst r \<ge> A \<and> snd r \<le> E"

definition surviving_ranges :: "int \<Rightarrow> int \<Rightarrow> int \<Rightarrow> int \<Rightarrow> (int \<times> int) list" where
  "surviving_ranges A E lo hi =
    filter (\<lambda>r. outside_range lo hi r \<and> inside_area A E r) (cut_points A E lo hi)"

definition unchanged_ranges :: "int \<Rightarrow> int \<Rightarrow> int \<Rightarrow> int \<Rightarrow> (int \<times> int) list" where
  "unchanged_ranges A E lo hi =
    filter (\<lambda>r. inside_area A E r \<and> outside_range lo hi r) (cut_points A E lo hi)"

definition changed_ranges :: "int \<Rightarrow> int \<Rightarrow> int \<Rightarrow> int \<Rightarrow> (int \<times> int) list" where
  "changed_ranges A E lo hi =
    filter (\<lambda>r. inside_area A E r \<and> \<not> outside_range lo hi r) (cut_points A E lo hi)"

definition in_range :: "int \<Rightarrow> int \<times> int \<Rightarrow> bool" where
  "in_range x r \<longleftrightarrow> fst r \<le> x \<and> x < snd r"

definition ranges_cover :: "(int \<times> int) list \<Rightarrow> int \<Rightarrow> bool" where
  "ranges_cover rs x \<longleftrightarrow> (\<exists>r\<in>set rs. in_range x r)"

lemmas range_defs = surviving_ranges_def unchanged_ranges_def changed_ranges_def cut_points_def
  outside_range_def inside_area_def in_range_def ranges_cover_def

lemma unchanged_surviving: "unchanged_ranges = surviving_ranges"
  by (intro ext) (auto simp: unchanged_ranges_def surviving_ranges_def intro!: filter_cong)

text \<open>The sorted end points, for each way the area and the range can lie.\<close>

lemma sorted_points:
  fixes A E lo hi :: int
  assumes "A \<le> E" "lo \<le> hi"
  shows "sort [A, E, lo, hi] =
    (if hi \<le> A then [lo, hi, A, E]
     else if E < lo then [A, E, lo, hi]
     else if lo \<le> A then (if E < hi then [lo, A, E, hi] else [lo, A, hi, E])
     else (if E < hi then [A, lo, E, hi] else [A, lo, hi, E]))"
proof (rule properties_for_sort)
  show "sorted (if hi \<le> A then [lo, hi, A, E]
     else if E < lo then [A, E, lo, hi]
     else if lo \<le> A then (if E < hi then [lo, A, E, hi] else [lo, A, hi, E])
     else (if E < hi then [A, lo, E, hi] else [A, lo, hi, E]))"
    using assms by simp
qed (simp add: add_mset_commute)

lemma surviving_ranges_closed:
  assumes "A \<le> E" "lo \<le> hi"
  shows "surviving_ranges A E lo hi =
    (if A < min E lo then [(A, min E lo)] else []) @ (if max A hi < E then [(max A hi, E)] else [])"
proof -
  consider "hi \<le> A" | "A < hi" "E < lo" | "A < hi" "lo \<le> E" "lo \<le> A" "E < hi"
    | "A < hi" "lo \<le> E" "lo \<le> A" "hi \<le> E" | "A < lo" "lo \<le> E" "E < hi" | "A < lo" "lo \<le> E" "hi \<le> E"
    using assms by linarith
  then show ?thesis
    using assms
    by cases (simp_all add: range_defs sorted_points min_def max_def Let_def)
qed

lemma changed_ranges_closed:
  assumes "A \<le> E" "lo \<le> hi"
  shows "changed_ranges A E lo hi =
    (if max A lo < min E hi then [(max A lo, min E hi)] else [])"
proof -
  consider "hi \<le> A" | "A < hi" "E < lo" | "A < hi" "lo \<le> E" "lo \<le> A" "E < hi"
    | "A < hi" "lo \<le> E" "lo \<le> A" "hi \<le> E" | "A < lo" "lo \<le> E" "E < hi" | "A < lo" "lo \<le> E" "hi \<le> E"
    using assms by linarith
  then show ?thesis
    using assms
    by cases (simp_all add: range_defs sorted_points min_def max_def Let_def)
qed

lemma surviving_cover:
  assumes "A \<le> E" "lo \<le> hi"
  shows "ranges_cover (surviving_ranges A E lo hi) x \<longleftrightarrow> A \<le> x \<and> x < E \<and> \<not> (lo \<le> x \<and> x < hi)"
  unfolding surviving_ranges_closed [OF assms] ranges_cover_def in_range_def
  using assms by (simp split del: if_split) (auto split: if_splits)

lemma changed_cover:
  assumes "A \<le> E" "lo \<le> hi"
  shows "ranges_cover (changed_ranges A E lo hi) x \<longleftrightarrow> A \<le> x \<and> x < E \<and> lo \<le> x \<and> x < hi"
  unfolding changed_ranges_closed [OF assms] ranges_cover_def in_range_def
  by auto

lemma surviving_shape:
  assumes "A \<le> E" "lo \<le> hi" "r \<in> set (surviving_ranges A E lo hi)"
  shows "A \<le> fst r \<and> fst r < snd r \<and> snd r \<le> E"
  using assms(3) unfolding surviving_ranges_closed [OF assms(1,2)]
  by (auto split: if_splits)

lemma surviving_disjoint:
  assumes "A \<le> E" "lo \<le> hi"
  shows "sorted_wrt (\<lambda>r r'. snd r \<le> fst r') (surviving_ranges A E lo hi)"
  unfolding surviving_ranges_closed [OF assms] using assms by auto

end
