(* ===== verification/Process.thy ===== *)
theory Process
  imports Area IdMap Path
begin

text \<open>
  The class \<open>Process\<close> of \<^verbatim>\<open>hyclone_server/process.cpp\<close>: what the server keeps of a guest
  team. Areas and threads are shared objects, so the tables of the process hold references into
  the stores of the server (theory System); a member that reads area objects takes the store as
  an argument.
\<close>

type_synonym ref = nat

record process =
  p_info :: haiku_team_info
  p_pid :: int
  p_ppid :: int
  p_pgid :: int
  p_sid :: int
  p_uid :: int
  p_gid :: int
  p_euid :: int
  p_egid :: int
  p_debuggerPid :: int
  p_debuggerPort :: int
  p_debuggerWriteLock :: int
  p_forkUnlocked :: bool
  p_isExecutingExec :: bool
  p_cwd :: path
  p_root :: path
  p_groups :: "int list"
  p_threads :: "ref omap"
  p_images :: "haiku_extended_image_info IdMap"
  p_areas :: "ref omap"
  p_fds :: "path omap"
  p_owningSemaphores :: oset
  p_owningPorts :: oset

definition zero_team_info :: haiku_team_info where
  "zero_team_info =
    \<lparr>ti_team = 0, ti_thread_count = 0, ti_image_count = 0, ti_area_count = 0,
     ti_debugger_nub_thread = 0, ti_debugger_nub_port = 0, ti_argc = 0,
     ti_args = replicate 64 (CHR 0x00), ti_uid = 0, ti_gid = 0, ti_real_uid = 0, ti_real_gid = 0,
     ti_group_id = 0, ti_session_id = 0, ti_parent = 0, ti_name = replicate 32 (CHR 0x00),
     ti_start_time = 0\<rparr>"

definition Process_new :: "int \<Rightarrow> int \<Rightarrow> int \<Rightarrow> int \<Rightarrow> int \<Rightarrow> process" where
  "Process_new pid uid gid euid egid =
    \<lparr>p_info = zero_team_info\<lparr>ti_team := pid, ti_uid := to_uint32 uid, ti_gid := to_uint32 gid,
       ti_debugger_nub_thread := -1, ti_debugger_nub_port := -1\<rparr>,
     p_pid = pid, p_ppid = 0, p_pgid = 0, p_sid = 0, p_uid = uid, p_gid = gid, p_euid = euid,
     p_egid = egid, p_debuggerPid = -1, p_debuggerPort = -1, p_debuggerWriteLock = -1,
     p_forkUnlocked = False, p_isExecutingExec = False, p_cwd = [], p_root = ''/'', p_groups = [],
     p_threads = [], p_images = IdMap_empty, p_areas = [], p_fds = [], p_owningSemaphores = [],
     p_owningPorts = []\<rparr>"

definition with_thread_count :: "process \<Rightarrow> process" where
  "with_thread_count p =
    p\<lparr>p_info := (p_info p)\<lparr>ti_thread_count := to_int32 (int (length (p_threads p)))\<rparr>\<rparr>"

definition with_image_count :: "process \<Rightarrow> process" where
  "with_image_count p =
    p\<lparr>p_info := (p_info p)\<lparr>ti_image_count := to_int32 (int (IdMap_Size (p_images p)))\<rparr>\<rparr>"

section \<open>Threads\<close>

definition Process_RegisterThread :: "process \<Rightarrow> int \<Rightarrow> ref \<Rightarrow> process" where
  "Process_RegisterThread p tid t = with_thread_count (p\<lparr>p_threads := om_insert tid t (p_threads p)\<rparr>)"

definition Process_GetThread :: "process \<Rightarrow> int \<Rightarrow> ref option" where
  "Process_GetThread p tid = map_of (p_threads p) tid"

definition Process_NextThreadId :: "process \<Rightarrow> int \<Rightarrow> int" where
  "Process_NextThreadId p tid = om_next (p_threads p) tid"

definition Process_UnregisterThread :: "process \<Rightarrow> int \<Rightarrow> nat \<times> process" where
  "Process_UnregisterThread p tid =
    (let p' = with_thread_count (p\<lparr>p_threads := om_erase tid (p_threads p)\<rparr>)
     in (length (p_threads p'), p'))"

section \<open>Images\<close>

definition set_image_id :: "int \<Rightarrow> haiku_extended_image_info \<Rightarrow> haiku_extended_image_info" where
  "set_image_id i x = x\<lparr>xi_basic_info := (xi_basic_info x)\<lparr>ii_id := i\<rparr>\<rparr>"

definition Process_RegisterImage :: "process \<Rightarrow> haiku_extended_image_info \<Rightarrow> int \<times> process" where
  "Process_RegisterImage p img =
    (let (i, m) = IdMap_Add (p_images p) img;
         m' = m\<lparr>items := (items m)[nat i := set_image_id i (items m ! nat i)]\<rparr>
     in (i, with_image_count (p\<lparr>p_images := m'\<rparr>)))"

definition Process_GetImage :: "process \<Rightarrow> int \<Rightarrow> haiku_extended_image_info option" where
  "Process_GetImage p i = IdMap_Get (p_images p) i"

definition Process_NextImageId :: "process \<Rightarrow> int \<Rightarrow> int" where
  "Process_NextImageId p i = IdMap_NextId (p_images p) i"

definition Process_IsValidImageId :: "process \<Rightarrow> int \<Rightarrow> bool" where
  "Process_IsValidImageId p i = IdMap_IsValidId (p_images p) i"

definition no_image :: haiku_extended_image_info where
  "no_image = \<lparr>xi_basic_info = \<lparr>ii_id = 0, ii_type = 0, ii_rest = replicate 1096 (CHR 0x00)\<rparr>,
     xi_rest = replicate 32 (CHR 0x00)\<rparr>"

definition Process_UnregisterImage :: "process \<Rightarrow> int \<Rightarrow> (nat \<times> process) option" where
  "Process_UnregisterImage p i =
    (case IdMap_Remove no_image (p_images p) i of
       None \<Rightarrow> None
     | Some m \<Rightarrow> Some (IdMap_Size m, with_image_count (p\<lparr>p_images := m\<rparr>)))"

definition Process_ClearImages :: "process \<Rightarrow> process" where
  "Process_ClearImages p = p\<lparr>p_images := IdMap_Clear (p_images p)\<rparr>"

section \<open>Areas\<close>

definition Process_RegisterArea :: "(ref \<Rightarrow> area) \<Rightarrow> process \<Rightarrow> ref \<Rightarrow> process" where
  "Process_RegisterArea objs p r =
    p\<lparr>p_areas := om_insert (ai_area (area_info (objs r))) r (p_areas p)\<rparr>"

definition Process_GetArea :: "process \<Rightarrow> int \<Rightarrow> ref option" where
  "Process_GetArea p i = map_of (p_areas p) i"

definition area_contains :: "area \<Rightarrow> int \<Rightarrow> bool" where
  "area_contains a x \<longleftrightarrow> area_address a \<le> x \<and> x < area_end a"

fun find_area :: "(ref \<Rightarrow> area) \<Rightarrow> ref omap \<Rightarrow> int \<Rightarrow> int" where
  "find_area objs [] x = -1"
| "find_area objs ((i, r) # m) x =
    (if area_contains (objs r) x then ai_area (area_info (objs r)) else find_area objs m x)"

definition Process_GetAreaIdFor :: "(ref \<Rightarrow> area) \<Rightarrow> process \<Rightarrow> int \<Rightarrow> int" where
  "Process_GetAreaIdFor objs p x = find_area objs (p_areas p) x"

text \<open>The loop carries the least address seen above \<open>x\<close> and the id it belongs to.\<close>

fun next_area_loop :: "(ref \<Rightarrow> area) \<Rightarrow> int \<Rightarrow> ref omap \<Rightarrow> int \<times> int \<Rightarrow> int \<times> int" where
  "next_area_loop objs x [] acc = acc"
| "next_area_loop objs x ((i, r) # m) (least, found) =
    (let a = objs r in
     next_area_loop objs x m
       (if area_address a > x then
          (if area_address a < least then (area_address a, ai_area (area_info a))
           else (least, found))
        else (least, found)))"

definition Process_GetNextAreaIdFor :: "(ref \<Rightarrow> area) \<Rightarrow> process \<Rightarrow> int \<Rightarrow> int" where
  "Process_GetNextAreaIdFor objs p x = snd (next_area_loop objs x (p_areas p) (2 ^ 64 - 1, -1))"

definition Process_NextAreaId :: "process \<Rightarrow> int \<Rightarrow> int" where
  "Process_NextAreaId p i = om_next (p_areas p) i"

definition Process_IsValidAreaId :: "process \<Rightarrow> int \<Rightarrow> bool" where
  "Process_IsValidAreaId p i \<longleftrightarrow> map_of (p_areas p) i \<noteq> None"

definition Process_UnregisterArea :: "process \<Rightarrow> int \<Rightarrow> nat \<times> process" where
  "Process_UnregisterArea p i =
    (let m = om_erase i (p_areas p)
     in (length m, p\<lparr>p_areas := m,
           p_info := (p_info p)\<lparr>ti_area_count := to_int32 (int (length m))\<rparr>\<rparr>))"

definition Process_ClearAreas :: "process \<Rightarrow> process" where
  "Process_ClearAreas p = p\<lparr>p_areas := []\<rparr>"

section \<open>File descriptors\<close>

definition Process_RegisterFd :: "process \<Rightarrow> int \<Rightarrow> path \<Rightarrow> process" where
  "Process_RegisterFd p fd q = p\<lparr>p_fds := om_insert fd q (p_fds p)\<rparr>"

definition Process_GetFd :: "process \<Rightarrow> int \<Rightarrow> path option" where
  "Process_GetFd p fd = map_of (p_fds p) fd"

definition Process_IsValidFd :: "process \<Rightarrow> int \<Rightarrow> bool" where
  "Process_IsValidFd p fd \<longleftrightarrow> map_of (p_fds p) fd \<noteq> None"

definition Process_UnregisterFd :: "process \<Rightarrow> int \<Rightarrow> process" where
  "Process_UnregisterFd p fd = p\<lparr>p_fds := om_erase fd (p_fds p)\<rparr>"

section \<open>Name\<close>

fun name_loop :: "bool \<Rightarrow> string \<Rightarrow> byte list \<Rightarrow> string" where
  "name_loop esc nm [] = nm"
| "name_loop esc nm (c # cs) =
    (if c = CHR 0x00 then nm
     else if esc then name_loop False (nm @ [c]) cs
     else if c = CHR '' '' then nm
     else if c = CHR ''/'' then name_loop False [c] cs
     else name_loop (c = CHR 0x5C) (nm @ [c]) cs)"

definition after_last_slash :: "string \<Rightarrow> string" where
  "after_last_slash s = rev (takeWhile (\<lambda>c. c \<noteq> CHR ''/'') (rev s))"

definition Process_GetName :: "process \<Rightarrow> string" where
  "Process_GetName p =
    (let nm = name_loop False [] (ti_args (p_info p))
     in if nm \<noteq> [] \<and> hd nm = CHR ''/'' then after_last_slash nm else nm)"

section \<open>Lemmas\<close>

lemma find_area_hit:
  "find_area objs m x \<noteq> -1 \<Longrightarrow>
    \<exists>(i, r)\<in>set m. area_contains (objs r) x \<and> find_area objs m x = ai_area (area_info (objs r))"
  by (induction objs m x rule: find_area.induct) (auto split: if_splits)

lemma find_area_miss:
  "(\<forall>(i, r)\<in>set m. ai_area (area_info (objs r)) \<noteq> -1) \<Longrightarrow> find_area objs m x = -1 \<longleftrightarrow>
    (\<forall>(i, r)\<in>set m. \<not> area_contains (objs r) x)"
  by (induction objs m x rule: find_area.induct) auto

text \<open>The area ids the loop compares, as a set of (address, id) pairs.\<close>

definition candidates :: "(ref \<Rightarrow> area) \<Rightarrow> int \<Rightarrow> ref omap \<Rightarrow> (int \<times> int) set" where
  "candidates objs x m =
    {(area_address (objs r), ai_area (area_info (objs r))) | i r. (i, r) \<in> set m \<and>
       x < area_address (objs r)}"

lemma candidates_Cons:
  "candidates objs x ((i, r) # m) =
    (if x < area_address (objs r)
     then insert (area_address (objs r), ai_area (area_info (objs r))) (candidates objs x m)
     else candidates objs x m)"
  by (auto simp: candidates_def)

lemma next_area_loop_spec:
  "next_area_loop objs x m (least, found) = (l, f) \<Longrightarrow>
    ((l, f) = (least, found) \<or> (l, f) \<in> candidates objs x m \<and> l < least) \<and> l \<le> least \<and>
    (\<forall>(a, i)\<in>candidates objs x m. l \<le> a)"
proof (induction objs x m "(least, found)" arbitrary: least found rule: next_area_loop.induct)
  case (1 objs x)
  then show ?case by (simp add: candidates_def)
next
  case (2 objs x i r m least found)
  define acc where "acc = (if area_address (objs r) > x \<and> area_address (objs r) < least
    then (area_address (objs r), ai_area (area_info (objs r))) else (least, found))"
  have loop: "next_area_loop objs x m acc = (l, f)"
    using "2.prems" by (auto simp: acc_def Let_def split: if_splits)
  from "2.hyps" [OF refl, of "fst acc" "snd acc"] loop
  have "((l, f) = acc \<or> (l, f) \<in> candidates objs x m \<and> l < fst acc) \<and> l \<le> fst acc \<and>
    (\<forall>(a, i)\<in>candidates objs x m. l \<le> a)"
    by (auto simp: acc_def Let_def split: if_splits)
  then show ?case
    by (auto simp: candidates_Cons acc_def split: if_splits)
qed

text \<open>
  The area after an address. \<open>GetNextAreaIdFor\<close> returns the id of an area that starts
  strictly above the address with no other area starting in between, and -1 exactly when no area
  starts above it; so enumerating areas by start address skips none and repeats none.
\<close>

theorem next_area_is_nearest:
  assumes "\<forall>(i, r)\<in>set (p_areas p).
      area_address (objs r) < 2 ^ 64 - 1 \<and> ai_area (area_info (objs r)) \<noteq> -1"
  shows "if \<exists>(i, r)\<in>set (p_areas p). x < area_address (objs r)
    then \<exists>(i, r)\<in>set (p_areas p). Process_GetNextAreaIdFor objs p x = ai_area (area_info (objs r)) \<and>
      x < area_address (objs r) \<and>
      (\<forall>(j, s)\<in>set (p_areas p). x < area_address (objs s) \<longrightarrow> area_address (objs r) \<le> area_address (objs s))
    else Process_GetNextAreaIdFor objs p x = -1"
proof -
  let ?m = "p_areas p"
  obtain l f where loop: "next_area_loop objs x ?m (2 ^ 64 - 1, -1) = (l, f)" by fastforce
  note spec = next_area_loop_spec [OF loop]
  show ?thesis
  proof (cases "\<exists>(i, r)\<in>set ?m. x < area_address (objs r)")
    case True
    then obtain i r where ir: "(i, r) \<in> set ?m" "x < area_address (objs r)" by blast
    then have "l \<le> area_address (objs r)" using spec by (force simp: candidates_def)
    moreover have "area_address (objs r) < 2 ^ 64 - 1" using assms ir by blast
    ultimately have "(l, f) \<in> candidates objs x ?m" using spec by auto
    then obtain j s where js: "(j, s) \<in> set ?m" "l = area_address (objs s)"
      "f = ai_area (area_info (objs s))" "x < l"
      by (auto simp: candidates_def)
    have least: "\<forall>(j, s)\<in>set ?m. x < area_address (objs s) \<longrightarrow> l \<le> area_address (objs s)"
      using spec by (fastforce simp: candidates_def)
    have "Process_GetNextAreaIdFor objs p x = f"
      using loop by (simp add: Process_GetNextAreaIdFor_def)
    with js least have "(case (j, s) of (i, r) \<Rightarrow>
        Process_GetNextAreaIdFor objs p x = ai_area (area_info (objs r)) \<and> x < area_address (objs r) \<and>
        (\<forall>(j, s)\<in>set ?m. x < area_address (objs s) \<longrightarrow> area_address (objs r) \<le> area_address (objs s)))"
      by simp
    with js(1) True show ?thesis by (simp only: if_True) blast
  next
    case False
    then have "candidates objs x ?m = {}" by (auto simp: candidates_def)
    then show ?thesis using spec loop False by (auto simp: Process_GetNextAreaIdFor_def)
  qed
qed

lemma name_loop_plain:
  assumes "CHR 0x5C \<notin> set w" "CHR 0x00 \<notin> set w" "CHR '' '' \<notin> set w"
    and "rest = [] \<or> hd rest \<in> {CHR '' '', CHR 0x00}"
  shows "name_loop False nm (w @ rest) =
    (if CHR ''/'' \<in> set w then CHR ''/'' # after_last_slash w else nm @ w)"
  using assms(1-3)
proof (induction w arbitrary: nm)
  case Nil
  then show ?case using assms(4) by (cases rest) auto
next
  case (Cons c w)
  have "CHR ''/'' \<in> set w \<Longrightarrow> after_last_slash (c # w) = after_last_slash w"
    by (simp add: after_last_slash_def)
  moreover have "CHR ''/'' \<notin> set w \<Longrightarrow> after_last_slash (CHR ''/'' # w) = w"
    by (simp add: after_last_slash_def takeWhile_append)
  ultimately show ?case using Cons by auto
qed

lemma after_last_slash_Cons:
  "after_last_slash (CHR ''/'' # after_last_slash w) = after_last_slash w"
proof -
  have "CHR ''/'' \<notin> set (after_last_slash w)"
    by (auto simp: after_last_slash_def dest: set_takeWhileD)
  then show ?thesis by (simp add: after_last_slash_def takeWhile_append)
qed

text \<open>
  The name of a team is the last path component of its first argument: for an argument
  string whose first word \<open>w\<close> has no backslash, \<open>GetName\<close> is what follows the last slash of
  \<open>w\<close>, whatever comes after the word.
\<close>

theorem team_name_is_basename:
  assumes "ti_args (p_info p) = w @ rest" and "rest = [] \<or> hd rest \<in> {CHR '' '', CHR 0x00}"
    and "CHR 0x5C \<notin> set w" and "CHR 0x00 \<notin> set w" and "CHR '' '' \<notin> set w"
  shows "Process_GetName p = after_last_slash w"
proof (cases "CHR ''/'' \<in> set w")
  case True
  then show ?thesis
    using name_loop_plain [OF assms(3-5,2), of "[]"] assms(1)
    by (simp add: Process_GetName_def after_last_slash_Cons)
next
  case False
  then have "takeWhile (\<lambda>c. c \<noteq> CHR ''/'') (rev w) = rev w"
    by (auto simp: takeWhile_eq_all_conv)
  then have "after_last_slash w = w"
    unfolding after_last_slash_def by (simp only: rev_rev_ident)
  moreover have "w = [] \<or> hd w \<noteq> CHR ''/''" using False by (cases w) auto
  ultimately show ?thesis
    using name_loop_plain [OF assms(3-5,2), of "[]"] assms(1) False
    by (simp add: Process_GetName_def)
qed

definition sample_process :: process where
  "sample_process = (Process_new 31 0 0 0 0)\<lparr>p_areas := [(1, 0), (4, 1)],
     p_info := zero_team_info\<lparr>ti_args := ''/bin/sh -c'' @ replicate 53 (CHR 0x00)\<rparr>\<rparr>"

definition sample_area :: "int \<Rightarrow> int \<Rightarrow> int \<Rightarrow> area" where
  "sample_area i addr len = Area_new \<lparr>ai_area = i, ai_name = ''heap'', ai_size = len, ai_lock = 0,
     ai_protection = 3, ai_team = 31, ai_ram_size = 0, ai_copy_count = 0, ai_in_count = 0,
     ai_out_count = 0, ai_address = addr\<rparr>"

theorem next_area_is_nearest_witness:
  "Process_GetNextAreaIdFor (\<lambda>r. if r = 0 then sample_area 1 8192 4096 else sample_area 4 4096 4096)
     sample_process 5000 = 1"
  using next_area_is_nearest [of sample_process
      "\<lambda>r. if r = 0 then sample_area 1 8192 4096 else sample_area 4 4096 4096" 5000]
  by (simp add: sample_process_def Process_new_def sample_area_def Area_new_def)

theorem team_name_is_basename_witness: "Process_GetName sample_process = ''sh''"
  using team_name_is_basename [of sample_process "''/bin/sh''"
      "'' -c'' @ replicate 53 (CHR 0x00)"]
  by (simp add: sample_process_def Process_new_def after_last_slash_def)

end
