(* ===== verification/Thread.thy ===== *)
theory Thread
  imports Port "HOL-Library.Multiset"
begin

text \<open>
  The class \<open>Thread\<close> of \<^verbatim>\<open>hyclone_server/thread.cpp\<close> and the requests of
  \<^verbatim>\<open>server_requests.cpp\<close>: suspension, the block/unblock handshake, the one-slot mailbox of
  \<open>send_data\<close>/\<open>receive_data\<close>, and a request pending on a thread. Members that wait are split
  as in Port.
\<close>

section \<open>Requests\<close>

datatype request_args =
    TransferAreaRequest int int int int
  | InstallTeamDebuggerRequest int int

record request =
  rq_args :: request_args
  rq_reply :: "int option"

definition Request_new :: "request_args \<Rightarrow> request" where
  "Request_new args = \<lparr>rq_args = args, rq_reply = None\<rparr>"

fun Request_Data :: "request \<Rightarrow> guest_object" where
  "Request_Data r = (case rq_args r of
     TransferAreaRequest a b spec addr \<Rightarrow> OTransferAreaArgs a b spec addr
   | InstallTeamDebuggerRequest team prt \<Rightarrow> OInstallDebuggerArgs team prt)"

definition Request_Size :: "request \<Rightarrow> int" where
  "Request_Size r = size_of (Request_Data r)"

definition Request_Reply :: "request \<Rightarrow> int \<Rightarrow> int \<times> request" where
  "Request_Reply r result =
    (case rq_reply r of
       Some _ \<Rightarrow> (B_BAD_VALUE, r)
     | None \<Rightarrow> (B_OK, r\<lparr>rq_reply := Some result\<rparr>))"

section \<open>The class\<close>

record thread =
  t_info :: haiku_thread_info
  t_tid :: int
  t_suspended :: bool
  t_request :: "request option"
  t_receiveData :: "byte list"
  t_userThreadAddress :: int
  t_blockStatus :: int
  t_sender :: int
  t_receiveCode :: int
  t_blocked :: bool
  t_registered :: bool

definition B_THREAD_RUNNING :: int where "B_THREAD_RUNNING = 1"
definition B_THREAD_SUSPENDED :: int where "B_THREAD_SUSPENDED = 5"

definition Thread_new :: "int \<Rightarrow> int \<Rightarrow> thread" where
  "Thread_new pid tid =
    \<lparr>t_info = \<lparr>hi_thread = tid, hi_team = pid, hi_name = replicate 32 (CHR 0x00), hi_state = 0,
       hi_priority = 0, hi_sem = 0, hi_user_time = 0, hi_kernel_time = 0, hi_stack_base = 0,
       hi_stack_end = 0\<rparr>,
     t_tid = tid, t_suspended = False, t_request = None, t_receiveData = [],
     t_userThreadAddress = 0, t_blockStatus = 0, t_sender = -1, t_receiveCode = -1,
     t_blocked = False, t_registered = False\<rparr>"

definition set_state :: "thread \<Rightarrow> int \<Rightarrow> thread" where
  "set_state t s = t\<lparr>t_info := (t_info t)\<lparr>hi_state := s\<rparr>\<rparr>"

definition Thread_SetSuspended :: "thread \<Rightarrow> bool \<Rightarrow> thread" where
  "Thread_SetSuspended t s =
    set_state (t\<lparr>t_suspended := s\<rparr>) (if s then B_THREAD_SUSPENDED else B_THREAD_RUNNING)"

definition Thread_Resume :: "thread \<Rightarrow> thread" where
  "Thread_Resume t = set_state (t\<lparr>t_suspended := False\<rparr>) B_THREAD_RUNNING"

text \<open>\<open>_suspended.wait(true)\<close> returns when the flag is not set.\<close>

definition resume_wait_done :: "thread \<Rightarrow> bool" where
  "resume_wait_done t \<longleftrightarrow> \<not> t_suspended t"

subsection \<open>Block and Unblock\<close>

text \<open>The field \<open>wait_status\<close> of the guest's \<open>user_thread\<close> is 12 bytes into it.\<close>

definition wait_status_addr :: "thread \<Rightarrow> int" where
  "wait_status_addr t = t_userThreadAddress t + 12"

definition write_wait_status :: "host \<Rightarrow> thread \<Rightarrow> int \<Rightarrow> guest_write option" where
  "write_wait_status h t status =
    (if write_exact h (hi_team (t_info t)) (wait_status_addr t) (OInt32 status)
     then Some (hi_team (t_info t), wait_status_addr t, OInt32 status) else None)"

definition Thread_Block_begin :: "host \<Rightarrow> thread \<Rightarrow> int + thread" where
  "Thread_Block_begin h t =
    (case read_exact h (hi_team (t_info t)) (wait_status_addr t) 4 of
       None \<Rightarrow> Inl B_BAD_ADDRESS
     | Some bs \<Rightarrow>
         (let waitStatus = dec_int32 bs
          in if waitStatus \<le> 0 then Inl waitStatus else Inr (t\<lparr>t_blocked := True\<rparr>)))"

definition Thread_Block_end :: "host \<Rightarrow> thread \<Rightarrow> int \<times> thread \<times> guest_write list" where
  "Thread_Block_end h t0 =
    (let t1 = (if t_blocked t0 then t0\<lparr>t_blockStatus := B_TIMED_OUT\<rparr> else t0);
         t = t1\<lparr>t_blocked := False\<rparr>
     in case write_wait_status h t (t_blockStatus t) of
          None \<Rightarrow> (B_BAD_ADDRESS, t, [])
        | Some w \<Rightarrow> (t_blockStatus t, t, [w]))"

definition Thread_Block ::
    "host \<Rightarrow> (thread \<Rightarrow> thread) \<Rightarrow> thread \<Rightarrow> int \<times> thread \<times> guest_write list" where
  "Thread_Block h env t =
    (case Thread_Block_begin h t of
       Inl r \<Rightarrow> (r, t, [])
     | Inr t' \<Rightarrow> Thread_Block_end h (env t'))"

text \<open>Whether the wait of \<open>Block\<close> can end without an unblock.\<close>

definition block_uses_timeout :: "host \<Rightarrow> int \<Rightarrow> int \<Rightarrow> bool" where
  "block_uses_timeout h flags timeout \<longleftrightarrow>
     has_flag flags (B_ABSOLUTE_TIMEOUT OR B_RELATIVE_TIMEOUT) \<and>
     \<not> server_is_infinite_timeout h timeout flags"

definition Thread_Unblock :: "host \<Rightarrow> thread \<Rightarrow> int \<Rightarrow> int \<times> thread \<times> guest_write list" where
  "Thread_Unblock h t status =
    (case write_wait_status h t status of
       None \<Rightarrow> (B_BAD_ADDRESS, t, [])
     | Some w \<Rightarrow> (B_OK, t\<lparr>t_blockStatus := status, t_blocked := False\<rparr>, [w]))"

subsection \<open>The mailbox\<close>

definition Thread_SendData_finish :: "thread \<Rightarrow> int \<Rightarrow> int \<Rightarrow> byte list \<Rightarrow> int \<times> thread" where
  "Thread_SendData_finish t sender code bs =
    (if \<not> t_registered t then (B_BAD_THREAD_ID, t)
     else (B_OK, t\<lparr>t_sender := sender, t_receiveCode := code, t_receiveData := bs\<rparr>))"

text \<open>
  A sender that finds the mailbox full waits for \<open>send_wait_done\<close>, the predicate of the wait, and
  goes on from there; a receiver that finds it empty waits for \<open>receive_wait_done\<close>.
\<close>

definition send_wait_done :: "thread \<Rightarrow> bool" where
  "send_wait_done t \<longleftrightarrow> \<not> t_registered t \<or> t_sender t = -1"

definition Thread_SendData_begin :: "thread \<Rightarrow> int \<Rightarrow> int \<Rightarrow> byte list \<Rightarrow> (int \<times> thread) + thread" where
  "Thread_SendData_begin t sender code bs =
    (if t_sender t \<noteq> -1 then Inr t else Inl (Thread_SendData_finish t sender code bs))"

definition Thread_SendData ::
    "(thread \<Rightarrow> thread) \<Rightarrow> thread \<Rightarrow> int \<Rightarrow> int \<Rightarrow> byte list \<Rightarrow> int \<times> thread" where
  "Thread_SendData env t sender code bs =
    (case Thread_SendData_begin t sender code bs of
       Inl r \<Rightarrow> r
     | Inr t' \<Rightarrow> Thread_SendData_finish (env t') sender code bs)"

definition Thread_ReceiveData_finish ::
    "thread \<Rightarrow> int \<times> (int \<times> int \<times> byte list) option \<times> thread" where
  "Thread_ReceiveData_finish t =
    (if \<not> t_registered t then (B_BAD_THREAD_ID, None, t)
     else (B_OK, Some (t_sender t, t_receiveCode t, t_receiveData t),
           t\<lparr>t_receiveData := [], t_sender := -1\<rparr>))"

definition receive_wait_done :: "thread \<Rightarrow> bool" where
  "receive_wait_done t \<longleftrightarrow> \<not> t_registered t \<or> t_sender t \<noteq> -1"

definition Thread_ReceiveData_begin ::
    "thread \<Rightarrow> (int \<times> (int \<times> int \<times> byte list) option \<times> thread) + thread" where
  "Thread_ReceiveData_begin t =
    (if t_sender t = -1 then Inr t else Inl (Thread_ReceiveData_finish t))"

definition Thread_ReceiveData ::
    "(thread \<Rightarrow> thread) \<Rightarrow> thread \<Rightarrow> int \<times> (int \<times> int \<times> byte list) option \<times> thread" where
  "Thread_ReceiveData env t =
    (case Thread_ReceiveData_begin t of
       Inl r \<Rightarrow> r
     | Inr t' \<Rightarrow> Thread_ReceiveData_finish (env t'))"

subsection \<open>Requests on a thread\<close>

definition Thread_IsRequesting :: "thread \<Rightarrow> bool" where
  "Thread_IsRequesting t \<longleftrightarrow> t_request t \<noteq> None"

text \<open>\<open>SendRequest\<close> asserts that no request is pending.\<close>

definition Thread_SendRequest :: "thread \<Rightarrow> request \<Rightarrow> thread option" where
  "Thread_SendRequest t r = (if Thread_IsRequesting t then None else Some (t\<lparr>t_request := Some r\<rparr>))"

definition Thread_RequestRead :: "host \<Rightarrow> thread \<Rightarrow> request \<Rightarrow> int \<Rightarrow> int \<times> guest_write list" where
  "Thread_RequestRead h t r addr =
    (let pid = hi_team (t_info t)
     in if write_exact h pid addr (Request_Data r) then (B_OK, [(pid, addr, Request_Data r)])
        else (B_BAD_ADDRESS, []))"

definition Thread_RequestReply :: "thread \<Rightarrow> request \<Rightarrow> int \<Rightarrow> int \<times> request \<times> thread" where
  "Thread_RequestReply t r result =
    (let (status, r') = Request_Reply r result
     in if status \<noteq> B_OK then (status, r', t\<lparr>t_request := Some r'\<rparr>)
        else (B_OK, r', t\<lparr>t_request := None\<rparr>))"

section \<open>Properties\<close>

text \<open>
  The calls of several threads on one mailbox, one hold of its lock at a time. \<open>Send\<close> and
  \<open>Receive\<close> are the calls up to their end or their wait; a waiting call is woken when the
  predicate of its wait holds and then finishes. The log keeps what was sent, accepted, refused
  and received.
\<close>

type_synonym thread_message = "int \<times> int \<times> byte list"

record mailbox_run =
  mr_thread :: thread
  mr_senders :: "thread_message list"
  mr_receivers :: nat
  mr_sent :: "thread_message list"
  mr_accepted :: "thread_message list"
  mr_refused :: "thread_message list"
  mr_received :: "thread_message list"

datatype thread_event = Suspend | Resume | Unblocked int | Unregistered

fun thread_other :: "thread_event \<Rightarrow> thread \<Rightarrow> thread" where
  "thread_other Suspend t = Thread_SetSuspended t True"
| "thread_other Resume t = Thread_Resume t"
| "thread_other (Unblocked s) t = t\<lparr>t_blockStatus := s, t_blocked := False\<rparr>"
| "thread_other Unregistered t = t\<lparr>t_registered := False, t_suspended := False\<rparr>"

datatype mailbox_op =
  Send thread_message | Wake_sender nat | Receive | Wake_receiver | Other_event thread_event

definition send_done :: "thread_message \<Rightarrow> int \<times> thread \<Rightarrow> mailbox_run \<Rightarrow> mailbox_run" where
  "send_done m x s =
    (if fst x = B_OK then s\<lparr>mr_thread := snd x, mr_accepted := mr_accepted s @ [m]\<rparr>
     else s\<lparr>mr_thread := snd x, mr_refused := mr_refused s @ [m]\<rparr>)"

definition receive_done :: "int \<times> thread_message option \<times> thread \<Rightarrow> mailbox_run \<Rightarrow> mailbox_run" where
  "receive_done x s =
    (case x of (r, m, t) \<Rightarrow>
       s\<lparr>mr_thread := t, mr_received := mr_received s @ (case m of None \<Rightarrow> [] | Some m \<Rightarrow> [m])\<rparr>)"

fun mailbox_step :: "mailbox_op \<Rightarrow> mailbox_run \<Rightarrow> mailbox_run" where
  "mailbox_step (Send (sender, code, bs)) s =
    (let s = s\<lparr>mr_sent := mr_sent s @ [(sender, code, bs)]\<rparr> in
     case Thread_SendData_begin (mr_thread s) sender code bs of
       Inl x \<Rightarrow> send_done (sender, code, bs) x s
     | Inr t \<Rightarrow> s\<lparr>mr_thread := t, mr_senders := mr_senders s @ [(sender, code, bs)]\<rparr>)"
| "mailbox_step (Wake_sender i) s =
    (if i < length (mr_senders s) \<and> send_wait_done (mr_thread s) then
       (case mr_senders s ! i of (sender, code, bs) \<Rightarrow>
          send_done (sender, code, bs) (Thread_SendData_finish (mr_thread s) sender code bs)
            (s\<lparr>mr_senders := take i (mr_senders s) @ drop (Suc i) (mr_senders s)\<rparr>))
     else s)"
| "mailbox_step Receive s =
    (case Thread_ReceiveData_begin (mr_thread s) of
       Inl x \<Rightarrow> receive_done x s
     | Inr t \<Rightarrow> s\<lparr>mr_thread := t, mr_receivers := Suc (mr_receivers s)\<rparr>)"
| "mailbox_step Wake_receiver s =
    (if 0 < mr_receivers s \<and> receive_wait_done (mr_thread s) then
       receive_done (Thread_ReceiveData_finish (mr_thread s)) (s\<lparr>mr_receivers := mr_receivers s - 1\<rparr>)
     else s)"
| "mailbox_step (Other_event k) s = s\<lparr>mr_thread := thread_other k (mr_thread s)\<rparr>"

definition mailbox_start :: "thread \<Rightarrow> mailbox_run" where
  "mailbox_start t =
    \<lparr>mr_thread = t, mr_senders = [], mr_receivers = 0, mr_sent = [], mr_accepted = [], mr_refused = [],
     mr_received = []\<rparr>"

text \<open>Senders are thread ids, never the marker -1 of an empty mailbox.\<close>

fun sender_ok :: "mailbox_op \<Rightarrow> bool" where
  "sender_ok (Send (sender, _)) = (sender \<noteq> -1)"
| "sender_ok _ = True"

definition mailbox :: "thread \<Rightarrow> thread_message list" where
  "mailbox t = (if t_sender t = -1 then [] else [(t_sender t, t_receiveCode t, t_receiveData t)])"

definition mailbox_ok :: "mailbox_run \<Rightarrow> bool" where
  "mailbox_ok s \<longleftrightarrow> mr_accepted s = mr_received s @ mailbox (mr_thread s) \<and>
    (\<forall>m\<in>set (mr_senders s). fst m \<noteq> -1) \<and>
    mset (mr_sent s) = mset (mr_accepted s) + mset (mr_refused s) + mset (mr_senders s) \<and>
    (mr_refused s = [] \<or> \<not> t_registered (mr_thread s))"

lemmas thread_halves = Thread_SendData_finish_def Thread_ReceiveData_finish_def
  Thread_SendData_begin_def Thread_ReceiveData_begin_def
  send_wait_done_def receive_wait_done_def Thread_SetSuspended_def Thread_Resume_def set_state_def

lemma mailbox_step_ok: "mailbox_ok s \<Longrightarrow> sender_ok k \<Longrightarrow> mailbox_ok (mailbox_step k s)"
proof (induction k s rule: mailbox_step.induct)
  case (1 sender code bs s)
  then show ?case
    by (auto simp: mailbox_ok_def mailbox_def thread_halves send_done_def status_codes Let_def)
next
  case (2 i s)
  show ?case
  proof (cases "i < length (mr_senders s) \<and> send_wait_done (mr_thread s)")
    case True
    obtain sender code bs where m: "mr_senders s ! i = (sender, code, bs)" by (cases "mr_senders s ! i")
    have e: "mr_senders s = take i (mr_senders s) @ (sender, code, bs) # drop (Suc i) (mr_senders s)"
      using id_take_nth_drop [of i "mr_senders s"] True m by simp
    have ms: "mset (mr_senders s) = add_mset (sender, code, bs)
        (mset (take i (mr_senders s)) + mset (drop (Suc i) (mr_senders s)))"
      by (subst e) simp
    have ne: "sender \<noteq> -1" "\<forall>m\<in>set (take i (mr_senders s)) \<union> set (drop (Suc i) (mr_senders s)). fst m \<noteq> -1"
      using 2(1) nth_mem [of i "mr_senders s"] True m
      by (auto simp: mailbox_ok_def dest!: in_set_takeD in_set_dropD)
    show ?thesis
      using 2(1) True m ms ne by (auto simp: mailbox_ok_def mailbox_def thread_halves send_done_def status_codes)
  qed (use 2 in auto)
next
  case (5 k s)
  then show ?case by (cases k) (auto simp: mailbox_ok_def mailbox_def thread_halves)
qed (auto simp: mailbox_ok_def mailbox_def thread_halves receive_done_def status_codes)

lemma mailbox_run_ok: "mailbox_ok s \<Longrightarrow> list_all sender_ok ops \<Longrightarrow> mailbox_ok (fold mailbox_step ops s)"
  by (induction ops arbitrary: s) (simp_all add: mailbox_step_ok)

text \<open>
  C36: \<open>send_data\<close> and \<open>receive_data\<close> hand messages over in order, without loss or duplication,
  with several senders and receivers on one mailbox, waiting or not, and other events of the
  thread in between. The accepted messages are the received ones plus at most one that is in the
  mailbox; every message sent is accepted, still waits with its sender, or was refused, and only
  a thread that is no longer registered refuses one. Senders are threads with an id other than -1.
\<close>

theorem mailbox_delivers_in_order:
  assumes "list_all sender_ok ops"
    and "s = fold mailbox_step ops (mailbox_start ((Thread_new pid tid)\<lparr>t_registered := True\<rparr>))"
  shows "mr_accepted s = mr_received s @ mailbox (mr_thread s) \<and> length (mailbox (mr_thread s)) \<le> 1 \<and>
    mset (mr_sent s) = mset (mr_accepted s) + mset (mr_refused s) + mset (mr_senders s) \<and>
    (mr_refused s \<noteq> [] \<longrightarrow> \<not> t_registered (mr_thread s))"
proof -
  have "mailbox_ok (mailbox_start ((Thread_new pid tid)\<lparr>t_registered := True\<rparr>))"
    by (simp add: mailbox_ok_def mailbox_start_def mailbox_def Thread_new_def)
  then have "mailbox_ok s" unfolding assms(2) using assms(1) by (rule mailbox_run_ok)
  then show ?thesis by (auto simp: mailbox_ok_def mailbox_def)
qed

definition sample_thread :: thread where
  "sample_thread = (Thread_new 4 9)\<lparr>t_registered := True\<rparr>"

definition sample_mailbox_ops :: "mailbox_op list" where
  "sample_mailbox_ops = [Send (8, 1, ''ab''), Send (7, 2, ''c''), Wake_sender 0, Other_event Suspend,
     Receive, Wake_sender 0, Receive]"

theorem mailbox_delivers_in_order_witness:
  "mr_received (fold mailbox_step sample_mailbox_ops (mailbox_start sample_thread)) =
      [(8, 1, ''ab''), (7, 2, ''c'')] \<and>
    mr_accepted (fold mailbox_step sample_mailbox_ops (mailbox_start sample_thread)) =
      [(8, 1, ''ab''), (7, 2, ''c'')]"
proof -
  let ?s = "fold mailbox_step sample_mailbox_ops (mailbox_start sample_thread)"
  have "mr_received ?s = [(8, 1, ''ab''), (7, 2, ''c'')]" and m: "mailbox (mr_thread ?s) = []"
    by code_simp+
  moreover have "list_all sender_ok sample_mailbox_ops" by (simp add: sample_mailbox_ops_def)
  from mailbox_delivers_in_order [OF this refl, of 4 9, folded sample_thread_def]
  have "mr_accepted ?s = mr_received ?s @ mailbox (mr_thread ?s)" by blast
  ultimately show ?thesis by (simp only: m append_Nil2)
qed

text \<open>
  The block/unblock handshake. A thread that is unblocked with a status while it waits
  returns exactly that status and leaves it in its \<open>wait_status\<close>; one whose wait ends without
  an unblock returns \<open>B_TIMED_OUT\<close>; in both cases it is no longer blocked.
\<close>

theorem block_returns_unblock_status:
  assumes "Thread_Block_begin h t = Inr t1"
    and "Thread_Unblock h t1 status = (B_OK, t2, ws)"
    and "vm_write h (hi_team (t_info t)) (wait_status_addr t) 4"
  shows "Thread_Block h (\<lambda>_. t2) t =
      (status, t2, [(hi_team (t_info t), wait_status_addr t, OInt32 status)]) \<and>
    \<not> t_blocked t2 \<and>
    fst (Thread_Block h id t) = B_TIMED_OUT \<and>
    \<not> t_blocked (fst (snd (Thread_Block h id t)))"
proof -
  have t1: "t1 = t\<lparr>t_blocked := True\<rparr>"
    using assms(1) by (auto simp: Thread_Block_begin_def Let_def split: option.splits if_splits)
  have t2: "t2 = t1\<lparr>t_blockStatus := status, t_blocked := False\<rparr>"
    using assms(2) by (auto simp: Thread_Unblock_def status_codes split: option.splits)
  show ?thesis
    using assms(1,3) unfolding t2 t1
    by (simp add: Thread_Block_def Thread_Block_end_def write_wait_status_def Let_def
        wait_status_addr_def write_exact_iff SIZE_ERROR_def)
qed

theorem block_returns_unblock_status_witness:
  "\<exists>t2. Thread_Block (sample_host\<lparr>vm_read := \<lambda>_ _ _. Some (le_bytes 4 1)\<rparr>) (\<lambda>_. t2) (Thread_new 4 9)
    = (-3, t2, [(4, 12, OInt32 (-3))])"
proof -
  let ?h = "sample_host\<lparr>vm_read := \<lambda>_ _ _. Some (le_bytes 4 1)\<rparr>"
  have one: "dec_int32 (le_bytes 4 1) = 1"
    by (rule dec_int32_le_bytes) (simp add: is_int32_def)
  have "Thread_Block_begin ?h (Thread_new 4 9) = Inr ((Thread_new 4 9)\<lparr>t_blocked := True\<rparr>)"
    by (simp add: Thread_Block_begin_def read_exact_def server_read_process_memory_def one)
  moreover obtain t2 ws where "Thread_Unblock ?h ((Thread_new 4 9)\<lparr>t_blocked := True\<rparr>) (-3) = (B_OK, t2, ws)"
    by (simp add: Thread_Unblock_def write_wait_status_def write_exact_iff SIZE_ERROR_def
        sample_host_def)
  ultimately show ?thesis
    using block_returns_unblock_status [of ?h "Thread_new 4 9"]
    by (fastforce simp: sample_host_def Thread_new_def wait_status_addr_def)
qed

end
