(* ===== verification/System.thy ===== *)
theory System
  imports Thread Process
begin

text \<open>
  The class \<open>System\<close> of \<^verbatim>\<open>hyclone_server/system.cpp\<close>: the tables of the server and the
  objects they share. A \<open>shared_ptr\<close> is a reference into a store; a table maps an id to a
  reference, so an object outlives its table entry as it does in the code. All members run under
  the system lock. What a server call sends to its guest and the notifications it raises are
  recorded in the world.
\<close>

section \<open>State\<close>

record connection =
  conn_pid :: int
  conn_tid :: int
  conn_isPrimary :: bool

datatype event =
    TeamNotify int ref
  | ThreadNotify int ref
  | MessagingUnregister ref
  | AudioCleanup int
  | AppLoadNotify int

record world =
  isShuttingDown :: bool
  nextAreaId :: int
  schedulerMode :: int
  processes :: "ref omap"
  threads :: "ref omap"
  connections :: "int \<rightharpoonup> connection"
  ports :: "ref option IdMap"
  portNames :: "string \<rightharpoonup> int"
  semaphores :: "ref option IdMap"
  areas :: "ref omap"
  memoryService :: memory_service
  processObjs :: "ref \<Rightarrow> process"
  threadObjs :: "ref \<Rightarrow> thread"
  portObjs :: "ref \<Rightarrow> port"
  semObjs :: "ref \<Rightarrow> semaphore"
  areaObjs :: "ref \<Rightarrow> area"
  nextRef :: ref
  guestWrites :: "guest_write list"
  events :: "event list"

definition world_init :: world where
  "world_init =
    \<lparr>isShuttingDown = False, nextAreaId = 1, schedulerMode = 0, processes = [], threads = [],
     connections = Map.empty, ports = IdMap_empty, portNames = Map.empty,
     semaphores = IdMap_empty, areas = [], memoryService = memory_service_init,
     processObjs = (\<lambda>_. Process_new 0 0 0 0 0), threadObjs = (\<lambda>_. Thread_new 0 0),
     portObjs = (\<lambda>_. Port_new 0 0 []), semObjs = (\<lambda>_. Semaphore_new 0 0 []),
     areaObjs = (\<lambda>_. Area_new (dec_area_info [])), nextRef = 0, guestWrites = [], events = []\<rparr>"

subsection \<open>Objects\<close>

definition upd_process :: "ref \<Rightarrow> (process \<Rightarrow> process) \<Rightarrow> world \<Rightarrow> world" where
  "upd_process r f w = w\<lparr>processObjs := (processObjs w)(r := f (processObjs w r))\<rparr>"

definition upd_thread :: "ref \<Rightarrow> (thread \<Rightarrow> thread) \<Rightarrow> world \<Rightarrow> world" where
  "upd_thread r f w = w\<lparr>threadObjs := (threadObjs w)(r := f (threadObjs w r))\<rparr>"

definition upd_port :: "ref \<Rightarrow> (port \<Rightarrow> port) \<Rightarrow> world \<Rightarrow> world" where
  "upd_port r f w = w\<lparr>portObjs := (portObjs w)(r := f (portObjs w r))\<rparr>"

definition upd_sem :: "ref \<Rightarrow> (semaphore \<Rightarrow> semaphore) \<Rightarrow> world \<Rightarrow> world" where
  "upd_sem r f w = w\<lparr>semObjs := (semObjs w)(r := f (semObjs w r))\<rparr>"

definition upd_area :: "ref \<Rightarrow> (area \<Rightarrow> area) \<Rightarrow> world \<Rightarrow> world" where
  "upd_area r f w = w\<lparr>areaObjs := (areaObjs w)(r := f (areaObjs w r))\<rparr>"

definition upd_area_info :: "ref \<Rightarrow> (haiku_area_info \<Rightarrow> haiku_area_info) \<Rightarrow> world \<Rightarrow> world" where
  "upd_area_info r f w = upd_area r (\<lambda>a. a\<lparr>area_info := f (area_info a)\<rparr>) w"

text \<open>\<open>make_shared\<close>: a fresh reference that holds the new object.\<close>

definition new_port :: "port \<Rightarrow> world \<Rightarrow> ref \<times> world" where
  "new_port x w = (nextRef w, w\<lparr>portObjs := (portObjs w)(nextRef w := x), nextRef := Suc (nextRef w)\<rparr>)"

definition new_sem :: "semaphore \<Rightarrow> world \<Rightarrow> ref \<times> world" where
  "new_sem x w = (nextRef w, w\<lparr>semObjs := (semObjs w)(nextRef w := x), nextRef := Suc (nextRef w)\<rparr>)"

definition new_area :: "area \<Rightarrow> world \<Rightarrow> ref \<times> world" where
  "new_area x w = (nextRef w, w\<lparr>areaObjs := (areaObjs w)(nextRef w := x), nextRef := Suc (nextRef w)\<rparr>)"

definition new_process :: "process \<Rightarrow> world \<Rightarrow> ref \<times> world" where
  "new_process x w =
    (nextRef w, w\<lparr>processObjs := (processObjs w)(nextRef w := x), nextRef := Suc (nextRef w)\<rparr>)"

definition new_thread :: "thread \<Rightarrow> world \<Rightarrow> ref \<times> world" where
  "new_thread x w =
    (nextRef w, w\<lparr>threadObjs := (threadObjs w)(nextRef w := x), nextRef := Suc (nextRef w)\<rparr>)"

definition emit :: "event \<Rightarrow> world \<Rightarrow> world" where
  "emit e w = w\<lparr>events := events w @ [e]\<rparr>"

section \<open>Processes, threads, connections\<close>

definition System_RegisterProcess :: "world \<Rightarrow> int \<Rightarrow> int \<Rightarrow> int \<Rightarrow> int \<Rightarrow> int \<Rightarrow> ref \<times> world" where
  "System_RegisterProcess w pid uid gid euid egid =
    (let (r, w1) = new_process (Process_new pid uid gid euid egid) w
     in (r, w1\<lparr>processes := om_insert pid r (processes w1)\<rparr>))"

definition System_GetProcess :: "world \<Rightarrow> int \<Rightarrow> ref option" where
  "System_GetProcess w pid = map_of (processes w) pid"

definition System_NextProcessId :: "world \<Rightarrow> int \<Rightarrow> int" where
  "System_NextProcessId w pid = om_next (processes w) pid"

definition System_UnregisterProcess :: "world \<Rightarrow> int \<Rightarrow> nat \<times> world" where
  "System_UnregisterProcess w pid =
    (let w' = w\<lparr>processes := om_erase pid (processes w)\<rparr> in (length (processes w'), w'))"

definition System_RegisterThread :: "world \<Rightarrow> int \<Rightarrow> int \<Rightarrow> ref \<times> world" where
  "System_RegisterThread w pid tid =
    (let (r, w1) = new_thread (Thread_new pid tid) w;
         w2 = w1\<lparr>threads := om_insert tid r (threads w1)\<rparr>
     in (r, upd_thread r (\<lambda>t. t\<lparr>t_registered := True\<rparr>) w2))"

definition System_GetThread :: "world \<Rightarrow> int \<Rightarrow> ref option" where
  "System_GetThread w tid = map_of (threads w) tid"

definition System_UnregisterThread :: "world \<Rightarrow> int \<Rightarrow> nat \<times> world" where
  "System_UnregisterThread w tid =
    (case map_of (threads w) tid of
       None \<Rightarrow> (length (threads w), w)
     | Some r \<Rightarrow>
         (let w1 = upd_thread r (\<lambda>t. t\<lparr>t_registered := False, t_suspended := False\<rparr>) w;
              w2 = w1\<lparr>threads := om_erase tid (threads w1)\<rparr>
          in (length (threads w2), w2)))"

text \<open>\<open>emplace\<close> keeps an entry that is already there.\<close>

definition System_RegisterConnection :: "world \<Rightarrow> int \<Rightarrow> connection \<Rightarrow> world" where
  "System_RegisterConnection w cid c =
    (case connections w cid of
       Some _ \<Rightarrow> w
     | None \<Rightarrow> w\<lparr>connections := (connections w)(cid \<mapsto> c)\<rparr>)"

definition System_GetThreadFromConnection :: "world \<Rightarrow> int \<Rightarrow> connection" where
  "System_GetThreadFromConnection w cid =
    (case connections w cid of
       None \<Rightarrow> \<lparr>conn_pid = -1, conn_tid = -1, conn_isPrimary = True\<rparr>
     | Some c \<Rightarrow> c)"

definition System_UnregisterConnection :: "world \<Rightarrow> int \<Rightarrow> world" where
  "System_UnregisterConnection w cid = w\<lparr>connections := (connections w)(cid := None)\<rparr>"

section \<open>Ports\<close>

definition System_RegisterPort :: "world \<Rightarrow> ref \<Rightarrow> int \<times> world" where
  "System_RegisterPort w r =
    (let (i, m) = IdMap_Add (ports w) (Some r);
         w1 = upd_port r (\<lambda>p. p\<lparr>port_info := (port_info p)\<lparr>pi_port := i\<rparr>, port_registered := True\<rparr>)
                (w\<lparr>ports := m\<rparr>);
         nm = pi_name (port_info (portObjs w1 r))
     in (i, (case portNames w1 nm of
               Some _ \<Rightarrow> w1
             | None \<Rightarrow> w1\<lparr>portNames := (portNames w1)(nm \<mapsto> i)\<rparr>)))"

definition System_GetPort :: "world \<Rightarrow> int \<Rightarrow> ref option" where
  "System_GetPort w i =
    (if IdMap_IsValidId (ports w) i then Option.bind (IdMap_Get (ports w) i) id else None)"

definition System_FindPort :: "world \<Rightarrow> string \<Rightarrow> int" where
  "System_FindPort w nm = (case portNames w nm of None \<Rightarrow> -1 | Some i \<Rightarrow> i)"

text \<open>\<open>_ports.Get(portId)\<close> is not guarded: \<open>None\<close> is an index outside of the vector.\<close>

definition System_UnregisterPort :: "world \<Rightarrow> int \<Rightarrow> (nat \<times> world) option" where
  "System_UnregisterPort w i =
    (case IdMap_Get (ports w) i of
       None \<Rightarrow> None
     | Some None \<Rightarrow> Some (IdMap_Size (ports w), w)
     | Some (Some r) \<Rightarrow>
         (let w1 = w\<lparr>portNames := (portNames w)(pi_name (port_info (portObjs w r)) := None)\<rparr>
          in case IdMap_Remove None (ports w1) i of
               None \<Rightarrow> None
             | Some m \<Rightarrow>
                 Some (IdMap_Size m, upd_port r (\<lambda>p. p\<lparr>port_registered := False\<rparr>) (w1\<lparr>ports := m\<rparr>))))"

section \<open>Semaphores\<close>

definition System_CreateSemaphore :: "world \<Rightarrow> int \<Rightarrow> int \<Rightarrow> byte list \<Rightarrow> int \<times> world" where
  "System_CreateSemaphore w pid cnt nm =
    (let (r, w1) = new_sem (Semaphore_new pid cnt nm) w;
         (i, m) = IdMap_Add (semaphores w1) (Some r)
     in (i, upd_sem r (\<lambda>s. s\<lparr>sem_info := (sem_info s)\<lparr>si_sem := i\<rparr>, sem_registered := True\<rparr>)
              (w1\<lparr>semaphores := m\<rparr>)))"

definition System_GetSemaphore :: "world \<Rightarrow> int \<Rightarrow> ref option" where
  "System_GetSemaphore w i =
    (if IdMap_IsValidId (semaphores w) i then Option.bind (IdMap_Get (semaphores w) i) id else None)"

definition System_GetSemaphoreCount :: "world \<Rightarrow> int" where
  "System_GetSemaphoreCount w = int (IdMap_Size (semaphores w))"

definition System_UnregisterSemaphore :: "world \<Rightarrow> int \<Rightarrow> nat \<times> world" where
  "System_UnregisterSemaphore w i =
    (if IdMap_IsValidId (semaphores w) i then
       (case (IdMap_Get (semaphores w) i, IdMap_Remove None (semaphores w) i) of
          (Some (Some r), Some m) \<Rightarrow>
            (IdMap_Size m, upd_sem r (\<lambda>s. s\<lparr>sem_registered := False\<rparr>) (w\<lparr>semaphores := m\<rparr>))
        | _ \<Rightarrow> (IdMap_Size (semaphores w), w))
     else (IdMap_Size (semaphores w), w))"

section \<open>Areas\<close>

definition next_area_id :: "int \<Rightarrow> int" where
  "next_area_id i = (if i = INT_MAX then 1 else i + 1)"

text \<open>
  The search for a free id, from the pair \<open>(nextId, _nextAreaId)\<close>. The fuel is the number of
  areas plus one, which \<open>alloc_area_id_total\<close> shows to be enough while an id is free.
\<close>

fun alloc_area_id :: "nat \<Rightarrow> 'v omap \<Rightarrow> int \<Rightarrow> int \<Rightarrow> (int \<times> int) option" where
  "alloc_area_id 0 m i nxt = None"
| "alloc_area_id (Suc n) m i nxt =
    (if map_of m i \<noteq> None then alloc_area_id n m nxt (next_area_id nxt) else Some (i, nxt))"

definition System_AllocAreaId :: "world \<Rightarrow> (int \<times> world) option" where
  "System_AllocAreaId w =
    (case alloc_area_id (Suc (length (areas w))) (areas w) (nextAreaId w) (next_area_id (nextAreaId w)) of
       None \<Rightarrow> None
     | Some (i, nxt) \<Rightarrow> Some (i, w\<lparr>nextAreaId := nxt\<rparr>))"

definition enter_area :: "int \<Rightarrow> ref \<Rightarrow> world \<Rightarrow> world" where
  "enter_area i r w =
    (let w1 = upd_area_info r (\<lambda>x. x\<lparr>ai_area := i\<rparr>) w
     in w1\<lparr>areas := om_insert i r (areas w1)\<rparr>)"

text \<open>Registering a description makes the object. \<open>None\<close>: the search does not end.\<close>

definition System_RegisterArea_info :: "world \<Rightarrow> haiku_area_info \<Rightarrow> (ref \<times> world) option" where
  "System_RegisterArea_info w info =
    (case System_AllocAreaId w of
       None \<Rightarrow> None
     | Some (i, w1) \<Rightarrow>
         (let (r, w2) = new_area (Area_new info) w1 in Some (r, enter_area i r w2)))"

text \<open>Registering an object; the inner \<open>None\<close> is the null pointer the code returns.\<close>

definition System_RegisterArea :: "world \<Rightarrow> ref \<Rightarrow> (ref option \<times> world) option" where
  "System_RegisterArea w r =
    (case System_AllocAreaId w of
       None \<Rightarrow> None
     | Some (i, w1) \<Rightarrow>
         (if Area_IsShared (areaObjs w1 r) then
            (case AcquireSharedFile (memoryService w1) (area_entryRef (areaObjs w1 r)) of
               (ok, ms) \<Rightarrow>
                 if ok then Some (Some r, enter_area i r (w1\<lparr>memoryService := ms\<rparr>))
                 else Some (None, w1\<lparr>memoryService := ms\<rparr>))
          else Some (Some r, enter_area i r w1)))"

definition System_IsValidAreaId :: "world \<Rightarrow> int \<Rightarrow> bool" where
  "System_IsValidAreaId w i \<longleftrightarrow> map_of (areas w) i \<noteq> None"

definition System_GetArea :: "world \<Rightarrow> int \<Rightarrow> ref option" where
  "System_GetArea w i = map_of (areas w) i"

text \<open>
  \<open>name == info.name\<close> compares with the characters before the first NUL. The field comes from
  the guest, so it need not hold a NUL; the comparison then runs on into \<open>size\<close>, which follows
  the field and four bytes of padding (\<open>ai_name_tail\<close>, a parameter: padding has no value).
\<close>

definition area_name :: "byte list \<Rightarrow> haiku_area_info \<Rightarrow> string" where
  "area_name ai_name_tail i = cstr (ai_name i @ ai_name_tail @ le_bytes 8 (ai_size i))"

fun find_by_name :: "byte list \<Rightarrow> (ref \<Rightarrow> area) \<Rightarrow> ref omap \<Rightarrow> string \<Rightarrow> int" where
  "find_by_name pad objs [] nm = B_NAME_NOT_FOUND"
| "find_by_name pad objs ((i, r) # m) nm =
    (if nm = area_name pad (area_info (objs r)) then i else find_by_name pad objs m nm)"

definition System_FindAreaByName :: "byte list \<Rightarrow> world \<Rightarrow> string \<Rightarrow> int" where
  "System_FindAreaByName pad w nm = find_by_name pad (areaObjs w) (areas w) nm"

definition System_UnregisterArea :: "memory_host \<Rightarrow> world \<Rightarrow> int \<Rightarrow> nat \<times> world" where
  "System_UnregisterArea mh w i =
    (case map_of (areas w) i of
       None \<Rightarrow> (length (areas w), w)
     | Some r \<Rightarrow>
         (let a = areaObjs w r;
              w1 = (if Area_IsShared a
                    then w\<lparr>memoryService := ReleaseSharedFile mh (memoryService w) (area_entryRef a)\<rparr>
                    else w);
              w2 = w1\<lparr>areas := om_erase i (areas w1)\<rparr>
          in (length (areas w2), w2)))"

subsection \<open>Shutdown\<close>

text \<open>
  \<open>server_kill_process\<close> and \<open>server_close_connection\<close> act on the host; the model returns the
  pids and the connections they are called on. An area that is shared gives up its file.
\<close>

definition System_Shutdown :: "memory_host \<Rightarrow> world \<Rightarrow> int list \<times> int set \<times> world" where
  "System_Shutdown mh w =
    (map fst (processes w), dom (connections w),
     w\<lparr>isShuttingDown := True,
       memoryService := foldl (\<lambda>ms (i, r). if Area_IsShared (areaObjs w r)
           then ReleaseSharedFile mh ms (area_entryRef (areaObjs w r)) else ms)
         (memoryService w) (areas w)\<rparr>)"

section \<open>Area ids\<close>

lemma next_area_id_range: "1 \<le> i \<Longrightarrow> i \<le> INT_MAX \<Longrightarrow> 1 \<le> next_area_id i \<and> next_area_id i \<le> INT_MAX"
  by (simp add: next_area_id_def)

lemma alloc_area_id_Some:
  "alloc_area_id n m i (next_area_id i) = Some (j, nxt) \<Longrightarrow> 1 \<le> i \<Longrightarrow> i \<le> INT_MAX \<Longrightarrow>
    map_of m j = None \<and> 1 \<le> j \<and> j \<le> INT_MAX \<and> nxt = next_area_id j"
proof (induction n arbitrary: i)
  case (Suc n)
  then show ?case
    using next_area_id_range [of i] by (cases "map_of m i = None") auto
qed simp

text \<open>The id the search looks at in round \<open>k\<close>.\<close>

definition probe :: "int \<Rightarrow> nat \<Rightarrow> int" where
  "probe i k = (i - 1 + int k) mod INT_MAX + 1"

lemma probe_0: "1 \<le> i \<Longrightarrow> i \<le> INT_MAX \<Longrightarrow> probe i 0 = i"
  by (simp add: probe_def)

lemma probe_Suc: "1 \<le> i \<Longrightarrow> i \<le> INT_MAX \<Longrightarrow> probe (next_area_id i) k = probe i (Suc k)"
proof (cases "i = INT_MAX")
  case True
  have "(INT_MAX - 1 + int (Suc k)) mod INT_MAX = (int k + INT_MAX) mod INT_MAX"
    by (simp add: algebra_simps)
  then show ?thesis using True by (simp add: probe_def next_area_id_def)
qed (simp add: probe_def next_area_id_def algebra_simps)

lemma mod_shift_inj:
  fixes m :: int
  assumes "(a + k) mod m = (a + l) mod m" "0 \<le> k" "k < m" "0 \<le> l" "l < m"
  shows "k = l"
proof -
  have "m dvd k - l" using assms(1) by (simp add: mod_eq_dvd_iff)
  then have "k mod m = l mod m" by (simp add: mod_eq_dvd_iff)
  then show ?thesis using assms(2-5) by simp
qed

lemma probe_inj: "inj_on (probe i) {k. int k < INT_MAX}"
proof (rule inj_onI)
  fix k l assume kl: "k \<in> {k. int k < INT_MAX}" "l \<in> {k. int k < INT_MAX}" "probe i k = probe i l"
  then have "(i - 1 + int k) mod INT_MAX = (i - 1 + int l) mod INT_MAX"
    by (simp add: probe_def)
  then have "int k = int l"
    using kl(1,2) by (intro mod_shift_inj [of "i - 1" "int k" INT_MAX "int l"]) simp_all
  then show "k = l" by simp
qed

lemma alloc_area_id_None:
  "alloc_area_id n m i (next_area_id i) = None \<Longrightarrow> 1 \<le> i \<Longrightarrow> i \<le> INT_MAX \<Longrightarrow> k < n \<Longrightarrow>
    probe i k \<in> om_keys m"
proof (induction n arbitrary: i k)
  case (Suc n)
  have used: "map_of m i \<noteq> None" and
    rest: "alloc_area_id n m (next_area_id i) (next_area_id (next_area_id i)) = None"
    using Suc.prems(1) by (auto split: if_splits)
  show ?case
  proof (cases k)
    case 0
    with used show ?thesis
      using Suc.prems(2,3) by (auto simp: probe_0 om_keys_dom)
  next
    case (Suc l)
    then show ?thesis
      using Suc.IH [OF rest] next_area_id_range [OF Suc.prems(2,3)] probe_Suc [OF Suc.prems(2,3)]
        Suc.prems(4) by simp
  qed
qed simp

text \<open>While an id is free the search finds one within one round per area and one more.\<close>

lemma alloc_area_id_total:
  assumes "1 \<le> i" "i \<le> INT_MAX" "int (length m) < INT_MAX"
  obtains j where "alloc_area_id (Suc (length m)) m i (next_area_id i) = Some (j, next_area_id j)"
    "map_of m j = None" "1 \<le> j" "j \<le> INT_MAX"
proof (cases "alloc_area_id (Suc (length m)) m i (next_area_id i)")
  case None
  have "probe i ` {..length m} \<subseteq> om_keys m"
    using alloc_area_id_None [OF None assms(1,2)] by auto
  then have "card (probe i ` {..length m}) \<le> card (om_keys m)"
    by (intro card_mono) auto
  moreover have "card (probe i ` {..length m}) = Suc (length m)"
  proof -
    have "{..length m} \<subseteq> {k. int k < INT_MAX}" using assms(3) by auto
    then have "inj_on (probe i) {..length m}" by (rule inj_on_subset [OF probe_inj])
    then show ?thesis by (simp add: card_image)
  qed
  moreover have "card (om_keys m) \<le> length m"
    by (metis card_length length_map set_map)
  ultimately show ?thesis by simp
next
  case (Some p)
  obtain j nxt where p: "p = (j, nxt)" by fastforce
  from alloc_area_id_Some [OF Some [unfolded p] assms(1,2)] Some p that [of j] show ?thesis
    by (simp del: alloc_area_id.simps)
qed

definition areas_ok :: "world \<Rightarrow> bool" where
  "areas_ok w \<longleftrightarrow> om_ok (areas w) \<and> 1 \<le> nextAreaId w \<and> nextAreaId w \<le> INT_MAX \<and>
     (\<forall>i r. map_of (areas w) i = Some r \<longrightarrow>
        1 \<le> i \<and> i \<le> INT_MAX \<and> r < nextRef w \<and> ai_area (area_info (areaObjs w r)) = i)"

lemma areas_ok_init: "areas_ok world_init"
  by (simp add: areas_ok_def world_init_def om_ok_Nil)

lemma System_AllocAreaId_ok:
  assumes "areas_ok w" "int (length (areas w)) < INT_MAX"
  obtains i where "System_AllocAreaId w = Some (i, w\<lparr>nextAreaId := next_area_id i\<rparr>)"
    "map_of (areas w) i = None" "1 \<le> i" "i \<le> INT_MAX"
proof -
  have range: "1 \<le> nextAreaId w" "nextAreaId w \<le> INT_MAX"
    using assms(1) by (simp_all add: areas_ok_def)
  obtain j where "alloc_area_id (Suc (length (areas w))) (areas w) (nextAreaId w)
      (next_area_id (nextAreaId w)) = Some (j, next_area_id j)"
    "map_of (areas w) j = None" "1 \<le> j" "j \<le> INT_MAX"
    by (rule alloc_area_id_total [OF range assms(2)])
  then show ?thesis
    by (intro that [of j]) (simp_all add: System_AllocAreaId_def del: alloc_area_id.simps)
qed

lemma enter_area_ok:
  assumes "areas_ok w" "1 \<le> i" "i \<le> INT_MAX" "map_of (areas w) i = None" "r < nextRef w"
    and "\<forall>j. map_of (areas w) j \<noteq> Some r"
  shows "areas_ok (enter_area i r w) \<and> map_of (areas (enter_area i r w)) = (map_of (areas w))(i \<mapsto> r)"
  using assms
  by (auto simp: areas_ok_def enter_area_def upd_area_info_def upd_area_def om_ok_insert
      map_of_om_insert)

lemma areas_ok_erase: "areas_ok w \<Longrightarrow> areas_ok (w\<lparr>areas := om_erase i (areas w)\<rparr>)"
  by (auto simp: areas_ok_def om_ok_erase map_of_om_erase)

lemma areas_ok_frame:
  "areas_ok w \<Longrightarrow> areas w' = areas w \<Longrightarrow> nextAreaId w' = nextAreaId w \<Longrightarrow>
    nextRef w \<le> nextRef w' \<Longrightarrow>
    (\<And>r. ai_area (area_info (areaObjs w' r)) = ai_area (area_info (areaObjs w r))) \<Longrightarrow> areas_ok w'"
  by (force simp: areas_ok_def)

text \<open>
  A new area gets an id that no area has, in the range of positive ints, while there is one
  left; it is then found under that id, with the description it was registered with, and every
  other area keeps its id and its description.
\<close>

theorem register_area_fresh:
  assumes "areas_ok w" and "int (length (areas w)) < INT_MAX"
  shows "\<exists>i r w'. System_RegisterArea_info w info = Some (r, w') \<and> System_GetArea w i = None \<and>
    1 \<le> i \<and> i \<le> INT_MAX \<and> System_GetArea w' = (System_GetArea w)(i \<mapsto> r) \<and>
    areaObjs w' r = Area_new (info\<lparr>ai_area := i\<rparr>) \<and>
    (\<forall>j s. System_GetArea w j = Some s \<longrightarrow> areaObjs w' s = areaObjs w s) \<and> areas_ok w'"
proof -
  from System_AllocAreaId_ok [OF assms] obtain i where
    alloc: "System_AllocAreaId w = Some (i, w\<lparr>nextAreaId := next_area_id i\<rparr>)" and
    i: "map_of (areas w) i = None" "1 \<le> i" "i \<le> INT_MAX" .
  let ?w2 = "snd (new_area (Area_new info) (w\<lparr>nextAreaId := next_area_id i\<rparr>))"
  let ?w' = "enter_area i (nextRef w) ?w2"
  have old: "map_of (areas w) j = Some s \<Longrightarrow> s < nextRef w" for j s
    using assms(1) by (auto simp: areas_ok_def)
  have ok2: "areas_ok ?w2"
    using assms(1) old next_area_id_range [OF i(2,3)]
    by (fastforce simp: areas_ok_def new_area_def)
  have fresh: "\<forall>j. map_of (areas ?w2) j \<noteq> Some (nextRef w)"
    using old by (auto simp: new_area_def)
  have enter: "areas_ok ?w'" "map_of (areas ?w') = (map_of (areas w))(i \<mapsto> nextRef w)"
    using enter_area_ok [OF ok2 i(2,3), of "nextRef w"] i(1) fresh by (simp_all add: new_area_def)
  moreover have "System_RegisterArea_info w info = Some (nextRef w, ?w')"
    using alloc by (simp add: System_RegisterArea_info_def new_area_def Let_def)
  moreover have "areaObjs ?w' (nextRef w) = Area_new (info\<lparr>ai_area := i\<rparr>)"
    by (simp add: enter_area_def upd_area_info_def upd_area_def new_area_def Area_new_def)
  moreover have "map_of (areas w) j = Some s \<Longrightarrow> areaObjs ?w' s = areaObjs w s" for j s
    using old [of j s]
    by (auto simp: enter_area_def upd_area_info_def upd_area_def new_area_def)
  ultimately show ?thesis
    using i unfolding System_GetArea_def by (intro exI [of _ i] exI) (auto simp: fun_eq_iff)
qed

theorem register_area_fresh_witness:
  "\<exists>i r w'. System_RegisterArea_info world_init (dec_area_info []) = Some (r, w') \<and> 1 \<le> i \<and>
    System_GetArea w' i = Some r"
  using register_area_fresh [of world_init "dec_area_info []"] areas_ok_init
  by (fastforce simp: world_init_def)

section \<open>The port registry\<close>

text \<open>
  Every entry of the table is an object that knows its id, a freed slot holds the null pointer,
  and a name leads to a port of that name.
\<close>

definition ports_ok :: "world \<Rightarrow> bool" where
  "ports_ok w \<longleftrightarrow> IdMap_ok (ports w) \<and>
     (\<forall>i\<in>set (freeIds (ports w)). items (ports w) ! nat i = None) \<and>
     (\<forall>i x. IdMap_lookup (ports w) i = Some x \<longrightarrow>
        (\<exists>r. x = Some r \<and> r < nextRef w \<and> pi_port (port_info (portObjs w r)) = i)) \<and>
     (\<forall>n i. portNames w n = Some i \<longrightarrow>
        (\<exists>r. IdMap_lookup (ports w) i = Some (Some r) \<and> pi_name (port_info (portObjs w r)) = n))"

lemma ports_ok_init: "ports_ok world_init"
  by (simp add: ports_ok_def world_init_def IdMap_ok_empty IdMap_lookup_ok)
    (simp add: IdMap_empty_def in_vector_def)

lemma System_GetPort_lookup:
  "ports_ok w \<Longrightarrow> System_GetPort w i = Option.bind (IdMap_lookup (ports w) i) id"
  by (auto simp: System_GetPort_def IdMap_lookup_def)

lemma System_GetPort_iff:
  "ports_ok w \<Longrightarrow> System_GetPort w i = Some r \<longleftrightarrow> IdMap_lookup (ports w) i = Some (Some r)"
  by (auto simp: System_GetPort_lookup bind_eq_Some_conv)

lemma System_GetPort_id:
  "ports_ok w \<Longrightarrow> System_GetPort w i = Some r \<Longrightarrow>
    r < nextRef w \<and> pi_port (port_info (portObjs w r)) = i"
  by (force simp: System_GetPort_iff ports_ok_def)

lemma System_GetPort_None:
  "ports_ok w \<Longrightarrow> System_GetPort w i = None \<longleftrightarrow> IdMap_lookup (ports w) i = None"
proof (cases "IdMap_lookup (ports w) i")
  case (Some x)
  assume ok: "ports_ok w"
  with Some obtain r where "x = Some r" unfolding ports_ok_def by blast
  with Some show ?thesis by (simp add: System_GetPort_lookup [OF ok])
qed (simp add: System_GetPort_lookup)

lemma System_FindPort_sound:
  "ports_ok w \<Longrightarrow> System_FindPort w n = i \<Longrightarrow> i \<noteq> -1 \<Longrightarrow>
    \<exists>r. System_GetPort w i = Some r \<and> pi_name (port_info (portObjs w r)) = n"
  by (force simp: System_FindPort_def System_GetPort_iff ports_ok_def split: option.splits)

lemma free_slots_Add:
  assumes "IdMap_ok m" "IdMap_has_room m" "\<forall>i\<in>set (freeIds m). items m ! nat i = z"
  shows "\<forall>i\<in>set (freeIds (snd (IdMap_Add m x))). items (snd (IdMap_Add m x)) ! nat i = z"
  using assms(1,2)
proof (rule IdMap_Add_cases [where x = x])
  fix i fs
  assume i: "freeIds m = i # fs" "in_vector m i" "i \<notin> set fs"
    "IdMap_Add m x = (i, m\<lparr>freeIds := fs, items := (items m)[nat i := x]\<rparr>)"
  have "nat i \<noteq> nat j" if "j \<in> set fs" for j
    using that i assms(1) by (auto simp: IdMap_ok_def in_vector_def eq_nat_nat_iff)
  then show ?thesis using i assms(3) by simp
qed simp

lemma free_slots_Remove:
  assumes "\<forall>i\<in>set (freeIds m). items m ! nat i = z" "IdMap_Remove z m i = Some m'"
  shows "\<forall>i\<in>set (freeIds m'). items m' ! nat i = z"
  using assms
  by (auto simp: IdMap_Remove_def in_vector_def set_os_insert nth_list_update split: if_splits)

text \<open>A change of port objects that keeps their ids and names.\<close>

lemma ports_ok_frame:
  assumes "ports_ok w" "ports w' = ports w" "portNames w' = portNames w" "nextRef w \<le> nextRef w'"
    and "\<And>r. r < nextRef w \<Longrightarrow> pi_port (port_info (portObjs w' r)) = pi_port (port_info (portObjs w r)) \<and>
      pi_name (port_info (portObjs w' r)) = pi_name (port_info (portObjs w r))"
  shows "ports_ok w'"
  unfolding ports_ok_def
proof (intro conjI allI impI)
  fix i x assume "IdMap_lookup (ports w') i = Some x"
  then show "\<exists>r. x = Some r \<and> r < nextRef w' \<and> pi_port (port_info (portObjs w' r)) = i"
    using assms unfolding ports_ok_def by (metis order_less_le_trans)
next
  fix n i assume "portNames w' n = Some i"
  then obtain r where r: "IdMap_lookup (ports w) i = Some (Some r)"
    "pi_name (port_info (portObjs w r)) = n"
    using assms(1,3) unfolding ports_ok_def by metis
  then have "r < nextRef w" using assms(1) unfolding ports_ok_def by fastforce
  then show "\<exists>r. IdMap_lookup (ports w') i = Some (Some r) \<and> pi_name (port_info (portObjs w' r)) = n"
    using r assms(2,5) by auto
qed (use assms in \<open>auto simp: ports_ok_def\<close>)

lemma System_RegisterPort_ok:
  assumes "ports_ok w" "IdMap_has_room (ports w)" "r < nextRef w"
    and "\<forall>i. System_GetPort w i \<noteq> Some r" "System_RegisterPort w r = (i, w')"
  shows "ports_ok w'" "System_GetPort w i = None" "0 \<le> i"
    "System_GetPort w' = (System_GetPort w)(i \<mapsto> r)"
    "portNames w' = (case portNames w (pi_name (port_info (portObjs w r))) of
       Some _ \<Rightarrow> portNames w
     | None \<Rightarrow> (portNames w)(pi_name (port_info (portObjs w r)) \<mapsto> i))"
    "portObjs w' = (portObjs w)(r := (portObjs w r)
       \<lparr>port_info := (port_info (portObjs w r))\<lparr>pi_port := i\<rparr>, port_registered := True\<rparr>)"
proof -
  let ?m = "ports w"
  have m: "IdMap_ok ?m" using assms(1) by (simp add: ports_ok_def)
  note room = m assms(2)
  have i: "i = fst (IdMap_Add ?m (Some r))"
    using assms(5) by (auto simp: System_RegisterPort_def Let_def split: prod.splits)
  show objs: "portObjs w' = (portObjs w)(r := (portObjs w r)
       \<lparr>port_info := (port_info (portObjs w r))\<lparr>pi_port := i\<rparr>, port_registered := True\<rparr>)"
    using assms(5)
    by (auto simp: System_RegisterPort_def upd_port_def Let_def split: prod.splits option.splits)
  show names: "portNames w' = (case portNames w (pi_name (port_info (portObjs w r))) of
       Some _ \<Rightarrow> portNames w
     | None \<Rightarrow> (portNames w)(pi_name (port_info (portObjs w r)) \<mapsto> i))"
    using assms(5)
    by (auto simp: System_RegisterPort_def upd_port_def Let_def split: prod.splits option.splits)
  have w': "ports w' = snd (IdMap_Add ?m (Some r))" "nextRef w' = nextRef w"
    using assms(5)
    by (auto simp: System_RegisterPort_def upd_port_def Let_def split: prod.splits option.splits)
  have fresh: "IdMap_lookup ?m i = None"
    using IdMap_Add_fresh [OF room, of "Some r"] i by simp
  show "0 \<le> i" using IdMap_Add_nonneg [OF room] i by simp
  show none: "System_GetPort w i = None" using fresh System_GetPort_None [OF assms(1)] by simp
  have look: "IdMap_lookup (ports w') = (IdMap_lookup ?m)(i \<mapsto> Some r)"
    using IdMap_Add_lookup [OF room, of "Some r"] i w' by simp
  have other: "IdMap_lookup ?m j \<noteq> Some (Some r)" for j
    using assms(1,4) System_GetPort_iff by blast
  show ok: "ports_ok w'"
    unfolding ports_ok_def
  proof (intro conjI allI impI)
    show "IdMap_ok (ports w')" using IdMap_ok_Add [OF room] w' by simp
    show "\<forall>i\<in>set (freeIds (ports w')). items (ports w') ! nat i = None"
      using free_slots_Add [OF room] assms(1) w' by (simp add: ports_ok_def)
  next
    fix j x assume "IdMap_lookup (ports w') j = Some x"
    then show "\<exists>r. x = Some r \<and> r < nextRef w' \<and> pi_port (port_info (portObjs w' r)) = j"
      using look assms(1,3) w' objs other unfolding ports_ok_def
      by (cases "j = i") (auto, metis)
  next
    fix n j assume n: "portNames w' n = Some j"
    show "\<exists>r. IdMap_lookup (ports w') j = Some (Some r) \<and> pi_name (port_info (portObjs w' r)) = n"
    proof (cases "portNames w n = Some j")
      case True
      then obtain s where "IdMap_lookup ?m j = Some (Some s)" "pi_name (port_info (portObjs w s)) = n"
        using assms(1) unfolding ports_ok_def by blast
      then show ?thesis using look fresh objs by (intro exI [of _ s]) auto
    next
      case False
      then have "j = i" "n = pi_name (port_info (portObjs w r))"
        using n names by (auto split: option.splits if_splits)
      then show ?thesis using look objs by simp
    qed
  qed
  show "System_GetPort w' = (System_GetPort w)(i \<mapsto> r)"
    using look by (auto simp: System_GetPort_lookup [OF ok] System_GetPort_lookup [OF assms(1)] fun_eq_iff)
qed

lemma System_UnregisterPort_ok:
  assumes "ports_ok w" "System_GetPort w i = Some r"
  obtains n w' where "System_UnregisterPort w i = Some (n, w')" "ports_ok w'"
    "System_GetPort w' = (System_GetPort w)(i := None)"
    "portNames w' = (portNames w)(pi_name (port_info (portObjs w r)) := None)"
    "portObjs w' = (portObjs w)(r := (portObjs w r)\<lparr>port_registered := False\<rparr>)"
    "processObjs w' = processObjs w" "processes w' = processes w" "nextRef w' = nextRef w"
proof -
  let ?nm = "pi_name (port_info (portObjs w r))"
  have look: "IdMap_lookup (ports w) i = Some (Some r)"
    using assms by (simp add: System_GetPort_iff)
  have ok: "IdMap_ok (ports w)" using assms(1) by (simp add: ports_ok_def)
  obtain m where m: "IdMap_Remove None (ports w) i = Some m" "IdMap_ok m"
    "IdMap_lookup m = (IdMap_lookup (ports w))(i := None)"
    using IdMap_Remove_valid [OF ok, of i None] look by auto
  have get: "IdMap_Get (ports w) i = Some (Some r)"
    using look by (simp add: IdMap_lookup_def split: if_splits)
  define w' where "w' = upd_port r (\<lambda>p. p\<lparr>port_registered := False\<rparr>)
    (w\<lparr>portNames := (portNames w)(?nm := None), ports := m\<rparr>)"
  have un: "System_UnregisterPort w i = Some (IdMap_Size m, w')"
    using get m(1) by (simp add: System_UnregisterPort_def w'_def)
  have parts: "ports w' = m" "portNames w' = (portNames w)(?nm := None)"
    "portObjs w' = (portObjs w)(r := (portObjs w r)\<lparr>port_registered := False\<rparr>)"
    "nextRef w' = nextRef w" "processObjs w' = processObjs w" "processes w' = processes w"
    by (simp_all add: w'_def upd_port_def)
  have ok': "ports_ok w'"
    unfolding ports_ok_def
  proof (intro conjI allI impI)
    show "IdMap_ok (ports w')" using m parts by simp
    show "\<forall>i\<in>set (freeIds (ports w')). items (ports w') ! nat i = None"
      using free_slots_Remove [OF _ m(1)] assms(1) parts by (simp add: ports_ok_def)
  next
    fix j x assume "IdMap_lookup (ports w') j = Some x"
    then have "IdMap_lookup (ports w) j = Some x" using m(3) parts by (simp split: if_splits)
    then obtain s where "x = Some s" "s < nextRef w" "pi_port (port_info (portObjs w s)) = j"
      using assms(1) unfolding ports_ok_def by blast
    then show "\<exists>r. x = Some r \<and> r < nextRef w' \<and> pi_port (port_info (portObjs w' r)) = j"
      using parts by auto
  next
    fix n j assume "portNames w' n = Some j"
    then have n: "portNames w n = Some j" "n \<noteq> ?nm" using parts by (auto split: if_splits)
    then obtain s where s: "IdMap_lookup (ports w) j = Some (Some s)"
      "pi_name (port_info (portObjs w s)) = n"
      using assms(1) unfolding ports_ok_def by blast
    then have "j \<noteq> i" using look n(2) by auto
    with s show "\<exists>r. IdMap_lookup (ports w') j = Some (Some r) \<and>
        pi_name (port_info (portObjs w' r)) = n"
      using parts m(3) by (intro exI [of _ s]) auto
  qed
  moreover have "System_GetPort w' = (System_GetPort w)(i := None)"
    using m(3) parts
    by (auto simp: System_GetPort_lookup [OF ok'] System_GetPort_lookup [OF assms(1)] fun_eq_iff)
  ultimately show ?thesis using un parts that by blast
qed

end
