(* ===== verification/Calls.thy ===== *)
theory Calls
  imports System
begin

text \<open>
  \<^verbatim>\<open>hyclone_server/server_dispatch.cpp\<close> and what all server calls share: the context of a
  call, guest memory access on behalf of it, and the lookup of a team or thread argument. A
  server call is a function from its arguments and the world to its result and the new world; one
  that waits takes \<open>env\<close>, what the rest of the server did to the world during the wait; one that
  can run into undefined behaviour returns an option.
\<close>

record hserver_context =
  ctx_conn :: int
  ctx_pid :: int
  ctx_tid :: int
  ctx_process :: ref
  ctx_thread :: ref

abbreviation the_process :: "hserver_context \<Rightarrow> world \<Rightarrow> process" where
  "the_process c w \<equiv> processObjs w (ctx_process c)"

abbreviation the_thread :: "hserver_context \<Rightarrow> world \<Rightarrow> thread" where
  "the_thread c w \<equiv> threadObjs w (ctx_thread c)"

section \<open>Guest memory\<close>

definition Process_ReadMemory :: "host \<Rightarrow> process \<Rightarrow> int \<Rightarrow> int \<Rightarrow> byte list option" where
  "Process_ReadMemory h p addr n = read_exact h (p_pid p) addr n"

text \<open>A write that transfers the whole object is recorded; a failed one is \<open>None\<close>.\<close>

definition write_guest :: "host \<Rightarrow> int \<Rightarrow> int \<Rightarrow> guest_object \<Rightarrow> world \<Rightarrow> world option" where
  "write_guest h pid addr obj w =
    (if write_exact h pid addr obj
     then Some (w\<lparr>guestWrites := guestWrites w @ [(pid, addr, obj)]\<rparr>) else None)"

definition Process_WriteMemory ::
    "host \<Rightarrow> hserver_context \<Rightarrow> int \<Rightarrow> guest_object \<Rightarrow> world \<Rightarrow> world option" where
  "Process_WriteMemory h c addr obj w = write_guest h (p_pid (the_process c w)) addr obj w"

text \<open>The tail of most calls: write one object, then report \<open>r\<close>.\<close>

definition reply_with ::
    "host \<Rightarrow> hserver_context \<Rightarrow> int \<Rightarrow> guest_object \<Rightarrow> int \<Rightarrow> world \<Rightarrow> int \<times> world" where
  "reply_with h c addr obj r w =
    (case Process_WriteMemory h c addr obj w of None \<Rightarrow> (B_BAD_ADDRESS, w) | Some w' \<Rightarrow> (r, w'))"

section \<open>Dispatch\<close>

definition SERVERCALL_ID_connect :: int where "SERVERCALL_ID_connect = 0"
definition SERVERCALL_ID_disconnect :: int where "SERVERCALL_ID_disconnect = 1"
definition SERVERCALL_ID_request_ack :: int where "SERVERCALL_ID_request_ack = 2"

text \<open>
  \<open>Inl\<close> is an early result. For \<open>connect\<close> there is no process yet and the references of the
  context are not used.
\<close>

definition dispatch_context :: "world \<Rightarrow> int \<Rightarrow> int \<Rightarrow> int \<Rightarrow> int \<Rightarrow> int + hserver_context" where
  "dispatch_context w conn call a1 a2 =
    (let (pid, tid) =
       (if call = SERVERCALL_ID_connect \<or> call = SERVERCALL_ID_request_ack
        then (to_int32 a1, to_int32 a2)
        else (let x = System_GetThreadFromConnection w conn in (conn_pid x, conn_tid x)));
       c = \<lparr>ctx_conn = conn, ctx_pid = pid, ctx_tid = tid, ctx_process = 0, ctx_thread = 0\<rparr>
     in if call = SERVERCALL_ID_connect then Inr c
        else case System_GetProcess w pid of
            None \<Rightarrow> Inl B_BAD_VALUE
          | Some p \<Rightarrow>
              (case Process_GetThread (processObjs w p) tid of
                 None \<Rightarrow> Inl B_BAD_VALUE
               | Some t \<Rightarrow> Inr (c\<lparr>ctx_process := p, ctx_thread := t\<rparr>)))"

text \<open>\<open>handlers\<close> is the switch over \<open>servercall_defs.h\<close>: the handler of each call id.\<close>

definition server_dispatch ::
    "(int \<Rightarrow> (hserver_context \<Rightarrow> world \<Rightarrow> (int \<times> world) option) option) \<Rightarrow>
     world \<Rightarrow> int \<Rightarrow> int \<Rightarrow> int \<Rightarrow> int \<Rightarrow> (int \<times> world) option" where
  "server_dispatch handlers w conn call a1 a2 =
    (case dispatch_context w conn call a1 a2 of
       Inl r \<Rightarrow> Some (r, w)
     | Inr c \<Rightarrow>
         (case handlers call of None \<Rightarrow> Some (HAIKU_POSIX_ENOSYS, w) | Some f \<Rightarrow> f c w))"

text \<open>
  C13: as long as no team is registered with the pid -1, a call acts for the thread its connection
  was registered with. Whatever arguments a guest passes, a call other than \<open>connect\<close> and
  \<open>request_ack\<close> runs as the pid and tid of the connection, on the process and thread registered
  for them; without them it is refused before any handler runs.
\<close>

theorem dispatch_uses_connection:
  assumes "call \<noteq> SERVERCALL_ID_connect" and "call \<noteq> SERVERCALL_ID_request_ack"
    and "System_GetProcess w (-1) = None"
  shows "case dispatch_context w conn call a1 a2 of
      Inr c \<Rightarrow> \<exists>x. connections w conn = Some x \<and> ctx_pid c = conn_pid x \<and> ctx_tid c = conn_tid x \<and>
        System_GetProcess w (conn_pid x) = Some (ctx_process c) \<and>
        Process_GetThread (processObjs w (ctx_process c)) (conn_tid x) = Some (ctx_thread c)
    | Inl r \<Rightarrow> server_dispatch handlers w conn call a1 a2 = Some (B_BAD_VALUE, w)"
  using assms
  by (auto simp: server_dispatch_def dispatch_context_def System_GetThreadFromConnection_def Let_def
      split: option.splits)

definition sample_world :: world where
  "sample_world = world_init\<lparr>processes := [(4, 0)], threads := [(4, 0)], nextRef := 1,
     connections := [11 \<mapsto> \<lparr>conn_pid = 4, conn_tid = 4, conn_isPrimary = True\<rparr>],
     processObjs := \<lambda>_. (Process_new 4 0 0 0 0)\<lparr>p_threads := [(4, 0)]\<rparr>,
     threadObjs := \<lambda>_. (Thread_new 4 4)\<lparr>t_registered := True\<rparr>\<rparr>"

definition sample_context :: hserver_context where
  "sample_context = \<lparr>ctx_conn = 11, ctx_pid = 4, ctx_tid = 4, ctx_process = 0, ctx_thread = 0\<rparr>"

text \<open>
  Nothing keeps a guest from connecting with the pid and tid -1. The calls of every connection that
  is not registered then act as that team.
\<close>

lemma unregistered_connection_acts_as_minus_one:
  assumes "connections w conn = None" and "System_GetProcess w (-1) = Some r"
    and "Process_GetThread (processObjs w r) (-1) = Some t"
    and "call \<noteq> SERVERCALL_ID_connect" and "call \<noteq> SERVERCALL_ID_request_ack"
  shows "dispatch_context w conn call a1 a2 =
    Inr \<lparr>ctx_conn = conn, ctx_pid = -1, ctx_tid = -1, ctx_process = r, ctx_thread = t\<rparr>"
  using assms by (simp add: dispatch_context_def System_GetThreadFromConnection_def Let_def)

theorem dispatch_uses_connection_witness:
  "dispatch_context sample_world 11 7 900 901 = Inr sample_context \<and>
   server_dispatch (\<lambda>_. None) sample_world 12 7 4 4 = Some (B_BAD_VALUE, sample_world)"
  using dispatch_uses_connection [where call = 7 and w = sample_world and conn = 11
      and ?a1.0 = 900 and ?a2.0 = 901 and handlers = "\<lambda>_. None"]
    dispatch_uses_connection [where call = 7 and w = sample_world and conn = 12
      and ?a1.0 = 4 and ?a2.0 = 4 and handlers = "\<lambda>_. None"]
  by (simp add: dispatch_context_def server_dispatch_def sample_world_def sample_context_def
      SERVERCALL_ID_connect_def SERVERCALL_ID_request_ack_def System_GetThreadFromConnection_def
      System_GetProcess_def Process_GetThread_def Process_new_def)

text \<open>A host in which every guest buffer reads as a name, for the concrete runs of the calls.\<close>

definition sample_name_host :: host where
  "sample_name_host = sample_host\<lparr>vm_read := \<lambda>_ _ _. Some ''gate''\<rparr>"

lemma sample_name_host_reads [simp]: "read_exact sample_name_host pid addr 4 = Some ''gate''"
  by (simp add: read_exact_def server_read_process_memory_def sample_name_host_def)

lemma sample_host_writes [simp]:
  "write_exact sample_name_host pid addr obj" "write_exact sample_host pid addr obj"
  by (simp_all add: write_exact_def server_write_process_memory_def sample_name_host_def
      sample_host_def)

end
