(* ===== verification/SemCalls.thy ===== *)
theory SemCalls
  imports Calls
begin

text \<open>
  The semaphore calls of \<^verbatim>\<open>hyclone_server/hsemaphore.cpp\<close>, on top of the class (theory
  Semaphore) and the table of the server (theory System).
\<close>

definition B_DO_NOT_RESCHEDULE :: int where "B_DO_NOT_RESCHEDULE = 0x02"

text \<open>A member that waits, run on the shared object: the world moves on during the wait.\<close>

definition sem_finish :: "ref \<Rightarrow> int \<times> semaphore \<Rightarrow> world \<Rightarrow> int \<times> world" where
  "sem_finish r x w = (fst x, upd_sem r (\<lambda>_. snd x) w)"

definition sem_Acquire :: "(world \<Rightarrow> world) \<Rightarrow> ref \<Rightarrow> int \<Rightarrow> world \<Rightarrow> int \<times> world" where
  "sem_Acquire env r cnt w =
    (case Semaphore_Acquire_begin (semObjs w r) cnt of
       Inl x \<Rightarrow> sem_finish r x w
     | Inr s \<Rightarrow>
         (let w1 = env (upd_sem r (\<lambda>_. s) w)
          in sem_finish r (Semaphore_Acquire_end (semObjs w1 r) cnt) w1))"

definition sem_TryAcquireFor :: "(world \<Rightarrow> world) \<Rightarrow> ref \<Rightarrow> int \<Rightarrow> int \<Rightarrow> world \<Rightarrow> int \<times> world" where
  "sem_TryAcquireFor env r cnt timeout w =
    (let w1 = env (upd_sem r Semaphore_TryAcquireFor_begin w)
     in sem_finish r (Semaphore_TryAcquireFor_end (semObjs w1 r) cnt timeout) w1)"

definition sem_TryAcquireUntil :: "(world \<Rightarrow> world) \<Rightarrow> ref \<Rightarrow> int \<Rightarrow> world \<Rightarrow> int \<times> world" where
  "sem_TryAcquireUntil env r cnt w =
    (case Semaphore_TryAcquireUntil_begin (semObjs w r) cnt of
       Inl x \<Rightarrow> sem_finish r x w
     | Inr s \<Rightarrow>
         (let w1 = env (upd_sem r (\<lambda>_. s) w)
          in sem_finish r (Semaphore_TryAcquireUntil_end (semObjs w1 r) cnt) w1))"

section \<open>The calls\<close>

definition call_create_sem ::
    "host \<Rightarrow> hserver_context \<Rightarrow> int \<Rightarrow> int \<Rightarrow> int \<Rightarrow> world \<Rightarrow> int \<times> world" where
  "call_create_sem h c cnt userName nameLength w =
    (case Process_ReadMemory h (the_process c w) userName nameLength of
       None \<Rightarrow> (B_BAD_ADDRESS, w)
     | Some nm \<Rightarrow>
         if cnt < 0 then (B_BAD_VALUE, w)
         else
           (let (i, w1) = System_CreateSemaphore w (ctx_pid c) cnt nm
            in (i, upd_process (ctx_process c)
                     (\<lambda>p. p\<lparr>p_owningSemaphores := os_insert i (p_owningSemaphores p)\<rparr>) w1)))"

definition call_delete_sem :: "hserver_context \<Rightarrow> int \<Rightarrow> world \<Rightarrow> int \<times> world" where
  "call_delete_sem c i w =
    (case System_GetSemaphore w i of
       None \<Rightarrow> (B_BAD_SEM_ID, w)
     | Some r \<Rightarrow>
         if si_team (sem_info (semObjs w r)) \<noteq> ctx_pid c then (B_BAD_SEM_ID, w)
         else
           (let w1 = snd (System_UnregisterSemaphore w i);
                semId = si_sem (sem_info (semObjs w1 r))
            in (B_OK, upd_process (ctx_process c)
                        (\<lambda>p. p\<lparr>p_owningSemaphores := os_erase semId (p_owningSemaphores p)\<rparr>) w1)))"

definition call_acquire_sem :: "(world \<Rightarrow> world) \<Rightarrow> int \<Rightarrow> world \<Rightarrow> int \<times> world" where
  "call_acquire_sem env i w =
    (case System_GetSemaphore w i of None \<Rightarrow> (B_BAD_SEM_ID, w) | Some r \<Rightarrow> sem_Acquire env r 1 w)"

text \<open>\<open>count\<close> is an \<open>unsigned int\<close>; the members of the class take it as an \<open>int\<close>.\<close>

definition call_acquire_sem_etc ::
    "host \<Rightarrow> (world \<Rightarrow> world) \<Rightarrow> int \<Rightarrow> int \<Rightarrow> int \<Rightarrow> int \<Rightarrow> world \<Rightarrow> int \<times> world" where
  "call_acquire_sem_etc h env i cnt flags timeout w =
    (case System_GetSemaphore w i of
       None \<Rightarrow> (B_BAD_SEM_ID, w)
     | Some r \<Rightarrow>
         (let both = B_RELATIVE_TIMEOUT OR B_ABSOLUTE_TIMEOUT
          in if cnt < 1 then (B_BAD_VALUE, w)
             else if flags AND NOT both \<noteq> 0 then (B_BAD_VALUE, w)
             else if flags AND both = both then (B_BAD_VALUE, w)
             else if has_flag flags B_RELATIVE_TIMEOUT \<and> \<not> server_is_infinite_timeout h timeout flags
             then sem_TryAcquireFor env r (to_int32 cnt) timeout w
             else if has_flag flags B_ABSOLUTE_TIMEOUT \<and> \<not> server_is_infinite_timeout h timeout flags
             then sem_TryAcquireUntil env r (to_int32 cnt) w
             else sem_Acquire env r (to_int32 cnt) w))"

definition call_release_sem :: "int \<Rightarrow> world \<Rightarrow> int \<times> world" where
  "call_release_sem i w =
    (case System_GetSemaphore w i of
       None \<Rightarrow> (B_BAD_SEM_ID, w)
     | Some r \<Rightarrow> (B_OK, upd_sem r (\<lambda>s. Semaphore_Release s 1) w))"

definition call_release_sem_etc :: "int \<Rightarrow> int \<Rightarrow> int \<Rightarrow> world \<Rightarrow> int \<times> world" where
  "call_release_sem_etc i cnt flags w =
    (case System_GetSemaphore w i of
       None \<Rightarrow> (B_BAD_SEM_ID, w)
     | Some r \<Rightarrow>
         if flags AND NOT B_DO_NOT_RESCHEDULE \<noteq> 0 then (B_BAD_VALUE, w)
         else (B_OK, upd_sem r (\<lambda>s. Semaphore_Release s (to_int32 cnt)) w))"

definition call_get_sem_count ::
    "host \<Rightarrow> hserver_context \<Rightarrow> int \<Rightarrow> int \<Rightarrow> world \<Rightarrow> int \<times> world" where
  "call_get_sem_count h c i userThreadCount w =
    (case System_GetSemaphore w i of
       None \<Rightarrow> (B_BAD_SEM_ID, w)
     | Some r \<Rightarrow>
         reply_with h c userThreadCount (OInt32 (Semaphore_GetSemCount (semObjs w r))) B_OK w)"

definition call_get_system_sem_count :: "world \<Rightarrow> int" where
  "call_get_system_sem_count w = System_GetSemaphoreCount w"

section \<open>The table of semaphores\<close>

definition sems_ok :: "world \<Rightarrow> bool" where
  "sems_ok w \<longleftrightarrow> IdMap_ok (semaphores w) \<and>
     (\<forall>i x. IdMap_lookup (semaphores w) i = Some x \<longrightarrow>
        (\<exists>r. x = Some r \<and> r < nextRef w \<and> si_sem (sem_info (semObjs w r)) = i \<and>
             sem_registered (semObjs w r)))"

lemma sems_ok_init: "sems_ok world_init"
  by (simp add: sems_ok_def world_init_def IdMap_ok_empty IdMap_lookup_ok)
    (simp add: IdMap_empty_def in_vector_def)

lemma System_GetSemaphore_lookup:
  "System_GetSemaphore w i = Option.bind (IdMap_lookup (semaphores w) i) id"
  by (simp add: System_GetSemaphore_def IdMap_lookup_def)

lemma System_GetSemaphore_cong:
  "semaphores w' = semaphores w \<Longrightarrow> System_GetSemaphore w' = System_GetSemaphore w"
  by (simp add: System_GetSemaphore_def fun_eq_iff)

lemma System_GetSemaphore_iff:
  "System_GetSemaphore w i = Some r \<longleftrightarrow> IdMap_lookup (semaphores w) i = Some (Some r)"
  by (auto simp: System_GetSemaphore_lookup bind_eq_Some_conv)

lemma sems_ok_get:
  "sems_ok w \<Longrightarrow> System_GetSemaphore w i = Some r \<Longrightarrow>
    r < nextRef w \<and> si_sem (sem_info (semObjs w r)) = i \<and> sem_registered (semObjs w r)"
  unfolding System_GetSemaphore_iff sems_ok_def by fastforce

lemma System_GetSemaphore_None:
  assumes "sems_ok w"
  shows "System_GetSemaphore w i = None \<longleftrightarrow> IdMap_lookup (semaphores w) i = None"
proof (cases "IdMap_lookup (semaphores w) i")
  case (Some x)
  then obtain r where "x = Some r" using assms unfolding sems_ok_def by blast
  with Some show ?thesis by (simp add: System_GetSemaphore_lookup)
qed (simp add: System_GetSemaphore_lookup)

lemma System_CreateSemaphore_ok:
  assumes "sems_ok w" "IdMap_has_room (semaphores w)" "System_CreateSemaphore w pid cnt nm = (i, w')"
  shows "sems_ok w'" "0 \<le> i" "System_GetSemaphore w i = None"
    "System_GetSemaphore w' = (System_GetSemaphore w)(i \<mapsto> nextRef w)"
    "semObjs w' = (semObjs w)(nextRef w := (Semaphore_new pid cnt nm)
       \<lparr>sem_info := (sem_info (Semaphore_new pid cnt nm))\<lparr>si_sem := i\<rparr>, sem_registered := True\<rparr>)"
proof -
  let ?m = "semaphores w" and ?r = "nextRef w"
  have m: "IdMap_ok ?m" using assms(1) by (simp add: sems_ok_def)
  have i: "i = fst (IdMap_Add ?m (Some ?r))" "semaphores w' = snd (IdMap_Add ?m (Some ?r))"
    "nextRef w' = Suc ?r"
    and objs: "semObjs w' = (semObjs w)(nextRef w := (Semaphore_new pid cnt nm)
       \<lparr>sem_info := (sem_info (Semaphore_new pid cnt nm))\<lparr>si_sem := i\<rparr>, sem_registered := True\<rparr>)"
    using assms(3)
    by (auto simp: System_CreateSemaphore_def new_sem_def upd_sem_def Let_def split: prod.splits)
  have look: "IdMap_lookup (semaphores w') = (IdMap_lookup ?m)(i \<mapsto> Some ?r)"
    using IdMap_Add_lookup [OF m assms(2), of "Some ?r"] i by simp
  show "0 \<le> i" using IdMap_Add_nonneg [OF m assms(2)] i by simp
  show "System_GetSemaphore w i = None"
    using IdMap_Add_fresh [OF m assms(2), of "Some ?r"] i by (simp add: System_GetSemaphore_lookup)
  show "System_GetSemaphore w' = (System_GetSemaphore w)(i \<mapsto> nextRef w)"
    using look by (auto simp: System_GetSemaphore_lookup fun_eq_iff)
  show "semObjs w' = (semObjs w)(nextRef w := (Semaphore_new pid cnt nm)
       \<lparr>sem_info := (sem_info (Semaphore_new pid cnt nm))\<lparr>si_sem := i\<rparr>, sem_registered := True\<rparr>)"
    by (fact objs)
  have new: "\<exists>s. x = Some s \<and> s < nextRef w' \<and> si_sem (sem_info (semObjs w' s)) = j \<and>
      sem_registered (semObjs w' s)" if "IdMap_lookup (semaphores w') j = Some x" for j x
  proof (cases "j = i")
    case False
    then have "IdMap_lookup ?m j = Some x" using that look by simp
    then obtain s where "x = Some s" "s < ?r" "si_sem (sem_info (semObjs w s)) = j"
      "sem_registered (semObjs w s)"
      using assms(1) unfolding sems_ok_def by blast
    then show ?thesis using objs i(3) by simp
  qed (use that look objs i(3) in \<open>auto intro!: exI [of _ ?r]\<close>)
  show "sems_ok w'"
    unfolding sems_ok_def using new IdMap_ok_Add [OF m assms(2)] i by simp
qed

lemma System_UnregisterSemaphore_ok:
  assumes "sems_ok w" "System_GetSemaphore w i = Some r"
    and "System_UnregisterSemaphore w i = (n, w')"
  shows "sems_ok w'" "System_GetSemaphore w' = (System_GetSemaphore w)(i := None)"
    "semObjs w' = (semObjs w)(r := (semObjs w r)\<lparr>sem_registered := False\<rparr>)"
proof -
  have m: "IdMap_ok (semaphores w)" using assms(1) by (simp add: sems_ok_def)
  have look: "IdMap_lookup (semaphores w) i = Some (Some r)"
    using assms(2) by (simp add: System_GetSemaphore_iff)
  then have get: "IdMap_IsValidId (semaphores w) i" "IdMap_Get (semaphores w) i = Some (Some r)"
    by (simp_all add: IdMap_lookup_def split: if_splits)
  obtain m' where m': "IdMap_Remove None (semaphores w) i = Some m'" "IdMap_ok m'"
    "IdMap_lookup m' = (IdMap_lookup (semaphores w))(i := None)"
    using IdMap_Remove_valid [OF m, of i None] look by auto
  have w': "semaphores w' = m'" "nextRef w' = nextRef w"
    "semObjs w' = (semObjs w)(r := (semObjs w r)\<lparr>sem_registered := False\<rparr>)"
    using assms(3) get m'(1) by (auto simp: System_UnregisterSemaphore_def upd_sem_def)
  show "System_GetSemaphore w' = (System_GetSemaphore w)(i := None)"
    using w' m'(3) by (auto simp: System_GetSemaphore_lookup fun_eq_iff)
  have "\<exists>s. x = Some s \<and> s < nextRef w' \<and> si_sem (sem_info (semObjs w' s)) = j \<and>
      sem_registered (semObjs w' s)" if "IdMap_lookup (semaphores w') j = Some x" for j x
  proof -
    have "IdMap_lookup (semaphores w) j = Some x" "j \<noteq> i"
      using that w' m'(3) by (auto split: if_splits)
    then obtain s where s: "x = Some s" "s < nextRef w" "si_sem (sem_info (semObjs w s)) = j"
      "sem_registered (semObjs w s)"
      using assms(1) unfolding sems_ok_def by blast
    moreover have "s \<noteq> r" using s sems_ok_get [OF assms(1,2)] \<open>j \<noteq> i\<close> by auto
    ultimately show ?thesis using w' by simp
  qed
  then show "sems_ok w'" unfolding sems_ok_def using m' w' by simp
  show "semObjs w' = (semObjs w)(r := (semObjs w r)\<lparr>sem_registered := False\<rparr>)" by (fact w')
qed

section \<open>Properties\<close>

text \<open>
  Creating a semaphore. A successful \<open>create_sem\<close> returns a non-negative id that no
  semaphore had; under it the table then holds a registered semaphore with the requested count,
  the name cut to 31 characters and the caller as owner, the caller's team records the id, and
  all other ids lead to the same semaphores as before.
\<close>

theorem create_sem_yields_fresh_id:
  assumes "sems_ok w" and "IdMap_has_room (semaphores w)" and "0 \<le> cnt"
    and "Process_ReadMemory h (the_process c w) userName len = Some nm"
    and "call_create_sem h c cnt userName len w = (i, w')"
  shows "0 \<le> i \<and> System_GetSemaphore w i = None \<and>
    (\<exists>r. System_GetSemaphore w' = (System_GetSemaphore w)(i \<mapsto> r) \<and>
       semObjs w' r = \<lparr>sem_info = \<lparr>si_sem = i, si_team = ctx_pid c, si_name = take 31 (cstr nm),
           si_count = cnt\<rparr>, sem_count = cnt, sem_registered = True, sem_waitCount = 0\<rparr> \<and>
       (\<forall>j s. System_GetSemaphore w j = Some s \<longrightarrow> semObjs w' s = semObjs w s)) \<and>
    i \<in> set (p_owningSemaphores (the_process c w')) \<and> sems_ok w'"
proof -
  obtain w1 where create: "System_CreateSemaphore w (ctx_pid c) cnt nm = (i, w1)"
    using assms(3-5) by (auto simp: call_create_sem_def split: prod.splits)
  note made = System_CreateSemaphore_ok [OF assms(1,2) create]
  have w': "w' = upd_process (ctx_process c)
      (\<lambda>p. p\<lparr>p_owningSemaphores := os_insert i (p_owningSemaphores p)\<rparr>) w1"
    using assms(3-5) create by (simp add: call_create_sem_def)
  have "semObjs w' s = semObjs w s" if "System_GetSemaphore w j = Some s" for j s
    using sems_ok_get [OF assms(1) that] made(5) w' by (simp add: upd_process_def)
  moreover have "System_GetSemaphore w' = System_GetSemaphore w1"
    by (rule System_GetSemaphore_cong) (simp add: w' upd_process_def)
  moreover have "sems_ok w'" using made(1) by (simp add: w' upd_process_def sems_ok_def)
  ultimately show ?thesis
    using made w' by (auto simp: upd_process_def set_os_insert Semaphore_new_def os_name_def)
qed

text \<open>
  C25: deleting a semaphore releases its waiters. A thread that is blocked in \<open>acquire_sem\<close>
  while the owner deletes the semaphore returns with \<open>B_BAD_SEM_ID\<close>, takes no unit, and the id
  is then free.
\<close>

theorem delete_sem_fails_waiters:
  assumes "sems_ok w" and "System_GetSemaphore w i = Some r" and "sem_count (semObjs w r) < 1"
    and "si_team (sem_info (semObjs w r)) = ctx_pid owner"
    and "call_acquire_sem (\<lambda>v. snd (call_delete_sem owner i v)) i w = (status, w')"
  shows "status = B_BAD_SEM_ID \<and> sem_count (semObjs w' r) = sem_count (semObjs w r) \<and>
    System_GetSemaphore w' i = None"
proof -
  define w1 where "w1 = upd_sem r (\<lambda>_. (semObjs w r)\<lparr>sem_waitCount := sem_waitCount (semObjs w r) + 1\<rparr>) w"
  have blocked: "Semaphore_Acquire_begin (semObjs w r) 1 =
      Inr ((semObjs w r)\<lparr>sem_waitCount := sem_waitCount (semObjs w r) + 1\<rparr>)"
    using assms(3) by (simp add: Semaphore_Acquire_begin_def)
  have get1: "System_GetSemaphore w1 = System_GetSemaphore w"
    by (rule System_GetSemaphore_cong) (simp add: w1_def upd_sem_def)
  have ok1: "sems_ok w1" using assms(1) by (auto simp: sems_ok_def w1_def upd_sem_def)
  obtain n w2 where un: "System_UnregisterSemaphore w1 i = (n, w2)" by fastforce
  have gone: "sems_ok w2" "System_GetSemaphore w2 = (System_GetSemaphore w1)(i := None)"
    "semObjs w2 = (semObjs w1)(r := (semObjs w1 r)\<lparr>sem_registered := False\<rparr>)"
    using System_UnregisterSemaphore_ok [OF ok1 _ un, of r] get1 assms(2) by simp_all
  define w3 where "w3 = snd (call_delete_sem owner i w1)"
  have w3: "semObjs w3 = semObjs w2" "semaphores w3 = semaphores w2"
    using un get1 assms(2,4)
    by (simp_all add: w3_def call_delete_sem_def upd_process_def w1_def upd_sem_def Let_def)
  have res: "call_acquire_sem (\<lambda>v. snd (call_delete_sem owner i v)) i w =
      sem_finish r (Semaphore_Acquire_end (semObjs w3 r) 1) w3"
    using blocked assms(2) by (simp add: call_acquire_sem_def sem_Acquire_def w1_def w3_def Let_def)
  have "semaphores w' = semaphores w2"
    using res assms(5) w3 by (auto simp: sem_finish_def upd_sem_def)
  then have "System_GetSemaphore w' i = None"
    using gone(2) System_GetSemaphore_cong [of w' w2] by simp
  then show ?thesis
    using res assms(5) w3 gone(3)
    by (auto simp: sem_finish_def upd_sem_def Semaphore_Acquire_end_def Let_def w1_def)
qed

text \<open>
  \<open>acquire_sem_etc\<close> with a count of \<open>2^31\<close> or more. The unsigned count becomes negative
  on its way into the class, so the call succeeds at once and adds units to the semaphore instead
  of taking them.
\<close>

theorem acquire_sem_etc_huge_count_adds_units:
  assumes "System_GetSemaphore w i = Some r" and "2 ^ 31 \<le> cnt" and "cnt < 2 ^ 32"
    and "0 \<le> sem_count (semObjs w r)" and "sem_count (semObjs w r) + (2 ^ 32 - cnt) \<le> INT_MAX"
  shows "\<exists>w'. call_acquire_sem_etc h env i cnt 0 timeout w = (B_OK, w') \<and>
    sem_count (semObjs w' r) = sem_count (semObjs w r) + (2 ^ 32 - cnt)"
proof -
  have cnt: "to_int32 cnt = cnt - 2 ^ 32"
  proof -
    have "to_int32 cnt = to_int32 (cnt - 2 ^ 32)"
      using to_int32_mod [of cnt] to_int32_mod [of "cnt - 2 ^ 32"] by simp
    then show ?thesis using assms(2,3) by (simp add: is_int32_def)
  qed
  have "to_int32 (sem_count (semObjs w r) - (cnt - 2 ^ 32)) = sem_count (semObjs w r) - (cnt - 2 ^ 32)"
    using assms(2-5) by (intro to_int32_id) (simp add: is_int32_def)
  then show ?thesis
    using assms cnt
    by (simp add: call_acquire_sem_etc_def sem_Acquire_def Semaphore_Acquire_begin_def sem_finish_def
        upd_sem_def take_count_def has_flag_def timeout_flag_defs Let_def)
qed

lemma sample_sems_ok: "sems_ok sample_world" "IdMap_has_room (semaphores sample_world)"
  using sems_ok_init by (simp_all add: sems_ok_def sample_world_def world_init_def IdMap_has_room_def
      IdMap_empty_def)

text \<open>The world in which team 4 has created an empty semaphore.\<close>

definition sample_sem_world :: world where
  "sample_sem_world = snd (call_create_sem sample_name_host sample_context 0 900 4 sample_world)"

lemma sample_sem_created:
  "call_create_sem sample_name_host sample_context 0 900 4 sample_world = (0, sample_sem_world)"
  "Process_ReadMemory sample_name_host (the_process sample_context sample_world) 900 4 = Some ''gate''"
proof -
  show "Process_ReadMemory sample_name_host (the_process sample_context sample_world) 900 4 = Some ''gate''"
    by (simp add: Process_ReadMemory_def)
  then show "call_create_sem sample_name_host sample_context 0 900 4 sample_world = (0, sample_sem_world)"
    by (simp add: sample_sem_world_def call_create_sem_def System_CreateSemaphore_def new_sem_def
        IdMap_Add_def sample_world_def world_init_def IdMap_empty_def to_int32_def)
qed

lemma sample_sem_state:
  "sems_ok sample_sem_world" "System_GetSemaphore sample_sem_world 0 = Some 1"
  "sem_count (semObjs sample_sem_world 1) = 0" "si_team (sem_info (semObjs sample_sem_world 1)) = 4"
proof -
  let ?w = "sample_world"
  obtain w1 where c: "System_CreateSemaphore ?w 4 0 ''gate'' = (0, w1)"
    using sample_sem_created by (auto simp: call_create_sem_def sample_context_def split: prod.splits)
  note made = System_CreateSemaphore_ok [OF sample_sems_ok c]
  have w: "semaphores sample_sem_world = semaphores w1" "semObjs sample_sem_world = semObjs w1"
    "nextRef sample_sem_world = nextRef w1"
    using c sample_sem_created(2)
    by (simp_all add: sample_sem_world_def call_create_sem_def sample_context_def upd_process_def)
  have one: "nextRef ?w = 1" by (simp add: sample_world_def)
  show "sems_ok sample_sem_world" using made(1) w by (simp add: sems_ok_def)
  show "System_GetSemaphore sample_sem_world 0 = Some 1"
    using made(4) one w(1) System_GetSemaphore_cong [of sample_sem_world w1] by simp
  show "sem_count (semObjs sample_sem_world 1) = 0"
    "si_team (sem_info (semObjs sample_sem_world 1)) = 4"
    using made(5) one w by (simp_all add: Semaphore_new_def)
qed

theorem create_sem_yields_fresh_id_witness:
  "\<exists>r. System_GetSemaphore sample_sem_world 0 = Some r \<and>
    si_name (sem_info (semObjs sample_sem_world r)) = ''gate''"
proof -
  have "\<exists>r. System_GetSemaphore sample_sem_world = (System_GetSemaphore sample_world)(0 \<mapsto> r) \<and>
    si_name (sem_info (semObjs sample_sem_world r)) = take 31 (cstr ''gate'')"
    using create_sem_yields_fresh_id [OF sample_sems_ok _ sample_sem_created(2,1)]
    by (metis order_refl semaphore.select_convs(1) haiku_sem_info.select_convs(3))
  then show ?thesis by (auto simp: cstr_def)
qed

theorem delete_sem_fails_waiters_witness:
  "fst (call_acquire_sem (\<lambda>v. snd (call_delete_sem sample_context 0 v)) 0 sample_sem_world)
    = B_BAD_SEM_ID"
  using delete_sem_fails_waiters [of sample_sem_world 0 1 sample_context] sample_sem_state
  by (simp add: sample_context_def prod_eq_iff)

theorem acquire_sem_etc_huge_count_adds_units_witness:
  "\<exists>w'. call_acquire_sem_etc sample_host id 0 4294967295 0 0 sample_sem_world = (B_OK, w') \<and>
    sem_count (semObjs w' 1) = 1"
  using acquire_sem_etc_huge_count_adds_units
    [of sample_sem_world 0 1 4294967295 sample_host id 0] sample_sem_state by simp

end
