(* ===== verification/PortCalls.thy ===== *)
theory PortCalls
  imports Calls
begin

text \<open>
  The port calls of \<^verbatim>\<open>hyclone_server/port.cpp\<close>, on top of the class (theory Port) and the
  registry (theory System), with the invariants that tie the ports, their names and the owning
  teams together over any history of calls.
\<close>

section \<open>Members that wait, on shared objects\<close>

definition port_Write ::
    "(world \<Rightarrow> world) \<Rightarrow> ref \<Rightarrow> port_message \<Rightarrow> int \<Rightarrow> world \<Rightarrow> int \<times> world" where
  "port_Write env r m timeout w =
    (case Port_Write_begin (portObjs w r) m timeout of
       Inl (status, p) \<Rightarrow> (status, upd_port r (\<lambda>_. p) w)
     | Inr _ \<Rightarrow>
         (let w1 = env w; (status, p) = Port_Write_finish (portObjs w1 r) (with_size m)
          in (status, upd_port r (\<lambda>_. p) w1)))"

definition port_reading ::
    "ref \<Rightarrow> world \<Rightarrow> (int \<times> 'm option \<times> port) option \<Rightarrow> (int \<times> 'm option \<times> world) option" where
  "port_reading r w x =
    (case x of None \<Rightarrow> None | Some (status, m, p) \<Rightarrow> Some (status, m, upd_port r (\<lambda>_. p) w))"

definition port_Read ::
    "(world \<Rightarrow> world) \<Rightarrow> ref \<Rightarrow> int \<Rightarrow> world \<Rightarrow> (int \<times> port_message option \<times> world) option" where
  "port_Read env r timeout w =
    (case Port_Read_begin (portObjs w r) timeout of
       Inl x \<Rightarrow> port_reading r w x
     | Inr _ \<Rightarrow> (let w1 = env w in port_reading r w1 (Port_Read_finish (portObjs w1 r))))"

definition port_GetMessageInfo ::
    "(world \<Rightarrow> world) \<Rightarrow> ref \<Rightarrow> int \<Rightarrow> world \<Rightarrow>
     (int \<times> haiku_port_message_info option \<times> world) option" where
  "port_GetMessageInfo env r timeout w =
    (case Port_GetMessageInfo_begin (portObjs w r) timeout of
       Inl x \<Rightarrow> port_reading r w x
     | Inr _ \<Rightarrow> (let w1 = env w in port_reading r w1 (Port_GetMessageInfo_finish (portObjs w1 r))))"

text \<open>An elapsed absolute deadline is reported as \<open>B_TIMED_OUT\<close>.\<close>

definition deadline_status :: "int \<Rightarrow> int \<Rightarrow> int" where
  "deadline_status flags status =
    (if status = B_WOULD_BLOCK \<and> has_flag flags B_ABSOLUTE_TIMEOUT then B_TIMED_OUT else status)"

section \<open>The calls\<close>

definition call_create_port ::
    "host \<Rightarrow> hserver_context \<Rightarrow> int \<Rightarrow> int \<Rightarrow> int \<Rightarrow> world \<Rightarrow> int \<times> world" where
  "call_create_port h c queue_length nm portNameLength w =
    (if queue_length < 1 \<or> queue_length > HAIKU_PORT_MAX_QUEUE_LENGTH then (B_BAD_VALUE, w)
     else case read_exact h (ctx_pid c) nm portNameLength of
       None \<Rightarrow> (B_BAD_ADDRESS, w)
     | Some buffer \<Rightarrow>
         (let (r, w1) = new_port (Port_new (ctx_pid c) queue_length buffer) w;
              (i, w2) = System_RegisterPort w1 r
          in (i, upd_process (ctx_process c)
                   (\<lambda>p. p\<lparr>p_owningPorts := os_insert i (p_owningPorts p)\<rparr>) w2)))"

definition call_close_port :: "int \<Rightarrow> world \<Rightarrow> int \<times> world" where
  "call_close_port i w =
    (case System_GetPort w i of
       None \<Rightarrow> (B_BAD_PORT_ID, w)
     | Some r \<Rightarrow> (let (status, p) = Port_Close (portObjs w r) in (status, upd_port r (\<lambda>_. p) w)))"

text \<open>\<open>None\<close>: the id has left the vector of ports when it is unregistered.\<close>

definition call_delete_port :: "int \<Rightarrow> world \<Rightarrow> (int \<times> world) option" where
  "call_delete_port i w =
    (case System_GetPort w i of
       None \<Rightarrow> Some (B_BAD_PORT_ID, w)
     | Some r \<Rightarrow>
         (let w1 = (case System_GetProcess w (pi_team (port_info (portObjs w r))) of
                None \<Rightarrow> w
              | Some p \<Rightarrow>
                  upd_process p (\<lambda>p. p\<lparr>p_owningPorts := os_erase i (p_owningPorts p)\<rparr>) w)
          in case System_UnregisterPort w1 i of None \<Rightarrow> None | Some (_, w2) \<Rightarrow> Some (B_OK, w2)))"

definition call_find_port :: "host \<Rightarrow> hserver_context \<Rightarrow> int \<Rightarrow> int \<Rightarrow> world \<Rightarrow> int" where
  "call_find_port h c port_name portNameLength w =
    (case read_exact h (ctx_pid c) port_name portNameLength of
       None \<Rightarrow> B_BAD_ADDRESS
     | Some buffer \<Rightarrow>
         (let result = System_FindPort w buffer
          in if result < 0 then B_NAME_NOT_FOUND else result))"

definition call_get_port_info ::
    "host \<Rightarrow> hserver_context \<Rightarrow> int \<Rightarrow> int \<Rightarrow> world \<Rightarrow> int \<times> world" where
  "call_get_port_info h c i info w =
    (case System_GetPort w i of
       None \<Rightarrow> (B_BAD_PORT_ID, w)
     | Some r \<Rightarrow>
         (case write_guest h (ctx_pid c) info (OPortInfo (port_info (portObjs w r))) w of
            None \<Rightarrow> (B_BAD_ADDRESS, w)
          | Some w' \<Rightarrow> (B_OK, w')))"

text \<open>The search for the next port of a team: the port found, if any, and the new cookie.\<close>

function next_port_loop :: "world \<Rightarrow> oset \<Rightarrow> int \<Rightarrow> ref option \<times> int" where
  "next_port_loop w owned cookie =
    (if cookie = -1 then (None, -1)
     else case os_lower_bound owned cookie of
       None \<Rightarrow> (None, -1)
     | Some y \<Rightarrow>
         (case System_GetPort w y of
            Some r \<Rightarrow> (Some r, y + 1)
          | None \<Rightarrow> next_port_loop w owned (y + 1)))"
  by pat_completeness auto

lemma dropWhile_shrinks:
  fixes owned :: "int list"
  shows "dropWhile (\<lambda>z. z < k) owned = y # ys \<Longrightarrow>
    length (dropWhile (\<lambda>z. z \<le> y) owned) < Suc (length ys)"
proof (induction owned)
  case (Cons a owned)
  then show ?case
    using length_dropWhile_le [of "\<lambda>z. z \<le> a" owned] dropWhile_eq_Cons_conv [of "\<lambda>z. z < k" owned y ys]
    by (auto split: if_splits simp: less_Suc_eq_le)
qed simp

termination next_port_loop
  by (relation "measure (\<lambda>(w, owned, k). length (dropWhile (\<lambda>z. z < k) owned))")
    (auto simp: os_lower_bound_def dropWhile_shrinks split: list.splits)

declare next_port_loop.simps [simp del]

definition call_get_next_port_info ::
    "host \<Rightarrow> hserver_context \<Rightarrow> int \<Rightarrow> int \<Rightarrow> int \<Rightarrow> world \<Rightarrow> int \<times> world" where
  "call_get_next_port_info h c team userCookie info w =
    (case System_GetProcess w team of
       None \<Rightarrow> (B_BAD_TEAM_ID, w)
     | Some target \<Rightarrow>
         (case Process_ReadMemory h (the_process c w) userCookie 4 of
            None \<Rightarrow> (B_BAD_ADDRESS, w)
          | Some bs \<Rightarrow>
              (let cookie = dec_int32 bs; owned = p_owningPorts (processObjs w target)
               in if cookie < 0 then (B_BAD_VALUE, w)
                  else
                    (let start = (if owned = [] \<or> cookie \<ge> last owned then -1 else cookie);
                         (prt, cookie') = next_port_loop w owned start
                     in case (case prt of
                          None \<Rightarrow> Some w
                        | Some r \<Rightarrow>
                            Process_WriteMemory h c info (OPortInfo (port_info (portObjs w r))) w) of
                          None \<Rightarrow> (B_BAD_ADDRESS, w)
                        | Some w1 \<Rightarrow>
                            reply_with h c userCookie (OInt32 cookie')
                              (if cookie' = -1 then B_BAD_VALUE else B_OK) w1))))"

definition call_port_count :: "int \<Rightarrow> world \<Rightarrow> int" where
  "call_port_count i w =
    (case System_GetPort w i of None \<Rightarrow> B_BAD_PORT_ID | Some r \<Rightarrow> queue_count (portObjs w r))"

definition call_port_buffer_size_etc ::
    "host \<Rightarrow> (world \<Rightarrow> world) \<Rightarrow> int \<Rightarrow> int \<Rightarrow> int \<Rightarrow> world \<Rightarrow> (int \<times> world) option" where
  "call_port_buffer_size_etc h env i flags timeout w =
    (case System_GetPort w i of
       None \<Rightarrow> Some (B_BAD_PORT_ID, w)
     | Some r \<Rightarrow>
         (case port_GetMessageInfo env r (server_relative_timeout h flags timeout) w of
            None \<Rightarrow> None
          | Some (status, m, w1) \<Rightarrow>
              Some (case m of None \<Rightarrow> deadline_status flags status | Some mi \<Rightarrow> mi_size mi, w1)))"

definition call_set_port_owner :: "int \<Rightarrow> int \<Rightarrow> world \<Rightarrow> int \<times> world" where
  "call_set_port_owner i team w =
    (case System_GetPort w i of
       None \<Rightarrow> (B_BAD_PORT_ID, w)
     | Some r \<Rightarrow>
         (case System_GetProcess w (pi_team (port_info (portObjs w r))) of
            None \<Rightarrow> (B_BAD_PORT_ID, w)
          | Some old \<Rightarrow>
              (case System_GetProcess w team of
                 None \<Rightarrow> (B_BAD_TEAM_ID, w)
               | Some new \<Rightarrow>
                   if old \<noteq> new then
                     (let w1 = upd_process old (\<lambda>p. p\<lparr>p_owningPorts := os_erase i (p_owningPorts p)\<rparr>) w;
                          w2 = upd_process new (\<lambda>p. p\<lparr>p_owningPorts := os_insert i (p_owningPorts p)\<rparr>) w1
                      in (B_OK, upd_port r (\<lambda>p. Port_SetOwner p team) w2))
                   else (B_OK, w))))"

definition call_write_port_etc ::
    "host \<Rightarrow> (world \<Rightarrow> world) \<Rightarrow> hserver_context \<Rightarrow> int \<Rightarrow> int \<Rightarrow> int \<Rightarrow> int \<Rightarrow> int \<Rightarrow> int \<Rightarrow>
     world \<Rightarrow> int \<times> world" where
  "call_write_port_etc h env c i messageCode msgBuffer bufferSize flags timeout w =
    (case System_GetPort w i of
       None \<Rightarrow> (B_BAD_PORT_ID, w)
     | Some r \<Rightarrow>
         if port_closed (portObjs w r) then (B_BAD_PORT_ID, w)
         else case read_exact h (ctx_pid c) msgBuffer bufferSize of
           None \<Rightarrow> (B_BAD_ADDRESS, w)
         | Some bs \<Rightarrow>
             (let m = \<lparr>msg_data = bs,
                    msg_info = \<lparr>mi_size = bufferSize, mi_sender = 0, mi_sender_group = 0,
                      mi_sender_team = ctx_pid c\<rparr>,
                    msg_code = messageCode\<rparr>;
                  (status, w1) = port_Write env r m (server_relative_timeout h flags timeout) w
              in (deadline_status flags status, w1)))"

definition call_read_port_etc ::
    "host \<Rightarrow> (world \<Rightarrow> world) \<Rightarrow> hserver_context \<Rightarrow> int \<Rightarrow> int \<Rightarrow> int \<Rightarrow> int \<Rightarrow> int \<Rightarrow> int \<Rightarrow>
     world \<Rightarrow> (int \<times> world) option" where
  "call_read_port_etc h env c i userMessageCode msgBuffer bufferSize flags timeout w =
    (case System_GetPort w i of
       None \<Rightarrow> Some (B_BAD_PORT_ID, w)
     | Some r \<Rightarrow>
         (case port_Read env r (server_relative_timeout h flags timeout) w of
            None \<Rightarrow> None
          | Some (status, None, w1) \<Rightarrow> Some (deadline_status flags status, w1)
          | Some (status, Some m, w1) \<Rightarrow>
              (case Process_WriteMemory h c userMessageCode (OInt32 (msg_code m)) w1 of
                 None \<Rightarrow> Some (B_BAD_ADDRESS, w1)
               | Some w2 \<Rightarrow>
                   (let writeSize = min (int (length (msg_data m))) bufferSize
                    in Some (reply_with h c msgBuffer (OBytes (take (nat writeSize) (msg_data m)))
                               writeSize w2)))))"

definition call_get_port_message_info_etc ::
    "host \<Rightarrow> (world \<Rightarrow> world) \<Rightarrow> hserver_context \<Rightarrow> int \<Rightarrow> int \<Rightarrow> int \<Rightarrow> int \<Rightarrow> int \<Rightarrow>
     world \<Rightarrow> (int \<times> world) option" where
  "call_get_port_message_info_etc h env c i userPortMessageInfo infoSize flags timeout w =
    (if infoSize \<noteq> sizeof_port_message_info then Some (B_BAD_VALUE, w)
     else case System_GetPort w i of
       None \<Rightarrow> Some (B_BAD_PORT_ID, w)
     | Some r \<Rightarrow>
         (case port_GetMessageInfo env r (server_relative_timeout h flags timeout) w of
            None \<Rightarrow> None
          | Some (status, None, w1) \<Rightarrow> Some (deadline_status flags status, w1)
          | Some (status, Some mi, w1) \<Rightarrow>
              Some (reply_with h c userPortMessageInfo (OPortMessageInfo mi) B_OK w1)))"

section \<open>The invariant of the port world\<close>

text \<open>The ports a team records as its own are exactly the live ports that name it as owner.\<close>

definition owners_ok :: "world \<Rightarrow> bool" where
  "owners_ok w \<longleftrightarrow>
     (\<forall>pid q p. System_GetProcess w pid = Some p \<longrightarrow> System_GetProcess w q = Some p \<longrightarrow> pid = q) \<and>
     (\<forall>pid p i. System_GetProcess w pid = Some p \<longrightarrow>
        (i \<in> set (p_owningPorts (processObjs w p)) \<longleftrightarrow>
         (\<exists>r. System_GetPort w i = Some r \<and> pi_team (port_info (portObjs w r)) = pid)))"

definition port_world_ok :: "world \<Rightarrow> bool" where
  "port_world_ok w \<longleftrightarrow> ports_ok w \<and> owners_ok w \<and> (\<forall>r. queue_ok (portObjs w r))"

text \<open>A step of a port member, and a step that changes ports in no other way.\<close>

definition port_same :: "port \<Rightarrow> port \<Rightarrow> bool" where
  "port_same p p' \<longleftrightarrow> pi_port (port_info p') = pi_port (port_info p) \<and>
     pi_name (port_info p') = pi_name (port_info p) \<and>
     pi_team (port_info p') = pi_team (port_info p) \<and> (queue_ok p \<longrightarrow> queue_ok p')"

definition port_frame :: "world \<Rightarrow> world \<Rightarrow> bool" where
  "port_frame w w' \<longleftrightarrow> ports w' = ports w \<and> portNames w' = portNames w \<and>
     processes w' = processes w \<and> processObjs w' = processObjs w \<and> nextRef w' = nextRef w \<and>
     (\<forall>r. port_same (portObjs w r) (portObjs w' r))"

lemma System_GetPort_cong: "ports w' = ports w \<Longrightarrow> System_GetPort w' = System_GetPort w"
  by (simp add: System_GetPort_def fun_eq_iff)

lemma System_GetProcess_cong: "processes w' = processes w \<Longrightarrow> System_GetProcess w' = System_GetProcess w"
  by (simp add: System_GetProcess_def fun_eq_iff)

lemma port_world_ok_frame:
  assumes "port_world_ok w" "port_frame w w'"
  shows "port_world_ok w'"
proof -
  have eq: "System_GetPort w' = System_GetPort w" "System_GetProcess w' = System_GetProcess w"
    "processObjs w' = processObjs w"
    using assms(2) System_GetPort_cong [of w' w] System_GetProcess_cong [of w' w]
    by (simp_all add: port_frame_def)
  have same: "port_same (portObjs w r) (portObjs w' r)" for r
    using assms(2) by (simp add: port_frame_def)
  have "ports_ok w'"
    using assms same by (intro ports_ok_frame [of w w']) (auto simp: port_world_ok_def port_frame_def port_same_def)
  moreover have "owners_ok w'"
    using assms(1) same unfolding owners_ok_def port_world_ok_def eq port_same_def by simp
  ultimately show ?thesis using assms(1) same by (auto simp: port_world_ok_def port_same_def)
qed

lemma queue_ok_simps [simp]:
  "queue_ok (p\<lparr>port_registered := b\<rparr>) = queue_ok p"
  "queue_ok (Port_SetOwner p team) = queue_ok p"
  by (simp_all add: queue_ok_def Port_SetOwner_def)

lemma port_same_refl [simp]: "port_same p p"
  by (simp add: port_same_def)

lemma port_frame_upd: "port_same (portObjs w r) p \<Longrightarrow> port_frame w (upd_port r (\<lambda>_. p) w)"
  by (simp add: port_frame_def upd_port_def)

lemma port_frame_trans: "port_frame u v \<Longrightarrow> port_frame v w \<Longrightarrow> port_frame u w"
  by (auto simp: port_frame_def port_same_def)

lemma port_frame_refl [simp]: "port_frame w w"
  by (simp add: port_frame_def)

lemma port_frame_write: "write_guest h pid addr obj w = Some w' \<Longrightarrow> port_frame w w'"
  by (auto simp: write_guest_def port_frame_def split: if_splits)

lemma port_frame_WriteMemory: "Process_WriteMemory h c addr obj w = Some w' \<Longrightarrow> port_frame w w'"
  by (auto simp: Process_WriteMemory_def intro: port_frame_write)

lemma port_frame_reply: "port_frame w (snd (reply_with h c addr obj r w))"
  by (auto simp: reply_with_def intro: port_frame_WriteMemory split: option.splits)

lemma Port_Write_same:
  "port_same p (snd (Port_Write_finish p m))"
  "Port_Write_begin p m d = Inl x \<Longrightarrow> port_same p (snd x)"
proof -
  have fin: "port_same p (snd (Port_Write_finish p m))" for m
    using port_channel.put_ok [of p m]
    by (auto simp: port_same_def port_put_def Port_Write_finish_def)
  show "port_same p (snd (Port_Write_finish p m))" by (rule fin)
  show "Port_Write_begin p m d = Inl x \<Longrightarrow> port_same p (snd x)"
    using fin [of "with_size m"] by (auto simp: Port_Write_begin_def split: if_splits)
qed

lemma Port_Read_same:
  "Port_Read_finish p = Some (s, m, p') \<Longrightarrow> port_same p p'"
  "Port_Read_begin p d = Inl (Some (s, m, p')) \<Longrightarrow> port_same p p'"
proof -
  have fin: "port_same p p'" if "Port_Read_finish p = Some (s, m, p')" for s m
    using that port_channel.get_ok [of p]
    by (auto simp: port_same_def port_get_def Port_Read_finish_def split: if_splits list.splits)
  show "Port_Read_finish p = Some (s, m, p') \<Longrightarrow> port_same p p'" by (rule fin)
  show "Port_Read_begin p d = Inl (Some (s, m, p')) \<Longrightarrow> port_same p p'"
    using fin by (auto simp: Port_Read_begin_def split: if_splits)
qed

lemma Port_GetMessageInfo_same:
  "Port_GetMessageInfo_finish p = Some (s, m, p') \<Longrightarrow> p' = p"
  "Port_GetMessageInfo_begin p d = Inl (Some (s, m, p')) \<Longrightarrow> p' = p"
proof -
  have fin: "p' = p" if "Port_GetMessageInfo_finish p = Some (s, m, p')" for s m
    using that by (auto simp: Port_GetMessageInfo_finish_def split: if_splits list.splits)
  show "Port_GetMessageInfo_finish p = Some (s, m, p') \<Longrightarrow> p' = p" by (rule fin)
  show "Port_GetMessageInfo_begin p d = Inl (Some (s, m, p')) \<Longrightarrow> p' = p"
    using fin by (auto simp: Port_GetMessageInfo_begin_def split: if_splits)
qed

text \<open>What the rest of the server does during a wait keeps the invariant.\<close>

definition env_ok :: "(world \<Rightarrow> world) \<Rightarrow> bool" where
  "env_ok env \<longleftrightarrow> (\<forall>v. port_world_ok v \<longrightarrow> port_world_ok (env v))"

lemma port_Write_ok:
  assumes "port_world_ok w" "env_ok env"
  shows "port_world_ok (snd (port_Write env r m d w))"
proof (cases "Port_Write_begin (portObjs w r) m d")
  case (Inl x)
  then show ?thesis
    using port_world_ok_frame [OF assms(1) port_frame_upd [OF Port_Write_same(2) [OF Inl]]]
    by (auto simp: port_Write_def split: prod.splits)
next
  case (Inr p)
  have "port_world_ok (env w)" using assms by (simp add: env_ok_def)
  from port_world_ok_frame [OF this port_frame_upd [OF Port_Write_same(1)]] show ?thesis
    using Inr by (auto simp: port_Write_def Let_def split: prod.splits) (metis snd_conv)
qed

lemma port_reading_ok:
  assumes "port_world_ok w" "port_reading r w x = Some (s, m, w')"
    and "\<And>s m p. x = Some (s, m, p) \<Longrightarrow> port_same (portObjs w r) p"
  shows "port_world_ok w'"
  using assms port_world_ok_frame [OF assms(1) port_frame_upd]
  by (auto simp: port_reading_def split: option.splits)

lemma port_Read_ok:
  assumes "port_world_ok w" "env_ok env" "port_Read env r d w = Some (s, m, w')"
  shows "port_world_ok w'"
proof (cases "Port_Read_begin (portObjs w r) d")
  case (Inl x)
  then have "port_same (portObjs w r) p" if "x = Some (s, m, p)" for s m p
    using that Port_Read_same(2) by blast
  then show ?thesis
    using port_reading_ok [OF assms(1), of r x s m w'] assms(3) Inl by (simp add: port_Read_def)
next
  case (Inr p)
  have "port_world_ok (env w)" using assms by (simp add: env_ok_def)
  moreover have "port_reading r (env w) (Port_Read_finish (portObjs (env w) r)) = Some (s, m, w')"
    using Inr assms(3) by (simp add: port_Read_def Let_def)
  ultimately show ?thesis by (rule port_reading_ok) (rule Port_Read_same(1))
qed

lemma port_GetMessageInfo_ok:
  assumes "port_world_ok w" "env_ok env" "port_GetMessageInfo env r d w = Some (s, m, w')"
  shows "port_world_ok w'"
proof (cases "Port_GetMessageInfo_begin (portObjs w r) d")
  case (Inl x)
  then show ?thesis
    using port_reading_ok [OF assms(1), of r x s m w'] Port_GetMessageInfo_same(2) assms(3)
    by (fastforce simp: port_GetMessageInfo_def)
next
  case (Inr p)
  have "port_world_ok (env w)" using assms by (simp add: env_ok_def)
  from port_reading_ok [OF this] show ?thesis
    using Inr Port_GetMessageInfo_same(1) assms(3) by (fastforce simp: port_GetMessageInfo_def Let_def)
qed

text \<open>The context of a call as the dispatcher makes it.\<close>

definition acts_for :: "hserver_context \<Rightarrow> world \<Rightarrow> bool" where
  "acts_for c w \<longleftrightarrow> System_GetProcess w (ctx_pid c) = Some (ctx_process c)"

lemma owners_okD:
  "owners_ok w \<Longrightarrow> System_GetProcess w pid = Some p \<Longrightarrow>
    i \<in> set (p_owningPorts (processObjs w p)) \<longleftrightarrow>
    (\<exists>r. System_GetPort w i = Some r \<and> pi_team (port_info (portObjs w r)) = pid)"
  by (auto simp: owners_ok_def)

lemma owners_ok_inj:
  "owners_ok w \<Longrightarrow> System_GetProcess w pid = Some p \<Longrightarrow> System_GetProcess w q = Some p \<Longrightarrow> pid = q"
  by (auto simp: owners_ok_def)

lemma call_create_port_ok:
  assumes "port_world_ok w" "acts_for c w" "IdMap_has_room (ports w)"
    and "call_create_port h c n nm len w = (i, w')"
  shows "port_world_ok w' \<and> (w' = w \<or>
    (\<exists>bs r. read_exact h (ctx_pid c) nm len = Some bs \<and> 0 \<le> i \<and>
       System_GetPort w i = None \<and> System_GetPort w' = (System_GetPort w)(i \<mapsto> r) \<and>
       portObjs w' r = (Port_new (ctx_pid c) n bs)
         \<lparr>port_info := (port_info (Port_new (ctx_pid c) n bs))\<lparr>pi_port := i\<rparr>, port_registered := True\<rparr> \<and>
       portNames w' = (case portNames w (os_name bs) of
          Some _ \<Rightarrow> portNames w | None \<Rightarrow> (portNames w)(os_name bs \<mapsto> i))))"
proof (cases "w' = w")
  case False
  then obtain bs where n: "1 \<le> n" "n \<le> HAIKU_PORT_MAX_QUEUE_LENGTH"
    and bs: "read_exact h (ctx_pid c) nm len = Some bs"
    using assms(4) by (auto simp: call_create_port_def split: if_splits option.splits)
  define p where "p = Port_new (ctx_pid c) n bs"
  define w1 where "w1 = snd (new_port p w)"
  let ?r = "nextRef w"
  obtain w2 where reg: "System_RegisterPort w1 ?r = (i, w2)" and
    w': "w' = upd_process (ctx_process c) (\<lambda>p. p\<lparr>p_owningPorts := os_insert i (p_owningPorts p)\<rparr>) w2"
    using assms(4) n bs
    by (auto simp: call_create_port_def new_port_def w1_def p_def Let_def split: prod.splits)
  have w: "ports_ok w" "owners_ok w" "\<forall>r. queue_ok (portObjs w r)"
    using assms(1) by (auto simp: port_world_ok_def)
  have get1: "System_GetPort w1 = System_GetPort w"
    by (rule System_GetPort_cong) (simp add: w1_def new_port_def)
  have ok1: "ports_ok w1"
    using w(1) by (intro ports_ok_frame [of w w1]) (auto simp: w1_def new_port_def)
  have unused: "\<forall>i. System_GetPort w1 i \<noteq> Some ?r"
    using get1 System_GetPort_id [OF w(1)] by fastforce
  have room: "IdMap_has_room (ports w1)" "?r < nextRef w1"
    using assms(3) by (simp_all add: w1_def new_port_def)
  note made = System_RegisterPort_ok [OF ok1 room(1,2) unused reg]
  have objs: "portObjs w' = (portObjs w)(?r := p\<lparr>port_info := (port_info p)\<lparr>pi_port := i\<rparr>,
      port_registered := True\<rparr>)"
    using made(6) by (simp add: w' upd_process_def w1_def new_port_def)
  have get': "System_GetPort w' = (System_GetPort w)(i \<mapsto> ?r)"
    using made(4) get1 System_GetPort_cong [of w' w2] by (simp add: w' upd_process_def)
  have procs: "System_GetProcess w' = System_GetProcess w"
    using reg by (intro System_GetProcess_cong)
      (auto simp: w' upd_process_def System_RegisterPort_def upd_port_def w1_def new_port_def Let_def
        split: prod.splits option.splits)
  have pobjs: "processObjs w' = (processObjs w)(ctx_process c := (the_process c w)
      \<lparr>p_owningPorts := os_insert i (p_owningPorts (the_process c w))\<rparr>)"
    using reg by (auto simp: w' upd_process_def System_RegisterPort_def upd_port_def w1_def new_port_def
        Let_def split: prod.splits option.splits)
  have old: "System_GetPort w j = Some r \<Longrightarrow> r \<noteq> ?r" for j r
    using System_GetPort_id [OF w(1)] by fastforce
  have team: "pi_team (port_info p) = ctx_pid c" by (simp add: p_def Port_new_def)
  have "ports_ok w'"
    using made(1) by (intro ports_ok_frame [of w2 w']) (auto simp: w' upd_process_def)
  moreover have "owners_ok w'"
    unfolding owners_ok_def procs
  proof (intro conjI allI impI)
    fix pid q x assume "System_GetProcess w pid = Some x" "System_GetProcess w q = Some x"
    then show "pid = q" by (rule owners_ok_inj [OF w(2)])
  next
    fix pid x j assume x: "System_GetProcess w pid = Some x"
    have mine: "x = ctx_process c \<longleftrightarrow> pid = ctx_pid c"
      using x assms(2) owners_ok_inj [OF w(2)] by (auto simp: acts_for_def)
    have "j \<in> set (p_owningPorts (processObjs w' x)) \<longleftrightarrow>
      j \<in> set (p_owningPorts (processObjs w x)) \<or> (j = i \<and> pid = ctx_pid c)"
      using mine by (auto simp: pobjs set_os_insert)
    moreover have "(\<exists>r. System_GetPort w' j = Some r \<and> pi_team (port_info (portObjs w' r)) = pid) \<longleftrightarrow>
      (\<exists>r. System_GetPort w j = Some r \<and> pi_team (port_info (portObjs w r)) = pid) \<or>
      (j = i \<and> pid = ctx_pid c)"
      using made(2) get1 old [of j] by (auto simp: get' objs team)
    ultimately show "j \<in> set (p_owningPorts (processObjs w' x)) \<longleftrightarrow>
      (\<exists>r. System_GetPort w' j = Some r \<and> pi_team (port_info (portObjs w' r)) = pid)"
      using owners_okD [OF w(2) x] by simp
  qed
  moreover have "\<forall>r. queue_ok (portObjs w' r)"
  proof -
    have "queue_ok (p\<lparr>port_info := (port_info p)\<lparr>pi_port := i\<rparr>, port_registered := True\<rparr>)"
      using n by (simp add: p_def queue_ok_def Port_new_def)
    then show ?thesis using w(3) by (simp add: objs)
  qed
  moreover have "portNames w' = (case portNames w (os_name bs) of
      Some _ \<Rightarrow> portNames w | None \<Rightarrow> (portNames w)(os_name bs \<mapsto> i))"
    using made(5) by (simp add: w' upd_process_def w1_def new_port_def p_def Port_new_def split: option.splits)
  ultimately show ?thesis
    using bs made(2,3) get1 get' objs unfolding port_world_ok_def p_def
    by (intro conjI disjI2 exI [of _ bs] exI [of _ ?r]) auto
qed (use assms(1) in simp)

lemma call_delete_port_ok:
  assumes "port_world_ok w"
  obtains s w' where "call_delete_port i w = Some (s, w')" "port_world_ok w'"
    "s = (if System_GetPort w i = None then B_BAD_PORT_ID else B_OK)"
    "System_GetPort w' = (System_GetPort w)(i := None)"
    "System_GetPort w i = None \<Longrightarrow> w' = w"
    "\<And>r. System_GetPort w i = Some r \<Longrightarrow>
      portNames w' = (portNames w)(pi_name (port_info (portObjs w r)) := None)"
proof (cases "System_GetPort w i")
  case None
  then show ?thesis
    using assms by (intro that [of B_BAD_PORT_ID w]) (auto simp: call_delete_port_def fun_eq_iff)
next
  case (Some r)
  let ?team = "pi_team (port_info (portObjs w r))"
  define w1 where "w1 = (case System_GetProcess w ?team of None \<Rightarrow> w
    | Some p \<Rightarrow> upd_process p (\<lambda>p. p\<lparr>p_owningPorts := os_erase i (p_owningPorts p)\<rparr>) w)"
  have same1: "ports w1 = ports w" "portNames w1 = portNames w" "portObjs w1 = portObjs w"
    "nextRef w1 = nextRef w" "processes w1 = processes w"
    by (auto simp: w1_def upd_process_def split: option.splits)
  have w: "ports_ok w" "owners_ok w" "\<forall>r. queue_ok (portObjs w r)"
    using assms by (auto simp: port_world_ok_def)
  have ok1: "ports_ok w1"
    using w(1) same1 by (intro ports_ok_frame [of w w1]) auto
  have get1: "System_GetPort w1 = System_GetPort w"
    by (rule System_GetPort_cong) (simp add: same1)
  obtain n w2 where un: "System_UnregisterPort w1 i = Some (n, w2)" "ports_ok w2"
    "System_GetPort w2 = (System_GetPort w1)(i := None)"
    "portNames w2 = (portNames w1)(pi_name (port_info (portObjs w1 r)) := None)"
    "portObjs w2 = (portObjs w1)(r := (portObjs w1 r)\<lparr>port_registered := False\<rparr>)"
    "processObjs w2 = processObjs w1" "processes w2 = processes w1"
    using System_UnregisterPort_ok [OF ok1, of i r] get1 Some by metis
  have call: "call_delete_port i w = Some (B_OK, w2)"
    using Some un(1) by (simp add: call_delete_port_def w1_def)
  have procs: "System_GetProcess w2 = System_GetProcess w"
    by (rule System_GetProcess_cong) (simp add: un same1)
  have "owners_ok w2"
    unfolding owners_ok_def procs
  proof (intro conjI allI impI)
    fix pid q x assume "System_GetProcess w pid = Some x" "System_GetProcess w q = Some x"
    then show "pid = q" by (rule owners_ok_inj [OF w(2)])
  next
    fix pid x j assume x: "System_GetProcess w pid = Some x"
    have "j \<in> set (p_owningPorts (processObjs w2 x)) \<longleftrightarrow>
      j \<in> set (p_owningPorts (processObjs w x)) \<and> \<not> (j = i \<and> pid = ?team)"
      using x owners_ok_inj [OF w(2)]
      by (auto simp: un w1_def upd_process_def set_os_erase split: option.splits)
    moreover have "(\<exists>s. System_GetPort w2 j = Some s \<and> pi_team (port_info (portObjs w2 s)) = pid) \<longleftrightarrow>
      (\<exists>s. System_GetPort w j = Some s \<and> pi_team (port_info (portObjs w s)) = pid) \<and> j \<noteq> i"
      by (auto simp: un get1 same1)
    ultimately show "j \<in> set (p_owningPorts (processObjs w2 x)) \<longleftrightarrow>
      (\<exists>s. System_GetPort w2 j = Some s \<and> pi_team (port_info (portObjs w2 s)) = pid)"
      using owners_okD [OF w(2) x] Some by auto
  qed
  moreover have "\<forall>r. queue_ok (portObjs w2 r)" using w(3) by (simp add: un same1)
  ultimately show ?thesis
    using call un get1 same1 Some by (intro that [of B_OK w2]) (auto simp: port_world_ok_def)
qed

lemma call_set_port_owner_ok:
  assumes "port_world_ok w"
  shows "port_world_ok (snd (call_set_port_owner i team w))"
proof (cases "snd (call_set_port_owner i team w) = w")
  case False
  define w' where "w' = snd (call_set_port_owner i team w)"
  from False obtain r old new where
    r: "System_GetPort w i = Some r" and
    old: "System_GetProcess w (pi_team (port_info (portObjs w r))) = Some old" and
    new: "System_GetProcess w team = Some new" and neq: "old \<noteq> new"
    by (auto simp: call_set_port_owner_def split: option.splits if_splits)
  have parts: "ports w' = ports w" "portNames w' = portNames w" "processes w' = processes w"
    "nextRef w' = nextRef w" "portObjs w' = (portObjs w)(r := Port_SetOwner (portObjs w r) team)"
    "processObjs w' = (processObjs w)
      (old := (processObjs w old)\<lparr>p_owningPorts := os_erase i (p_owningPorts (processObjs w old))\<rparr>,
       new := (processObjs w new)\<lparr>p_owningPorts := os_insert i (p_owningPorts (processObjs w new))\<rparr>)"
    using r old new neq
    by (simp_all add: w'_def call_set_port_owner_def upd_process_def upd_port_def Let_def)
  have w: "ports_ok w" "owners_ok w" "\<forall>r. queue_ok (portObjs w r)"
    using assms by (auto simp: port_world_ok_def)
  have eq: "System_GetPort w' = System_GetPort w" "System_GetProcess w' = System_GetProcess w"
    using parts by (auto intro: System_GetPort_cong System_GetProcess_cong)
  have "ports_ok w'"
    using w(1) parts by (intro ports_ok_frame [of w w']) (auto simp: Port_SetOwner_def)
  moreover have "owners_ok w'"
    unfolding owners_ok_def eq
  proof (intro conjI allI impI)
    fix pid q x assume "System_GetProcess w pid = Some x" "System_GetProcess w q = Some x"
    then show "pid = q" by (rule owners_ok_inj [OF w(2)])
  next
    fix pid x j assume x: "System_GetProcess w pid = Some x"
    have ids: "x = old \<longleftrightarrow> pid = pi_team (port_info (portObjs w r))" "x = new \<longleftrightarrow> pid = team"
      using x old new owners_ok_inj [OF w(2)] by auto
    have one: "System_GetPort w j = Some r \<longleftrightarrow> j = i"
      using r System_GetPort_id [OF w(1)] by auto
    show "j \<in> set (p_owningPorts (processObjs w' x)) \<longleftrightarrow>
      (\<exists>s. System_GetPort w j = Some s \<and> pi_team (port_info (portObjs w' s)) = pid)"
      using owners_okD [OF w(2) x, of j] ids one r neq
      by (cases "j = i") (auto simp: parts Port_SetOwner_def set_os_erase set_os_insert)
  qed
  moreover have "\<forall>r. queue_ok (portObjs w' r)"
    using w(3) by (simp add: parts)
  ultimately show ?thesis by (simp add: port_world_ok_def w'_def)
qed (use assms in simp)

lemma call_close_port_ok: "port_world_ok w \<Longrightarrow> port_world_ok (snd (call_close_port i w))"
proof -
  have "port_same p (snd (Port_Close p))" for p
    by (simp add: Port_Close_def port_same_def queue_ok_def)
  then show "port_world_ok w \<Longrightarrow> port_world_ok (snd (call_close_port i w))"
    by (auto simp: call_close_port_def Let_def split: option.splits prod.splits
        intro!: port_world_ok_frame [OF _ port_frame_upd]) (metis snd_conv)
qed

lemma reply_with_ok: "port_world_ok w \<Longrightarrow> port_world_ok (snd (reply_with h c addr obj r w))"
  by (rule port_world_ok_frame [OF _ port_frame_reply])

lemma reply_with_ok': "reply_with h c addr obj r w = (s, w') \<Longrightarrow> port_world_ok w \<Longrightarrow> port_world_ok w'"
  using reply_with_ok [of w h c addr obj r] by simp

lemma WriteMemory_ok: "port_world_ok w \<Longrightarrow> Process_WriteMemory h c addr obj w = Some w' \<Longrightarrow> port_world_ok w'"
  by (rule port_world_ok_frame [OF _ port_frame_WriteMemory])

lemma call_write_port_etc_ok:
  "port_world_ok w \<Longrightarrow> env_ok env \<Longrightarrow>
    port_world_ok (snd (call_write_port_etc h env c i code buf n flags d w))"
  using port_Write_ok [of w env]
  by (auto simp: call_write_port_etc_def Let_def split: option.splits prod.splits) (metis snd_conv)

lemma call_read_port_etc_ok:
  assumes "port_world_ok w" "env_ok env"
    and "call_read_port_etc h env c i ucode buf n flags d w = Some (s, w')"
  shows "port_world_ok w'"
proof (cases "System_GetPort w i")
  case None
  then show ?thesis using assms by (simp add: call_read_port_etc_def)
next
  case (Some r)
  then obtain st m w1 where rd: "port_Read env r (server_relative_timeout h flags d) w = Some (st, m, w1)"
    using assms(3) by (auto simp: call_read_port_etc_def split: option.splits)
  have "port_world_ok w1" by (rule port_Read_ok [OF assms(1,2) rd])
  then show ?thesis
    using assms(3) Some rd reply_with_ok WriteMemory_ok
    by (auto simp: call_read_port_etc_def Let_def split: option.splits) (metis snd_conv)+
qed

lemma call_message_info_ok:
  assumes "port_world_ok w" "env_ok env"
  shows "call_port_buffer_size_etc h env i flags d w = Some (s, w') \<Longrightarrow> port_world_ok w'"
    and "call_get_port_message_info_etc h env c i u n flags d w = Some (s, w') \<Longrightarrow> port_world_ok w'"
proof -
  note info = port_GetMessageInfo_ok [OF assms]
  show "call_port_buffer_size_etc h env i flags d w = Some (s, w') \<Longrightarrow> port_world_ok w'"
    using assms(1) info by (auto simp: call_port_buffer_size_etc_def split: option.splits)
  show "call_get_port_message_info_etc h env c i u n flags d w = Some (s, w') \<Longrightarrow> port_world_ok w'"
    using assms(1) info
    by (auto simp: call_get_port_message_info_etc_def split: option.splits if_splits)
      (metis reply_with_ok')
qed

lemma call_get_port_info_ok:
  "port_world_ok w \<Longrightarrow> port_world_ok (snd (call_get_port_info h c i info w))"
  by (auto simp: call_get_port_info_def split: option.splits
      intro: port_world_ok_frame [OF _ port_frame_write])

lemma call_get_next_port_info_ok:
  assumes "port_world_ok w"
  shows "port_world_ok (snd (call_get_next_port_info h c team u info w))"
proof -
  have "port_world_ok (snd (case (case prt of None \<Rightarrow> Some w | Some r \<Rightarrow> Process_WriteMemory h c a (f r) w) of
      None \<Rightarrow> (B_BAD_ADDRESS, w) | Some w1 \<Rightarrow> reply_with h c u obj s w1))" for prt a s obj and f :: "ref \<Rightarrow> guest_object"
    using assms WriteMemory_ok [OF assms] reply_with_ok
    by (simp split: option.splits)
  then show ?thesis
    using assms
    by (simp add: call_get_next_port_info_def Let_def split_beta split: option.split)
qed

text \<open>
  Histories of port calls. A call that waits lets another history happen in the middle; the
  table of ports has room for one more whenever a port is created.
\<close>

inductive port_history :: "host \<Rightarrow> world \<Rightarrow> world \<Rightarrow> bool" for h where
  done_h: "port_history h w w"
| create_h: "port_history h w v \<Longrightarrow> acts_for c v \<Longrightarrow> IdMap_has_room (ports v) \<Longrightarrow>
    port_history h w (snd (call_create_port h c n nm len v))"
| close_h: "port_history h w v \<Longrightarrow> port_history h w (snd (call_close_port i v))"
| delete_h: "port_history h w v \<Longrightarrow> call_delete_port i v = Some (s, v') \<Longrightarrow> port_history h w v'"
| owner_h: "port_history h w v \<Longrightarrow> port_history h w (snd (call_set_port_owner i team v))"
| write_h: "port_history h w v \<Longrightarrow> (\<And>u. port_history h u (env u)) \<Longrightarrow>
    port_history h w (snd (call_write_port_etc h env c i code buf n flags d v))"
| read_h: "port_history h w v \<Longrightarrow> (\<And>u. port_history h u (env u)) \<Longrightarrow>
    call_read_port_etc h env c i ucode buf n flags d v = Some (s, v') \<Longrightarrow> port_history h w v'"
| buffer_size_h: "port_history h w v \<Longrightarrow> (\<And>u. port_history h u (env u)) \<Longrightarrow>
    call_port_buffer_size_etc h env i flags d v = Some (s, v') \<Longrightarrow> port_history h w v'"
| message_info_h: "port_history h w v \<Longrightarrow> (\<And>u. port_history h u (env u)) \<Longrightarrow>
    call_get_port_message_info_etc h env c i u n flags d v = Some (s, v') \<Longrightarrow> port_history h w v'"
| info_h: "port_history h w v \<Longrightarrow> port_history h w (snd (call_get_port_info h c i info v))"
| next_info_h: "port_history h w v \<Longrightarrow>
    port_history h w (snd (call_get_next_port_info h c team u info v))"

lemma port_history_ok: "port_history h w v \<Longrightarrow> port_world_ok w \<Longrightarrow> port_world_ok v"
proof (induction rule: port_history.induct)
  case (create_h w v c n nm len)
  then have "port_world_ok v" by simp
  from call_create_port_ok [OF this create_h.hyps(2,3) surjective_pairing] show ?case by blast
next
  case (delete_h w v i s v')
  then have "port_world_ok v" by simp
  then obtain s0 w0 where "call_delete_port i v = Some (s0, w0)" "port_world_ok w0"
    by (rule call_delete_port_ok [where i = i])
  with delete_h.hyps(2) show ?case by simp
next
  case (read_h w v env c i ucode buf n flags d s v')
  then have "port_world_ok v" "env_ok env" by (simp_all add: env_ok_def)
  then show ?case using read_h.hyps(3) by (rule call_read_port_etc_ok)
next
  case (buffer_size_h w v env i flags d s v')
  then have "port_world_ok v" "env_ok env" by (simp_all add: env_ok_def)
  then show ?case using buffer_size_h.hyps(3) by (rule call_message_info_ok(1))
next
  case (message_info_h w v env c i u n flags d s v')
  then have "port_world_ok v" "env_ok env" by (simp_all add: env_ok_def)
  then show ?case using message_info_h.hyps(3) by (rule call_message_info_ok(2))
next
  case (write_h w v env c i code buf n flags d)
  then have "port_world_ok v" "env_ok env" by (simp_all add: env_ok_def)
  then show ?case by (rule call_write_port_etc_ok)
next
  case (close_h w v i)
  then show ?case using call_close_port_ok by blast
next
  case (owner_h w v i team)
  then show ?case using call_set_port_owner_ok by blast
next
  case (info_h w v c i info)
  then show ?case using call_get_port_info_ok by blast
next
  case (next_info_h w v c team u info)
  then show ?case using call_get_next_port_info_ok by blast
qed

section \<open>Properties\<close>

text \<open>
  C8: names and owners stay in step with the ports. After any history of port calls, with
  calls waiting while others run, a non-negative result of \<open>find_port\<close> is the id of a live port
  with exactly the requested name; every live port knows its own id; and the ports a registered
  team records as its own are exactly the live ports it owns.
\<close>

theorem port_registry_consistent:
  assumes "port_world_ok w" and "port_history h w v"
  shows "(\<forall>i. call_find_port h c nm len v = i \<and> 0 \<le> i \<longrightarrow>
      (\<exists>buffer r. read_exact h (ctx_pid c) nm len = Some buffer \<and> System_GetPort v i = Some r \<and>
         pi_name (port_info (portObjs v r)) = buffer)) \<and>
    (\<forall>i r. System_GetPort v i = Some r \<longrightarrow> pi_port (port_info (portObjs v r)) = i) \<and>
    (\<forall>pid p i. System_GetProcess v pid = Some p \<longrightarrow>
      (i \<in> set (p_owningPorts (processObjs v p)) \<longleftrightarrow>
       (\<exists>r. System_GetPort v i = Some r \<and> pi_team (port_info (portObjs v r)) = pid)))"
proof -
  have ok: "ports_ok v" "owners_ok v"
    using port_history_ok [OF assms(2,1)] by (simp_all add: port_world_ok_def)
  have "\<exists>buffer r. read_exact h (ctx_pid c) nm len = Some buffer \<and> System_GetPort v i = Some r \<and>
      pi_name (port_info (portObjs v r)) = buffer"
    if "call_find_port h c nm len v = i" "0 \<le> i" for i
    using that System_FindPort_sound [OF ok(1)]
    by (fastforce simp: call_find_port_def Let_def status_codes split: option.splits if_splits)
  then show ?thesis
    using System_GetPort_id [OF ok(1)] owners_okD [OF ok(2)] by blast
qed

text \<open>
  C16: no port call runs into undefined behaviour: in a world any history of port calls leads to,
  deleting a port never indexes outside of the table, and reading, peeking and sizing never look
  at the front of an empty queue, whatever other threads did during the wait.
\<close>

theorem port_calls_defined:
  assumes "port_world_ok w" and "port_history h w v" and "\<forall>u. port_history h u (env u)"
  shows "call_delete_port i v \<noteq> None \<and>
    call_read_port_etc h env c i ucode buf n flags d v \<noteq> None \<and>
    call_port_buffer_size_etc h env i flags d v \<noteq> None \<and>
    call_get_port_message_info_etc h env c i u m flags d v \<noteq> None"
proof -
  have v: "port_world_ok v" by (rule port_history_ok [OF assms(2,1)])
  then have env: "port_world_ok (env v)" using assms(3) port_history_ok by blast
  have read: "Port_Read_finish p \<noteq> None" "Port_GetMessageInfo_finish p \<noteq> None" if "queue_ok p" for p
    using that by (auto simp: Port_Read_finish_def Port_GetMessageInfo_finish_def queue_ok_def
        split: list.splits)
  have "queue_ok (portObjs v r)" "queue_ok (portObjs (env v) r)" for r
    using v env by (simp_all add: port_world_ok_def)
  then have fin: "\<exists>x. Port_Read_finish (portObjs v r) = Some x" "\<exists>x. Port_GetMessageInfo_finish (portObjs v r) = Some x"
      "\<exists>x. Port_Read_finish (portObjs (env v) r) = Some x"
      "\<exists>x. Port_GetMessageInfo_finish (portObjs (env v) r) = Some x" for r
    using read by blast+
  have some: "\<exists>s m u. port_Read env r d v = Some (s, m, u)"
    "\<exists>s m u. port_GetMessageInfo env r d v = Some (s, m, u)" for r d
    using fin [of r]
    by (auto simp: port_Read_def port_GetMessageInfo_def port_reading_def Port_Read_begin_def
        Port_GetMessageInfo_begin_def Let_def)
  have "call_delete_port i v \<noteq> None"
    by (rule call_delete_port_ok [OF v, where i = i]) simp
  moreover have "call_read_port_etc h env c i ucode buf n flags d v \<noteq> None \<and>
    call_port_buffer_size_etc h env i flags d v \<noteq> None \<and>
    call_get_port_message_info_etc h env c i u m flags d v \<noteq> None"
  proof (cases "System_GetPort v i")
    case (Some r)
    obtain s x v1 where "port_Read env r (server_relative_timeout h flags d) v = Some (s, x, v1)"
      using some(1) by blast
    with Some have "call_read_port_etc h env c i ucode buf n flags d v \<noteq> None"
      by (simp add: call_read_port_etc_def Let_def split: option.split)
    moreover obtain s x v1 where
      "port_GetMessageInfo env r (server_relative_timeout h flags d) v = Some (s, x, v1)"
      using some(2) by blast
    ultimately show ?thesis using Some
      by (simp add: call_port_buffer_size_etc_def call_get_port_message_info_etc_def
          split: option.split)
  qed (simp add: call_read_port_etc_def call_port_buffer_size_etc_def
      call_get_port_message_info_etc_def)
  ultimately show ?thesis by simp
qed

text \<open>
  C12: a message crosses from one team to another unchanged. If the reader gets to an open port
  that was empty before the write, it receives the code and the bytes the writer had in its
  memory, cut to the size of its buffer, and the result is the number of bytes delivered.
\<close>

theorem write_then_read_port:
  assumes "System_GetPort w i = Some r" and "queue_ok (portObjs w r)" and "1 \<le> capacity (portObjs w r)"
    and "port_registered (portObjs w r)" and "\<not> port_closed (portObjs w r)"
    and "port_messages (portObjs w r) = []"
    and "read_exact h (ctx_pid c) msgBuffer n = Some bs"
    and "\<forall>addr obj. write_exact h (p_pid (the_process d w)) addr obj" and "0 \<le> m"
  shows "\<exists>w1 w2 res. call_write_port_etc h env c i code msgBuffer n flags timeout w = (B_OK, w1) \<and>
    call_read_port_etc h env d i ucode ubuf m flags' timeout' w1 = Some (res, w2) \<and>
    res = min (int (length bs)) m \<and>
    guestWrites w2 = guestWrites w @ [(p_pid (the_process d w), ucode, OInt32 code),
      (p_pid (the_process d w), ubuf, OBytes (take (nat res) bs))] \<and>
    port_messages (portObjs w2 r) = []"
proof -
  let ?p = "portObjs w r"
  have q: "queue_count ?p = 0" "capacity ?p \<noteq> 0" using assms(2,3,6) by (auto simp: queue_ok_def)
  have one: "to_int32 1 = 1" by (simp add: is_int32_def)
  define msg where "msg = \<lparr>msg_data = bs, msg_info = \<lparr>mi_size = n, mi_sender = 0, mi_sender_group = 0,
      mi_sender_team = ctx_pid c\<rparr>, msg_code = code\<rparr>"
  define p1 where "p1 = (set_queue_count ?p 1)\<lparr>port_messages := [with_size msg]\<rparr>"
  define w1 where "w1 = upd_port r (\<lambda>_. p1) w"
  have wr: "port_Write env r msg t w = (B_OK, w1)" for t
    using q assms(4-6) one
    by (simp add: port_Write_def Port_Write_begin_def Port_Write_finish_def w1_def p1_def)
  have sent: "call_write_port_etc h env c i code msgBuffer n flags timeout w = (B_OK, w1)"
    using assms(1,5,7) wr
    by (simp add: call_write_port_etc_def msg_def Let_def deadline_status_def status_codes)
  have get1: "System_GetPort w1 i = Some r"
    using assms(1) System_GetPort_cong [of w1 w] by (simp add: w1_def upd_port_def)
  have p1: "portObjs w1 r = p1" "queue_count p1 = 1" "port_registered p1"
    "port_messages p1 = [with_size msg]"
    using assms(4) by (simp_all add: w1_def upd_port_def p1_def)
  obtain p2 where fin: "Port_Read_finish p1 = Some (B_OK, Some (with_size msg), p2)" "port_messages p2 = []"
    using p1 by (simp add: Port_Read_finish_def)
  define w2 where "w2 = upd_port r (\<lambda>_. p2) w1"
  have rd: "port_Read env r t w1 = Some (B_OK, Some (with_size msg), w2)" for t
    using p1 fin by (simp add: port_Read_def Port_Read_begin_def port_reading_def w2_def)
  have msg: "msg_code (with_size msg) = code" "msg_data (with_size msg) = bs"
    by (simp_all add: msg_def with_size_def)
  have same: "the_process d w2 = the_process d w" "guestWrites w2 = guestWrites w" "portObjs w2 r = p2"
    by (simp_all add: w2_def w1_def upd_port_def)
  show ?thesis
    using sent get1 rd msg same fin(2) assms(8)
    by (simp add: call_read_port_etc_def Process_WriteMemory_def write_guest_def reply_with_def Let_def)
qed

text \<open>
  Deleting one of two ports with the same name. The registry forgets the name although the
  other port still carries it, so \<open>find_port\<close> no longer finds a live port of that name.
\<close>

theorem delete_port_hides_namesake:
  assumes "port_world_ok w" and "System_GetPort w i = Some r" and "System_GetPort w j = Some s"
    and "i \<noteq> j" and "pi_name (port_info (portObjs w r)) = n" and "pi_name (port_info (portObjs w s)) = n"
    and "call_delete_port j w = Some (status, w')"
  shows "System_GetPort w' i = Some r \<and> System_FindPort w' n = -1"
proof -
  obtain s0 w0 where "call_delete_port j w = Some (s0, w0)"
    "System_GetPort w0 = (System_GetPort w)(j := None)"
    "\<And>r. System_GetPort w j = Some r \<Longrightarrow>
      portNames w0 = (portNames w)(pi_name (port_info (portObjs w r)) := None)"
    by (rule call_delete_port_ok [OF assms(1), where i = j]) blast
  then show ?thesis using assms(2-7) by (simp add: System_FindPort_def)
qed

subsection \<open>Enumerating the ports of a team\<close>

lemma next_port_loop_live:
  assumes "k \<noteq> -1" "\<forall>y\<in>set owned. System_GetPort w y \<noteq> None"
  shows "next_port_loop w owned k =
    (case os_lower_bound owned k of None \<Rightarrow> (None, -1) | Some y \<Rightarrow> (System_GetPort w y, y + 1))"
proof (cases "os_lower_bound owned k")
  case (Some y)
  then have "y \<in> set owned"
    by (auto simp: os_lower_bound_def split: list.splits dest: set_dropWhileD [of y] arg_cong [of _ _ set])
      (metis list.set_intros(1) set_dropWhileD)
  then show ?thesis using assms Some by (subst next_port_loop.simps) (auto split: option.splits)
qed (use assms(1) in \<open>simp add: next_port_loop.simps\<close>)

text \<open>
  \<open>get_next_port_info\<close> skips a port. If the two highest ids a team owns are neighbours, no
  cookie makes the call report the highest one, so an enumeration of the team's ports misses it.
\<close>

theorem next_port_info_skips_last:
  assumes "System_GetProcess w team = Some p"
    and "p_owningPorts (processObjs w p) = xs @ [y, y + 1]" and "os_ok (xs @ [y, y + 1])"
    and "\<forall>z\<in>set (xs @ [y, y + 1]). System_GetPort w z \<noteq> None" and "0 \<le> y"
    and "ports_ok w" and "System_GetPort w (y + 1) = Some r"
    and "call_get_next_port_info h c team userCookie info w = (status, w')"
  shows "\<forall>x\<in>set (drop (length (guestWrites w)) (guestWrites w')).
    snd (snd x) \<noteq> OPortInfo (port_info (portObjs w r))"
proof -
  let ?owned = "xs @ [y, y + 1]"
  have other: "s \<noteq> r" "port_info (portObjs w s) \<noteq> port_info (portObjs w r)"
    if "System_GetPort w z = Some s" "z \<noteq> y + 1" for z s
    using that System_GetPort_id [OF assms(6)] assms(7) by metis+
  have below: "os_lower_bound ?owned k = Some z \<Longrightarrow> k < y + 1 \<Longrightarrow> z \<noteq> y + 1" for k z
    using os_lower_bound_Some [OF assms(3), of k z] by fastforce
  have found: "fst (next_port_loop w ?owned (if k \<ge> y + 1 then -1 else k)) = Some s \<Longrightarrow> 0 \<le> k \<Longrightarrow>
      port_info (portObjs w s) \<noteq> port_info (portObjs w r)" for k s
  proof (cases "k \<ge> y + 1")
    case False
    assume "fst (next_port_loop w ?owned (if k \<ge> y + 1 then -1 else k)) = Some s" "0 \<le> k"
    then obtain z where "os_lower_bound ?owned k = Some z" "System_GetPort w z = Some s"
      using False next_port_loop_live [OF _ assms(4), of k] by (auto split: option.splits)
    then show ?thesis using below [of k z] other [of z s] False by simp
  qed (simp add: next_port_loop.simps)
  show ?thesis
  proof (cases "Process_ReadMemory h (the_process c w) userCookie 4")
    case None
    then show ?thesis using assms(1,8) by (simp add: call_get_next_port_info_def)
  next
    case (Some bs)
    let ?k = "dec_int32 bs"
    obtain prt k' where l: "next_port_loop w ?owned (if ?k \<ge> y + 1 then -1 else ?k) = (prt, k')"
      by fastforce
    show ?thesis
    proof (cases "?k < 0")
      case True
      then show ?thesis using assms(1,8) Some by (simp add: call_get_next_port_info_def Let_def)
    next
      case False
      then have res: "(case (case prt of None \<Rightarrow> Some w
          | Some s \<Rightarrow> Process_WriteMemory h c info (OPortInfo (port_info (portObjs w s))) w) of
          None \<Rightarrow> (B_BAD_ADDRESS, w)
        | Some w1 \<Rightarrow> reply_with h c userCookie (OInt32 k') (if k' = -1 then B_BAD_VALUE else B_OK) w1)
        = (status, w')"
        using assms(1,2,8) Some l by (simp add: call_get_next_port_info_def Let_def)
      have "prt = Some s \<Longrightarrow> port_info (portObjs w s) \<noteq> port_info (portObjs w r)" for s
        using found [of ?k s] l False by simp
      then show ?thesis
        using res
        by (auto simp: reply_with_def Process_WriteMemory_def write_guest_def
            split: option.splits if_splits)
    qed
  qed
qed

section \<open>A concrete run\<close>

text \<open>Team 4 creates two ports of the same name.\<close>

definition sample_port_world :: world where
  "sample_port_world = snd (call_create_port sample_name_host sample_context 2 900 4 sample_world)"

definition sample_two_ports :: world where
  "sample_two_ports = snd (call_create_port sample_name_host sample_context 2 900 4 sample_port_world)"

lemma sample_world_ok: "port_world_ok sample_world" "acts_for sample_context sample_world"
proof -
  have "ports_ok sample_world"
    using ports_ok_init by (simp add: ports_ok_def sample_world_def world_init_def)
  moreover have "System_GetPort sample_world i = None" for i
    by (auto simp: System_GetPort_def sample_world_def world_init_def IdMap_empty_def
        IdMap_IsValidId_def IdMap_MaxId_def to_int32_def)
  moreover have "queue_ok (Port_new 0 0 [])"
    by (simp add: queue_ok_def Port_new_def HAIKU_PORT_MAX_QUEUE_LENGTH_def)
  ultimately show "port_world_ok sample_world"
    by (simp add: port_world_ok_def owners_ok_def)
      (simp add: sample_world_def world_init_def System_GetProcess_def Process_new_def)
  show "acts_for sample_context sample_world"
    by (simp add: acts_for_def sample_context_def sample_world_def System_GetProcess_def)
qed

lemmas sample_port_defs = call_create_port_def new_port_def System_RegisterPort_def IdMap_Add_def
  upd_port_def upd_process_def sample_world_def sample_context_def world_init_def IdMap_empty_def
  Process_new_def HAIKU_PORT_MAX_QUEUE_LENGTH_def to_int32_def Port_new_def System_GetPort_def
  IdMap_Get_def in_vector_def IdMap_IsValidId_def IdMap_MaxId_def os_name_def cstr_def

lemma sample_port_state:
  "System_GetPort sample_port_world 0 = Some (Suc 0)"
  "portObjs sample_port_world (Suc 0) = (Port_new 4 2 ''gate'')
    \<lparr>port_info := (port_info (Port_new 4 2 ''gate''))\<lparr>pi_port := 0\<rparr>, port_registered := True\<rparr>"
  "portNames sample_port_world = [''gate'' \<mapsto> 0]"
  "p_pid (the_process sample_context sample_port_world) = 4"
  "guestWrites sample_port_world = []"
  "acts_for sample_context sample_port_world" "IdMap_has_room (ports sample_port_world)"
  by (simp_all add: sample_port_world_def sample_port_defs acts_for_def System_GetProcess_def
      IdMap_has_room_def)

lemma sample_port_history: "port_history sample_name_host sample_world sample_port_world"
  unfolding sample_port_world_def
proof (rule port_history.create_h [OF port_history.done_h])
  show "acts_for sample_context sample_world" by (rule sample_world_ok)
  show "IdMap_has_room (ports sample_world)"
    by (simp add: IdMap_has_room_def sample_world_def world_init_def IdMap_empty_def)
qed

lemma sample_two_ports_ok: "port_world_ok sample_two_ports"
proof -
  have "port_history sample_name_host sample_world sample_two_ports"
    unfolding sample_two_ports_def
    by (rule port_history.create_h [OF sample_port_history]) (rule sample_port_state)+
  then show ?thesis using sample_world_ok(1) by (rule port_history_ok)
qed

lemma sample_two_ports_state:
  "System_GetPort sample_two_ports 0 = Some (Suc 0)" "System_GetPort sample_two_ports 1 = Some 2"
  "pi_name (port_info (portObjs sample_two_ports (Suc 0))) = ''gate''"
  "pi_name (port_info (portObjs sample_two_ports 2)) = ''gate''"
  "System_GetProcess sample_two_ports 4 = Some 0"
  "p_owningPorts (processObjs sample_two_ports 0) = [0, 1]"
  by (simp_all add: sample_two_ports_def sample_port_world_def sample_port_defs System_GetProcess_def)

theorem port_registry_consistent_witness:
  "\<exists>r. System_GetPort sample_port_world 0 = Some r \<and>
    pi_name (port_info (portObjs sample_port_world r)) = ''gate''"
proof -
  have "call_find_port sample_name_host sample_context 900 4 sample_port_world = 0"
    by (simp add: call_find_port_def System_FindPort_def sample_port_state)
  with port_registry_consistent [OF sample_world_ok(1) sample_port_history, of sample_context 900 4]
  show ?thesis by auto
qed

theorem port_calls_defined_witness:
  "call_read_port_etc sample_name_host id sample_context 0 64 128 8 0 0 sample_port_world \<noteq> None"
proof -
  have "\<forall>u. port_history sample_name_host u (id u)" by (simp add: port_history.done_h)
  from port_calls_defined [OF sample_world_ok(1) sample_port_history this]
  have "call_read_port_etc sample_name_host id sample_context 0 64 128 8 0 0 sample_port_world \<noteq> None"
    by blast
  then show ?thesis .
qed

theorem write_then_read_port_witness:
  "\<exists>w1 w2. call_write_port_etc sample_name_host id sample_context 0 17 900 4 0 0 sample_port_world
      = (B_OK, w1) \<and>
    call_read_port_etc sample_name_host id sample_context 0 64 128 3 0 0 w1 = Some (3, w2) \<and>
    guestWrites w2 = [(4, 64, OInt32 17), (4, 128, OBytes ''gat'')]"
proof -
  have "queue_ok (portObjs sample_port_world (Suc 0))"
    by (simp add: sample_port_state queue_ok_def Port_new_def HAIKU_PORT_MAX_QUEUE_LENGTH_def)
  then show ?thesis
    using write_then_read_port [of sample_port_world 0 "Suc 0" sample_name_host sample_context 900 4
        "''gate''" sample_context 3 id 17 0 0 64 128 0 0]
    by (auto simp: sample_port_state Port_new_def)
qed

theorem delete_port_hides_namesake_witness:
  "\<exists>w'. call_delete_port 1 sample_two_ports = Some (B_OK, w') \<and>
    System_GetPort w' 0 = Some (Suc 0) \<and> System_FindPort w' ''gate'' = -1"
proof -
  obtain s w' where "call_delete_port 1 sample_two_ports = Some (s, w')"
    "s = (if System_GetPort sample_two_ports 1 = None then B_BAD_PORT_ID else B_OK)"
    by (rule call_delete_port_ok [OF sample_two_ports_ok, where i = 1]) blast
  then show ?thesis
    using delete_port_hides_namesake [OF sample_two_ports_ok sample_two_ports_state(1,2), of "''gate''"]
    by (simp add: sample_two_ports_state)
qed

theorem next_port_info_skips_last_witness:
  "OPortInfo (port_info (portObjs sample_two_ports 2)) \<notin>
    set (map (snd \<circ> snd) (guestWrites (snd (call_get_next_port_info sample_name_host sample_context
      4 64 128 (sample_two_ports\<lparr>guestWrites := []\<rparr>)))))"
proof -
  let ?w = "sample_two_ports\<lparr>guestWrites := []\<rparr>"
  have ok: "ports_ok ?w" using sample_two_ports_ok by (simp add: port_world_ok_def ports_ok_def)
  have get: "System_GetPort ?w = System_GetPort sample_two_ports"
    by (rule System_GetPort_cong) simp
  have team: "System_GetProcess ?w 4 = Some 0" "p_owningPorts (processObjs ?w 0) = [] @ [0, 0 + 1]"
    using sample_two_ports_state by (simp_all add: System_GetProcess_def)
  obtain status w' where
    "call_get_next_port_info sample_name_host sample_context 4 64 128 ?w = (status, w')"
    by fastforce
  with next_port_info_skips_last [OF team _ _ _ ok _ this, of 2] show ?thesis
    by (force simp: get sample_two_ports_state os_ok_def)
qed

end
