(* ===== verification/AreaCalls.thy ===== *)
theory AreaCalls
  imports Calls
begin

text \<open>
  The area calls of \<^verbatim>\<open>hyclone_server/area.cpp\<close>. The loops of \<open>set_memory_protection\<close>,
  \<open>set_memory_lock\<close> and \<open>unmap_memory\<close> run over the areas of the caller's team with the
  cursor \<open>NextAreaId\<close> while they change the table; \<open>area_loop\<close> is that loop with fuel for the
  number of rounds, and the section on loops shows which fuel is enough. In the results of the
  calls, \<open>None\<close> is undefined behaviour (a null area) or a search that does not end.
\<close>

section \<open>Registering and sharing\<close>

definition call_register_area ::
    "host \<Rightarrow> hserver_context \<Rightarrow> int \<Rightarrow> int \<Rightarrow> world \<Rightarrow> (int \<times> world) option" where
  "call_register_area h c user_area_info mapping w =
    (case Process_ReadMemory h (the_process c w) user_area_info sizeof_area_info of
       None \<Rightarrow> Some (B_BAD_ADDRESS, w)
     | Some bs \<Rightarrow>
         (case System_RegisterArea_info w ((dec_area_info bs)\<lparr>ai_team := ctx_pid c\<rparr>) of
            None \<Rightarrow> None
          | Some (r, w1) \<Rightarrow>
              (let w2 = upd_process (ctx_process c) (\<lambda>p. Process_RegisterArea (areaObjs w1) p r) w1;
                   w3 = upd_area r (\<lambda>a. a\<lparr>area_mapping := mapping\<rparr>) w2
               in Some (ai_area (area_info (areaObjs w3 r)), w3))))"

definition remove_file :: "path \<Rightarrow> world \<Rightarrow> world" where
  "remove_file name w =
    w\<lparr>memoryService := (memoryService w)\<lparr>removedFiles := removedFiles (memoryService w) @ [name]\<rparr>\<rparr>"

definition call_share_area ::
    "host \<Rightarrow> memory_host \<Rightarrow> hserver_context \<Rightarrow> int \<Rightarrow> int \<Rightarrow> int \<Rightarrow> int \<Rightarrow> int \<Rightarrow>
     world \<Rightarrow> int \<times> world" where
  "call_share_area h mh c areaId handle offset pth pathLen w =
    (case System_GetArea w areaId of
       None \<Rightarrow> (B_BAD_VALUE, w)
     | Some r \<Rightarrow>
         (let a = areaObjs w r
          in if handle \<noteq> -1 then
               (case OpenSharedFile_handle mh (memoryService w) (ctx_pid c) handle (Area_IsWritable a) of
                  (None, ms) \<Rightarrow> (B_ENTRY_NOT_FOUND, w\<lparr>memoryService := ms\<rparr>)
                | (Some ref, ms) \<Rightarrow>
                    (let w1 = upd_area r (\<lambda>a. Area_Share a ref offset) (w\<lparr>memoryService := ms\<rparr>)
                     in if pathLen \<ge> 1 then reply_with h c pth (OBytes [CHR 0x00]) B_OK w1
                        else (B_OK, w1)))
             else
               (case CreateSharedFile mh (memoryService w)
                       (to_string (ai_area (area_info a))) (area_size a) of
                  (None, ms) \<Rightarrow> (B_NO_MEMORY, w\<lparr>memoryService := ms\<rparr>)
                | (Some pathStr, ms) \<Rightarrow>
                    (let w1 = w\<lparr>memoryService := ms\<rparr>
                     in if int (length pathStr) > pathLen
                        then (B_NAME_TOO_LONG, remove_file pathStr w1)
                        else
                          (let writeSize = min (int (length pathStr) + 1) pathLen
                           in case Process_WriteMemory h c pth
                                  (OBytes (take (nat writeSize) (pathStr @ [CHR 0x00]))) w1 of
                                None \<Rightarrow> (B_BAD_ADDRESS, remove_file pathStr w1)
                              | Some w2 \<Rightarrow>
                                  (case OpenSharedFile_name mh (memoryService w2) pathStr
                                          (Area_IsWritable a) of
                                     (None, ms2) \<Rightarrow>
                                       (B_ENTRY_NOT_FOUND,
                                        remove_file pathStr (w2\<lparr>memoryService := ms2\<rparr>))
                                   | (Some ref, ms2) \<Rightarrow>
                                       (B_OK, upd_area r (\<lambda>a. Area_Share a ref offset)
                                                (w2\<lparr>memoryService := ms2\<rparr>))))))))"

definition call_get_shared_area_path ::
    "host \<Rightarrow> hserver_context \<Rightarrow> int \<Rightarrow> int \<Rightarrow> int \<Rightarrow> world \<Rightarrow> int \<times> world" where
  "call_get_shared_area_path h c areaId user_path pathLen w =
    (case System_GetArea w areaId of
       None \<Rightarrow> (B_BAD_VALUE, w)
     | Some r \<Rightarrow>
         if \<not> Area_IsShared (areaObjs w r) then (B_BAD_VALUE, w)
         else case GetSharedFilePath (memoryService w) (area_entryRef (areaObjs w r)) of
           None \<Rightarrow> (B_ENTRY_NOT_FOUND, w)
         | Some pth \<Rightarrow>
             if int (length pth) + 1 > pathLen then (B_BUFFER_OVERFLOW, w)
             else reply_with h c user_path (OBytes (pth @ [CHR 0x00])) B_OK w)"

text \<open>
  The call hands a request to the target thread and waits for its reply; \<open>env\<close> is what happens
  during the wait and \<open>reply\<close> the value the target thread answers with. The test of the read
  is \<open>!ReadMemory(...)\<close>, which -1 passes: \<open>junk\<close> is what the variable then holds.
\<close>

definition read_pointer :: "host \<Rightarrow> int \<Rightarrow> int \<Rightarrow> byte list \<Rightarrow> int option" where
  "read_pointer h pid addr junk =
    (case server_read_process_memory h pid addr 8 of
       (n, bs) \<Rightarrow> if n = 0 then None else Some (dec_uint64 (bs @ drop (length bs) junk)))"

definition call_transfer_area ::
    "host \<Rightarrow> (world \<Rightarrow> world) \<Rightarrow> int \<Rightarrow> byte list \<Rightarrow> hserver_context \<Rightarrow> int \<Rightarrow> int \<Rightarrow> int \<Rightarrow>
     int \<Rightarrow> int \<Rightarrow> world \<Rightarrow> (int \<times> world) option" where
  "call_transfer_area h env reply junk c areaId userAddress addressSpec baseAreaId target w =
    (case (Process_GetArea (the_process c w) areaId, Process_GetArea (the_process c w) baseAreaId) of
       (Some r, Some _) \<Rightarrow>
         if \<not> Area_IsShared (areaObjs w r) then Some (B_BAD_VALUE, w)
         else (case read_pointer h (p_pid (the_process c w)) userAddress junk of
           None \<Rightarrow> Some (B_BAD_ADDRESS, w)
         | Some address \<Rightarrow>
             (case System_GetThread w target of
                None \<Rightarrow> Some (B_BAD_VALUE, w)
              | Some t \<Rightarrow>
                  (case Thread_SendRequest (threadObjs w t)
                          (Request_new (TransferAreaRequest areaId baseAreaId addressSpec address)) of
                     None \<Rightarrow> None
                   | Some th \<Rightarrow>
                       (let w1 = env (upd_thread t (\<lambda>_. th) w); status = to_int32 reply
                        in if status \<noteq> B_OK then Some (status, w1)
                           else (case System_GetArea w1 status of
                                   None \<Rightarrow> Some (B_BAD_VALUE, w1)
                                 | Some n \<Rightarrow>
                                     (let obj = OUint64 (area_address (areaObjs w1 n));
                                          pid = p_pid (the_process c w1);
                                          i = ai_area (area_info (areaObjs w1 n))
                                      in if server_write_process_memory h pid userAddress obj = 0
                                         then Some (B_BAD_ADDRESS, w1)
                                         else Some (i, if write_exact h pid userAddress obj
                                             then w1\<lparr>guestWrites := guestWrites w1 @ [(pid, userAddress, obj)]\<rparr>
                                             else w1)))))))
     | _ \<Rightarrow> Some (B_BAD_VALUE, w))"

section \<open>Queries\<close>

definition call_get_area_info ::
    "host \<Rightarrow> hserver_context \<Rightarrow> int \<Rightarrow> int \<Rightarrow> world \<Rightarrow> int \<times> world" where
  "call_get_area_info h c areaId user_area_info w =
    (case System_GetArea w areaId of
       None \<Rightarrow> (B_BAD_VALUE, w)
     | Some r \<Rightarrow> reply_with h c user_area_info (OAreaInfo (area_info (areaObjs w r))) B_OK w)"

text \<open>
  The loop of \<open>get_next_area_info\<close> ends in its first round: an id that \<open>GetNextAreaIdFor\<close>
  returns is the id of an area in the table, provided the table is keyed by the ids (otherwise
  the loop repeats the same question, which is the \<open>None\<close> here).
\<close>

definition next_area_of :: "world \<Rightarrow> ref \<Rightarrow> int \<Rightarrow> (int + ref) option" where
  "next_area_of w target address =
    (let areaId = Process_GetNextAreaIdFor (areaObjs w) (processObjs w target) address
     in if areaId < 0 then Some (Inl B_BAD_VALUE)
        else (case Process_GetArea (processObjs w target) areaId of
                None \<Rightarrow> None
              | Some r \<Rightarrow> Some (Inr r)))"

definition call_get_next_area_info ::
    "host \<Rightarrow> hserver_context \<Rightarrow> int \<Rightarrow> int \<Rightarrow> int \<Rightarrow> int \<Rightarrow> world \<Rightarrow> (int \<times> world) option" where
  "call_get_next_area_info h c target_pid user_cookie user_info user_extended w =
    (let target_pid' = (if target_pid = 0 then ctx_pid c else target_pid)
     in case System_GetProcess w target_pid' of
          None \<Rightarrow> Some (B_BAD_VALUE, w)
        | Some target \<Rightarrow>
            (case Process_ReadMemory h (the_process c w) user_cookie 8 of
               None \<Rightarrow> Some (B_BAD_ADDRESS, w)
             | Some bs \<Rightarrow>
                 (case next_area_of w target (dec_uint64 bs) of
                    None \<Rightarrow> None
                  | Some (Inl status) \<Rightarrow> Some (status, w)
                  | Some (Inr r) \<Rightarrow>
                      (let a = areaObjs w r
                       in case Process_WriteMemory h c user_info (OAreaInfo (area_info a)) w of
                            None \<Rightarrow> Some (B_BAD_ADDRESS, w)
                          | Some w1 \<Rightarrow>
                              (case Process_WriteMemory h c user_cookie (OUint64 (area_address a)) w1 of
                                 None \<Rightarrow> Some (B_BAD_ADDRESS, w1)
                               | Some w2 \<Rightarrow>
                                   if user_extended \<noteq> 0
                                   then Some (reply_with h c user_extended (OInt32 (area_mapping a)) B_OK w2)
                                   else Some (B_OK, w2))))))"

definition call_area_for :: "hserver_context \<Rightarrow> int \<Rightarrow> world \<Rightarrow> int" where
  "call_area_for c address w = Process_GetAreaIdFor (areaObjs w) (the_process c w) address"

definition call_find_area ::
    "host \<Rightarrow> byte list \<Rightarrow> hserver_context \<Rightarrow> int \<Rightarrow> int \<Rightarrow> world \<Rightarrow> int" where
  "call_find_area h pad c userName nameLength w =
    (case Process_ReadMemory h (the_process c w) userName nameLength of
       None \<Rightarrow> B_BAD_ADDRESS
     | Some nm \<Rightarrow> System_FindAreaByName pad w (cstr nm))"

section \<open>Changing one area\<close>

definition call_unregister_area ::
    "memory_host \<Rightarrow> hserver_context \<Rightarrow> int \<Rightarrow> world \<Rightarrow> int \<times> world" where
  "call_unregister_area mh c areaId w =
    (if Process_IsValidAreaId (the_process c w) areaId then
       (B_OK, snd (System_UnregisterArea mh
          (upd_process (ctx_process c) (\<lambda>p. snd (Process_UnregisterArea p areaId)) w) areaId))
     else (B_BAD_VALUE, w))"

definition call_resize_area :: "hserver_context \<Rightarrow> int \<Rightarrow> int \<Rightarrow> world \<Rightarrow> int \<times> world" where
  "call_resize_area c areaId nbytes w =
    (case Process_GetArea (the_process c w) areaId of
       None \<Rightarrow> (B_BAD_VALUE, w)
     | Some r \<Rightarrow> (B_OK, upd_area_info r (\<lambda>i. i\<lparr>ai_size := nbytes\<rparr>) w))"

definition call_set_area_protection :: "hserver_context \<Rightarrow> int \<Rightarrow> int \<Rightarrow> world \<Rightarrow> int \<times> world" where
  "call_set_area_protection c areaId protection w =
    (case Process_GetArea (the_process c w) areaId of
       None \<Rightarrow> (B_BAD_VALUE, w)
     | Some r \<Rightarrow> (B_OK, upd_area_info r (\<lambda>i. i\<lparr>ai_protection := protection\<rparr>) w))"

section \<open>Changing a range of addresses\<close>

text \<open>\<open>id = i; while ((id = next(id)) != -1) body;\<close> with fuel for the rounds.\<close>

fun area_loop :: "(int \<Rightarrow> 's \<Rightarrow> 's option) \<Rightarrow> ('s \<Rightarrow> int \<Rightarrow> int) \<Rightarrow> nat \<Rightarrow> int \<Rightarrow> 's \<Rightarrow> 's option" where
  "area_loop body nxt 0 i s = None"
| "area_loop body nxt (Suc n) i s =
    (let j = nxt s i
     in if j = -1 then Some s
        else case body j s of None \<Rightarrow> None | Some s' \<Rightarrow> area_loop body nxt n j s')"

definition next_area_in :: "ref \<Rightarrow> world \<Rightarrow> int \<Rightarrow> int" where
  "next_area_in p w i = Process_NextAreaId (processObjs w p) i"

text \<open>Entering one of the areas a split made into both tables; a null area is dereferenced.\<close>

definition register_split :: "ref \<Rightarrow> area \<Rightarrow> world \<Rightarrow> world option" where
  "register_split p a w =
    (let (r, w1) = new_area a w
     in case System_RegisterArea w1 r of
          Some (Some r', w2) \<Rightarrow> Some (upd_process p (\<lambda>x. Process_RegisterArea (areaObjs w2) x r') w2)
        | _ \<Rightarrow> None)"

fun register_splits :: "ref \<Rightarrow> area list \<Rightarrow> world \<Rightarrow> world option" where
  "register_splits p [] w = Some w"
| "register_splits p (a # as) w =
    (case register_split p a w of None \<Rightarrow> None | Some w' \<Rightarrow> register_splits p as w')"

definition set_protection :: "int \<Rightarrow> area \<Rightarrow> area" where
  "set_protection protection a = a\<lparr>area_info := (area_info a)\<lparr>ai_protection := protection\<rparr>\<rparr>"

text \<open>
  One round of \<open>set_memory_protection\<close>. \<open>newAreas\<close> holds the areas of \<open>newRanges\<close> from the
  second on; the two loops over it run from 1 to \<open>|unchangedRanges| - 1\<close> and from
  \<open>|unchangedRanges|\<close> to \<open>|newAreas| - 1\<close>, and use the entry before their index.
\<close>

definition protect_area ::
    "ref \<Rightarrow> int \<Rightarrow> int \<Rightarrow> int \<Rightarrow> int \<Rightarrow> world \<Rightarrow> world option" where
  "protect_area p address nbytes protection i w =
    (case Process_GetArea (processObjs w p) i of
       None \<Rightarrow> None
     | Some r \<Rightarrow>
         (let a = areaObjs w r;
              unchanged = unchanged_ranges (area_address a) (area_end a) address (ptr_add address nbytes);
              changed = changed_ranges (area_address a) (area_end a) address (ptr_add address nbytes)
          in if changed = [] then Some w
             else if unchanged = [] then Some (upd_area r (set_protection protection) w)
             else case Area_Split a (unchanged @ changed) of
               None \<Rightarrow> None
             | Some (a0, newAreas) \<Rightarrow>
                 (case register_splits p
                         (map (\<lambda>k. newAreas ! (k - 1)) [1..<length unchanged])
                         (upd_area r (\<lambda>_. a0) w) of
                    None \<Rightarrow> None
                  | Some w1 \<Rightarrow>
                      register_splits p
                        (map (\<lambda>k. set_protection protection (newAreas ! (k - 1)))
                          [length unchanged..<length newAreas]) w1)))"

text \<open>Twice the number of areas and one round more are enough fuel, as shown below.\<close>

definition area_fuel :: "ref \<Rightarrow> world \<Rightarrow> nat" where
  "area_fuel p w = 2 * length (p_areas (processObjs w p)) + 1"

definition call_set_memory_protection ::
    "hserver_context \<Rightarrow> int \<Rightarrow> int \<Rightarrow> int \<Rightarrow> world \<Rightarrow> (int \<times> world) option" where
  "call_set_memory_protection c address nbytes protection w =
    (let p = ctx_process c
     in case area_loop (protect_area p address nbytes protection) (next_area_in p)
               (area_fuel p w) (-1) w of
          None \<Rightarrow> None | Some w' \<Rightarrow> Some (B_OK, w'))"

definition lock_area :: "ref \<Rightarrow> int \<Rightarrow> int \<Rightarrow> int \<Rightarrow> int \<Rightarrow> world \<Rightarrow> world option" where
  "lock_area p address nbytes typ i w =
    (case Process_GetArea (processObjs w p) i of
       None \<Rightarrow> None
     | Some r \<Rightarrow>
         Some (if area_end (areaObjs w r) \<le> address \<or> area_address (areaObjs w r) \<ge> ptr_add address nbytes
               then w else upd_area_info r (\<lambda>x. x\<lparr>ai_lock := typ\<rparr>) w))"

definition call_set_memory_lock ::
    "hserver_context \<Rightarrow> int \<Rightarrow> int \<Rightarrow> int \<Rightarrow> world \<Rightarrow> (int \<times> world) option" where
  "call_set_memory_lock c address nbytes typ w =
    (if typ \<notin> {0, 1, 2, 5} then Some (B_BAD_VALUE, w)
     else
       (let p = ctx_process c
        in case area_loop (lock_area p address nbytes typ) (next_area_in p) (area_fuel p w) (-1) w of
             None \<Rightarrow> None | Some w' \<Rightarrow> Some (B_OK, w')))"

definition unmap_area ::
    "ref \<Rightarrow> int \<Rightarrow> int \<Rightarrow> int \<Rightarrow> world \<times> int list \<Rightarrow> (world \<times> int list) option" where
  "unmap_area p address nbytes i s =
    (case s of (w, ids) \<Rightarrow>
       (case Process_GetArea (processObjs w p) i of
          None \<Rightarrow> None
        | Some r \<Rightarrow>
            (let a = areaObjs w r;
                 surviving = surviving_ranges (area_address a) (area_end a) address (ptr_add address nbytes)
             in if surviving = [] then Some (w, ids @ [i])
                else case Area_Split a surviving of
                  None \<Rightarrow> None
                | Some (a0, newAreas) \<Rightarrow>
                    (case register_splits p newAreas (upd_area r (\<lambda>_. a0) w) of
                       None \<Rightarrow> None | Some w' \<Rightarrow> Some (w', ids)))))"

definition drop_area :: "memory_host \<Rightarrow> ref \<Rightarrow> int \<Rightarrow> world \<Rightarrow> world" where
  "drop_area mh p i w =
    snd (System_UnregisterArea mh (upd_process p (\<lambda>x. snd (Process_UnregisterArea x i)) w) i)"

definition call_unmap_memory ::
    "memory_host \<Rightarrow> hserver_context \<Rightarrow> int \<Rightarrow> int \<Rightarrow> world \<Rightarrow> (int \<times> world) option" where
  "call_unmap_memory mh c address nbytes w =
    (let p = ctx_process c
     in case area_loop (unmap_area p address nbytes) (next_area_in p \<circ> fst) (area_fuel p w) (-1) (w, []) of
          None \<Rightarrow> None
        | Some (w', ids) \<Rightarrow> Some (B_OK, foldl (\<lambda>v i. drop_area mh p i v) w' ids))"

end
