(* ===== verification/RangeCalls.thy ===== *)
theory RangeCalls
  imports AreaCalls
begin

text \<open>
  What the range calls of \<^verbatim>\<open>hyclone_server/area.cpp\<close> do to the addresses a team covers. The
  argument has three layers: the cursor loop with a variant and an invariant, one round as a step
  that replaces an area by pieces of it, and the effect of all rounds on coverage.
\<close>

section \<open>The loop\<close>

lemma area_loop_rule:
  assumes "\<And>i s. I i s \<Longrightarrow> nxt s i \<noteq> -1 \<Longrightarrow>
      \<exists>s'. body (nxt s i) s = Some s' \<and> I (nxt s i) s' \<and> (variant (nxt s i) s' :: nat) < variant i s"
    and "I i s" and "variant i s < n"
  shows "\<exists>s' j. area_loop body nxt n i s = Some s' \<and> I j s' \<and> nxt s' j = -1"
  using assms(2,3)
proof (induction n arbitrary: i s)
  case (Suc n)
  show ?case
  proof (cases "nxt s i = -1")
    case True
    then show ?thesis using Suc.prems(1) by auto
  next
    case False
    then obtain s' where s': "body (nxt s i) s = Some s'" "I (nxt s i) s'"
      "variant (nxt s i) s' < variant i s"
      using assms(1) Suc.prems(1) by blast
    then show ?thesis using Suc.IH [OF s'(2)] Suc.prems(2) False by (simp add: Let_def)
  qed
qed simp

text \<open>A weight on the entries after the cursor.\<close>

definition weight_after :: "(int \<Rightarrow> 'v \<Rightarrow> nat) \<Rightarrow> 'v omap \<Rightarrow> int \<Rightarrow> nat" where
  "weight_after f m j = (\<Sum>(i, r)\<leftarrow>m. if j < i then f i r else 0)"

lemma weight_after_Cons [simp]:
  "weight_after f [] j = 0"
  "weight_after f ((i, r) # m) j = (if j < i then f i r else 0) + weight_after f m j"
  by (simp_all add: weight_after_def)

lemma weight_after_le: "(\<And>i r. (i, r) \<in> set m \<Longrightarrow> f i r \<le> b) \<Longrightarrow> weight_after f m j \<le> b * length m"
proof (induction m)
  case (Cons p m)
  then have "weight_after f m j \<le> b * length m" "f (fst p) (snd p) \<le> b" by auto
  then show ?case by (cases p) auto
qed simp

lemma weight_after_insert:
  "k \<notin> om_keys m \<Longrightarrow>
    weight_after f (om_insert k r m) j = (if j < k then f k r else 0) + weight_after f m j"
  by (induction k r m rule: om_insert.induct) auto

lemma weight_after_cong:
  "(\<And>i r. (i, r) \<in> set m \<Longrightarrow> j < i \<Longrightarrow> f i r = g i r) \<Longrightarrow> weight_after f m j = weight_after g m j"
  by (induction m) auto

lemma weight_after_all:
  "\<forall>i\<in>om_keys m. j < i \<Longrightarrow> weight_after f m j = (\<Sum>(i, r)\<leftarrow>m. f i r)"
  by (induction m) auto

lemma weight_after_next:
  assumes "om_ok m" "om_upper_bound m j = Some (k, r)"
  shows "weight_after f m j = f k r + weight_after f m k"
  using assms
proof (induction m)
  case (Cons p m)
  obtain a v where p: "p = (a, v)" by fastforce
  have m: "om_ok m" "\<forall>i\<in>om_keys m. a < i" using Cons.prems(1) p by (auto simp: om_ok_def)
  show ?case
  proof (cases "a \<le> j")
    case True
    then have up: "om_upper_bound m j = Some (k, r)"
      using Cons.prems(2) p by (simp add: om_upper_bound_def)
    then have "j < k" using om_upper_bound_Some [OF m(1)] by fastforce
    then show ?thesis using Cons.IH [OF m(1) up] p True by simp
  next
    case False
    then have "k = a" "r = v" using Cons.prems(2) p by (simp_all add: om_upper_bound_def)
    moreover have "weight_after f m j = weight_after f m a"
    proof -
      have "j < i" if "i \<in> om_keys m" for i using that m(2) False by force
      then show ?thesis using m(2) by (simp add: weight_after_all)
    qed
    ultimately show ?thesis using p False by simp
  qed
qed (simp add: om_upper_bound_def)

lemma om_next_bound:
  assumes "om_ok m" "\<forall>k\<in>om_keys m. 0 \<le> k" "om_next m j \<noteq> -1"
  obtains r where "om_upper_bound m j = Some (om_next m j, r)" "map_of m (om_next m j) = Some r"
    "j < om_next m j" "\<forall>i\<in>om_keys m. i \<le> j \<or> om_next m j \<le> i"
proof (cases "om_upper_bound m j")
  case (Some p)
  then have "om_next m j = fst p" by (simp add: om_next_def)
  moreover have "map_of m (fst p) = Some (snd p)"
    using om_upper_bound_Some [OF assms(1) Some] om_ok_distinct [OF assms(1)]
    by (cases p) (simp add: map_of_eq_Some_iff)
  ultimately show ?thesis
    using om_upper_bound_Some [OF assms(1) Some] Some
    by (intro that [of "snd p"]) (auto simp: not_le)
qed (use assms(3) in \<open>simp add: om_next_def\<close>)

lemma om_next_end:
  assumes "om_ok m" "\<forall>k\<in>om_keys m. 0 \<le> k" "om_next m j = -1"
  shows "\<forall>i\<in>om_keys m. i \<le> j"
proof (cases "om_upper_bound m j")
  case (Some p)
  then have "0 \<le> fst p" using om_upper_bound_Some [OF assms(1) Some] assms(2) by force
  then show ?thesis using assms(3) Some by (simp add: om_next_def)
qed (simp add: om_upper_bound_None)

lemma length_om_insert: "k \<notin> om_keys m \<Longrightarrow> length (om_insert k v m) = Suc (length m)"
  by (induction k v m rule: om_insert.induct) auto

section \<open>The areas of a team\<close>

definition range_ok :: "area \<Rightarrow> bool" where
  "range_ok a \<longleftrightarrow> 0 \<le> area_address a \<and> 0 \<le> area_size a \<and> area_address a + area_size a < 2 ^ 64"

text \<open>
  A team's table is part of the server's table, its areas do not wrap around the end of the
  address space, and the file of a shared area is held open.
\<close>

definition team_ok :: "world \<Rightarrow> ref \<Rightarrow> bool" where
  "team_ok w p \<longleftrightarrow> areas_ok w \<and> om_ok (p_areas (processObjs w p)) \<and> counts_ok (memoryService w) \<and>
     (\<forall>i r. map_of (p_areas (processObjs w p)) i = Some r \<longrightarrow>
        map_of (areas w) i = Some r \<and> range_ok (areaObjs w r) \<and>
        (Area_IsShared (areaObjs w r) \<longrightarrow> 0 < ref_count (memoryService w) (area_entryRef (areaObjs w r))))"

definition covers :: "world \<Rightarrow> ref \<Rightarrow> int \<Rightarrow> bool" where
  "covers w p x \<longleftrightarrow>
     (\<exists>i r. map_of (p_areas (processObjs w p)) i = Some r \<and> area_contains (areaObjs w r) x)"

lemma area_end_ok: "range_ok a \<Longrightarrow> area_end a = area_address a + area_size a"
  by (simp add: range_ok_def ptr_add_def to_uint64_id)

lemma area_contains_ok:
  "range_ok a \<Longrightarrow> area_contains a x \<longleftrightarrow> area_address a \<le> x \<and> x < area_address a + area_size a"
  by (simp add: area_contains_def area_end_ok)

lemma team_ok_areas:
  assumes "team_ok w p" "map_of (p_areas (processObjs w p)) i = Some r"
  shows "ai_area (area_info (areaObjs w r)) = i" "r < nextRef w" "1 \<le> i"
    "range_ok (areaObjs w r)"
  using assms by (auto simp: team_ok_def areas_ok_def)

lemma team_ok_inj:
  "team_ok w p \<Longrightarrow> map_of (p_areas (processObjs w p)) i = Some r \<Longrightarrow>
    map_of (p_areas (processObjs w p)) j = Some r \<Longrightarrow> i = j"
  using team_ok_areas(1) by metis

text \<open>Registering one more area.\<close>

lemma register_split_ok:
  assumes "team_ok w p" "range_ok a" "int (length (areas w)) < INT_MAX"
    and "Area_IsShared a \<longrightarrow> 0 < ref_count (memoryService w) (area_entryRef a)"
  obtains i a' w' where "register_split p a w = Some w'" "team_ok w' p"
    "map_of (p_areas (processObjs w p)) i = None" "0 \<le> i"
    "p_areas (processObjs w' p) = om_insert i (nextRef w) (p_areas (processObjs w p))"
    "a' = a\<lparr>area_info := (area_info a)\<lparr>ai_area := i\<rparr>\<rparr>"
    "areaObjs w' = (areaObjs w)(nextRef w := a')" "nextRef w' = Suc (nextRef w)"
    "length (areas w') = Suc (length (areas w))"
    "\<And>ref. ref_count (memoryService w) ref \<le> ref_count (memoryService w') ref"
proof -
  let ?r = "nextRef w"
  define w1 where "w1 = snd (new_area a w)"
  have w1: "areas w1 = areas w" "nextAreaId w1 = nextAreaId w" "nextRef w1 = Suc ?r"
    "areaObjs w1 = (areaObjs w)(?r := a)" "memoryService w1 = memoryService w"
    "processObjs w1 = processObjs w"
    by (simp_all add: w1_def new_area_def)
  have ok: "areas_ok w" "counts_ok (memoryService w)" "om_ok (p_areas (processObjs w p))"
    using assms(1) by (auto simp: team_ok_def)
  have old: "map_of (areas w) j = Some s \<Longrightarrow> s < ?r" for j s
    using ok(1) by (auto simp: areas_ok_def)
  have ok1: "areas_ok w1"
    using ok(1) old by (fastforce simp: areas_ok_def w1)
  obtain i where alloc: "System_AllocAreaId w1 = Some (i, w1\<lparr>nextAreaId := next_area_id i\<rparr>)"
    and i: "map_of (areas w1) i = None" "1 \<le> i" "i \<le> INT_MAX"
    by (rule System_AllocAreaId_ok [OF ok1]) (use assms(3) w1(1) in auto)
  define ms where "ms = (if Area_IsShared a
    then snd (AcquireSharedFile (memoryService w) (area_entryRef a)) else memoryService w)"
  define w2 where "w2 = w1\<lparr>nextAreaId := next_area_id i, memoryService := ms\<rparr>"
  define w3 where "w3 = enter_area i ?r w2"
  have acq: "fst (AcquireSharedFile (memoryService w) (area_entryRef a))" if "Area_IsShared a"
    using that assms(4) shared_files.acquire_succeeds [OF ok(2)] by simp
  have same: "w1\<lparr>nextAreaId := k, memoryService := memoryService w\<rparr> = w1\<lparr>nextAreaId := k\<rparr>" for k
    by (cases w) (simp add: w1_def new_area_def)
  have reg: "System_RegisterArea w1 ?r = Some (Some ?r, w3)"
  proof (cases "Area_IsShared a")
    case True
    then show ?thesis
      using alloc acq
      by (cases "AcquireSharedFile (memoryService w) (area_entryRef a)")
        (simp add: System_RegisterArea_def w1 w3_def w2_def ms_def)
  next
    case False
    then have "w3 = enter_area i ?r (w1\<lparr>nextAreaId := next_area_id i\<rparr>)"
      by (simp add: w3_def w2_def ms_def same)
    then show ?thesis using alloc False by (simp add: System_RegisterArea_def w1)
  qed
  have ok2: "areas_ok w2"
    using ok1 next_area_id_range [OF i(2,3)] by (simp add: areas_ok_def w2_def)
  have w3: "areas_ok w3" "map_of (areas w3) = (map_of (areas w))(i \<mapsto> ?r)"
    using enter_area_ok [OF ok2 i(2,3), of ?r] i(1) old by (auto simp: w2_def w1 w3_def)
  have w3': "areaObjs w3 = (areaObjs w)(?r := a\<lparr>area_info := (area_info a)\<lparr>ai_area := i\<rparr>\<rparr>)"
    "nextRef w3 = Suc ?r" "memoryService w3 = ms" "processObjs w3 = processObjs w"
    "areas w3 = om_insert i ?r (areas w)"
    by (auto simp: w3_def w2_def w1 enter_area_def upd_area_info_def upd_area_def)
  define w' where "w' = upd_process p (\<lambda>x. Process_RegisterArea (areaObjs w3) x ?r) w3"
  have w': "areas w' = areas w3" "areaObjs w' = areaObjs w3" "nextRef w' = Suc ?r"
    "memoryService w' = ms" "nextAreaId w' = nextAreaId w3"
    "p_areas (processObjs w' p) = om_insert i ?r (p_areas (processObjs w p))"
    by (auto simp: w'_def upd_process_def Process_RegisterArea_def w3')
  have free: "map_of (p_areas (processObjs w p)) i = None"
  proof (rule ccontr)
    assume "map_of (p_areas (processObjs w p)) i \<noteq> None"
    then show False using i(1) assms(1) by (auto simp: team_ok_def w1)
  qed
  have cok: "counts_ok ms"
    using ok(2) shared_files.acquire_ok [OF ok(2)] by (simp add: ms_def)
  have mono: "ref_count (memoryService w) ref \<le> ref_count ms ref" for ref
    using shared_files.acquire_count [OF ok(2)] by (simp add: ms_def)
  have "areas_ok w'" using w3(1) by (simp add: areas_ok_def w' w3')
  moreover have "map_of (areas w') j = Some s \<and> range_ok (areaObjs w' s) \<and>
      (Area_IsShared (areaObjs w' s) \<longrightarrow> 0 < ref_count ms (area_entryRef (areaObjs w' s)))"
    if "map_of (p_areas (processObjs w' p)) j = Some s" for j s
  proof (cases "j = i")
    case True
    then have "s = ?r" using that ok(3) by (simp add: w' map_of_om_insert)
    then show ?thesis
      using True w3(2) assms(2,4) mono [of "area_entryRef a"]
      by (auto simp: w' w3' range_ok_def Area_IsShared_def)
  next
    case False
    then have "map_of (p_areas (processObjs w p)) j = Some s"
      using that ok(3) by (simp add: w' map_of_om_insert)
    then have s: "map_of (areas w) j = Some s" "range_ok (areaObjs w s)"
      "Area_IsShared (areaObjs w s) \<longrightarrow> 0 < ref_count (memoryService w) (area_entryRef (areaObjs w s))"
      using assms(1) by (auto simp: team_ok_def)
    then have "s \<noteq> ?r" using old [of j s] by simp
    then show ?thesis
      using s w3(2) False mono [of "area_entryRef (areaObjs w s)"] by (auto simp: w' w3')
  qed
  ultimately have "team_ok w' p"
    using ok(3) cok by (simp add: team_ok_def w' om_ok_insert)
  moreover have "register_split p a w = Some w'"
    using reg by (simp add: register_split_def w'_def w1_def new_area_def)
  moreover have "length (areas w') = Suc (length (areas w))"
    using i(1) by (simp add: w' w3' w1 length_om_insert om_keys_dom domIff)
  ultimately show ?thesis
    using free i(2) w' w3' mono by (intro that [of w' i "a\<lparr>area_info := (area_info a)\<lparr>ai_area := i\<rparr>\<rparr>"]) auto
qed

section \<open>One round\<close>

definition with_id :: "int \<Rightarrow> area \<Rightarrow> area" where
  "with_id i a = a\<lparr>area_info := (area_info a)\<lparr>ai_area := i\<rparr>\<rparr>"

definition team_areas :: "world \<Rightarrow> ref \<Rightarrow> (int \<times> area) set" where
  "team_areas w p = {(i, areaObjs w r) | i r. map_of (p_areas (processObjs w p)) i = Some r}"

lemma covers_areas: "covers w p x \<longleftrightarrow> (\<exists>(i, a)\<in>team_areas w p. area_contains a x)"
  by (auto simp: covers_def team_areas_def)

lemma with_id_simps [simp]:
  "area_contains (with_id i a) x = area_contains a x" "range_ok (with_id i a) = range_ok a"
  "area_address (with_id i a) = area_address a" "area_size (with_id i a) = area_size a"
  "Area_IsShared (with_id i a) = Area_IsShared a" "area_entryRef (with_id i a) = area_entryRef a"
  "ai_protection (area_info (with_id i a)) = ai_protection (area_info a)"
  by (simp_all add: with_id_def area_contains_def range_ok_def Area_IsShared_def)

text \<open>The weight of the areas after the cursor, for a weight that does not look at the id.\<close>

definition team_weight :: "(area \<Rightarrow> nat) \<Rightarrow> world \<Rightarrow> ref \<Rightarrow> int \<Rightarrow> nat" where
  "team_weight f w p j = weight_after (\<lambda>i r. f (areaObjs w r)) (p_areas (processObjs w p)) j"

definition held_open :: "world \<Rightarrow> area \<Rightarrow> bool" where
  "held_open w a \<longleftrightarrow> (Area_IsShared a \<longrightarrow> 0 < ref_count (memoryService w) (area_entryRef a))"

lemma team_areas_upd:
  assumes "team_ok w p" "map_of (p_areas (processObjs w p)) i = Some r"
  shows "team_areas (upd_area r (\<lambda>_. b) w) p = team_areas w p - {(i, areaObjs w r)} \<union> {(i, b)}"
  using assms(2) team_ok_inj [OF assms(1)] team_ok_areas(1) [OF assms(1)]
  by (auto simp: team_areas_def upd_area_def split: if_splits) (metis+)

lemma team_weight_upd:
  assumes "team_ok w p" "map_of (p_areas (processObjs w p)) i = Some r"
  shows "team_weight f (upd_area r (\<lambda>_. b) w) p i = team_weight f w p i"
proof -
  have "om_ok (p_areas (processObjs w p))" using assms(1) by (simp add: team_ok_def)
  then have "s \<noteq> r" if "(k, s) \<in> set (p_areas (processObjs w p))" "i < k" for k s
    using that team_ok_inj [OF assms] om_ok_distinct by fastforce
  then show ?thesis
    unfolding team_weight_def by (auto simp: upd_area_def intro!: weight_after_cong)
qed

lemma team_ok_upd:
  assumes "team_ok w p" "map_of (p_areas (processObjs w p)) i = Some r" "range_ok b"
    "held_open w b" "ai_area (area_info b) = i"
  shows "team_ok (upd_area r (\<lambda>_. b) w) p"
proof -
  have ok: "areas_ok w" and r: "map_of (areas w) i = Some r"
    using assms(1,2) by (simp_all add: team_ok_def)
  then have "map_of (areas w) k = Some r \<Longrightarrow> k = i" for k by (metis areas_ok_def)
  then have "areas_ok (upd_area r (\<lambda>_. b) w)"
    using ok assms(5) by (auto simp: areas_ok_def upd_area_def)
  then show ?thesis
    using assms by (auto simp: team_ok_def upd_area_def held_open_def)
qed

text \<open>What a team's areas are after a split has entered new ones.\<close>

definition grown :: "world \<Rightarrow> ref \<Rightarrow> area list \<Rightarrow> world \<Rightarrow> bool" where
  "grown w p as w' \<longleftrightarrow> team_ok w' p \<and> team_areas w p \<subseteq> team_areas w' p \<and>
     (\<forall>(j, b)\<in>team_areas w' p - team_areas w p. \<exists>a\<in>set as. b = with_id j a) \<and>
     (\<forall>a\<in>set as. \<exists>j. (j, with_id j a) \<in> team_areas w' p) \<and>
     length (areas w') = length (areas w) + length as \<and>
     (\<forall>f k. (\<forall>i a. f (with_id i a) = f a) \<longrightarrow>
        team_weight f w' p k \<le> team_weight f w p k + sum_list (map f as))"

lemma register_splits_grown:
  assumes "team_ok w p" "\<forall>a\<in>set as. range_ok a \<and> held_open w a"
    "int (length (areas w)) + int (length as) < INT_MAX"
  shows "\<exists>w'. register_splits p as w = Some w' \<and> grown w p as w'"
  using assms
proof (induction as arbitrary: w)
  case Nil
  then show ?case by (simp add: grown_def)
next
  case (Cons a as)
  have a: "range_ok a" "held_open w a" using Cons.prems(2) by auto
  obtain i a' w1 where s: "register_split p a w = Some w1" "team_ok w1 p"
    "map_of (p_areas (processObjs w p)) i = None"
    "p_areas (processObjs w1 p) = om_insert i (nextRef w) (p_areas (processObjs w p))"
    "a' = a\<lparr>area_info := (area_info a)\<lparr>ai_area := i\<rparr>\<rparr>"
    "areaObjs w1 = (areaObjs w)(nextRef w := a')"
    "length (areas w1) = Suc (length (areas w))"
    and mono: "\<And>ref. ref_count (memoryService w) ref \<le> ref_count (memoryService w1) ref"
    by (rule register_split_ok [OF Cons.prems(1) a(1)])
      (use Cons.prems(3) a(2) in \<open>auto simp: held_open_def\<close>)
  have old: "s < nextRef w" if "map_of (p_areas (processObjs w p)) j = Some s" for j s
    using team_ok_areas(2) [OF Cons.prems(1) that] .
  have om: "om_ok (p_areas (processObjs w p))" using Cons.prems(1) by (simp add: team_ok_def)
  have look: "map_of (p_areas (processObjs w1 p)) = (map_of (p_areas (processObjs w p)))(i \<mapsto> nextRef w)"
    using om by (simp add: s(4) map_of_om_insert)
  have T1: "team_areas w1 p = insert (i, with_id i a) (team_areas w p)"
  proof (intro set_eqI)
    fix y :: "int \<times> area"
    obtain j b where y: "y = (j, b)" by fastforce
    show "y \<in> team_areas w1 p \<longleftrightarrow> y \<in> insert (i, with_id i a) (team_areas w p)"
    proof (cases "j = i")
      case True
      then show ?thesis using s(3) y by (auto simp: team_areas_def look s(5,6) with_id_def)
    next
      case False
      have "map_of (p_areas (processObjs w p)) j = Some r \<Longrightarrow> areaObjs w1 r = areaObjs w r" for r
        using old [of j r] by (simp add: s(6))
      then show ?thesis using False y by (auto simp: team_areas_def look)
    qed
  qed
  have held: "\<forall>b\<in>set as. range_ok b \<and> held_open w1 b"
  proof
    fix b assume "b \<in> set as"
    then have "range_ok b" "held_open w b" using Cons.prems(2) by auto
    then show "range_ok b \<and> held_open w1 b" using mono [of "area_entryRef b"] by (auto simp: held_open_def)
  qed
  have "int (length (areas w1)) + int (length as) < INT_MAX" using Cons.prems(3) s(7) by simp
  from Cons.IH [OF s(2) held this] obtain w' where
    w': "register_splits p as w1 = Some w'" "grown w1 p as w'" by blast
  have weight1: "team_weight f w1 p k \<le> team_weight f w p k + f a"
    if "\<forall>i a. f (with_id i a) = f a" for f k
  proof -
    have "team_weight f w1 p k = (if k < i then f a' else 0) +
        weight_after (\<lambda>i r. f (areaObjs w1 r)) (p_areas (processObjs w p)) k"
      unfolding team_weight_def s(4) using s(3)
      by (subst weight_after_insert) (auto simp: om_keys_dom domIff s(6))
    moreover have "weight_after (\<lambda>i r. f (areaObjs w1 r)) (p_areas (processObjs w p)) k =
        team_weight f w p k"
      unfolding team_weight_def
    proof (rule weight_after_cong)
      fix i r assume "(i, r) \<in> set (p_areas (processObjs w p))"
      then have "r < nextRef w" using old om_ok_distinct [OF om] by (metis map_of_eq_Some_iff)
      then show "f (areaObjs w1 r) = f (areaObjs w r)" by (simp add: s(6))
    qed
    moreover have "f a' = f a" using that s(5) by (metis with_id_def)
    ultimately show ?thesis by simp
  qed
  have "grown w p (a # as) w'"
    unfolding grown_def
  proof (intro conjI allI impI)
    show "team_ok w' p" using w'(2) by (simp add: grown_def)
    show "team_areas w p \<subseteq> team_areas w' p" using w'(2) T1 by (auto simp: grown_def)
    show "\<forall>(j, b)\<in>team_areas w' p - team_areas w p. \<exists>a\<in>set (a # as). b = with_id j a"
      using w'(2) T1 by (fastforce simp: grown_def)
    show "\<forall>a\<in>set (a # as). \<exists>j. (j, with_id j a) \<in> team_areas w' p"
      using w'(2) T1 by (auto simp: grown_def)
    show "length (areas w') = length (areas w) + length (a # as)"
      using w'(2) s(7) by (simp add: grown_def)
  next
    fix f :: "area \<Rightarrow> nat" and k assume f: "\<forall>i a. f (with_id i a) = f a"
    then have "team_weight f w' p k \<le> team_weight f w1 p k + sum_list (map f as)"
      using w'(2) by (simp add: grown_def)
    then show "team_weight f w' p k \<le> team_weight f w p k + sum_list (map f (a # as))"
      using weight1 [OF f, of k] by simp
  qed
  then show ?case using s(1) w'(1) by simp
qed

subsection \<open>Pieces of an area\<close>

definition piece_of :: "area \<Rightarrow> int \<times> int \<Rightarrow> area \<Rightarrow> bool" where
  "piece_of a r b \<longleftrightarrow> area_address b = fst r \<and> area_size b = snd r - fst r \<and>
     ai_area (area_info b) = ai_area (area_info a) \<and>
     ai_protection (area_info b) = ai_protection (area_info a) \<and>
     (Area_IsShared b \<longrightarrow> Area_IsShared a) \<and> area_entryRef b = area_entryRef a"

definition range_in :: "int \<times> int \<Rightarrow> bool" where
  "range_in r \<longleftrightarrow> 0 \<le> fst r \<and> fst r \<le> snd r \<and> snd r < 2 ^ 64"

lemma set_range_piece:
  "range_in r \<Longrightarrow> piece_of a r b \<Longrightarrow> range_in r' \<Longrightarrow> piece_of a r' (set_offset (set_range b r') off)"
  by (auto simp: piece_of_def range_in_def set_range_def set_offset_def Area_IsShared_def to_uint64_id)

lemma set_range_piece': "range_in r \<Longrightarrow> piece_of a r (set_offset (set_range a r) off)"
  by (auto simp: piece_of_def range_in_def set_range_def set_offset_def Area_IsShared_def to_uint64_id)

lemma Area_Split_pieces:
  assumes "\<forall>r\<in>set (r0 # rs). range_in r"
  obtains a0 news where "Area_Split a (r0 # rs) = Some (a0, news)" "piece_of a r0 a0"
    "list_all2 (piece_of a) rs news"
proof -
  let ?a0 = "set_offset (set_range a r0) (area_offset a + (fst r0 - area_address a))"
  have "piece_of a r0 ?a0" using assms by (simp add: set_range_piece')
  moreover from this have "list_all2 (piece_of a) rs
      (map (\<lambda>r'. set_offset (set_range ?a0 r') (area_offset a + (fst r' - area_address a))) rs)"
    using assms by (auto simp: list_all2_conv_all_nth intro!: set_range_piece [of r0])
  ultimately show ?thesis by (intro that) (simp_all add: Let_def)
qed

declare Area_Split.simps [simp del]

definition inside_of :: "int \<Rightarrow> int \<Rightarrow> area \<Rightarrow> bool" where
  "inside_of lo hi a \<longleftrightarrow> (\<forall>x. area_contains a x \<longrightarrow> lo \<le> x \<and> x < hi)"

definition disjoint_of :: "int \<Rightarrow> int \<Rightarrow> area \<Rightarrow> bool" where
  "disjoint_of lo hi a \<longleftrightarrow> (\<forall>x. area_contains a x \<longrightarrow> \<not> (lo \<le> x \<and> x < hi))"

text \<open>The ranges an area keeps outside of \<open>[lo, hi)\<close>, and its weight in the loops.\<close>

definition kept :: "int \<Rightarrow> int \<Rightarrow> area \<Rightarrow> (int \<times> int) list" where
  "kept lo hi a = surviving_ranges (area_address a) (area_address a + area_size a) lo hi"

definition split_weight :: "int \<Rightarrow> int \<Rightarrow> area \<Rightarrow> nat" where
  "split_weight lo hi a = max 1 (length (kept lo hi a))"

lemma split_weight_with_id [simp]: "split_weight lo hi (with_id i a) = split_weight lo hi a"
  by (simp add: split_weight_def kept_def)

lemma kept_cover:
  assumes "range_ok a" "lo \<le> hi"
  shows "ranges_cover (kept lo hi a) x \<longleftrightarrow> area_contains a x \<and> \<not> (lo \<le> x \<and> x < hi)"
  using assms surviving_cover [of "area_address a" "area_address a + area_size a" lo hi x]
  by (auto simp: kept_def area_contains_ok) (auto simp: range_ok_def)

lemma kept_shape:
  assumes "range_ok a" "lo \<le> hi" "r \<in> set (kept lo hi a)"
  shows "range_in r" "fst r < snd r" "snd r \<le> lo \<or> hi \<le> fst r"
  using assms surviving_shape [of "area_address a" "area_address a + area_size a" lo hi r]
  by (auto simp: kept_def range_ok_def range_in_def)
    (auto simp: surviving_ranges_def outside_range_def)

lemma length_kept: "range_ok a \<Longrightarrow> lo \<le> hi \<Longrightarrow> length (kept lo hi a) \<le> 2"
  by (simp add: kept_def surviving_ranges_closed range_ok_def)

lemma kept_piece:
  assumes "piece_of a r b" "range_in r" "fst r < snd r" "snd r \<le> lo \<or> hi \<le> fst r" "lo \<le> hi"
  shows "range_ok b" "split_weight lo hi b = 1" "disjoint_of lo hi b"
    "area_contains b x \<longleftrightarrow> in_range x r"
proof -
  show ok: "range_ok b" using assms(1,2) by (simp add: piece_of_def range_in_def range_ok_def)
  show c: "area_contains b x \<longleftrightarrow> in_range x r" for x
    using assms(1) by (auto simp: area_contains_ok [OF ok] piece_of_def in_range_def)
  show "disjoint_of lo hi b" using assms(4) by (auto simp: disjoint_of_def c in_range_def)
  show "split_weight lo hi b = 1"
    using assms by (auto simp: split_weight_def kept_def surviving_ranges_closed piece_of_def max_def)
qed

text \<open>Area \<open>i\<close>, that was \<open>a\<close>, is replaced by pieces that cover what it covered outside of the range.\<close>

definition replaced ::
    "int \<Rightarrow> int \<Rightarrow> ref \<Rightarrow> int \<Rightarrow> area \<Rightarrow> nat \<Rightarrow> world \<Rightarrow> world \<Rightarrow> bool" where
  "replaced lo hi p i a n w w' \<longleftrightarrow> team_ok w' p \<and>
    (\<forall>j b. (j, b) \<in> team_areas w' p \<longrightarrow> ((j, b) \<in> team_areas w p \<and> j \<noteq> i) \<or>
       (disjoint_of lo hi b \<and> (\<exists>x. area_contains b x) \<and> (j = i \<or> (\<forall>a. (j, a) \<notin> team_areas w p)) \<and>
        (\<forall>x. area_contains b x \<longrightarrow> area_contains a x))) \<and>
    (\<forall>j b. (j, b) \<in> team_areas w p \<longrightarrow> j \<noteq> i \<longrightarrow> (j, b) \<in> team_areas w' p) \<and>
    (\<forall>x. area_contains a x \<longrightarrow> \<not> (lo \<le> x \<and> x < hi) \<longrightarrow>
       (\<exists>j b. (j, b) \<in> team_areas w' p \<and> area_contains b x)) \<and>
    length (areas w') = length (areas w) + n \<and>
    team_weight (split_weight lo hi) w' p i \<le> team_weight (split_weight lo hi) w p i + n"

lemma replacedD:
  assumes "replaced lo hi p i a n w w'"
  shows "team_ok w' p"
    and "(j, b) \<in> team_areas w' p \<Longrightarrow> ((j, b) \<in> team_areas w p \<and> j \<noteq> i) \<or>
       (disjoint_of lo hi b \<and> (\<exists>x. area_contains b x) \<and> (j = i \<or> (\<forall>a. (j, a) \<notin> team_areas w p)) \<and>
        (\<forall>x. area_contains b x \<longrightarrow> area_contains a x))"
    and "(j, b) \<in> team_areas w p \<Longrightarrow> j \<noteq> i \<Longrightarrow> (j, b) \<in> team_areas w' p"
    and "area_contains a x \<Longrightarrow> \<not> (lo \<le> x \<and> x < hi) \<Longrightarrow>
       \<exists>j b. (j, b) \<in> team_areas w' p \<and> area_contains b x"
    and "length (areas w') = length (areas w) + n"
    and "team_weight (split_weight lo hi) w' p i \<le> team_weight (split_weight lo hi) w p i + n"
  using assms unfolding replaced_def by blast+

lemma sum_list_ones: "(\<And>x. x \<in> set xs \<Longrightarrow> f x = (1::nat)) \<Longrightarrow> sum_list (map f xs) = length xs"
  by (induction xs) auto

text \<open>Splitting one area at the ends of a range and entering the kept pieces.\<close>

lemma split_round:
  assumes w: "team_ok w p" "map_of (p_areas (processObjs w p)) i = Some r" and lohi: "lo \<le> hi"
    and kept: "kept lo hi (areaObjs w r) = r0 # rs"
    and more: "\<forall>r\<in>set extra. range_in r"
    and split: "Area_Split (areaObjs w r) (r0 # rs @ extra) = Some (a0, news)"
    and room: "int (length (areas w)) + int (length rs) < INT_MAX"
  shows "\<exists>w'. register_splits p (take (length rs) news) (upd_area r (\<lambda>_. a0) w) = Some w' \<and>
    replaced lo hi p i (areaObjs w r) (length rs) w w'"
proof -
  let ?a = "areaObjs w r" and ?w1 = "upd_area r (\<lambda>_. a0) w" and ?as = "take (length rs) news"
  have a: "range_ok ?a" "ai_area (area_info ?a) = i" "held_open w ?a"
    using team_ok_areas [OF w] w by (auto simp: team_ok_def held_open_def)
  note shape = kept_shape [OF a(1) lohi, unfolded kept]
  have "\<forall>r\<in>set (r0 # rs @ extra). range_in r" using shape(1) more by auto
  then obtain a1 news1 where "Area_Split ?a (r0 # rs @ extra) = Some (a1, news1)"
    "piece_of ?a r0 a1" "list_all2 (piece_of ?a) (rs @ extra) news1"
    by (rule Area_Split_pieces)
  with split have p0: "piece_of ?a r0 a0" and pieces: "list_all2 (piece_of ?a) (rs @ extra) news"
    by simp_all
  have "list_all2 (piece_of ?a) (take (length rs) (rs @ extra)) ?as"
    using pieces by (rule list_all2_takeI)
  then have ps: "list_all2 (piece_of ?a) rs ?as" by simp
  have len: "length ?as = length rs" using list_all2_lengthD [OF ps] by simp
  have good0: "range_ok a0" "disjoint_of lo hi a0" "\<And>x. area_contains a0 x \<longleftrightarrow> in_range x r0"
  proof -
    have "range_in r0" "fst r0 < snd r0" "snd r0 \<le> lo \<or> hi \<le> fst r0" using shape [of r0] by simp_all
    note p = kept_piece [OF p0 this lohi]
    show "range_ok a0" "disjoint_of lo hi a0" "\<And>x. area_contains a0 x \<longleftrightarrow> in_range x r0"
      by (rule p(1), rule p(3), rule p(4))
  qed
  have good: "range_ok b \<and> split_weight lo hi b = 1 \<and> disjoint_of lo hi b \<and>
      (\<exists>r'\<in>set rs. piece_of ?a r' b \<and> (\<forall>x. area_contains b x \<longleftrightarrow> in_range x r'))" if "b \<in> set ?as" for b
  proof -
    from that obtain k where "k < length ?as" and b: "?as ! k = b" unfolding in_set_conv_nth by blast
    then have k: "k < length rs" by (simp only: len)
    have pc: "piece_of ?a (rs ! k) b" using list_all2_nthD [OF ps k] by (simp only: b)
    have "range_in (rs ! k)" "fst (rs ! k) < snd (rs ! k)" "snd (rs ! k) \<le> lo \<or> hi \<le> fst (rs ! k)"
      using shape [of "rs ! k"] k by simp_all
    note kp = kept_piece [OF pc this lohi]
    have "rs ! k \<in> set rs" using k by simp
    then show ?thesis using pc kp by blast
  qed
  have held: "held_open w b" if "piece_of ?a r' b" for r' b
    using a(3) that by (auto simp: held_open_def piece_of_def)
  have w1: "team_ok ?w1 p" "areas ?w1 = areas w"
    using team_ok_upd [OF w good0(1) held [OF p0]] p0 a(2)
    by (simp_all add: piece_of_def upd_area_def)
  have held1: "held_open ?w1 b = held_open w b" for b by (simp add: held_open_def upd_area_def)
  have T1: "team_areas ?w1 p = team_areas w p - {(i, ?a)} \<union> {(i, a0)}"
    by (rule team_areas_upd [OF w])
  have T: "(i, b) \<in> team_areas w p \<Longrightarrow> b = ?a" for b using w(2) by (auto simp: team_areas_def)
  obtain w' where w': "register_splits p ?as ?w1 = Some w'" "grown ?w1 p ?as w'"
    using register_splits_grown [OF w1(1), of ?as] good held held1 room len w1(2) by fastforce
  have funct: "(j, b) \<in> team_areas w' p \<Longrightarrow> (j, b') \<in> team_areas w' p \<Longrightarrow> b = b'" for j b b'
    by (auto simp: team_areas_def)
  have sub: "team_areas ?w1 p \<subseteq> team_areas w' p" using w'(2) by (simp add: grown_def)
  have new: "((j, b) \<in> team_areas w p \<and> j \<noteq> i) \<or>
      (disjoint_of lo hi b \<and> (\<exists>x. area_contains b x) \<and> (j = i \<or> (\<forall>a. (j, a) \<notin> team_areas w p)) \<and>
       (\<forall>x. area_contains b x \<longrightarrow> area_contains ?a x))"
    if jb: "(j, b) \<in> team_areas w' p" for j b
  proof (cases "(j, b) \<in> team_areas ?w1 p")
    case True
    have "\<exists>x. in_range x r0" using shape(2) [of r0] by (auto simp: in_range_def)
    moreover have "in_range x r0 \<Longrightarrow> area_contains ?a x" for x
      using kept_cover [OF a(1) lohi, of x] by (auto simp: kept ranges_cover_def)
    ultimately show ?thesis using True T good0(2,3) by (auto simp: T1)
  next
    case False
    then obtain b0 where b0: "b0 \<in> set ?as" "b = with_id j b0"
      using jb w'(2) unfolding grown_def by blast
    then obtain r' where r': "r' \<in> set rs" "\<forall>x. area_contains b x \<longleftrightarrow> in_range x r'"
      "disjoint_of lo hi b"
      using good [OF b0(1)] by (auto simp: disjoint_of_def)
    have "\<exists>x. in_range x r'" using shape(2) [of r'] r'(1) by (auto simp: in_range_def)
    moreover have "in_range x r' \<Longrightarrow> area_contains ?a x" for x
      using kept_cover [OF a(1) lohi, of x] r'(1) by (auto simp: kept ranges_cover_def)
    moreover have "j = i \<or> (\<forall>a. (j, a) \<notin> team_areas w p)"
      using False funct jb sub T1 by blast
    ultimately show ?thesis using r' by blast
  qed
  have old: "(j, b) \<in> team_areas w p \<Longrightarrow> j \<noteq> i \<Longrightarrow> (j, b) \<in> team_areas w' p" for j b
    using sub by (auto simp: T1)
  have cover: "\<exists>j b. (j, b) \<in> team_areas w' p \<and> area_contains b x"
    if "area_contains ?a x" "\<not> (lo \<le> x \<and> x < hi)" for x
  proof -
    have "ranges_cover (r0 # rs) x" using kept_cover [OF a(1) lohi, of x] that by (simp add: kept)
    then consider "in_range x r0" | r' where "r' \<in> set rs" "in_range x r'"
      by (auto simp: ranges_cover_def)
    then show ?thesis
    proof cases
      case 1
      then show ?thesis using sub good0(3) by (auto simp: T1)
    next
      case 2
      then obtain k where k: "k < length rs" "in_range x (rs ! k)" by (metis in_set_conv_nth)
      have b: "?as ! k \<in> set ?as" "piece_of ?a (rs ! k) (?as ! k)"
        using list_all2_nthD [OF ps k(1)] nth_mem [of k ?as] k(1) by (simp_all only: len)
      have "range_in (rs ! k)" "fst (rs ! k) < snd (rs ! k)" "snd (rs ! k) \<le> lo \<or> hi \<le> fst (rs ! k)"
        using shape [of "rs ! k"] k(1) by simp_all
      from kept_piece(4) [OF b(2) this lohi] have "area_contains (?as ! k) x" using k(2) by blast
      moreover obtain j where "(j, with_id j (?as ! k)) \<in> team_areas w' p"
        using w'(2) b(1) unfolding grown_def by blast
      ultimately show ?thesis by (intro exI [of _ j]) force
    qed
  qed
  have "sum_list (map (split_weight lo hi) ?as) = length ?as"
    using good by (intro sum_list_ones) blast
  then have sum: "sum_list (map (split_weight lo hi) ?as) = length rs" by (simp only: len)
  have weight: "team_weight (split_weight lo hi) w' p i \<le> team_weight (split_weight lo hi) w p i + length rs"
    using w'(2) team_weight_upd [OF w, of "split_weight lo hi" a0] sum unfolding grown_def
    by (metis split_weight_with_id)
  have "length (areas w') = length (areas w) + length rs" "team_ok w' p"
    using w'(2) w1(2) len by (simp_all add: grown_def)
  then have "replaced lo hi p i ?a (length rs) w w'"
    using new old cover weight unfolding replaced_def by blast
  then show ?thesis using w'(1) by blast
qed

section \<open>unmap_memory\<close>

definition range_top :: "int \<Rightarrow> int \<Rightarrow> bool" where
  "range_top address nbytes \<longleftrightarrow> 0 \<le> address \<and> 0 \<le> nbytes \<and> address + nbytes < 2 ^ 64"

lemma range_top_ptr_add: "range_top address nbytes \<Longrightarrow> ptr_add address nbytes = address + nbytes"
  by (simp add: range_top_def ptr_add_def to_uint64_id)

lemma kept_surviving:
  "range_ok a \<Longrightarrow> range_top address nbytes \<Longrightarrow>
    surviving_ranges (area_address a) (area_end a) address (ptr_add address nbytes)
      = kept address (address + nbytes) a"
  by (simp add: kept_def area_end_ok range_top_ptr_add)

definition unmap_inv :: "int \<Rightarrow> int \<Rightarrow> ref \<Rightarrow> world \<Rightarrow> int \<Rightarrow> world \<times> int list \<Rightarrow> bool" where
  "unmap_inv lo hi p w0 j s \<longleftrightarrow>
    (case s of (w, ids) \<Rightarrow>
      team_ok w p \<and>
      (\<forall>x. \<not> (lo \<le> x \<and> x < hi) \<longrightarrow> covers w p x = covers w0 p x) \<and>
      (\<forall>(i, a)\<in>team_areas w p. i \<le> j \<longrightarrow> i \<in> set ids \<or> disjoint_of lo hi a) \<and>
      (\<forall>(i, a)\<in>team_areas w p. i \<in> set ids \<longrightarrow> inside_of lo hi a) \<and>
      (\<forall>i\<in>set ids. i \<le> j \<and> (\<exists>a. (i, a) \<in> team_areas w p)) \<and>
      int (length (areas w) + team_weight (split_weight lo hi) w p j) < INT_MAX)"

lemma unmap_invI:
  assumes "team_ok w p"
    and "\<And>x. \<not> (lo \<le> x \<and> x < hi) \<Longrightarrow> covers w p x = covers w0 p x"
    and "\<And>i a. (i, a) \<in> team_areas w p \<Longrightarrow> i \<le> j \<Longrightarrow> i \<in> set ids \<or> disjoint_of lo hi a"
    and "\<And>i a. (i, a) \<in> team_areas w p \<Longrightarrow> i \<in> set ids \<Longrightarrow> inside_of lo hi a"
    and "\<And>i. i \<in> set ids \<Longrightarrow> i \<le> j" and "\<And>i. i \<in> set ids \<Longrightarrow> \<exists>a. (i, a) \<in> team_areas w p"
    and "int (length (areas w) + team_weight (split_weight lo hi) w p j) < INT_MAX"
  shows "unmap_inv lo hi p w0 j (w, ids)"
  using assms unfolding unmap_inv_def by blast

lemma team_keys: "team_ok w p \<Longrightarrow> \<forall>k\<in>om_keys (p_areas (processObjs w p)). 0 \<le> k"
proof
  fix k assume "team_ok w p" "k \<in> om_keys (p_areas (processObjs w p))"
  then have "map_of (p_areas (processObjs w p)) k \<noteq> None" by (simp add: map_of_eq_None_iff)
  then obtain r where "map_of (p_areas (processObjs w p)) k = Some r" by blast
  then show "0 \<le> k" using team_ok_areas(3) [OF \<open>team_ok w p\<close>] by fastforce
qed

lemma team_next:
  assumes "team_ok w p" "next_area_in p w j \<noteq> -1"
  obtains r where "map_of (p_areas (processObjs w p)) (next_area_in p w j) = Some r"
    "j < next_area_in p w j"
    "\<forall>(i, a)\<in>team_areas w p. i \<le> j \<or> next_area_in p w j \<le> i"
    "team_weight f w p j = f (areaObjs w r) + team_weight f w p (next_area_in p w j)"
proof -
  let ?m = "p_areas (processObjs w p)"
  have m: "om_ok ?m" "\<forall>k\<in>om_keys ?m. 0 \<le> k"
    using assms(1) team_keys by (auto simp: team_ok_def)
  have nx: "om_next ?m j \<noteq> -1" "next_area_in p w j = om_next ?m j"
    using assms(2) by (simp_all add: next_area_in_def Process_NextAreaId_def)
  obtain r where r: "om_upper_bound ?m j = Some (om_next ?m j, r)" "map_of ?m (om_next ?m j) = Some r"
    "j < om_next ?m j" "\<forall>i\<in>om_keys ?m. i \<le> j \<or> om_next ?m j \<le> i"
    by (rule om_next_bound [OF m nx(1)])
  show ?thesis
    using r nx(2) weight_after_next [OF m(1) r(1)]
    by (intro that [of r]) (force simp: team_areas_def om_keys_dom team_weight_def)+
qed

lemma team_next_end:
  assumes "team_ok w p" "next_area_in p w j = -1" "(i, a) \<in> team_areas w p"
  shows "i \<le> j"
proof -
  let ?m = "p_areas (processObjs w p)"
  have m: "om_ok ?m" "\<forall>k\<in>om_keys ?m. 0 \<le> k"
    using assms(1) team_keys by (auto simp: team_ok_def)
  then show ?thesis
    using om_next_end [OF m, of j] assms(2,3)
    by (auto simp: next_area_in_def Process_NextAreaId_def team_areas_def om_keys_dom)
qed

lemma unmap_round:
  assumes top: "range_top address nbytes"
    and inv: "unmap_inv address (address + nbytes) p w0 j s"
    and nx: "(next_area_in p \<circ> fst) s j = i" "i \<noteq> -1"
  shows "\<exists>s'. unmap_area p address nbytes i s = Some s' \<and>
    unmap_inv address (address + nbytes) p w0 i s' \<and>
    team_weight (split_weight address (address + nbytes)) (fst s') p i
      < team_weight (split_weight address (address + nbytes)) (fst s) p j"
proof -
  let ?lo = address and ?hi = "address + nbytes"
  let ?f = "split_weight ?lo ?hi"
  have lohi: "?lo \<le> ?hi" using top by (simp add: range_top_def)
  obtain w ids where s: "s = (w, ids)" by fastforce
  have inv': "team_ok w p"
    "\<And>x. \<not> (?lo \<le> x \<and> x < ?hi) \<Longrightarrow> covers w p x = covers w0 p x"
    "\<And>i a. (i, a) \<in> team_areas w p \<Longrightarrow> i \<le> j \<Longrightarrow> i \<in> set ids \<or> disjoint_of ?lo ?hi a"
    "\<And>i a. (i, a) \<in> team_areas w p \<Longrightarrow> i \<in> set ids \<Longrightarrow> inside_of ?lo ?hi a"
    "\<And>i. i \<in> set ids \<Longrightarrow> i \<le> j" "\<And>i. i \<in> set ids \<Longrightarrow> \<exists>a. (i, a) \<in> team_areas w p"
    "int (length (areas w) + team_weight ?f w p j) < INT_MAX"
    using inv by (auto simp: unmap_inv_def s)
  have i: "next_area_in p w j = i" "next_area_in p w j \<noteq> -1" using nx by (simp_all add: s)
  obtain r where r: "map_of (p_areas (processObjs w p)) i = Some r" "j < i"
    "\<forall>(k, a)\<in>team_areas w p. k \<le> j \<or> i \<le> k"
    "team_weight ?f w p j = ?f (areaObjs w r) + team_weight ?f w p i"
    using team_next [OF inv'(1) i(2), where f = ?f] unfolding i(1) by blast
  let ?a = "areaObjs w r"
  have a: "range_ok ?a" "(i, ?a) \<in> team_areas w p"
    using team_ok_areas(4) [OF inv'(1) r(1)] r(1) by (auto simp: team_areas_def)
  have T: "(i, b) \<in> team_areas w p \<Longrightarrow> b = ?a" for b using r(1) by (auto simp: team_areas_def)
  have surv: "surviving_ranges (area_address ?a) (area_end ?a) address (ptr_add address nbytes)
      = kept ?lo ?hi ?a"
    by (rule kept_surviving [OF a(1) top])
  show ?thesis
  proof (cases "kept ?lo ?hi ?a")
    case Nil
    then have "inside_of ?lo ?hi ?a"
      using kept_cover [OF a(1) lohi] by (auto simp: inside_of_def ranges_cover_def)
    have "unmap_inv ?lo ?hi p w0 i (w, ids @ [i])"
    proof (rule unmap_invI)
      fix k b assume kb: "(k, b) \<in> team_areas w p"
      show "k \<le> i \<Longrightarrow> k \<in> set (ids @ [i]) \<or> disjoint_of ?lo ?hi b"
        using inv'(3) [OF kb] r(3) kb by force
      show "k \<in> set (ids @ [i]) \<Longrightarrow> inside_of ?lo ?hi b"
        using inv'(4) [OF kb] T kb \<open>inside_of ?lo ?hi ?a\<close> by auto
    next
      fix k assume "k \<in> set (ids @ [i])"
      then show "k \<le> i" "\<exists>a. (k, a) \<in> team_areas w p"
        using inv'(5,6) [of k] r(2) a(2) by auto
    qed (use inv'(1,2,7) r(4) in auto)
    moreover have "unmap_area p address nbytes i s = Some (w, ids @ [i])"
      using r(1) surv Nil by (simp add: unmap_area_def s Process_GetArea_def Let_def)
    moreover have "0 < ?f ?a" by (simp add: split_weight_def)
    ultimately show ?thesis using r(4) s by (intro exI [of _ "(w, ids @ [i])"]) simp
  next
    case (Cons r0 rs)
    have fa: "?f ?a = Suc (length rs)" by (simp add: split_weight_def Cons)
    have "\<forall>r\<in>set (r0 # rs @ []). range_in r" using kept_shape(1) [OF a(1) lohi] by (simp add: Cons)
    then obtain a0 news where sp: "Area_Split ?a (r0 # rs @ []) = Some (a0, news)"
      "list_all2 (piece_of ?a) (rs @ []) news"
      by (rule Area_Split_pieces)
    have len: "take (length rs) news = news" using list_all2_lengthD [OF sp(2)] by simp
    have one: "length rs \<le> 1" using length_kept [OF a(1) lohi] Cons by simp
    have room: "int (length (areas w)) + int (length rs) < INT_MAX" using inv'(7) r(4) fa by simp
    obtain w' where reg: "register_splits p news (upd_area r (\<lambda>_. a0) w) = Some w'" and
      rep: "replaced ?lo ?hi p i ?a (length rs) w w'"
      using split_round [OF inv'(1) r(1) lohi Cons _ sp(1) room] unfolding len by auto
    note w' = reg replacedD [OF rep]
    have notin: "k \<in> set ids \<Longrightarrow> k \<noteq> i" for k using inv'(5) [of k] r(2) by auto
    have "unmap_inv ?lo ?hi p w0 i (w', ids)"
    proof (rule unmap_invI)
      fix x assume x: "\<not> (?lo \<le> x \<and> x < ?hi)"
      have "covers w' p x \<longleftrightarrow> covers w p x"
        unfolding covers_areas using x w'(3-5) a(2) T by blast
      then show "covers w' p x = covers w0 p x" using inv'(2) [OF x] by simp
    next
      fix k b assume kb: "(k, b) \<in> team_areas w' p"
      show "k \<le> i \<Longrightarrow> k \<in> set ids \<or> disjoint_of ?lo ?hi b"
        using w'(3) [OF kb] inv'(3) [of k b] r(3) by force
      show "k \<in> set ids \<Longrightarrow> inside_of ?lo ?hi b"
        using w'(3) [OF kb] inv'(4) [of k b] inv'(6) [of k] notin by blast
    next
      fix k assume k: "k \<in> set ids"
      show "k \<le> i" using inv'(5) [OF k] r(2) by simp
      show "\<exists>a. (k, a) \<in> team_areas w' p" using inv'(6) [OF k] w'(4) notin [OF k] by blast
    qed (use w'(2,6,7) inv'(7) r(4) fa one in auto)
    moreover have "unmap_area p address nbytes i s = Some (w', ids)"
      using r(1) surv Cons sp(1) w'(1) by (simp add: unmap_area_def s Process_GetArea_def Let_def)
    ultimately show ?thesis using r(4) fa w'(7) s by (intro exI [of _ "(w', ids)"]) simp
  qed
qed

lemma team_weight_bound:
  assumes "team_ok w p" "lo \<le> hi"
  shows "team_weight (split_weight lo hi) w p j \<le> 2 * length (p_areas (processObjs w p))"
  unfolding team_weight_def
proof (rule weight_after_le)
  fix i r assume "(i, r) \<in> set (p_areas (processObjs w p))"
  moreover have "distinct (map fst (p_areas (processObjs w p)))"
    using assms(1) by (intro om_ok_distinct) (simp add: team_ok_def)
  ultimately have "map_of (p_areas (processObjs w p)) i = Some r" by simp
  then have "range_ok (areaObjs w r)" by (rule team_ok_areas(4) [OF assms(1)])
  then show "split_weight lo hi (areaObjs w r) \<le> 2"
    using length_kept [OF _ assms(2)] by (simp add: split_weight_def)
qed

lemma team_ids_positive: "team_ok w p \<Longrightarrow> (i, a) \<in> team_areas w p \<Longrightarrow> 1 \<le> i"
  using team_ok_areas(3) by (auto simp: team_areas_def)

lemma unmap_loop:
  assumes ok: "team_ok w p" and top: "range_top address nbytes"
    and room: "int (length (areas w) + 2 * length (p_areas (processObjs w p))) < INT_MAX"
  shows "\<exists>w' ids j. area_loop (unmap_area p address nbytes) (next_area_in p \<circ> fst) (area_fuel p w) (-1) (w, [])
      = Some (w', ids) \<and> unmap_inv address (address + nbytes) p w j (w', ids) \<and> next_area_in p w' j = -1"
proof -
  let ?lo = address and ?hi = "address + nbytes"
  let ?I = "unmap_inv ?lo ?hi p w"
  let ?v = "\<lambda>j s. team_weight (split_weight ?lo ?hi) (fst s) p j"
  have lohi: "?lo \<le> ?hi" using top by (simp add: range_top_def)
  note bound = team_weight_bound [OF ok lohi, of "-1"]
  have start: "?I (-1) (w, [])"
    using ok room bound team_ids_positive [OF ok] by (intro unmap_invI) fastforce+
  have step: "\<exists>s'. unmap_area p address nbytes ((next_area_in p \<circ> fst) s i) s = Some s' \<and>
      ?I ((next_area_in p \<circ> fst) s i) s' \<and> ?v ((next_area_in p \<circ> fst) s i) s' < ?v i s"
    if "?I i s" "(next_area_in p \<circ> fst) s i \<noteq> -1" for i s
    using unmap_round [OF top that(1) refl that(2)] .
  have "?v (-1) (w, []) < area_fuel p w" using bound by (simp add: area_fuel_def)
  from area_loop_rule [where I = ?I and variant = ?v, OF step start this]
  show ?thesis by fastforce
qed

lemma drop_areas:
  "areaObjs (foldl (\<lambda>v i. drop_area mh p i v) w ids) = areaObjs w \<and>
   map_of (p_areas (processObjs (foldl (\<lambda>v i. drop_area mh p i v) w ids) p)) k =
     (if k \<in> set ids then None else map_of (p_areas (processObjs w p)) k)"
proof (induction ids arbitrary: w)
  case (Cons i ids)
  have "areaObjs (drop_area mh p i w) = areaObjs w"
    "p_areas (processObjs (drop_area mh p i w) p) = om_erase i (p_areas (processObjs w p))"
    by (auto simp: drop_area_def System_UnregisterArea_def Process_UnregisterArea_def upd_process_def
        Let_def split: option.splits)
  then show ?case using Cons.IH [of "drop_area mh p i w"] by (simp add: map_of_om_erase)
qed simp

text \<open>A team with one area, for the concrete runs.\<close>

definition sample_area :: area where
  "sample_area = Area_new ((dec_area_info [])\<lparr>ai_area := 1, ai_address := 4096, ai_size := 12288\<rparr>)"

definition area_world :: world where
  "area_world = sample_world\<lparr>areas := [(1, 5)], nextAreaId := 2, nextRef := 6,
     processObjs := \<lambda>_. (Process_new 4 0 0 0 0)\<lparr>p_threads := [(4, 0)], p_areas := [(1, 5)]\<rparr>,
     areaObjs := \<lambda>_. sample_area\<rparr>"

lemma area_world_ok:
  "ctx_process sample_context = 0" "team_ok area_world 0" "range_top 8192 4096"
  "int (length (areas area_world) + 2 * length (p_areas (processObjs area_world 0))) < INT_MAX"
  "covers area_world 0 x \<longleftrightarrow> 4096 \<le> x \<and> x < 16384"
  "(i, a) \<in> team_areas area_world 0 \<longleftrightarrow> i = 1 \<and> a = sample_area"
proof -
  have r: "range_ok sample_area" "\<not> Area_IsShared sample_area" "ai_area (area_info sample_area) = 1"
    by (simp_all add: range_ok_def sample_area_def Area_new_def Area_IsShared_def)
  show "ctx_process sample_context = 0" by (simp add: sample_context_def)
  show "team_ok area_world 0"
    using r by (simp add: team_ok_def area_world_def sample_world_def world_init_def areas_ok_def om_ok_def
        counts_ok_init)
  show "range_top 8192 4096" by (simp add: range_top_def)
  show "int (length (areas area_world) + 2 * length (p_areas (processObjs area_world 0))) < INT_MAX"
    by (simp add: area_world_def)
  show T: "(i, a) \<in> team_areas area_world 0 \<longleftrightarrow> i = 1 \<and> a = sample_area" for i a
    by (auto simp: team_areas_def area_world_def)
  show "covers area_world 0 x \<longleftrightarrow> 4096 \<le> x \<and> x < 16384"
    unfolding covers_areas using area_contains_ok [OF r(1), of x] T
    by (auto simp: sample_area_def Area_new_def)
qed

text \<open>
  C3: \<open>unmap_memory\<close> takes exactly the given range away. With the fuel of the model the call
  ends, and afterwards the team covers an address if and only if it covered it before and the
  address is not in the range, however the range cuts through, swallows or misses the areas.
\<close>

theorem unmap_memory_uncovers_range:
  assumes "team_ok w (ctx_process c)" and "range_top address nbytes"
    and "int (length (areas w) + 2 * length (p_areas (the_process c w))) < INT_MAX"
  shows "\<exists>w'. call_unmap_memory mh c address nbytes w = Some (B_OK, w') \<and>
    (\<forall>x. covers w' (ctx_process c) x \<longleftrightarrow>
       covers w (ctx_process c) x \<and> \<not> (address \<le> x \<and> x < address + nbytes))"
proof -
  let ?p = "ctx_process c" and ?lo = address and ?hi = "address + nbytes"
  obtain w1 ids j where loop: "area_loop (unmap_area ?p address nbytes) (next_area_in ?p \<circ> fst)
      (area_fuel ?p w) (-1) (w, []) = Some (w1, ids)"
    and inv: "unmap_inv ?lo ?hi ?p w j (w1, ids)" and fin: "next_area_in ?p w1 j = -1"
    using unmap_loop [OF assms] by blast
  have ok: "team_ok w1 ?p" and
    cov: "\<And>x. \<not> (?lo \<le> x \<and> x < ?hi) \<Longrightarrow> covers w1 ?p x = covers w ?p x" and
    seen: "\<And>i a. (i, a) \<in> team_areas w1 ?p \<Longrightarrow> i \<le> j \<Longrightarrow> i \<in> set ids \<or> disjoint_of ?lo ?hi a" and
    gone: "\<And>i a. (i, a) \<in> team_areas w1 ?p \<Longrightarrow> i \<in> set ids \<Longrightarrow> inside_of ?lo ?hi a"
    using inv unfolding unmap_inv_def by auto
  define w' where "w' = foldl (\<lambda>v i. drop_area mh ?p i v) w1 ids"
  have "team_areas w' ?p = {(i, a) \<in> team_areas w1 ?p. i \<notin> set ids}"
    using drop_areas [of mh ?p w1 ids] by (auto simp: team_areas_def w'_def split: if_splits)
  then have "covers w' ?p x \<longleftrightarrow> (\<exists>(i, a)\<in>team_areas w1 ?p. i \<notin> set ids \<and> area_contains a x)" for x
    unfolding covers_areas by blast
  moreover have "(\<exists>(i, a)\<in>team_areas w1 ?p. i \<notin> set ids \<and> area_contains a x) \<longleftrightarrow>
      covers w ?p x \<and> \<not> (?lo \<le> x \<and> x < ?hi)" for x
  proof (cases "?lo \<le> x \<and> x < ?hi")
    case True
    have "i \<in> set ids \<or> \<not> area_contains a x" if "(i, a) \<in> team_areas w1 ?p" for i a
      using seen [OF that team_next_end [OF ok fin that]] True by (auto simp: disjoint_of_def)
    then show ?thesis using True by blast
  next
    case False
    have "i \<notin> set ids" if "(i, a) \<in> team_areas w1 ?p" "area_contains a x" for i a
      using gone [OF that(1)] that(2) False by (auto simp: inside_of_def)
    then show ?thesis using cov [OF False] False unfolding covers_areas [of w1] by blast
  qed
  moreover have "call_unmap_memory mh c address nbytes w = Some (B_OK, w')"
    using loop by (simp add: call_unmap_memory_def w'_def Let_def)
  ultimately show ?thesis by blast
qed

theorem unmap_memory_uncovers_range_witness:
  "\<exists>w'. call_unmap_memory sample_memory_host sample_context 8192 4096 area_world = Some (B_OK, w') \<and>
    covers w' 0 4096 \<and> \<not> covers w' 0 8192 \<and> covers w' 0 12288"
proof -
  obtain w' where "call_unmap_memory sample_memory_host sample_context 8192 4096 area_world = Some (B_OK, w')"
    "\<forall>x. covers w' 0 x \<longleftrightarrow> covers area_world 0 x \<and> \<not> (8192 \<le> x \<and> x < 8192 + 4096)"
    using unmap_memory_uncovers_range [of area_world sample_context, unfolded area_world_ok(1),
        OF area_world_ok(2-4), of sample_memory_host] by blast
  then show ?thesis by (simp add: area_world_ok(5))
qed

section \<open>set_memory_protection\<close>

text \<open>What stays of an area: all of it if it lies in the range, else what is outside of it.\<close>

definition keeps :: "int \<Rightarrow> int \<Rightarrow> area \<Rightarrow> int \<Rightarrow> bool" where
  "keeps lo hi a x \<longleftrightarrow> area_contains a x \<and> (\<not> (lo \<le> x \<and> x < hi) \<or> inside_of lo hi a)"

definition protect_inv :: "int \<Rightarrow> int \<Rightarrow> int \<Rightarrow> ref \<Rightarrow> world \<Rightarrow> int \<Rightarrow> world \<Rightarrow> bool" where
  "protect_inv lo hi prot p w0 j w \<longleftrightarrow>
     team_ok w p \<and>
     (\<forall>x. (\<exists>i a. (i, a) \<in> team_areas w p \<and> keeps lo hi a x) \<longleftrightarrow>
          (\<exists>i a. (i, a) \<in> team_areas w0 p \<and> keeps lo hi a x)) \<and>
     (\<forall>i a. (i, a) \<in> team_areas w p \<longrightarrow> i \<le> j \<longrightarrow>
        disjoint_of lo hi a \<or> (inside_of lo hi a \<and> ai_protection (area_info a) = prot)) \<and>
     int (length (areas w) + team_weight (split_weight lo hi) w p j) < INT_MAX"

lemma changed_ranges_ok:
  assumes "range_ok a" "range_top address nbytes"
  shows "changed_ranges (area_address a) (area_end a) address (ptr_add address nbytes) =
      (if max (area_address a) address < min (area_address a + area_size a) (address + nbytes)
       then [(max (area_address a) address, min (area_address a + area_size a) (address + nbytes))] else [])"
  using assms changed_ranges_closed [of "area_address a" "area_address a + area_size a" address "address + nbytes"]
  by (simp add: area_end_ok range_top_ptr_add range_ok_def range_top_def)

lemma unchanged_kept:
  "range_ok a \<Longrightarrow> range_top address nbytes \<Longrightarrow>
    unchanged_ranges (area_address a) (area_end a) address (ptr_add address nbytes)
      = kept address (address + nbytes) a"
  by (simp add: unchanged_surviving kept_surviving)

lemma set_protection_simps [simp]:
  "area_contains (set_protection q a) x = area_contains a x"
  "range_ok (set_protection q a) = range_ok a" "held_open w (set_protection q a) = held_open w a"
  "ai_area (area_info (set_protection q a)) = ai_area (area_info a)"
  "ai_protection (area_info (set_protection q a)) = q"
  "split_weight lo hi (set_protection q a) = split_weight lo hi a"
  by (simp_all add: set_protection_def area_contains_def range_ok_def held_open_def Area_IsShared_def
      split_weight_def kept_def)

lemma protect_round:
  assumes top: "range_top address nbytes"
    and inv: "protect_inv address (address + nbytes) prot p w0 j w"
    and nx: "next_area_in p w j = i" "i \<noteq> -1"
  shows "\<exists>w'. protect_area p address nbytes prot i w = Some w' \<and>
    protect_inv address (address + nbytes) prot p w0 i w' \<and>
    team_weight (split_weight address (address + nbytes)) w' p i
      < team_weight (split_weight address (address + nbytes)) w p j"
proof -
  let ?lo = address and ?hi = "address + nbytes"
  let ?f = "split_weight ?lo ?hi"
  have lohi: "?lo \<le> ?hi" using top by (simp add: range_top_def)
  have inv': "team_ok w p"
    "\<And>x. (\<exists>i a. (i, a) \<in> team_areas w p \<and> keeps ?lo ?hi a x) \<longleftrightarrow>
         (\<exists>i a. (i, a) \<in> team_areas w0 p \<and> keeps ?lo ?hi a x)"
    "\<And>i a. (i, a) \<in> team_areas w p \<Longrightarrow> i \<le> j \<Longrightarrow>
        disjoint_of ?lo ?hi a \<or> (inside_of ?lo ?hi a \<and> ai_protection (area_info a) = prot)"
    "int (length (areas w) + team_weight ?f w p j) < INT_MAX"
    using inv unfolding protect_inv_def by blast+
  have i: "next_area_in p w j \<noteq> -1" using nx by simp
  obtain r where r: "map_of (p_areas (processObjs w p)) i = Some r" "j < i"
    "\<forall>(k, a)\<in>team_areas w p. k \<le> j \<or> i \<le> k"
    "team_weight ?f w p j = ?f (areaObjs w r) + team_weight ?f w p i"
    using team_next [OF inv'(1) i, where f = ?f] unfolding nx(1) by blast
  let ?a = "areaObjs w r"
  have a: "range_ok ?a" "(i, ?a) \<in> team_areas w p" "ai_area (area_info ?a) = i"
    using team_ok_areas [OF inv'(1) r(1)] r(1) by (auto simp: team_areas_def)
  have T: "(i, b) \<in> team_areas w p \<Longrightarrow> b = ?a" for b using r(1) by (auto simp: team_areas_def)
  have seen: "(k, b) \<in> team_areas w p \<Longrightarrow> k \<le> i \<Longrightarrow> k \<noteq> i \<Longrightarrow> k \<le> j" for k b using r(3) by force
  have pos: "0 < ?f ?a" by (simp add: split_weight_def)
  define changed where "changed = changed_ranges (area_address ?a) (area_end ?a) address (ptr_add address nbytes)"
  have round: "protect_area p address nbytes prot i w =
      (if changed = [] then Some w
       else if kept ?lo ?hi ?a = [] then Some (upd_area r (set_protection prot) w)
       else case Area_Split ?a (kept ?lo ?hi ?a @ changed) of
         None \<Rightarrow> None
       | Some (a0, newAreas) \<Rightarrow>
           (case register_splits p (map (\<lambda>k. newAreas ! (k - 1)) [1..<length (kept ?lo ?hi ?a)])
                   (upd_area r (\<lambda>_. a0) w) of
              None \<Rightarrow> None
            | Some w1 \<Rightarrow> register_splits p (map (\<lambda>k. set_protection prot (newAreas ! (k - 1)))
                [length (kept ?lo ?hi ?a)..<length newAreas]) w1))"
    by (simp add: protect_area_def Process_GetArea_def changed_def Let_def r(1)
        unchanged_kept [OF a(1) top] cong: option.case_cong)
  consider (out) "changed = []" | (all) "changed \<noteq> []" "kept ?lo ?hi ?a = []"
    | (part) ch r0 rs where "changed = [ch]" "range_in ch" "kept ?lo ?hi ?a = r0 # rs"
  proof (cases "changed = []")
    case False
    let ?ch = "(max (area_address ?a) ?lo, min (area_address ?a + area_size ?a) ?hi)"
    have "changed = [?ch]" "fst ?ch < snd ?ch"
      using changed_ranges_ok [OF a(1) top] False by (auto simp: changed_def split: if_splits)
    moreover from this(2) have "range_in ?ch"
      using a(1) top by (simp add: range_in_def range_ok_def range_top_def max_def min_def)
    ultimately obtain ch where "changed = [ch]" "range_in ch" by blast
    then show thesis using False all part by (cases "kept ?lo ?hi ?a") auto
  qed
  then show ?thesis
  proof cases
    case out
    then have "\<not> max (area_address ?a) ?lo < min (area_address ?a + area_size ?a) ?hi"
      unfolding changed_def changed_ranges_ok [OF a(1) top] by (metis list.distinct(1))
    then have "disjoint_of ?lo ?hi ?a"
      unfolding disjoint_of_def area_contains_ok [OF a(1)] by auto
    then have vis: "disjoint_of ?lo ?hi b \<or> (inside_of ?lo ?hi b \<and> ai_protection (area_info b) = prot)"
      if "(k, b) \<in> team_areas w p" "k \<le> i" for k b
      using that inv'(3) [of k b] seen [of k b] T by blast
    have "int (length (areas w) + team_weight ?f w p i) < INT_MAX" using inv'(4) r(4) by simp
    then have "protect_inv ?lo ?hi prot p w0 i w"
      unfolding protect_inv_def using inv'(1,2) vis by blast
    then show ?thesis using out round r(4) pos by auto
  next
    case all
    then have ins: "inside_of ?lo ?hi ?a"
      using kept_cover [OF a(1) lohi] by (auto simp: inside_of_def ranges_cover_def)
    define w' where "w' = upd_area r (\<lambda>_. set_protection prot ?a) w"
    have T': "team_areas w' p = team_areas w p - {(i, ?a)} \<union> {(i, set_protection prot ?a)}"
      unfolding w'_def by (rule team_areas_upd [OF inv'(1) r(1)])
    have held: "held_open w ?a" using inv'(1) r(1) by (auto simp: team_ok_def held_open_def)
    have ok': "team_ok w' p"
      unfolding w'_def using a held by (intro team_ok_upd [OF inv'(1) r(1)]) simp_all
    have keeps: "keeps ?lo ?hi (set_protection prot ?a) x = keeps ?lo ?hi ?a x" for x
      by (simp add: keeps_def inside_of_def)
    have same: "(\<exists>k b. (k, b) \<in> team_areas w' p \<and> keeps ?lo ?hi b x) \<longleftrightarrow>
        (\<exists>k b. (k, b) \<in> team_areas w p \<and> keeps ?lo ?hi b x)" for x
      using a(2) keeps unfolding T' by blast
    have weight: "team_weight ?f w' p i = team_weight ?f w p i"
      unfolding w'_def by (rule team_weight_upd [OF inv'(1) r(1)])
    have "inside_of ?lo ?hi (set_protection prot ?a)" using ins by (simp add: inside_of_def)
    then have vis: "disjoint_of ?lo ?hi b \<or> (inside_of ?lo ?hi b \<and> ai_protection (area_info b) = prot)"
      if kb: "(k, b) \<in> team_areas w' p" "k \<le> i" for k b
    proof (cases "(k, b) = (i, set_protection prot ?a)")
      case True
      then show ?thesis using \<open>inside_of ?lo ?hi (set_protection prot ?a)\<close> by simp
    next
      case False
      then have old: "(k, b) \<in> team_areas w p" "k \<noteq> i" using kb(1) T [of b] unfolding T' by blast+
      show ?thesis by (rule inv'(3) [OF old(1) seen [OF old(1) kb(2) old(2)]])
    qed
    have "int (length (areas w') + team_weight ?f w' p i) < INT_MAX"
      using inv'(4) r(4) weight by (simp add: w'_def upd_area_def)
    then have "protect_inv ?lo ?hi prot p w0 i w'"
      unfolding protect_inv_def using ok' same inv'(2) vis by blast
    moreover have "upd_area r (set_protection prot) w = w'" by (simp add: w'_def upd_area_def)
    ultimately show ?thesis using all round r(4) pos weight by auto
  next
    case part
    have fa: "?f ?a = Suc (length rs)" by (simp add: split_weight_def part)
    have one: "length rs \<le> 1" using length_kept [OF a(1) lohi] part by simp
    have "\<forall>r\<in>set (r0 # rs @ [ch]). range_in r"
      using kept_shape(1) [OF a(1) lohi] part by auto
    then obtain a0 news where sp: "Area_Split ?a (r0 # rs @ [ch]) = Some (a0, news)"
      "list_all2 (piece_of ?a) (rs @ [ch]) news"
      by (rule Area_Split_pieces)
    have len: "length news = Suc (length rs)" using list_all2_lengthD [OF sp(2)] by simp
    have first: "map (\<lambda>k. news ! (k - 1)) [1..<length (r0 # rs)] = take (length rs) news"
      using len by (intro nth_equalityI) (auto simp del: upt_Suc)
    have room: "int (length (areas w)) + int (length rs) < INT_MAX" using inv'(4) r(4) fa by simp
    obtain w' where reg: "register_splits p (take (length rs) news) (upd_area r (\<lambda>_. a0) w) = Some w'" and
      rep: "replaced ?lo ?hi p i ?a (length rs) w w'"
      using split_round [OF inv'(1) r(1) lohi part(3) _ sp(1) room] part(2) by auto
    note w' = replacedD [OF rep]
    have notin: "\<not> inside_of ?lo ?hi ?a"
    proof -
      have "fst r0 < snd r0" "snd r0 \<le> ?lo \<or> ?hi \<le> fst r0"
        using kept_shape [OF a(1) lohi, of r0] part by simp_all
      moreover from this have "area_contains ?a (fst r0)"
        using kept_cover [OF a(1) lohi, of "fst r0"] part by (auto simp: ranges_cover_def in_range_def)
      ultimately show ?thesis by (auto simp: inside_of_def)
    qed
    have same: "(\<exists>k b. (k, b) \<in> team_areas w' p \<and> keeps ?lo ?hi b x) \<longleftrightarrow>
        (\<exists>k b. (k, b) \<in> team_areas w p \<and> keeps ?lo ?hi b x)" for x
    proof
      assume "\<exists>k b. (k, b) \<in> team_areas w' p \<and> keeps ?lo ?hi b x"
      then obtain k b where kb: "(k, b) \<in> team_areas w' p" "keeps ?lo ?hi b x" by blast
      from w'(2) [OF kb(1)] show "\<exists>k b. (k, b) \<in> team_areas w p \<and> keeps ?lo ?hi b x"
        using kb(2) a(2) by (auto simp: keeps_def disjoint_of_def)
    next
      assume "\<exists>k b. (k, b) \<in> team_areas w p \<and> keeps ?lo ?hi b x"
      then obtain k b where kb: "(k, b) \<in> team_areas w p" "keeps ?lo ?hi b x" by blast
      show "\<exists>k b. (k, b) \<in> team_areas w' p \<and> keeps ?lo ?hi b x"
      proof (cases "k = i")
        case True
        then have x: "area_contains ?a x" "\<not> (?lo \<le> x \<and> x < ?hi)"
          using T [of b] kb notin by (auto simp: keeps_def)
        from w'(4) [OF x] show ?thesis using x(2) by (auto simp: keeps_def)
      next
        case False
        then show ?thesis using w'(3) [OF kb(1)] kb(2) by blast
      qed
    qed
    have vis: "disjoint_of ?lo ?hi b \<or> (inside_of ?lo ?hi b \<and> ai_protection (area_info b) = prot)"
      if "(k, b) \<in> team_areas w' p" "k \<le> i" for k b
      using w'(2) [OF that(1)] inv'(3) [of k b] seen [of k b] that(2) by blast
    have "int (length (areas w') + team_weight ?f w' p i) < INT_MAX"
      using inv'(4) r(4) w'(5,6) fa one by simp
    then have "protect_inv ?lo ?hi prot p w0 i w'"
      unfolding protect_inv_def using w'(1) same inv'(2) vis by blast
    moreover have "protect_area p address nbytes prot i w = Some w'"
      unfolding round using part sp(1) first reg len by simp
    ultimately show ?thesis using r(4) fa w'(6) by auto
  qed
qed

lemma protect_loop:
  assumes ok: "team_ok w p" and top: "range_top address nbytes"
    and room: "int (length (areas w) + 2 * length (p_areas (processObjs w p))) < INT_MAX"
  shows "\<exists>w' j. area_loop (protect_area p address nbytes prot) (next_area_in p) (area_fuel p w) (-1) w
      = Some w' \<and> protect_inv address (address + nbytes) prot p w j w' \<and> next_area_in p w' j = -1"
proof -
  let ?lo = address and ?hi = "address + nbytes"
  let ?I = "protect_inv ?lo ?hi prot p w"
  let ?v = "\<lambda>j s. team_weight (split_weight ?lo ?hi) s p j"
  have lohi: "?lo \<le> ?hi" using top by (simp add: range_top_def)
  note bound = team_weight_bound [OF ok lohi, of "-1"]
  have "\<not> i \<le> -1" if "(i, a) \<in> team_areas w p" for i a
    using team_ids_positive [OF ok that] by simp
  then have start: "?I (-1) w"
    using ok room bound unfolding protect_inv_def by auto
  have step: "\<exists>s'. protect_area p address nbytes prot (next_area_in p s i) s = Some s' \<and>
      ?I (next_area_in p s i) s' \<and> ?v (next_area_in p s i) s' < ?v i s"
    if "?I i s" "next_area_in p s i \<noteq> -1" for i s
    using protect_round [OF top that(1) refl that(2)] .
  have "?v (-1) w < area_fuel p w" using bound by (simp add: area_fuel_def)
  from area_loop_rule [where I = ?I and variant = ?v, OF step start this]
  show ?thesis by blast
qed

lemma set_memory_protection_ends:
  assumes "team_ok w (ctx_process c)" and "range_top address nbytes"
    and "int (length (areas w) + 2 * length (p_areas (the_process c w))) < INT_MAX"
  obtains w' where "call_set_memory_protection c address nbytes prot w = Some (B_OK, w')"
    "\<And>x. covers w' (ctx_process c) x \<longleftrightarrow>
       (\<exists>i a. (i, a) \<in> team_areas w (ctx_process c) \<and> keeps address (address + nbytes) a x)"
    "\<And>i a. (i, a) \<in> team_areas w' (ctx_process c) \<Longrightarrow>
       disjoint_of address (address + nbytes) a \<or>
       (inside_of address (address + nbytes) a \<and> ai_protection (area_info a) = prot)"
proof -
  let ?p = "ctx_process c" and ?lo = address and ?hi = "address + nbytes"
  obtain w' j where loop: "area_loop (protect_area ?p address nbytes prot) (next_area_in ?p)
      (area_fuel ?p w) (-1) w = Some w'"
    and inv: "protect_inv ?lo ?hi prot ?p w j w'" and fin: "next_area_in ?p w' j = -1"
    using protect_loop [OF assms] by blast
  have ok: "team_ok w' ?p" using inv by (simp add: protect_inv_def)
  have vis: "disjoint_of ?lo ?hi a \<or> (inside_of ?lo ?hi a \<and> ai_protection (area_info a) = prot)"
    if "(i, a) \<in> team_areas w' ?p" for i a
    using inv that team_next_end [OF ok fin that] unfolding protect_inv_def by blast
  have "covers w' ?p x \<longleftrightarrow> (\<exists>i a. (i, a) \<in> team_areas w' ?p \<and> keeps ?lo ?hi a x)" for x
    using vis unfolding covers_areas by (fastforce simp: keeps_def disjoint_of_def)
  then have cov: "covers w' ?p x \<longleftrightarrow> (\<exists>i a. (i, a) \<in> team_areas w ?p \<and> keeps ?lo ?hi a x)" for x
    using inv unfolding protect_inv_def by blast
  have "call_set_memory_protection c address nbytes prot w = Some (B_OK, w')"
    using loop by (simp add: call_set_memory_protection_def Let_def)
  then show ?thesis by (rule that [OF _ cov vis])
qed

text \<open>
  C26: \<open>set_memory_protection\<close> on whole areas. If every area of the team lies inside the range
  or misses it, the call ends, the team covers the same addresses as before, and an area that
  covers an address in the range has the new protection.
\<close>

theorem set_memory_protection_whole_areas:
  assumes "team_ok w (ctx_process c)" and "range_top address nbytes"
    and "int (length (areas w) + 2 * length (p_areas (the_process c w))) < INT_MAX"
    and "\<forall>i a. (i, a) \<in> team_areas w (ctx_process c) \<longrightarrow>
      inside_of address (address + nbytes) a \<or> disjoint_of address (address + nbytes) a"
  shows "\<exists>w'. call_set_memory_protection c address nbytes prot w = Some (B_OK, w') \<and>
    (\<forall>x. covers w' (ctx_process c) x = covers w (ctx_process c) x) \<and>
    (\<forall>(i, a)\<in>team_areas w' (ctx_process c). \<forall>x. area_contains a x \<longrightarrow>
       address \<le> x \<longrightarrow> x < address + nbytes \<longrightarrow> ai_protection (area_info a) = prot)"
proof -
  obtain w' where w': "call_set_memory_protection c address nbytes prot w = Some (B_OK, w')"
    "\<And>x. covers w' (ctx_process c) x \<longleftrightarrow>
       (\<exists>i a. (i, a) \<in> team_areas w (ctx_process c) \<and> keeps address (address + nbytes) a x)"
    "\<And>i a. (i, a) \<in> team_areas w' (ctx_process c) \<Longrightarrow>
       disjoint_of address (address + nbytes) a \<or>
       (inside_of address (address + nbytes) a \<and> ai_protection (area_info a) = prot)"
    by (rule set_memory_protection_ends [OF assms(1-3)]) blast
  have "covers w' (ctx_process c) x = covers w (ctx_process c) x" for x
    using w'(2) assms(4) unfolding covers_areas [of w] by (fastforce simp: keeps_def disjoint_of_def)
  then show ?thesis using w'(1,3) by (fastforce simp: disjoint_of_def)
qed

theorem set_memory_protection_whole_areas_witness:
  "\<exists>w'. call_set_memory_protection sample_context 4096 12288 5 area_world = Some (B_OK, w') \<and>
    covers w' 0 8192"
proof -
  have "range_top 4096 12288" by (simp add: range_top_def)
  moreover have "\<forall>i a. (i, a) \<in> team_areas area_world (ctx_process sample_context) \<longrightarrow>
      inside_of 4096 (4096 + 12288) a \<or> disjoint_of 4096 (4096 + 12288) a"
    using area_world_ok(5) unfolding covers_areas area_world_ok(1) by (fastforce simp: inside_of_def area_world_ok(6))
  ultimately obtain w' where
    "call_set_memory_protection sample_context 4096 12288 5 area_world = Some (B_OK, w')"
    "\<forall>x. covers w' 0 x = covers area_world 0 x"
    using set_memory_protection_whole_areas [of area_world sample_context 4096 12288,
        unfolded area_world_ok(1), OF area_world_ok(2) _ area_world_ok(4)]
    unfolding area_world_ok(1) by blast
  then show ?thesis by (simp add: area_world_ok(5))
qed

text \<open>
  \<open>set_memory_protection\<close> on a part of an area. The new protection is not applied but the
  part is forgotten: an address in the range that only areas sticking out of the range cover is
  afterwards covered by no area of the team.
\<close>

theorem set_memory_protection_drops_part:
  assumes "team_ok w (ctx_process c)" and "range_top address nbytes"
    and "int (length (areas w) + 2 * length (p_areas (the_process c w))) < INT_MAX"
    and "covers w (ctx_process c) x" and "address \<le> x" and "x < address + nbytes"
    and "\<forall>i a. (i, a) \<in> team_areas w (ctx_process c) \<longrightarrow> area_contains a x \<longrightarrow>
      \<not> inside_of address (address + nbytes) a"
  shows "\<exists>w'. call_set_memory_protection c address nbytes prot w = Some (B_OK, w') \<and>
    \<not> covers w' (ctx_process c) x"
proof -
  obtain w' where w': "call_set_memory_protection c address nbytes prot w = Some (B_OK, w')"
    "\<And>x. covers w' (ctx_process c) x \<longleftrightarrow>
       (\<exists>i a. (i, a) \<in> team_areas w (ctx_process c) \<and> keeps address (address + nbytes) a x)"
    by (rule set_memory_protection_ends [OF assms(1-3)]) blast
  then show ?thesis using assms(5-7) by (auto simp: keeps_def)
qed

theorem set_memory_protection_drops_part_witness:
  "\<exists>w'. call_set_memory_protection sample_context 8192 4096 5 area_world = Some (B_OK, w') \<and>
    covers area_world 0 10000 \<and> \<not> covers w' 0 10000"
proof -
  have "area_contains sample_area 4096"
    using area_world_ok(5) [of 4096] unfolding covers_areas by (auto simp: area_world_ok(6))
  then have "\<not> inside_of 8192 (8192 + 4096) sample_area" by (auto simp: inside_of_def)
  then show ?thesis
    using set_memory_protection_drops_part [of area_world sample_context 8192 4096 10000,
        unfolded area_world_ok(1), OF area_world_ok(2-4)]
    by (simp add: area_world_ok(5,6))
qed

section \<open>transfer_area\<close>

text \<open>
  \<open>transfer_area\<close> never hands an address back. When the target thread answers \<open>B_OK\<close>, the
  call looks the new area up under its status, which is 0, and 0 is the id of no area; so whatever
  runs during the wait, the call fails or passes the answer on, and the guest's address variable
  is not written.
\<close>

theorem transfer_area_reports_no_address:
  assumes "call_transfer_area h env reply junk c i userAddress spec base target w = Some (s, w')"
    and "\<forall>v. areas_ok (env v)"
  shows "(s \<in> {B_BAD_VALUE, B_BAD_ADDRESS} \<or> s = to_int32 reply \<and> s \<noteq> B_OK) \<and>
    (guestWrites w' = guestWrites w \<or> (\<exists>v. w' = env v))"
proof -
  have "System_GetArea (env v) 0 = None" for v
  proof (cases "map_of (areas (env v)) 0")
    case (Some r)
    then have "(1::int) \<le> 0" using assms(2) by (simp only: areas_ok_def)
    then show ?thesis by simp
  qed (simp add: System_GetArea_def)
  then show ?thesis
    using assms(1) by (auto simp: call_transfer_area_def Let_def B_OK_def split: option.splits if_splits)
qed

definition shared_area_world :: world where
  "shared_area_world = area_world\<lparr>areaObjs := \<lambda>_. sample_area\<lparr>area_offset := 0\<rparr>\<rparr>"

theorem transfer_area_reports_no_address_witness:
  "\<exists>s w'. call_transfer_area sample_host (\<lambda>_. area_world) 0 [] sample_context 1 4096 0 1 4
      shared_area_world = Some (s, w') \<and> s \<in> {B_BAD_VALUE, B_BAD_ADDRESS}"
proof -
  let ?call = "call_transfer_area sample_host (\<lambda>_. area_world) 0 [] sample_context 1 4096 0 1 4
      shared_area_world"
  have ok: "\<forall>v. areas_ok ((\<lambda>_. area_world) v)" using area_world_ok(2) by (simp add: team_ok_def)
  have "?call \<noteq> None"
    by (simp add: call_transfer_area_def shared_area_world_def area_world_def sample_world_def
        sample_context_def Process_GetArea_def Process_new_def Area_IsShared_def NO_OFFSET_def
        System_GetThread_def Thread_SendRequest_def Thread_IsRequesting_def Thread_new_def Let_def
        split: option.splits)
  then obtain s w' where run: "?call = Some (s, w')" by fastforce
  have "to_int32 0 = 0" by (simp add: to_int32_def)
  then show ?thesis using run transfer_area_reports_no_address [OF run ok] by (auto simp: B_OK_def)
qed

end
