(* ===== verification/UserMap.thy ===== *)
theory UserMap
  imports Prelude "HOL-Library.AList"
begin

text \<open>
  \<^verbatim>\<open>hyclone_server/server_usermap.cpp\<close>: the entries of the passwd and group files, the
  map between host and guest ids, and the start-up step that merges the users of the host into
  the two files.
\<close>

section \<open>Streams and numbers\<close>

text \<open>
  An input stream is what is left of it and whether it hit its end. \<open>std::getline\<close> on a stream
  that already did fails and leaves the token alone; otherwise the token is replaced, and reading
  nothing up to the end counts as failure too.
\<close>

type_synonym stream = "string \<times> bool"

definition getline :: "char \<Rightarrow> stream \<Rightarrow> string \<Rightarrow> string \<times> stream" where
  "getline d st token =
    (if snd st then (token, st)
     else case dropWhile (\<lambda>c. c \<noteq> d) (fst st) of
       [] \<Rightarrow> (fst st, [], True)
     | _ # rest \<Rightarrow> (takeWhile (\<lambda>c. c \<noteq> d) (fst st), rest, False))"

text \<open>A run of \<open>n\<close> calls with the same token variable.\<close>

primrec tokens :: "nat \<Rightarrow> stream \<Rightarrow> string \<Rightarrow> string list" where
  "tokens 0 st token = []"
| "tokens (Suc n) st token =
    (let (token', st') = getline (CHR '':'') st token in token' # tokens n st' token')"

text \<open>\<open>while (std::getline(s, token, d))\<close>: the pieces that are read until the end.\<close>

function pieces :: "char \<Rightarrow> string \<Rightarrow> string list" where
  "pieces d s =
    (if s = [] then []
     else takeWhile (\<lambda>c. c \<noteq> d) s # pieces d (tl (dropWhile (\<lambda>c. c \<noteq> d) s)))"
  by pat_completeness auto

lemma length_tl_dropWhile: "s \<noteq> [] \<Longrightarrow> length (tl (dropWhile p s)) < length s"
  using length_dropWhile_le [of p s] by (cases s; cases "dropWhile p s") auto

termination pieces
  by (relation "measure (\<lambda>(d, s). length s)") (use length_tl_dropWhile in auto)

declare pieces.simps [simp del]

definition is_space :: "char \<Rightarrow> bool" where
  "is_space c \<longleftrightarrow> (of_char c :: nat) = 32 \<or> 9 \<le> (of_char c :: nat) \<and> (of_char c :: nat) \<le> 13"

definition is_digit :: "char \<Rightarrow> bool" where
  "is_digit c \<longleftrightarrow> 48 \<le> (of_char c :: nat) \<and> (of_char c :: nat) \<le> 57"

definition digits_val :: "string \<Rightarrow> int" where
  "digits_val ds = foldl (\<lambda>v c. 10 * v + (of_char c - 48)) 0 ds"

text \<open>\<open>std::stoi\<close>; \<open>None\<close> is the exception it throws.\<close>

definition stoi :: "string \<Rightarrow> int option" where
  "stoi s =
    (let s1 = dropWhile is_space s;
         neg = (s1 \<noteq> [] \<and> hd s1 = CHR ''-'');
         s2 = (if s1 \<noteq> [] \<and> hd s1 \<in> {CHR ''-'', CHR ''+''} then tl s1 else s1);
         ds = takeWhile is_digit s2;
         v = (if neg then - digits_val ds else digits_val ds)
     in if ds \<noteq> [] \<and> is_int32 v then Some v else None)"

section \<open>Entries\<close>

record user =
  u_uid :: int
  u_gid :: int
  u_name :: string
  u_passwordHash :: string
  u_info :: string
  u_homeDir :: string
  u_shell :: string

record group =
  g_name :: string
  g_passwordHash :: string
  g_users :: "string list"
  g_gid :: int

text \<open>
  The default constructors leave the ids without a value; every use sets them. They are 0 here.
\<close>

definition User_default :: user where
  "User_default = \<lparr>u_uid = 0, u_gid = 0, u_name = '''', u_passwordHash = ''x'', u_info = '''',
     u_homeDir = ''/boot/home'', u_shell = ''/bin/bash''\<rparr>"

definition Group_default :: group where
  "Group_default = \<lparr>g_name = '''', g_passwordHash = ''x'', g_users = [], g_gid = 0\<rparr>"

definition User_new :: "string \<Rightarrow> user option" where
  "User_new entry =
    (let ts = tokens 7 (entry, False) ''''
     in case (stoi (ts ! 2), stoi (ts ! 3)) of
          (Some uid, Some gid) \<Rightarrow>
            Some \<lparr>u_uid = uid, u_gid = gid, u_name = ts ! 0, u_passwordHash = ts ! 1,
                  u_info = ts ! 4, u_homeDir = ts ! 5, u_shell = ts ! 6\<rparr>
        | _ \<Rightarrow> None)"

definition User_ToString :: "user \<Rightarrow> string" where
  "User_ToString u = u_name u @ '':'' @ u_passwordHash u @ '':'' @ to_string (u_uid u) @ '':'' @
     to_string (u_gid u) @ '':'' @ u_info u @ '':'' @ u_homeDir u @ '':'' @ u_shell u"

definition Group_new :: "string \<Rightarrow> group option" where
  "Group_new entry =
    (let ts = tokens 4 (entry, False) ''''
     in case stoi (ts ! 2) of
          Some gid \<Rightarrow>
            Some \<lparr>g_name = ts ! 0, g_passwordHash = ts ! 1, g_users = pieces (CHR '','') (ts ! 3),
                  g_gid = gid\<rparr>
        | None \<Rightarrow> None)"

definition Group_ToString :: "group \<Rightarrow> string" where
  "Group_ToString g = g_name g @ '':'' @ g_passwordHash g @ '':'' @ to_string (g_gid g) @ '':'' @
     concat (map (\<lambda>u. u @ '','') (g_users g))"

section \<open>Ids\<close>

record user_map_service =
  uidMap :: "int \<rightharpoonup> int"
  gidMap :: "int \<rightharpoonup> int"
  uidReverseMap :: "int \<rightharpoonup> int"
  gidReverseMap :: "int \<rightharpoonup> int"

definition user_map_init :: user_map_service where
  "user_map_init = \<lparr>uidMap = Map.empty, gidMap = Map.empty, uidReverseMap = Map.empty,
     gidReverseMap = Map.empty\<rparr>"

definition RegisterUid :: "int \<Rightarrow> int \<Rightarrow> user_map_service \<Rightarrow> user_map_service" where
  "RegisterUid hostUid uid s =
    s\<lparr>uidMap := (uidMap s)(hostUid \<mapsto> uid), uidReverseMap := (uidReverseMap s)(uid \<mapsto> hostUid)\<rparr>"

definition RegisterGid :: "int \<Rightarrow> int \<Rightarrow> user_map_service \<Rightarrow> user_map_service" where
  "RegisterGid hostGid gid s =
    s\<lparr>gidMap := (gidMap s)(hostGid \<mapsto> gid), gidReverseMap := (gidReverseMap s)(gid \<mapsto> hostGid)\<rparr>"

definition GetUid :: "user_map_service \<Rightarrow> int \<Rightarrow> int" where
  "GetUid s hostUid = (case uidMap s hostUid of None \<Rightarrow> to_int32 hostUid | Some uid \<Rightarrow> uid)"

definition GetGid :: "user_map_service \<Rightarrow> int \<Rightarrow> int" where
  "GetGid s hostGid = (case gidMap s hostGid of None \<Rightarrow> to_int32 hostGid | Some gid \<Rightarrow> gid)"

definition GetHostUid :: "user_map_service \<Rightarrow> int \<Rightarrow> int" where
  "GetHostUid s uid = (case uidReverseMap s uid of None \<Rightarrow> -1 | Some hostUid \<Rightarrow> hostUid)"

definition GetHostGid :: "user_map_service \<Rightarrow> int \<Rightarrow> int" where
  "GetHostGid s gid = (case gidReverseMap s gid of None \<Rightarrow> -1 | Some hostGid \<Rightarrow> hostGid)"

text \<open>The lines of a file, parsed one after the other; the first bad line throws.\<close>

definition parse_file :: "(string \<Rightarrow> 'a option) \<Rightarrow> string \<Rightarrow> 'a list option" where
  "parse_file parse content = those (map parse (pieces (CHR 0x0A) content))"

text \<open>The entry is looked for line by line, so a bad line after it does no harm.\<close>

fun home_dir_of :: "int \<Rightarrow> string list \<Rightarrow> (int \<times> string) option" where
  "home_dir_of uid [] = Some (B_BAD_VALUE, '''')"
| "home_dir_of uid (l # ls) =
    (case User_new l of
       None \<Rightarrow> None
     | Some u \<Rightarrow> if u_uid u = uid then Some (B_OK, u_homeDir u) else home_dir_of uid ls)"

definition GetHomeDir :: "string \<Rightarrow> int \<Rightarrow> (int \<times> string) option" where
  "GetHomeDir passwd uid = home_dir_of uid (pieces (CHR 0x0A) passwd)"

section \<open>Start-up\<close>

record host_user =
  hu_name :: string
  hu_uid :: int
  hu_gid :: int

record host_group =
  hg_name :: string
  hg_gid :: int
  hg_users :: "string list"

definition HYCLONE_MIN_HOST_UID :: int where "HYCLONE_MIN_HOST_UID = 2000"
definition HYCLONE_MIN_HOST_GID :: int where "HYCLONE_MIN_HOST_GID = 2000"

definition register_users :: "host_user list \<Rightarrow> user_map_service \<Rightarrow> user_map_service" where
  "register_users us s =
    foldl (\<lambda>s (i, u). RegisterUid (hu_uid u) (to_int32 (HYCLONE_MIN_HOST_UID + int i)) s) s
      (enumerate 0 us)"

definition register_groups :: "host_group list \<Rightarrow> user_map_service \<Rightarrow> user_map_service" where
  "register_groups gs s =
    foldl (\<lambda>s (i, g). RegisterGid (hg_gid g) (to_int32 (HYCLONE_MIN_HOST_GID + int i)) s) s
      (enumerate 0 gs)"

text \<open>The map from names, where a later entry replaces an earlier one of the same name.\<close>

type_synonym 'a name_map = "(string \<times> 'a) list"

definition by_name :: "('a \<Rightarrow> string) \<Rightarrow> 'a list \<Rightarrow> 'a name_map" where
  "by_name nm xs = foldl (\<lambda>m x. AList.update (nm x) x m) [] xs"

text \<open>
  The loops over the entries of the files: the entries to keep, the host users no entry was found
  for, and whether an entry for id 0 was seen.
\<close>

definition update_user :: "user_map_service \<Rightarrow> host_user \<Rightarrow> user \<Rightarrow> user" where
  "update_user s h u = u\<lparr>u_uid := GetUid s (hu_uid h), u_gid := GetGid s (hu_gid h)\<rparr>"

fun merge_users :: "user_map_service \<Rightarrow> string \<Rightarrow> host_user name_map \<Rightarrow> user list \<Rightarrow>
    user list \<times> host_user name_map \<times> bool" where
  "merge_users s root m [] = ([], m, False)"
| "merge_users s root m (u # us) =
    (if u_uid u = 0 then
       (case merge_users s root m us of
          (vs, m', seen) \<Rightarrow> (u\<lparr>u_name := root\<rparr> # vs, m', True))
     else if u_uid u < HYCLONE_MIN_HOST_UID then
       (case merge_users s root m us of (vs, m', seen) \<Rightarrow> (u # vs, m', seen))
     else case map_of m (u_name u) of
       Some h \<Rightarrow>
         (case merge_users s root (AList.delete (u_name u) m) us of
            (vs, m', seen) \<Rightarrow> (update_user s h u # vs, m', seen))
     | None \<Rightarrow> merge_users s root m us)"

definition update_group :: "user_map_service \<Rightarrow> host_group \<Rightarrow> group \<Rightarrow> group" where
  "update_group s h g = g\<lparr>g_gid := GetGid s (hg_gid h), g_users := hg_users h\<rparr>"

fun merge_groups :: "user_map_service \<Rightarrow> string \<Rightarrow> host_group name_map \<Rightarrow> group list \<Rightarrow>
    group list \<times> host_group name_map \<times> bool" where
  "merge_groups s root m [] = ([], m, False)"
| "merge_groups s root m (g # gs) =
    (if g_gid g = 0 then
       (case merge_groups s root m gs of
          (vs, m', seen) \<Rightarrow> (g\<lparr>g_name := root\<rparr> # vs, m', True))
     else if g_gid g < HYCLONE_MIN_HOST_GID then
       (case merge_groups s root m gs of (vs, m', seen) \<Rightarrow> (g # vs, m', seen))
     else case map_of m (g_name g) of
       Some h \<Rightarrow>
         (case merge_groups s root (AList.delete (g_name g) m) gs of
            (vs, m', seen) \<Rightarrow> (update_group s h g # vs, m', seen))
     | None \<Rightarrow> merge_groups s root m gs)"

definition added_user :: "user_map_service \<Rightarrow> string \<times> host_user \<Rightarrow> user" where
  "added_user s x = update_user s (snd x) (User_default\<lparr>u_name := fst x\<rparr>)"

definition added_group :: "user_map_service \<Rightarrow> string \<times> host_group \<Rightarrow> group" where
  "added_group s x = update_group s (snd x) (Group_default\<lparr>g_name := fst x\<rparr>)"

text \<open>
  What is on disk and what the host says: \<open>host_users\<close> and \<open>host_groups\<close> are the lists
  \<open>server_load_host_users\<close> gives, the owner of the server first; it takes them from the host as they
  are, two names with one id included. \<open>passwd_file\<close> and \<open>group_file\<close> are the contents of the
  old files (\<open>None\<close>: they cannot be opened), the two flags say whether the new ones can be. The
  order in which an \<open>unordered_map\<close> is traversed is a parameter.
\<close>

record setup_env =
  host_users :: "host_user list"
  host_groups :: "host_group list"
  passwd_file :: "string option"
  group_file :: "string option"
  passwd_writable :: bool
  group_writable :: bool
  users_order :: "host_user name_map \<Rightarrow> host_user name_map"
  groups_order :: "host_group name_map \<Rightarrow> host_group name_map"

definition setup_service :: "setup_env \<Rightarrow> user_map_service" where
  "setup_service e =
    register_groups (sort_key hg_gid (tl (host_groups e)))
      (register_users (sort_key hu_uid (tl (host_users e)))
        (RegisterGid (hg_gid (hd (host_groups e))) 0
          (RegisterUid (hu_uid (hd (host_users e))) 0 user_map_init)))"

definition new_users :: "setup_env \<Rightarrow> user_map_service \<Rightarrow> user list \<Rightarrow> user list" where
  "new_users e s us =
    (let root = hu_name (hd (host_users e));
         m = by_name hu_name (sort_key hu_uid (tl (host_users e)));
         (vs, m', seen) = merge_users s root m us
     in vs @ map (added_user s) (users_order e m') @
        (if seen then [] else [User_default\<lparr>u_name := root, u_uid := 0, u_gid := 0\<rparr>]))"

definition new_groups :: "setup_env \<Rightarrow> user_map_service \<Rightarrow> group list \<Rightarrow> group list" where
  "new_groups e s gs =
    (let root = hg_name (hd (host_groups e));
         m = by_name hg_name (sort_key hg_gid (tl (host_groups e)));
         (vs, m', seen) = merge_groups s root m gs
     in vs @ map (added_group s) (groups_order e m') @
        (if seen then [] else [Group_default\<lparr>g_name := root, g_gid := 0, g_users := [root]\<rparr>]))"

definition file_of :: "('a \<Rightarrow> string) \<Rightarrow> 'a list \<Rightarrow> string" where
  "file_of f xs = concat (map (\<lambda>x. f x @ [CHR 0x0A]) xs)"

text \<open>
  The result, the service, and the contents written to the two files. \<open>None\<close>: no host user or
  group is given (an assertion), or a line of a file does not parse (an exception).
\<close>

definition server_setup_usermap ::
    "setup_env \<Rightarrow> (bool \<times> user_map_service \<times> string option \<times> string option) option" where
  "server_setup_usermap e =
    (if host_users e = [] \<or> host_groups e = [] then None
     else
       (let s = setup_service e
        in case (parse_file User_new (case passwd_file e of None \<Rightarrow> '''' | Some x \<Rightarrow> x),
                 parse_file Group_new (case group_file e of None \<Rightarrow> '''' | Some x \<Rightarrow> x)) of
             (Some us, Some gs) \<Rightarrow>
               if \<not> passwd_writable e then Some (False, s, None, None)
               else
                 (let passwd = file_of User_ToString (new_users e s us)
                  in if \<not> group_writable e then Some (False, s, Some passwd, None)
                     else Some (True, s, Some passwd, Some (file_of Group_ToString (new_groups e s gs))))
           | _ \<Rightarrow> None))"

definition call_uid_for :: "user_map_service \<Rightarrow> int \<Rightarrow> int" where "call_uid_for s x = GetUid s x"
definition call_gid_for :: "user_map_service \<Rightarrow> int \<Rightarrow> int" where "call_gid_for s x = GetGid s x"
definition call_hostuid_for :: "user_map_service \<Rightarrow> int \<Rightarrow> int" where
  "call_hostuid_for s x = GetHostUid s x"
definition call_hostgid_for :: "user_map_service \<Rightarrow> int \<Rightarrow> int" where
  "call_hostgid_for s x = GetHostGid s x"

section \<open>Reading back what was written\<close>

lemma of_char_digit: "k < 10 \<Longrightarrow> (of_char (char_of (48 + k :: nat)) :: nat) = 48 + k"
  by (simp add: of_char_of)

lemma of_char_digit_int: "k < 10 \<Longrightarrow> (of_char (char_of (48 + k :: nat)) :: int) = 48 + int k"
  by (metis of_char_digit of_nat_add of_nat_numeral of_nat_of_char)

lemma digits_val_snoc: "digits_val (ds @ [c]) = 10 * digits_val ds + (of_char c - 48)"
  by (simp add: digits_val_def)

lemma nat_digits_props:
  "nat_digits n \<noteq> [] \<and> (\<forall>c\<in>set (nat_digits n). is_digit c) \<and> digits_val (nat_digits n) = int n"
proof (induction n rule: nat_digits.induct)
  case (1 n)
  have d: "is_digit (char_of (48 + n mod 10))" by (simp add: is_digit_def of_char_digit)
  show ?case
  proof (cases "n < 10")
    case True
    then have "nat_digits n = [char_of (48 + n)]" by (subst nat_digits.simps) simp
    then show ?thesis
      using True by (simp add: is_digit_def of_char_digit digits_val_def of_char_digit_int)
  next
    case False
    then have "nat_digits n = nat_digits (n div 10) @ [char_of (48 + n mod 10)]"
      by (subst nat_digits.simps) simp
    moreover have "10 * int (n div 10) + int (n mod 10) = int n" by presburger
    ultimately show ?thesis
      using 1 [OF False] d by (auto simp: digits_val_snoc of_char_digit_int)
  qed
qed

lemma digit_not:
  assumes "is_digit c"
  shows "\<not> is_space c" "c \<noteq> CHR ''-''" "c \<noteq> CHR ''+''" "c \<noteq> CHR '':''" "c \<noteq> CHR 0x0A" "c \<noteq> CHR '',''"
  using assms by (auto simp: is_digit_def is_space_def)

lemma stoi_to_string:
  assumes "is_int32 x"
  shows "stoi (to_string x) = Some x"
proof -
  let ?ds = "nat_digits (nat \<bar>x\<bar>)"
  note ds = nat_digits_props [of "nat \<bar>x\<bar>"]
  obtain c cs where c: "?ds = c # cs" "is_digit c" using ds by (cases ?ds) auto
  have "takeWhile is_digit ?ds = ?ds" using ds by (simp add: takeWhile_eq_all_conv)
  then have digits: "takeWhile is_digit (c # cs) = c # cs" "digits_val (c # cs) = \<bar>x\<bar>"
    using ds unfolding c(1) by simp_all
  have drop: "dropWhile is_space (c # cs) = c # cs" using digit_not(1) [OF c(2)] by simp
  have minus: "\<not> is_space (CHR ''-'')" by (simp add: is_space_def)
  show ?thesis
  proof (cases "x < 0")
    case True
    then have "to_string x = CHR ''-'' # c # cs" using c(1) by (simp add: to_string_def)
    then show ?thesis using minus assms True by (simp add: stoi_def Let_def digits del: takeWhile.simps)
  next
    case False
    then have "to_string x = c # cs" using c(1) by (simp add: to_string_def)
    then show ?thesis
      using digit_not(2,3) [OF c(2)] assms False
      by (simp add: stoi_def Let_def digits drop del: takeWhile.simps dropWhile.simps)
  qed
qed

lemma to_string_plain:
  "CHR '':'' \<notin> set (to_string x)" "CHR 0x0A \<notin> set (to_string x)"
  using nat_digits_props [of "nat x"] nat_digits_props [of "nat (- x)"] digit_not(4,5)
  by (auto simp: to_string_def)

lemma cut_at:
  "d \<notin> set t \<Longrightarrow> takeWhile (\<lambda>c. c \<noteq> d) (t @ d # rest) = t"
  "d \<notin> set t \<Longrightarrow> dropWhile (\<lambda>c. c \<noteq> d) (t @ d # rest) = d # rest"
  "d \<notin> set t \<Longrightarrow> dropWhile (\<lambda>c. c \<noteq> d) t = []"
  by (induction t) auto

lemma getline_field: "d \<notin> set t \<Longrightarrow> getline d (t @ d # rest, False) token = (t, rest, False)"
  by (simp only: getline_def cut_at fst_conv snd_conv list.case if_False not_False_eq_True)

lemma getline_last: "d \<notin> set t \<Longrightarrow> getline d (t, False) token = (t, [], True)"
  by (simp only: getline_def cut_at fst_conv snd_conv list.case if_False not_False_eq_True)

lemma pieces_join:
  "\<forall>x\<in>set xs. d \<notin> set x \<Longrightarrow> pieces d (concat (map (\<lambda>x. x @ [d]) xs)) = xs"
proof (induction xs)
  case (Cons x xs)
  then have "d \<notin> set x" by simp
  then show ?case using Cons by (subst pieces.simps) (simp add: cut_at(1,2))
qed (simp add: pieces.simps)

text \<open>Fields that the format can carry.\<close>

definition plain_field :: "string \<Rightarrow> bool" where
  "plain_field t \<longleftrightarrow> CHR '':'' \<notin> set t \<and> CHR 0x0A \<notin> set t"

definition plain_user :: "user \<Rightarrow> bool" where
  "plain_user u \<longleftrightarrow> is_int32 (u_uid u) \<and> is_int32 (u_gid u) \<and>
     list_all plain_field [u_name u, u_passwordHash u, u_info u, u_homeDir u, u_shell u]"

definition plain_group :: "group \<Rightarrow> bool" where
  "plain_group g \<longleftrightarrow> is_int32 (g_gid g) \<and> plain_field (g_name g) \<and> plain_field (g_passwordHash g) \<and>
     list_all (\<lambda>t. plain_field t \<and> CHR '','' \<notin> set t) (g_users g)"

lemma User_new_ToString: "plain_user u \<Longrightarrow> User_new (User_ToString u) = Some u"
  by (simp add: User_new_def User_ToString_def plain_user_def plain_field_def numeral_nat Let_def
      getline_field getline_last to_string_plain stoi_to_string)

lemma Group_new_ToString: "plain_group g \<Longrightarrow> Group_new (Group_ToString g) = Some g"
proof -
  assume g: "plain_group g"
  let ?users = "concat (map (\<lambda>u. u @ '','') (g_users g))"
  have "CHR '':'' \<notin> set ?users" using g by (auto simp: plain_group_def plain_field_def list_all_iff)
  moreover have "pieces (CHR '','') ?users = g_users g"
    using g by (intro pieces_join) (simp add: plain_group_def list_all_iff)
  ultimately show ?thesis
    using g by (simp add: Group_new_def Group_ToString_def plain_group_def plain_field_def numeral_nat
        Let_def getline_field getline_last to_string_plain stoi_to_string)
qed

lemma parse_file_of:
  assumes "\<forall>x\<in>set xs. parse (f x) = Some x \<and> CHR 0x0A \<notin> set (f x)"
  shows "parse_file parse (file_of f xs) = Some xs"
proof -
  have "pieces (CHR 0x0A) (file_of f xs) = map f xs"
    using pieces_join [of "map f xs" "CHR 0x0A"] assms by (simp add: file_of_def comp_def)
  moreover have "those (map (parse \<circ> f) xs) = Some xs" using assms by (induction xs) auto
  ultimately show ?thesis by (simp add: parse_file_def)
qed

text \<open>
  C33: the passwd and group files round-trip. Users and groups whose fields hold no separator and
  no line break and whose ids fit an \<open>int\<close> are read back from the files written for them exactly,
  in order, empty fields and empty member lists included.
\<close>

theorem user_files_roundtrip:
  assumes "list_all plain_user us" and "list_all plain_group gs"
  shows "parse_file User_new (file_of User_ToString us) = Some us \<and>
    parse_file Group_new (file_of Group_ToString gs) = Some gs"
proof -
  have "\<forall>u\<in>set us. User_new (User_ToString u) = Some u \<and> CHR 0x0A \<notin> set (User_ToString u)"
    using assms(1) by (simp add: list_all_iff User_new_ToString)
      (simp add: plain_user_def plain_field_def User_ToString_def to_string_plain)
  moreover have "\<forall>g\<in>set gs. Group_new (Group_ToString g) = Some g \<and> CHR 0x0A \<notin> set (Group_ToString g)"
    using assms(2) by (simp add: list_all_iff Group_new_ToString)
      (auto simp: plain_group_def plain_field_def Group_ToString_def to_string_plain list_all_iff)
  ultimately show ?thesis by (simp add: parse_file_of)
qed

theorem user_files_roundtrip_witness:
  "parse_file User_new (file_of User_ToString [User_default\<lparr>u_name := ''user'', u_uid := 2000\<rparr>]) =
     Some [User_default\<lparr>u_name := ''user'', u_uid := 2000\<rparr>] \<and>
   parse_file Group_new (file_of Group_ToString [Group_default\<lparr>g_name := ''root'', g_users := [''user'']\<rparr>]) =
     Some [Group_default\<lparr>g_name := ''root'', g_users := [''user'']\<rparr>]"
  by (rule user_files_roundtrip)
    (simp_all add: plain_user_def plain_group_def plain_field_def User_default_def Group_default_def
      is_int32_def)

section \<open>Start-up\<close>

lemma group_registration_keeps_uids:
  "uidMap (register_groups gs s) = uidMap s \<and> uidReverseMap (register_groups gs s) = uidReverseMap s"
proof -
  have "uidMap (foldl (\<lambda>s (i, g). RegisterGid (hg_gid g) (f i) s) s xs) = uidMap s \<and>
      uidReverseMap (foldl (\<lambda>s (i, g). RegisterGid (hg_gid g) (f i) s) s xs) = uidReverseMap s" for f xs
    by (induction xs arbitrary: s) (auto simp: RegisterGid_def)
  then show ?thesis by (simp add: register_groups_def)
qed

lemma user_registration_keeps_gids:
  "gidMap (register_users us s) = gidMap s \<and> gidReverseMap (register_users us s) = gidReverseMap s"
proof -
  have "gidMap (foldl (\<lambda>s (i, u). RegisterUid (hu_uid u) (f i) s) s xs) = gidMap s \<and>
      gidReverseMap (foldl (\<lambda>s (i, u). RegisterUid (hu_uid u) (f i) s) s xs) = gidReverseMap s" for f xs
    by (induction xs arbitrary: s) (auto simp: RegisterUid_def)
  then show ?thesis by (simp add: register_users_def)
qed

text \<open>Both registrations put pairs into a map and its reverse; one lemma covers them.\<close>

definition put_pairs :: "(nat \<times> int) list \<Rightarrow> (int \<rightharpoonup> int) \<times> (int \<rightharpoonup> int) \<Rightarrow> (int \<rightharpoonup> int) \<times> (int \<rightharpoonup> int)" where
  "put_pairs xs mm =
    foldl (\<lambda>(m, r) (i, x). (m(x \<mapsto> to_int32 (2000 + int i)), r(to_int32 (2000 + int i) \<mapsto> x))) mm xs"

lemma register_users_pairs:
  "(uidMap (register_users us s), uidReverseMap (register_users us s)) =
    put_pairs (enumerate 0 (map hu_uid us)) (uidMap s, uidReverseMap s)"
proof -
  have "(uidMap (foldl (\<lambda>s (i, u). RegisterUid (hu_uid u) (to_int32 (HYCLONE_MIN_HOST_UID + int i)) s) s
        (enumerate k us)),
      uidReverseMap (foldl (\<lambda>s (i, u). RegisterUid (hu_uid u) (to_int32 (HYCLONE_MIN_HOST_UID + int i)) s) s
        (enumerate k us))) =
      put_pairs (enumerate k (map hu_uid us)) (uidMap s, uidReverseMap s)" for k
    by (induction us arbitrary: s k)
      (simp_all add: put_pairs_def RegisterUid_def HYCLONE_MIN_HOST_UID_def)
  then show ?thesis by (simp add: register_users_def)
qed

lemma register_groups_pairs:
  "(gidMap (register_groups gs s), gidReverseMap (register_groups gs s)) =
    put_pairs (enumerate 0 (map hg_gid gs)) (gidMap s, gidReverseMap s)"
proof -
  have "(gidMap (foldl (\<lambda>s (i, g). RegisterGid (hg_gid g) (to_int32 (HYCLONE_MIN_HOST_GID + int i)) s) s
        (enumerate k gs)),
      gidReverseMap (foldl (\<lambda>s (i, g). RegisterGid (hg_gid g) (to_int32 (HYCLONE_MIN_HOST_GID + int i)) s) s
        (enumerate k gs))) =
      put_pairs (enumerate k (map hg_gid gs)) (gidMap s, gidReverseMap s)" for k
    by (induction gs arbitrary: s k)
      (simp_all add: put_pairs_def RegisterGid_def HYCLONE_MIN_HOST_GID_def)
  then show ?thesis by (simp add: register_groups_def)
qed

lemma put_pairs_spec:
  assumes "distinct xs" and "int (k + length xs) \<le> 2 ^ 31 - 2000"
    and "put_pairs (enumerate k xs) (m, r) = (m', r')"
  shows "(\<forall>x. x \<notin> set xs \<longrightarrow> m' x = m x) \<and> (\<forall>y<2000 + int k. r' y = r y) \<and>
    (\<forall>x\<in>set xs. \<exists>y\<ge>2000 + int k. m' x = Some y \<and> r' y = Some x)"
  using assms
proof (induction xs arbitrary: k m r)
  case (Cons x xs)
  let ?y = "2000 + int k"
  have y: "to_int32 ?y = ?y" using Cons.prems(2) by (simp add: is_int32_def)
  have run: "put_pairs (enumerate (Suc k) xs) (m(x \<mapsto> ?y), r(?y \<mapsto> x)) = (m', r')"
    using Cons.prems(3) y by (simp add: put_pairs_def)
  have IH: "\<forall>z. z \<notin> set xs \<longrightarrow> m' z = (m(x \<mapsto> ?y)) z" "\<forall>z<2000 + int (Suc k). r' z = (r(?y \<mapsto> x)) z"
    "\<forall>z\<in>set xs. \<exists>y\<ge>2000 + int (Suc k). m' z = Some y \<and> r' y = Some z"
    using Cons.IH [OF _ _ run] Cons.prems(1,2) by simp_all
  have "m' x = Some ?y" "r' ?y = Some x" using IH(1,2) Cons.prems(1) by simp_all
  moreover have "\<exists>y\<ge>?y. m' z = Some y \<and> r' y = Some z" if z: "z \<in> set xs" for z
  proof -
    obtain y where "y \<ge> 2000 + int (Suc k)" "m' z = Some y" "r' y = Some z" using IH(3) z by blast
    then show ?thesis by (intro exI [of _ y]) simp
  qed
  ultimately show ?case using IH(1,2) by auto
qed (simp add: put_pairs_def)

lemma pairs_after_owner:
  assumes "distinct (map f xs)" and "xs \<noteq> []" and "int (length xs) \<le> 2 ^ 31 - 2000"
    and "put_pairs (enumerate 0 (map f (sort_key g (tl xs))))
      (Map.empty(f (hd xs) \<mapsto> 0), Map.empty(0 \<mapsto> f (hd xs))) = (m, r)"
  shows "m (f (hd xs)) = Some 0 \<and> r 0 = Some (f (hd xs)) \<and>
    (\<forall>x\<in>set (tl xs). \<exists>y\<ge>2000. m (f x) = Some y \<and> r y = Some (f x))"
proof -
  obtain a ys where xs: "xs = a # ys" using assms(2) by (cases xs) auto
  have "distinct (map f (sort_key g ys))" using assms(1) xs by (simp add: distinct_map)
  from put_pairs_spec [OF this _ assms(4) [unfolded xs list.sel]]
  show ?thesis using assms(1,3) xs by (auto simp: Ball_def)
qed

lemma setup_pairs:
  assumes "host_users e \<noteq> []" "host_groups e \<noteq> []"
  shows "put_pairs (enumerate 0 (map hu_uid (sort_key hu_uid (tl (host_users e)))))
      (Map.empty(hu_uid (hd (host_users e)) \<mapsto> 0), Map.empty(0 \<mapsto> hu_uid (hd (host_users e))))
      = (uidMap (setup_service e), uidReverseMap (setup_service e))"
    "put_pairs (enumerate 0 (map hg_gid (sort_key hg_gid (tl (host_groups e)))))
      (Map.empty(hg_gid (hd (host_groups e)) \<mapsto> 0), Map.empty(0 \<mapsto> hg_gid (hd (host_groups e))))
      = (gidMap (setup_service e), gidReverseMap (setup_service e))"
  using register_users_pairs [of "sort_key hu_uid (tl (host_users e))"]
    register_groups_pairs [of "sort_key hg_gid (tl (host_groups e))"]
  unfolding setup_service_def
  by (simp_all add: group_registration_keeps_uids user_registration_keeps_gids RegisterUid_def
      RegisterGid_def user_map_init_def)

text \<open>
  C34: the ids of host users and groups survive the translation, when the host gives every user an
  id of its own and every group too, not more than the guest's ids can count. After a start-up that
  comes to an end the owner of the server is user and group 0, every other host user and group has
  an id from 2000 on, and translating a host id to a guest id and back gives the host id again.
\<close>

theorem setup_maps_host_ids:
  assumes "server_setup_usermap e = Some (ok, s, passwd, grp)"
    and "distinct (map hu_uid (host_users e))" and "int (length (host_users e)) \<le> 2 ^ 31 - 2000"
    and "distinct (map hg_gid (host_groups e))" and "int (length (host_groups e)) \<le> 2 ^ 31 - 2000"
  shows "GetUid s (hu_uid (hd (host_users e))) = 0 \<and> GetGid s (hg_gid (hd (host_groups e))) = 0 \<and>
    (\<forall>h\<in>set (tl (host_users e)). 2000 \<le> GetUid s (hu_uid h)) \<and>
    (\<forall>g\<in>set (tl (host_groups e)). 2000 \<le> GetGid s (hg_gid g)) \<and>
    (\<forall>h\<in>set (host_users e). GetHostUid s (GetUid s (hu_uid h)) = hu_uid h) \<and>
    (\<forall>g\<in>set (host_groups e). GetHostGid s (GetGid s (hg_gid g)) = hg_gid g)"
proof -
  have ne: "host_users e \<noteq> []" "host_groups e \<noteq> []" and s: "s = setup_service e"
    using assms(1) by (auto simp: server_setup_usermap_def Let_def split: if_splits option.splits)
  note U = pairs_after_owner [OF assms(2) ne(1) assms(3) setup_pairs(1) [OF ne], folded s]
  note G = pairs_after_owner [OF assms(4) ne(2) assms(5) setup_pairs(2) [OF ne], folded s]
  have hd_or_tl: "x \<in> set xs \<Longrightarrow> x = hd xs \<or> x \<in> set (tl xs)" for x and xs :: "'z list" by (cases xs) auto
  have "GetHostUid s (GetUid s (hu_uid h)) = hu_uid h" if "h \<in> set (host_users e)" for h
    using hd_or_tl [OF that] U by (fastforce simp: GetHostUid_def GetUid_def)
  moreover have "GetHostGid s (GetGid s (hg_gid h)) = hg_gid h" if "h \<in> set (host_groups e)" for h
    using hd_or_tl [OF that] G by (fastforce simp: GetHostGid_def GetGid_def)
  moreover have "2000 \<le> GetUid s (hu_uid h)" if "h \<in> set (tl (host_users e))" for h
    using that U by (fastforce simp: GetUid_def)
  moreover have "2000 \<le> GetGid s (hg_gid h)" if "h \<in> set (tl (host_groups e))" for h
    using that G by (fastforce simp: GetGid_def)
  ultimately show ?thesis using U G by (simp add: GetUid_def GetGid_def)
qed

text \<open>
  Nothing makes the ids of the host distinct: a second name for the owner's user id, as some systems
  have for root, is registered after the owner and takes the id 0 away from it.
\<close>

lemma second_name_takes_owner_id:
  assumes "host_users e = [owner, v]" and "hu_uid v = hu_uid owner"
  shows "GetUid (setup_service e) (hu_uid owner) = 2000"
proof -
  have "to_int32 2000 = 2000" by code_simp
  then show ?thesis
    using assms by (simp add: setup_service_def group_registration_keeps_uids register_users_def
        RegisterUid_def GetUid_def HYCLONE_MIN_HOST_UID_def)
qed

lemma by_name_distinct: "distinct (map fst (by_name nm xs))"
  by (induction xs rule: rev_induct) (simp_all add: by_name_def AList.distinct_update)

lemma by_name_iff:
  "distinct (map nm xs) \<Longrightarrow> map_of (by_name nm xs) k = Some x \<longleftrightarrow> x \<in> set xs \<and> nm x = k"
proof (induction xs rule: rev_induct)
  case (snoc y xs)
  then have "map_of (by_name nm (xs @ [y])) = (map_of (by_name nm xs))(nm y \<mapsto> y)"
    by (simp add: by_name_def AList.update_conv')
  then show ?case using snoc by auto (metis imageI)+
qed (simp add: by_name_def)

definition merged :: "user_map_service \<Rightarrow> string \<Rightarrow> host_user name_map \<Rightarrow> user list \<Rightarrow>
    host_user name_map \<Rightarrow> bool \<Rightarrow> bool" where
  "merged s root m vs m' seen \<longleftrightarrow>
    distinct (map fst m') \<and>
    (\<forall>k h. map_of m' k = Some h \<longrightarrow> map_of m k = Some h) \<and>
    (\<forall>k h. map_of m k = Some h \<longrightarrow> map_of m' k = Some h \<or>
       (\<exists>v\<in>set vs. u_name v = k \<and> u_uid v = GetUid s (hu_uid h) \<and> u_gid v = GetGid s (hu_gid h))) \<and>
    (\<forall>v\<in>set vs. u_uid v = 0 \<and> u_name v = root \<or> u_uid v \<noteq> 0 \<and> u_uid v < 2000 \<or>
       (\<exists>h. map_of m (u_name v) = Some h \<and> u_uid v = GetUid s (hu_uid h))) \<and>
    (seen \<longrightarrow> (\<exists>v\<in>set vs. u_uid v = 0))"

lemma merged_root:
  "merged s root m vs m' x \<Longrightarrow> u_uid v = 0 \<Longrightarrow> u_name v = root \<Longrightarrow> merged s root m (v # vs) m' True"
  unfolding merged_def list.set by blast

lemma merged_low:
  "merged s root m vs m' seen \<Longrightarrow> u_uid v \<noteq> 0 \<Longrightarrow> u_uid v < 2000 \<Longrightarrow> merged s root m (v # vs) m' seen"
  unfolding merged_def list.set by blast

lemma merged_update:
  assumes "merged s root (AList.delete (u_name u) m) vs m' seen" "map_of m (u_name u) = Some h"
  shows "merged s root m (update_user s h u # vs) m' seen"
proof -
  have new: "u_name (update_user s h u) = u_name u" "u_uid (update_user s h u) = GetUid s (hu_uid h)"
    "u_gid (update_user s h u) = GetGid s (hu_gid h)" by (simp_all add: update_user_def)
  have "map_of (AList.delete (u_name u) m) k = Some g \<longleftrightarrow> map_of m k = Some g \<and> k \<noteq> u_name u" for k g
    by (auto simp: AList.delete_conv')
  note del = assms(1) [unfolded merged_def this]
  show ?thesis
    unfolding merged_def list.set
  proof (intro conjI allI impI ballI)
    show "map_of m' k = Some g \<or> (\<exists>v\<in>insert (update_user s h u) (set vs). u_name v = k \<and>
        u_uid v = GetUid s (hu_uid g) \<and> u_gid v = GetGid s (hu_gid g))"
      if "map_of m k = Some g" for k g
    proof (cases "k = u_name u")
      case True
      then show ?thesis using that new assms(2) by simp
    next
      case False
      then show ?thesis using that del by blast
    qed
    show "u_uid v = 0 \<and> u_name v = root \<or> u_uid v \<noteq> 0 \<and> u_uid v < 2000 \<or>
        (\<exists>g. map_of m (u_name v) = Some g \<and> u_uid v = GetUid s (hu_uid g))"
      if v: "v \<in> insert (update_user s h u) (set vs)" for v
    proof (cases "v = update_user s h u")
      case True
      then show ?thesis using new assms(2) by simp
    next
      case False
      then have "v \<in> set vs" using v by simp
      then show ?thesis using del by blast
    qed
  qed (use del in blast)+
qed

lemma merge_users_spec:
  "merge_users s root m us = (vs, m', seen) \<Longrightarrow> distinct (map fst m) \<Longrightarrow> merged s root m vs m' seen"
proof (induction s root m us arbitrary: vs m' seen rule: merge_users.induct)
  case (2 s root m u us)
  consider "u_uid u = 0" | "u_uid u \<noteq> 0" "u_uid u < HYCLONE_MIN_HOST_UID"
    | (none) "u_uid u \<noteq> 0" "\<not> u_uid u < HYCLONE_MIN_HOST_UID" "map_of m (u_name u) = None"
    | (some) h where "u_uid u \<noteq> 0" "\<not> u_uid u < HYCLONE_MIN_HOST_UID" "map_of m (u_name u) = Some h"
    by fastforce
  then show ?case
  proof cases
    case 1
    then show ?thesis
      using "2.prems" "2.IH"(1) [OF 1] by (auto split: prod.splits intro: merged_root)
  next
    case 2
    then show ?thesis
      using "2.prems" "2.IH"(2) [OF 2]
      by (auto split: prod.splits intro: merged_low simp: HYCLONE_MIN_HOST_UID_def)
  next
    case none
    then show ?thesis using "2.prems" "2.IH"(3) [OF none] by simp
  next
    case some
    obtain ws where ws: "merge_users s root (AList.delete (u_name u) m) us = (ws, m', seen)"
      "vs = update_user s h u # ws"
      using "2.prems" some by (auto split: prod.splits)
    show ?thesis
      unfolding ws(2) using "2.IH"(4) [OF some ws(1) AList.distinct_delete [OF "2.prems"(2)]] some(3)
      by (rule merged_update)
  qed
qed (simp add: merged_def)

text \<open>
  What start-up writes to the passwd file. Entries for id 0 carry the owner's name and there
  is one; every other host user is listed under its name with the guest ids of the map; and an
  entry with an id from 2000 on is the entry of a present host user, so users that are gone from
  the host are gone from the file.
\<close>

theorem setup_lists_host_users:
  assumes "server_setup_usermap e = Some (ok, s, Some passwd, grp)"
    and "distinct (map hu_uid (host_users e))" and "int (length (host_users e)) \<le> 2 ^ 31 - 2000"
    and "distinct (map hu_name (tl (host_users e)))"
    and "\<forall>m. set (users_order e m) = set m"
  shows "\<exists>us. passwd = file_of User_ToString us \<and>
    (\<exists>u\<in>set us. u_uid u = 0) \<and> (\<forall>u\<in>set us. u_uid u = 0 \<longrightarrow> u_name u = hu_name (hd (host_users e))) \<and>
    (\<forall>h\<in>set (tl (host_users e)). \<exists>u\<in>set us. u_name u = hu_name h \<and>
       u_uid u = GetUid s (hu_uid h) \<and> u_gid u = GetGid s (hu_gid h)) \<and>
    (\<forall>u\<in>set us. 2000 \<le> u_uid u \<longrightarrow>
       (\<exists>h\<in>set (tl (host_users e)). u_name u = hu_name h \<and> u_uid u = GetUid s (hu_uid h)))"
proof -
  let ?hs = "sort_key hu_uid (tl (host_users e))" and ?root = "hu_name (hd (host_users e))"
  obtain us where ne: "host_users e \<noteq> []" "host_groups e \<noteq> []" and s: "s = setup_service e"
    and passwd: "passwd = file_of User_ToString (new_users e s us)"
    using assms(1) by (auto simp: server_setup_usermap_def Let_def split: if_splits option.splits)
  obtain vs m' seen where merge: "merge_users s ?root (by_name hu_name ?hs) us = (vs, m', seen)"
    by (cases "merge_users s ?root (by_name hu_name ?hs) us")
  have "distinct (map hu_name ?hs)" using assms(4) by (simp add: distinct_map)
  from by_name_iff [OF this]
  have m: "map_of (by_name hu_name ?hs) k = Some h \<longleftrightarrow> h \<in> set (tl (host_users e)) \<and> hu_name h = k" for k h by simp
  note M = merge_users_spec [OF merge by_name_distinct, unfolded merged_def m]
  let ?added = "map (added_user s) (users_order e m')"
    and ?rest = "if seen then [] else [User_default\<lparr>u_name := ?root, u_uid := 0, u_gid := 0\<rparr>]"
  have news: "new_users e s us = vs @ ?added @ ?rest" by (simp add: new_users_def merge)
  have added: "v \<in> set ?added \<longleftrightarrow> (\<exists>k h. map_of m' k = Some h \<and> v = added_user s (k, h))" for v
    using assms(5) M by (auto simp: map_of_eq_Some_iff)
  have fields: "u_name (added_user s (k, h)) = k" "u_uid (added_user s (k, h)) = GetUid s (hu_uid h)"
    "u_gid (added_user s (k, h)) = GetGid s (hu_gid h)" for k h
    by (simp_all add: added_user_def update_user_def)
  have big: "2000 \<le> GetUid s (hu_uid h)" if "h \<in> set (tl (host_users e))" for h
    using that pairs_after_owner [OF assms(2) ne(1) assms(3) setup_pairs(1) [OF ne], folded s]
    by (fastforce simp: GetUid_def)
  have listed: "\<exists>u\<in>set (vs @ ?added @ ?rest). u_name u = hu_name h \<and>
       u_uid u = GetUid s (hu_uid h) \<and> u_gid u = GetGid s (hu_gid h)"
    if h: "h \<in> set (tl (host_users e))" for h
  proof (cases "map_of m' (hu_name h) = Some h")
    case True
    then have "added_user s (hu_name h, h) \<in> set ?added" using added by blast
    then show ?thesis using fields by (intro bexI [of _ "added_user s (hu_name h, h)"]) auto
  next
    case False
    then show ?thesis using M h by auto
  qed
  have known: "u_uid u = 0 \<and> u_name u = ?root \<or> u_uid u \<noteq> 0 \<and> u_uid u < 2000 \<or>
      2000 \<le> u_uid u \<and> (\<exists>h\<in>set (tl (host_users e)). u_name u = hu_name h \<and> u_uid u = GetUid s (hu_uid h))"
    if u: "u \<in> set (vs @ ?added @ ?rest)" for u
  proof -
    consider "u \<in> set vs" | k h where "map_of m' k = Some h" "u = added_user s (k, h)" | "u \<in> set ?rest"
      using u added [of u] unfolding set_append Un_iff by blast
    then show ?thesis
    proof cases
      case 1
      then have "u_uid u = 0 \<and> u_name u = ?root \<or> u_uid u \<noteq> 0 \<and> u_uid u < 2000 \<or>
          (\<exists>h. (h \<in> set (tl (host_users e)) \<and> hu_name h = u_name u) \<and> u_uid u = GetUid s (hu_uid h))"
        using M by blast
      then show ?thesis using big by fastforce
    next
      case (2 k h)
      then have "h \<in> set (tl (host_users e)) \<and> hu_name h = k" using M by blast
      then show ?thesis using big [of h] fields [of k h] 2(2) by auto
    qed (auto split: if_splits)
  qed
  have "\<exists>u\<in>set (vs @ ?added @ ?rest). u_uid u = 0" using M by (cases seen) auto
  then show ?thesis
    unfolding passwd news
  proof (intro exI [of _ "vs @ ?added @ ?rest"] conjI refl ballI impI)
    show "u_name u = ?root" if "u \<in> set (vs @ ?added @ ?rest)" "u_uid u = 0" for u
      using known [OF that(1)] that(2) by linarith
    show "\<exists>h\<in>set (tl (host_users e)). u_name u = hu_name h \<and> u_uid u = GetUid s (hu_uid h)"
      if "u \<in> set (vs @ ?added @ ?rest)" "2000 \<le> u_uid u" for u
      using known [OF that(1)] that(2) by linarith
  qed (use listed in blast)+
qed

text \<open>A host with an owner and one more user and group, and no files yet.\<close>

definition sample_setup :: setup_env where
  "sample_setup =
    \<lparr>host_users = [\<lparr>hu_name = ''ada'', hu_uid = 1000, hu_gid = 1000\<rparr>, \<lparr>hu_name = ''bob'', hu_uid = 1001, hu_gid = 1001\<rparr>],
     host_groups = [\<lparr>hg_name = ''ada'', hg_gid = 1000, hg_users = []\<rparr>, \<lparr>hg_name = ''bob'', hg_gid = 1001, hg_users = []\<rparr>],
     passwd_file = None, group_file = None, passwd_writable = True, group_writable = True,
     users_order = (\<lambda>m. m), groups_order = (\<lambda>m. m)\<rparr>"

lemma sample_setup_runs:
  obtains s passwd grp where "server_setup_usermap sample_setup = Some (True, s, Some passwd, grp)"
proof -
  have "server_setup_usermap sample_setup \<noteq> None"
    by (simp add: server_setup_usermap_def sample_setup_def parse_file_def pieces.simps Let_def)
  then show ?thesis
    using that
    by (auto simp: server_setup_usermap_def sample_setup_def parse_file_def pieces.simps Let_def)
qed

theorem setup_maps_host_ids_witness:
  "\<exists>s passwd grp. server_setup_usermap sample_setup = Some (True, s, passwd, grp) \<and>
    GetUid s 1000 = 0 \<and> 2000 \<le> GetUid s 1001 \<and> GetHostUid s (GetUid s 1001) = 1001"
proof -
  obtain s passwd grp where run: "server_setup_usermap sample_setup = Some (True, s, Some passwd, grp)"
    by (rule sample_setup_runs)
  then show ?thesis using setup_maps_host_ids [OF run] by (simp add: sample_setup_def)
qed

theorem setup_lists_host_users_witness:
  "\<exists>s us grp. server_setup_usermap sample_setup = Some (True, s, Some (file_of User_ToString us), grp) \<and>
    list_ex (\<lambda>u. u_name u = ''bob'' \<and> u_uid u = GetUid s 1001) us"
proof -
  obtain s passwd grp where run: "server_setup_usermap sample_setup = Some (True, s, Some passwd, grp)"
    by (rule sample_setup_runs)
  then show ?thesis
    using setup_lists_host_users [OF run] by (auto simp: sample_setup_def list_ex_iff)
qed

end
