(* ===== verification/SystemCalls.thy ===== *)
theory SystemCalls
  imports SemCalls PortCalls RangeCalls UserMap
begin

text \<open>
  The calls of \<^verbatim>\<open>hyclone_server/system.cpp\<close>: a thread connects and disconnects, a team forks,
  and the scheduler mode. \<open>Process::Fork\<close> of \<^verbatim>\<open>hyclone_server/process.cpp\<close> is here because it
  works on the tables of the server. The address space of a forked team and the clean-up after a
  team's last thread are the subject of the lemmas.
\<close>

section \<open>Connecting\<close>

definition TEAM_ADDED :: int where "TEAM_ADDED = 1"
definition TEAM_REMOVED :: int where "TEAM_REMOVED = 2"
definition TEAM_EXEC :: int where "TEAM_EXEC = 4"
definition THREAD_ADDED :: int where "THREAD_ADDED = 1"
definition THREAD_REMOVED :: int where "THREAD_REMOVED = 2"

text \<open>
  \<open>env\<close> is what happens while the call waits for an exec of the team to end. The first step runs
  under the lock of the server: the connection, and the process if there is none yet.
\<close>

definition connect_process ::
    "user_map_service \<Rightarrow> hserver_context \<Rightarrow> int \<Rightarrow> int \<Rightarrow> int \<Rightarrow> int \<Rightarrow> int \<Rightarrow> int \<Rightarrow>
     world \<Rightarrow> ref \<times> bool \<times> world" where
  "connect_process um c pid tid uid gid euid egid w =
    (let w1 = System_RegisterConnection w (ctx_conn c)
                \<lparr>conn_pid = pid, conn_tid = tid, conn_isPrimary = True\<rparr>
     in case System_GetProcess w1 pid of
          Some p \<Rightarrow> (p, False, w1)
        | None \<Rightarrow>
            (let (p, w2) = System_RegisterProcess w1 pid (GetUid um uid) (GetGid um gid)
                             (GetUid um euid) (GetGid um egid)
             in (p, True, w2)))"

definition call_connect ::
    "user_map_service \<Rightarrow> (world \<Rightarrow> world) \<Rightarrow> hserver_context \<Rightarrow> int \<Rightarrow> int \<Rightarrow> int \<Rightarrow> int \<Rightarrow> int \<Rightarrow> int \<Rightarrow>
     world \<Rightarrow> int \<times> world" where
  "call_connect um env c pid tid uid gid euid egid w =
    (let (p, newly, w1) = connect_process um c pid tid uid gid euid egid w;
         w2 = (if newly then emit (TeamNotify TEAM_ADDED p) w1 else env w1);
         (t, w3) = System_RegisterThread w2 pid tid;
         w4 = emit (ThreadNotify THREAD_ADDED t) w3
     in (B_OK, upd_process p (\<lambda>x. Process_RegisterThread x tid t) w4))"

section \<open>Disconnecting\<close>

definition B_DEBUGGER_MESSAGE_TEAM_DELETED :: int where "B_DEBUGGER_MESSAGE_TEAM_DELETED = 10"

text \<open>
  The message to a debugger: a zeroed buffer of the size \<open>n\<close> of the message union, whose first
  fields are the thread, the team and the nub port of the origin.
\<close>

definition team_deleted_message :: "nat \<Rightarrow> int \<Rightarrow> port_message" where
  "team_deleted_message n pid =
    \<lparr>msg_data = le_bytes 4 (-1) @ le_bytes 4 pid @ le_bytes 4 (-1) @ replicate (n - 12) (CHR 0x00),
     msg_info = \<lparr>mi_size = int n, mi_sender = 0, mi_sender_group = 0, mi_sender_team = pid\<rparr>,
     msg_code = B_DEBUGGER_MESSAGE_TEAM_DELETED\<rparr>"

definition unregister_sems :: "int list \<Rightarrow> world \<Rightarrow> world" where
  "unregister_sems is w = foldl (\<lambda>v i. snd (System_UnregisterSemaphore v i)) w is"

fun unregister_ports :: "int list \<Rightarrow> world \<Rightarrow> world option" where
  "unregister_ports [] w = Some w"
| "unregister_ports (i # is) w =
    (case System_UnregisterPort w i of None \<Rightarrow> None | Some (_, w') \<Rightarrow> unregister_ports is w')"

definition unregister_areas :: "memory_host \<Rightarrow> ref \<Rightarrow> world \<Rightarrow> world option" where
  "unregister_areas mh p w =
    area_loop (\<lambda>i v. Some (snd (System_UnregisterArea mh v i))) (next_area_in p)
      (Suc (length (p_areas (processObjs w p)))) (-1) w"

text \<open>
  What happens when the last thread of a team goes. The semaphores of the team sit in an unordered
  set; the model takes them in ascending order. \<open>None\<close>: a port id outside of the table.
\<close>

definition end_team :: "memory_host \<Rightarrow> hserver_context \<Rightarrow> world \<Rightarrow> world option" where
  "end_team mh c w =
    (let p = ctx_process c;
         w1 = (if p_isExecutingExec (processObjs w p) then w
               else snd (System_UnregisterProcess w (ctx_pid c)));
         w2 = unregister_sems (p_owningSemaphores (processObjs w1 p)) w1;
         w3 = upd_process p (\<lambda>x. x\<lparr>p_owningSemaphores := []\<rparr>) w2
     in case unregister_ports (p_owningPorts (processObjs w3 p)) w3 of
          None \<Rightarrow> None
        | Some w4 \<Rightarrow>
            (let w5 = upd_process p (\<lambda>x. x\<lparr>p_owningPorts := []\<rparr>) w4
             in case unregister_areas mh p w5 of
                  None \<Rightarrow> None
                | Some w6 \<Rightarrow> Some (upd_process p (Process_ClearImages \<circ> Process_ClearAreas) w6)))"

definition end_debugging :: "nat \<Rightarrow> hserver_context \<Rightarrow> world \<Rightarrow> (port_message list \<times> world) option" where
  "end_debugging n c w =
    (let x = the_process c w; nub = ti_debugger_nub_port (p_info x)
     in if p_debuggerPort x \<noteq> -1 \<and> \<not> p_isExecutingExec x then
          (case (if nub \<noteq> -1 then map_option snd (System_UnregisterPort w nub) else Some w) of
             None \<Rightarrow> None
           | Some w' \<Rightarrow> Some ([team_deleted_message n (ctx_pid c)], w'))
        else Some ([], w))"

text \<open>The message is written while the debugger's write lock is held; both members can wait.\<close>

definition send_to_debugger ::
    "(world \<Rightarrow> world) \<Rightarrow> ref \<Rightarrow> ref \<Rightarrow> port_message list \<Rightarrow> world \<Rightarrow> world" where
  "send_to_debugger env prt sem ms w =
    (let w1 = snd (sem_Acquire env sem 1 w);
         w2 = foldl (\<lambda>v m. snd (port_Write env prt m B_INFINITE_TIMEOUT v)) w1 ms
     in upd_sem sem (\<lambda>s. Semaphore_Release s 1) w2)"

text \<open>
  The part under the lock of the server: the messages and the debugger's port and lock, and
  whether the team ended. The message for a deleted thread is built and dropped by the code, so it
  does not appear here.
\<close>

definition disconnect_locked ::
    "memory_host \<Rightarrow> nat \<Rightarrow> hserver_context \<Rightarrow> world \<Rightarrow>
     (port_message list \<times> ref option \<times> ref option \<times> int list \<times> int list \<times> world) option" where
  "disconnect_locked mh n c w =
    (let p = ctx_process c
     in if \<not> conn_isPrimary (System_GetThreadFromConnection w (ctx_conn c))
        then Some ([], None, None, [], [], System_UnregisterConnection w (ctx_conn c))
        else
          (let (left, x) = Process_UnregisterThread (processObjs w p) (ctx_tid c);
               w1 = upd_process p (\<lambda>_. x) w;
               exec = p_isExecutingExec x
           in case (if left \<noteq> 0 then Some ([], w1)
                    else case end_team mh c w1 of
                      None \<Rightarrow> None | Some w2 \<Rightarrow> end_debugging n c w2) of
                None \<Rightarrow> None
              | Some (ms, w3) \<Rightarrow>
                  (let w4 = snd (System_UnregisterThread w3 (ctx_tid c));
                       y = processObjs w4 p;
                       prt = (if ms = [] then None else System_GetPort w4 (p_debuggerPort y));
                       sem = (if ms = [] then None
                              else System_GetSemaphore w4 (p_debuggerWriteLock y));
                       w5 = (if left = 0 \<and> exec
                             then upd_process p (\<lambda>z. z\<lparr>p_isExecutingExec := False\<rparr>) w4 else w4)
                   in Some (ms, prt, sem,
                        (if left = 0 then [if exec then TEAM_EXEC else TEAM_REMOVED] else []),
                        [THREAD_REMOVED], System_UnregisterConnection w5 (ctx_conn c)))))"

definition call_disconnect ::
    "memory_host \<Rightarrow> nat \<Rightarrow> (world \<Rightarrow> world) \<Rightarrow> hserver_context \<Rightarrow> world \<Rightarrow> (int \<times> world) option" where
  "call_disconnect mh n env c w =
    (case disconnect_locked mh n c w of
       None \<Rightarrow> None
     | Some (ms, prt, sem, teamEvents, threadEvents, w1) \<Rightarrow>
         (let w2 = (case (prt, sem) of
                      (Some r, Some s) \<Rightarrow> if ms \<noteq> [] then send_to_debugger env r s ms w1 else w1
                    | _ \<Rightarrow> w1);
              w3 = (if teamEvents \<noteq> []
                    then emit (AudioCleanup (ctx_pid c)) (emit (MessagingUnregister (ctx_process c)) w2)
                    else w2);
              w4 = foldl (\<lambda>v e. emit (TeamNotify e (ctx_process c)) v) w3 teamEvents;
              w5 = foldl (\<lambda>v e. emit (ThreadNotify e (ctx_thread c)) v) w4 threadEvents
          in Some (B_OK, w5)))"

section \<open>Forking\<close>

text \<open>
  One area of the parent. The copy is private to the child; a file that is mapped privately is
  cloned, and when the clone cannot be made or opened the copy stays without a file.
\<close>

definition clone_file ::
    "memory_host \<Rightarrow> string \<Rightarrow> entry_ref \<Rightarrow> bool \<Rightarrow> memory_service \<Rightarrow> entry_ref option \<times> memory_service" where
  "clone_file mh name ref want_write ms =
    (case CloneSharedFile mh ms name ref of
       (None, ms1) \<Rightarrow> (None, ms1)
     | (Some hostPath, ms1) \<Rightarrow> OpenSharedFile_name mh ms1 hostPath want_write)"

definition fork_copy :: "int \<Rightarrow> area \<Rightarrow> area" where
  "fork_copy pid a =
    (let b = Area_Unshare a in b\<lparr>area_info := (area_info b)\<lparr>ai_team := pid\<rparr>\<rparr>)"

definition fork_area :: "memory_host \<Rightarrow> ref \<Rightarrow> ref \<Rightarrow> world \<Rightarrow> world option" where
  "fork_area mh child r w =
    (let r1 = nextRef w
     in case register_split child (fork_copy (p_pid (processObjs w child)) (areaObjs w r)) w of
          None \<Rightarrow> None
        | Some w1 \<Rightarrow>
            (let a = areaObjs w1 r; b = areaObjs w1 r1
             in if Area_IsShared a \<and> area_mapping a = REGION_PRIVATE_MAP
                then (case clone_file mh (to_string (ai_area (area_info b))) (area_entryRef a)
                             (Area_IsWritable b) (memoryService w1) of
                        (None, ms) \<Rightarrow> Some (w1\<lparr>memoryService := ms\<rparr>)
                      | (Some ref, ms) \<Rightarrow>
                          Some (upd_area r1 (\<lambda>x. Area_Share x ref (area_offset a))
                                  (w1\<lparr>memoryService := ms\<rparr>)))
                else Some w1))"

fun fork_areas :: "memory_host \<Rightarrow> ref \<Rightarrow> ref list \<Rightarrow> world \<Rightarrow> world option" where
  "fork_areas mh child [] w = Some w"
| "fork_areas mh child (r # rs) w =
    (case fork_area mh child r w of None \<Rightarrow> None | Some w' \<Rightarrow> fork_areas mh child rs w')"

text \<open>The limit of the I/O context on node monitors is a constant and not part of the model.\<close>

definition Process_Fork :: "memory_host \<Rightarrow> ref \<Rightarrow> ref \<Rightarrow> world \<Rightarrow> world option" where
  "Process_Fork mh parent child w =
    (let x = processObjs w parent;
         w1 = upd_process child
                (\<lambda>y. y\<lparr>p_info := (p_info x)\<lparr>ti_team := p_pid y\<rparr>, p_images := p_images x\<rparr>) w
     in case fork_areas mh child (map snd (p_areas x)) w1 of
          None \<Rightarrow> None
        | Some w2 \<Rightarrow>
            Some (upd_process child
              (\<lambda>y. y\<lparr>p_fds := p_fds x, p_cwd := p_cwd x, p_root := p_root x, p_groups := p_groups x,
                    p_forkUnlocked := True\<rparr>) w2))"

text \<open>A team cannot fork into itself: its lock would be taken twice.\<close>

definition call_fork :: "memory_host \<Rightarrow> hserver_context \<Rightarrow> int \<Rightarrow> world \<Rightarrow> (int \<times> world) option" where
  "call_fork mh c newPid w =
    (let x = the_process c w;
         (child, w1) = (case System_GetProcess w newPid of
             Some r \<Rightarrow> (r, w)
           | None \<Rightarrow> System_RegisterProcess w newPid (p_uid x) (p_gid x) (p_euid x) (p_egid x))
     in if child = ctx_process c then None
        else case Process_Fork mh (ctx_process c) child w1 of
          None \<Rightarrow> None
        | Some w2 \<Rightarrow> Some (B_OK, emit (TeamNotify TEAM_ADDED child) w2))"

text \<open>The call returns once the team's flag is set; \<open>env\<close> is what happens until then.\<close>

definition call_wait_for_fork_unlock ::
    "(world \<Rightarrow> world) \<Rightarrow> hserver_context \<Rightarrow> world \<Rightarrow> (int \<times> world) option" where
  "call_wait_for_fork_unlock env c w =
    (if p_forkUnlocked (the_process c w) then Some (B_OK, w)
     else (let w1 = env w in if p_forkUnlocked (the_process c w1) then Some (B_OK, w1) else None))"

section \<open>Settings\<close>

text \<open>
  \<open>getenv\<close> is a parameter. The size of the guest's buffer is read from the buffer itself.
\<close>

definition call_get_safemode_option ::
    "host \<Rightarrow> (string \<Rightarrow> string option) \<Rightarrow> hserver_context \<Rightarrow> int \<Rightarrow> int \<Rightarrow> int \<Rightarrow> int \<Rightarrow> world \<Rightarrow> int \<times> world" where
  "call_get_safemode_option h getenv c userParameter parameterSize userBuffer userBufferSize w =
    (case Process_ReadMemory h (the_process c w) userParameter parameterSize of
       None \<Rightarrow> (B_BAD_ADDRESS, w)
     | Some parameter \<Rightarrow>
         (case getenv (cstr parameter) of
            None \<Rightarrow> (B_ENTRY_NOT_FOUND, w)
          | Some env \<Rightarrow>
              (let envSize = int (length env) + 1
               in case Process_ReadMemory h (the_process c w) userBuffer 8 of
                    None \<Rightarrow> (B_BAD_ADDRESS, w)
                  | Some bs \<Rightarrow>
                      (let writeSize = min (dec_uint64 bs) envSize
                       in case Process_WriteMemory h c userBuffer
                              (OBytes (take (nat writeSize) (env @ [CHR 0x00]))) w of
                            None \<Rightarrow> (B_BAD_ADDRESS, w)
                          | Some w1 \<Rightarrow> reply_with h c userBufferSize (OUint64 envSize) B_OK w1))))"

definition call_set_scheduler_mode :: "int \<Rightarrow> world \<Rightarrow> int \<times> world" where
  "call_set_scheduler_mode mode w =
    (if mode \<noteq> 0 \<and> mode \<noteq> 1 then (B_BAD_VALUE, w) else (B_OK, w\<lparr>schedulerMode := mode\<rparr>))"

definition call_get_scheduler_mode :: "world \<Rightarrow> int" where
  "call_get_scheduler_mode w = schedulerMode w"

section \<open>Releasing what a team owns\<close>

text \<open>What the three kinds of release leave alone: everything but the named fields.\<close>

definition sem_frame :: "world \<Rightarrow> world \<Rightarrow> bool" where
  "sem_frame w v \<longleftrightarrow> v = w\<lparr>semaphores := semaphores v, semObjs := semObjs v\<rparr>"

definition registry_frame :: "world \<Rightarrow> world \<Rightarrow> bool" where
  "registry_frame w v \<longleftrightarrow> v = w\<lparr>ports := ports v, portNames := portNames v, portObjs := portObjs v\<rparr>"

definition area_frame :: "world \<Rightarrow> world \<Rightarrow> bool" where
  "area_frame w v \<longleftrightarrow> v = w\<lparr>memoryService := memoryService v, areas := areas v\<rparr>"

lemma frame_refl [simp]: "sem_frame w w" "registry_frame w w" "area_frame w w"
  by (cases w; simp add: sem_frame_def registry_frame_def area_frame_def)+

lemma frame_trans:
  "sem_frame u v \<Longrightarrow> sem_frame v w \<Longrightarrow> sem_frame u w"
  "registry_frame u v \<Longrightarrow> registry_frame v w \<Longrightarrow> registry_frame u w"
  "area_frame u v \<Longrightarrow> area_frame v w \<Longrightarrow> area_frame u w"
  by (cases u, cases v, cases w, simp add: sem_frame_def registry_frame_def area_frame_def)+

lemmas sem_frame_field = arg_cong [OF sem_frame_def [THEN iffD1]]

lemma sem_frame_fields:
  assumes "sem_frame w v"
  shows "isShuttingDown v = isShuttingDown w" "processes v = processes w" "threads v = threads w"
    "connections v = connections w" "ports v = ports w" "portNames v = portNames w"
    "areas v = areas w" "memoryService v = memoryService w" "processObjs v = processObjs w"
    "threadObjs v = threadObjs w" "portObjs v = portObjs w" "areaObjs v = areaObjs w"
    "nextRef v = nextRef w"
  using sem_frame_field [OF assms, of isShuttingDown] sem_frame_field [OF assms, of processes]
    sem_frame_field [OF assms, of threads] sem_frame_field [OF assms, of connections]
    sem_frame_field [OF assms, of ports] sem_frame_field [OF assms, of portNames]
    sem_frame_field [OF assms, of areas] sem_frame_field [OF assms, of memoryService]
    sem_frame_field [OF assms, of processObjs] sem_frame_field [OF assms, of threadObjs]
    sem_frame_field [OF assms, of portObjs] sem_frame_field [OF assms, of areaObjs]
    sem_frame_field [OF assms, of nextRef]
  by simp_all

lemmas registry_frame_field = arg_cong [OF registry_frame_def [THEN iffD1]]

lemma registry_frame_fields:
  assumes "registry_frame w v"
  shows "isShuttingDown v = isShuttingDown w" "processes v = processes w" "threads v = threads w"
    "connections v = connections w" "semaphores v = semaphores w" "areas v = areas w"
    "memoryService v = memoryService w" "processObjs v = processObjs w" "threadObjs v = threadObjs w"
    "semObjs v = semObjs w" "areaObjs v = areaObjs w" "nextRef v = nextRef w"
  using registry_frame_field [OF assms, of isShuttingDown] registry_frame_field [OF assms, of processes]
    registry_frame_field [OF assms, of threads] registry_frame_field [OF assms, of connections]
    registry_frame_field [OF assms, of semaphores] registry_frame_field [OF assms, of areas]
    registry_frame_field [OF assms, of memoryService] registry_frame_field [OF assms, of processObjs]
    registry_frame_field [OF assms, of threadObjs] registry_frame_field [OF assms, of semObjs]
    registry_frame_field [OF assms, of areaObjs] registry_frame_field [OF assms, of nextRef]
  by simp_all

lemmas area_frame_field = arg_cong [OF area_frame_def [THEN iffD1]]

lemma area_frame_fields:
  assumes "area_frame w v"
  shows "isShuttingDown v = isShuttingDown w" "processes v = processes w" "threads v = threads w"
    "connections v = connections w" "ports v = ports w" "portNames v = portNames w"
    "semaphores v = semaphores w" "processObjs v = processObjs w" "threadObjs v = threadObjs w"
    "portObjs v = portObjs w" "semObjs v = semObjs w" "areaObjs v = areaObjs w"
    "nextRef v = nextRef w"
  using area_frame_field [OF assms, of isShuttingDown] area_frame_field [OF assms, of processes]
    area_frame_field [OF assms, of threads] area_frame_field [OF assms, of connections]
    area_frame_field [OF assms, of ports] area_frame_field [OF assms, of portNames]
    area_frame_field [OF assms, of semaphores] area_frame_field [OF assms, of processObjs]
    area_frame_field [OF assms, of threadObjs] area_frame_field [OF assms, of portObjs]
    area_frame_field [OF assms, of semObjs] area_frame_field [OF assms, of areaObjs]
    area_frame_field [OF assms, of nextRef]
  by simp_all

lemma unregister_sem_frame: "sem_frame w (snd (System_UnregisterSemaphore w i))"
proof -
  have "sem_frame w (w\<lparr>semaphores := m, semObjs := objs\<rparr>)" for m objs by (simp add: sem_frame_def)
  then show ?thesis by (auto simp: System_UnregisterSemaphore_def upd_sem_def split: option.splits)
qed

lemma unregister_sem_none:
  "sems_ok w \<Longrightarrow> System_GetSemaphore w i = None \<Longrightarrow> snd (System_UnregisterSemaphore w i) = w"
  using System_GetSemaphore_None [of w i]
  by (auto simp: System_UnregisterSemaphore_def IdMap_lookup_def split: if_splits option.splits)

lemma unregister_sems_ok:
  "sems_ok w \<Longrightarrow> sem_frame w (unregister_sems is w) \<and> sems_ok (unregister_sems is w) \<and>
    (\<forall>i. System_GetSemaphore (unregister_sems is w) i =
       (if i \<in> set is then None else System_GetSemaphore w i))"
proof (induction "is" arbitrary: w)
  case (Cons i "is")
  let ?v = "snd (System_UnregisterSemaphore w i)"
  have v: "sems_ok ?v \<and> System_GetSemaphore ?v = (System_GetSemaphore w)(i := None)"
  proof (cases "System_GetSemaphore w i")
    case None
    then show ?thesis using unregister_sem_none [OF Cons.prems None] Cons.prems by (simp add: fun_upd_idem)
  next
    case (Some r)
    then show ?thesis using System_UnregisterSemaphore_ok [OF Cons.prems Some] by (metis surjective_pairing)
  qed
  have run: "unregister_sems (i # is) w = unregister_sems is ?v" by (simp add: unregister_sems_def)
  have "sem_frame w (unregister_sems is ?v)"
    using frame_trans(1) [OF unregister_sem_frame] Cons.IH v by blast
  then show ?case unfolding run using Cons.IH [of ?v] v by simp
qed (simp add: unregister_sems_def)

lemma unregister_port_frame: "System_UnregisterPort w i = Some (n, w') \<Longrightarrow> registry_frame w w'"
  by (cases w) (auto simp: System_UnregisterPort_def registry_frame_def upd_port_def Let_def split: option.splits)

lemma unregister_ports_ok:
  "ports_ok w \<Longrightarrow> distinct is \<Longrightarrow> (\<And>i. i \<in> set is \<Longrightarrow> System_GetPort w i \<noteq> None) \<Longrightarrow>
    \<exists>w'. unregister_ports is w = Some w' \<and> registry_frame w w' \<and> ports_ok w' \<and>
      (\<forall>i. System_GetPort w' i = (if i \<in> set is then None else System_GetPort w i))"
proof (induction "is" arbitrary: w)
  case (Cons i "is")
  obtain r where "System_GetPort w i = Some r" using Cons.prems(3) [of i] by auto
  with Cons.prems(1) obtain n v where v: "System_UnregisterPort w i = Some (n, v)" "ports_ok v"
    "System_GetPort v = (System_GetPort w)(i := None)"
    by (rule System_UnregisterPort_ok)
  have "System_GetPort v j \<noteq> None" if "j \<in> set is" for j
    using that Cons.prems(2,3) v(3) by auto
  from Cons.IH [OF v(2) _ this] Cons.prems(2) obtain w' where
    w': "unregister_ports is v = Some w'" "registry_frame v w'" "ports_ok w'"
    "\<forall>j. System_GetPort w' j = (if j \<in> set is then None else System_GetPort v j)"
    by auto
  have "\<forall>j. System_GetPort w' j = (if j \<in> set (i # is) then None else System_GetPort w j)"
    using w'(4) v(3) by simp
  then show ?case
    using v(1) w'(1,3) frame_trans(2) [OF unregister_port_frame [OF v(1)] w'(2)] by auto
qed simp

lemma unregister_area_frame: "area_frame w (snd (System_UnregisterArea mh w i))"
  by (cases w) (auto simp: System_UnregisterArea_def area_frame_def Let_def split: option.splits)

lemma unregister_area_get:
  "om_ok (areas w) \<Longrightarrow> om_ok (areas (snd (System_UnregisterArea mh w i))) \<and>
    System_GetArea (snd (System_UnregisterArea mh w i)) = (System_GetArea w)(i := None)"
  by (auto simp: System_UnregisterArea_def System_GetArea_def Let_def map_of_om_erase om_ok_erase
      fun_eq_iff split: option.splits)

lemma unregister_areas_ok:
  assumes "om_ok (areas w)" "om_ok (p_areas (processObjs w p))" "\<forall>i\<in>om_keys (p_areas (processObjs w p)). 0 \<le> i"
  shows "\<exists>w'. unregister_areas mh p w = Some w' \<and> area_frame w w' \<and>
    (\<forall>i. System_GetArea w' i =
       (if i \<in> om_keys (p_areas (processObjs w p)) then None else System_GetArea w i))"
proof -
  let ?m = "p_areas (processObjs w p)"
  define I where "I j v \<longleftrightarrow> area_frame w v \<and> om_ok (areas v) \<and>
      (\<forall>i. System_GetArea v i = (if i \<in> om_keys ?m \<and> i \<le> j then None else System_GetArea w i))" for j :: int and v
  let ?variant = "\<lambda>j (v :: world). weight_after (\<lambda>_ _. 1) ?m j"
  have nxt: "next_area_in p v j = om_next ?m j" if "I i v" for i j v
    using that area_frame_fields [of w v] by (simp add: I_def next_area_in_def Process_NextAreaId_def)
  have step: "\<exists>v'. Some (snd (System_UnregisterArea mh v (next_area_in p v j))) = Some v' \<and>
      I (next_area_in p v j) v' \<and> ?variant (next_area_in p v j) v' < ?variant j v"
    if inv: "I j v" and more: "next_area_in p v j \<noteq> -1" for j v
  proof -
    define k where "k = om_next ?m j"
    let ?v = "snd (System_UnregisterArea mh v k)"
    have at: "next_area_in p v j = k" using nxt [OF inv] by (simp add: k_def)
    then have "om_next ?m j \<noteq> -1" using more by (simp add: k_def)
    with assms(2,3) obtain r where r: "om_upper_bound ?m j = Some (k, r)"
      "map_of ?m k = Some r" "j < k" "\<forall>i\<in>om_keys ?m. i \<le> j \<or> k \<le> i"
      unfolding k_def by (rule om_next_bound)
    have k: "k \<in> om_keys ?m" using r(2) by (auto simp: om_keys_dom)
    have ok: "om_ok (areas v)" using inv by (simp add: I_def)
    note get = unregister_area_get [OF ok, of mh k]
    have "System_GetArea ?v i = (if i \<in> om_keys ?m \<and> i \<le> k then None else System_GetArea w i)" for i
    proof (cases "i = k")
      case True
      then show ?thesis using get k by simp
    next
      case False
      then have "i \<in> om_keys ?m \<and> i \<le> k \<longleftrightarrow> i \<in> om_keys ?m \<and> i \<le> j" using r(3,4) by fastforce
      then show ?thesis using get inv False by (simp add: I_def)
    qed
    then have "I k ?v"
      using inv get frame_trans(3) [OF _ unregister_area_frame] unfolding I_def by blast
    moreover have "?variant k ?v < ?variant j v"
      using weight_after_next [OF assms(2) r(1), of "\<lambda>_ _. 1"] by simp
    ultimately show ?thesis unfolding at by blast
  qed
  have start: "I (-1) w" unfolding I_def using assms(1,3) by force
  have "?variant (-1) w < Suc (length ?m)"
    using weight_after_le [of ?m "\<lambda>_ _. 1" 1 "-1"] by simp
  from area_loop_rule [where I = I and variant = ?variant and nxt = "next_area_in p"
      and body = "\<lambda>i v. Some (snd (System_UnregisterArea mh v i))", OF step start this]
  obtain w' j where run: "unregister_areas mh p w = Some w'" "I j w'" "next_area_in p w' j = -1"
    unfolding unregister_areas_def by blast
  then have "\<forall>i\<in>om_keys ?m. i \<le> j" using om_next_end [OF assms(2,3)] nxt [OF run(2)] by simp
  then show ?thesis using run(1,2) unfolding I_def by auto
qed

text \<open>What \<open>end_team\<close> needs: sound tables, and a port list of the team that is part of them.\<close>

definition team_tables_ok :: "world \<Rightarrow> ref \<Rightarrow> bool" where
  "team_tables_ok w p \<longleftrightarrow> sems_ok w \<and> ports_ok w \<and> om_ok (areas w) \<and>
     os_ok (p_owningPorts (processObjs w p)) \<and>
     (\<forall>i\<in>set (p_owningPorts (processObjs w p)). System_GetPort w i \<noteq> None) \<and>
     om_ok (p_areas (processObjs w p)) \<and> (\<forall>i\<in>om_keys (p_areas (processObjs w p)). 0 \<le> i)"

lemma tables_frame:
  assumes "ports w' = ports w" "portNames w' = portNames w" "portObjs w' = portObjs w"
    "semaphores w' = semaphores w" "semObjs w' = semObjs w" "nextRef w' = nextRef w"
  shows "ports_ok w' = ports_ok w" "System_GetPort w' = System_GetPort w" "sems_ok w' = sems_ok w"
    "System_GetSemaphore w' = System_GetSemaphore w"
  using assms
  by (simp_all add: ports_ok_def sems_ok_def System_GetPort_def System_GetSemaphore_def fun_eq_iff)

lemma sems_ok_registry: "registry_frame w v \<Longrightarrow> sems_ok v = sems_ok w \<and> System_GetSemaphore v = System_GetSemaphore w"
  using registry_frame_fields [of w v] by (simp add: sems_ok_def System_GetSemaphore_def fun_eq_iff)

lemma ports_ok_sems: "sem_frame w v \<Longrightarrow> ports_ok v = ports_ok w \<and> System_GetPort v = System_GetPort w"
  using sem_frame_fields [of w v] by (simp add: ports_ok_def System_GetPort_def fun_eq_iff)

definition bare_team :: "process \<Rightarrow> process" where
  "bare_team x = Process_ClearImages (Process_ClearAreas (x\<lparr>p_owningSemaphores := [], p_owningPorts := []\<rparr>))"

lemma UnregisterProcess_objs: "processObjs (snd (System_UnregisterProcess w pid)) = processObjs w"
  by (simp add: System_UnregisterProcess_def Let_def)

lemma end_team_ok:
  fixes w c
  defines "p \<equiv> ctx_process c" and "x \<equiv> processObjs w (ctx_process c)"
  assumes "team_tables_ok w (ctx_process c)"
  shows "\<exists>w'. end_team mh c w = Some w' \<and> ports_ok w' \<and> sems_ok w' \<and>
    processObjs w' = (processObjs w)(p := bare_team x) \<and>
    processes w' = (if p_isExecutingExec x then processes w else om_erase (ctx_pid c) (processes w)) \<and>
    threads w' = threads w \<and> connections w' = connections w \<and> threadObjs w' = threadObjs w \<and>
    (\<forall>i. System_GetPort w' i = (if i \<in> set (p_owningPorts x) then None else System_GetPort w i)) \<and>
    (\<forall>i. System_GetSemaphore w' i =
       (if i \<in> set (p_owningSemaphores x) then None else System_GetSemaphore w i)) \<and>
    (\<forall>i. System_GetArea w' i = (if i \<in> om_keys (p_areas x) then None else System_GetArea w i))"
proof -
  note ok = assms(3) [unfolded team_tables_ok_def, folded p_def x_def]
  have px: "processObjs w p = x" by (simp add: p_def x_def)
  define w1 where "w1 = (if p_isExecutingExec x then w else snd (System_UnregisterProcess w (ctx_pid c)))"
  have 1: "processObjs w1 = processObjs w" "threads w1 = threads w" "connections w1 = connections w"
    "threadObjs w1 = threadObjs w" "areas w1 = areas w"
    "processes w1 = (if p_isExecutingExec x then processes w else om_erase (ctx_pid c) (processes w))"
    "ports w1 = ports w" "portNames w1 = portNames w" "portObjs w1 = portObjs w"
    "semaphores w1 = semaphores w" "semObjs w1 = semObjs w" "nextRef w1 = nextRef w"
    by (simp_all add: w1_def System_UnregisterProcess_def Let_def)
  note t1 = tables_frame [OF 1(7-12)]
  define w2 where "w2 = unregister_sems (p_owningSemaphores x) w1"
  have s2: "sem_frame w1 w2" "sems_ok w2" "\<And>i. System_GetSemaphore w2 i =
      (if i \<in> set (p_owningSemaphores x) then None else System_GetSemaphore w i)"
    using unregister_sems_ok [of w1 "p_owningSemaphores x"] t1 ok by (simp_all add: w2_def)
  note 2 = sem_frame_fields [OF s2(1)] ports_ok_sems [OF s2(1)]
  define w3 where "w3 = upd_process p (\<lambda>x. x\<lparr>p_owningSemaphores := []\<rparr>) w2"
  have 3: "processObjs w3 = (processObjs w)(p := x\<lparr>p_owningSemaphores := []\<rparr>)" "processes w3 = processes w1"
    "threads w3 = threads w" "connections w3 = connections w" "threadObjs w3 = threadObjs w" "areas w3 = areas w"
    using 1 2 px by (simp_all add: w3_def upd_process_def)
  have t3: "ports_ok w3 = ports_ok w2" "System_GetPort w3 = System_GetPort w2" "sems_ok w3 = sems_ok w2"
    "System_GetSemaphore w3 = System_GetSemaphore w2"
    by (rule tables_frame; simp add: w3_def upd_process_def)+
  have "distinct (p_owningPorts x)" using ok by (simp add: os_ok_distinct)
  moreover have "ports_ok w3" "\<And>i. i \<in> set (p_owningPorts x) \<Longrightarrow> System_GetPort w3 i \<noteq> None"
    using ok t3 t1 2 by auto
  ultimately obtain w4 where w4: "unregister_ports (p_owningPorts x) w3 = Some w4" "registry_frame w3 w4"
    "ports_ok w4" "\<And>i. System_GetPort w4 i = (if i \<in> set (p_owningPorts x) then None else System_GetPort w3 i)"
    using unregister_ports_ok [of w3 "p_owningPorts x"] by blast
  note 4 = registry_frame_fields [OF w4(2)] sems_ok_registry [OF w4(2)]
  define w5 where "w5 = upd_process p (\<lambda>x. x\<lparr>p_owningPorts := []\<rparr>) w4"
  have 5: "processObjs w5 = (processObjs w)(p := x\<lparr>p_owningSemaphores := [], p_owningPorts := []\<rparr>)"
    "processes w5 = processes w1"
    "threads w5 = threads w" "connections w5 = connections w" "threadObjs w5 = threadObjs w" "areas w5 = areas w"
    using 3 4 by (simp_all add: w5_def upd_process_def)
  have t5: "ports_ok w5 = ports_ok w4" "System_GetPort w5 = System_GetPort w4" "sems_ok w5 = sems_ok w4"
    "System_GetSemaphore w5 = System_GetSemaphore w4"
    by (rule tables_frame; simp add: w5_def upd_process_def)+
  have "p_areas (processObjs w5 p) = p_areas x" using 5 by simp
  then obtain w6 where w6: "unregister_areas mh p w5 = Some w6" "area_frame w5 w6"
    "\<And>i. System_GetArea w6 i = (if i \<in> om_keys (p_areas x) then None else System_GetArea w i)"
    using unregister_areas_ok [of w5 p mh] ok 5(6) by (auto simp: System_GetArea_def)
  note 6 = area_frame_fields [OF w6(2)]
  define w7 where "w7 = upd_process p (Process_ClearImages \<circ> Process_ClearAreas) w6"
  have t7: "ports_ok w7 = ports_ok w5" "System_GetPort w7 = System_GetPort w5" "sems_ok w7 = sems_ok w5"
    "System_GetSemaphore w7 = System_GetSemaphore w5"
    by (rule tables_frame; simp add: w7_def upd_process_def 6)+
  have run: "end_team mh c w = Some w7"
    using w4(1) w6(1) 3(1)
    by (cases "p_isExecutingExec x")
      (simp_all add: end_team_def Let_def w1_def w2_def w3_def w5_def w7_def px UnregisterProcess_objs
        flip: p_def)
  have "processObjs w7 = (processObjs w)(p := bare_team x)"
    using 5(1) 6 by (simp add: w7_def upd_process_def bare_team_def)
  moreover have "processes w7 = processes w1" "threads w7 = threads w" "connections w7 = connections w"
    "threadObjs w7 = threadObjs w" "System_GetArea w7 = System_GetArea w6"
    using 5 6 by (simp_all add: w7_def upd_process_def System_GetArea_def fun_eq_iff)
  ultimately show ?thesis
    using run t7 t5 w4 4 t3 s2 2 t1 w6(3) 1(6) by (intro exI [of _ w7]) simp
qed

text \<open>
  C17: when the last thread of a team disconnects, all that the team owned is gone and nothing
  else. With consistent tables, on the primary connection of the last thread of a team that is not
  executing an exec and has no debugger, the call is defined and succeeds; the connection, the
  thread, the team, every port and semaphore the team owned and every area it had are out of the
  tables of the server. All other connections, threads, teams, ports, semaphores and areas are
  found as before, and no other team is changed.
\<close>

theorem last_disconnect_frees_team:
  assumes "team_tables_ok w (ctx_process c)" and "System_GetThread w (ctx_tid c) = Some t"
    and "connections w (ctx_conn c) = Some \<lparr>conn_pid = ctx_pid c, conn_tid = ctx_tid c, conn_isPrimary = True\<rparr>"
    and "om_keys (p_threads (the_process c w)) = {ctx_tid c}"
    and "\<not> p_isExecutingExec (the_process c w)" and "p_debuggerPort (the_process c w) = -1"
  shows "\<exists>w'. call_disconnect mh n env c w = Some (B_OK, w') \<and>
    (\<forall>k. connections w' k = (if k = ctx_conn c then None else connections w k)) \<and>
    (\<forall>i. System_GetThread w' i = (if i = ctx_tid c then None else System_GetThread w i)) \<and>
    (\<forall>i. System_GetProcess w' i = (if i = ctx_pid c then None else System_GetProcess w i)) \<and>
    (\<forall>q. q \<noteq> ctx_process c \<longrightarrow> processObjs w' q = processObjs w q) \<and>
    (\<forall>i. System_GetPort w' i = (if i \<in> set (p_owningPorts (the_process c w)) then None else System_GetPort w i)) \<and>
    (\<forall>i. System_GetSemaphore w' i =
       (if i \<in> set (p_owningSemaphores (the_process c w)) then None else System_GetSemaphore w i)) \<and>
    (\<forall>i. System_GetArea w' i = (if i \<in> om_keys (p_areas (the_process c w)) then None else System_GetArea w i))"
proof -
  let ?p = "ctx_process c" and ?x = "the_process c w"
  obtain x where x: "Process_UnregisterThread ?x (ctx_tid c) = (0, x)" "p_isExecutingExec x = p_isExecutingExec ?x"
    "p_debuggerPort x = p_debuggerPort ?x" "p_owningPorts x = p_owningPorts ?x"
    "p_owningSemaphores x = p_owningSemaphores ?x" "p_areas x = p_areas ?x"
  proof -
    have "om_keys (om_erase (ctx_tid c) (p_threads ?x)) = {}" using assms(4) by (simp add: om_keys_dom map_of_om_erase)
    then have "om_erase (ctx_tid c) (p_threads ?x) = []" by auto
    then show ?thesis
      by (intro that [of "snd (Process_UnregisterThread ?x (ctx_tid c))"])
        (simp_all add: Process_UnregisterThread_def with_thread_count_def Let_def)
  qed
  define w1 where "w1 = upd_process ?p (\<lambda>_. x) w"
  have t1: "ports_ok w1 = ports_ok w" "System_GetPort w1 = System_GetPort w" "sems_ok w1 = sems_ok w"
    "System_GetSemaphore w1 = System_GetSemaphore w"
    by (rule tables_frame; simp add: w1_def upd_process_def)+
  have 1: "processObjs w1 ?p = x" "areas w1 = areas w" "processes w1 = processes w" "threads w1 = threads w"
    "connections w1 = connections w"
    by (simp_all add: w1_def upd_process_def)
  have "team_tables_ok w1 ?p" using assms(1) t1 1 x by (simp add: team_tables_ok_def)
  then obtain w2 where w2: "end_team mh c w1 = Some w2"
    "processObjs w2 = (processObjs w1)(?p := bare_team x)"
    "processes w2 = om_erase (ctx_pid c) (processes w)" "threads w2 = threads w" "connections w2 = connections w"
    "\<And>i. System_GetPort w2 i = (if i \<in> set (p_owningPorts ?x) then None else System_GetPort w i)"
    "\<And>i. System_GetSemaphore w2 i = (if i \<in> set (p_owningSemaphores ?x) then None else System_GetSemaphore w i)"
    "\<And>i. System_GetArea w2 i = (if i \<in> om_keys (p_areas ?x) then None else System_GetArea w i)"
    using end_team_ok [of w1 c mh] t1 1 x assms(5) by (auto simp: System_GetArea_def)
  have "end_debugging n c w2 = Some ([], w2)"
    using w2(2) x(3) assms(6)
    by (simp add: end_debugging_def Let_def bare_team_def Process_ClearImages_def Process_ClearAreas_def)
  moreover have "conn_isPrimary (System_GetThreadFromConnection w (ctx_conn c))"
    using assms(3) by (simp add: System_GetThreadFromConnection_def)
  ultimately obtain w3 where locked: "disconnect_locked mh n c w =
      Some ([], None, None, [TEAM_REMOVED], [THREAD_REMOVED], w3)"
    and w3: "w3 = System_UnregisterConnection (snd (System_UnregisterThread w2 (ctx_tid c))) (ctx_conn c)"
    using w2(1) x(1,2) assms(5) by (simp add: disconnect_locked_def Let_def w1_def)
  define w4 where "w4 = emit (ThreadNotify THREAD_REMOVED (ctx_thread c))
      (emit (TeamNotify TEAM_REMOVED ?p) (emit (AudioCleanup (ctx_pid c)) (emit (MessagingUnregister ?p) w3)))"
  have run: "call_disconnect mh n env c w = Some (B_OK, w4)"
    using locked by (simp add: call_disconnect_def Let_def w4_def)
  have fields: "ports w4 = ports w2" "semaphores w4 = semaphores w2" "areas w4 = areas w2"
    "processes w4 = processes w2" "connections w4 = (connections w)(ctx_conn c := None)"
    "threads w4 = om_erase (ctx_tid c) (threads w)" "processObjs w4 = processObjs w2"
    using assms(2) w2(4,5)
    by (auto simp: w4_def w3 emit_def System_UnregisterConnection_def System_UnregisterThread_def
        upd_thread_def Let_def System_GetThread_def split: option.splits)
  have "System_GetPort w4 = System_GetPort w2" "System_GetSemaphore w4 = System_GetSemaphore w2"
    "System_GetArea w4 = System_GetArea w2"
    "\<And>i. System_GetThread w4 i = (if i = ctx_tid c then None else System_GetThread w i)"
    "\<And>i. System_GetProcess w4 i = (if i = ctx_pid c then None else System_GetProcess w i)"
    "\<And>q. q \<noteq> ?p \<Longrightarrow> processObjs w4 q = processObjs w q"
    using fields System_GetPort_cong [of w4 w2] System_GetSemaphore_cong [of w4 w2] w2(2,3)
    by (simp_all add: System_GetArea_def System_GetThread_def System_GetProcess_def map_of_om_erase fun_eq_iff
        w1_def upd_process_def)
  then show ?thesis using run fields(5) w2(6-8) by simp
qed

lemma sample_port_tables:
  "team_tables_ok sample_port_world 0" "System_GetThread sample_port_world 4 = Some 0"
  "connections sample_port_world 11 = Some \<lparr>conn_pid = 4, conn_tid = 4, conn_isPrimary = True\<rparr>"
  "om_keys (p_threads (processObjs sample_port_world 0)) = {4}"
  "\<not> p_isExecutingExec (processObjs sample_port_world 0)"
  "p_debuggerPort (processObjs sample_port_world 0) = -1"
  "p_owningPorts (processObjs sample_port_world 0) = [0]"
  "System_GetProcess sample_port_world 4 = Some 0"
proof -
  show objs: "System_GetThread sample_port_world 4 = Some 0"
    "connections sample_port_world 11 = Some \<lparr>conn_pid = 4, conn_tid = 4, conn_isPrimary = True\<rparr>"
    "om_keys (p_threads (processObjs sample_port_world 0)) = {4}"
    "\<not> p_isExecutingExec (processObjs sample_port_world 0)"
    "p_debuggerPort (processObjs sample_port_world 0) = -1"
    "p_owningPorts (processObjs sample_port_world 0) = [0]"
    "System_GetProcess sample_port_world 4 = Some 0"
    by (simp_all add: sample_port_world_def sample_port_defs System_GetThread_def System_GetProcess_def)
  have "port_world_ok sample_port_world"
    using port_history_ok [OF sample_port_history sample_world_ok(1)] .
  moreover have "sems_ok sample_port_world"
    using sems_ok_init by (simp add: sems_ok_def sample_port_world_def sample_port_defs)
  moreover have "areas sample_port_world = []" "p_areas (processObjs sample_port_world 0) = []"
    by (simp_all add: sample_port_world_def sample_port_defs)
  ultimately show "team_tables_ok sample_port_world 0"
    using objs sample_port_state(1) by (simp add: team_tables_ok_def port_world_ok_def om_ok_Nil os_ok_def)
qed

theorem last_disconnect_frees_team_witness:
  "\<exists>w'. call_disconnect sample_memory_host 1128 id sample_context sample_port_world = Some (B_OK, w') \<and>
    System_GetPort sample_port_world 0 \<noteq> None \<and> System_GetPort w' 0 = None \<and>
    System_GetProcess sample_port_world 4 \<noteq> None \<and> System_GetProcess w' 4 = None"
proof -
  have c: "ctx_process sample_context = 0" "ctx_tid sample_context = 4" "ctx_conn sample_context = 11"
    "ctx_pid sample_context = 4"
    by (simp_all add: sample_context_def)
  show ?thesis
    using last_disconnect_frees_team [of sample_port_world sample_context, unfolded c,
        OF sample_port_tables(1-6), of sample_memory_host 1128 id] sample_port_state(1)
    unfolding sample_port_tables(7,8) by fastforce
qed

text \<open>
  C19: connecting and dispatching fit together. After a new team connects on a fresh connection,
  every later call on that connection runs as the pid and tid it connected with, on the process
  and the thread that were made for it, and the process has the guest ids of the host ids given.
\<close>

theorem connect_then_dispatch:
  assumes "connections w (ctx_conn c) = None" and "System_GetProcess w pid = None"
    and "om_ok (processes w)" and "om_ok (threads w)"
    and "call \<noteq> SERVERCALL_ID_connect" and "call \<noteq> SERVERCALL_ID_request_ack"
    and "call_connect um env c pid tid uid gid euid egid w = (status, w')"
  shows "\<exists>p t. dispatch_context w' (ctx_conn c) call a1 a2 =
      Inr \<lparr>ctx_conn = ctx_conn c, ctx_pid = pid, ctx_tid = tid, ctx_process = p, ctx_thread = t\<rparr> \<and>
    status = B_OK \<and> p_pid (processObjs w' p) = pid \<and>
    p_uid (processObjs w' p) = GetUid um uid \<and> p_egid (processObjs w' p) = GetGid um egid \<and>
    t_registered (threadObjs w' t) \<and> t_tid (threadObjs w' t) = tid \<and> System_GetThread w' tid = Some t"
  using assms
  by (auto simp: call_connect_def connect_process_def System_RegisterConnection_def System_GetProcess_def
      System_RegisterProcess_def new_process_def System_RegisterThread_def new_thread_def emit_def
      upd_thread_def upd_process_def dispatch_context_def System_GetThreadFromConnection_def
      Process_RegisterThread_def with_thread_count_def Process_GetThread_def System_GetThread_def
      map_of_om_insert Process_new_def Thread_new_def Let_def)

theorem connect_then_dispatch_witness:
  "\<exists>p t. dispatch_context (snd (call_connect user_map_init id sample_context 4 4 1000 1000 1000 1000 world_init))
      11 7 900 901 =
    Inr \<lparr>ctx_conn = 11, ctx_pid = 4, ctx_tid = 4, ctx_process = p, ctx_thread = t\<rparr>"
proof -
  have w: "connections world_init (ctx_conn sample_context) = None" "System_GetProcess world_init 4 = None"
    "om_ok (processes world_init)" "om_ok (threads world_init)" "ctx_conn sample_context = 11"
    "7 \<noteq> SERVERCALL_ID_connect" "7 \<noteq> SERVERCALL_ID_request_ack"
    by (simp_all add: world_init_def sample_context_def System_GetProcess_def om_ok_Nil
        SERVERCALL_ID_connect_def SERVERCALL_ID_request_ack_def)
  obtain status w' where run:
    "call_connect user_map_init id sample_context 4 4 1000 1000 1000 1000 world_init = (status, w')"
    by fastforce
  show ?thesis
    using connect_then_dispatch [OF w(1-4,6,7) run, of 900 901] unfolding run w(5) snd_conv by blast
qed

section \<open>The address space of a forked team\<close>

lemma clone_file_ok:
  assumes "counts_ok ms" "clone_file mh name ref0 want_write ms = (x, ms')"
  shows "counts_ok ms'" "ref_count ms r \<le> ref_count ms' r" "x = Some ref \<Longrightarrow> 0 < ref_count ms' ref"
proof -
  obtain y ms1 where c: "CloneSharedFile mh ms name ref0 = (y, ms1)" by fastforce
  then have "sharedFiles ms1 = sharedFiles ms"
    by (auto simp: CloneSharedFile_def Let_def split: option.splits sum.splits if_splits)
  then have ms1: "counts_ok ms1" "\<And>r. ref_count ms1 r = ref_count ms r"
    using assms(1) by (simp_all add: counts_ok_def ref_count_def)
  have "counts_ok ms' \<and> ref_count ms r \<le> ref_count ms' r \<and> (x = Some ref \<longrightarrow> 0 < ref_count ms' ref)"
  proof (cases y)
    case None
    then show ?thesis using assms(2) c ms1 by (simp add: clone_file_def)
  next
    case (Some pth)
    then have o: "OpenSharedFile_name mh ms1 pth want_write = (x, ms')" using assms(2) c by (simp add: clone_file_def)
    then have ok: "counts_ok ms'" using OpenSharedFile_ok(2) [OF ms1(1), of mh pth want_write] by simp
    show ?thesis
    proof (cases x)
      case None
      then have "sharedFiles ms' = sharedFiles ms1"
        using o by (auto simp: OpenSharedFile_name_def Let_def split: option.splits if_splits)
      then show ?thesis using None ok ms1 by (simp add: ref_count_def)
    next
      case (Some q)
      have "0 \<le> ref_count ms1 q" by (rule shared_files.count_nonneg [OF ms1(1)])
      then show ?thesis
        using OpenSharedFile_name_count [OF o [unfolded Some]] ok ms1(2) Some by auto
    qed
  qed
  then show "counts_ok ms'" "ref_count ms r \<le> ref_count ms' r" "x = Some ref \<Longrightarrow> 0 < ref_count ms' ref"
    by simp_all
qed

lemma team_ok_memory:
  assumes "team_ok w p" "counts_ok ms" "\<And>r. ref_count (memoryService w) r \<le> ref_count ms r"
  shows "team_ok (w\<lparr>memoryService := ms\<rparr>) p"
proof -
  have "0 < ref_count ms r" if "0 < ref_count (memoryService w) r" for r using assms(3) [of r] that by simp
  then show ?thesis using assms(1,2) by (simp add: team_ok_def areas_ok_def)
qed

lemma register_split_other:
  "register_split p a w = Some w' \<Longrightarrow> q \<noteq> p \<Longrightarrow> processObjs w' q = processObjs w q"
  by (auto simp: register_split_def new_area_def System_RegisterArea_def System_AllocAreaId_def enter_area_def
      upd_area_info_def upd_area_def upd_process_def Let_def split: option.splits prod.splits if_splits)

lemma register_split_processes: "register_split p a w = Some w' \<Longrightarrow> processes w' = processes w"
  by (auto simp: register_split_def new_area_def System_RegisterArea_def System_AllocAreaId_def enter_area_def
      upd_area_info_def upd_area_def upd_process_def Let_def split: option.splits prod.splits if_splits)

lemma fork_areas_processes: "fork_areas mh child rs w = Some w' \<Longrightarrow> processes w' = processes w"
proof (induction rs arbitrary: w)
  case (Cons r rs)
  then obtain v where "fork_area mh child r w = Some v" "fork_areas mh child rs v = Some w'"
    by (auto split: option.splits)
  moreover from this(1) have "processes v = processes w"
    by (auto simp: fork_area_def Let_def upd_area_def dest: register_split_processes
        split: option.splits prod.splits if_splits)
  ultimately show ?case using Cons.IH by simp
qed simp

text \<open>One area: the child gains a fresh area over the same addresses, and nothing else changes.\<close>

lemma fork_area_ok:
  assumes "team_ok w child" "range_ok (areaObjs w r)" "r < nextRef w" "int (length (areas w)) < INT_MAX"
  shows "\<exists>w' i. fork_area mh child r w = Some w' \<and> team_ok w' child \<and>
    map_of (p_areas (processObjs w child)) i = None \<and>
    p_areas (processObjs w' child) = om_insert i (nextRef w) (p_areas (processObjs w child)) \<and>
    (\<forall>q<nextRef w. areaObjs w' q = areaObjs w q) \<and>
    area_contains (areaObjs w' (nextRef w)) = area_contains (areaObjs w r) \<and>
    nextRef w' = Suc (nextRef w) \<and> length (areas w') = Suc (length (areas w)) \<and>
    (\<forall>q. q \<noteq> child \<longrightarrow> processObjs w' q = processObjs w q)"
proof -
  let ?a = "fork_copy (p_pid (processObjs w child)) (areaObjs w r)" and ?r1 = "nextRef w"
  have copy: "range_ok ?a" "\<not> Area_IsShared ?a" "area_contains ?a = area_contains (areaObjs w r)"
    using assms(2)
    by (simp_all add: fork_copy_def Area_Unshare_def Area_IsShared_def range_ok_def area_contains_def
        Let_def fun_eq_iff)
  then obtain i a' w1 where w1: "register_split child ?a w = Some w1" "team_ok w1 child"
    "map_of (p_areas (processObjs w child)) i = None"
    "p_areas (processObjs w1 child) = om_insert i ?r1 (p_areas (processObjs w child))"
    "a' = ?a\<lparr>area_info := (area_info ?a)\<lparr>ai_area := i\<rparr>\<rparr>"
    "areaObjs w1 = (areaObjs w)(?r1 := a')" "nextRef w1 = Suc ?r1" "length (areas w1) = Suc (length (areas w))"
    using register_split_ok [OF assms(1) copy(1) assms(4)] by metis
  have contains: "area_contains a' = area_contains (areaObjs w r)" "range_ok a'" "ai_area (area_info a') = i"
    using copy by (simp_all add: w1(5) area_contains_def range_ok_def fun_eq_iff)
  have other: "processObjs w1 q = processObjs w q" if "q \<noteq> child" for q
    by (rule register_split_other [OF w1(1) that])
  have entry: "map_of (p_areas (processObjs w1 child)) i = Some ?r1"
    using w1(2,4) assms(1) by (simp add: team_ok_def map_of_om_insert)
  show ?thesis
  proof (cases "Area_IsShared (areaObjs w1 r) \<and> area_mapping (areaObjs w1 r) = REGION_PRIVATE_MAP")
    case False
    then have "fork_area mh child r w = Some w1" using w1(1) by (auto simp: fork_area_def Let_def)
    then show ?thesis using w1 other contains by auto
  next
    case True
    obtain x ms where cl: "clone_file mh (to_string (ai_area (area_info (areaObjs w1 ?r1))))
        (area_entryRef (areaObjs w1 r)) (Area_IsWritable (areaObjs w1 ?r1)) (memoryService w1) = (x, ms)"
      by fastforce
    have counts: "counts_ok (memoryService w1)" using w1(2) by (simp add: team_ok_def)
    let ?w2 = "w1\<lparr>memoryService := ms\<rparr>"
    have ok2: "team_ok ?w2 child" by (rule team_ok_memory [OF w1(2) clone_file_ok(1,2) [OF counts cl]])
    show ?thesis
    proof (cases x)
      case None
      then have "fork_area mh child r w = Some ?w2" using w1(1) True cl by (auto simp: fork_area_def Let_def)
      then show ?thesis using w1 other contains ok2 by auto
    next
      case (Some ref)
      let ?b = "Area_Share a' ref (area_offset (areaObjs w1 r))"
      have "range_ok ?b" "ai_area (area_info ?b) = i" "area_contains ?b = area_contains (areaObjs w r)"
        using contains by (simp_all add: Area_Share_def range_ok_def area_contains_def fun_eq_iff)
      moreover have "held_open ?w2 ?b"
        using clone_file_ok(3) [OF counts cl Some] by (simp add: held_open_def Area_Share_def)
      ultimately have "team_ok (upd_area ?r1 (\<lambda>_. ?b) ?w2) child"
        using entry by (intro team_ok_upd [OF ok2]) simp_all
      moreover have "fork_area mh child r w = Some (upd_area ?r1 (\<lambda>_. ?b) ?w2)"
        using w1(1,6) True cl Some by (auto simp: fork_area_def Let_def upd_area_def)
      moreover have "area_contains ?b = area_contains (areaObjs w r)" by fact
      ultimately show ?thesis using w1 other by (auto simp: upd_area_def)
    qed
  qed
qed

lemma ex_map_upd:
  assumes "m i = None"
  shows "(\<exists>j s. (m(i \<mapsto> n)) j = Some s \<and> R s) \<longleftrightarrow> (\<exists>j s. m j = Some s \<and> R s) \<or> R n"
proof -
  have "(m(i \<mapsto> n)) j = Some s" if "m j = Some s" for j s using that assms by auto
  moreover have "m j = Some s \<or> s = n" if "(m(i \<mapsto> n)) j = Some s" for j s using that by (simp split: if_splits)
  moreover have "(m(i \<mapsto> n)) i = Some n" by simp
  ultimately show ?thesis by blast
qed

lemma fork_areas_ok:
  assumes "team_ok w child" "\<forall>r\<in>set rs. r < nextRef w \<and> range_ok (areaObjs w r)"
    "int (length (areas w) + length rs) \<le> INT_MAX"
  shows "\<exists>w'. fork_areas mh child rs w = Some w' \<and> team_ok w' child \<and>
    (\<forall>x. covers w' child x \<longleftrightarrow> covers w child x \<or> (\<exists>r\<in>set rs. area_contains (areaObjs w r) x)) \<and>
    (\<forall>q<nextRef w. areaObjs w' q = areaObjs w q) \<and>
    (\<forall>i r. map_of (p_areas (processObjs w' child)) i = Some r \<longrightarrow>
       map_of (p_areas (processObjs w child)) i = Some r \<or> nextRef w \<le> r) \<and>
    (\<forall>q. q \<noteq> child \<longrightarrow> processObjs w' q = processObjs w q)"
  using assms
proof (induction rs arbitrary: w)
  case (Cons r rs)
  obtain w1 i where w1: "fork_area mh child r w = Some w1" "team_ok w1 child"
    "map_of (p_areas (processObjs w child)) i = None"
    "p_areas (processObjs w1 child) = om_insert i (nextRef w) (p_areas (processObjs w child))"
    "\<forall>q<nextRef w. areaObjs w1 q = areaObjs w q"
    "area_contains (areaObjs w1 (nextRef w)) = area_contains (areaObjs w r)"
    "nextRef w1 = Suc (nextRef w)" "length (areas w1) = Suc (length (areas w))"
    "\<forall>q. q \<noteq> child \<longrightarrow> processObjs w1 q = processObjs w q"
    using fork_area_ok [of w child r mh] Cons.prems by auto
  have old: "map_of (p_areas (processObjs w child)) j = Some s \<Longrightarrow> s < nextRef w" for j s
    using Cons.prems(1) unfolding team_ok_def areas_ok_def by blast
  have ins: "map_of (p_areas (processObjs w1 child)) = (map_of (p_areas (processObjs w child)))(i \<mapsto> nextRef w)"
    using w1(4) Cons.prems(1) by (simp add: team_ok_def map_of_om_insert)
  have cov: "covers w1 child x \<longleftrightarrow> covers w child x \<or> area_contains (areaObjs w r) x" for x
  proof -
    have "area_contains (areaObjs w1 s) x = area_contains (areaObjs w s) x"
      if "map_of (p_areas (processObjs w child)) j = Some s" for j s
      using w1(5) old [OF that] by simp
    then show ?thesis unfolding covers_def ins ex_map_upd [where m = "map_of (p_areas (processObjs w child))", OF w1(3)] w1(6) by metis
  qed
  have "\<forall>s\<in>set rs. s < nextRef w1 \<and> range_ok (areaObjs w1 s)" using Cons.prems(2) w1(5,7) by auto
  from Cons.IH [OF w1(2) this] Cons.prems(3) w1(8) obtain w' where
    w': "fork_areas mh child rs w1 = Some w'" "team_ok w' child"
    "\<forall>x. covers w' child x \<longleftrightarrow> covers w1 child x \<or> (\<exists>r\<in>set rs. area_contains (areaObjs w1 r) x)"
    "\<forall>q<nextRef w1. areaObjs w' q = areaObjs w1 q"
    "\<forall>i r. map_of (p_areas (processObjs w' child)) i = Some r \<longrightarrow>
       map_of (p_areas (processObjs w1 child)) i = Some r \<or> nextRef w1 \<le> r"
    "\<forall>q. q \<noteq> child \<longrightarrow> processObjs w' q = processObjs w1 q"
    by auto
  have "(\<exists>s\<in>set rs. area_contains (areaObjs w1 s) x) \<longleftrightarrow> (\<exists>s\<in>set rs. area_contains (areaObjs w s) x)" for x
    using Cons.prems(2) w1(5) by simp
  then have "\<forall>x. covers w' child x \<longleftrightarrow> covers w child x \<or> (\<exists>r\<in>set (r # rs). area_contains (areaObjs w r) x)"
    using w'(3) cov by auto
  moreover have "\<forall>q<nextRef w. areaObjs w' q = areaObjs w q" using w'(4) w1(5,7) by simp
  moreover have "\<forall>i r. map_of (p_areas (processObjs w' child)) i = Some r \<longrightarrow>
       map_of (p_areas (processObjs w child)) i = Some r \<or> nextRef w \<le> r"
    using w'(5) ins w1(7) by (auto split: if_splits) fastforce
  ultimately show ?case using w'(1,2,6) w1(1,9) by auto
qed (auto simp: covers_def)

text \<open>
  C18: a fork copies the address space. Forking into a pid that is not registered, with enough area
  ids left, ends; the child is a new team that covers exactly the addresses the parent covers, with
  area objects that did not exist before, it has the open descriptors, the working directory and the
  root of the parent and is unlocked; no other team, the parent included, and no area object that
  existed before is changed, and the other pids lead to the teams they led to.
\<close>

theorem fork_copies_address_space:
  assumes "team_ok w (ctx_process c)" and "System_GetProcess w newPid = None" and "om_ok (processes w)"
    and "ctx_process c < nextRef w"
    and "int (length (areas w) + length (p_areas (the_process c w))) \<le> INT_MAX"
  shows "\<exists>w' child. call_fork mh c newPid w = Some (B_OK, w') \<and>
    System_GetProcess w' newPid = Some child \<and> child \<noteq> ctx_process c \<and>
    (\<forall>x. covers w' child x = covers w (ctx_process c) x) \<and>
    (\<forall>i r. map_of (p_areas (processObjs w' child)) i = Some r \<longrightarrow> nextRef w \<le> r) \<and>
    (\<forall>q. q \<noteq> child \<longrightarrow> processObjs w' q = processObjs w q) \<and>
    (\<forall>r<nextRef w. areaObjs w' r = areaObjs w r) \<and>
    (\<forall>pid. pid \<noteq> newPid \<longrightarrow> System_GetProcess w' pid = System_GetProcess w pid) \<and>
    p_fds (processObjs w' child) = p_fds (the_process c w) \<and>
    p_cwd (processObjs w' child) = p_cwd (the_process c w) \<and>
    p_root (processObjs w' child) = p_root (the_process c w) \<and> p_forkUnlocked (processObjs w' child)"
proof -
  let ?p = "ctx_process c" and ?x = "the_process c w" and ?rs = "map snd (p_areas (the_process c w))"
  obtain child w1 where reg: "System_RegisterProcess w newPid (p_uid ?x) (p_gid ?x) (p_euid ?x) (p_egid ?x) = (child, w1)"
    by fastforce
  then have child: "child = nextRef w" "?p \<noteq> child" and
    1: "nextRef w1 = Suc (nextRef w)" "areas w1 = areas w" "areaObjs w1 = areaObjs w" "nextAreaId w1 = nextAreaId w"
    "memoryService w1 = memoryService w" "processes w1 = om_insert newPid child (processes w)"
    "processObjs w1 ?p = ?x" "p_areas (processObjs w1 child) = []"
    "\<And>q. q \<noteq> child \<Longrightarrow> processObjs w1 q = processObjs w q"
    using assms(4) by (auto simp: System_RegisterProcess_def new_process_def Process_new_def)
  define w2 where "w2 = upd_process child (\<lambda>y. y\<lparr>p_info := (p_info ?x)\<lparr>ti_team := p_pid y\<rparr>, p_images := p_images ?x\<rparr>) w1"
  have 2: "nextRef w2 = Suc (nextRef w)" "areas w2 = areas w" "areaObjs w2 = areaObjs w" "nextAreaId w2 = nextAreaId w"
    "memoryService w2 = memoryService w" "processes w2 = processes w1"
    "processObjs w2 ?p = ?x" "p_areas (processObjs w2 child) = []"
    "\<And>q. q \<noteq> child \<Longrightarrow> processObjs w2 q = processObjs w q"
    using 1 child by (simp_all add: w2_def upd_process_def)
  have areas2: "areas_ok w2" using assms(1) 2 by (fastforce simp: team_ok_def areas_ok_def)
  then have ok: "team_ok w2 child" using assms(1) 2 by (simp add: team_ok_def om_ok_Nil)
  have rs: "r \<in> set ?rs \<Longrightarrow> \<exists>i. map_of (p_areas ?x) i = Some r" for r
    using assms(1) by (auto simp: team_ok_def map_of_eq_Some_iff om_ok_distinct)
  have old: "r < nextRef w \<and> range_ok (areaObjs w r)" if "map_of (p_areas ?x) i = Some r" for i r
    using assms(1) that unfolding team_ok_def areas_ok_def by blast
  have "\<forall>r\<in>set ?rs. r < nextRef w2 \<and> range_ok (areaObjs w2 r)" using rs old 2 by fastforce
  from fork_areas_ok [OF ok this, of mh] assms(5) 2 obtain w3 where w3: "fork_areas mh child ?rs w2 = Some w3"
    "\<forall>x. covers w3 child x \<longleftrightarrow> covers w2 child x \<or> (\<exists>r\<in>set ?rs. area_contains (areaObjs w2 r) x)"
    "\<forall>q<nextRef w2. areaObjs w3 q = areaObjs w2 q"
    "\<forall>i r. map_of (p_areas (processObjs w3 child)) i = Some r \<longrightarrow> nextRef w2 \<le> r"
    "\<forall>q. q \<noteq> child \<longrightarrow> processObjs w3 q = processObjs w2 q"
    by auto
  define w4 where "w4 = upd_process child (\<lambda>y. y\<lparr>p_fds := p_fds ?x, p_cwd := p_cwd ?x, p_root := p_root ?x,
      p_groups := p_groups ?x, p_forkUnlocked := True\<rparr>) w3"
  define w5 where "w5 = emit (TeamNotify TEAM_ADDED child) w4"
  have run: "call_fork mh c newPid w = Some (B_OK, w5)"
    using assms(2) reg child w3(1) 1
    by (simp add: call_fork_def Process_Fork_def Let_def w5_def w4_def w2_def)
  have procs: "processes w3 = processes w2" by (rule fork_areas_processes [OF w3(1)])
  then have "System_GetProcess w5 newPid = Some child"
    using 1 2 assms(3) by (simp add: w5_def w4_def emit_def upd_process_def System_GetProcess_def map_of_om_insert)
  moreover have cov: "covers w5 q x = covers w3 q x" for q x
    by (simp add: covers_def w5_def w4_def emit_def upd_process_def)
  moreover have "covers w3 child x = covers w ?p x" for x
  proof -
    have "covers w2 child x \<longleftrightarrow> False" using 2(8) by (simp add: covers_def)
    moreover have "(\<exists>r\<in>set ?rs. area_contains (areaObjs w r) x) \<longleftrightarrow> covers w ?p x"
      unfolding covers_def using rs by (force dest: map_of_SomeD)
    ultimately show ?thesis using w3(2) 2(3) by simp
  qed
  moreover have "map_of (p_areas (processObjs w5 child)) i = Some r \<Longrightarrow> nextRef w \<le> r" for i r
    using w3(4) 2(1) by (fastforce simp: w5_def w4_def emit_def upd_process_def)
  moreover have "processObjs w5 q = processObjs w q" if "q \<noteq> child" for q
    using w3(5) 2(9) that by (simp add: w5_def w4_def emit_def upd_process_def)
  moreover have "areaObjs w5 r = areaObjs w r" if "r < nextRef w" for r
    using w3(3) 2(1,3) that by (simp add: w5_def w4_def emit_def upd_process_def)
  moreover have "System_GetProcess w5 pid = System_GetProcess w pid" if "pid \<noteq> newPid" for pid
    using procs 1 2 assms(3) that
    by (simp add: w5_def w4_def emit_def upd_process_def System_GetProcess_def map_of_om_insert)
  moreover have "p_fds (processObjs w5 child) = p_fds ?x" "p_cwd (processObjs w5 child) = p_cwd ?x"
    "p_root (processObjs w5 child) = p_root ?x" "p_forkUnlocked (processObjs w5 child)"
    by (simp_all add: w5_def w4_def emit_def upd_process_def)
  ultimately show ?thesis using run child(2) by (intro exI [of _ w5] exI [of _ child]) simp
qed

theorem fork_copies_address_space_witness:
  "\<exists>w' child. call_fork sample_memory_host sample_context 5 area_world = Some (B_OK, w') \<and>
    System_GetProcess w' 5 = Some child \<and> covers w' child 5000 \<and> \<not> covers w' child 100"
proof -
  have w: "System_GetProcess area_world 5 = None" "om_ok (processes area_world)" "(0::nat) < nextRef area_world"
    "int (length (areas area_world) + length (p_areas (processObjs area_world 0))) \<le> INT_MAX"
    by (simp_all add: area_world_def sample_world_def System_GetProcess_def om_ok_def)
  show ?thesis
    using fork_copies_address_space [of area_world sample_context 5, unfolded area_world_ok(1),
        OF area_world_ok(2) w, of sample_memory_host] area_world_ok(5) by fastforce
qed

end
