(* ===== verification/ThreadCalls.thy ===== *)
theory ThreadCalls
  imports Calls
begin

text \<open>
  The thread calls of \<^verbatim>\<open>hyclone_server/thread.cpp\<close>, on top of the class (theory Thread)
  and the tables of the server (theory System).
\<close>

definition B_IDLE_PRIORITY :: int where "B_IDLE_PRIORITY = 0"
definition B_URGENT_DISPLAY_PRIORITY :: int where "B_URGENT_DISPLAY_PRIORITY = 20"
definition B_REAL_TIME_PRIORITY :: int where "B_REAL_TIME_PRIORITY = 120"
definition THREAD_NAME_CHANGED :: int where "THREAD_NAME_CHANGED = 4"
definition B_CURRENT_TEAM :: int where "B_CURRENT_TEAM = 0"

definition upd_thread_info :: "ref \<Rightarrow> (haiku_thread_info \<Rightarrow> haiku_thread_info) \<Rightarrow> world \<Rightarrow> world" where
  "upd_thread_info r f w = upd_thread r (\<lambda>t. t\<lparr>t_info := f (t_info t)\<rparr>) w"

section \<open>Descriptions\<close>

definition call_register_thread_info :: "host \<Rightarrow> hserver_context \<Rightarrow> int \<Rightarrow> world \<Rightarrow> int \<times> world" where
  "call_register_thread_info h c userThreadInfo w =
    (case read_exact h (ctx_pid c) userThreadInfo sizeof_thread_info of
       None \<Rightarrow> (B_BAD_ADDRESS, w)
     | Some bs \<Rightarrow>
         (let info = dec_thread_info bs
          in if ctx_tid c \<noteq> hi_thread info then (B_NOT_ALLOWED, w)
             else if ctx_pid c \<noteq> hi_team info then (B_NOT_ALLOWED, w)
             else case System_GetThread w (ctx_tid c) of
                None \<Rightarrow> (B_BAD_THREAD_ID, w)
              | Some r \<Rightarrow>
                  (let w1 = upd_thread_info r (\<lambda>x. x\<lparr>hi_name := strncpy 32 (hi_name info),
                        hi_priority := hi_priority info, hi_sem := hi_sem info,
                        hi_stack_base := hi_stack_base info, hi_stack_end := hi_stack_end info,
                        hi_state := hi_state info\<rparr>) w
                   in (B_OK, if hi_state info = B_THREAD_SUSPENDED
                             then upd_thread r (\<lambda>t. Thread_SetSuspended t True) w1 else w1))))"

text \<open>\<open>fill\<close> is what the host adds to a description (state and times from \<^verbatim>\<open>/proc\<close>).\<close>

definition call_get_thread_info ::
    "host \<Rightarrow> (haiku_thread_info \<Rightarrow> haiku_thread_info) \<Rightarrow> hserver_context \<Rightarrow> int \<Rightarrow> int \<Rightarrow> world \<Rightarrow> int \<times> world" where
  "call_get_thread_info h fill c threadId userThreadInfo w =
    (case System_GetThread w threadId of
       None \<Rightarrow> (B_BAD_THREAD_ID, w)
     | Some r \<Rightarrow>
         (case write_guest h (ctx_pid c) userThreadInfo (OThreadInfo (fill (t_info (threadObjs w r)))) w of
            None \<Rightarrow> (B_BAD_ADDRESS, w)
          | Some w' \<Rightarrow> (B_OK, w')))"

definition call_get_next_thread_info ::
    "host \<Rightarrow> (haiku_thread_info \<Rightarrow> haiku_thread_info) \<Rightarrow> hserver_context \<Rightarrow> int \<Rightarrow> int \<Rightarrow> int \<Rightarrow>
     world \<Rightarrow> int \<times> world" where
  "call_get_next_thread_info h fill c team userCookie userThreadInfo w =
    (case (if team = B_CURRENT_TEAM then Some (ctx_process c) else System_GetProcess w team) of
       None \<Rightarrow> (B_BAD_TEAM_ID, w)
     | Some p \<Rightarrow>
         (case Process_ReadMemory h (the_process c w) userCookie 4 of
            None \<Rightarrow> (B_BAD_ADDRESS, w)
          | Some bs \<Rightarrow>
              if dec_int32 bs = -1 then (B_BAD_VALUE, w)
              else
                (let cookie = Process_NextThreadId (processObjs w p) (dec_int32 bs)
                 in if cookie = -1
                    then reply_with h c userCookie (OInt32 cookie) B_BAD_VALUE w
                    else case Process_GetThread (processObjs w p) cookie of
                        None \<Rightarrow> (B_BAD_THREAD_ID, w)
                      | Some t \<Rightarrow>
                          (case Process_WriteMemory h c userThreadInfo
                                  (OThreadInfo (fill (t_info (threadObjs w t)))) w of
                             None \<Rightarrow> (B_BAD_ADDRESS, w)
                           | Some w1 \<Rightarrow> reply_with h c userCookie (OInt32 cookie) B_OK w1))))"

text \<open>
  The name is read in place: a read that is cut short leaves the bytes it got in the old name.
\<close>

definition call_rename_thread :: "host \<Rightarrow> hserver_context \<Rightarrow> int \<Rightarrow> int \<Rightarrow> int \<Rightarrow> world \<Rightarrow> int \<times> world" where
  "call_rename_thread h c threadId userNewName len w =
    (case System_GetThread w threadId of
       None \<Rightarrow> (B_BAD_THREAD_ID, w)
     | Some r \<Rightarrow>
         (let n = min len 31;
              (k, bs) = server_read_process_memory h (ctx_pid c) userNewName n;
              w1 = upd_thread_info r (\<lambda>x. x\<lparr>hi_name := bs @ drop (length bs) (hi_name x)\<rparr>) w
          in if k \<noteq> n then (B_BAD_ADDRESS, w1)
             else (B_OK, emit (ThreadNotify THREAD_NAME_CHANGED r)
                           (upd_thread_info r (\<lambda>x. x\<lparr>hi_name := (hi_name x)[nat n := CHR 0x00]\<rparr>) w1))))"

text \<open>
  \<open>sched tid realtime prio\<close> says whether \<open>sched_setscheduler\<close> succeeds, with \<open>SCHED_RR\<close> when
  \<open>realtime\<close> holds and \<open>SCHED_OTHER\<close> otherwise.
\<close>

definition call_set_thread_priority ::
    "(int \<Rightarrow> bool \<Rightarrow> int \<Rightarrow> bool) \<Rightarrow> int \<Rightarrow> int \<Rightarrow> world \<Rightarrow> int \<times> world" where
  "call_set_thread_priority sched threadId newPriority w =
    (case System_GetThread w threadId of
       None \<Rightarrow> (B_BAD_THREAD_ID, w)
     | Some r \<Rightarrow>
         if newPriority < B_IDLE_PRIORITY \<or> newPriority > B_REAL_TIME_PRIORITY then (B_BAD_VALUE, w)
         else
           (let (realtime, prio) = (if newPriority \<le> B_URGENT_DISPLAY_PRIORITY then (False, 0)
                                    else (True, newPriority - B_URGENT_DISPLAY_PRIORITY))
            in if \<not> sched threadId realtime prio then (B_NOT_ALLOWED, w)
               else (B_OK, upd_thread_info r (\<lambda>x. x\<lparr>hi_priority := newPriority\<rparr>) w)))"

section \<open>Suspending and blocking\<close>

definition call_suspend_thread :: "hserver_context \<Rightarrow> int \<Rightarrow> world \<Rightarrow> int \<times> world" where
  "call_suspend_thread c threadId w =
    (case System_GetThread w threadId of
       None \<Rightarrow> (B_BAD_THREAD_ID, w)
     | Some r \<Rightarrow>
         if threadId \<noteq> ctx_tid c then (HAIKU_POSIX_ENOSYS, w)
         else (B_OK, upd_thread_info r (\<lambda>x. x\<lparr>hi_state := B_THREAD_SUSPENDED\<rparr>) w))"

definition call_resume_thread :: "int \<Rightarrow> world \<Rightarrow> int \<times> world" where
  "call_resume_thread threadId w =
    (case System_GetThread w threadId of
       None \<Rightarrow> (B_BAD_THREAD_ID, w)
     | Some r \<Rightarrow>
         (B_OK, upd_thread_info r (\<lambda>x. x\<lparr>hi_state := B_THREAD_RUNNING\<rparr>) (upd_thread r Thread_Resume w)))"

text \<open>The wait is over at once when the flag is not set; \<open>env\<close> is what happens during it.\<close>

definition call_wait_for_resume :: "(world \<Rightarrow> world) \<Rightarrow> hserver_context \<Rightarrow> world \<Rightarrow> (int \<times> world) option" where
  "call_wait_for_resume env c w =
    (if resume_wait_done (the_thread c w) then Some (B_OK, w)
     else (let w1 = env w in if resume_wait_done (the_thread c w1) then Some (B_OK, w1) else None))"

definition call_register_user_thread :: "hserver_context \<Rightarrow> int \<Rightarrow> world \<Rightarrow> int \<times> world" where
  "call_register_user_thread c address w =
    (B_OK, upd_thread (ctx_thread c) (\<lambda>t. t\<lparr>t_userThreadAddress := address\<rparr>) w)"

definition log_writes :: "guest_write list \<Rightarrow> world \<Rightarrow> world" where
  "log_writes gs w = w\<lparr>guestWrites := guestWrites w @ gs\<rparr>"

text \<open>Flags and timeout only decide when the wait may end without an unblock.\<close>

definition call_block_thread :: "host \<Rightarrow> (world \<Rightarrow> world) \<Rightarrow> hserver_context \<Rightarrow> world \<Rightarrow> int \<times> world" where
  "call_block_thread h env c w =
    (case Thread_Block_begin h (the_thread c w) of
       Inl status \<Rightarrow> (status, w)
     | Inr t \<Rightarrow>
         (let w1 = env (upd_thread (ctx_thread c) (\<lambda>_. t) w);
              (status, t', gs) = Thread_Block_end h (the_thread c w1)
          in (status, log_writes gs (upd_thread (ctx_thread c) (\<lambda>_. t') w1))))"

definition call_unblock_thread :: "host \<Rightarrow> int \<Rightarrow> int \<Rightarrow> world \<Rightarrow> int \<times> world" where
  "call_unblock_thread h threadId status w =
    (case System_GetThread w threadId of
       None \<Rightarrow> (B_BAD_THREAD_ID, w)
     | Some r \<Rightarrow>
         (let (result, t, gs) = Thread_Unblock h (threadObjs w r) status
          in (result, log_writes gs (upd_thread r (\<lambda>_. t) w))))"

section \<open>Mail\<close>

definition thread_SendData ::
    "(world \<Rightarrow> world) \<Rightarrow> ref \<Rightarrow> int \<Rightarrow> int \<Rightarrow> byte list \<Rightarrow> world \<Rightarrow> int \<times> world" where
  "thread_SendData env r sender code bs w =
    (let w1 = (if t_sender (threadObjs w r) \<noteq> -1 then env w else w);
         (status, t) = Thread_SendData_finish (threadObjs w1 r) sender code bs
     in (status, upd_thread r (\<lambda>_. t) w1))"

definition thread_ReceiveData ::
    "(world \<Rightarrow> world) \<Rightarrow> ref \<Rightarrow> world \<Rightarrow> int \<times> (int \<times> int \<times> byte list) option \<times> world" where
  "thread_ReceiveData env r w =
    (let w1 = (if t_sender (threadObjs w r) = -1 then env w else w);
         (status, m, t) = Thread_ReceiveData_finish (threadObjs w1 r)
     in (status, m, upd_thread r (\<lambda>_. t) w1))"

definition call_send_data ::
    "host \<Rightarrow> (world \<Rightarrow> world) \<Rightarrow> hserver_context \<Rightarrow> int \<Rightarrow> int \<Rightarrow> int \<Rightarrow> int \<Rightarrow> world \<Rightarrow> int \<times> world" where
  "call_send_data h env c threadId code buf len w =
    (case System_GetThread w threadId of
       None \<Rightarrow> (B_BAD_THREAD_ID, w)
     | Some r \<Rightarrow>
         (case Process_ReadMemory h (the_process c w) buf len of
            None \<Rightarrow> (B_BAD_ADDRESS, w)
          | Some bs \<Rightarrow> thread_SendData env r (ctx_tid c) code bs w))"

definition call_receive_data ::
    "host \<Rightarrow> (world \<Rightarrow> world) \<Rightarrow> hserver_context \<Rightarrow> int \<Rightarrow> int \<Rightarrow> int \<Rightarrow> world \<Rightarrow> int \<times> world" where
  "call_receive_data h env c userSender userData len w =
    (case thread_ReceiveData env (ctx_thread c) w of
       (status, None, w1) \<Rightarrow> (status, w1)
     | (status, Some (sender, code, bs), w1) \<Rightarrow>
         (case Process_WriteMemory h c userData (OBytes (take (nat (min len (int (length bs)))) bs)) w1 of
            None \<Rightarrow> (B_BAD_ADDRESS, w1)
          | Some w2 \<Rightarrow> reply_with h c userSender (OInt32 sender) code w2))"

section \<open>Requests\<close>

definition call_request_ack :: "hserver_context \<Rightarrow> int \<Rightarrow> int \<Rightarrow> world \<Rightarrow> int \<times> world" where
  "call_request_ack c pid tid w =
    (case t_request (the_thread c w) of
       None \<Rightarrow> (B_BAD_VALUE, w)
     | Some rq \<Rightarrow>
         (let status = Request_Size rq
          in if status < 0 then (status, w)
             else (status, System_RegisterConnection w (ctx_conn c)
                             \<lparr>conn_pid = pid, conn_tid = tid, conn_isPrimary = False\<rparr>)))"

definition call_request_read :: "host \<Rightarrow> hserver_context \<Rightarrow> int \<Rightarrow> world \<Rightarrow> int \<times> world" where
  "call_request_read h c userData w =
    (case t_request (the_thread c w) of
       None \<Rightarrow> (B_BAD_VALUE, w)
     | Some rq \<Rightarrow>
         (let (status, gs) = Thread_RequestRead h (the_thread c w) rq userData
          in (status, log_writes gs w)))"

definition call_request_reply :: "hserver_context \<Rightarrow> int \<Rightarrow> world \<Rightarrow> int \<times> world" where
  "call_request_reply c reply w =
    (case t_request (the_thread c w) of
       None \<Rightarrow> (B_BAD_VALUE, w)
     | Some rq \<Rightarrow>
         (let (status, rq', t) = Thread_RequestReply (the_thread c w) rq reply
          in (status, upd_thread (ctx_thread c) (\<lambda>_. t) w)))"

section \<open>Enumeration\<close>

text \<open>
  A guest enumerates a team by calling \<open>get_next_thread_info\<close> until it fails, starting from the
  cookie 0. \<open>thread_walk\<close> runs \<open>n\<close> such calls; \<open>h k\<close> is the host when the guest's cookie
  variable holds \<open>k\<close>.
\<close>

primrec thread_walk ::
    "(int \<Rightarrow> host) \<Rightarrow> (haiku_thread_info \<Rightarrow> haiku_thread_info) \<Rightarrow> hserver_context \<Rightarrow> int \<Rightarrow> int \<Rightarrow> int \<Rightarrow>
     nat \<Rightarrow> int \<Rightarrow> world \<Rightarrow> int \<times> world" where
  "thread_walk h fill c team userCookie userInfo 0 cookie w = (B_OK, w)"
| "thread_walk h fill c team userCookie userInfo (Suc n) cookie w =
    (case call_get_next_thread_info (h cookie) fill c team userCookie userInfo w of
       (status, w') \<Rightarrow>
         if status \<noteq> B_OK then (status, w')
         else (case last (guestWrites w') of
                 (_, _, OInt32 next) \<Rightarrow> thread_walk h fill c team userCookie userInfo n next w'
               | _ \<Rightarrow> (status, w')))"

definition thread_infos :: "guest_write list \<Rightarrow> haiku_thread_info list" where
  "thread_infos gs = List.map_filter (\<lambda>(_, _, obj). case obj of OThreadInfo i \<Rightarrow> Some i | _ \<Rightarrow> None) gs"

lemma thread_infos_simps [simp]:
  "thread_infos [] = []" "thread_infos (xs @ ys) = thread_infos xs @ thread_infos ys"
  "thread_infos [(p, a, OThreadInfo i)] = [i]" "thread_infos [(p, a, OInt32 k)] = []"
  by (simp_all add: thread_infos_def map_filter_def)

lemma om_next_found:
  "nonneg_keys m \<Longrightarrow> om_next m k \<noteq> -1 \<Longrightarrow> -1 \<le> k \<Longrightarrow> \<exists>r. map_of m (om_next m k) = Some r"
  using map_cursor.nxt_least [of m k] by (metis domD om_keys_dom)

text \<open>One call of the enumeration, in a guest whose cookie variable holds \<open>k\<close>.\<close>

lemma next_thread_info_step:
  assumes m: "m = p_threads (the_process c w)" "nonneg_keys m" "is_int32 k" "0 \<le> k"
    and rd: "read_exact h (p_pid (the_process c w)) userCookie 4 = Some (le_bytes 4 k)"
    and wr: "\<And>a obj. write_exact h (p_pid (the_process c w)) a obj"
  shows "call_get_next_thread_info h fill c B_CURRENT_TEAM userCookie userInfo w =
    (let j = om_next m k; pid = p_pid (the_process c w)
     in if j = -1 then (B_BAD_VALUE, w\<lparr>guestWrites := guestWrites w @ [(pid, userCookie, OInt32 j)]\<rparr>)
        else (B_OK, w\<lparr>guestWrites := guestWrites w @
               [(pid, userInfo, OThreadInfo (fill (t_info (threadObjs w (the (map_of m j)))))),
                (pid, userCookie, OInt32 j)]\<rparr>))"
  using om_next_found [OF m(2), of k] m(3,4) rd wr
  by (auto simp: call_get_next_thread_info_def Process_ReadMemory_def Process_NextThreadId_def
      Process_GetThread_def reply_with_def Process_WriteMemory_def write_guest_def Let_def
      dec_int32_le_bytes simp flip: m(1))

lemma thread_walk_run:
  assumes m: "m = p_threads (the_process c w)" "nonneg_keys m" "\<forall>k\<in>om_keys m. k \<le> INT_MAX"
    and host: "\<And>k. read_exact (h k) (p_pid (the_process c w)) userCookie 4 = Some (le_bytes 4 k)"
      "\<And>k a obj. write_exact (h k) (p_pid (the_process c w)) a obj"
    and "0 \<le> i" "i \<le> INT_MAX" "card {j \<in> om_keys m. i < j} < n"
  shows "\<exists>gs. thread_walk h fill c B_CURRENT_TEAM userCookie userInfo n i w =
      (B_BAD_VALUE, w\<lparr>guestWrites := guestWrites w @ gs\<rparr>) \<and>
    thread_infos gs = map (\<lambda>k. fill (t_info (threadObjs w (the (map_of m k)))))
      (cursor_walk om_next n m i)"
  using assms
proof (induction n arbitrary: i w)
  case 0
  from "0.prems"(8) show ?case by simp
next
  case (Suc n)
  let ?pid = "p_pid (the_process c w)" and ?j = "om_next m i"
  have i32: "is_int32 i" using Suc.prems(6,7) by (simp add: is_int32_def)
  note step = next_thread_info_step [OF Suc.prems(1,2) i32 Suc.prems(6,4,5), of fill]
  have "-1 \<le> i" using Suc.prems(6) by simp
  from map_cursor.nxt_cases [OF Suc.prems(2) this] show ?case
  proof (elim disjE conjE)
    assume "?j = -1"
    then show ?thesis
      by (intro exI [of _ "[(?pid, userCookie, OInt32 (-1))]"])
        (simp add: step status_codes)
  next
    assume j: "?j \<in> om_keys m" "i < ?j" "0 \<le> ?j"
      "{k \<in> om_keys m. i < k} = insert ?j {k \<in> om_keys m. ?j < k}"
    let ?gs = "[(?pid, userInfo, OThreadInfo (fill (t_info (threadObjs w (the (map_of m ?j)))))),
      (?pid, userCookie, OInt32 ?j)]"
    let ?w = "w\<lparr>guestWrites := guestWrites w @ ?gs\<rparr>"
    have less: "card {k \<in> om_keys m. ?j < k} < n" using Suc.prems(8) j(4) by simp
    obtain gs where gs: "thread_walk h fill c B_CURRENT_TEAM userCookie userInfo n ?j ?w =
        (B_BAD_VALUE, ?w\<lparr>guestWrites := guestWrites ?w @ gs\<rparr>)"
      "thread_infos gs = map (\<lambda>k. fill (t_info (threadObjs ?w (the (map_of m k)))))
        (cursor_walk om_next n m ?j)"
      using Suc.IH [of ?w ?j] Suc.prems(1-5) j(1,3) less by force
    have "thread_walk h fill c B_CURRENT_TEAM userCookie userInfo (Suc n) i w =
        thread_walk h fill c B_CURRENT_TEAM userCookie userInfo n ?j ?w"
      using j(3) by (simp add: step Let_def)
    moreover have "thread_infos (?gs @ gs) = map (\<lambda>k. fill (t_info (threadObjs w (the (map_of m k)))))
        (cursor_walk om_next (Suc n) m i)"
      using gs(2) j(3) thread_infos_simps(2) [of "[hd ?gs]" "tl ?gs @ gs"]
        thread_infos_simps(2) [of "tl ?gs" gs] by (simp add: Let_def)
    ultimately show ?thesis using gs(1) by (intro exI [of _ "?gs @ gs"]) simp
  qed
qed

text \<open>
  Enumerating the threads of a team ends. A guest that calls \<open>get_next_thread_info\<close> from the
  cookie 0 until it fails gets the description of every thread of its team exactly once, in the
  order of the ids, and then \<open>B_BAD_VALUE\<close>; one call more than there are threads is enough.
\<close>

theorem thread_walk_lists_team:
  assumes "nonneg_keys (p_threads (the_process c w))"
    and "om_keys (p_threads (the_process c w)) \<subseteq> {1..INT_MAX}"
    and "\<And>k. read_exact (h k) (p_pid (the_process c w)) userCookie 4 = Some (le_bytes 4 k)"
    and "\<And>k a obj. write_exact (h k) (p_pid (the_process c w)) a obj"
    and "length (p_threads (the_process c w)) < n"
  shows "\<exists>gs. thread_walk h fill c B_CURRENT_TEAM userCookie userInfo n 0 w =
      (B_BAD_VALUE, w\<lparr>guestWrites := guestWrites w @ gs\<rparr>) \<and>
    thread_infos gs = map (\<lambda>k. fill (t_info (threadObjs w (the (Process_GetThread (the_process c w) k)))))
      (sorted_list_of_set (om_keys (p_threads (the_process c w))))"
proof -
  let ?m = "p_threads (the_process c w)"
  have all: "{j \<in> om_keys ?m. 0 < j} = om_keys ?m" using assms(2) by fastforce
  have max: "\<forall>k\<in>om_keys ?m. k \<le> INT_MAX" using assms(2) by fastforce
  have n: "card {j \<in> om_keys ?m. 0 < j} < n"
    using assms(5) card_image_le [of "set ?m" fst] card_length [of ?m] unfolding all by simp
  have "sorted_wrt (<) (cursor_walk om_next n ?m 0) \<and> set (cursor_walk om_next n ?m 0) = om_keys ?m"
    using map_cursor.walk_complete [OF assms(1), of 0 n] n unfolding all by simp
  then have "cursor_walk om_next n ?m 0 = sorted_list_of_set (om_keys ?m)"
    using sorted_list_of_set.idem_if_sorted_distinct strict_sorted_iff by metis
  with thread_walk_run [OF refl assms(1) max assms(3,4) _ _ n] show ?thesis
    by (simp add: Process_GetThread_def)
qed

text \<open>A team of two threads.\<close>

definition sample_two_threads :: world where
  "sample_two_threads = sample_world\<lparr>
     processObjs := \<lambda>_. (Process_new 4 0 0 0 0)\<lparr>p_threads := [(4, 0), (9, 1)]\<rparr>,
     threadObjs := \<lambda>r. Thread_new 4 (if r = 0 then 4 else 9)\<rparr>"

definition cookie_host :: "int \<Rightarrow> host" where
  "cookie_host k = sample_host\<lparr>vm_read := \<lambda>_ _ _. Some (le_bytes 4 k)\<rparr>"

theorem thread_walk_lists_team_witness:
  "\<exists>w'. thread_walk cookie_host id sample_context B_CURRENT_TEAM 100 200 3 0 sample_two_threads =
      (B_BAD_VALUE, w') \<and>
    map hi_thread (thread_infos (guestWrites w')) = [4, 9]"
proof -
  have team: "p_threads (the_process sample_context sample_two_threads) = [(4, 0), (9, 1)]"
    and objs: "threadObjs sample_two_threads = (\<lambda>r. Thread_new 4 (if r = 0 then 4 else 9))"
    and writes: "guestWrites sample_two_threads = []"
    by (simp_all add: sample_two_threads_def sample_world_def world_init_def)
  have ok: "nonneg_keys (p_threads (the_process sample_context sample_two_threads))"
    unfolding team by (simp add: nonneg_keys_def om_ok_def)
  have rd: "read_exact (cookie_host k) pid a 4 = Some (le_bytes 4 k)" for k pid a
    by (simp add: cookie_host_def read_exact_def server_read_process_memory_def)
  have wr: "write_exact (cookie_host k) pid a obj" for k pid a obj
    by (simp add: cookie_host_def sample_host_def write_exact_def server_write_process_memory_def)
  have "\<exists>gs. thread_walk cookie_host id sample_context B_CURRENT_TEAM 100 200 3 0 sample_two_threads =
      (B_BAD_VALUE, sample_two_threads\<lparr>guestWrites := guestWrites sample_two_threads @ gs\<rparr>) \<and>
    thread_infos gs = map (\<lambda>k. id (t_info (threadObjs sample_two_threads
        (the (Process_GetThread (the_process sample_context sample_two_threads) k)))))
      (sorted_list_of_set (om_keys (p_threads (the_process sample_context sample_two_threads))))"
    by (rule thread_walk_lists_team [OF ok _ rd wr]) (simp_all add: team)
  then show ?thesis
    by (elim exE conjE) (simp add: team objs writes Process_GetThread_def Thread_new_def)
qed

section \<open>Suspending oneself\<close>

text \<open>
  \<open>suspend_thread\<close> followed by \<open>wait_for_resume\<close>, the way a debugged thread stops itself,
  does not stop it. The call on itself only writes the suspended state into the description of the
  thread; the flag that \<open>wait_for_resume\<close> waits on stays as it was, so a thread that was running
  goes on at once while every other team sees it as suspended.
\<close>

theorem suspend_self_does_not_wait:
  assumes "System_GetThread w (ctx_tid c) = Some (ctx_thread c)"
    and "\<not> t_suspended (the_thread c w)"
  shows "\<exists>w'. call_suspend_thread c (ctx_tid c) w = (B_OK, w') \<and>
    hi_state (t_info (the_thread c w')) = B_THREAD_SUSPENDED \<and>
    call_wait_for_resume env c w' = Some (B_OK, w')"
  using assms
  by (simp add: call_suspend_thread_def call_wait_for_resume_def resume_wait_done_def
      upd_thread_info_def upd_thread_def)

theorem suspend_self_does_not_wait_witness:
  "\<exists>w'. call_suspend_thread sample_context 4 sample_world = (B_OK, w') \<and>
    call_wait_for_resume id sample_context w' = Some (B_OK, w')"
  using suspend_self_does_not_wait [of sample_world sample_context id]
  by (auto simp: sample_context_def sample_world_def System_GetThread_def Thread_new_def)

end
