(* ===== verification/ReservedRange.thy ===== *)
theory ReservedRange
  imports Prelude
begin

text \<open>
  \<^verbatim>\<open>haiku_loader/loader_reservedrange.cpp\<close>: the address ranges that a guest has reserved and,
  for each, the ranges in it that are mapped. A \<open>std::set\<close> or \<open>std::map\<close> is the list of its
  elements in the order of \<open>operator<\<close>; a failed \<open>assert\<close> or the use of \<open>end()\<close> is
  \<open>None\<close>. Addresses and sizes are unbounded integers: \<open>ranges_ok\<close> keeps every range
  below the end of the address space, so that no pointer wraps around.
\<close>

section \<open>Ranges\<close>

record range_info =
  rg_address :: int
  rg_size :: int

abbreviation Range :: "int \<Rightarrow> int \<Rightarrow> range_info" where
  "Range a n \<equiv> \<lparr>rg_address = a, rg_size = n\<rparr>"

definition rg_end :: "range_info \<Rightarrow> int" where
  "rg_end r = rg_address r + rg_size r"

definition range_less :: "range_info \<Rightarrow> range_info \<Rightarrow> bool" where
  "range_less x y \<longleftrightarrow>
    (if rg_address x \<noteq> rg_address y then rg_address x < rg_address y else rg_size x < rg_size y)"

definition SIZE_MAX :: int where
  "SIZE_MAX = 2 ^ 64 - 1"

text \<open>The elements in front of \<open>upper_bound(RangeInfo{address, SIZE_MAX})\<close> and those from it on.\<close>

definition not_above :: "int \<Rightarrow> range_info \<Rightarrow> bool" where
  "not_above a r \<longleftrightarrow> \<not> range_less (Range a SIZE_MAX) r"

definition rs_insert :: "range_info \<Rightarrow> range_info list \<Rightarrow> range_info list" where
  "rs_insert r rs =
    (if r \<in> set rs then rs
     else takeWhile (\<lambda>x. range_less x r) rs @ r # dropWhile (\<lambda>x. range_less x r) rs)"

type_synonym reserved_ranges = "(range_info \<times> range_info list) list"

definition rm_insert :: "range_info \<times> range_info list \<Rightarrow> reserved_ranges \<Rightarrow> reserved_ranges" where
  "rm_insert e s =
    (if fst e \<in> fst ` set s then s
     else takeWhile (\<lambda>x. range_less (fst x) (fst e)) s @ e #
          dropWhile (\<lambda>x. range_less (fst x) (fst e)) s)"

definition set_mappings :: "range_info \<Rightarrow> range_info list \<Rightarrow> reserved_ranges \<Rightarrow> reserved_ranges" where
  "set_mappings k ms s = map (\<lambda>e. if fst e = k then (k, ms) else e) s"

section \<open>Operations\<close>

definition loader_is_in_reserved_range :: "reserved_ranges \<Rightarrow> int \<Rightarrow> int \<Rightarrow> bool" where
  "loader_is_in_reserved_range s address n =
    (case rev (takeWhile (not_above address \<circ> fst) s) of
       [] \<Rightarrow> False
     | (r, _) # _ \<Rightarrow> rg_address r \<le> address \<and> address + n \<le> rg_end r)"

definition loader_collides_with_reserved_range :: "reserved_ranges \<Rightarrow> int \<Rightarrow> int \<Rightarrow> bool" where
  "loader_collides_with_reserved_range s address n \<longleftrightarrow>
    (case dropWhile (not_above address \<circ> fst) s of
       [] \<Rightarrow> False | (r, _) # _ \<Rightarrow> address + n > rg_address r) \<or>
    (case rev (takeWhile (not_above address \<circ> fst) s) of
       [] \<Rightarrow> False | (r, _) # _ \<Rightarrow> address < rg_end r)"

definition loader_reserved_range_longest_mappable_from ::
    "reserved_ranges \<Rightarrow> int \<Rightarrow> int \<Rightarrow> int option" where
  "loader_reserved_range_longest_mappable_from s address maxSize =
    (if \<not> loader_is_in_reserved_range s address 0 then None
     else case rev (takeWhile (not_above address \<circ> fst) s) of
       [] \<Rightarrow> Some 0
     | (r, ms) # _ \<Rightarrow>
         if ms = [] then Some (min maxSize (rg_end r - address))
         else (case (rev (takeWhile (not_above address) ms), dropWhile (not_above address) ms) of
             ([], []) \<Rightarrow> None
           | ([], m # _) \<Rightarrow> Some (min maxSize (rg_address m - address))
           | (l # _, next) \<Rightarrow>
               if rg_end l > address then Some 0
               else (case next of
                   [] \<Rightarrow> Some (min maxSize (rg_end r - address))
                 | m # _ \<Rightarrow> Some (min maxSize (rg_address m - address)))))"

definition loader_register_reserved_range :: "int \<Rightarrow> int \<Rightarrow> reserved_ranges \<Rightarrow> reserved_ranges option" where
  "loader_register_reserved_range address n s =
    (let info = Range address n;
         before = takeWhile (\<lambda>x. range_less (fst x) info) s;
         after = dropWhile (\<lambda>x. range_less (fst x) info) s
     in if info \<in> fst ` set s then None
        else if before \<noteq> [] \<and> \<not> address \<ge> rg_end (fst (last before)) then None
        else if after \<noteq> [] \<and> \<not> address + n \<le> rg_address (fst (hd after)) then None
        else Some (rm_insert (info, []) s))"

text \<open>
  The two loops of \<open>loader_unregister_reserved_range\<close>: the mappings that start before the end
  \<open>e\<close> of the left remainder, cut at it, with the rest of the mappings; and what the rest leaves
  in the right remainder, which starts at \<open>b\<close>.
\<close>

fun left_mappings :: "int \<Rightarrow> range_info list \<Rightarrow> range_info list \<Rightarrow> range_info list \<times> range_info list" where
  "left_mappings e new [] = (new, [])"
| "left_mappings e new (m # ms) =
    (if rg_address m < e
     then left_mappings e (rs_insert (Range (rg_address m) (min (rg_size m) (e - rg_address m))) new) ms
     else (new, m # ms))"

fun right_mappings :: "int \<Rightarrow> range_info list \<Rightarrow> range_info list \<Rightarrow> range_info list" where
  "right_mappings b new [] = new"
| "right_mappings b new (m # ms) =
    (let a = max (rg_address m) b
     in right_mappings b (rs_insert (Range a (rg_end m - a)) new) ms)"

definition loader_unregister_reserved_range :: "int \<Rightarrow> int \<Rightarrow> reserved_ranges \<Rightarrow> reserved_ranges option" where
  "loader_unregister_reserved_range address n s =
    (if \<not> loader_is_in_reserved_range s address n then None
     else case rev (takeWhile (not_above address \<circ> fst) s) of
       [] \<Rightarrow> None
     | (old, ms) # _ \<Rightarrow>
         (let s0 = filter (\<lambda>e. fst e \<noteq> old) s
          in if old = Range address n then Some s0
             else
               (let (s1, ms1) =
                  (if rg_address old < address
                   then (case left_mappings address [] ms of
                           (new, rest) \<Rightarrow>
                             (rm_insert (Range (rg_address old) (address - rg_address old), new) s0, rest))
                   else (s0, ms))
                in if rg_end old > address + n
                   then Some (rm_insert
                     (Range (address + n) (rg_end old - address - n),
                      right_mappings (address + n) []
                        (dropWhile (\<lambda>m. rg_end m \<le> address + n) ms1)) s1)
                   else Some s1)))"

text \<open>
  The new mapping is merged with a neighbour that it touches; the inserted element stands right
  behind the neighbour it extends to the left.
\<close>

definition map_range :: "int \<Rightarrow> int \<Rightarrow> range_info list \<Rightarrow> range_info list" where
  "map_range address n ms =
    (let above = dropWhile (not_above address) ms;
         below = takeWhile (not_above address) ms;
         deleteNext = (above \<noteq> [] \<and> rg_address (hd above) = address + n);
         n1 = (if deleteNext then n + rg_size (hd above) else n);
         deletePrev = (below \<noteq> [] \<and> rg_end (last below) = address);
         new = (if deletePrev then Range (rg_address (last below)) (n1 + rg_size (last below))
                else Range address n1);
         inserted = rs_insert new ms;
         behind = tl (dropWhile (\<lambda>x. range_less x new) inserted);
         before = takeWhile (\<lambda>x. range_less x new) inserted
     in (if deletePrev then butlast before else before) @ new #
        (if deleteNext then tl behind else behind))"

definition loader_map_reserved_range :: "int \<Rightarrow> int \<Rightarrow> reserved_ranges \<Rightarrow> reserved_ranges option" where
  "loader_map_reserved_range address n s =
    (case loader_reserved_range_longest_mappable_from s address n of
       None \<Rightarrow> None
     | Some k \<Rightarrow>
         if k < n then None
         else (case rev (takeWhile (not_above address \<circ> fst) s) of
             [] \<Rightarrow> None
           | (r, ms) # _ \<Rightarrow>
               Some (set_mappings r (if ms = [] then [Range address n] else map_range address n ms) s)))"

text \<open>The loop over the mappings from the first that can meet the range; \<open>rest\<close> is its iterator.\<close>

fun unmap_loop :: "int \<Rightarrow> int \<Rightarrow> range_info list \<Rightarrow> range_info list \<Rightarrow> range_info list" where
  "unmap_loop b e [] ms = ms"
| "unmap_loop b e (r # rest) ms =
    (if rg_address r < e then
       (let ms1 = filter (\<lambda>x. x \<noteq> r) ms;
            ms2 = (if rg_address r < b then rs_insert (Range (rg_address r) (b - rg_address r)) ms1
                   else ms1);
            ms3 = (if rg_end r > e then rs_insert (Range e (rg_end r - e)) ms2 else ms2)
        in unmap_loop b e rest ms3)
     else ms)"

definition loader_unmap_reserved_range :: "int \<Rightarrow> int \<Rightarrow> reserved_ranges \<Rightarrow> reserved_ranges option" where
  "loader_unmap_reserved_range address n s =
    (if \<not> loader_is_in_reserved_range s address n then None
     else case rev (takeWhile (not_above address \<circ> fst) s) of
       [] \<Rightarrow> None
     | (r, ms) # _ \<Rightarrow>
         (let below = takeWhile (not_above address) ms;
              above = dropWhile (not_above address) ms;
              start = (if below \<noteq> [] \<and> rg_end (last below) > address then last below # above else above)
          in Some (set_mappings r (unmap_loop address (address + n) start ms) s)))"

text \<open>Both queries report 0 for an address in front of the first range or mapping.\<close>

definition loader_next_reserved_range :: "reserved_ranges \<Rightarrow> int \<Rightarrow> (int \<times> int) option" where
  "loader_next_reserved_range s address =
    (case rev (takeWhile (not_above address \<circ> fst) s) of
       [] \<Rightarrow> None
     | (r, _) # _ \<Rightarrow>
         if rg_end r \<le> address
         then (case dropWhile (not_above address \<circ> fst) s of
                 [] \<Rightarrow> None | (r', _) # _ \<Rightarrow> Some (rg_address r', rg_size r'))
         else Some (rg_address r, rg_size r))"

text \<open>The outer option is undefined behaviour, the inner one the result 0.\<close>

definition loader_next_reserved_range_mapping :: "reserved_ranges \<Rightarrow> int \<Rightarrow> (int \<times> int) option option" where
  "loader_next_reserved_range_mapping s address =
    (if \<not> loader_is_in_reserved_range s address 0 then None
     else case rev (takeWhile (not_above address \<circ> fst) s) of
       [] \<Rightarrow> Some None
     | (_, ms) # _ \<Rightarrow>
         (case rev (takeWhile (not_above address) ms) of
            [] \<Rightarrow> Some None
          | m # _ \<Rightarrow>
              if rg_end m \<le> address
              then (case dropWhile (not_above address) ms of
                      [] \<Rightarrow> None | m' # _ \<Rightarrow> Some (Some (rg_address m', rg_size m')))
              else Some (Some (rg_address m, rg_size m))))"

section \<open>What a state means\<close>

definition span :: "range_info \<Rightarrow> int set" where
  "span r = {rg_address r ..< rg_end r}"

definition spans :: "range_info list \<Rightarrow> int set" where
  "spans rs = (\<Union>r\<in>set rs. span r)"

definition mappings_ok :: "int \<Rightarrow> int \<Rightarrow> range_info list \<Rightarrow> bool" where
  "mappings_ok lo hi rs \<longleftrightarrow> sorted_wrt (\<lambda>x y. rg_end x \<le> rg_address y) rs \<and>
     (\<forall>r\<in>set rs. lo \<le> rg_address r \<and> 0 < rg_size r \<and> rg_end r \<le> hi)"

definition ranges_ok :: "reserved_ranges \<Rightarrow> bool" where
  "ranges_ok s \<longleftrightarrow> mappings_ok 0 SIZE_MAX (map fst s) \<and>
     (\<forall>(r, ms)\<in>set s. mappings_ok (rg_address r) (rg_end r) ms)"

definition reserved :: "reserved_ranges \<Rightarrow> int set" where
  "reserved s = spans (map fst s)"

definition mapped :: "reserved_ranges \<Rightarrow> int set" where
  "mapped s = (\<Union>e\<in>set s. spans (snd e))"

lemma rg_end_Range [simp]: "rg_end (Range a n) = a + n"
  by (simp add: rg_end_def)

lemma in_span: "x \<in> span r \<longleftrightarrow> rg_address r \<le> x \<and> x < rg_end r"
  by (simp add: span_def)

lemma in_spans: "x \<in> spans rs \<longleftrightarrow> (\<exists>r\<in>set rs. rg_address r \<le> x \<and> x < rg_end r)"
  by (auto simp: spans_def span_def)

lemma spans_simps [simp]:
  "spans [] = {}" "spans (r # rs) = span r \<union> spans rs" "spans (xs @ ys) = spans xs \<union> spans ys"
  by (auto simp: spans_def)

lemma span_Range [simp]: "span (Range a n) = {a ..< a + n}"
  by (simp add: span_def)

lemma dropWhile_sorted:
  assumes "sorted_wrt R xs" "\<And>x y. x \<in> set xs \<Longrightarrow> y \<in> set xs \<Longrightarrow> R x y \<Longrightarrow> P y \<Longrightarrow> P x"
    and "y \<in> set (dropWhile P xs)"
  shows "\<not> P y"
  using assms by (induction xs) (auto split: if_splits)

text \<open>In an ordered list \<open>takeWhile\<close> and \<open>dropWhile\<close> of a probe select by address.\<close>

lemma mappings_ok_split:
  assumes "mappings_ok lo hi rs" "0 \<le> lo" "hi \<le> SIZE_MAX"
  shows "x \<in> set (takeWhile (not_above a) rs) \<longleftrightarrow> x \<in> set rs \<and> rg_address x \<le> a"
    and "x \<in> set (dropWhile (not_above a) rs) \<longleftrightarrow> x \<in> set rs \<and> a < rg_address x"
proof -
  have na: "not_above a r \<longleftrightarrow> rg_address r \<le> a" if "r \<in> set rs" for r
    using assms that by (force simp: not_above_def range_less_def mappings_ok_def rg_end_def)
  have drop: "a < rg_address y" if y: "y \<in> set (dropWhile (not_above a) rs)" for y
  proof -
    have "\<not> not_above a y"
    proof (rule dropWhile_sorted [OF _ _ y])
      show "sorted_wrt (\<lambda>x y. rg_end x \<le> rg_address y) rs"
        using assms(1) by (simp add: mappings_ok_def)
      show "not_above a x" if "x \<in> set rs" "y \<in> set rs" "rg_end x \<le> rg_address y" "not_above a y" for x y
        using that na assms(1) by (force simp: mappings_ok_def rg_end_def)
    qed
    then show ?thesis using na set_dropWhileD [OF y] by simp
  qed
  have un: "x \<in> set rs \<longleftrightarrow> x \<in> set (takeWhile (not_above a) rs) \<or> x \<in> set (dropWhile (not_above a) rs)"
    by (metis Un_iff set_append takeWhile_dropWhile_id)
  have take: "x \<in> set (takeWhile (not_above a) rs) \<Longrightarrow> rg_address x \<le> a"
    using na [of x] set_takeWhileD [of x "not_above a" rs] by blast
  show "x \<in> set (takeWhile (not_above a) rs) \<longleftrightarrow> x \<in> set rs \<and> rg_address x \<le> a"
    using un take drop [of x] by linarith
  show "x \<in> set (dropWhile (not_above a) rs) \<longleftrightarrow> x \<in> set rs \<and> a < rg_address x"
    using un take drop [of x] by linarith
qed

lemma mappings_ok_append:
  "mappings_ok lo hi (xs @ ys) \<longleftrightarrow> mappings_ok lo hi xs \<and> mappings_ok lo hi ys \<and>
    (\<forall>x\<in>set xs. \<forall>y\<in>set ys. rg_end x \<le> rg_address y)"
  by (auto simp: mappings_ok_def sorted_wrt_append)

lemma mappings_ok_Cons:
  "mappings_ok lo hi (r # rs) \<longleftrightarrow> mappings_ok lo hi rs \<and> lo \<le> rg_address r \<and> 0 < rg_size r \<and>
    rg_end r \<le> hi \<and> (\<forall>y\<in>set rs. rg_end r \<le> rg_address y)"
  by (auto simp: mappings_ok_def)

lemma mappings_ok_filter: "mappings_ok lo hi rs \<Longrightarrow> mappings_ok lo hi (filter P rs)"
  by (auto simp: mappings_ok_def sorted_wrt_filter)

lemma mappings_ok_Nil [simp]: "mappings_ok lo hi []"
  by (simp add: mappings_ok_def)

lemma mappings_ok_pair:
  "mappings_ok lo hi rs \<Longrightarrow> x \<in> set rs \<Longrightarrow> y \<in> set rs \<Longrightarrow> x \<noteq> y \<Longrightarrow>
    rg_end x \<le> rg_address y \<or> rg_end y \<le> rg_address x"
  by (induction rs) (auto simp: mappings_ok_Cons)

text \<open>Where an element that meets none of the others is inserted.\<close>

definition apart :: "range_info \<Rightarrow> range_info list \<Rightarrow> bool" where
  "apart r rs \<longleftrightarrow> (\<forall>x\<in>set rs. rg_end x \<le> rg_address r \<or> rg_end r \<le> rg_address x)"

lemma apart_disjoint:
  assumes "\<forall>x\<in>set rs. 0 < rg_size x" "0 < rg_size r" "span r \<inter> spans rs = {}"
  shows "apart r rs"
  unfolding apart_def
proof (rule ballI, rule ccontr)
  fix x assume x: "x \<in> set rs" "\<not> (rg_end x \<le> rg_address r \<or> rg_end r \<le> rg_address x)"
  let ?y = "max (rg_address r) (rg_address x)"
  have "?y \<in> span x" "?y \<in> span r" using x assms(1,2) by (auto simp: in_span rg_end_def)
  then show False using assms(3) x(1) by (auto simp: spans_def)
qed

lemma apart_split:
  assumes "mappings_ok lo hi rs" "apart r rs" "0 < rg_size r"
  shows "x \<in> set (takeWhile (\<lambda>x. range_less x r) rs) \<longleftrightarrow> x \<in> set rs \<and> rg_end x \<le> rg_address r"
    and "x \<in> set (dropWhile (\<lambda>x. range_less x r) rs) \<longleftrightarrow> x \<in> set rs \<and> rg_end r \<le> rg_address x"
    and "r \<notin> set rs"
proof -
  let ?P = "\<lambda>x. range_less x r"
  have P: "?P x \<longleftrightarrow> rg_end x \<le> rg_address r" "\<not> ?P x \<longleftrightarrow> rg_end r \<le> rg_address x"
    if "x \<in> set rs" for x
    using assms that by (force simp: mappings_ok_def range_less_def rg_end_def apart_def)+
  have drop: "\<not> ?P y" if y: "y \<in> set (dropWhile ?P rs)" for y
  proof (rule dropWhile_sorted [OF _ _ y])
    show "sorted_wrt (\<lambda>x y. rg_end x \<le> rg_address y) rs" using assms(1) by (simp add: mappings_ok_def)
    show "?P x" if "x \<in> set rs" "y \<in> set rs" "rg_end x \<le> rg_address y" "?P y" for x y
      using that P assms(1) by (force simp: mappings_ok_def rg_end_def)
  qed
  have un: "set rs = set (takeWhile ?P rs) \<union> set (dropWhile ?P rs)"
    by (metis set_append takeWhile_dropWhile_id)
  show "x \<in> set (takeWhile ?P rs) \<longleftrightarrow> x \<in> set rs \<and> rg_end x \<le> rg_address r"
    using P drop un by (blast dest: set_takeWhileD)
  show "x \<in> set (dropWhile ?P rs) \<longleftrightarrow> x \<in> set rs \<and> rg_end r \<le> rg_address x"
    using P drop un by (blast dest: set_takeWhileD)
  show "r \<notin> set rs" using assms by (auto simp: apart_def rg_end_def)
qed

lemma rs_insert_ok:
  assumes "mappings_ok lo hi rs" "apart r rs" "lo \<le> rg_address r" "0 < rg_size r" "rg_end r \<le> hi"
  shows "mappings_ok lo hi (rs_insert r rs)" "set (rs_insert r rs) = insert r (set rs)"
proof -
  let ?P = "\<lambda>x. range_less x r"
  note sp = apart_split [OF assms(1,2,4)]
  have rs: "takeWhile ?P rs @ dropWhile ?P rs = rs" by simp
  have parts: "mappings_ok lo hi (takeWhile ?P rs)" "mappings_ok lo hi (dropWhile ?P rs)"
    "\<forall>x\<in>set (takeWhile ?P rs). \<forall>y\<in>set (dropWhile ?P rs). rg_end x \<le> rg_address y"
    using assms(1) mappings_ok_append [of lo hi "takeWhile ?P rs" "dropWhile ?P rs"]
    unfolding rs by blast+
  show "mappings_ok lo hi (rs_insert r rs)"
    using parts assms(3-5) sp by (simp add: rs_insert_def mappings_ok_append mappings_ok_Cons)
  have "set (takeWhile ?P rs) \<union> set (dropWhile ?P rs) = set rs"
    by (metis set_append takeWhile_dropWhile_id)
  then show "set (rs_insert r rs) = insert r (set rs)"
    using sp(3) by (simp only: rs_insert_def if_False set_append list.set Un_insert_right)
qed

lemma spans_rs_insert:
  assumes "mappings_ok lo hi rs" "apart r rs" "lo \<le> rg_address r" "0 < rg_size r" "rg_end r \<le> hi"
  shows "spans (rs_insert r rs) = span r \<union> spans rs"
  using rs_insert_ok(2) [OF assms] by (simp add: spans_def)

section \<open>Finding the range of an address\<close>

lemma last_take_drop:
  assumes "mappings_ok lo hi rs" "0 \<le> lo" "hi \<le> SIZE_MAX" "rev (takeWhile (not_above a) rs) = r # qs"
  shows "r \<in> set rs" "rg_address r \<le> a"
    and "\<And>x. x \<in> set rs \<Longrightarrow> x \<noteq> r \<Longrightarrow> rg_end x \<le> rg_address r \<or> a < rg_address x"
    and "takeWhile (not_above a) rs = rev qs @ [r]"
proof -
  let ?T = "takeWhile (not_above a) rs" and ?D = "dropWhile (not_above a) rs"
  show T: "?T = rev qs @ [r]" using assms(4) by (simp add: rev_eq_Cons_iff)
  then have "r \<in> set ?T" by simp
  then show "r \<in> set rs" "rg_address r \<le> a" using mappings_ok_split [OF assms(1-3)] by blast+
  have "mappings_ok lo hi ?T"
    using assms(1) mappings_ok_append [of lo hi ?T ?D] by simp
  then have before: "\<forall>x\<in>set (rev qs). rg_end x \<le> rg_address r"
    unfolding T mappings_ok_append by simp
  show "rg_end x \<le> rg_address r \<or> a < rg_address x" if x: "x \<in> set rs" "x \<noteq> r" for x
  proof (cases "rg_address x \<le> a")
    case True
    then have "x \<in> set ?T" using x(1) mappings_ok_split(1) [OF assms(1-3)] by blast
    then show ?thesis using x(2) before unfolding T by auto
  qed simp
qed

lemma takeWhile_Nil_above:
  assumes "mappings_ok lo hi rs" "0 \<le> lo" "hi \<le> SIZE_MAX" "takeWhile (not_above a) rs = []" "x \<in> set rs"
  shows "a < rg_address x"
  using mappings_ok_split(1) [OF assms(1-3), of x a] assms(4,5) by simp

lemma drop_Cons_above:
  assumes "mappings_ok lo hi rs" "0 \<le> lo" "hi \<le> SIZE_MAX" "dropWhile (not_above a) rs = m # ms"
  shows "m \<in> set rs" "a < rg_address m"
    and "\<And>x. x \<in> set rs \<Longrightarrow> a < rg_address x \<Longrightarrow> rg_address m \<le> rg_address x"
proof -
  let ?T = "takeWhile (not_above a) rs" and ?D = "dropWhile (not_above a) rs"
  have "m \<in> set ?D" using assms(4) by simp
  then show "m \<in> set rs" "a < rg_address m" using mappings_ok_split(2) [OF assms(1-3)] by blast+
  have D: "mappings_ok lo hi ?D"
    using assms(1) mappings_ok_append [of lo hi ?T ?D] by simp
  show "rg_address m \<le> rg_address x" if x: "x \<in> set rs" "a < rg_address x" for x
  proof -
    have "x \<in> set ?D" using x mappings_ok_split(2) [OF assms(1-3)] by blast
    with D show ?thesis unfolding assms(4) mappings_ok_Cons by (auto simp: rg_end_def)
  qed
qed

lemma ranges_ok_keys: "ranges_ok s \<Longrightarrow> mappings_ok 0 SIZE_MAX (map fst s)"
  by (simp add: ranges_ok_def)

lemma ranges_ok_mappings:
  assumes "ranges_ok s" "(r, ms) \<in> set s"
  shows "mappings_ok (rg_address r) (rg_end r) ms" "0 \<le> rg_address r" "rg_end r \<le> SIZE_MAX" "0 < rg_size r"
  using assms by (force simp: ranges_ok_def mappings_ok_def)+

lemma map_fst_takeWhile: "map fst (takeWhile (P \<circ> fst) s) = takeWhile P (map fst s)"
  by (induction s) auto

lemma map_fst_dropWhile: "map fst (dropWhile (P \<circ> fst) s) = dropWhile P (map fst s)"
  by (induction s) auto

lemma range_at_Cons:
  assumes "ranges_ok s" "rev (takeWhile (not_above a \<circ> fst) s) = (r, ms) # qs"
  shows "(r, ms) \<in> set s" "rg_address r \<le> a"
    and "\<And>x. x \<in> fst ` set s \<Longrightarrow> x \<noteq> r \<Longrightarrow> rg_end x \<le> rg_address r \<or> a < rg_address x"
    and "\<And>x. x \<in> fst ` set s \<Longrightarrow> rg_address x \<le> a \<Longrightarrow> a < rg_end x \<Longrightarrow> x = r"
proof -
  have "rev (takeWhile (not_above a) (map fst s)) = r # map fst qs"
    using assms(2) by (metis fst_conv list.simps(9) map_fst_takeWhile rev_map)
  note last = last_take_drop [OF ranges_ok_keys [OF assms(1)] order_refl order_refl this]
  show "(r, ms) \<in> set s"
    using assms(2) by (metis list.set_intros(1) set_rev set_takeWhileD)
  show "rg_address r \<le> a" by (rule last(2))
  show "rg_end x \<le> rg_address r \<or> a < rg_address x" if "x \<in> fst ` set s" "x \<noteq> r" for x
    using last(3) that by simp
  then show "x = r" if "x \<in> fst ` set s" "rg_address x \<le> a" "a < rg_end x" for x
    using that last(2) by fastforce
qed

lemma range_at_Nil:
  assumes "ranges_ok s" "rev (takeWhile (not_above a \<circ> fst) s) = []" "x \<in> fst ` set s"
  shows "a < rg_address x"
proof -
  have "takeWhile (not_above a) (map fst s) = []"
    using assms(2) by (metis list.simps(8) map_fst_takeWhile rev_is_Nil_conv)
  then show ?thesis
    using takeWhile_Nil_above [OF ranges_ok_keys [OF assms(1)] order_refl order_refl] assms(3) by simp
qed

lemma is_in_reserved_range_iff:
  assumes "ranges_ok s" "0 < n"
  shows "loader_is_in_reserved_range s a n \<longleftrightarrow>
    (\<exists>r\<in>fst ` set s. rg_address r \<le> a \<and> a + n \<le> rg_end r)"
proof (cases "rev (takeWhile (not_above a \<circ> fst) s)")
  case Nil
  then show ?thesis
    using range_at_Nil [OF assms(1) Nil] by (force simp: loader_is_in_reserved_range_def)
next
  case (Cons e qs)
  obtain r ms where e: "e = (r, ms)" by force
  note at = range_at_Cons [OF assms(1) Cons [unfolded e]]
  have r: "r \<in> fst ` set s" using at(1) by force
  have eq: "x = r" if "x \<in> fst ` set s" "rg_address x \<le> a" "a + n \<le> rg_end x" for x
    using at(4) [OF that(1,2)] that(3) assms(2) by linarith
  have "loader_is_in_reserved_range s a n \<longleftrightarrow> a + n \<le> rg_end r"
    using at(2) unfolding loader_is_in_reserved_range_def Cons e by simp
  then show ?thesis using at(2) r eq by (metis (no_types))
qed

lemma collides_with_reserved_range_iff:
  assumes "ranges_ok s" "0 < n"
  shows "loader_collides_with_reserved_range s a n \<longleftrightarrow> reserved s \<inter> {a ..< a + n} \<noteq> {}"
proof -
  let ?B = "rev (takeWhile (not_above a \<circ> fst) s)" and ?A = "dropWhile (not_above a \<circ> fst) s"
  have pos: "x \<in> fst ` set s \<Longrightarrow> rg_address x < rg_end x" for x
    using ranges_ok_mappings [OF assms(1)] by (force simp: rg_end_def)
  have above: "(case ?A of [] \<Rightarrow> False | (r, _) # _ \<Rightarrow> a + n > rg_address r) \<longleftrightarrow>
      (\<exists>x\<in>fst ` set s. a < rg_address x \<and> rg_address x < a + n)"
  proof (cases ?A)
    case Nil
    then have "dropWhile (not_above a) (map fst s) = []" by (metis list.simps(8) map_fst_dropWhile)
    then have "\<not> a < rg_address x" if "x \<in> fst ` set s" for x
      using mappings_ok_split(2) [OF ranges_ok_keys [OF assms(1)] order_refl order_refl, of x a] that
      by (simp only: set_map list.set(1)) simp
    then show ?thesis unfolding Nil by auto
  next
    case (Cons e qs)
    then have "dropWhile (not_above a) (map fst s) = fst e # map fst qs"
      by (metis list.simps(9) map_fst_dropWhile)
    note d = drop_Cons_above [OF ranges_ok_keys [OF assms(1)] order_refl order_refl this]
    show ?thesis using d Cons by (cases e) force
  qed
  have below: "(case ?B of [] \<Rightarrow> False | (r, _) # _ \<Rightarrow> a < rg_end r) \<longleftrightarrow>
      (\<exists>x\<in>fst ` set s. rg_address x \<le> a \<and> a < rg_end x)"
  proof (cases ?B)
    case Nil
    then show ?thesis using range_at_Nil [OF assms(1) Nil] by force
  next
    case (Cons e qs)
    obtain r ms where e: "e = (r, ms)" by force
    note at = range_at_Cons [OF assms(1) Cons [unfolded e]]
    have "r \<in> fst ` set s" using at(1) by force
    then show ?thesis using at(2,4) unfolding Cons e list.case prod.case by (metis (no_types))
  qed
  show ?thesis
    unfolding loader_collides_with_reserved_range_def above below
  proof
    assume "(\<exists>x\<in>fst ` set s. a < rg_address x \<and> rg_address x < a + n) \<or>
      (\<exists>x\<in>fst ` set s. rg_address x \<le> a \<and> a < rg_end x)"
    then obtain x where x: "x \<in> fst ` set s"
      "max a (rg_address x) < a + n" "max a (rg_address x) < rg_end x"
      using pos assms(2) by fastforce
    then have "max a (rg_address x) \<in> reserved s"
      unfolding reserved_def in_spans set_map by (metis max.cobounded2)
    moreover have "max a (rg_address x) \<in> {a ..< a + n}" using x(2) by simp
    ultimately show "reserved s \<inter> {a ..< a + n} \<noteq> {}" by blast
  next
    assume "reserved s \<inter> {a ..< a + n} \<noteq> {}"
    then obtain y where y: "y \<in> reserved s" "a \<le> y" "y < a + n" by auto
    then obtain x where "x \<in> fst ` set s" "rg_address x \<le> y" "y < rg_end x"
      unfolding reserved_def in_spans set_map by blast
    then show "(\<exists>x\<in>fst ` set s. a < rg_address x \<and> rg_address x < a + n) \<or>
      (\<exists>x\<in>fst ` set s. rg_address x \<le> a \<and> a < rg_end x)"
      using y(2,3) by (cases "rg_address x \<le> a") force+
  qed
qed

section \<open>Changing the mappings of one range\<close>

lemma ranges_ok_pair:
  assumes "ranges_ok s" "(r, ms) \<in> set s" "(r', ms') \<in> set s"
  shows "(r' = r \<and> ms' = ms) \<or> (r' \<noteq> r \<and> span r \<inter> span r' = {})"
proof (cases "r' = r")
  case True
  have "distinct (map fst s)"
    using ranges_ok_keys [OF assms(1)]
  proof (induction "map fst s" arbitrary: s)
    case (Cons k ks)
    then obtain e s' where "s = e # s'" by (cases s) auto
    with Cons show ?case by (force simp: mappings_ok_Cons rg_end_def)
  qed simp
  then show ?thesis using assms(2,3) True by (auto dest: eq_key_imp_eq_value)
next
  case False
  have keys: "r \<in> set (map fst s)" "r' \<in> set (map fst s)" using assms(2,3) by force+
  show ?thesis
    using mappings_ok_pair [OF ranges_ok_keys [OF assms(1)] keys] False by (auto simp: span_def)
qed

lemma spans_within: "mappings_ok lo hi ms \<Longrightarrow> spans ms \<subseteq> {lo ..< hi}"
  by (force simp: mappings_ok_def in_spans)

lemma mapped_in_range:
  assumes "ranges_ok s" "(r, ms) \<in> set s"
  shows "mapped s \<inter> span r = spans ms"
proof -
  have "spans ms' \<inter> span r = (if r' = r then spans ms else {})" if e: "(r', ms') \<in> set s" for r' ms'
    using ranges_ok_pair [OF assms e] spans_within [OF ranges_ok_mappings(1) [OF assms(1) e]]
    by (auto simp: span_def)
  then show ?thesis
    using assms(2) unfolding mapped_def by (fastforce split: if_splits)
qed

lemma set_mappings_ok:
  assumes "ranges_ok s" "(r, ms) \<in> set s" "mappings_ok (rg_address r) (rg_end r) ms'"
  shows "ranges_ok (set_mappings r ms' s)" "reserved (set_mappings r ms' s) = reserved s"
    and "mapped (set_mappings r ms' s) = (mapped s - span r) \<union> spans ms'"
proof -
  let ?s = "set_mappings r ms' s"
  have keys: "map fst ?s = map fst s" by (simp add: set_mappings_def comp_def if_distrib cong: if_cong)
  show "reserved ?s = reserved s" by (simp add: reserved_def keys)
  have set: "set ?s = insert (r, ms') {e \<in> set s. fst e \<noteq> r}"
    using assms(2) by (force simp: set_mappings_def image_def split: if_splits)
  show "ranges_ok ?s"
    using assms(1,3) unfolding ranges_ok_def keys set by blast
  have other: "spans (snd e) \<inter> span r = {}" if "e \<in> set s" "fst e \<noteq> r" for e
    using ranges_ok_pair [OF assms(1,2), of "fst e" "snd e"] that
      spans_within [OF ranges_ok_mappings(1) [OF assms(1)], of "fst e" "snd e"]
    by (force simp: span_def)
  have same: "spans (snd e) \<subseteq> span r" if "e \<in> set s" "fst e = r" for e
    using spans_within [OF ranges_ok_mappings(1) [OF assms(1)], of "fst e" "snd e"] that
    unfolding span_def by (metis prod.collapse)
  have "mapped ?s = spans ms' \<union> (\<Union>e\<in>{e \<in> set s. fst e \<noteq> r}. spans (snd e))"
    by (simp add: mapped_def set)
  also have "(\<Union>e\<in>{e \<in> set s. fst e \<noteq> r}. spans (snd e)) = mapped s - span r"
    using other same unfolding mapped_def by blast
  finally show "mapped ?s = (mapped s - span r) \<union> spans ms'" by blast
qed

section \<open>Unmapping\<close>

lemma mappings_ok_apart:
  "mappings_ok lo hi rs \<Longrightarrow> r \<in> set rs \<Longrightarrow> rg_address r \<le> rg_address p \<Longrightarrow> rg_end p \<le> rg_end r \<Longrightarrow>
    apart p (filter (\<lambda>x. x \<noteq> r) rs)"
  using mappings_ok_pair [of lo hi rs r] by (fastforce simp: apart_def)

lemma unmap_piece_ok:
  assumes "mappings_ok lo hi ms" "r \<in> set ms" "rg_address r < e" "b < rg_end r" "b \<le> e"
  defines "ms1 \<equiv> filter (\<lambda>x. x \<noteq> r) ms"
  defines "ms2 \<equiv> (if rg_address r < b then rs_insert (Range (rg_address r) (b - rg_address r)) ms1 else ms1)"
  defines "ms3 \<equiv> (if rg_end r > e then rs_insert (Range e (rg_end r - e)) ms2 else ms2)"
  shows "mappings_ok lo hi ms3" "set ms3 = (set ms - {r}) \<union>
    (if rg_address r < b then {Range (rg_address r) (b - rg_address r)} else {}) \<union>
    (if rg_end r > e then {Range e (rg_end r - e)} else {})"
proof -
  have r: "lo \<le> rg_address r" "rg_end r \<le> hi" using assms(1,2) by (auto simp: mappings_ok_def)
  have ok1: "mappings_ok lo hi ms1" unfolding ms1_def by (rule mappings_ok_filter [OF assms(1)])
  have set1: "set ms1 = set ms - {r}" by (auto simp: ms1_def)
  have ap1: "apart p ms1" if "rg_address r \<le> rg_address p" "rg_end p \<le> rg_end r" for p
    unfolding ms1_def using mappings_ok_apart [OF assms(1,2) that] .
  have 2: "mappings_ok lo hi ms2" "set ms2 = set ms1 \<union>
      (if rg_address r < b then {Range (rg_address r) (b - rg_address r)} else {})"
  proof -
    have "mappings_ok lo hi ms2 \<and> set ms2 = set ms1 \<union>
        (if rg_address r < b then {Range (rg_address r) (b - rg_address r)} else {})"
    proof (cases "rg_address r < b")
      case True
      then show ?thesis
        using rs_insert_ok [OF ok1 ap1, of "Range (rg_address r) (b - rg_address r)"] r assms(3-5)
        by (simp add: ms2_def)
    qed (simp add: ms2_def ok1)
    then show "mappings_ok lo hi ms2" "set ms2 = set ms1 \<union>
        (if rg_address r < b then {Range (rg_address r) (b - rg_address r)} else {})" by blast+
  qed
  have ap2: "apart (Range e (rg_end r - e)) ms2"
    using ap1 [of "Range e (rg_end r - e)"] assms(3-5) 2(2) by (auto simp: apart_def)
  have "mappings_ok lo hi ms3 \<and> set ms3 = set ms2 \<union> (if rg_end r > e then {Range e (rg_end r - e)} else {})"
  proof (cases "rg_end r > e")
    case True
    then show ?thesis
      using rs_insert_ok [OF 2(1) ap2] r assms(3) by (simp add: ms3_def)
  qed (simp add: ms3_def 2(1))
  then show "mappings_ok lo hi ms3" "set ms3 = (set ms - {r}) \<union>
    (if rg_address r < b then {Range (rg_address r) (b - rg_address r)} else {}) \<union>
    (if rg_end r > e then {Range e (rg_end r - e)} else {})"
    using 2(2) set1 by blast+
qed

lemma unmap_loop_ok:
  assumes "mappings_ok lo hi ms" "mappings_ok lo hi rest" "set rest \<subseteq> set ms" "b \<le> e"
    and "\<forall>r\<in>set rest. b < rg_end r"
    and "\<forall>x\<in>set ms. x \<in> set rest \<or> rg_end x \<le> b \<or> e \<le> rg_address x"
  shows "mappings_ok lo hi (unmap_loop b e rest ms) \<and> spans (unmap_loop b e rest ms) = spans ms - {b ..< e}"
  using assms
proof (induction rest arbitrary: ms)
  case Nil
  then have "\<forall>x\<in>set ms. span x \<inter> {b ..< e} = {}" by (fastforce simp: span_def)
  then show ?case using Nil.prems(1) by (auto simp: spans_def)
next
  case (Cons r rest)
  show ?case
  proof (cases "rg_address r < e")
    case False
    have "e \<le> rg_address x" if "x \<in> set rest" for x
      using Cons.prems(2) that False by (force simp: mappings_ok_Cons rg_end_def)
    then have "\<forall>x\<in>set ms. rg_end x \<le> b \<or> e \<le> rg_address x"
      using Cons.prems(6) False by auto
    then have "\<forall>x\<in>set ms. span x \<inter> {b ..< e} = {}" by (fastforce simp: span_def)
    then show ?thesis using Cons.prems(1) False by (auto simp: spans_def)
  next
    case True
    let ?L = "if rg_address r < b then {Range (rg_address r) (b - rg_address r)} else {}"
    let ?R = "if rg_end r > e then {Range e (rg_end r - e)} else {}"
    define ms1 where "ms1 = filter (\<lambda>x. x \<noteq> r) ms"
    define ms2 where "ms2 = (if rg_address r < b then rs_insert (Range (rg_address r) (b - rg_address r)) ms1 else ms1)"
    define ms3 where "ms3 = (if rg_end r > e then rs_insert (Range e (rg_end r - e)) ms2 else ms2)"
    have r: "r \<in> set ms" "b < rg_end r" using Cons.prems(3,5) by auto
    note piece = unmap_piece_ok [OF Cons.prems(1) r(1) True r(2) Cons.prems(4),
        folded ms1_def, folded ms2_def, folded ms3_def]
    have notin: "r \<notin> set rest" using Cons.prems(2) by (force simp: mappings_ok_Cons rg_end_def)
    have sub: "set rest \<subseteq> set ms3" using notin Cons.prems(3) piece(2) by auto
    have rest: "mappings_ok lo hi rest" "\<forall>x\<in>set rest. b < rg_end x"
      using Cons.prems(2,5) by (auto simp: mappings_ok_Cons)
    have settled: "\<forall>x\<in>set ms3. x \<in> set rest \<or> rg_end x \<le> b \<or> e \<le> rg_address x"
      unfolding piece(2) using Cons.prems(6) by auto
    have spans3: "spans ms3 = spans (filter (\<lambda>x. x \<noteq> r) ms) \<union> (span r - {b ..< e})"
      using True r(2) Cons.prems(4) unfolding spans_def piece(2) by (auto simp: span_def)
    have "spans ms = spans (filter (\<lambda>x. x \<noteq> r) ms) \<union> span r"
      using r(1) by (auto simp: spans_def)
    then have "spans ms3 - {b ..< e} = spans ms - {b ..< e}"
      unfolding spans3 by blast
    moreover have "unmap_loop b e (r # rest) ms = unmap_loop b e rest ms3"
      using True by (simp add: Let_def ms1_def ms2_def ms3_def)
    ultimately show ?thesis
      using Cons.IH [OF piece(1) rest(1) sub Cons.prems(4) rest(2) settled] by (simp only:)
  qed
qed

lemma range_start_facts:
  fixes a :: int
  assumes "mappings_ok lo hi ms" "0 \<le> lo" "hi \<le> SIZE_MAX"
  defines "below \<equiv> takeWhile (not_above a) ms" and "beyond \<equiv> dropWhile (not_above a) ms"
  shows "below \<noteq> [] \<Longrightarrow> last below \<in> set ms \<and> rg_address (last below) \<le> a \<and>
      (\<forall>x\<in>set ms. x \<noteq> last below \<longrightarrow> rg_end x \<le> rg_address (last below) \<or> a < rg_address x)"
    and "mappings_ok lo hi (last below # beyond) \<or> below = []"
proof -
  have ms: "below @ beyond = ms" by (simp add: below_def beyond_def)
  show "below \<noteq> [] \<Longrightarrow> last below \<in> set ms \<and> rg_address (last below) \<le> a \<and>
      (\<forall>x\<in>set ms. x \<noteq> last below \<longrightarrow> rg_end x \<le> rg_address (last below) \<or> a < rg_address x)"
  proof -
    assume "below \<noteq> []"
    then have "rev (takeWhile (not_above a) ms) = last below # rev (butlast below)"
      unfolding below_def by (metis append_butlast_last_id rev_eq_Cons_iff rev_rev_ident)
    note t = last_take_drop [OF assms(1-3) this]
    then show ?thesis by blast
  qed
  show "mappings_ok lo hi (last below # beyond) \<or> below = []"
  proof (cases "below = []")
    case False
    then have "below = butlast below @ [last below]" by simp
    then show ?thesis
      using assms(1) ms by (metis append.assoc append_Cons append_Nil mappings_ok_append)
  qed simp
qed

lemma unmap_reserved_range_ok:
  assumes "ranges_ok s" "loader_is_in_reserved_range s a n" "0 < n"
  shows "\<exists>s'. loader_unmap_reserved_range a n s = Some s' \<and> ranges_ok s' \<and>
    reserved s' = reserved s \<and> mapped s' = mapped s - {a ..< a + n}"
proof (cases "rev (takeWhile (not_above a \<circ> fst) s)")
  case Nil
  then show ?thesis using assms(2) by (simp add: loader_is_in_reserved_range_def)
next
  case (Cons e qs)
  obtain r ms where e: "e = (r, ms)" by force
  note at = range_at_Cons [OF assms(1) Cons [unfolded e]]
  have fits: "a + n \<le> rg_end r"
    using assms(2) unfolding loader_is_in_reserved_range_def Cons e by simp
  note r = ranges_ok_mappings [OF assms(1) at(1)]
  let ?below = "takeWhile (not_above a) ms" and ?above = "dropWhile (not_above a) ms"
  let ?start = "if ?below \<noteq> [] \<and> rg_end (last ?below) > a then last ?below # ?above else ?above"
  note start = range_start_facts [OF r(1-3), of a]
  have above: "mappings_ok (rg_address r) (rg_end r) ?above"
    using r(1) mappings_ok_append [of _ _ ?below ?above] by simp
  have above_end: "a < rg_end x" if "x \<in> set ?above" for x
    using that mappings_ok_split(2) [OF r(1-3)] r(1) by (force simp: mappings_ok_def rg_end_def)
  have ok: "mappings_ok (rg_address r) (rg_end r) ?start" using start(2) above by auto
  have sub: "set ?start \<subseteq> set ms" using start(1) by (auto dest: set_dropWhileD)
  have hit: "\<forall>x\<in>set ?start. a < rg_end x" using above_end by auto
  have miss: "\<forall>x\<in>set ms. x \<in> set ?start \<or> rg_end x \<le> a \<or> a + n \<le> rg_address x"
  proof
    fix x assume x: "x \<in> set ms"
    show "x \<in> set ?start \<or> rg_end x \<le> a \<or> a + n \<le> rg_address x"
    proof (cases "a < rg_address x")
      case True
      then show ?thesis using x mappings_ok_split(2) [OF r(1-3)] by auto
    next
      case False
      then have "x \<in> set ?below" using x mappings_ok_split(1) [OF r(1-3), of x a] by simp
      then have "?below \<noteq> []" by auto
      then show ?thesis using start(1) x False by fastforce
    qed
  qed
  have le: "a \<le> a + n" using assms(3) by simp
  note loop = unmap_loop_ok [OF r(1) ok sub le hit miss]
  let ?ms' = "unmap_loop a (a + n) ?start ms"
  have res: "loader_unmap_reserved_range a n s = Some (set_mappings r ?ms' s)"
    using assms(2) unfolding loader_unmap_reserved_range_def Cons e by (simp add: Let_def)
  note upd = set_mappings_ok [OF assms(1) at(1) conjunct1 [OF loop]]
  have "{a ..< a + n} \<subseteq> span r" using at(2) fits by (auto simp: span_def)
  then have "(mapped s - span r) \<union> (spans ms - {a ..< a + n}) = mapped s - {a ..< a + n}"
    using mapped_in_range [OF assms(1) at(1)] by blast
  with upd(3) conjunct2 [OF loop] have "mapped (set_mappings r ?ms' s) = mapped s - {a ..< a + n}" by simp
  then show ?thesis using res upd(1,2) by blast
qed

section \<open>Mapping\<close>

lemma split_at_boundary:
  assumes "\<forall>x\<in>set xs. P x" "\<forall>y\<in>set ys. \<not> P y"
  shows "takeWhile P (xs @ ys) = xs" "dropWhile P (xs @ ys) = ys"
  using assms by (induction xs) (auto simp: takeWhile_eq_Nil_iff dropWhile_eq_self_iff neq_Nil_conv)

lemma below_free:
  assumes "mappings_ok lo hi ms" "0 \<le> lo" "hi \<le> SIZE_MAX"
    and "takeWhile (not_above a) ms = [] \<or> rg_end (last (takeWhile (not_above a) ms)) \<le> a"
    and "x \<in> set ms" "rg_address x \<le> a"
  shows "rg_end x \<le> a"
proof -
  have "x \<in> set (takeWhile (not_above a) ms)"
    using assms(5,6) mappings_ok_split(1) [OF assms(1-3), of x a] by blast
  then have ne: "takeWhile (not_above a) ms \<noteq> []" by auto
  show ?thesis
    using range_start_facts(1) [OF assms(1-3) ne] ne assms(4-6) by force
qed

lemma longest_mappable_ok:
  assumes "ranges_ok s" "loader_is_in_reserved_range s a 0" "0 \<le> maxSize"
  shows "\<exists>k. loader_reserved_range_longest_mappable_from s a maxSize = Some k \<and> 0 \<le> k \<and> k \<le> maxSize \<and>
    loader_is_in_reserved_range s a k \<and> {a ..< a + k} \<inter> mapped s = {} \<and>
    (\<forall>m. m \<le> maxSize \<longrightarrow> loader_is_in_reserved_range s a m \<longrightarrow> {a ..< a + m} \<inter> mapped s = {} \<longrightarrow> m \<le> k)"
proof (cases "rev (takeWhile (not_above a \<circ> fst) s)")
  case Nil
  then show ?thesis using assms(2) by (simp add: loader_is_in_reserved_range_def)
next
  case (Cons e qs)
  obtain r ms where e: "e = (r, ms)" by force
  note at = range_at_Cons [OF assms(1) Cons [unfolded e]]
  note r = ranges_ok_mappings [OF assms(1) at(1)]
  have isin: "loader_is_in_reserved_range s a m \<longleftrightarrow> a + m \<le> rg_end r" for m
    using at(2) unfolding loader_is_in_reserved_range_def Cons e by simp
  then have a: "a \<le> rg_end r" using assms(2) by (metis add_0_right)
  have free: "{a ..< a + m} \<inter> mapped s = {a ..< a + m} \<inter> spans ms" if "a + m \<le> rg_end r" for m
  proof -
    have "{a ..< a + m} \<subseteq> span r" using that at(2) by (auto simp: span_def)
    then show ?thesis using mapped_in_range [OF assms(1) at(1)] by blast
  qed
  text \<open>The result is the distance to the first obstacle \<open>d\<close>.\<close>
  have result: ?thesis
    if "loader_reserved_range_longest_mappable_from s a maxSize = Some (min maxSize (d - a))"
      "a \<le> d" "d \<le> rg_end r" "d = rg_end r \<or> d \<in> spans ms" "{a ..< d} \<inter> spans ms = {}" for d
  proof (intro exI conjI allI impI)
    show "loader_reserved_range_longest_mappable_from s a maxSize = Some (min maxSize (d - a))" by (rule that)
    show "0 \<le> min maxSize (d - a)" "min maxSize (d - a) \<le> maxSize" using that(2) assms(3) by auto
    show "loader_is_in_reserved_range s a (min maxSize (d - a))" using isin that(3) by auto
    have "{a ..< a + min maxSize (d - a)} \<subseteq> {a ..< d}" "a + min maxSize (d - a) \<le> rg_end r"
      using that(3) by auto
    then show "{a ..< a + min maxSize (d - a)} \<inter> mapped s = {}"
      using free [of "min maxSize (d - a)"] that(5) by blast
    fix m assume m: "m \<le> maxSize" "loader_is_in_reserved_range s a m" "{a ..< a + m} \<inter> mapped s = {}"
    then have "a + m \<le> rg_end r" "{a ..< a + m} \<inter> spans ms = {}" using isin free by auto
    then have "m \<le> d - a" using that(2,4) by force
    then show "m \<le> min maxSize (d - a)" using m(1) by simp
  qed
  have unfold: "loader_reserved_range_longest_mappable_from s a maxSize =
      (if ms = [] then Some (min maxSize (rg_end r - a))
       else (case (rev (takeWhile (not_above a) ms), dropWhile (not_above a) ms) of
           ([], []) \<Rightarrow> None
         | ([], m # _) \<Rightarrow> Some (min maxSize (rg_address m - a))
         | (l # _, next) \<Rightarrow>
             if rg_end l > a then Some 0
             else (case next of
                 [] \<Rightarrow> Some (min maxSize (rg_end r - a))
               | m # _ \<Rightarrow> Some (min maxSize (rg_address m - a)))))"
    using assms(2) unfolding loader_reserved_range_longest_mappable_from_def Cons e by simp
  have inside: "x \<in> set ms \<Longrightarrow> rg_address x \<in> spans ms \<and> rg_address x \<le> rg_end r" for x
    using r(1) by (force simp: mappings_ok_def in_spans rg_end_def)
  show ?thesis
  proof (cases "dropWhile (not_above a) ms")
    case Nil
    then have all: "x \<in> set ms \<Longrightarrow> rg_address x \<le> a" for x
      using mappings_ok_split(2) [OF r(1-3), of x a] by (metis empty_iff linorder_not_less list.set(1))
    show ?thesis
    proof (cases "rev (takeWhile (not_above a) ms)")
      case below: Nil
      then have ms: "ms = []" using Nil by (metis append_Nil2 rev_is_Nil_conv takeWhile_dropWhile_id)
      then show ?thesis using unfold a by (intro result [of "rg_end r"]) auto
    next
      case below: (Cons l ls)
      note l = last_take_drop [OF r(1-3) below]
      show ?thesis
      proof (cases "rg_end l > a")
        case True
        then have "a \<in> spans ms" using l(1,2) by (auto simp: in_spans)
        then show ?thesis
          using unfold [unfolded below Nil list.case prod.case] True assms(3) a l(1) by (intro result [of a]) auto
      next
        case False
        then have "x \<in> set ms \<Longrightarrow> rg_end x \<le> a" for x
          using below_free [OF r(1-3), of a x] l(4) all by auto
        then have "{a ..< rg_end r} \<inter> spans ms = {}" by (fastforce simp: in_spans)
        then show ?thesis
          using unfold [unfolded below Nil list.case prod.case] False a l(1) by (intro result [of "rg_end r"]) auto
      qed
    qed
  next
    case (Cons m ms')
    note m = drop_Cons_above [OF r(1-3) Cons]
    show ?thesis
    proof (cases "rev (takeWhile (not_above a) ms)")
      case below: Nil
      then have "x \<in> set ms \<Longrightarrow> rg_address m \<le> rg_address x" for x
        using m(3) takeWhile_Nil_above [OF r(1-3), of a x] by simp
      then have "{a ..< rg_address m} \<inter> spans ms = {}" by (fastforce simp: in_spans)
      then show ?thesis
        using unfold [unfolded below Cons list.case prod.case] inside [OF m(1)] m(1,2) by (intro result [of "rg_address m"]) auto
    next
      case below: (Cons l ls)
      note l = last_take_drop [OF r(1-3) below]
      show ?thesis
      proof (cases "rg_end l > a")
        case True
        then have "a \<in> spans ms" using l(1,2) by (auto simp: in_spans)
        then show ?thesis
          using unfold [unfolded below Cons list.case prod.case] True assms(3) a l(1) by (intro result [of a]) auto
      next
        case False
        then have "rg_end x \<le> a \<or> rg_address m \<le> rg_address x" if "x \<in> set ms" for x
          using below_free [OF r(1-3), of a x] l(4) m(3) [OF that] that
          by (cases "rg_address x \<le> a") auto
        then have "{a ..< rg_address m} \<inter> spans ms = {}" by (fastforce simp: in_spans)
        then show ?thesis
          using unfold [unfolded below Cons list.case prod.case] False inside [OF m(1)] m(1,2) l(1)
          by (intro result [of "rg_address m"]) auto
      qed
    qed
  qed
qed

lemma map_range_eq:
  assumes "mappings_ok lo hi ms" "0 \<le> lo" "hi \<le> SIZE_MAX" "apart (Range a n) ms" "0 < n"
  defines "below \<equiv> takeWhile (not_above a) ms" and "beyond \<equiv> dropWhile (not_above a) ms"
  defines "deleteNext \<equiv> beyond \<noteq> [] \<and> rg_address (hd beyond) = a + n"
  defines "n1 \<equiv> if deleteNext then n + rg_size (hd beyond) else n"
  defines "deletePrev \<equiv> below \<noteq> [] \<and> rg_end (last below) = a"
  defines "new \<equiv> if deletePrev then Range (rg_address (last below)) (n1 + rg_size (last below))
                  else Range a n1"
  shows "map_range a n ms =
    (if deletePrev then butlast below else below) @ new # (if deleteNext then tl beyond else beyond)"
proof -
  have ms: "ms = below @ beyond" by (simp add: below_def beyond_def)
  have pos: "x \<in> set ms \<Longrightarrow> 0 < rg_size x" for x using assms(1) by (simp add: mappings_ok_def)
  have n1: "0 < n1" using assms(5) pos [of "hd beyond"] ms by (auto simp: n1_def deleteNext_def)
  have low: "rg_end x \<le> a" "rg_address x < a" if "x \<in> set below" for x
  proof -
    have x: "x \<in> set ms" "rg_address x \<le> a"
      using that mappings_ok_split(1) [OF assms(1-3)] unfolding below_def by blast+
    then show "rg_end x \<le> a" using assms(4,5) by (auto simp: apart_def)
    then show "rg_address x < a" using pos [OF x(1)] by (simp add: rg_end_def)
  qed
  have high: "a < rg_address x" if "x \<in> set beyond" for x
    using that mappings_ok_split(2) [OF assms(1-3)] unfolding beyond_def by blast
  have addr: "rg_address new \<le> a"
    using low by (auto simp: new_def deletePrev_def order_less_imp_le)
  have prev: "rg_end x \<le> rg_address (last below)" if "x \<in> set below" "x \<noteq> last below" for x
  proof -
    have "below \<noteq> []" "x \<in> set ms" using that(1) ms by auto
    then show ?thesis
      using range_start_facts(1) [OF assms(1-3), of a] that low [of x] unfolding below_def by fastforce
  qed
  have less: "range_less x new" if "x \<in> set below" for x
  proof (cases "deletePrev \<and> x \<noteq> last below")
    case True
    then have "rg_address x < rg_address (last below)"
      using prev [OF that] pos [of x] that ms by (auto simp: rg_end_def)
    then show ?thesis using True by (simp add: new_def range_less_def)
  next
    case False
    then show ?thesis using low(2) [OF that] n1 by (auto simp: new_def range_less_def)
  qed
  have not_less: "\<not> range_less x new" if "x \<in> set beyond" for x
    using high [OF that] addr by (simp add: range_less_def)
  have irrefl: "\<not> range_less new new" by (simp add: range_less_def)
  have notin: "new \<notin> set ms" using less not_less irrefl ms high addr by fastforce
  have split: "takeWhile (\<lambda>x. range_less x new) ms = below" "dropWhile (\<lambda>x. range_less x new) ms = beyond"
    unfolding ms using split_at_boundary [of below "\<lambda>x. range_less x new" beyond] less not_less by auto
  have ins: "rs_insert new ms = below @ new # beyond"
    using notin split by (simp add: rs_insert_def)
  have split': "takeWhile (\<lambda>x. range_less x new) (below @ new # beyond) = below"
    "dropWhile (\<lambda>x. range_less x new) (below @ new # beyond) = new # beyond"
    using split_at_boundary [of below "\<lambda>x. range_less x new" "new # beyond"] less not_less irrefl by auto
  show ?thesis
    unfolding map_range_def Let_def
    by (fold below_def beyond_def, fold deleteNext_def, fold n1_def, fold deletePrev_def, fold new_def,
        simp only: ins split' list.sel)
qed

lemma map_range_ok:
  assumes "mappings_ok lo hi ms" "0 \<le> lo" "hi \<le> SIZE_MAX" "apart (Range a n) ms" "0 < n"
    and "lo \<le> a" "a + n \<le> hi"
  shows "mappings_ok lo hi (map_range a n ms)" "spans (map_range a n ms) = spans ms \<union> {a ..< a + n}"
proof -
  define below beyond where "below = takeWhile (not_above a) ms" and "beyond = dropWhile (not_above a) ms"
  have ms: "ms = below @ beyond" by (simp add: below_def beyond_def)
  have low: "rg_end x \<le> a" if "x \<in> set below" for x
    using that mappings_ok_split(1) [OF assms(1-3), of x a] assms(4,5) ms
    unfolding below_def apart_def by fastforce
  have high: "a + n \<le> rg_address x" if "x \<in> set beyond" for x
  proof -
    have "x \<in> set ms" "a < rg_address x"
      using that mappings_ok_split(2) [OF assms(1-3), of x a] unfolding beyond_def by blast+
    then show ?thesis using assms(1,4) by (force simp: apart_def mappings_ok_def rg_end_def)
  qed
  note eq = map_range_eq [OF assms(1-5), folded below_def beyond_def]
  have ok: "mappings_ok lo hi (below @ beyond)" using assms(1) ms by simp
  show "mappings_ok lo hi (map_range a n ms)"
  proof (cases "below \<noteq> [] \<and> rg_end (last below) = a")
    case prev: True
    then obtain bs p where b: "below = bs @ [p]" "rg_end p = a" by (metis append_butlast_last_id)
    show ?thesis
    proof (cases "beyond \<noteq> [] \<and> rg_address (hd beyond) = a + n")
      case True
      then obtain q qs where q: "beyond = q # qs" "rg_address q = a + n" by (cases beyond) auto
      show ?thesis
        using ok low high assms(5) b q unfolding eq
        by (simp add: mappings_ok_append mappings_ok_Cons) (auto simp: rg_end_def)
    next
      case False
      then show ?thesis
        using ok low high assms(5,7) b unfolding eq
        by (simp add: mappings_ok_append mappings_ok_Cons) (auto simp: rg_end_def algebra_simps)
    qed
  next
    case prev: False
    show ?thesis
    proof (cases "beyond \<noteq> [] \<and> rg_address (hd beyond) = a + n")
      case True
      then obtain q qs where q: "beyond = q # qs" "rg_address q = a + n" by (cases beyond) auto
      show ?thesis
        using ok low high assms(5,6) prev q unfolding eq
        by (simp add: mappings_ok_append mappings_ok_Cons) (auto simp: rg_end_def)
    next
      case False
      then show ?thesis
        using ok low high assms(5,6,7) unfolding eq if_not_P [OF prev] if_not_P [OF False]
        by (simp add: mappings_ok_append mappings_ok_Cons)
    qed
  qed
  show "spans (map_range a n ms) = spans ms \<union> {a ..< a + n}"
  proof -
    have pos: "x \<in> set below \<union> set beyond \<Longrightarrow> 0 < rg_size x" for x
      using ok by (auto simp: mappings_ok_def)
    have "spans (map_range a n ms) = spans below \<union> spans beyond \<union> {a ..< a + n}"
    proof (cases "below \<noteq> [] \<and> rg_end (last below) = a"; cases "beyond \<noteq> [] \<and> rg_address (hd beyond) = a + n")
      assume prev: "below \<noteq> [] \<and> rg_end (last below) = a" and nxt: "beyond \<noteq> [] \<and> rg_address (hd beyond) = a + n"
      then obtain bs p q qs where "below = bs @ [p]" "rg_end p = a" "beyond = q # qs" "rg_address q = a + n"
        by (metis append_butlast_last_id list.collapse)
      then show ?thesis
        using pos [of p] pos [of q] assms(5) unfolding eq by (auto simp: span_def rg_end_def)
    next
      assume prev: "below \<noteq> [] \<and> rg_end (last below) = a" and nxt: "\<not> (beyond \<noteq> [] \<and> rg_address (hd beyond) = a + n)"
      then obtain bs p where "below = bs @ [p]" "rg_end p = a" by (metis append_butlast_last_id)
      then show ?thesis
        using pos [of p] assms(5) nxt unfolding eq by (simp add: span_def) (auto simp: rg_end_def)
    next
      assume prev: "\<not> (below \<noteq> [] \<and> rg_end (last below) = a)" and nxt: "beyond \<noteq> [] \<and> rg_address (hd beyond) = a + n"
      then obtain q qs where "beyond = q # qs" "rg_address q = a + n" by (metis list.collapse)
      then show ?thesis
        using pos [of q] assms(5) prev unfolding eq by (simp add: span_def) (auto simp: rg_end_def)
    next
      assume "\<not> (below \<noteq> [] \<and> rg_end (last below) = a)" "\<not> (beyond \<noteq> [] \<and> rg_address (hd beyond) = a + n)"
      then show ?thesis unfolding eq by (simp add: span_def) blast
    qed
    then show ?thesis unfolding ms by simp
  qed
qed

lemma is_in_smaller:
  "loader_is_in_reserved_range s a n \<Longrightarrow> m \<le> n \<Longrightarrow> loader_is_in_reserved_range s a m"
  by (auto simp: loader_is_in_reserved_range_def split: list.splits)

lemma map_reserved_range_ok:
  assumes "ranges_ok s" "loader_is_in_reserved_range s a n" "0 < n" "{a ..< a + n} \<inter> mapped s = {}"
  shows "\<exists>s'. loader_map_reserved_range a n s = Some s' \<and> ranges_ok s' \<and>
    reserved s' = reserved s \<and> mapped s' = mapped s \<union> {a ..< a + n}"
proof (cases "rev (takeWhile (not_above a \<circ> fst) s)")
  case Nil
  then show ?thesis using assms(2) by (simp add: loader_is_in_reserved_range_def)
next
  case (Cons e qs)
  obtain r ms where e: "e = (r, ms)" by force
  note at = range_at_Cons [OF assms(1) Cons [unfolded e]]
  note r = ranges_ok_mappings [OF assms(1) at(1)]
  have fits: "a + n \<le> rg_end r"
    using assms(2) unfolding loader_is_in_reserved_range_def Cons e by simp
  have in0: "loader_is_in_reserved_range s a 0" using is_in_smaller [OF assms(2)] assms(3) by simp
  from longest_mappable_ok [OF assms(1) in0, of n] assms(2-4) obtain k where
    k: "loader_reserved_range_longest_mappable_from s a n = Some k" "n \<le> k" by auto
  have within: "{a ..< a + n} \<subseteq> span r" using at(2) fits by (auto simp: span_def)
  then have free: "{a ..< a + n} \<inter> spans ms = {}"
    using assms(4) mapped_in_range [OF assms(1) at(1)] by blast
  have "\<forall>x\<in>set ms. 0 < rg_size x" using r(1) by (auto simp: mappings_ok_def)
  then have apart: "apart (Range a n) ms"
    using apart_disjoint [of ms "Range a n"] assms(3) free by simp
  let ?ms' = "if ms = [] then [Range a n] else map_range a n ms"
  have new: "mappings_ok (rg_address r) (rg_end r) ?ms'" "spans ?ms' = spans ms \<union> {a ..< a + n}"
    using map_range_ok [OF r(1-3) apart assms(3) at(2) fits] at(2) fits assms(3)
    by (auto simp: mappings_ok_Cons)
  note upd = set_mappings_ok [OF assms(1) at(1) new(1)]
  have "loader_map_reserved_range a n s = Some (set_mappings r ?ms' s)"
    using k unfolding loader_map_reserved_range_def Cons e by simp
  moreover have "mapped (set_mappings r ?ms' s) = mapped s \<union> {a ..< a + n}"
    using upd(3) new(2) within mapped_in_range [OF assms(1) at(1)] by blast
  ultimately show ?thesis using upd(1,2) by blast
qed

lemma map_reserved_range_refused:
  assumes "ranges_ok s" "0 < n" "loader_map_reserved_range a n s = Some s'"
  shows "loader_is_in_reserved_range s a n" "{a ..< a + n} \<inter> mapped s = {}"
proof -
  obtain k where k: "loader_reserved_range_longest_mappable_from s a n = Some k" "n \<le> k"
    using assms(3) by (auto simp: loader_map_reserved_range_def split: option.splits if_splits)
  have "loader_is_in_reserved_range s a 0"
    using k(1) by (auto simp: loader_reserved_range_longest_mappable_from_def split: if_splits)
  from longest_mappable_ok [OF assms(1) this, of n] k assms(2)
  have "k = n" "loader_is_in_reserved_range s a k" "{a ..< a + k} \<inter> mapped s = {}" by auto
  then show "loader_is_in_reserved_range s a n" "{a ..< a + n} \<inter> mapped s = {}" by auto
qed

section \<open>Reserving and releasing ranges\<close>

lemma rm_insert_facts:
  shows "map fst (rm_insert e s) = rs_insert (fst e) (map fst s)"
    and "fst e \<notin> fst ` set s \<Longrightarrow> set (rm_insert e s) = insert e (set s)"
proof -
  let ?P = "\<lambda>x. range_less x (fst e)"
  have tw: "map fst (takeWhile (\<lambda>x. ?P (fst x)) s) = takeWhile ?P (map fst s)"
    "map fst (dropWhile (\<lambda>x. ?P (fst x)) s) = dropWhile ?P (map fst s)"
    using map_fst_takeWhile [of ?P s] map_fst_dropWhile [of ?P s] by (simp_all add: comp_def)
  show "map fst (rm_insert e s) = rs_insert (fst e) (map fst s)"
    by (simp add: rm_insert_def rs_insert_def tw)
  have "set s = set (takeWhile (\<lambda>x. ?P (fst x)) s) \<union> set (dropWhile (\<lambda>x. ?P (fst x)) s)"
    by (metis set_append takeWhile_dropWhile_id)
  then show "fst e \<notin> fst ` set s \<Longrightarrow> set (rm_insert e s) = insert e (set s)"
    by (simp add: rm_insert_def)
qed

lemma rm_insert_ok:
  assumes "ranges_ok s" "span r \<inter> reserved s = {}" "0 \<le> rg_address r" "0 < rg_size r"
    and "rg_end r \<le> SIZE_MAX" "mappings_ok (rg_address r) (rg_end r) ms"
  shows "ranges_ok (rm_insert (r, ms) s)" "reserved (rm_insert (r, ms) s) = reserved s \<union> span r"
    and "mapped (rm_insert (r, ms) s) = mapped s \<union> spans ms" "r \<notin> fst ` set s"
proof -
  have pos: "x \<in> fst ` set s \<Longrightarrow> 0 < rg_size x" for x
    using ranges_ok_mappings(4) [OF assms(1)] by force
  have apart: "apart r (map fst s)"
    using apart_disjoint [of "map fst s" r] pos assms(2,4) by (simp add: reserved_def)
  note ins = rs_insert_ok [OF ranges_ok_keys [OF assms(1)] apart assms(3-5)]
    spans_rs_insert [OF ranges_ok_keys [OF assms(1)] apart assms(3-5)]
  have new: "r \<notin> set (map fst s)"
    by (rule apart_split(3) [OF ranges_ok_keys [OF assms(1)] apart assms(4)])
  then show "r \<notin> fst ` set s" by simp
  then have set: "set (rm_insert (r, ms) s) = insert (r, ms) (set s)"
    using rm_insert_facts(2) [of "(r, ms)" s] by simp
  show "ranges_ok (rm_insert (r, ms) s)"
    using assms(1,6) ins(1) unfolding ranges_ok_def set by (simp add: rm_insert_facts(1))
  show "reserved (rm_insert (r, ms) s) = reserved s \<union> span r"
    using ins(3) by (simp add: reserved_def rm_insert_facts(1) Un_commute)
  show "mapped (rm_insert (r, ms) s) = mapped s \<union> spans ms"
    by (auto simp: mapped_def set)
qed

lemma range_less_address:
  "range_less x y \<Longrightarrow> rg_address x \<le> rg_address y" "\<not> range_less x y \<Longrightarrow> rg_address y \<le> rg_address x"
  by (auto simp: range_less_def split: if_splits)

lemma register_reserved_range_ok:
  assumes "ranges_ok s" "0 \<le> a" "0 < n" "a + n \<le> SIZE_MAX" "{a ..< a + n} \<inter> reserved s = {}"
  shows "\<exists>s'. loader_register_reserved_range a n s = Some s' \<and> ranges_ok s' \<and>
    reserved s' = reserved s \<union> {a ..< a + n} \<and> mapped s' = mapped s"
proof -
  let ?r = "Range a n"
  let ?b = "takeWhile (\<lambda>x. range_less (fst x) ?r) s" and ?a = "dropWhile (\<lambda>x. range_less (fst x) ?r) s"
  have pos: "x \<in> fst ` set s \<Longrightarrow> 0 < rg_size x" for x
    using ranges_ok_mappings(4) [OF assms(1)] by force
  have span: "span ?r \<inter> reserved s = {}" using assms(5) by simp
  have "apart ?r (map fst s)"
    using apart_disjoint [of "map fst s" ?r] pos assms(3) span by (simp add: reserved_def)
  then have apart: "rg_end x \<le> a \<or> a + n \<le> rg_address x" if "x \<in> fst ` set s" for x
    using that unfolding apart_def by fastforce
  note ins = rm_insert_ok [OF assms(1) span, of "[]"]
  have "rg_end (fst (last ?b)) \<le> a" if ne: "?b \<noteq> []"
  proof -
    have "last ?b \<in> set ?b" using ne by simp
    then have l: "last ?b \<in> set s" "range_less (fst (last ?b)) ?r" by (auto dest: set_takeWhileD)
    then have "rg_address (fst (last ?b)) \<le> a" using range_less_address(1) by fastforce
    then show ?thesis using apart [of "fst (last ?b)"] l(1) assms(3) by auto
  qed
  moreover have "a + n \<le> rg_address (fst (hd ?a))" if ne: "?a \<noteq> []"
  proof -
    have h: "hd ?a \<in> set s" using ne by (metis hd_in_set set_dropWhileD)
    have "\<not> range_less (fst (hd ?a)) ?r" using ne hd_dropWhile by blast
    then have "a \<le> rg_address (fst (hd ?a))" using range_less_address(2) by fastforce
    then show ?thesis using apart [of "fst (hd ?a)"] h pos [of "fst (hd ?a)"] by (auto simp: rg_end_def)
  qed
  moreover have "?r \<notin> fst ` set s" using ins(4) assms(2-4) by simp
  ultimately have "loader_register_reserved_range a n s = Some (rm_insert (?r, []) s)"
    by (auto simp: loader_register_reserved_range_def Let_def)
  then show ?thesis using ins assms(2-4) by simp
qed

lemma left_mappings_ok:
  assumes "mappings_ok lo hi ms" "mappings_ok lo e new" "\<forall>x\<in>set new. \<forall>m\<in>set ms. rg_end x \<le> rg_address m"
  shows "snd (left_mappings e new ms) = dropWhile (\<lambda>m. rg_address m < e) ms \<and>
    mappings_ok lo e (fst (left_mappings e new ms)) \<and>
    spans (fst (left_mappings e new ms)) = spans new \<union> (spans ms \<inter> {..<e})"
  using assms
proof (induction ms arbitrary: new)
  case (Cons m ms)
  show ?case
  proof (cases "rg_address m < e")
    case True
    let ?p = "Range (rg_address m) (min (rg_size m) (e - rg_address m))"
    have m: "mappings_ok lo hi ms" "lo \<le> rg_address m" "0 < rg_size m" "\<forall>y\<in>set ms. rg_end m \<le> rg_address y"
      using Cons.prems(1) by (auto simp: mappings_ok_Cons)
    have apart: "apart ?p new" using Cons.prems(3) by (auto simp: apart_def)
    have p: "0 < rg_size ?p" "rg_end ?p \<le> e" "lo \<le> rg_address ?p" using True m by auto
    note ins = rs_insert_ok [OF Cons.prems(2) apart p(3,1,2)]
      spans_rs_insert [OF Cons.prems(2) apart p(3,1,2)]
    have "\<forall>x\<in>set (rs_insert ?p new). \<forall>y\<in>set ms. rg_end x \<le> rg_address y"
      using Cons.prems(3) m(4) unfolding ins(2) by (fastforce simp: rg_end_def)
    note IH = Cons.IH [OF m(1) ins(1) this]
    have "span ?p = span m \<inter> {..<e}" by (auto simp: span_def rg_end_def)
    then show ?thesis using IH ins(3) True by auto
  next
    case False
    then have "spans (m # ms) \<inter> {..<e} = {}"
      using Cons.prems(1) by (force simp: mappings_ok_Cons in_spans rg_end_def in_span)
    then show ?thesis using Cons.prems(2) False by auto
  qed
qed simp

lemma right_mappings_ok:
  assumes "mappings_ok lo hi ms" "mappings_ok b hi new" "\<forall>x\<in>set new. \<forall>m\<in>set ms. rg_end x \<le> rg_address m"
    and "\<forall>m\<in>set ms. b < rg_end m"
  shows "mappings_ok b hi (right_mappings b new ms) \<and>
    spans (right_mappings b new ms) = spans new \<union> (spans ms \<inter> {b..})"
  using assms
proof (induction ms arbitrary: new)
  case (Cons m ms)
  let ?a = "max (rg_address m) b"
  let ?p = "Range ?a (rg_end m - ?a)"
  have m: "mappings_ok lo hi ms" "0 < rg_size m" "rg_end m \<le> hi" "\<forall>y\<in>set ms. rg_end m \<le> rg_address y"
    using Cons.prems(1) by (auto simp: mappings_ok_Cons)
  have apart: "apart ?p new" using Cons.prems(3) by (fastforce simp: apart_def)
  have p: "0 < rg_size ?p" "rg_end ?p \<le> hi" "b \<le> rg_address ?p"
    using m(2,3) Cons.prems(4) by (auto simp: rg_end_def)
  note ins = rs_insert_ok [OF Cons.prems(2) apart p(3,1,2)]
    spans_rs_insert [OF Cons.prems(2) apart p(3,1,2)]
  have "\<forall>x\<in>set (rs_insert ?p new). \<forall>y\<in>set ms. rg_end x \<le> rg_address y"
    using Cons.prems(3) m(4) unfolding ins(2) by fastforce
  note IH = Cons.IH [OF m(1) ins(1) this]
  have "span ?p = span m \<inter> {b..}" by (auto simp: span_def)
  then show ?case using IH ins(3) Cons.prems(4) by (auto simp: Let_def)
qed simp

lemma remove_range_ok:
  assumes "ranges_ok s" "(r, ms) \<in> set s"
  defines "s0 \<equiv> filter (\<lambda>e. fst e \<noteq> r) s"
  shows "ranges_ok s0" "reserved s0 = reserved s - span r" "mapped s0 = mapped s - span r"
proof -
  have keys: "map fst s0 = filter (\<lambda>k. k \<noteq> r) (map fst s)" by (simp add: s0_def filter_map comp_def)
  show "ranges_ok s0"
    using assms(1) mappings_ok_filter [of 0 SIZE_MAX "map fst s" "\<lambda>k. k \<noteq> r"]
    unfolding ranges_ok_def keys by (auto simp: s0_def)
  have other: "span k \<inter> span r = {}" if "k \<in> fst ` set s" "k \<noteq> r" for k
    using ranges_ok_pair [OF assms(1,2)] that by force
  show "reserved s0 = reserved s - span r"
    using other unfolding reserved_def keys spans_def by auto
  have "spans (snd e) \<subseteq> span (fst e)" if "e \<in> set s" for e
    using spans_within [OF ranges_ok_mappings(1) [OF assms(1), of "fst e" "snd e"]] that
    unfolding span_def by simp
  moreover have "fst e \<noteq> r \<Longrightarrow> e \<in> set s \<Longrightarrow> span (fst e) \<inter> span r = {}" for e using other by blast
  ultimately show "mapped s0 = mapped s - span r" unfolding mapped_def s0_def by fastforce
qed

text \<open>What the two loops leave of the mappings, when none lies across the released range.\<close>

lemma remainder_mappings:
  assumes "mappings_ok lo hi ms" "a \<le> b" "\<forall>m\<in>set ms. \<not> (rg_address m < a \<and> b < rg_end m)"
    and "ms1 = ms \<or> ms1 = dropWhile (\<lambda>m. rg_address m < a) ms"
  defines "rs \<equiv> right_mappings b [] (dropWhile (\<lambda>m. rg_end m \<le> b) ms1)"
  shows "mappings_ok b hi rs" "spans rs = spans ms \<inter> {b..}"
proof -
  have ms1: "mappings_ok lo hi ms1" "set ms1 \<subseteq> set ms"
    using assms(4) assms(1) mappings_ok_append [of lo hi "takeWhile (\<lambda>m. rg_address m < a) ms" "dropWhile (\<lambda>m. rg_address m < a) ms"]
    by (auto dest: set_dropWhileD)
  let ?D = "dropWhile (\<lambda>m. rg_end m \<le> b) ms1"
  have D: "mappings_ok lo hi ?D"
    using ms1(1) mappings_ok_append [of lo hi "takeWhile (\<lambda>m. rg_end m \<le> b) ms1" ?D] by simp
  have ends: "b < rg_end m" if "m \<in> set ?D" for m
  proof -
    have "\<not> rg_end m \<le> b"
      using that ms1(1)
      by (intro dropWhile_sorted [where R = "\<lambda>x y. rg_end x \<le> rg_address y" and xs = ms1 and P = "\<lambda>m. rg_end m \<le> b"])
        (fastforce simp: mappings_ok_def rg_end_def)+
    then show ?thesis by simp
  qed
  have "spans ?D \<inter> {b..} = spans ms \<inter> {b..}"
  proof -
    have "m \<in> set ?D" if m: "m \<in> set ms" "b < rg_end m" for m
    proof -
      have "m \<in> set ms1"
      proof (cases "ms1 = ms")
        case False
        then have "ms1 = dropWhile (\<lambda>m. rg_address m < a) ms" using assms(4) by blast
        moreover have "\<not> rg_address m < a" using m assms(3) by blast
        ultimately show ?thesis using m(1)
          by (metis Un_iff set_append set_takeWhileD takeWhile_dropWhile_id)
      qed (use m in simp)
      then show ?thesis using m(2)
        by (metis Un_iff linorder_not_less set_append set_takeWhileD takeWhile_dropWhile_id)
    qed
    moreover have "set ?D \<subseteq> set ms" using ms1(2) by (auto dest: set_dropWhileD)
    ultimately show ?thesis unfolding spans_def span_def by fastforce
  qed
  then show "mappings_ok b hi rs" "spans rs = spans ms \<inter> {b..}"
    using right_mappings_ok [OF D mappings_ok_Nil, of b] ends unfolding rs_def by simp_all
qed

lemma unregister_reserved_range_ok:
  assumes "ranges_ok s" "loader_is_in_reserved_range s a n" "0 < n"
    and "\<forall>e\<in>set s. \<forall>m\<in>set (snd e). \<not> (rg_address m < a \<and> a + n < rg_end m)"
  shows "\<exists>s'. loader_unregister_reserved_range a n s = Some s' \<and> ranges_ok s' \<and>
    reserved s' = reserved s - {a ..< a + n} \<and> mapped s' = mapped s - {a ..< a + n}"
proof (cases "rev (takeWhile (not_above a \<circ> fst) s)")
  case Nil
  then show ?thesis using assms(2) by (simp add: loader_is_in_reserved_range_def)
next
  case (Cons e qs)
  obtain r ms where e: "e = (r, ms)" by force
  note at = range_at_Cons [OF assms(1) Cons [unfolded e]]
  note r = ranges_ok_mappings [OF assms(1) at(1)]
  have fits: "a + n \<le> rg_end r"
    using assms(2) unfolding loader_is_in_reserved_range_def Cons e by simp
  let ?s0 = "filter (\<lambda>e. fst e \<noteq> r) s"
  note s0 = remove_range_ok [OF assms(1) at(1)]
  have within: "{a ..< a + n} \<subseteq> span r" using at(2) fits by (auto simp: span_def)
  have own: "mapped s \<inter> span r = spans ms" by (rule mapped_in_range [OF assms(1) at(1)])
  have ownr: "span r \<subseteq> reserved s" using at(1) by (force simp: reserved_def spans_def)
  show ?thesis
  proof (cases "r = Range a n")
    case True
    then have "loader_unregister_reserved_range a n s = Some ?s0"
      using assms(2) unfolding loader_unregister_reserved_range_def Cons e by (simp add: Let_def)
    moreover have "span r = {a ..< a + n}" using True by simp
    ultimately show ?thesis using s0 by simp
  next
    case False
    define s1 where "s1 = (if rg_address r < a
      then rm_insert (Range (rg_address r) (a - rg_address r), fst (left_mappings a [] ms)) ?s0 else ?s0)"
    define ms1 where "ms1 = (if rg_address r < a then snd (left_mappings a [] ms) else ms)"
    define s2 where "s2 = (if rg_end r > a + n
      then rm_insert (Range (a + n) (rg_end r - a - n),
        right_mappings (a + n) [] (dropWhile (\<lambda>m. rg_end m \<le> a + n) ms1)) s1 else s1)"
    have run: "loader_unregister_reserved_range a n s = Some s2"
      using assms(2) False unfolding loader_unregister_reserved_range_def Cons e
      by (simp add: Let_def s2_def s1_def ms1_def split: prod.split)
    note left = left_mappings_ok [OF r(1), of a "[]", simplified]
    have 1: "ranges_ok s1 \<and> reserved s1 = (reserved s - span r) \<union> (span r \<inter> {..<a}) \<and>
      mapped s1 = (mapped s - span r) \<union> (spans ms \<inter> {..<a})"
    proof (cases "rg_address r < a")
      case True
      have sp: "{rg_address r ..< a} = span r \<inter> {..<a}" using fits assms(3) by (auto simp: span_def)
      have "span (Range (rg_address r) (a - rg_address r)) \<inter> reserved ?s0 = {}"
        using s0(2) sp by auto
      from rm_insert_ok [OF s0(1) this, of "fst (left_mappings a [] ms)"] left True r(2,3) fits assms(3) s0(2,3) sp
      show ?thesis by (simp add: s1_def)
    next
      case False
      then have "span r \<inter> {..<a} = {}" by (auto simp: span_def)
      moreover have "spans ms \<inter> {..<a} = {}" using own calculation by blast
      ultimately show ?thesis using False s0 by (simp add: s1_def)
    qed
    have cross: "\<forall>m\<in>set ms. \<not> (rg_address m < a \<and> a + n < rg_end m)"
      using assms(4) at(1) by force
    have "ms1 = ms \<or> ms1 = dropWhile (\<lambda>m. rg_address m < a) ms"
      using left by (auto simp: ms1_def)
    note right = remainder_mappings [OF r(1) _ cross this]
    have 2: "ranges_ok s2 \<and> reserved s2 = reserved s1 \<union> (span r \<inter> {a + n..}) \<and>
      mapped s2 = mapped s1 \<union> (spans ms \<inter> {a + n..})"
    proof (cases "rg_end r > a + n")
      case True
      have sp: "{a + n ..< rg_end r} = span r \<inter> {a + n..}" using at(2) assms(3) by (auto simp: span_def)
      have "span (Range (a + n) (rg_end r - a - n)) \<inter> reserved s1 = {}"
        using 1 sp assms(3) by auto
      from rm_insert_ok [OF conjunct1 [OF 1] this, of "right_mappings (a + n) [] (dropWhile (\<lambda>m. rg_end m \<le> a + n) ms1)"]
      show ?thesis using right True r(2,3) at(2) assms(3) sp by (simp add: s2_def)
    next
      case False
      then have "span r \<inter> {a + n..} = {}" by (auto simp: span_def)
      moreover have "spans ms \<inter> {a + n..} = {}" using own calculation by blast
      ultimately show ?thesis using False 1 by (simp add: s2_def)
    qed
    have "reserved s2 = reserved s - {a ..< a + n}" using 1 2 within ownr by auto
    moreover have "mapped s2 = mapped s - {a ..< a + n}" using 1 2 within own by auto
    ultimately show ?thesis using run 2 by blast
  qed
qed

section \<open>Properties\<close>

datatype range_op =
    ReserveRange int int
  | UnreserveRange int int
  | MapRange int int
  | UnmapRange int int

fun range_step :: "range_op \<Rightarrow> reserved_ranges \<Rightarrow> reserved_ranges option" where
  "range_step (ReserveRange a n) s = loader_register_reserved_range a n s"
| "range_step (UnreserveRange a n) s = loader_unregister_reserved_range a n s"
| "range_step (MapRange a n) s = loader_map_reserved_range a n s"
| "range_step (UnmapRange a n) s = loader_unmap_reserved_range a n s"

text \<open>
  What the callers in \<^verbatim>\<open>monika/linux/mman.cpp\<close> check or get from the kernel first. That no
  mapping lies across a range that is released is not checked by anyone; see the second property.
\<close>

fun range_guard :: "range_op \<Rightarrow> reserved_ranges \<Rightarrow> bool" where
  "range_guard (ReserveRange a n) s \<longleftrightarrow>
    0 \<le> a \<and> 0 < n \<and> a + n \<le> SIZE_MAX \<and> \<not> loader_collides_with_reserved_range s a n"
| "range_guard (UnreserveRange a n) s \<longleftrightarrow> 0 < n \<and> loader_is_in_reserved_range s a n \<and>
    list_all (\<lambda>e. list_all (\<lambda>m. \<not> (rg_address m < a \<and> a + n < rg_end m)) (snd e)) s"
| "range_guard (MapRange a n) s \<longleftrightarrow> 0 < n \<and> loader_is_in_reserved_range s a n \<and>
    (case loader_reserved_range_longest_mappable_from s a n of None \<Rightarrow> False | Some k \<Rightarrow> \<not> k < n)"
| "range_guard (UnmapRange a n) s \<longleftrightarrow> 0 < n \<and> loader_is_in_reserved_range s a n"

fun spec_step :: "range_op \<Rightarrow> int set \<times> int set \<Rightarrow> int set \<times> int set" where
  "spec_step (ReserveRange a n) (R, M) = (R \<union> {a ..< a + n}, M)"
| "spec_step (UnreserveRange a n) (R, M) = (R - {a ..< a + n}, M - {a ..< a + n})"
| "spec_step (MapRange a n) (R, M) = (R, M \<union> {a ..< a + n})"
| "spec_step (UnmapRange a n) (R, M) = (R, M - {a ..< a + n})"

inductive range_history :: "range_op list \<Rightarrow> reserved_ranges \<Rightarrow> bool" where
  range_history_empty: "range_history [] []"
| range_history_step: "range_history ops s \<Longrightarrow> range_guard op s \<Longrightarrow> range_step op s = Some s' \<Longrightarrow>
    range_history (ops @ [op]) s'"

lemma range_step_ok:
  assumes "ranges_ok s" "range_guard op s"
  shows "\<exists>s'. range_step op s = Some s' \<and> ranges_ok s' \<and>
    (reserved s', mapped s') = spec_step op (reserved s, mapped s)"
proof (cases op)
  case (ReserveRange a n)
  then have "{a ..< a + n} \<inter> reserved s = {}"
    using assms(2) collides_with_reserved_range_iff [OF assms(1), of n a] by auto
  then show ?thesis
    using register_reserved_range_ok [OF assms(1), of a n] assms(2) ReserveRange by auto
next
  case (UnreserveRange a n)
  then show ?thesis
    using unregister_reserved_range_ok [OF assms(1), of a n] assms(2) by (auto simp: list_all_iff)
next
  case (MapRange a n)
  then have in0: "loader_is_in_reserved_range s a 0" "0 < n"
    using assms(2) is_in_smaller [of s a n 0] by auto
  obtain k where "loader_reserved_range_longest_mappable_from s a n = Some k" "n \<le> k"
    using MapRange assms(2) by (auto split: option.splits)
  then have "{a ..< a + n} \<inter> mapped s = {}"
    using longest_mappable_ok [OF assms(1) in0(1), of n] in0(2) by auto
  then show ?thesis
    using map_reserved_range_ok [OF assms(1), of a n] assms(2) MapRange by auto
next
  case (UnmapRange a n)
  then show ?thesis
    using unmap_reserved_range_ok [OF assms(1), of a n] assms(2) by auto
qed

lemma range_history_ok:
  assumes "range_history ops s"
  shows "ranges_ok s \<and> (reserved s, mapped s) = foldl (\<lambda>RM op. spec_step op RM) ({}, {}) ops"
  using assms
proof induction
  case range_history_empty
  show ?case by (simp add: ranges_ok_def mapped_def reserved_def)
next
  case (range_history_step ops s op s')
  then show ?case using range_step_ok [of s op] by auto
qed

text \<open>
  C27: the table of reserved ranges is a set of reserved and a set of mapped addresses. After any
  history of calls that meet \<open>range_guard\<close>, whatever call meets it next succeeds (no assert fails and
  no iterator is used past its end) and changes the two sets the way the call promises; the table
  stands for exactly the sets that the history builds, and what is mapped is reserved. The guard is
  what the callers check, and for a release also that no mapping reaches over both ends of the
  released range, which no caller checks.
\<close>

theorem reserved_ranges_refine_sets:
  assumes "range_history ops s" and "range_guard op s"
  shows "\<exists>s'. range_step op s = Some s' \<and> range_history (ops @ [op]) s' \<and>
    (reserved s', mapped s') = foldl (\<lambda>RM op. spec_step op RM) ({}, {}) (ops @ [op]) \<and>
    mapped s' \<subseteq> reserved s'"
proof -
  have s: "ranges_ok s" "(reserved s, mapped s) = foldl (\<lambda>RM op. spec_step op RM) ({}, {}) ops"
    using range_history_ok [OF assms(1)] by blast+
  obtain s' where s': "range_step op s = Some s'" "ranges_ok s'"
    "(reserved s', mapped s') = spec_step op (reserved s, mapped s)"
    using range_step_ok [OF s(1) assms(2)] by blast
  have "spans (snd e) \<subseteq> reserved s'" if "e \<in> set s'" for e
  proof -
    have "spans (snd e) \<subseteq> span (fst e)"
      using spans_within [OF ranges_ok_mappings(1) [OF s'(2), of "fst e" "snd e"]] that
      unfolding span_def by simp
    also have "\<dots> \<subseteq> reserved s'" using that by (force simp: reserved_def spans_def)
    finally show ?thesis .
  qed
  then have "mapped s' \<subseteq> reserved s'" unfolding mapped_def by blast
  moreover have "range_history (ops @ [op]) s'" using assms s'(1) by (rule range_history_step)
  ultimately show ?thesis using s' s(2) by auto
qed

lemmas range_ops_code = loader_register_reserved_range_def loader_map_reserved_range_def
  loader_reserved_range_longest_mappable_from_def loader_is_in_reserved_range_def
  loader_collides_with_reserved_range_def loader_unregister_reserved_range_def rm_insert_def
  rs_insert_def set_mappings_def map_range_def not_above_def range_less_def rg_end_def SIZE_MAX_def
  Let_def

theorem reserved_ranges_refine_sets_witness:
  "\<exists>s'. range_step (MapRange 20 30) [(Range 10 90, [])] = Some s' \<and>
    (reserved s', mapped s') = ({10 ..< 100}, {20 ..< 50})"
proof -
  have "range_history ([] @ [ReserveRange 10 90]) [(Range 10 90, [])]"
    by (rule range_history_step [OF range_history_empty]) (simp_all add: range_ops_code)
  moreover have "range_guard (MapRange 20 30) [(Range 10 90, [])]"
    by (simp add: range_ops_code)
  ultimately show ?thesis
    using reserved_ranges_refine_sets [of "[ReserveRange 10 90]" "[(Range 10 90, [])]" "MapRange 20 30"]
    by fastforce
qed

text \<open>
  Releasing a range out of the middle of a mapping loses the rest of the mapping. When a
  mapping starts before the released range and ends behind it, only the part in front is kept:
  the part behind, still reserved and still mapped by the kernel, counts as unmapped afterwards.
\<close>

theorem unregister_loses_rest_of_mapping:
  assumes "0 \<le> lo" "lo \<le> m" "m < a" "0 < n" "a + n < m + k" "m + k \<le> lo + len" "lo + len \<le> SIZE_MAX"
  shows "loader_unregister_reserved_range a n [(Range lo len, [Range m k])] =
    Some [(Range lo (a - lo), [Range m (a - m)]), (Range (a + n) (lo + len - a - n), [])]"
  using assms by (simp add: range_ops_code)

theorem unregister_loses_rest_of_mapping_witness:
  "\<exists>s'. loader_unregister_reserved_range 40 10 [(Range 0 100, [Range 10 80])] = Some s' \<and>
    mapped s' = {10 ..< 40} \<and> 60 \<in> reserved s'"
  using unregister_loses_rest_of_mapping [of 0 10 40 10 80 100]
  by (auto simp: mapped_def reserved_def SIZE_MAX_def)

end
