(* ===== verification/Errno.thy ===== *)
theory Errno
  imports Prelude
begin

text \<open>
  \<^verbatim>\<open>monika/linux/errno_conversion.cpp\<close>: the status of a Haiku system call from the errno of
  the Linux one, with the codes of \<^verbatim>\<open>shared_headers/haiku_errors.h\<close> that it uses. The keys of
  the table are the numbers of Linux for x86-64 and arm64.
\<close>

definition HAIKU_POSIX_E2BIG :: int where [status_codes]: "HAIKU_POSIX_E2BIG = B_POSIX_ERROR_BASE + 1"
definition B_PERMISSION_DENIED :: int where [status_codes]: "B_PERMISSION_DENIED = B_GENERAL_ERROR_BASE + 2"
definition HAIKU_POSIX_EACCES :: int where [status_codes]: "HAIKU_POSIX_EACCES = B_PERMISSION_DENIED"
definition HAIKU_POSIX_EADDRINUSE :: int where [status_codes]: "HAIKU_POSIX_EADDRINUSE = B_POSIX_ERROR_BASE + 22"
definition HAIKU_POSIX_EADDRNOTAVAIL :: int where [status_codes]: "HAIKU_POSIX_EADDRNOTAVAIL = B_POSIX_ERROR_BASE + 23"
definition HAIKU_POSIX_EAFNOSUPPORT :: int where [status_codes]: "HAIKU_POSIX_EAFNOSUPPORT = B_POSIX_ERROR_BASE + 21"
definition HAIKU_POSIX_EAGAIN :: int where [status_codes]: "HAIKU_POSIX_EAGAIN = B_WOULD_BLOCK"
definition HAIKU_POSIX_EALREADY :: int where [status_codes]: "HAIKU_POSIX_EALREADY = B_POSIX_ERROR_BASE + 37"
definition HAIKU_POSIX_EBADMSG :: int where [status_codes]: "HAIKU_POSIX_EBADMSG = B_POSIX_ERROR_BASE + 46"
definition B_BUSY :: int where [status_codes]: "B_BUSY = B_GENERAL_ERROR_BASE + 14"
definition HAIKU_POSIX_EBUSY :: int where [status_codes]: "HAIKU_POSIX_EBUSY = B_BUSY"
definition HAIKU_POSIX_ECANCELED :: int where [status_codes]: "HAIKU_POSIX_ECANCELED = B_POSIX_ERROR_BASE + 47"
definition HAIKU_POSIX_ECHILD :: int where [status_codes]: "HAIKU_POSIX_ECHILD = B_POSIX_ERROR_BASE + 2"
definition HAIKU_POSIX_ECONNABORTED :: int where [status_codes]: "HAIKU_POSIX_ECONNABORTED = B_POSIX_ERROR_BASE + 27"
definition HAIKU_POSIX_ECONNREFUSED :: int where [status_codes]: "HAIKU_POSIX_ECONNREFUSED = B_POSIX_ERROR_BASE + 32"
definition HAIKU_POSIX_ECONNRESET :: int where [status_codes]: "HAIKU_POSIX_ECONNRESET = B_POSIX_ERROR_BASE + 28"
definition HAIKU_POSIX_EDEADLK :: int where [status_codes]: "HAIKU_POSIX_EDEADLK = B_POSIX_ERROR_BASE + 3"
definition HAIKU_POSIX_EDESTADDRREQ :: int where [status_codes]: "HAIKU_POSIX_EDESTADDRREQ = B_POSIX_ERROR_BASE + 48"
definition HAIKU_POSIX_EDOM :: int where [status_codes]: "HAIKU_POSIX_EDOM = B_POSIX_ERROR_BASE + 16"
definition HAIKU_POSIX_EDQUOT :: int where [status_codes]: "HAIKU_POSIX_EDQUOT = B_POSIX_ERROR_BASE + 49"
definition B_FILE_EXISTS :: int where [status_codes]: "B_FILE_EXISTS = B_STORAGE_ERROR_BASE + 2"
definition HAIKU_POSIX_EEXIST :: int where [status_codes]: "HAIKU_POSIX_EEXIST = B_FILE_EXISTS"
definition HAIKU_POSIX_EFAULT :: int where [status_codes]: "HAIKU_POSIX_EFAULT = B_BAD_ADDRESS"
definition HAIKU_POSIX_EFBIG :: int where [status_codes]: "HAIKU_POSIX_EFBIG = B_POSIX_ERROR_BASE + 4"
definition HAIKU_POSIX_EHOSTUNREACH :: int where [status_codes]: "HAIKU_POSIX_EHOSTUNREACH = B_POSIX_ERROR_BASE + 33"
definition HAIKU_POSIX_EIDRM :: int where [status_codes]: "HAIKU_POSIX_EIDRM = B_POSIX_ERROR_BASE + 50"
definition HAIKU_POSIX_EILSEQ :: int where [status_codes]: "HAIKU_POSIX_EILSEQ = B_POSIX_ERROR_BASE + 38"
definition HAIKU_POSIX_EINPROGRESS :: int where [status_codes]: "HAIKU_POSIX_EINPROGRESS = B_POSIX_ERROR_BASE + 36"
definition B_NO_INIT :: int where [status_codes]: "B_NO_INIT = B_GENERAL_ERROR_BASE + 13"
definition B_INTERRUPTED :: int where [status_codes]: "B_INTERRUPTED = B_GENERAL_ERROR_BASE + 10"
definition HAIKU_POSIX_EINTR :: int where [status_codes]: "HAIKU_POSIX_EINTR = B_INTERRUPTED"
definition HAIKU_POSIX_EINVAL :: int where [status_codes]: "HAIKU_POSIX_EINVAL = B_BAD_VALUE"
definition B_IO_ERROR :: int where [status_codes]: "B_IO_ERROR = B_GENERAL_ERROR_BASE + 1"
definition HAIKU_POSIX_EIO :: int where [status_codes]: "HAIKU_POSIX_EIO = B_IO_ERROR"
definition HAIKU_POSIX_EISCONN :: int where [status_codes]: "HAIKU_POSIX_EISCONN = B_POSIX_ERROR_BASE + 29"
definition B_IS_A_DIRECTORY :: int where [status_codes]: "B_IS_A_DIRECTORY = B_STORAGE_ERROR_BASE + 9"
definition HAIKU_POSIX_EISDIR :: int where [status_codes]: "HAIKU_POSIX_EISDIR = B_IS_A_DIRECTORY"
definition B_LINK_LIMIT :: int where [status_codes]: "B_LINK_LIMIT = B_STORAGE_ERROR_BASE + 12"
definition HAIKU_POSIX_ELOOP :: int where [status_codes]: "HAIKU_POSIX_ELOOP = B_LINK_LIMIT"
definition B_NO_MORE_FDS :: int where [status_codes]: "B_NO_MORE_FDS = B_STORAGE_ERROR_BASE + 10"
definition HAIKU_POSIX_EMFILE :: int where [status_codes]: "HAIKU_POSIX_EMFILE = B_NO_MORE_FDS"
definition HAIKU_POSIX_EMLINK :: int where [status_codes]: "HAIKU_POSIX_EMLINK = B_POSIX_ERROR_BASE + 5"
definition HAIKU_POSIX_EMSGSIZE :: int where [status_codes]: "HAIKU_POSIX_EMSGSIZE = B_POSIX_ERROR_BASE + 42"
definition HAIKU_POSIX_ENAMETOOLONG :: int where [status_codes]: "HAIKU_POSIX_ENAMETOOLONG = B_NAME_TOO_LONG"
definition HAIKU_POSIX_ENFILE :: int where [status_codes]: "HAIKU_POSIX_ENFILE = B_POSIX_ERROR_BASE + 6"
definition HAIKU_POSIX_ENOBUFS :: int where [status_codes]: "HAIKU_POSIX_ENOBUFS = B_POSIX_ERROR_BASE + 35"
definition HAIKU_POSIX_ENODEV :: int where [status_codes]: "HAIKU_POSIX_ENODEV = B_POSIX_ERROR_BASE + 7"
definition HAIKU_POSIX_ENOENT :: int where [status_codes]: "HAIKU_POSIX_ENOENT = B_ENTRY_NOT_FOUND"
definition B_NOT_AN_EXECUTABLE :: int where [status_codes]: "B_NOT_AN_EXECUTABLE = B_OS_ERROR_BASE + 0x302"
definition HAIKU_POSIX_ENOEXEC :: int where [status_codes]: "HAIKU_POSIX_ENOEXEC = B_NOT_AN_EXECUTABLE"
definition HAIKU_POSIX_ENOLCK :: int where [status_codes]: "HAIKU_POSIX_ENOLCK = B_POSIX_ERROR_BASE + 8"
definition B_DEVICE_FULL :: int where [status_codes]: "B_DEVICE_FULL = B_STORAGE_ERROR_BASE + 7"
definition HAIKU_POSIX_ENOSPC :: int where [status_codes]: "HAIKU_POSIX_ENOSPC = B_DEVICE_FULL"
definition HAIKU_POSIX_ENOTCONN :: int where [status_codes]: "HAIKU_POSIX_ENOTCONN = B_POSIX_ERROR_BASE + 30"
definition B_NOT_A_DIRECTORY :: int where [status_codes]: "B_NOT_A_DIRECTORY = B_STORAGE_ERROR_BASE + 5"
definition HAIKU_POSIX_ENOTDIR :: int where [status_codes]: "HAIKU_POSIX_ENOTDIR = B_NOT_A_DIRECTORY"
definition B_DIRECTORY_NOT_EMPTY :: int where [status_codes]: "B_DIRECTORY_NOT_EMPTY = B_STORAGE_ERROR_BASE + 6"
definition HAIKU_POSIX_ENOTEMPTY :: int where [status_codes]: "HAIKU_POSIX_ENOTEMPTY = B_DIRECTORY_NOT_EMPTY"
definition HAIKU_POSIX_ENOTSOCK :: int where [status_codes]: "HAIKU_POSIX_ENOTSOCK = B_POSIX_ERROR_BASE + 44"
definition HAIKU_POSIX_ENOTSUP :: int where [status_codes]: "HAIKU_POSIX_ENOTSUP = B_POSIX_ERROR_BASE + 56"
definition HAIKU_POSIX_ENXIO :: int where [status_codes]: "HAIKU_POSIX_ENXIO = B_POSIX_ERROR_BASE + 11"
definition HAIKU_POSIX_EPERM :: int where [status_codes]: "HAIKU_POSIX_EPERM = B_NOT_ALLOWED"
definition B_BUSTED_PIPE :: int where [status_codes]: "B_BUSTED_PIPE = B_STORAGE_ERROR_BASE + 13"
definition HAIKU_POSIX_EPIPE :: int where [status_codes]: "HAIKU_POSIX_EPIPE = B_BUSTED_PIPE"
definition HAIKU_POSIX_EPROTO :: int where [status_codes]: "HAIKU_POSIX_EPROTO = B_POSIX_ERROR_BASE + 57"
definition HAIKU_POSIX_EPROTONOSUPPORT :: int where [status_codes]: "HAIKU_POSIX_EPROTONOSUPPORT = B_POSIX_ERROR_BASE + 19"
definition HAIKU_POSIX_EPROTOTYPE :: int where [status_codes]: "HAIKU_POSIX_EPROTOTYPE = B_POSIX_ERROR_BASE + 18"
definition HAIKU_POSIX_ERANGE :: int where [status_codes]: "HAIKU_POSIX_ERANGE = B_POSIX_ERROR_BASE + 17"
definition B_READ_ONLY_DEVICE :: int where [status_codes]: "B_READ_ONLY_DEVICE = B_STORAGE_ERROR_BASE + 8"
definition HAIKU_POSIX_EROFS :: int where [status_codes]: "HAIKU_POSIX_EROFS = B_READ_ONLY_DEVICE"
definition HAIKU_POSIX_ESPIPE :: int where [status_codes]: "HAIKU_POSIX_ESPIPE = B_POSIX_ERROR_BASE + 12"
definition HAIKU_POSIX_ESRCH :: int where [status_codes]: "HAIKU_POSIX_ESRCH = B_POSIX_ERROR_BASE + 13"
definition HAIKU_POSIX_ESTALE :: int where [status_codes]: "HAIKU_POSIX_ESTALE = B_POSIX_ERROR_BASE + 40"
definition HAIKU_POSIX_ETIMEDOUT :: int where [status_codes]: "HAIKU_POSIX_ETIMEDOUT = B_TIMED_OUT"
definition HAIKU_POSIX_ETXTBSY :: int where [status_codes]: "HAIKU_POSIX_ETXTBSY = B_POSIX_ERROR_BASE + 59"
definition B_CROSS_DEVICE_LINK :: int where [status_codes]: "B_CROSS_DEVICE_LINK = B_STORAGE_ERROR_BASE + 11"
definition HAIKU_POSIX_EXDEV :: int where [status_codes]: "HAIKU_POSIX_EXDEV = B_CROSS_DEVICE_LINK"
definition HAIKU_POSIX_EOPNOTSUPP :: int where [status_codes]: "HAIKU_POSIX_EOPNOTSUPP = B_POSIX_ERROR_BASE + 43"
definition HAIKU_POSIX_EWOULDBLOCK :: int where [status_codes]: "HAIKU_POSIX_EWOULDBLOCK = B_WOULD_BLOCK"

definition errno_table :: "(int \<times> int) list" where
  "errno_table = [
     (7, HAIKU_POSIX_E2BIG),
     (13, HAIKU_POSIX_EACCES),
     (98, HAIKU_POSIX_EADDRINUSE),
     (99, HAIKU_POSIX_EADDRNOTAVAIL),
     (97, HAIKU_POSIX_EAFNOSUPPORT),
     (11, HAIKU_POSIX_EAGAIN),
     (114, HAIKU_POSIX_EALREADY),
     (9, HAIKU_POSIX_EBADF),
     (74, HAIKU_POSIX_EBADMSG),
     (16, HAIKU_POSIX_EBUSY),
     (125, HAIKU_POSIX_ECANCELED),
     (10, HAIKU_POSIX_ECHILD),
     (103, HAIKU_POSIX_ECONNABORTED),
     (111, HAIKU_POSIX_ECONNREFUSED),
     (104, HAIKU_POSIX_ECONNRESET),
     (35, HAIKU_POSIX_EDEADLK),
     (89, HAIKU_POSIX_EDESTADDRREQ),
     (33, HAIKU_POSIX_EDOM),
     (122, HAIKU_POSIX_EDQUOT),
     (17, HAIKU_POSIX_EEXIST),
     (14, HAIKU_POSIX_EFAULT),
     (27, HAIKU_POSIX_EFBIG),
     (113, HAIKU_POSIX_EHOSTUNREACH),
     (43, HAIKU_POSIX_EIDRM),
     (84, HAIKU_POSIX_EILSEQ),
     (115, HAIKU_POSIX_EINPROGRESS),
     (4, HAIKU_POSIX_EINTR),
     (22, HAIKU_POSIX_EINVAL),
     (5, HAIKU_POSIX_EIO),
     (106, HAIKU_POSIX_EISCONN),
     (21, HAIKU_POSIX_EISDIR),
     (40, HAIKU_POSIX_ELOOP),
     (24, HAIKU_POSIX_EMFILE),
     (31, HAIKU_POSIX_EMLINK),
     (90, HAIKU_POSIX_EMSGSIZE),
     (36, HAIKU_POSIX_ENAMETOOLONG),
     (23, HAIKU_POSIX_ENFILE),
     (105, HAIKU_POSIX_ENOBUFS),
     (19, HAIKU_POSIX_ENODEV),
     (2, HAIKU_POSIX_ENOENT),
     (8, HAIKU_POSIX_ENOEXEC),
     (37, HAIKU_POSIX_ENOLCK),
     (12, HAIKU_POSIX_ENOMEM),
     (28, HAIKU_POSIX_ENOSPC),
     (38, HAIKU_POSIX_ENOSYS),
     (107, HAIKU_POSIX_ENOTCONN),
     (20, HAIKU_POSIX_ENOTDIR),
     (39, HAIKU_POSIX_ENOTEMPTY),
     (88, HAIKU_POSIX_ENOTSOCK),
     (95, HAIKU_POSIX_ENOTSUP),
     (6, HAIKU_POSIX_ENXIO),
     (1, HAIKU_POSIX_EPERM),
     (32, HAIKU_POSIX_EPIPE),
     (71, HAIKU_POSIX_EPROTO),
     (93, HAIKU_POSIX_EPROTONOSUPPORT),
     (91, HAIKU_POSIX_EPROTOTYPE),
     (34, HAIKU_POSIX_ERANGE),
     (30, HAIKU_POSIX_EROFS),
     (29, HAIKU_POSIX_ESPIPE),
     (3, HAIKU_POSIX_ESRCH),
     (116, HAIKU_POSIX_ESTALE),
     (110, HAIKU_POSIX_ETIMEDOUT),
     (26, HAIKU_POSIX_ETXTBSY),
     (18, HAIKU_POSIX_EXDEV)]"

text \<open>The default branch repeats two names that have the values of other cases on Linux.\<close>

definition LinuxToB :: "int \<Rightarrow> int" where
  "LinuxToB e =
    (case map_of errno_table e of
       Some b \<Rightarrow> b
     | None \<Rightarrow> if e = 95 then HAIKU_POSIX_EOPNOTSUPP
         else if e = 11 then HAIKU_POSIX_EWOULDBLOCK
         else if e = 0 then 0
         else B_BAD_VALUE)"

definition linux_errnos :: "int set" where
  "linux_errnos = fst ` set errno_table"

lemma errno_table_distinct:
  "distinct (map fst errno_table)" "distinct (map snd errno_table)"
  by (simp_all add: errno_table_def status_codes)

lemma errno_table_negative: "\<forall>p\<in>set errno_table. snd p < 0 \<and> 0 < fst p"
  by (simp add: errno_table_def status_codes)

lemma errno_table_EINVAL: "(22, B_BAD_VALUE) \<in> set errno_table"
  by (simp add: errno_table_def status_codes)

lemma LinuxToB_table: "(e, b) \<in> set errno_table \<Longrightarrow> LinuxToB e = b"
  using errno_table_distinct(1) by (simp add: LinuxToB_def)

lemma LinuxToB_unknown: "e \<notin> linux_errnos \<Longrightarrow> e \<noteq> 0 \<Longrightarrow> LinuxToB e = B_BAD_VALUE"
proof -
  assume e: "e \<notin> linux_errnos" "e \<noteq> 0"
  have "{95, 11} \<subseteq> linux_errnos" by (simp add: linux_errnos_def errno_table_def)
  then have "e \<noteq> 95" "e \<noteq> 11" using e(1) by auto
  moreover have "map_of errno_table e = None" using e(1) by (simp add: linux_errnos_def map_of_eq_None_iff)
  ultimately show ?thesis using e(2) by (simp add: LinuxToB_def)
qed

text \<open>
  C32: an errno stays an error and keeps its meaning. Zero is success; every other errno becomes a
  negative status, so that no caller takes a failed Linux call for an id or a count; two known
  errnos never become the same status; and an unknown one becomes \<open>B_BAD_VALUE\<close>.
\<close>

theorem errno_conversion_faithful:
  "LinuxToB 0 = B_OK \<and> (\<forall>e. e = 0 \<or> LinuxToB e < 0) \<and> inj_on LinuxToB linux_errnos \<and>
   (\<forall>e. e \<in> insert 0 linux_errnos \<or> LinuxToB e = LinuxToB 22)"
proof (intro conjI allI)
  have "0 \<notin> linux_errnos" using errno_table_negative by (auto simp: linux_errnos_def)
  then have "map_of errno_table 0 = None" by (simp add: linux_errnos_def map_of_eq_None_iff)
  then show "LinuxToB 0 = B_OK" by (simp add: LinuxToB_def B_OK_def)
  have einval: "LinuxToB 22 = B_BAD_VALUE" by (rule LinuxToB_table [OF errno_table_EINVAL])
  fix e
  show "e = 0 \<or> LinuxToB e < 0"
  proof (cases "e \<in> linux_errnos")
    case True
    then obtain b where b: "(e, b) \<in> set errno_table" by (auto simp: linux_errnos_def)
    then have "b < 0" using errno_table_negative by fastforce
    then show ?thesis using LinuxToB_table [OF b] by simp
  next
    case False
    then show ?thesis using LinuxToB_unknown [of e] status_codes_negative [of B_BAD_VALUE] by fastforce
  qed
  show "e \<in> insert 0 linux_errnos \<or> LinuxToB e = LinuxToB 22"
    using LinuxToB_unknown [of e] einval by fastforce
next
  show "inj_on LinuxToB linux_errnos"
  proof (rule inj_onI)
    fix x y assume "x \<in> linux_errnos" "y \<in> linux_errnos" "LinuxToB x = LinuxToB y"
    then obtain b c where xy: "(x, b) \<in> set errno_table" "(y, c) \<in> set errno_table" "b = c"
      using LinuxToB_table by (force simp: linux_errnos_def)
    then have "(x, b) = (y, c)"
      using errno_table_distinct(2) by (metis (no_types, lifting) distinct_map inj_onD snd_conv)
    then show "x = y" by simp
  qed
qed

text \<open>
  Codes that Haiku has but the conversion forgets: \<open>ENOTTY\<close>, \<open>EOVERFLOW\<close>, \<open>ENOPROTOOPT\<close>,
  \<open>EPFNOSUPPORT\<close> and \<open>ENETUNREACH\<close> of Linux all become \<open>EINVAL\<close>.
\<close>

lemma errno_without_case: "map LinuxToB [25, 75, 92, 96, 101] = replicate 5 HAIKU_POSIX_EINVAL"
  by (simp add: LinuxToB_def errno_table_def HAIKU_POSIX_EINVAL_def numeral_eq_Suc)

end
