(* ===== verification/Conversions.thy ===== *)
theory Conversions
  imports Prelude "HOL-Library.Word"
begin

text \<open>
  Translations of constants between Haiku and Linux in \<^verbatim>\<open>monika/linux\<close>: signals, signal sets
  and signal flags (\<^verbatim>\<open>signal_conversion.cpp\<close>), flags of open files and seek types
  (\<^verbatim>\<open>fcntl_conversion.cpp\<close>), families, types, protocols and options of sockets
  (\<^verbatim>\<open>socket_conversion.cpp\<close>). The tables are the \<^verbatim>\<open>SUPPORTED_*\<close> lists of the
  \<^verbatim>\<open>*_values.h\<close> headers in their order, each entry the number of Haiku and that of Linux (for
  x86-64 and arm64). A set of flags is a word; a signal set is 64 bits on both sides.
\<close>

definition converse :: "('a \<times> 'b) list \<Rightarrow> ('b \<times> 'a) list" where
  "converse t = map (\<lambda>(x, y). (y, x)) t"

section \<open>Signals\<close>

text \<open>
  The last three are emulated by the first real-time signals of Linux, which start at \<open>rtmin\<close>
  (the host call \<open>get_sigrtmin\<close>); one more is reserved for requests of the server.
\<close>

definition signal_table :: "int \<Rightarrow> (int \<times> int) list" where
  "signal_table rtmin =
     [(1, 1), (2, 2), (3, 3), (4, 4), (5, 17), (6, 6), (7, 13), (8, 8), (9, 9), (10, 19), (11, 11),
      (12, 18), (13, 20), (14, 14), (15, 15), (16, 21), (17, 22), (18, 10), (19, 12), (20, 28),
      (22, 5), (23, 29), (24, 27), (25, 31), (26, 23), (27, 26), (28, 24), (29, 25), (30, 7),
      (21, rtmin), (31, rtmin + 1), (32, rtmin + 2)]"

definition SIGNAL_REALTIME_MIN :: int where "SIGNAL_REALTIME_MIN = 33"
definition HYCLONE_RESERVED_REALTIME_SIGNALS :: int where "HYCLONE_RESERVED_REALTIME_SIGNALS = 4"

definition HYCLONE_MIN_AVAILABLE_REALTIME_SIGNAL :: "int \<Rightarrow> int" where
  "HYCLONE_MIN_AVAILABLE_REALTIME_SIGNAL rtmin = rtmin + HYCLONE_RESERVED_REALTIME_SIGNALS"

text \<open>
  Above the named signals the source adds in \<open>int\<close>, which overflows, undefined in C++, for numbers
  within \<open>rtmin + 4\<close> of the greatest \<open>int\<close>; the sum is taken here without a bound.
\<close>

definition SignalBToLinux :: "int \<Rightarrow> int \<Rightarrow> int" where
  "SignalBToLinux rtmin sig =
    (if sig = 0 then 0
     else case map_of (signal_table rtmin) sig of
       Some l \<Rightarrow> l
     | None \<Rightarrow>
         if sig \<ge> SIGNAL_REALTIME_MIN
         then HYCLONE_MIN_AVAILABLE_REALTIME_SIGNAL rtmin + sig - SIGNAL_REALTIME_MIN
         else 10)"

definition SignalLinuxToB :: "int \<Rightarrow> int \<Rightarrow> int" where
  "SignalLinuxToB rtmin sig =
    (if sig = 0 then 0
     else case map_of (converse (signal_table rtmin)) sig of Some b \<Rightarrow> b | None \<Rightarrow> 18)"

type_synonym sigset = "64 word"

definition linux_sigmask :: "int \<Rightarrow> sigset" where
  "linux_sigmask sig = push_bit (nat ((sig - 1) mod 64)) 1"

definition linux_sigaddset :: "sigset \<Rightarrow> int \<Rightarrow> sigset" where
  "linux_sigaddset s sig = s OR linux_sigmask sig"

definition linux_sigismember :: "sigset \<Rightarrow> int \<Rightarrow> bool" where
  "linux_sigismember s sig \<longleftrightarrow> s AND linux_sigmask sig \<noteq> 0"

definition haiku_sigaddset :: "sigset \<Rightarrow> int \<Rightarrow> sigset" where
  "haiku_sigaddset s sig = s OR push_bit (nat (sig - 1)) 1"

definition haiku_sigismember :: "sigset \<Rightarrow> int \<Rightarrow> bool" where
  "haiku_sigismember s sig \<longleftrightarrow> s AND push_bit (nat (sig - 1)) 1 \<noteq> 0"

definition SigSetBToLinux :: "int \<Rightarrow> sigset \<Rightarrow> sigset" where
  "SigSetBToLinux rtmin s =
    foldl (\<lambda>l i. if haiku_sigismember s i then linux_sigaddset l (SignalBToLinux rtmin i) else l) 0
      (map fst (signal_table rtmin))"

definition SigSetLinuxToB :: "int \<Rightarrow> sigset \<Rightarrow> sigset" where
  "SigSetLinuxToB rtmin s =
    foldl (\<lambda>b i. if linux_sigismember s i then haiku_sigaddset b (SignalLinuxToB rtmin i) else b) 0
      (map snd (signal_table rtmin))"

subsection \<open>Flags of a signal action\<close>

text \<open>
  \<open>HAIKU_SA_NOMASK\<close>, \<open>HAIKU_SA_STACK\<close> and \<open>HAIKU_SA_ONESHOT\<close> are defined by names
  without the prefix, so they have the values of Linux. A converted flag is taken out of the
  remaining ones.
\<close>

definition sigflag_table :: "(32 word \<times> 32 word) list" where
  "sigflag_table =
     [(0x01, 0x00000001), (0x02, 0x00000002), (0x04, 0x80000000), (0x08, 0x40000000),
      (0x10, 0x10000000), (0x20, 0x08000000), (0x40, 0x00000004),
      (0x40000000, 0x40000000), (0x08000000, 0x08000000), (0x80000000, 0x80000000)]"

fun convert_sigflags :: "(32 word \<times> 32 word) list \<Rightarrow> 32 word \<Rightarrow> 32 word \<Rightarrow> 32 word" where
  "convert_sigflags [] flags out = out"
| "convert_sigflags ((a, b) # t) flags out =
    (if flags AND a \<noteq> 0 then convert_sigflags t (flags XOR a) (out OR b)
     else convert_sigflags t flags out)"

definition SigFlagsBToLinux :: "32 word \<Rightarrow> 32 word" where
  "SigFlagsBToLinux flags = convert_sigflags sigflag_table flags 0"

definition SigFlagsLinuxToB :: "32 word \<Rightarrow> 32 word" where
  "SigFlagsLinuxToB flags = convert_sigflags (converse sigflag_table) flags 0"

subsection \<open>Codes of a signal\<close>

text \<open>The codes of any signal, then those of one signal (by its number on Linux).\<close>

definition sigcode_table :: "(int \<times> int) list" where
  "sigcode_table = [(0, 0), (-1, 1), (-2, 2), (-4, 3), (-3, 4)]"

definition sigcode_tables :: "(int \<times> (int \<times> int) list) list" where
  "sigcode_tables =
     [(4, [(1, 10), (2, 11), (3, 12), (4, 13), (5, 14), (6, 15), (7, 16), (8, 17)]),
      (8, [(1, 20), (2, 21), (3, 22), (4, 23), (5, 24), (6, 25), (7, 26), (8, 27)]),
      (11, [(1, 30), (2, 31)]),
      (7, [(1, 40), (2, 41), (3, 42)]),
      (5, [(1, 50), (2, 51)]),
      (17, [(1, 60), (2, 61), (3, 62), (4, 63), (5, 64), (6, 65)]),
      (29, [(1, 70), (2, 71), (3, 72), (4, 73), (5, 74), (6, 75)])]"

definition SigCodeLinuxToB :: "int \<Rightarrow> int \<Rightarrow> int" where
  "SigCodeLinuxToB sig siCode =
    (case map_of sigcode_table siCode of
       Some c \<Rightarrow> c
     | None \<Rightarrow>
         (case map_of sigcode_tables sig of
            None \<Rightarrow> 0
          | Some t \<Rightarrow> (case map_of t siCode of Some c \<Rightarrow> c | None \<Rightarrow> 0)))"

section \<open>Open files\<close>

text \<open>\<open>HAIKU_O_NOCACHE\<close> is \<open>O_DIRECT\<close> without the prefix, the value of Linux.\<close>

definition oflag_table :: "(32 word \<times> 32 word) list" where
  "oflag_table =
     [(0x0100, 0x80), (0x0200, 0x40), (0x0400, 0x200), (0x1000, 0x100), (0x40, 0x80000),
      (0x80, 0x800), (0x0800, 0x400), (0x10000, 0x101000), (0x20000, 0x101000), (0x40000, 0x1000),
      (0x80000, 0x20000), (0x100000, 0x4000), (0x4000, 0x4000), (0x200000, 0x10000)]"

definition rwflag_table :: "(32 word \<times> 32 word) list" where
  "rwflag_table = [(0, 0), (1, 1), (2, 2)]"

definition convert_oflags :: "(32 word \<times> 32 word) list \<Rightarrow> (32 word \<times> 32 word) list \<Rightarrow> 32 word \<Rightarrow> 32 word" where
  "convert_oflags rw t flags =
    foldl (\<lambda>out (a, b). if flags AND a \<noteq> 0 then out OR b else out)
      (case map_of rw (flags AND 3) of None \<Rightarrow> 0 | Some m \<Rightarrow> m) t"

definition OFlagsBToLinux :: "32 word \<Rightarrow> 32 word" where
  "OFlagsBToLinux flags = convert_oflags rwflag_table oflag_table flags"

definition OFlagsLinuxToB :: "32 word \<Rightarrow> 32 word" where
  "OFlagsLinuxToB flags = convert_oflags (converse rwflag_table) (converse oflag_table) flags"

definition SeekTypeBToLinux :: "int \<Rightarrow> int" where
  "SeekTypeBToLinux t = (if t = 0 then 0 else if t = 1 then 1 else if t = 2 then 2 else -1)"

definition SeekTypeLinuxToB :: "int \<Rightarrow> int" where
  "SeekTypeLinuxToB t = (if t = 0 then 0 else if t = 1 then 1 else if t = 2 then 2 else -1)"

section \<open>Sockets\<close>

definition switch_table :: "(int \<times> int) list \<Rightarrow> int \<Rightarrow> int" where
  "switch_table t x = (case map_of t x of Some y \<Rightarrow> y | None \<Rightarrow> -1)"

definition SocketFamilyBToLinux :: "int \<Rightarrow> int" where
  "SocketFamilyBToLinux =
    switch_table [(0, 0), (1, 2), (2, 5), (3, 16), (5, 10), (7, 4), (9, 1), (10, 31)]"

definition socket_type_table :: "(32 word \<times> 32 word) list" where
  "socket_type_table = [(1, 1), (2, 2), (3, 3), (5, 5)]"

text \<open>\<open>None\<close> is the result -1. \<open>nb\<close> and \<open>ce\<close> are the two flags, given for each side.\<close>

definition convert_socket_type ::
    "(32 word \<times> 32 word) list \<Rightarrow> 32 word \<times> 32 word \<Rightarrow> 32 word \<times> 32 word \<Rightarrow> 32 word \<Rightarrow> 32 word option" where
  "convert_socket_type t nb ce ty =
    (let (out1, ty1) = (if ty AND fst nb \<noteq> 0 then (snd nb, ty AND NOT (fst nb)) else (0, ty));
         (out2, ty2) = (if ty1 AND fst ce \<noteq> 0 then (out1 OR snd ce, ty1 AND NOT (fst ce)) else (out1, ty1))
     in case map_of t ty2 of None \<Rightarrow> None | Some l \<Rightarrow> Some (l OR out2))"

definition SocketTypeBToLinux :: "32 word \<Rightarrow> 32 word option" where
  "SocketTypeBToLinux = convert_socket_type socket_type_table (0x40000, 0x800) (0x80000, 0x80000)"

definition SocketTypeLinuxToB :: "32 word \<Rightarrow> 32 word option" where
  "SocketTypeLinuxToB =
    convert_socket_type (converse socket_type_table) (0x800, 0x40000) (0x80000, 0x80000)"

definition SocketProtocolBToLinux :: "int \<Rightarrow> int" where
  "SocketProtocolBToLinux p =
    (if p = 0 then 0
     else switch_table [(0, 0), (1, 1), (2, 2), (6, 6), (17, 17), (41, 41), (43, 43), (44, 44),
       (50, 50), (51, 51), (58, 58), (59, 59), (60, 60), (255, 255)] p)"

definition SocketOptionBToLinux :: "int \<Rightarrow> int" where
  "SocketOptionBToLinux =
    switch_table [(1, 30), (2, 6), (4, 1), (8, 5), (16, 9), (32, 10), (64, 2), (128, 15), (512, 13),
      (0x40000001, 7), (0x40000002, 19), (0x40000003, 21), (0x40000004, 8), (0x40000005, 18),
      (0x40000006, 20), (0x40000007, 4), (0x40000008, 3), (0x4000000a, 25), (0x4000000b, 17)]"

section \<open>Properties\<close>

lemma map_of_converse:
  assumes "distinct (map snd t)" "(x, y) \<in> set t"
  shows "map_of (converse t) y = Some x"
  using assms by (induction t) (auto simp: converse_def rev_image_eqI)

text \<open>Linux starts its real-time signals behind the standard ones and has 64 signals.\<close>

definition rtmin_ok :: "int \<Rightarrow> bool" where
  "rtmin_ok rtmin \<longleftrightarrow> 32 \<le> rtmin \<and> rtmin + 2 \<le> 64"

lemma signal_table_facts:
  assumes "rtmin_ok rtmin"
  shows "distinct (map fst (signal_table rtmin))" "distinct (map snd (signal_table rtmin))"
    and "set (map fst (signal_table rtmin)) = {1..32}"
    and "\<forall>p\<in>set (signal_table rtmin). 1 \<le> snd p \<and> snd p \<le> 64"
proof -
  show "distinct (map fst (signal_table rtmin))" by (simp add: signal_table_def)
  show "distinct (map snd (signal_table rtmin))"
    using assms by (simp add: signal_table_def rtmin_ok_def)
  have "{1..32} = set [1..32 :: int]" by simp
  also have "\<dots> = set (map fst (signal_table rtmin))"
    by (simp add: signal_table_def upto_rec1 insert_commute)
  finally show "set (map fst (signal_table rtmin)) = {1..32}" by simp
  show "\<forall>p\<in>set (signal_table rtmin). 1 \<le> snd p \<and> snd p \<le> 64"
    using assms by (simp add: signal_table_def rtmin_ok_def)
qed

lemma signal_entry:
  assumes "rtmin_ok rtmin" "(b, l) \<in> set (signal_table rtmin)"
  shows "SignalBToLinux rtmin b = l" "SignalLinuxToB rtmin l = b"
proof -
  note t = signal_table_facts [OF assms(1)]
  have "b \<noteq> 0" "l \<noteq> 0" using t(3,4) assms(2) by force+
  then show "SignalBToLinux rtmin b = l" "SignalLinuxToB rtmin l = b"
    using t(1) map_of_converse [OF t(2) assms(2)] assms(2)
    by (simp_all add: SignalBToLinux_def SignalLinuxToB_def)
qed

text \<open>Both conversions of a signal set collect one bit for each member of a list.\<close>

lemma bit_mask: "bit (2 ^ k :: sigset) n \<longleftrightarrow> n = k \<and> k < 64"
  by (auto simp: bit_simps)

lemma foldl_add_bit:
  "bit (foldl (\<lambda>l i. if P i then l OR 2 ^ g i else l) (acc :: sigset) xs) n \<longleftrightarrow>
    bit acc n \<or> (\<exists>i\<in>set xs. P i \<and> n = g i \<and> g i < 64)"
  by (induction xs arbitrary: acc) (auto simp: bit_or_iff bit_mask)

lemma bit_SigSetBToLinux:
  "bit (SigSetBToLinux rtmin s) n \<longleftrightarrow>
    (\<exists>i\<in>set (map fst (signal_table rtmin)). bit s (nat (i - 1)) \<and>
       n = nat ((SignalBToLinux rtmin i - 1) mod 64) \<and> nat ((SignalBToLinux rtmin i - 1) mod 64) < 64)"
  using foldl_add_bit [of "\<lambda>i. bit s (nat (i - 1))" "\<lambda>i. nat ((SignalBToLinux rtmin i - 1) mod 64)"
      0 "map fst (signal_table rtmin)" n]
  by (simp add: SigSetBToLinux_def linux_sigaddset_def linux_sigmask_def haiku_sigismember_def
      and_exp_eq_0_iff_not_bit cong: if_cong)

lemma bit_SigSetLinuxToB:
  "bit (SigSetLinuxToB rtmin s) n \<longleftrightarrow>
    (\<exists>i\<in>set (map snd (signal_table rtmin)). bit s (nat ((i - 1) mod 64)) \<and>
       n = nat (SignalLinuxToB rtmin i - 1) \<and> nat (SignalLinuxToB rtmin i - 1) < 64)"
  using foldl_add_bit [of "\<lambda>i. bit s (nat ((i - 1) mod 64))" "\<lambda>i. nat (SignalLinuxToB rtmin i - 1)"
      0 "map snd (signal_table rtmin)" n]
  by (simp add: SigSetLinuxToB_def haiku_sigaddset_def linux_sigismember_def linux_sigmask_def
      and_exp_eq_0_iff_not_bit cong: if_cong)

lemma SigSet_roundtrip_bit:
  assumes "rtmin_ok rtmin"
  shows "bit (SigSetLinuxToB rtmin (SigSetBToLinux rtmin s)) n \<longleftrightarrow> n < 32 \<and> bit s n"
proof -
  note t = signal_table_facts [OF assms]
  have linux: "bit (SigSetBToLinux rtmin s) (nat ((l - 1) mod 64)) \<longleftrightarrow> bit s (nat (b - 1))"
    if e: "(b, l) \<in> set (signal_table rtmin)" for b l
  proof
    assume "bit (SigSetBToLinux rtmin s) (nat ((l - 1) mod 64))"
    then obtain i where i: "i \<in> set (map fst (signal_table rtmin))" "bit s (nat (i - 1))"
      "nat ((l - 1) mod 64) = nat ((SignalBToLinux rtmin i - 1) mod 64)"
      unfolding bit_SigSetBToLinux by blast
    then obtain l' where e': "(i, l') \<in> set (signal_table rtmin)" by auto
    have "SignalBToLinux rtmin i = l'" by (rule signal_entry(1) [OF assms e'])
    moreover have "1 \<le> l \<and> l \<le> 64" "1 \<le> l' \<and> l' \<le> 64" using t(4) e e' by force+
    ultimately have "l' = l" using i(3) by (simp add: eq_nat_nat_iff)
    then have "i = b" using e e' t(2) by (metis signal_entry(2) [OF assms])
    then show "bit s (nat (b - 1))" using i(2) by simp
  next
    assume b: "bit s (nat (b - 1))"
    have "SignalBToLinux rtmin b = l" by (rule signal_entry(1) [OF assms e])
    moreover have "b \<in> set (map fst (signal_table rtmin))" using e by force
    moreover have "nat ((l - 1) mod 64) < 64" by (simp add: nat_less_iff)
    ultimately show "bit (SigSetBToLinux rtmin s) (nat ((l - 1) mod 64))"
      unfolding bit_SigSetBToLinux using b by blast
  qed
  show ?thesis
  proof
    assume "bit (SigSetLinuxToB rtmin (SigSetBToLinux rtmin s)) n"
    then obtain l where l: "l \<in> set (map snd (signal_table rtmin))"
      "bit (SigSetBToLinux rtmin s) (nat ((l - 1) mod 64))" "n = nat (SignalLinuxToB rtmin l - 1)"
      unfolding bit_SigSetLinuxToB by blast
    then obtain b where e: "(b, l) \<in> set (signal_table rtmin)" by auto
    have "b \<in> {1..32}" using e t(3) by force
    moreover have "n = nat (b - 1)" using l(3) signal_entry(2) [OF assms e] by simp
    ultimately show "n < 32 \<and> bit s n" using linux [OF e] l(2) by auto
  next
    assume n: "n < 32 \<and> bit s n"
    then have "int n + 1 \<in> set (map fst (signal_table rtmin))" unfolding t(3) by simp
    then obtain l where e: "(int n + 1, l) \<in> set (signal_table rtmin)" by auto
    have "bit (SigSetBToLinux rtmin s) (nat ((l - 1) mod 64))" using linux [OF e] n by simp
    moreover have "l \<in> set (map snd (signal_table rtmin))" using e by force
    moreover have "n = nat (SignalLinuxToB rtmin l - 1)" using signal_entry(2) [OF assms e] by simp
    ultimately show "bit (SigSetLinuxToB rtmin (SigSetBToLinux rtmin s)) n"
      unfolding bit_SigSetLinuxToB using n by force
  qed
qed

text \<open>
  C31: signals survive the way to Linux and back. Every signal of Haiku from 1 to 32 comes back as
  itself, and so does every set of them: \<open>SigSetLinuxToB\<close> after \<open>SigSetBToLinux\<close> is the
  set without its real-time signals. Real-time signals themselves do not come back: a handler for
  one of them is told \<open>SIGUSR1\<close> (18).
\<close>

theorem signals_roundtrip:
  assumes "rtmin_ok rtmin"
  shows "(1 \<le> sig \<and> sig \<le> 32 \<longrightarrow> SignalLinuxToB rtmin (SignalBToLinux rtmin sig) = sig) \<and>
    SigSetLinuxToB rtmin (SigSetBToLinux rtmin s) = take_bit 32 s \<and>
    (SIGNAL_REALTIME_MIN \<le> sig \<longrightarrow> SignalLinuxToB rtmin (SignalBToLinux rtmin sig) = 18)"
proof (intro conjI impI)
  note t = signal_table_facts [OF assms]
  show "SignalLinuxToB rtmin (SignalBToLinux rtmin sig) = sig" if "1 \<le> sig \<and> sig \<le> 32"
  proof -
    have "sig \<in> set (map fst (signal_table rtmin))" unfolding t(3) using that by simp
    then obtain l where e: "(sig, l) \<in> set (signal_table rtmin)" by auto
    show ?thesis using signal_entry [OF assms e] by simp
  qed
  show "SigSetLinuxToB rtmin (SigSetBToLinux rtmin s) = take_bit 32 s"
    by (rule bit_word_eqI) (simp add: SigSet_roundtrip_bit [OF assms] bit_take_bit_iff)
  show "SignalLinuxToB rtmin (SignalBToLinux rtmin sig) = 18" if "SIGNAL_REALTIME_MIN \<le> sig"
  proof -
    have "sig \<notin> set (map fst (signal_table rtmin))"
      unfolding t(3) using that by (simp add: SIGNAL_REALTIME_MIN_def)
    then have "SignalBToLinux rtmin sig = rtmin + 4 + sig - 33"
      using that map_of_eq_None_iff [of "signal_table rtmin" sig]
      by (simp add: SignalBToLinux_def SIGNAL_REALTIME_MIN_def HYCLONE_MIN_AVAILABLE_REALTIME_SIGNAL_def
          HYCLONE_RESERVED_REALTIME_SIGNALS_def)
    moreover have "\<forall>p\<in>set (signal_table rtmin). snd p \<noteq> rtmin + 4 + sig - 33"
      using assms that by (simp add: signal_table_def rtmin_ok_def SIGNAL_REALTIME_MIN_def)
    then have "map_of (converse (signal_table rtmin)) (rtmin + 4 + sig - 33) = None"
      by (force simp: map_of_eq_None_iff converse_def)
    ultimately show ?thesis
      using assms that by (simp add: SignalLinuxToB_def rtmin_ok_def SIGNAL_REALTIME_MIN_def)
  qed
qed

theorem signals_roundtrip_witness:
  "SignalLinuxToB 34 (SignalBToLinux 34 10) = 10 \<and>
   SigSetLinuxToB 34 (SigSetBToLinux 34 (0x200000200)) = 0x200 \<and>
   SignalLinuxToB 34 (SignalBToLinux 34 33) = 18"
proof -
  have ok: "rtmin_ok 34" by (simp add: rtmin_ok_def)
  have "take_bit 32 (0x200000200 :: sigset) = 0x200" by (simp add: take_bit_eq_mod)
  then show ?thesis
    using signals_roundtrip [OF ok, of 10 "0x200000200"] signals_roundtrip [OF ok, of 33 0] by (simp add: SIGNAL_REALTIME_MIN_def)
qed

text \<open>
  A guest that asks for a handler of the old calling convention (the flag
  \<open>SA_BEOS_COMPATIBLE_HANDLER\<close>, 0x80000000) gets a handler that Linux resets after the first
  signal, since that flag is the value of \<open>HAIKU_SA_ONESHOT\<close>.
\<close>

lemma beos_handler_is_reset: "SigFlagsBToLinux 0x80000000 = 0x80000000"
  by (simp add: SigFlagsBToLinux_def sigflag_table_def)

text \<open>A file opened with \<open>O_DSYNC\<close> is reported to be open with \<open>O_SYNC\<close> and \<open>O_RSYNC\<close> too.\<close>

lemma dsync_becomes_sync: "OFlagsLinuxToB (OFlagsBToLinux 0x40000) = 0x70000"
  by (simp add: OFlagsLinuxToB_def OFlagsBToLinux_def convert_oflags_def oflag_table_def
      rwflag_table_def converse_def)

end
