(* ===== verification/Mman.thy ===== *)
theory Mman
  imports ReservedRange Errno Area
begin

text \<open>
  Memory calls of the guest (\<^verbatim>\<open>monika/linux/mman.cpp\<close>), on top of the reserved ranges of the
  loader. What the kernel and the server answer is a parameter; the state has the reserved ranges
  and the trace of the calls made, in order. Locking is left out: the lock of the reserved ranges is
  held throughout.
\<close>

section \<open>Calls to the kernel and to the server\<close>

datatype mm_call =
    Sys_mmap int int int int int int
  | Sys_munmap int int
  | Sys_mprotect int int int
  | Sys_mremap int int int
  | Sys_mlock int int
  | Sys_mlock2 int int int
  | Sys_munlock int int
  | Sys_madvise int int int
  | Sys_msync int int int
  | Sys_getrandom
  | Sys_openat string int
  | Sys_close int
  | Srv_get_area_info int
  | Srv_register_area string int int int int int
  | Srv_unregister_area int
  | Srv_resize_area int int
  | Srv_set_area_protection int int
  | Srv_set_memory_protection int int int
  | Srv_set_memory_lock int int int
  | Srv_unmap_memory int int
  | Srv_share_area int int int

record mm_area =
  ma_size :: int
  ma_lock :: int
  ma_protection :: int
  ma_address :: int

text \<open>
  An answer may depend on everything that was called before. \<open>oracle_area\<close> is the area info that
  \<open>get_area_info\<close> fills in, \<open>oracle_path\<close> the host path that \<open>share_area\<close> fills in.
\<close>

record mm_oracle =
  oracle_ret :: "mm_call list \<Rightarrow> mm_call \<Rightarrow> int"
  oracle_area :: "mm_call list \<Rightarrow> int \<Rightarrow> mm_area"
  oracle_path :: "mm_call list \<Rightarrow> int \<Rightarrow> string"
  oracle_random :: "mm_call list \<Rightarrow> int"

record mm =
  mm_ranges :: reserved_ranges
  mm_calls :: "mm_call list"

definition mm_do :: "mm_oracle \<Rightarrow> mm_call \<Rightarrow> mm \<Rightarrow> int \<times> mm" where
  "mm_do k c s = (oracle_ret k (mm_calls s) c, s\<lparr>mm_calls := mm_calls s @ [c]\<rparr>)"

definition mm_skip :: "mm_oracle \<Rightarrow> mm_call \<Rightarrow> mm \<Rightarrow> mm" where
  "mm_skip k c s = snd (mm_do k c s)"

definition mm_area_info :: "mm_oracle \<Rightarrow> int \<Rightarrow> mm \<Rightarrow> int \<times> mm_area \<times> mm" where
  "mm_area_info k i s =
    (case mm_do k (Srv_get_area_info i) s of (st, s') \<Rightarrow> (st, oracle_area k (mm_calls s) i, s'))"

section \<open>Constants\<close>

definition B_NO_LOCK :: int where "B_NO_LOCK = 0"
definition B_LAZY_LOCK :: int where "B_LAZY_LOCK = 1"
definition B_CONTIGUOUS :: int where "B_CONTIGUOUS = 3"
definition B_LOMEM :: int where "B_LOMEM = 4"
definition B_ANY_ADDRESS :: int where "B_ANY_ADDRESS = 0"
definition B_EXACT_ADDRESS :: int where "B_EXACT_ADDRESS = 1"
definition B_BASE_ADDRESS :: int where "B_BASE_ADDRESS = 2"
definition B_CLONE_ADDRESS :: int where "B_CLONE_ADDRESS = 3"
definition B_ANY_KERNEL_ADDRESS :: int where "B_ANY_KERNEL_ADDRESS = 4"
definition B_RANDOMIZED_ANY_ADDRESS :: int where "B_RANDOMIZED_ANY_ADDRESS = 6"
definition B_RANDOMIZED_BASE_ADDRESS :: int where "B_RANDOMIZED_BASE_ADDRESS = 7"
definition B_READ_AREA :: int where "B_READ_AREA = 1"
definition B_EXECUTE_AREA :: int where "B_EXECUTE_AREA = 4"
definition B_STACK_AREA :: int where "B_STACK_AREA = 8"
definition kMaxRandomize :: int where "kMaxRandomize = 0x8000000000"

text \<open>Constants of Linux.\<close>

definition PROT_NONE :: int where "PROT_NONE = 0"
definition PROT_READ :: int where "PROT_READ = 1"
definition PROT_WRITE :: int where "PROT_WRITE = 2"
definition PROT_EXEC :: int where "PROT_EXEC = 4"
definition PROT_GROWSDOWN :: int where "PROT_GROWSDOWN = 0x01000000"
definition MAP_SHARED :: int where "MAP_SHARED = 1"
definition MAP_PRIVATE :: int where "MAP_PRIVATE = 2"
definition MAP_FIXED :: int where "MAP_FIXED = 0x10"
definition MAP_ANONYMOUS :: int where "MAP_ANONYMOUS = 0x20"
definition MAP_GROWSDOWN :: int where "MAP_GROWSDOWN = 0x100"
definition MAP_STACK :: int where "MAP_STACK = 0x20000"
definition O_RDONLY :: int where "O_RDONLY = 0"
definition O_WRONLY :: int where "O_WRONLY = 1"
definition O_RDWR :: int where "O_RDWR = 2"
definition MLOCK_ONFAULT :: int where "MLOCK_ONFAULT = 1"
definition ENOSYS :: int where "ENOSYS = 38"

definition flag_if :: "int \<Rightarrow> int \<Rightarrow> int \<Rightarrow> int" where
  "flag_if x m f = (if x AND m \<noteq> 0 then f else 0)"

text \<open>The protection of \<open>mprotect\<close> and \<open>mmap\<close> for one of an area.\<close>

definition mmap_prot_of :: "int \<Rightarrow> int" where
  "mmap_prot_of protection =
    flag_if protection B_READ_AREA PROT_READ OR flag_if protection B_WRITE_AREA PROT_WRITE OR
    flag_if protection B_EXECUTE_AREA PROT_EXEC"

definition mmap_stack_prot :: "int \<Rightarrow> int" where
  "mmap_stack_prot protection =
    flag_if protection B_STACK_AREA (PROT_READ OR PROT_WRITE OR PROT_GROWSDOWN)"

section \<open>Arguments and results of mmap\<close>

record mmap_args =
  ma_hint :: int
  ma_size_arg :: int
  ma_lock_arg :: int
  ma_flags :: int
  ma_prot :: int
  ma_open_flags :: int

text \<open>\<open>Inl\<close> is an early error. \<open>fd\<close> is -1 for anonymous memory, \<open>src\<close> -1 for no source area.\<close>

definition ProcessMmapArgs ::
    "mm_oracle \<Rightarrow> int \<Rightarrow> int \<Rightarrow> int \<Rightarrow> int \<Rightarrow> int \<Rightarrow> int \<Rightarrow> int \<Rightarrow> int \<Rightarrow> mm \<Rightarrow> (int + mmap_args) \<times> mm" where
  "ProcessMmapArgs k address spec n lock protection mapping fd src s =
    (if lock = B_CONTIGUOUS \<or> lock = B_LOMEM then (Inl HAIKU_POSIX_ENOSYS, s)
     else
       (let (st, info, s1) = (if src \<noteq> -1 then mm_area_info k src s else (B_OK, undefined, s));
            n' = (if src \<noteq> -1 then ma_size info else n);
            lock' = (if src \<noteq> -1 then ma_lock info else lock);
            flags = (if fd = -1 then MAP_ANONYMOUS else 0) OR
              flag_if protection B_STACK_AREA (MAP_STACK OR MAP_GROWSDOWN) OR
              (if mapping = REGION_NO_PRIVATE_MAP then MAP_SHARED
               else if mapping = REGION_PRIVATE_MAP then MAP_PRIVATE else 0);
            prot = mmap_prot_of protection OR mmap_stack_prot protection;
            open_flags = (if protection AND (B_READ_AREA OR B_WRITE_AREA) \<noteq> 0 then O_RDWR
              else if protection AND B_WRITE_AREA \<noteq> 0 then O_WRONLY else O_RDONLY);
            args = (\<lambda>hint. \<lparr>ma_hint = hint, ma_size_arg = n', ma_lock_arg = lock', ma_flags = flags,
              ma_prot = prot, ma_open_flags = open_flags\<rparr>)
        in if st \<noteq> B_OK then (Inl st, s1)
           else if src \<noteq> -1 \<and> ma_protection info AND B_CLONEABLE_AREA = 0 then (Inl B_BAD_VALUE, s1)
           else if spec = B_ANY_ADDRESS \<or> spec = B_RANDOMIZED_ANY_ADDRESS then (Inr (args 0), s1)
           else if spec = B_RANDOMIZED_BASE_ADDRESS then
             (case mm_do k Sys_getrandom s1 of
                (r, s2) \<Rightarrow>
                  if r < 0 then (Inl (LinuxToB (- r)), s2)
                  else (Inr (args (address + oracle_random k (mm_calls s1) mod kMaxRandomize)), s2))
           else if spec = B_CLONE_ADDRESS then
             (if src = -1 then (Inl B_BAD_VALUE, s1) else (Inr (args (ma_address info)), s1))
           else (Inr (args address), s1)))"

definition ProcessMmapResult :: "int \<Rightarrow> int \<Rightarrow> int \<Rightarrow> int \<Rightarrow> int" where
  "ProcessMmapResult result spec hint base =
    (if spec = B_BASE_ADDRESS \<or> spec = B_RANDOMIZED_BASE_ADDRESS
     then (if result < base then B_NO_MEMORY else B_OK)
     else if spec = B_CLONE_ADDRESS \<or> spec = B_EXACT_ADDRESS
     then (if result \<noteq> hint then B_NO_MEMORY else B_OK)
     else B_OK)"

text \<open>\<open>None\<close> is the panic when the fresh area cannot be mapped again.\<close>

definition ShareArea ::
    "mm_oracle \<Rightarrow> int \<Rightarrow> int \<Rightarrow> int \<Rightarrow> int \<Rightarrow> int \<Rightarrow> mmap_args \<Rightarrow> mm \<Rightarrow> (int \<times> mm) option" where
  "ShareArea k addr n area fd off a s =
    (case mm_do k (Srv_share_area area fd off) s of
       (st, s1) \<Rightarrow>
         if st \<noteq> B_OK then Some (st, s1)
         else
           (let path = oracle_path k (mm_calls s) area;
                (fd', s2) = (if path \<noteq> [] then mm_do k (Sys_openat path (ma_open_flags a)) s1 else (fd, s1));
                off' = (if path \<noteq> [] then 0 else off);
                flags = (ma_flags a OR MAP_SHARED OR MAP_FIXED) AND NOT (MAP_ANONYMOUS OR MAP_PRIVATE)
            in if path \<noteq> [] \<and> fd' < 0 then Some (LinuxToB (- fd'), s2)
               else
                 (case mm_do k (Sys_mmap addr n (ma_prot a) flags fd' off') s2 of
                    (r, s3) \<Rightarrow>
                      if r = -1 then None
                      else Some (B_OK, if path \<noteq> [] then mm_skip k (Sys_close fd') s3 else s3))))"

definition LockArea :: "mm_oracle \<Rightarrow> int \<Rightarrow> int \<Rightarrow> int \<Rightarrow> mm \<Rightarrow> int \<times> mm" where
  "LockArea k addr n lock s =
    (let (st, s1) =
       (if lock = B_NO_LOCK then (B_OK, s)
        else if lock = B_LAZY_LOCK then mm_do k (Sys_mlock2 addr n MLOCK_ONFAULT) s
        else if lock = B_FULL_LOCK then mm_do k (Sys_mlock addr n) s
        else (- ENOSYS, s))
     in (LinuxToB (- st), s1))"

section \<open>Creating and deleting areas\<close>

text \<open>
  Memory for an area at \<open>ma_hint\<close>: inside of a reserved range it replaces what is there, otherwise
  the kernel picks an address. \<open>full\<close> is the error when the reserved range has no room.
\<close>

definition map_area_memory ::
    "mm_oracle \<Rightarrow> bool \<Rightarrow> int \<Rightarrow> mmap_args \<Rightarrow> int \<Rightarrow> int \<Rightarrow> mm \<Rightarrow> ((int + int) \<times> mm) option" where
  "map_area_memory k reservedExact full a fd off s =
    (let n = ma_size_arg a; hint = ma_hint a
     in if reservedExact then
          (case loader_reserved_range_longest_mappable_from (mm_ranges s) hint n of
             None \<Rightarrow> None
           | Some room \<Rightarrow>
               if room < n then Some (Inl full, s)
               else
                 (case mm_do k (Sys_mmap hint n (ma_prot a) (ma_flags a OR MAP_FIXED) fd off) s of
                    (r, s1) \<Rightarrow>
                      if r < 0 then Some (Inl (LinuxToB (- r)), s1)
                      else
                        (case loader_map_reserved_range hint n (mm_ranges s1) of
                           None \<Rightarrow> None
                         | Some rs \<Rightarrow> Some (Inr hint, s1\<lparr>mm_ranges := rs\<rparr>))))
        else
          (case mm_do k (Sys_mmap hint n (ma_prot a) (ma_flags a) fd off) s of
             (r, s1) \<Rightarrow> Some (if r < 0 then Inl (LinuxToB (- r)) else Inr r, s1)))"

text \<open>A name of at most 31 characters, the empty one for NULL.\<close>

definition guest_area_name :: "string option \<Rightarrow> string" where
  "guest_area_name name = (case name of None \<Rightarrow> [] | Some x \<Rightarrow> take 31 (cstr x))"

text \<open>The result is the id or an error, with the address that the guest finds in \<open>*address\<close>.\<close>

definition moni_create_area ::
    "mm_oracle \<Rightarrow> string option \<Rightarrow> int \<Rightarrow> int \<Rightarrow> int \<Rightarrow> int \<Rightarrow> int \<Rightarrow> mm \<Rightarrow> (int \<times> int \<times> mm) option" where
  "moni_create_area k name base spec n lock protection s =
    (case ProcessMmapArgs k base spec n lock protection REGION_PRIVATE_MAP (-1) (-1) s of
       (Inl st, s1) \<Rightarrow> Some (st, base, s1)
     | (Inr a, s1) \<Rightarrow>
         (case map_area_memory k
                 (spec = B_EXACT_ADDRESS \<and> loader_is_in_reserved_range (mm_ranges s1) (ma_hint a) n)
                 B_NO_MEMORY a (-1) 0 s1 of
            None \<Rightarrow> None
          | Some (Inl st, s2) \<Rightarrow> Some (st, base, s2)
          | Some (Inr addr, s2) \<Rightarrow>
              (let st = ProcessMmapResult addr spec (ma_hint a) base
               in if st \<noteq> B_OK then Some (st, base, mm_skip k (Sys_munmap addr n) s2)
                  else
                    (case mm_do k (Srv_register_area (guest_area_name name) n lock protection addr
                                     REGION_PRIVATE_MAP) s2 of
                       (area, s3) \<Rightarrow>
                         if area < 0 then Some (area, base, mm_skip k (Sys_munmap addr n) s3)
                         else
                           (case (if protection AND B_CLONEABLE_AREA \<noteq> 0
                                  then ShareArea k addr n area (-1) 0 a s3 else Some (B_OK, s3)) of
                              None \<Rightarrow> None
                            | Some (st, s4) \<Rightarrow>
                                if st \<noteq> B_OK
                                then Some (st, base, mm_skip k (Sys_munmap addr n)
                                       (mm_skip k (Srv_unregister_area area) s4))
                                else
                                  (case LockArea k addr n lock s4 of
                                     (st, s5) \<Rightarrow>
                                       if st \<noteq> B_OK
                                       then Some (st, base, mm_skip k (Sys_munmap addr n)
                                              (mm_skip k (Srv_unregister_area area) s5))
                                       else Some (area, addr, s5)))))))"

definition moni_delete_area :: "mm_oracle \<Rightarrow> int \<Rightarrow> mm \<Rightarrow> (int \<times> mm) option" where
  "moni_delete_area k area s =
    (case mm_area_info k area s of
       (st, info, s1) \<Rightarrow>
         if st \<noteq> B_OK then Some (st, s1)
         else if loader_is_in_reserved_range (mm_ranges s1) (ma_address info) (ma_size info)
         then
           (case mm_do k (Sys_mprotect (ma_address info) (ma_size info) PROT_NONE) s1 of
              (st2, s2) \<Rightarrow>
                (case loader_unmap_reserved_range (ma_address info) (ma_size info) (mm_ranges s2) of
                   None \<Rightarrow> None
                 | Some rs \<Rightarrow>
                     (let s3 = s2\<lparr>mm_ranges := rs\<rparr>
                      in Some (st2, if st2 = B_OK then mm_skip k (Srv_unregister_area area) s3 else s3))))
         else
           (case mm_do k (Sys_munmap (ma_address info) (ma_size info)) s1 of
              (st2, s2) \<Rightarrow>
                if st2 < 0 then Some (LinuxToB (- st2), s2)
                else Some (st2, if st2 = B_OK then mm_skip k (Srv_unregister_area area) s2 else s2)))"

definition moni_set_area_protection :: "mm_oracle \<Rightarrow> int \<Rightarrow> int \<Rightarrow> mm \<Rightarrow> int \<times> mm" where
  "moni_set_area_protection k area newProtection s =
    (case mm_area_info k area s of
       (st, info, s1) \<Rightarrow>
         if st \<noteq> B_OK then (st, s1)
         else
           (case mm_do k (Sys_mprotect (ma_address info) (ma_size info)
                   (mmap_prot_of newProtection OR mmap_stack_prot newProtection)) s1 of
              (st2, s2) \<Rightarrow>
                if st2 < 0 then (LinuxToB (- st2), s2)
                else mm_do k (Srv_set_area_protection area newProtection) s2))"

section \<open>Reserved ranges\<close>

definition moni_reserve_address_range ::
    "mm_oracle \<Rightarrow> int \<Rightarrow> int \<Rightarrow> int \<Rightarrow> mm \<Rightarrow> (int \<times> int \<times> mm) option" where
  "moni_reserve_address_range k base spec n s =
    (if spec = B_ANY_KERNEL_ADDRESS then Some (B_BAD_VALUE, base, s)
     else
       (let (err, rnd, s1) =
          (if spec = B_RANDOMIZED_BASE_ADDRESS
           then (case mm_do k Sys_getrandom s of (r, s') \<Rightarrow>
                   (if r < 0 then Some (LinuxToB (- r)) else None,
                    oracle_random k (mm_calls s) mod kMaxRandomize, s'))
           else (None, 0, s));
            hint = (if spec = B_ANY_ADDRESS \<or> spec = B_RANDOMIZED_ANY_ADDRESS then 0 else base + rnd);
            flags = MAP_PRIVATE OR MAP_ANONYMOUS OR (if spec = B_EXACT_ADDRESS then MAP_FIXED else 0)
        in case err of
             Some st \<Rightarrow> Some (st, base, s1)
           | None \<Rightarrow>
               (case mm_do k (Sys_mmap hint n PROT_NONE flags (-1) 0) s1 of
                  (r, s2) \<Rightarrow>
                    if r < 0 then Some (LinuxToB (- r), base, s2)
                    else if (spec = B_BASE_ADDRESS \<or> spec = B_RANDOMIZED_BASE_ADDRESS) \<and> r < base \<or>
                            spec = B_EXACT_ADDRESS \<and> r \<noteq> hint
                    then Some (HAIKU_POSIX_ENOMEM, base, mm_skip k (Sys_munmap r n) s2)
                    else
                      (case loader_register_reserved_range r n (mm_ranges s2) of
                         None \<Rightarrow> None
                       | Some rs \<Rightarrow> Some (B_OK, r, s2\<lparr>mm_ranges := rs\<rparr>)))))"

definition moni_unreserve_address_range :: "mm_oracle \<Rightarrow> int \<Rightarrow> int \<Rightarrow> mm \<Rightarrow> (int \<times> mm) option" where
  "moni_unreserve_address_range k address n s =
    (if \<not> loader_is_in_reserved_range (mm_ranges s) address n then Some (B_BAD_VALUE, s)
     else
       (case mm_do k (Sys_munmap address n) s of
          (r, s1) \<Rightarrow>
            if r < 0 then Some (LinuxToB (- r), s1)
            else
              (case loader_unregister_reserved_range address n (mm_ranges s1) of
                 None \<Rightarrow> None
               | Some rs \<Rightarrow> Some (B_OK, s1\<lparr>mm_ranges := rs\<rparr>))))"

section \<open>Unmapping memory\<close>

text \<open>
  The next reserved range at or behind \<open>cur\<close>, cut at \<open>e\<close>; both loops over an address range
  begin a round with it. Without one it is the empty range at \<open>e\<close>.
\<close>

definition clip_range :: "int \<Rightarrow> (int \<times> int) option \<Rightarrow> int \<times> int" where
  "clip_range e nxt =
    (case nxt of
       None \<Rightarrow> (e, 0)
     | Some (a, n) \<Rightarrow> if a \<ge> e then (e, 0) else if a + n > e then (a, e - a) else (a, n))"

partial_function (option) unmap_ranges :: "mm_oracle \<Rightarrow> int \<Rightarrow> int \<Rightarrow> mm \<Rightarrow> mm option" where
  "unmap_ranges k e cur s =
    (if \<not> cur < e then Some s
     else
       (let (a, n) = clip_range e (loader_next_reserved_range (mm_ranges s) cur);
            s1 = (if cur < a then mm_skip k (Sys_munmap cur (a - cur)) s else s);
            cur1 = (if cur < a then a else cur);
            n1 = (if a < cur1 then n - (cur1 - a) else n);
            a1 = (if a < cur1 then cur1 else a)
        in if n1 \<noteq> 0
           then
             (let s2 = mm_skip k (Sys_mprotect a1 n1 PROT_NONE) s1
              in case loader_unmap_reserved_range a1 n1 (mm_ranges s2) of
                   None \<Rightarrow> None
                 | Some rs \<Rightarrow> unmap_ranges k e (a1 + n1) (s2\<lparr>mm_ranges := rs\<rparr>))
           else unmap_ranges k e cur1 s1))"

definition moni_unmap_memory :: "mm_oracle \<Rightarrow> int \<Rightarrow> int \<Rightarrow> mm \<Rightarrow> (int \<times> mm) option" where
  "moni_unmap_memory k address n s =
    (if n = 0 then Some (HAIKU_POSIX_EINVAL, s)
     else
       (case unmap_ranges k (address + n) address s of
          None \<Rightarrow> None
        | Some s1 \<Rightarrow> Some (B_OK, mm_skip k (Srv_unmap_memory address n) s1)))"

section \<open>Protection of memory\<close>

text \<open>
  The inner loop looks for an address that is not mapped, from \<open>cur\<close> up to \<open>e\<close> in one
  reserved range. The outer options stand for undefined behaviour; the inner one is \<open>None\<close> when
  there is such an address and otherwise the address at which the loop stops.
\<close>

partial_function (option) check_mapped :: "reserved_ranges \<Rightarrow> int \<Rightarrow> int \<Rightarrow> int option option" where
  "check_mapped rs e cur =
    (if \<not> cur < e then Some (Some cur)
     else
       (case loader_next_reserved_range_mapping rs cur of
          None \<Rightarrow> None
        | Some nxt \<Rightarrow>
            (let (a, n) = clip_range e nxt
             in if a > cur then Some None else check_mapped rs e (a + n))))"

partial_function (option) check_ranges :: "reserved_ranges \<Rightarrow> int \<Rightarrow> int \<Rightarrow> bool option" where
  "check_ranges rs e cur =
    (if \<not> cur < e then Some True
     else
       (let (a, n) = clip_range e (loader_next_reserved_range rs cur);
            cur1 = (if cur < a then a else cur)
        in if n \<noteq> 0
           then (case check_mapped rs (a + n) cur1 of
                   None \<Rightarrow> None
                 | Some None \<Rightarrow> Some False
                 | Some (Some cur2) \<Rightarrow> check_ranges rs e cur2)
           else check_ranges rs e cur1))"

definition moni_set_memory_protection ::
    "mm_oracle \<Rightarrow> int \<Rightarrow> int \<Rightarrow> int \<Rightarrow> mm \<Rightarrow> (int \<times> mm) option" where
  "moni_set_memory_protection k address n protection s =
    (if n = 0 then Some (HAIKU_POSIX_EINVAL, s)
     else
       (case check_ranges (mm_ranges s) (address + n) address of
          None \<Rightarrow> None
        | Some False \<Rightarrow> Some (HAIKU_POSIX_ENOMEM, s)
        | Some True \<Rightarrow>
            (case mm_do k (Srv_set_memory_protection address n protection) s of
               (st, s1) \<Rightarrow>
                 if st \<noteq> B_OK then Some (st, s1)
                 else
                   (case mm_do k (Sys_mprotect address n (mmap_prot_of protection)) s1 of
                      (st2, s2) \<Rightarrow> Some (LinuxToB (- st2), s2)))))"

section \<open>Resizing, mapping of files, locking\<close>

definition moni_resize_area :: "mm_oracle \<Rightarrow> int \<Rightarrow> int \<Rightarrow> mm \<Rightarrow> (int \<times> mm) option" where
  "moni_resize_area k area newSize s =
    (case mm_area_info k area s of
       (st, info, s1) \<Rightarrow>
         if st \<noteq> B_OK then Some (st, s1)
         else if newSize = ma_size info then Some (B_OK, s1)
         else
           (case mm_do k (Srv_resize_area area newSize) s1 of
              (st2, s2) \<Rightarrow>
                if st2 \<noteq> B_OK then Some (st2, s2)
                else
                  (let a = ma_address info; n = ma_size info;
                       inside = loader_is_in_reserved_range (mm_ranges s2) a n;
                       fail = (\<lambda>r s'. Some (LinuxToB (- r), mm_skip k (Srv_resize_area area n) s'))
                   in if newSize < n then
                        (case mm_do k (if inside
                                       then Sys_mmap (a + newSize) (n - newSize) PROT_NONE
                                              (MAP_FIXED OR MAP_PRIVATE OR MAP_ANONYMOUS) (-1) 0
                                       else Sys_munmap (a + newSize) (n - newSize)) s2 of
                           (r, s3) \<Rightarrow>
                             if r < 0 then fail r s3
                             else if inside then
                               (case loader_unmap_reserved_range (a + newSize) (n - newSize) (mm_ranges s3) of
                                  None \<Rightarrow> None
                                | Some rs \<Rightarrow> Some (B_OK, s3\<lparr>mm_ranges := rs\<rparr>))
                             else Some (B_OK, s3))
                      else
                        (case (if inside
                               then loader_reserved_range_longest_mappable_from (mm_ranges s2) (a + n) (newSize - n)
                               else Some 0) of
                           None \<Rightarrow> None
                         | Some room \<Rightarrow>
                             (case (if inside \<and> room \<noteq> 0
                                    then (case mm_do k (Sys_munmap (a + n) room) s2 of
                                            (r, s3) \<Rightarrow>
                                              (case loader_map_reserved_range (a + n) room (mm_ranges s3) of
                                                 None \<Rightarrow> None
                                               | Some rs \<Rightarrow> Some (r, s3\<lparr>mm_ranges := rs\<rparr>)))
                                    else Some (0, s2)) of
                                None \<Rightarrow> None
                              | Some (r, s3) \<Rightarrow>
                                  if r < 0 then fail r s3
                                  else
                                    (case mm_do k (Sys_mremap a n newSize) s3 of
                                       (r2, s4) \<Rightarrow>
                                         if \<not> r2 < 0 then Some (B_OK, s4)
                                         else if inside \<and> room \<noteq> 0 then
                                           (let s5 = mm_skip k (Sys_mmap (a + n) room PROT_NONE
                                                 (MAP_FIXED OR MAP_PRIVATE OR MAP_ANONYMOUS) (-1) 0) s4
                                            in case loader_unmap_reserved_range (a + n) room (mm_ranges s5) of
                                                 None \<Rightarrow> None
                                               | Some rs \<Rightarrow> fail r2 (s5\<lparr>mm_ranges := rs\<rparr>))
                                         else fail r2 s4))))))"

definition moni_map_file ::
    "mm_oracle \<Rightarrow> string option \<Rightarrow> int \<Rightarrow> int \<Rightarrow> int \<Rightarrow> int \<Rightarrow> int \<Rightarrow> bool \<Rightarrow> int \<Rightarrow> int \<Rightarrow> mm \<Rightarrow>
     (int \<times> int \<times> mm) option" where
  "moni_map_file k name base spec n protection mapping unmapRange fd off s =
    (case ProcessMmapArgs k base spec n 0 protection mapping fd (-1) s of
       (Inl st, s1) \<Rightarrow> Some (st, base, s1)
     | (Inr a, s1) \<Rightarrow>
         (let exact = (spec = B_EXACT_ADDRESS);
              collides = (exact \<and> loader_collides_with_reserved_range (mm_ranges s1) (ma_hint a) n);
              inside = (exact \<and> loader_is_in_reserved_range (mm_ranges s1) (ma_hint a) n)
          in if collides \<and> \<not> inside then Some (B_BAD_VALUE, base, s1)
             else
               (case (if unmapRange \<and> exact then moni_unmap_memory k base n s1 else Some (B_OK, s1)) of
                  None \<Rightarrow> None
                | Some (st, s2) \<Rightarrow>
                    if st \<noteq> B_OK then Some (st, base, s2)
                    else
                      (case map_area_memory k inside B_BAD_VALUE a fd off s2 of
                         None \<Rightarrow> None
                       | Some (Inl st, s3) \<Rightarrow> Some (st, base, s3)
                       | Some (Inr addr, s3) \<Rightarrow>
                           (let st = ProcessMmapResult addr spec (ma_hint a) base
                            in if st \<noteq> B_OK then Some (st, base, mm_skip k (Sys_munmap addr n) s3)
                               else
                                 (case mm_do k (Srv_register_area (guest_area_name name) n 0 protection addr mapping) s3 of
                                    (area, s4) \<Rightarrow>
                                      if area < 0 then Some (area, base, mm_skip k (Sys_munmap addr n) s4)
                                      else
                                        (case (if protection AND B_CLONEABLE_AREA \<noteq> 0 \<or>
                                                  mapping = REGION_NO_PRIVATE_MAP
                                               then ShareArea k addr n area fd off a s4 else Some (B_OK, s4)) of
                                           None \<Rightarrow> None
                                         | Some (st, s5) \<Rightarrow>
                                             if st \<noteq> B_OK
                                             then Some (st, base, mm_skip k (Sys_munmap addr n)
                                                    (mm_skip k (Srv_unregister_area area) s5))
                                             else Some (area, addr, s5))))))))"

text \<open>The advice of Linux for each of Haiku; a refusal is ignored.\<close>

definition moni_memory_advice :: "mm_oracle \<Rightarrow> int \<Rightarrow> int \<Rightarrow> int \<Rightarrow> mm \<Rightarrow> int \<times> mm" where
  "moni_memory_advice k address n advice s =
    (case map_of [(1, 0), (2, 2), (3, 1), (4, 3), (5, 4), (6, 8)] advice of
       None \<Rightarrow> (B_BAD_VALUE, s)
     | Some l \<Rightarrow> (B_OK, mm_skip k (Sys_madvise address n l) s))"

definition moni_mlock :: "mm_oracle \<Rightarrow> int \<Rightarrow> int \<Rightarrow> mm \<Rightarrow> int \<times> mm" where
  "moni_mlock k address n s =
    (case mm_do k (Sys_mlock address n) s of
       (r, s1) \<Rightarrow>
         if r < 0 then (LinuxToB (- r), s1)
         else
           (case mm_do k (Srv_set_memory_lock address n B_FULL_LOCK) s1 of
              (st, s2) \<Rightarrow>
                if st \<noteq> B_OK then (st, mm_skip k (Sys_munlock address n) s2) else (B_OK, s2)))"

text \<open>The flags are converted and then not used.\<close>

definition moni_sync_memory :: "mm_oracle \<Rightarrow> int \<Rightarrow> int \<Rightarrow> int \<Rightarrow> mm \<Rightarrow> int \<times> mm" where
  "moni_sync_memory k address n flags s =
    (case mm_do k (Sys_msync address n flags) s of
       (r, s1) \<Rightarrow> (if r < 0 then LinuxToB (- r) else B_OK, s1))"

section \<open>The loops over an address range\<close>

lemma next_reserved_range_cases:
  assumes "ranges_ok s" "\<exists>r\<in>fst ` set s. rg_address r \<le> cur"
  shows "case loader_next_reserved_range s cur of
      Some (a, n) \<Rightarrow> \<exists>r\<in>fst ` set s. a = rg_address r \<and> n = rg_size r \<and> cur < rg_end r \<and>
        {cur ..< a} \<inter> reserved s = {}
    | None \<Rightarrow> {cur..} \<inter> reserved s = {}"
proof (cases "rev (takeWhile (not_above cur \<circ> fst) s)")
  case Nil
  then show ?thesis using assms(2) range_at_Nil [OF assms(1) Nil] by force
next
  case (Cons e qs)
  obtain r ms where e: "e = (r, ms)" by force
  note at = range_at_Cons [OF assms(1) Cons [unfolded e]]
  have r: "r \<in> fst ` set s" using at(1) by force
  show ?thesis
  proof (cases "rg_end r \<le> cur")
    case False
    then have "loader_next_reserved_range s cur = Some (rg_address r, rg_size r)"
      unfolding loader_next_reserved_range_def Cons e by simp
    then show ?thesis using r at(2) False by (auto intro!: bexI [of _ r])
  next
    case True
    have before: "rg_end x \<le> cur" if "x \<in> fst ` set s" "rg_address x \<le> cur" for x
      using at(2) at(3) [OF that(1)] True that by (cases "x = r") auto
    have next_eq: "loader_next_reserved_range s cur =
        (case dropWhile (not_above cur \<circ> fst) s of
           [] \<Rightarrow> None | (r', _) # _ \<Rightarrow> Some (rg_address r', rg_size r'))"
      using True unfolding loader_next_reserved_range_def Cons e by simp
    show ?thesis
    proof (cases "dropWhile (not_above cur \<circ> fst) s")
      case Nil
      then have "dropWhile (not_above cur) (map fst s) = []" by (metis list.simps(8) map_fst_dropWhile)
      then have "rg_address x \<le> cur" if "x \<in> fst ` set s" for x
        using mappings_ok_split(2) [OF ranges_ok_keys [OF assms(1)] order_refl order_refl, of x cur] that
        by (simp only: set_map list.set(1)) simp
      then have "{cur..} \<inter> reserved s = {}"
        using before unfolding reserved_def spans_def span_def by fastforce
      then show ?thesis unfolding next_eq Nil by simp
    next
      case (Cons e' qs')
      obtain r' ms' where e': "e' = (r', ms')" by force
      have "dropWhile (not_above cur) (map fst s) = r' # map fst qs'"
        using Cons e' by (metis fst_conv list.simps(9) map_fst_dropWhile)
      note d = drop_Cons_above [OF ranges_ok_keys [OF assms(1)] order_refl order_refl this]
      have r': "r' \<in> fst ` set s" using d(1) by simp
      have "{cur ..< rg_address r'} \<inter> span x = {}" if "x \<in> fst ` set s" for x
        using before [OF that] d(3) [of x] that unfolding span_def by (cases "rg_address x \<le> cur") auto
      then have "{cur ..< rg_address r'} \<inter> reserved s = {}" unfolding reserved_def spans_def by auto
      moreover have "cur < rg_end r'"
        using d(2) ranges_ok_mappings(4) [OF assms(1)] r' by (force simp: rg_end_def)
      ultimately show ?thesis
        unfolding next_eq Cons e' using r' by (auto intro!: bexI [of _ r'])
    qed
  qed
qed

lemma next_reserved_range_none:
  assumes "ranges_ok s" "\<not> (\<exists>r\<in>fst ` set s. rg_address r \<le> cur)"
  shows "loader_next_reserved_range s cur = None"
proof (cases "rev (takeWhile (not_above cur \<circ> fst) s)")
  case (Cons e qs)
  obtain r ms where e: "e = (r, ms)" by force
  note at = range_at_Cons [OF assms(1) Cons [unfolded e]]
  show ?thesis using assms(2) at(1,2) by force
qed (simp add: loader_next_reserved_range_def)

text \<open>Where the enumeration of the reserved ranges from \<open>cur\<close> up to \<open>e\<close> misses none.\<close>

definition enumerable :: "reserved_ranges \<Rightarrow> int \<Rightarrow> int \<Rightarrow> bool" where
  "enumerable s cur e \<longleftrightarrow> (\<exists>r\<in>fst ` set s. rg_address r \<le> cur) \<or> {cur ..< e} \<inter> reserved s = {}"

lemma enumerable_mono: "enumerable s cur e \<Longrightarrow> cur \<le> cur' \<Longrightarrow> enumerable s cur' e"
proof -
  assume "enumerable s cur e" "cur \<le> cur'"
  then show ?thesis
    unfolding enumerable_def
  proof (elim disjE)
    assume "{cur ..< e} \<inter> reserved s = {}" "cur \<le> cur'"
    then have "{cur' ..< e} \<inter> reserved s = {}" by (meson disjoint_iff ivl_subset order_refl subsetD)
    then show "(\<exists>r\<in>fst ` set s. rg_address r \<le> cur') \<or> {cur' ..< e} \<inter> reserved s = {}" by blast
  qed (meson order_trans)
qed

lemma next_clip_cases:
  assumes "ranges_ok s" "enumerable s cur e" "cur < e"
    and "clip_range e (loader_next_reserved_range s cur) = (a, n)"
  obtains (miss) "a = e" "n = 0" "{cur ..< e} \<inter> reserved s = {}"
  | (hit) r where "r \<in> fst ` set s" "rg_address r = a" "a + n \<le> rg_end r" "0 < n" "a + n \<le> e" "cur < a + n"
      "{cur ..< a} \<inter> reserved s = {}"
proof (cases "loader_next_reserved_range s cur")
  case None
  then have "{cur ..< e} \<inter> reserved s = {}"
    using next_reserved_range_cases [OF assms(1), of cur] assms(2) by (fastforce simp: enumerable_def)
  then show ?thesis using None assms(4) miss by (simp add: clip_range_def)
next
  case (Some p)
  obtain a0 n0 where p: "p = (a0, n0)" by force
  have ex: "\<exists>r\<in>fst ` set s. rg_address r \<le> cur"
    using next_reserved_range_none [OF assms(1), of cur] Some by fastforce
  obtain r where r: "r \<in> fst ` set s" "a0 = rg_address r" "n0 = rg_size r" "cur < rg_end r"
    "{cur ..< a0} \<inter> reserved s = {}"
    using next_reserved_range_cases [OF assms(1) ex] unfolding Some p by auto
  have pos: "0 < n0" using ranges_ok_mappings(4) [OF assms(1)] r by force
  show ?thesis
  proof (cases "a0 \<ge> e")
    case True
    then have "{cur ..< e} \<inter> reserved s = {}"
      using r(5) by (meson disjoint_iff ivl_subset order_refl subsetD)
    then show ?thesis using True assms(4) Some p by (intro miss) (auto simp: clip_range_def)
  next
    case False
    then show ?thesis
      using r pos assms(3,4) Some p by (intro hit [of r]) (auto simp: clip_range_def rg_end_def split: if_splits)
  qed
qed

text \<open>The addresses that a trace unmaps, and those it gives back to a reserved range.\<close>

definition munmapped :: "mm_call list \<Rightarrow> int set" where
  "munmapped cs = (\<Union>c\<in>set cs. case c of Sys_munmap a n \<Rightarrow> {a ..< a + n} | _ \<Rightarrow> {})"

definition given_back :: "mm_call list \<Rightarrow> int set" where
  "given_back cs = (\<Union>c\<in>set cs. case c of
     Sys_mprotect a n p \<Rightarrow> if p = PROT_NONE then {a ..< a + n} else {} | _ \<Rightarrow> {})"

lemma trace_simps [simp]:
  "munmapped [] = {}" "munmapped (c # cs) = (case c of Sys_munmap a n \<Rightarrow> {a ..< a + n} | _ \<Rightarrow> {}) \<union> munmapped cs"
  "munmapped (cs @ ds) = munmapped cs \<union> munmapped ds"
  "given_back [] = {}" "given_back (c # cs) = (case c of
     Sys_mprotect a n p \<Rightarrow> if p = PROT_NONE then {a ..< a + n} else {} | _ \<Rightarrow> {}) \<union> given_back cs"
  "given_back (cs @ ds) = given_back cs \<union> given_back ds"
  by (auto simp: munmapped_def given_back_def)

lemma mm_skip_fields [simp]:
  "mm_ranges (mm_skip k c s) = mm_ranges s" "mm_calls (mm_skip k c s) = mm_calls s @ [c]"
  by (simp_all add: mm_skip_def mm_do_def)

lemma enumerable_cong:
  "map fst s' = map fst s \<Longrightarrow> enumerable s' cur e = enumerable s cur e"
  unfolding enumerable_def reserved_def by (metis set_map)

lemma unmap_reserved_keys:
  "loader_unmap_reserved_range a n s = Some s' \<Longrightarrow> map fst s' = map fst s"
  by (auto simp: loader_unmap_reserved_range_def set_mappings_def Let_def split: if_splits list.splits)

lemma unmap_ranges_ok:
  assumes "ranges_ok (mm_ranges s)" "enumerable (mm_ranges s) cur e" "cur \<le> e"
  shows "\<exists>s' cs. unmap_ranges k e cur s = Some s' \<and> mm_calls s' = mm_calls s @ cs \<and>
    ranges_ok (mm_ranges s') \<and> map fst (mm_ranges s') = map fst (mm_ranges s) \<and>
    mapped (mm_ranges s') = mapped (mm_ranges s) - ({cur ..< e} \<inter> reserved (mm_ranges s)) \<and>
    munmapped cs = {cur ..< e} - reserved (mm_ranges s) \<and>
    given_back cs = {cur ..< e} \<inter> reserved (mm_ranges s)"
  using assms
proof (induction "nat (e - cur)" arbitrary: cur s rule: less_induct)
  case less
  show ?case
  proof (cases "cur < e")
    case False
    then show ?thesis using less.prems by (intro exI [of _ s] exI [of _ "[]"]) (simp add: unmap_ranges.simps)
  next
    case True
    obtain a n where an: "clip_range e (loader_next_reserved_range (mm_ranges s) cur) = (a, n)" by force
    let ?s1 = "if cur < a then mm_skip k (Sys_munmap cur (a - cur)) s else s"
    let ?head = "if cur < a then [Sys_munmap cur (a - cur)] else []"
    from less.prems(1,2) True an show ?thesis
    proof (cases rule: next_clip_cases)
      case miss
      have "unmap_ranges k e cur s = Some (mm_skip k (Sys_munmap cur (e - cur)) s)"
        using True an miss by (simp add: unmap_ranges.simps [of k e cur] unmap_ranges.simps [of k e e])
      moreover have "{cur ..< e} - reserved (mm_ranges s) = {cur ..< e}" using miss(3) by blast
      ultimately show ?thesis
        using less.prems(1) miss(3) by (intro exI [of _ "mm_skip k (Sys_munmap cur (e - cur)) s"] exI [of _ "[Sys_munmap cur (e - cur)]"]) simp
    next
      case (hit r)
      define b where "b = max cur a"
      define m where "m = a + n - b"
      have bm: "b + m = a + n" "0 < m" "cur \<le> b" using hit(6) hit(4) by (auto simp: m_def b_def)
      let ?s2 = "mm_skip k (Sys_mprotect b m PROT_NONE) ?s1"
      have R: "mm_ranges ?s2 = mm_ranges s" by simp
      have inside: "loader_is_in_reserved_range (mm_ranges s) b m"
      proof -
        have "rg_address r \<le> b" "b + m \<le> rg_end r" using hit(2,3) bm(1) by (auto simp: b_def)
        then show ?thesis using hit(1) is_in_reserved_range_iff [OF less.prems(1) bm(2)] by blast
      qed
      obtain rs where rs: "loader_unmap_reserved_range b m (mm_ranges s) = Some rs" "ranges_ok rs"
        "reserved rs = reserved (mm_ranges s)" "mapped rs = mapped (mm_ranges s) - {b ..< b + m}"
        using unmap_reserved_range_ok [OF less.prems(1) inside bm(2)] by blast
      have keys: "map fst rs = map fst (mm_ranges s)" by (rule unmap_reserved_keys [OF rs(1)])
      let ?s3 = "?s2\<lparr>mm_ranges := rs\<rparr>"
      have step: "unmap_ranges k e cur s = unmap_ranges k e (b + m) ?s3"
      proof -
        have args: "(if a < (if cur < a then a else cur) then n - ((if cur < a then a else cur) - a) else n) = m"
          "(if a < (if cur < a then a else cur) then (if cur < a then a else cur) else a) = b"
          by (auto simp: b_def m_def)
        show ?thesis
          using True bm(2) rs(1) R
          by (subst unmap_ranges.simps) (simp add: an args)
      qed
      have enum: "enumerable (mm_ranges ?s3) (b + m) e"
        using enumerable_cong [OF keys] enumerable_mono [OF less.prems(2), of "b + m"] bm by simp
      have "nat (e - (b + m)) < nat (e - cur)" using bm hit(5,6) True by simp
      from less.hyps [OF this, of ?s3] enum rs(2) bm(1) hit(5) obtain s' cs where
        IH: "unmap_ranges k e (b + m) ?s3 = Some s'" "mm_calls s' = mm_calls ?s3 @ cs"
          "ranges_ok (mm_ranges s')" "map fst (mm_ranges s') = map fst rs"
          "mapped (mm_ranges s') = mapped rs - ({b + m ..< e} \<inter> reserved rs)"
          "munmapped cs = {b + m ..< e} - reserved rs" "given_back cs = {b + m ..< e} \<inter> reserved rs"
        by auto
      have own: "{b ..< b + m} \<subseteq> reserved (mm_ranges s)"
      proof -
        have "{b ..< b + m} \<subseteq> span r" using hit(2,3) bm(1) by (auto simp: span_def b_def)
        also have "\<dots> \<subseteq> reserved (mm_ranges s)" using hit(1) by (auto simp: reserved_def spans_def)
        finally show ?thesis .
      qed
      have gap: "{cur ..< b} \<inter> reserved (mm_ranges s) = {}" using hit(7) by (simp add: b_def max_def)
      have cut: "{cur ..< e} = {cur ..< b} \<union> {b ..< b + m} \<union> {b + m ..< e}" using bm hit(5) by auto
      have head: "munmapped ?head = {cur ..< b}" "given_back ?head = {}" by (auto simp: b_def)
      show ?thesis
      proof (intro exI conjI)
        show "unmap_ranges k e cur s = Some s'" using step IH(1) by simp
        show "mm_calls s' = mm_calls s @ (?head @ [Sys_mprotect b m PROT_NONE] @ cs)" using IH(2) by simp
        show "ranges_ok (mm_ranges s')" by (rule IH(3))
        show "map fst (mm_ranges s') = map fst (mm_ranges s)" using IH(4) keys by simp
        show "mapped (mm_ranges s') = mapped (mm_ranges s) - ({cur ..< e} \<inter> reserved (mm_ranges s))"
          unfolding IH(5) rs(3,4) cut using own gap by blast
        show "munmapped (?head @ [Sys_mprotect b m PROT_NONE] @ cs) = {cur ..< e} - reserved (mm_ranges s)"
          unfolding trace_simps head IH(6) rs(3) cut using own gap by auto
        show "given_back (?head @ [Sys_mprotect b m PROT_NONE] @ cs) = {cur ..< e} \<inter> reserved (mm_ranges s)"
          unfolding trace_simps head IH(7) rs(3) cut using own gap by auto
      qed
    qed
  qed
qed

lemma mapped_subset_reserved:
  assumes "ranges_ok s"
  shows "mapped s \<subseteq> reserved s"
proof -
  have "spans (snd e) \<subseteq> reserved s" if e: "e \<in> set s" for e
  proof -
    have "spans (snd e) \<subseteq> span (fst e)"
      using spans_within [OF ranges_ok_mappings(1) [OF assms, of "fst e" "snd e"]] e
      unfolding span_def by simp
    also have "\<dots> \<subseteq> reserved s" using e by (force simp: reserved_def spans_def)
    finally show ?thesis .
  qed
  then show ?thesis unfolding mapped_def by blast
qed

text \<open>
  C28: unmapping memory does not break reservations. \<open>unmap_memory\<close> ends; it unmaps exactly the
  addresses of its range that are not reserved, gives exactly the reserved ones back to their
  ranges without access, so that the reservations stay and only their mappings go, and then tells
  the server. The range has to be enumerable: a reserved range starts at or below its first address,
  or it meets none.
\<close>

theorem unmap_memory_respects_reservations:
  assumes "ranges_ok (mm_ranges s)" and "0 < n" and "enumerable (mm_ranges s) a (a + n)"
  shows "\<exists>s' cs. moni_unmap_memory k a n s = Some (B_OK, s') \<and>
    mm_calls s' = mm_calls s @ cs @ [Srv_unmap_memory a n] \<and>
    munmapped cs = {a ..< a + n} - reserved (mm_ranges s) \<and>
    given_back cs = {a ..< a + n} \<inter> reserved (mm_ranges s) \<and>
    reserved (mm_ranges s') = reserved (mm_ranges s) \<and>
    mapped (mm_ranges s') = mapped (mm_ranges s) - {a ..< a + n} \<and> ranges_ok (mm_ranges s')"
proof -
  have "a \<le> a + n" using assms(2) by simp
  from unmap_ranges_ok [OF assms(1,3) this, of k] obtain s' cs where
    r: "unmap_ranges k (a + n) a s = Some s'" "mm_calls s' = mm_calls s @ cs" "ranges_ok (mm_ranges s')"
    "map fst (mm_ranges s') = map fst (mm_ranges s)"
    "mapped (mm_ranges s') = mapped (mm_ranges s) - ({a ..< a + n} \<inter> reserved (mm_ranges s))"
    "munmapped cs = {a ..< a + n} - reserved (mm_ranges s)"
    "given_back cs = {a ..< a + n} \<inter> reserved (mm_ranges s)" by blast
  have "moni_unmap_memory k a n s = Some (B_OK, mm_skip k (Srv_unmap_memory a n) s')"
    using assms(2) r(1) by (simp add: moni_unmap_memory_def)
  moreover have "mapped (mm_ranges s') = mapped (mm_ranges s) - {a ..< a + n}"
    using r(5) mapped_subset_reserved [OF assms(1)] by blast
  moreover have "reserved (mm_ranges s') = reserved (mm_ranges s)" using r(4) by (simp add: reserved_def)
  ultimately show ?thesis
    using r(2,3,6,7) by (intro exI [of _ "mm_skip k (Srv_unmap_memory a n) s'"] exI [of _ cs]) simp
qed

definition sample_oracle :: mm_oracle where
  "sample_oracle = \<lparr>oracle_ret = \<lambda>_ _. 0,
     oracle_area = \<lambda>_ _. \<lparr>ma_size = 0, ma_lock = 0, ma_protection = 0, ma_address = 0\<rparr>,
     oracle_path = \<lambda>_ _. [], oracle_random = \<lambda>_. 0\<rparr>"

lemma sample_ranges_ok: "ranges_ok [(Range 10 90, [Range 20 30])]"
  by (simp add: ranges_ok_def mappings_ok_def rg_end_def SIZE_MAX_def)

theorem unmap_memory_respects_reservations_witness:
  "\<exists>s' cs. moni_unmap_memory sample_oracle 40 80 \<lparr>mm_ranges = [(Range 10 90, [Range 20 30])], mm_calls = []\<rparr> =
      Some (B_OK, s') \<and> mm_calls s' = cs @ [Srv_unmap_memory 40 80] \<and>
    munmapped cs = {100 ..< 120} \<and> given_back cs = {40 ..< 100} \<and> mapped (mm_ranges s') = {20 ..< 40}"
proof -
  let ?s = "\<lparr>mm_ranges = [(Range 10 90, [Range 20 30])], mm_calls = []\<rparr>"
  have "enumerable (mm_ranges ?s) 40 (40 + 80)" by (simp add: enumerable_def)
  moreover have "reserved (mm_ranges ?s) = {10 ..< 100}" "mapped (mm_ranges ?s) = {20 ..< 50}"
    by (simp_all add: reserved_def mapped_def)
  moreover have "{40 ..< 120 :: int} - {10 ..< 100} = {100 ..< 120}" "{40 ..< 120 :: int} \<inter> {10 ..< 100} = {40 ..< 100}"
    "{20 ..< 50 :: int} - {40 ..< 120} = {20 ..< 40}" by auto
  ultimately show ?thesis
    using unmap_memory_respects_reservations [of ?s 80 40 sample_oracle] sample_ranges_ok by force
qed

text \<open>
  When no reserved range starts at or below the first address, the whole range is unmapped, the
  reserved addresses in it included, and the table goes on to report them as reserved and mapped.
\<close>

lemma unmap_below_reservation_breaks_it:
  assumes "ranges_ok (mm_ranges s)" "0 < n" "\<not> (\<exists>r\<in>fst ` set (mm_ranges s). rg_address r \<le> a)"
  shows "moni_unmap_memory k a n s =
    Some (B_OK, s\<lparr>mm_calls := mm_calls s @ [Sys_munmap a n, Srv_unmap_memory a n]\<rparr>)"
proof -
  have "loader_next_reserved_range (mm_ranges s) a = None"
    by (rule next_reserved_range_none [OF assms(1,3)])
  then have "unmap_ranges k (a + n) a s = Some (mm_skip k (Sys_munmap a n) s)"
    using assms(2) by (simp add: unmap_ranges.simps [of k "a + n" a] unmap_ranges.simps [of k "a + n" "a + n"] clip_range_def)
  then show ?thesis using assms(2) by (simp add: moni_unmap_memory_def mm_skip_def mm_do_def)
qed

section \<open>Changing the protection\<close>

lemma next_mapping_cases:
  assumes "ranges_ok s" "(r, ms) \<in> set s" "rg_address r \<le> cur" "cur < rg_end r"
  shows "case loader_next_reserved_range_mapping s cur of
      Some (Some (a, n)) \<Rightarrow> (if a \<le> cur then cur < a + n \<and> {a ..< a + n} \<subseteq> spans ms else cur \<notin> spans ms)
    | _ \<Rightarrow> cur \<notin> spans ms"
proof (cases "rev (takeWhile (not_above cur \<circ> fst) s)")
  case Nil
  then show ?thesis using range_at_Nil [OF assms(1) Nil] assms(2,3) by force
next
  case (Cons e qs)
  obtain r' ms' where e: "e = (r', ms')" by force
  note at = range_at_Cons [OF assms(1) Cons [unfolded e]]
  have "r = r'" using at(4) [of r] assms(2-4) by force
  then have own: "ms' = ms" using ranges_ok_pair [OF assms(1) at(1) assms(2)] by blast
  note rr = ranges_ok_mappings [OF assms(1,2)]
  have isin: "loader_is_in_reserved_range s cur 0"
    using assms(3,4) \<open>r = r'\<close> unfolding loader_is_in_reserved_range_def Cons e by simp
  have eq: "loader_next_reserved_range_mapping s cur =
      (case rev (takeWhile (not_above cur) ms) of
         [] \<Rightarrow> Some None
       | m # _ \<Rightarrow>
           if rg_end m \<le> cur
           then (case dropWhile (not_above cur) ms of
                   [] \<Rightarrow> None | m' # _ \<Rightarrow> Some (Some (rg_address m', rg_size m')))
           else Some (Some (rg_address m, rg_size m)))"
    using isin own unfolding loader_next_reserved_range_mapping_def Cons e by simp
  show ?thesis
  proof (cases "rev (takeWhile (not_above cur) ms)")
    case Nil
    then have "cur \<notin> spans ms"
      using takeWhile_Nil_above [OF rr(1-3), of cur] by (fastforce simp: in_spans)
    then show ?thesis unfolding eq Nil by simp
  next
    case (Cons m ls)
    note m = last_take_drop [OF rr(1-3) Cons]
    show ?thesis
    proof (cases "rg_end m \<le> cur")
      case True
      have "rg_end x \<le> cur \<or> cur < rg_address x" if "x \<in> set ms" for x
        using below_free [OF rr(1-3), of cur x] m(4) True that by (cases "rg_address x \<le> cur") auto
      then have none: "cur \<notin> spans ms" by (fastforce simp: in_spans)
      show ?thesis
      proof (cases "dropWhile (not_above cur) ms")
        case Nil
        then show ?thesis using none True unfolding eq Cons Nil by simp
      next
        case above: (Cons m' ms'')
        have "cur < rg_address m'" by (rule drop_Cons_above(2) [OF rr(1-3) above])
        then show ?thesis using none True unfolding eq Cons above by simp
      qed
    next
      case False
      have "{rg_address m ..< rg_address m + rg_size m} \<subseteq> spans ms"
        using m(1) by (auto simp: in_spans rg_end_def)
      then show ?thesis using m(2) False unfolding eq Cons by (simp add: rg_end_def)
    qed
  qed
qed

lemma check_mapped_ok:
  assumes "ranges_ok s" "(r, ms) \<in> set s" "rg_address r \<le> cur" "cur \<le> e" "e \<le> rg_end r"
  shows "case check_mapped s e cur of
      None \<Rightarrow> \<not> {cur ..< e} \<subseteq> spans ms
    | Some None \<Rightarrow> \<not> {cur ..< e} \<subseteq> spans ms
    | Some (Some c) \<Rightarrow> c = e \<and> {cur ..< e} \<subseteq> spans ms"
  using assms(3,4)
proof (induction "nat (e - cur)" arbitrary: cur rule: less_induct)
  case less
  show ?case
  proof (cases "cur < e")
    case False
    then show ?thesis using less.prems(2) by (simp add: check_mapped.simps)
  next
    case True
    have cur: "cur \<in> {cur ..< e}" using True by simp
    have "cur < rg_end r" using True assms(5) by simp
    note nxt = next_mapping_cases [OF assms(1,2) less.prems(1) this]
    show ?thesis
    proof (cases "loader_next_reserved_range_mapping s cur")
      case None
      then show ?thesis using nxt cur True by (auto simp: check_mapped.simps [of s e cur])
    next
      case (Some p)
      show ?thesis
      proof (cases p)
        case None
        then show ?thesis
          using nxt cur True Some by (auto simp: check_mapped.simps [of s e cur] clip_range_def)
      next
        case (Some q)
        obtain a n where q: "q = (a, n)" by force
        note found = \<open>loader_next_reserved_range_mapping s cur = Some p\<close> Some q
        show ?thesis
        proof (cases "a \<le> cur")
          case False
          then have "check_mapped s e cur = Some None"
            using True found by (simp add: check_mapped.simps [of s e cur] clip_range_def)
          then show ?thesis using nxt found False cur by auto
        next
          case a: True
          then have hit: "cur < a + n" "{a ..< a + n} \<subseteq> spans ms" using nxt found by auto
          let ?c = "min (a + n) e"
          have step: "check_mapped s e cur = check_mapped s e ?c"
            using True a found by (auto simp: check_mapped.simps [of s e cur] clip_range_def min_def)
          have "nat (e - ?c) < nat (e - cur)" "rg_address r \<le> ?c" "?c \<le> e"
            using hit(1) True less.prems(1) by auto
          note IH = less.hyps [OF this]
          have "{cur ..< e} = {cur ..< ?c} \<union> {?c ..< e}" using hit(1) True by auto
          moreover have "{cur ..< ?c} \<subseteq> spans ms" using hit(2) a by force
          ultimately have "{cur ..< e} \<subseteq> spans ms \<longleftrightarrow> {?c ..< e} \<subseteq> spans ms" by blast
          then show ?thesis using IH unfolding step by (auto split: option.splits)
        qed
      qed
    qed
  qed
qed

lemma check_ranges_ok:
  assumes "ranges_ok s" "enumerable s cur e" "cur \<le> e"
  shows "case check_ranges s e cur of
      None \<Rightarrow> \<not> {cur ..< e} \<inter> reserved s \<subseteq> mapped s
    | Some v \<Rightarrow> v \<longleftrightarrow> {cur ..< e} \<inter> reserved s \<subseteq> mapped s"
  using assms(2,3)
proof (induction "nat (e - cur)" arbitrary: cur rule: less_induct)
  case less
  show ?case
  proof (cases "cur < e")
    case False
    then show ?thesis by (simp add: check_ranges.simps)
  next
    case True
    obtain a n where an: "clip_range e (loader_next_reserved_range s cur) = (a, n)" by force
    from assms(1) less.prems(1) True an show ?thesis
    proof (cases rule: next_clip_cases)
      case miss
      have "check_ranges s e cur = Some True"
        using True an miss by (simp add: check_ranges.simps [of s e cur] check_ranges.simps [of s e e])
      then show ?thesis using miss(3) by simp
    next
      case (hit r)
      define b where "b = max cur a"
      obtain ms where ms: "(r, ms) \<in> set s" using hit(1) by force
      have b: "cur \<le> b" "b \<le> a + n" "rg_address r \<le> b" using hit(2,4,6) by (auto simp: b_def)
      have own: "{b ..< a + n} \<subseteq> span r" using b(3) hit(3) by (auto simp: span_def)
      then have inres: "{b ..< a + n} \<subseteq> reserved s" using hit(1) by (force simp: reserved_def spans_def)
      have step: "check_ranges s e cur =
          (case check_mapped s (a + n) b of
             None \<Rightarrow> None | Some None \<Rightarrow> Some False | Some (Some c) \<Rightarrow> check_ranges s e c)"
      proof -
        have "(if cur < a then a else cur) = b" by (simp add: b_def)
        then show ?thesis using True an hit(4) by (subst check_ranges.simps) simp
      qed
      have cut: "{cur ..< e} \<inter> reserved s = {b ..< a + n} \<union> {a + n ..< e} \<inter> reserved s"
      proof -
        have "{cur ..< e} = {cur ..< b} \<union> {b ..< a + n} \<union> {a + n ..< e}" using b hit(5) by auto
        moreover have "{cur ..< b} \<inter> reserved s = {}" using hit(7) by (simp add: b_def max_def)
        ultimately show ?thesis using inres by blast
      qed
      have here: "{b ..< a + n} \<subseteq> mapped s \<longleftrightarrow> {b ..< a + n} \<subseteq> spans ms"
        using mapped_in_range [OF assms(1) ms] own by blast
      note chk = check_mapped_ok [OF assms(1) ms b(3,2) hit(3)]
      have IH: "case check_ranges s e (a + n) of
          None \<Rightarrow> \<not> {a + n ..< e} \<inter> reserved s \<subseteq> mapped s
        | Some v \<Rightarrow> v \<longleftrightarrow> {a + n ..< e} \<inter> reserved s \<subseteq> mapped s"
        using less.hyps [of "a + n"] enumerable_mono [OF less.prems(1), of "a + n"] hit(5,6) True by simp
      show ?thesis
        unfolding step cut Un_subset_iff here
        using chk IH by (auto split: option.splits)
    qed
  qed
qed

text \<open>
  C29: memory is given another protection only when all of its reserved part is mapped. When a
  reserved range starts at or below the first address, or the addresses meet none,
  \<open>set_memory_protection\<close> sets the protection exactly if no reserved address of the range is
  free; else it answers ENOMEM before anything is changed, or runs into the undefined reads of the
  table behind the last mapping of a range.
\<close>

theorem set_memory_protection_checks_mappings:
  assumes "ranges_ok (mm_ranges s)" and "0 < n" and "enumerable (mm_ranges s) a (a + n)"
  shows "if {a ..< a + n} \<inter> reserved (mm_ranges s) \<subseteq> mapped (mm_ranges s)
    then moni_set_memory_protection k a n p s =
      (let srv = oracle_ret k (mm_calls s) (Srv_set_memory_protection a n p);
           cs = mm_calls s @ [Srv_set_memory_protection a n p];
           sys = Sys_mprotect a n (mmap_prot_of p)
       in if srv \<noteq> B_OK then Some (srv, s\<lparr>mm_calls := cs\<rparr>)
          else Some (LinuxToB (- oracle_ret k cs sys), s\<lparr>mm_calls := cs @ [sys]\<rparr>))
    else moni_set_memory_protection k a n p s \<in> {None, Some (HAIKU_POSIX_ENOMEM, s)}"
proof -
  have "a \<le> a + n" using assms(2) by simp
  note chk = check_ranges_ok [OF assms(1,3) this]
  show ?thesis
  proof (cases "{a ..< a + n} \<inter> reserved (mm_ranges s) \<subseteq> mapped (mm_ranges s)")
    case True
    then have "check_ranges (mm_ranges s) (a + n) a = Some True" using chk by (auto split: option.splits)
    then show ?thesis using True assms(2) by (simp add: moni_set_memory_protection_def mm_do_def Let_def)
  next
    case False
    then have "check_ranges (mm_ranges s) (a + n) a \<in> {None, Some False}" using chk by (auto split: option.splits)
    then show ?thesis using False assms(2) by (auto simp: moni_set_memory_protection_def)
  qed
qed

theorem set_memory_protection_checks_mappings_witness:
  "moni_set_memory_protection sample_oracle 25 20 B_READ_AREA
      \<lparr>mm_ranges = [(Range 10 90, [Range 20 30])], mm_calls = []\<rparr> = Some (LinuxToB 0,
      \<lparr>mm_ranges = [(Range 10 90, [Range 20 30])],
       mm_calls = [Srv_set_memory_protection 25 20 B_READ_AREA, Sys_mprotect 25 20 (mmap_prot_of B_READ_AREA)]\<rparr>)"
proof -
  let ?s = "\<lparr>mm_ranges = [(Range 10 90, [Range 20 30])], mm_calls = []\<rparr>"
  have "enumerable (mm_ranges ?s) 25 (25 + 20)" by (simp add: enumerable_def)
  moreover have "{25 ..< 25 + 20} \<inter> reserved (mm_ranges ?s) \<subseteq> mapped (mm_ranges ?s)"
    by (auto simp: reserved_def mapped_def)
  moreover have "oracle_ret sample_oracle = (\<lambda>_ _. 0)" by (simp add: sample_oracle_def)
  moreover have "B_OK = 0" by (simp add: B_OK_def)
  ultimately show ?thesis
    using set_memory_protection_checks_mappings [of ?s 20 25 sample_oracle B_READ_AREA] sample_ranges_ok
    by (simp add: Let_def)
qed

text \<open>Over a part of a reserved range behind its last mapping the check reads past the table.\<close>

lemma protection_check_runs_past_mappings:
  "moni_set_memory_protection k 40 20 p \<lparr>mm_ranges = [(Range 10 90, [Range 20 30])], mm_calls = cs\<rparr> = None"
proof -
  let ?rs = "[(Range 10 90, [Range 20 30])]"
  have "check_mapped ?rs 60 50 = None"
    by (subst check_mapped.simps)
      (simp add: loader_next_reserved_range_mapping_def loader_is_in_reserved_range_def clip_range_def rg_end_def not_above_def range_less_def)
  then have "check_mapped ?rs 60 40 = None"
    by (subst check_mapped.simps)
      (simp add: loader_next_reserved_range_mapping_def loader_is_in_reserved_range_def clip_range_def rg_end_def not_above_def range_less_def)
  then have "check_ranges ?rs 60 40 = None"
    by (subst check_ranges.simps) (simp add: loader_next_reserved_range_def clip_range_def rg_end_def not_above_def range_less_def)
  then show ?thesis by (simp add: moni_set_memory_protection_def)
qed

end
