(* ===== verification/KMessage.thy ===== *)
theory KMessage
  imports Errno "HOL-Library.Monad_Syntax"
begin

text \<open>
  The flattened messages of the kernel (\<^verbatim>\<open>kmessage.h\<close>, \<^verbatim>\<open>kmessage.cpp\<close>): a header of 28
  bytes, then fields that begin at multiples of four, each with its own header, its name and its
  elements. The buffer is a list of bytes; a pointer into it is an offset. \<open>None\<close> is undefined
  behaviour: an access outside of the buffer, a null pointer, an overflow of a signed integer. An
  argument that is a string is \<open>None\<close> for NULL and otherwise has no NUL in it.
\<close>

definition B_BAD_INDEX :: int where [status_codes]: "B_BAD_INDEX = B_GENERAL_ERROR_BASE + 3"
definition B_BAD_TYPE :: int where [status_codes]: "B_BAD_TYPE = B_GENERAL_ERROR_BASE + 4"
definition B_NAME_IN_USE :: int where [status_codes]: "B_NAME_IN_USE = B_GENERAL_ERROR_BASE + 8"
definition B_BAD_DATA :: int where [status_codes]: "B_BAD_DATA = B_GENERAL_ERROR_BASE + 16"

definition B_ANY_TYPE :: int where "B_ANY_TYPE = 0x414E5954"
definition B_BOOL_TYPE :: int where "B_BOOL_TYPE = 0x424F4F4C"
definition B_INT8_TYPE :: int where "B_INT8_TYPE = 0x42595445"
definition B_INT16_TYPE :: int where "B_INT16_TYPE = 0x53485254"
definition B_INT32_TYPE :: int where "B_INT32_TYPE = 0x4C4F4E47"
definition B_INT64_TYPE :: int where "B_INT64_TYPE = 0x4C4C4E47"
definition B_POINTER_TYPE :: int where "B_POINTER_TYPE = 0x504E5452"
definition B_STRING_TYPE :: int where "B_STRING_TYPE = 0x43535452"

definition kMessageReallocChunkSize :: int where "kMessageReallocChunkSize = 64"
definition kMessageHeaderMagic :: int where "kMessageHeaderMagic = 0x6B4D7347"
definition KMESSAGE_OWNS_BUFFER :: int where "KMESSAGE_OWNS_BUFFER = 1"
definition KMESSAGE_INIT_FROM_BUFFER :: int where "KMESSAGE_INIT_FROM_BUFFER = 2"
definition KMESSAGE_CLONE_BUFFER :: int where "KMESSAGE_CLONE_BUFFER = 4"
definition KMESSAGE_READ_ONLY :: int where "KMESSAGE_READ_ONLY = 8"

section \<open>Bytes of a buffer\<close>

definition peek :: "byte list \<Rightarrow> int \<Rightarrow> int \<Rightarrow> byte list option" where
  "peek bs off n =
    (if 0 \<le> off \<and> 0 \<le> n \<and> off + n \<le> int (length bs) then Some (take (nat n) (drop (nat off) bs)) else None)"

definition poke :: "byte list \<Rightarrow> int \<Rightarrow> byte list \<Rightarrow> byte list option" where
  "poke bs off xs =
    (if 0 \<le> off \<and> off + int (length xs) \<le> int (length bs)
     then Some (take (nat off) bs @ xs @ drop (nat off + length xs) bs) else None)"

definition peek_int32 :: "byte list \<Rightarrow> int \<Rightarrow> int option" where
  "peek_int32 bs off = map_option dec_int32 (peek bs off 4)"

definition peek_uint32 :: "byte list \<Rightarrow> int \<Rightarrow> int option" where
  "peek_uint32 bs off = map_option le_val (peek bs off 4)"

definition peek_int16 :: "byte list \<Rightarrow> int \<Rightarrow> int option" where
  "peek_int16 bs off = map_option (\<lambda>xs. signed_take_bit 15 (le_val xs)) (peek bs off 2)"

text \<open>The C string at an offset; a string that does not end in the buffer is read past its end.\<close>

definition peek_cstr :: "byte list \<Rightarrow> int \<Rightarrow> string option" where
  "peek_cstr bs off =
    (if 0 \<le> off \<and> CHR 0x00 \<in> set (drop (nat off) bs) then Some (cstr (drop (nat off) bs)) else None)"

text \<open>A signed result that must fit an \<open>int32\<close>.\<close>

definition int32_op :: "int \<Rightarrow> int option" where
  "int32_op x = (if is_int32 x then Some x else None)"

text \<open>\<open>_Align\<close> of an offset and of an address, the latter as an offset into the buffer at \<open>a\<close>.\<close>

definition align4 :: "int \<Rightarrow> int" where
  "align4 x = (x + 3) AND NOT 3"

definition Align_offset :: "int \<Rightarrow> int" where
  "Align_offset x = to_int32 (align4 x)"

definition Align_address :: "int \<Rightarrow> int \<Rightarrow> int" where
  "Align_address a off = align4 (a + off) - a"

section \<open>Messages\<close>

text \<open>
  \<open>km_self\<close> is the address of the object, whose first member is \<open>fHeader\<close>; \<open>km_inline\<close> holds
  while the buffer is that member. \<open>km_mem\<close> is the memory at \<open>km_addr\<close>. Fresh memory is a
  parameter: the sizes \<open>malloc\<close> can serve, its address and its contents.
\<close>

record kmessage =
  km_self :: int
  km_addr :: int
  km_mem :: "byte list"
  km_capacity :: int
  km_flags :: int
  km_last :: int
  km_inline :: bool

record km_heap =
  heap_can :: "int \<Rightarrow> bool"
  heap_addr :: int
  heap_byte :: "int \<Rightarrow> byte"

definition heap_fill :: "km_heap \<Rightarrow> byte list \<Rightarrow> int \<Rightarrow> byte list" where
  "heap_fill k bs n = take (nat n) bs @ map (heap_byte k \<circ> int) [length bs ..< nat n]"

definition header_bytes :: "int \<Rightarrow> byte list" where
  "header_bytes what =
    le_bytes 4 kMessageHeaderMagic @ le_bytes 4 28 @ le_bytes 4 what @
    le_bytes 4 (- 1) @ le_bytes 4 (- 1) @ le_bytes 4 (- 1) @ le_bytes 4 (- 1)"

definition KMessage_InitBuffer :: "int \<Rightarrow> kmessage \<Rightarrow> kmessage option" where
  "KMessage_InitBuffer what m =
    do { mem \<leftarrow> poke (km_mem m) 0 (header_bytes what); Some (m\<lparr>km_mem := mem, km_last := 0\<rparr>) }"

definition KMessage_Unset :: "kmessage \<Rightarrow> kmessage option" where
  "KMessage_Unset m =
    KMessage_InitBuffer 0
      (m\<lparr>km_addr := km_self m, km_mem := replicate 28 (CHR 0x00), km_capacity := 28, km_inline := True\<rparr>)"

definition KMessage_SetWhat :: "int \<Rightarrow> kmessage \<Rightarrow> kmessage option" where
  "KMessage_SetWhat what m =
    do { mem \<leftarrow> poke (km_mem m) 8 (le_bytes 4 what); Some (m\<lparr>km_mem := mem\<rparr>) }"

definition KMessage_new :: "int \<Rightarrow> int \<Rightarrow> kmessage option" where
  "KMessage_new self what =
    do { m \<leftarrow> KMessage_Unset \<lparr>km_self = self, km_addr = 0, km_mem = [], km_capacity = 0, km_flags = 0,
           km_last = 0, km_inline = False\<rparr>;
         KMessage_SetWhat what m }"

definition KMessage_SetTo :: "int \<Rightarrow> kmessage \<Rightarrow> (int \<times> kmessage) option" where
  "KMessage_SetTo what m =
    do { m1 \<leftarrow> KMessage_Unset m; m2 \<leftarrow> KMessage_SetWhat what m1; Some (B_OK, m2) }"

definition KMessage_What :: "kmessage \<Rightarrow> int option" where
  "KMessage_What m = peek_uint32 (km_mem m) 8"

definition KMessage_ContentSize :: "kmessage \<Rightarrow> int option" where
  "KMessage_ContentSize m = peek_int32 (km_mem m) 4"

definition KMessage_Sender :: "kmessage \<Rightarrow> int option" where
  "KMessage_Sender m = peek_int32 (km_mem m) 12"

definition KMessage_TargetToken :: "kmessage \<Rightarrow> int option" where
  "KMessage_TargetToken m = peek_int32 (km_mem m) 16"

definition KMessage_ReplyPort :: "kmessage \<Rightarrow> int option" where
  "KMessage_ReplyPort m = peek_int32 (km_mem m) 20"

definition KMessage_ReplyToken :: "kmessage \<Rightarrow> int option" where
  "KMessage_ReplyToken m = peek_int32 (km_mem m) 24"

definition KMessage_SetDeliveryInfo :: "int \<Rightarrow> int \<Rightarrow> int \<Rightarrow> int \<Rightarrow> kmessage \<Rightarrow> kmessage option" where
  "KMessage_SetDeliveryInfo targetToken replyPort replyToken senderTeam m =
    do { mem \<leftarrow> poke (km_mem m) 12
           (le_bytes 4 senderTeam @ le_bytes 4 targetToken @ le_bytes 4 replyPort @ le_bytes 4 replyToken);
         Some (m\<lparr>km_mem := mem\<rparr>) }"

section \<open>Fields\<close>

text \<open>
  A \<open>KMessageField\<close> is \<open>None\<close> when it is unset, otherwise the offset of its header in the
  message at hand.
\<close>

definition KMessage_FieldHeaderForOffset :: "kmessage \<Rightarrow> int \<Rightarrow> int option option" where
  "KMessage_FieldHeaderForOffset m off =
    do { n \<leftarrow> KMessage_ContentSize m; Some (if off \<le> 0 \<or> off \<ge> n then None else Some off) }"

definition KMessage_LastFieldHeader :: "kmessage \<Rightarrow> int option option" where
  "KMessage_LastFieldHeader m = KMessage_FieldHeaderForOffset m (km_last m)"

definition KMessage_FirstFieldHeader :: "kmessage \<Rightarrow> int" where
  "KMessage_FirstFieldHeader m = Align_address (km_addr m) 28"

definition KMessage_IsEmpty :: "kmessage \<Rightarrow> bool option" where
  "KMessage_IsEmpty m = map_option (\<lambda>h. h = None) (KMessage_LastFieldHeader m)"

definition KMessageField_Header :: "kmessage \<Rightarrow> int option \<Rightarrow> int option option" where
  "KMessageField_Header m f =
    (case f of None \<Rightarrow> Some None | Some off \<Rightarrow> KMessage_FieldHeaderForOffset m off)"

definition KMessageField_Name :: "kmessage \<Rightarrow> int option \<Rightarrow> string option option" where
  "KMessageField_Name m f =
    do { h \<leftarrow> KMessageField_Header m f;
         case h of None \<Rightarrow> Some None | Some off \<Rightarrow> map_option Some (peek_cstr (km_mem m) (off + 18)) }"

definition KMessageField_TypeCode :: "kmessage \<Rightarrow> int option \<Rightarrow> int option" where
  "KMessageField_TypeCode m f =
    do { h \<leftarrow> KMessageField_Header m f;
         case h of None \<Rightarrow> Some 0 | Some off \<Rightarrow> peek_uint32 (km_mem m) off }"

definition KMessageField_ElementSize :: "kmessage \<Rightarrow> int option \<Rightarrow> int option" where
  "KMessageField_ElementSize m f =
    do { h \<leftarrow> KMessageField_Header m f;
         case h of None \<Rightarrow> Some (- 1) | Some off \<Rightarrow> peek_int32 (km_mem m) (off + 4) }"

definition KMessageField_HasFixedElementSize :: "kmessage \<Rightarrow> int option \<Rightarrow> bool option" where
  "KMessageField_HasFixedElementSize m f =
    do { h \<leftarrow> KMessageField_Header m f;
         case h of None \<Rightarrow> Some False
         | Some off \<Rightarrow> map_option (\<lambda>n. n \<ge> 0) (peek_int32 (km_mem m) (off + 4)) }"

definition KMessageField_CountElements :: "kmessage \<Rightarrow> int option \<Rightarrow> int option" where
  "KMessageField_CountElements m f =
    do { h \<leftarrow> KMessageField_Header m f;
         case h of None \<Rightarrow> Some 0 | Some off \<Rightarrow> peek_int32 (km_mem m) (off + 8) }"

text \<open>\<open>FieldValueHeader\<close>: where its data begin, and the next one.\<close>

definition value_data :: "int \<Rightarrow> int \<Rightarrow> int" where
  "value_data a vh = Align_address a (vh + 4)"

primrec skip_values :: "kmessage \<Rightarrow> nat \<Rightarrow> int \<Rightarrow> int option" where
  "skip_values m 0 vh = Some vh"
| "skip_values m (Suc n) vh =
    do { sz \<leftarrow> peek_int32 (km_mem m) vh;
         skip_values m n (Align_address (km_addr m) (value_data (km_addr m) vh + sz)) }"

text \<open>
  \<open>FieldHeader::ElementAt\<close>: the offset and the size of an element. \<open>null\<close> says that the caller
  passes no place for the size, which is then written through a null pointer.
\<close>

definition FieldHeader_ElementAt :: "kmessage \<Rightarrow> int \<Rightarrow> bool \<Rightarrow> int \<Rightarrow> (int \<times> int) option option" where
  "FieldHeader_ElementAt m index null h =
    do { es \<leftarrow> peek_int32 (km_mem m) (h + 4);
         cnt \<leftarrow> peek_int32 (km_mem m) (h + 8);
         hs \<leftarrow> peek_int16 (km_mem m) (h + 16);
         if index < 0 \<or> index \<ge> cnt then Some None
         else if null then None
         else if es \<ge> 0 then
           do { d \<leftarrow> int32_op (es * index); Some (Some (h + hs + d, es)) }
         else
           do { vh \<leftarrow> skip_values m (nat index) (h + hs);
                sz \<leftarrow> peek_int32 (km_mem m) vh;
                Some (Some (value_data (km_addr m) vh, sz)) } }"

definition KMessageField_ElementAt ::
    "kmessage \<Rightarrow> int option \<Rightarrow> int \<Rightarrow> bool \<Rightarrow> (int \<times> int) option option" where
  "KMessageField_ElementAt m f index null =
    do { h \<leftarrow> KMessageField_Header m f;
         case h of None \<Rightarrow> Some None | Some off \<Rightarrow> FieldHeader_ElementAt m index null off }"

definition KMessage_GetNextField :: "kmessage \<Rightarrow> int option \<Rightarrow> (int \<times> int option) option" where
  "KMessage_GetNextField m f =
    do { hdr \<leftarrow> KMessageField_Header m f;
         last \<leftarrow> KMessage_LastFieldHeader m;
         case last of None \<Rightarrow> Some (B_NAME_NOT_FOUND, f)
         | Some l \<Rightarrow>
             (case hdr of None \<Rightarrow> Some (B_OK, Some (KMessage_FirstFieldHeader m))
              | Some h \<Rightarrow>
                  if h < KMessage_FirstFieldHeader m \<or> h > l then Some (B_BAD_VALUE, f)
                  else if h = l then Some (B_NAME_NOT_FOUND, f)
                  else do { sz \<leftarrow> peek_int32 (km_mem m) (h + 12);
                            Some (B_OK, Some (Align_address (km_addr m) (h + sz))) }) }"

partial_function (option) find_field_loop ::
    "kmessage \<Rightarrow> string \<Rightarrow> int \<Rightarrow> int option \<Rightarrow> (int \<times> int option) option" where
  "find_field_loop m name type f =
    do { (st, f') \<leftarrow> KMessage_GetNextField m f;
         if st \<noteq> B_OK then Some (B_NAME_NOT_FOUND, f')
         else
           do { t \<leftarrow> KMessageField_TypeCode m f';
                if type = B_ANY_TYPE \<or> t = type
                then do { n \<leftarrow> KMessageField_Name m f';
                          case n of None \<Rightarrow> None
                          | Some x \<Rightarrow>
                              if x = name then Some (B_OK, f') else find_field_loop m name type f' }
                else find_field_loop m name type f' } }"

definition KMessage_FindField :: "kmessage \<Rightarrow> string option \<Rightarrow> int \<Rightarrow> (int \<times> int option) option" where
  "KMessage_FindField m name type =
    (case name of None \<Rightarrow> Some (B_BAD_VALUE, None) | Some x \<Rightarrow> find_field_loop m x type None)"

section \<open>Adding fields and data\<close>

definition KMessage_CapacityFor :: "int \<Rightarrow> int option" where
  "KMessage_CapacityFor n =
    do { x \<leftarrow> int32_op (n + kMessageReallocChunkSize);
         Some ((x - 1) div kMessageReallocChunkSize * kMessageReallocChunkSize) }"

text \<open>The result is an error or the offset and the size of the space.\<close>

definition KMessage_AllocateSpace ::
    "km_heap \<Rightarrow> int \<Rightarrow> bool \<Rightarrow> bool \<Rightarrow> kmessage \<Rightarrow> ((int + int \<times> int) \<times> kmessage) option" where
  "KMessage_AllocateSpace k n alignAddress alignSize m =
    (if \<not> km_inline m \<and> km_flags m AND KMESSAGE_READ_ONLY \<noteq> 0 then Some (Inl B_NOT_ALLOWED, m)
     else
       do { content \<leftarrow> KMessage_ContentSize m;
            let off = (if alignAddress then Align_offset content else content);
            new0 \<leftarrow> int32_op (off + n);
            let new = (if alignSize then Align_offset new0 else new0);
            let reserve = (\<lambda>m1.
              do { mem \<leftarrow> poke (km_mem m1) 4 (le_bytes 4 new);
                   Some (Inr (off, new - off), m1\<lparr>km_mem := mem\<rparr>) });
            let grow = (\<lambda>fl.
              do { cap \<leftarrow> KMessage_CapacityFor new;
                   if \<not> heap_can k cap then Some (Inl B_NO_MEMORY, m)
                   else reserve (m\<lparr>km_addr := heap_addr k, km_mem := heap_fill k (km_mem m) cap,
                     km_capacity := cap, km_flags := fl, km_inline := False\<rparr>) });
            if km_inline m then grow (km_flags m OR KMESSAGE_OWNS_BUFFER)
            else if new > km_capacity m then
              (if km_flags m AND KMESSAGE_OWNS_BUFFER = 0 then Some (Inl B_BUFFER_OVERFLOW, m)
               else grow (km_flags m))
            else reserve m })"

definition KMessage_PrivAddField ::
    "km_heap \<Rightarrow> string \<Rightarrow> int \<Rightarrow> int \<Rightarrow> kmessage \<Rightarrow> (int \<times> int option \<times> kmessage) option" where
  "KMessage_PrivAddField k name type es m =
    do { (r, m1) \<leftarrow> KMessage_AllocateSpace k (to_int32 (20 + int (length name))) True True m;
         case r of Inl st \<Rightarrow> Some (st, None, m1)
         | Inr (h, sz) \<Rightarrow>
             do { mem \<leftarrow> poke (km_mem m1) h
                    (le_bytes 4 type @ le_bytes 4 es @ le_bytes 4 0 @ le_bytes 4 sz @ le_bytes 2 sz @
                     name @ [CHR 0x00]);
                  Some (B_OK, Some h, m1\<lparr>km_mem := mem, km_last := h\<rparr>) } }"

text \<open>The fields of \<open>FieldHeader\<close> that change when elements are added.\<close>

definition count_elements ::
    "int \<Rightarrow> int \<Rightarrow> int \<Rightarrow> kmessage \<Rightarrow> kmessage option" where
  "count_elements h cnt sz m =
    do { mem1 \<leftarrow> poke (km_mem m) (h + 8) (le_bytes 4 cnt);
         mem2 \<leftarrow> poke mem1 (h + 12) (le_bytes 4 sz);
         Some (m\<lparr>km_mem := mem2\<rparr>) }"

primrec add_values ::
    "km_heap \<Rightarrow> int \<Rightarrow> byte list \<Rightarrow> int \<Rightarrow> int \<Rightarrow> nat \<Rightarrow> kmessage \<Rightarrow> (int \<times> kmessage) option" where
  "add_values k h data es entry 0 m = Some (B_OK, m)"
| "add_values k h data es entry (Suc n) m =
    do { (r, m1) \<leftarrow> KMessage_AllocateSpace k entry True False m;
         case r of Inl st \<Rightarrow> Some (st, m1)
         | Inr (a, sz) \<Rightarrow>
             do { mem1 \<leftarrow> poke (km_mem m1) a (le_bytes 4 es);
                  bs \<leftarrow> peek data 0 es;
                  mem2 \<leftarrow> poke mem1 (value_data (km_addr m1) a) bs;
                  cnt \<leftarrow> peek_int32 mem2 (h + 8);
                  cnt' \<leftarrow> int32_op (cnt + 1);
                  m2 \<leftarrow> count_elements h cnt' (a + sz - h) (m1\<lparr>km_mem := mem2\<rparr>);
                  add_values k h (drop (nat es) data) es entry n m2 } }"

definition KMessage_AddFieldData ::
    "km_heap \<Rightarrow> int option \<Rightarrow> byte list option \<Rightarrow> int \<Rightarrow> int \<Rightarrow> kmessage \<Rightarrow> (int \<times> kmessage) option" where
  "KMessage_AddFieldData k f data es n m =
    do { hdr \<leftarrow> KMessageField_Header m f;
         last \<leftarrow> KMessage_LastFieldHeader m;
         case (hdr, data) of
           (Some h, Some bs) \<Rightarrow>
             if hdr \<noteq> last \<or> es < 0 \<or> n < 0 then Some (B_BAD_VALUE, m)
             else if n = 0 then Some (B_OK, m)
             else
               do { fes \<leftarrow> peek_int32 (km_mem m) (h + 4);
                    cnt \<leftarrow> peek_int32 (km_mem m) (h + 8);
                    if fes \<ge> 0 then
                      (if es \<noteq> fes then Some (B_BAD_VALUE, m)
                       else
                         do { total \<leftarrow> int32_op (es * n);
                              (r, m1) \<leftarrow> KMessage_AllocateSpace k total (cnt = 0) False m;
                              case r of Inl st \<Rightarrow> Some (st, m1)
                              | Inr (a, sz) \<Rightarrow>
                                  do { xs \<leftarrow> peek bs 0 total;
                                       mem1 \<leftarrow> poke (km_mem m1) a xs;
                                       cnt' \<leftarrow> int32_op (cnt + n);
                                       m2 \<leftarrow> count_elements h cnt' (a + sz - h) (m1\<lparr>km_mem := mem1\<rparr>);
                                       Some (B_OK, m2) } })
                    else
                      do { entry \<leftarrow> int32_op (4 + es);
                           add_values k h bs es entry (nat n) m } }
         | _ \<Rightarrow> Some (B_BAD_VALUE, m) }"

definition KMessage_AddField ::
    "km_heap \<Rightarrow> string option \<Rightarrow> int \<Rightarrow> int \<Rightarrow> kmessage \<Rightarrow> (int \<times> int option \<times> kmessage) option" where
  "KMessage_AddField k name type es m =
    (case name of None \<Rightarrow> Some (B_BAD_VALUE, None, m)
     | Some x \<Rightarrow>
         if type = B_ANY_TYPE then Some (B_BAD_VALUE, None, m)
         else
           do { (st, f) \<leftarrow> KMessage_FindField m name B_ANY_TYPE;
                if st = B_OK then Some (B_NAME_IN_USE, None, m) else KMessage_PrivAddField k x type es m })"

text \<open>What \<open>AddData\<close> and \<open>AddArray\<close> have in common: \<open>fs\<close> is the element size of a new field.\<close>

definition add_to_field ::
    "km_heap \<Rightarrow> string \<Rightarrow> int \<Rightarrow> byte list \<Rightarrow> int \<Rightarrow> int \<Rightarrow> int \<Rightarrow> kmessage \<Rightarrow> (int \<times> kmessage) option" where
  "add_to_field k name type data fs es n m =
    do { (st, f) \<leftarrow> KMessage_FindField m (Some name) B_ANY_TYPE;
         if st = B_OK then
           do { t \<leftarrow> KMessageField_TypeCode m f;
                if t \<noteq> type then Some (B_BAD_TYPE, m) else KMessage_AddFieldData k f (Some data) es n m }
         else
           do { (st1, f1, m1) \<leftarrow> KMessage_PrivAddField k name type fs m;
                if st1 \<noteq> B_OK then Some (st1, m1) else KMessage_AddFieldData k f1 (Some data) es n m1 } }"

definition KMessage_AddData ::
    "km_heap \<Rightarrow> string option \<Rightarrow> int \<Rightarrow> byte list option \<Rightarrow> int \<Rightarrow> bool \<Rightarrow> kmessage \<Rightarrow> (int \<times> kmessage) option" where
  "KMessage_AddData k name type data numBytes isFixedSize m =
    (case (name, data) of
       (Some x, Some bs) \<Rightarrow>
         if type = B_ANY_TYPE \<or> numBytes < 0 then Some (B_BAD_VALUE, m)
         else add_to_field k x type bs (if isFixedSize then numBytes else - 1) numBytes 1 m
     | _ \<Rightarrow> Some (B_BAD_VALUE, m))"

definition KMessage_AddArray ::
    "km_heap \<Rightarrow> string option \<Rightarrow> int \<Rightarrow> byte list option \<Rightarrow> int \<Rightarrow> int \<Rightarrow> kmessage \<Rightarrow> (int \<times> kmessage) option" where
  "KMessage_AddArray k name type data es n m =
    (case (name, data) of
       (Some x, Some bs) \<Rightarrow>
         if type = B_ANY_TYPE \<or> es < 0 \<or> n < 0 then Some (B_BAD_VALUE, m)
         else add_to_field k x type bs es es n m
     | _ \<Rightarrow> Some (B_BAD_VALUE, m))"

definition KMessage_SetData ::
    "km_heap \<Rightarrow> string option \<Rightarrow> int \<Rightarrow> byte list option \<Rightarrow> int \<Rightarrow> kmessage \<Rightarrow> (int \<times> kmessage) option" where
  "KMessage_SetData k name type data numBytes m =
    (if \<not> km_inline m \<and> km_flags m AND KMESSAGE_READ_ONLY \<noteq> 0 then Some (B_NOT_ALLOWED, m)
     else
       do { (st, f) \<leftarrow> KMessage_FindField m name B_ANY_TYPE;
            if st = B_OK then
              do { t \<leftarrow> KMessageField_TypeCode m f;
                   fixed \<leftarrow> KMessageField_HasFixedElementSize m f;
                   es \<leftarrow> KMessageField_ElementSize m f;
                   if t \<noteq> type \<or> \<not> fixed \<or> es \<noteq> numBytes then Some (B_BAD_VALUE, m)
                   else
                     do { cnt \<leftarrow> KMessageField_CountElements m f;
                          if cnt > 0 then
                            do { e \<leftarrow> KMessageField_ElementAt m f 0 True;
                                 (a, _) \<leftarrow> e;
                                 src \<leftarrow> data;
                                 bs \<leftarrow> peek src 0 numBytes;
                                 mem \<leftarrow> poke (km_mem m) a bs;
                                 Some (B_OK, m\<lparr>km_mem := mem\<rparr>) }
                          else KMessage_AddFieldData k f data numBytes 1 m } }
            else
              (case name of None \<Rightarrow> None
               | Some x \<Rightarrow>
                   do { (st1, f1, m1) \<leftarrow> KMessage_PrivAddField k x type numBytes m;
                        if st1 \<noteq> B_OK then Some (st1, m1)
                        else KMessage_AddFieldData k f1 data numBytes 1 m1 }) })"

definition KMessageField_AddElements ::
    "km_heap \<Rightarrow> int option \<Rightarrow> byte list option \<Rightarrow> int \<Rightarrow> int \<Rightarrow> kmessage \<Rightarrow> (int \<times> kmessage) option" where
  "KMessageField_AddElements k f data n es m =
    do { h \<leftarrow> KMessageField_Header m f;
         if h = None \<or> data = None \<or> n < 0 then Some (B_BAD_VALUE, m)
         else
           do { own \<leftarrow> KMessageField_ElementSize m f;
                let sz = (if es < 0 then own else es);
                if sz < 0 then Some (B_BAD_VALUE, m) else KMessage_AddFieldData k f data sz n m } }"

definition KMessageField_AddElement ::
    "km_heap \<Rightarrow> int option \<Rightarrow> byte list option \<Rightarrow> int \<Rightarrow> kmessage \<Rightarrow> (int \<times> kmessage) option" where
  "KMessageField_AddElement k f data es m =
    do { h \<leftarrow> KMessageField_Header m f;
         if h = None \<or> data = None then Some (B_BAD_VALUE, m)
         else
           do { own \<leftarrow> KMessageField_ElementSize m f;
                let sz = (if es < 0 then own else es);
                if sz < 0 then Some (B_BAD_VALUE, m) else KMessage_AddFieldData k f data sz 1 m } }"

text \<open>The status, and the offset and size of the element.\<close>

definition KMessage_FindData :: "kmessage \<Rightarrow> string option \<Rightarrow> int \<Rightarrow> int \<Rightarrow> (int + int \<times> int) option" where
  "KMessage_FindData m name type index =
    (if name = None then Some (Inl B_BAD_VALUE)
     else
       do { (st, f) \<leftarrow> KMessage_FindField m name type;
            if st \<noteq> B_OK then Some (Inl st)
            else
              do { e \<leftarrow> KMessageField_ElementAt m f index False;
                   Some (case e of None \<Rightarrow> Inl B_BAD_INDEX | Some r \<Rightarrow> Inr r) } })"

text \<open>
  The inline functions of the header for the usual types. The value read is given by its bytes;
  \<open>FindString\<close> leaves the size of the element open.
\<close>

definition KMessage_AddBool :: "km_heap \<Rightarrow> string option \<Rightarrow> bool \<Rightarrow> kmessage \<Rightarrow> (int \<times> kmessage) option" where
  "KMessage_AddBool k name v m = KMessage_AddData k name B_BOOL_TYPE (Some (le_bytes 1 (if v then 1 else 0))) 1 True m"

definition KMessage_AddInt8 :: "km_heap \<Rightarrow> string option \<Rightarrow> int \<Rightarrow> kmessage \<Rightarrow> (int \<times> kmessage) option" where
  "KMessage_AddInt8 k name v m = KMessage_AddData k name B_INT8_TYPE (Some (le_bytes 1 v)) 1 True m"

definition KMessage_AddInt16 :: "km_heap \<Rightarrow> string option \<Rightarrow> int \<Rightarrow> kmessage \<Rightarrow> (int \<times> kmessage) option" where
  "KMessage_AddInt16 k name v m = KMessage_AddData k name B_INT16_TYPE (Some (le_bytes 2 v)) 2 True m"

definition KMessage_AddInt32 :: "km_heap \<Rightarrow> string option \<Rightarrow> int \<Rightarrow> kmessage \<Rightarrow> (int \<times> kmessage) option" where
  "KMessage_AddInt32 k name v m = KMessage_AddData k name B_INT32_TYPE (Some (le_bytes 4 v)) 4 True m"

definition KMessage_AddInt64 :: "km_heap \<Rightarrow> string option \<Rightarrow> int \<Rightarrow> kmessage \<Rightarrow> (int \<times> kmessage) option" where
  "KMessage_AddInt64 k name v m = KMessage_AddData k name B_INT64_TYPE (Some (le_bytes 8 v)) 8 True m"

definition KMessage_AddPointer :: "km_heap \<Rightarrow> string option \<Rightarrow> int \<Rightarrow> kmessage \<Rightarrow> (int \<times> kmessage) option" where
  "KMessage_AddPointer k name v m = KMessage_AddData k name B_POINTER_TYPE (Some (le_bytes 8 v)) 8 True m"

definition KMessage_AddString ::
    "km_heap \<Rightarrow> string option \<Rightarrow> string option \<Rightarrow> kmessage \<Rightarrow> (int \<times> kmessage) option" where
  "KMessage_AddString k name v m =
    (case v of None \<Rightarrow> Some (B_BAD_VALUE, m)
     | Some x \<Rightarrow> KMessage_AddData k name B_STRING_TYPE (Some (x @ [CHR 0x00])) (to_int32 (int (length x) + 1)) False m)"

definition KMessage_FindType ::
    "kmessage \<Rightarrow> string option \<Rightarrow> int \<Rightarrow> int \<Rightarrow> int \<Rightarrow> (int + byte list) option" where
  "KMessage_FindType m name type index n =
    do { r \<leftarrow> KMessage_FindData m name type index;
         case r of Inl st \<Rightarrow> Some (Inl st)
         | Inr (off, sz) \<Rightarrow>
             if sz \<noteq> n then Some (Inl B_BAD_DATA) else map_option Inr (peek (km_mem m) off n) }"

definition KMessage_FindInt32 :: "kmessage \<Rightarrow> string option \<Rightarrow> int \<Rightarrow> (int + int) option" where
  "KMessage_FindInt32 m name index =
    map_option (map_sum id dec_int32) (KMessage_FindType m name B_INT32_TYPE index 4)"

definition KMessage_FindString :: "kmessage \<Rightarrow> string option \<Rightarrow> int \<Rightarrow> (int + string) option" where
  "KMessage_FindString m name index =
    do { r \<leftarrow> KMessage_FindData m name B_STRING_TYPE index;
         case r of Inl st \<Rightarrow> Some (Inl st) | Inr (off, sz) \<Rightarrow> map_option Inr (peek_cstr (km_mem m) off) }"

definition KMessage_GetInt32 :: "kmessage \<Rightarrow> string option \<Rightarrow> int \<Rightarrow> int \<Rightarrow> int option" where
  "KMessage_GetInt32 m name index defaultValue =
    map_option (\<lambda>r. case r of Inl _ \<Rightarrow> defaultValue | Inr v \<Rightarrow> v) (KMessage_FindInt32 m name index)"

definition KMessage_SetInt32 :: "km_heap \<Rightarrow> string option \<Rightarrow> int \<Rightarrow> kmessage \<Rightarrow> (int \<times> kmessage) option" where
  "KMessage_SetInt32 k name v m = KMessage_SetData k name B_INT32_TYPE (Some (le_bytes 4 v)) 4 m"

section \<open>Messages over a buffer\<close>

text \<open>
  The elements of a field without fixed element size, from the value header \<open>vh\<close> on. The inner
  option is \<open>None\<close> for data that are refused, otherwise the size the field needs.
\<close>

primrec check_values :: "byte list \<Rightarrow> int \<Rightarrow> int \<Rightarrow> int \<Rightarrow> nat \<Rightarrow> int \<Rightarrow> int \<Rightarrow> int option option" where
  "check_values mem a lim data 0 vh need = Some (Some need)"
| "check_values mem a lim data (Suc n) vh need =
    (if to_int32 (lim - vh) < 4 then Some None
     else
       do { sz \<leftarrow> peek_int32 mem vh;
            let v = value_data a vh;
            if to_int32 (lim - v) < sz then Some None
            else check_values mem a lim data n (Align_address a (v + sz)) (to_int32 (v + sz - data)) })"

text \<open>The inner option is \<open>None\<close> for bad data, otherwise the offset of the last field.\<close>

partial_function (option) check_fields :: "byte list \<Rightarrow> int \<Rightarrow> int \<Rightarrow> int \<Rightarrow> int \<Rightarrow> int option option" where
  "check_fields mem a lim data prev =
    (let remaining = to_int32 (lim - data) in
     if \<not> remaining > 0 then Some (Some prev)
     else if remaining < 20 then Some None
     else
       do { type \<leftarrow> peek_uint32 mem data;
            es \<leftarrow> peek_int32 mem (data + 4);
            cnt \<leftarrow> peek_int32 mem (data + 8);
            fs \<leftarrow> peek_int32 mem (data + 12);
            hs \<leftarrow> peek_int16 mem (data + 16);
            if type = B_ANY_TYPE \<or> cnt < 0 \<or> fs < 20 \<or> fs > remaining \<or> hs < 20 \<or> hs > fs then Some None
            else
              do { bs \<leftarrow> peek mem (data + 18) (hs - 18);
                   let nameLen = int (length (cstr bs));
                   if nameLen = hs - 18 \<or> nameLen = 0 then Some None
                   else
                     do { ok \<leftarrow>
                            (if es \<ge> 0 then map_option (\<lambda>_. True) (int32_op (es * cnt))
                             else map_option (\<lambda>r. case r of None \<Rightarrow> False | Some need \<Rightarrow> need \<le> fs)
                               (check_values mem a lim data (nat cnt) (data + hs) hs));
                          if \<not> ok then Some None
                          else check_fields mem a lim (Align_address a (data + fs)) data } } })"

definition KMessage_InitFromBuffer :: "km_heap \<Rightarrow> bool \<Rightarrow> kmessage \<Rightarrow> (int \<times> kmessage) option" where
  "KMessage_InitFromBuffer k sizeFromBuffer m =
    do { (st, m1) \<leftarrow>
           (if km_flags m AND KMESSAGE_CLONE_BUFFER \<noteq> 0 \<or> Align_address (km_addr m) 0 \<noteq> 0 then
              do { cap \<leftarrow> (if sizeFromBuffer then peek_int32 (km_mem m) 4 else Some (km_capacity m));
                   if cap < 0 \<or> \<not> heap_can k cap then Some (B_NO_MEMORY, m\<lparr>km_capacity := cap\<rparr>)
                   else
                     do { bs \<leftarrow> peek (km_mem m) 0 cap;
                          Some (B_OK, m\<lparr>km_capacity := cap, km_addr := heap_addr k, km_mem := bs,
                            km_flags := km_flags m AND NOT (KMESSAGE_READ_ONLY OR KMESSAGE_CLONE_BUFFER)
                              OR KMESSAGE_OWNS_BUFFER\<rparr>) } }
            else Some (B_OK, m));
         if st \<noteq> B_OK then Some (st, m1)
         else if Align_address (km_addr m1) 0 \<noteq> 0 then Some (B_BAD_DATA, m1)
         else
           do { cap \<leftarrow> (if sizeFromBuffer then KMessage_ContentSize m1 else Some (km_capacity m1));
                let m2 = m1\<lparr>km_capacity := cap\<rparr>;
                if cap < 28 then Some (B_BAD_DATA, m2)
                else
                  do { magic \<leftarrow> peek_uint32 (km_mem m2) 0;
                       lim \<leftarrow> KMessage_ContentSize m2;
                       if magic \<noteq> kMessageHeaderMagic \<or> lim < 28 \<or> lim > cap then Some (B_BAD_DATA, m2)
                       else
                         do { r \<leftarrow> check_fields (km_mem m2) (km_addr m2) lim
                                  (KMessage_FirstFieldHeader m2) (- 1);
                              Some (case r of None \<Rightarrow> (B_BAD_DATA, m2)
                                    | Some l \<Rightarrow> (B_OK, m2\<lparr>km_last := l\<rparr>)) } } } }"

text \<open>\<open>buf\<close> is the address of the buffer and the memory from there on, or NULL.\<close>

definition KMessage_SetTo_buffer ::
    "km_heap \<Rightarrow> (int \<times> byte list) option \<Rightarrow> int \<Rightarrow> int \<Rightarrow> int \<Rightarrow> kmessage \<Rightarrow> (int \<times> kmessage) option" where
  "KMessage_SetTo_buffer k buf bufferSize what flags m =
    do { m0 \<leftarrow> KMessage_Unset m;
         let init = (flags AND KMESSAGE_INIT_FROM_BUFFER \<noteq> 0);
         case buf of None \<Rightarrow> Some (B_BAD_VALUE, m0)
         | Some (addr, mem) \<Rightarrow>
             if (if bufferSize < 0 then \<not> init else bufferSize < 28) then Some (B_BAD_VALUE, m0)
             else if flags AND KMESSAGE_READ_ONLY \<noteq> 0 \<and> \<not> init then Some (B_BAD_VALUE, m0)
             else if \<not> init \<and> flags AND KMESSAGE_CLONE_BUFFER \<noteq> 0 then Some (B_BAD_VALUE, m0)
             else
               do { let m1 = m0\<lparr>km_addr := addr, km_mem := mem, km_capacity := bufferSize,
                      km_flags := flags, km_inline := False\<rparr>;
                    (st, m2) \<leftarrow>
                      (if init then KMessage_InitFromBuffer k (bufferSize < 0) m1
                       else do { m2 \<leftarrow> KMessage_InitBuffer what m1; Some (B_OK, m2) });
                    if st \<noteq> B_OK then do { m3 \<leftarrow> KMessage_Unset m2; Some (st, m3) } else Some (st, m2) } }"

definition KMessage_SetTo_const ::
    "km_heap \<Rightarrow> (int \<times> byte list) option \<Rightarrow> int \<Rightarrow> int \<Rightarrow> kmessage \<Rightarrow> (int \<times> kmessage) option" where
  "KMessage_SetTo_const k buf bufferSize flags m =
    KMessage_SetTo_buffer k buf bufferSize 0
      (KMESSAGE_INIT_FROM_BUFFER OR KMESSAGE_READ_ONLY OR flags) m"

section \<open>Reading and writing bytes\<close>

lemma align4_eq: "align4 x = x + 3 - (x + 3) mod 4"
proof -
  have "(x + 3) AND NOT 3 = (x + 3) - ((x + 3) AND 3)"
  proof -
    have "y AND NOT (y AND z) = y AND NOT z" for y z :: int
      by (rule bit_eqI) (auto simp: bit_and_iff bit_or_iff bit_not_iff)
    moreover have "(x + 3) - ((x + 3) AND 3) = (x + 3) AND NOT ((x + 3) AND 3)"
      by (rule disjunctive_diff) (simp add: bit_and_iff)
    ultimately show ?thesis by metis
  qed
  moreover have "(x + 3) AND 3 = (x + 3) mod 4"
    using take_bit_eq_mask [of 2 "x + 3"] by (simp add: take_bit_eq_mod mask_eq_exp_minus_1)
  ultimately show ?thesis by (simp add: align4_def)
qed

lemma align4_bounds: "x \<le> align4 x" "align4 x \<le> x + 3" "align4 x mod 4 = 0"
  unfolding align4_eq by presburger+

lemma align4_id [simp]: "x mod 4 = 0 \<Longrightarrow> align4 x = x"
  unfolding align4_eq by presburger

lemma Align_address_aligned: "a mod 4 = 0 \<Longrightarrow> Align_address a x = align4 x"
  unfolding Align_address_def align4_eq by presburger

definition holds :: "byte list \<Rightarrow> int \<Rightarrow> byte list \<Rightarrow> bool" where
  "holds bs off xs \<longleftrightarrow> peek bs off (int (length xs)) = Some xs"

lemma holds_nth:
  "holds bs off xs \<longleftrightarrow> 0 \<le> off \<and> off + int (length xs) \<le> int (length bs) \<and>
    (\<forall>i<length xs. bs ! (nat off + i) = xs ! i)"
proof (cases "0 \<le> off \<and> off + int (length xs) \<le> int (length bs)")
  case True
  then have len: "length xs \<le> length bs - nat off" "nat off \<le> length bs" by linarith+
  have "take (length xs) (drop (nat off) bs) = xs \<longleftrightarrow> (\<forall>i<length xs. bs ! (nat off + i) = xs ! i)"
    using len by (subst list_eq_iff_nth_eq) simp
  then show ?thesis using True by (simp add: holds_def peek_def)
qed (auto simp: holds_def peek_def)

lemma holds_bounds: "holds bs off xs \<Longrightarrow> 0 \<le> off \<and> off + int (length xs) \<le> int (length bs)"
  by (simp add: holds_nth)

lemma holds_append:
  "holds bs off (xs @ ys) \<longleftrightarrow> holds bs off xs \<and> holds bs (off + int (length xs)) ys"
proof (cases "0 \<le> off")
  case True
  then have n: "nat (off + int (length xs)) = nat off + length xs" by simp
  have "(\<forall>i<length (xs @ ys). bs ! (nat off + i) = (xs @ ys) ! i) \<longleftrightarrow>
      (\<forall>i<length xs. bs ! (nat off + i) = xs ! i) \<and> (\<forall>i<length ys. bs ! (nat off + length xs + i) = ys ! i)"
    (is "?A \<longleftrightarrow> ?B \<and> ?C")
  proof (intro iffI conjI allI impI)
    fix i assume ?A "i < length xs"
    then show "bs ! (nat off + i) = xs ! i" by (metis length_append nth_append trans_less_add1)
  next
    fix i assume A: ?A "i < length ys"
    then show "bs ! (nat off + length xs + i) = ys ! i"
      using A(1) [rule_format, of "length xs + i"] by (simp add: add.assoc)
  next
    fix i assume BC: "?B \<and> ?C" "i < length (xs @ ys)"
    show "bs ! (nat off + i) = (xs @ ys) ! i"
    proof (cases "i < length xs")
      case False
      then have "i - length xs < length ys" using BC(2) by auto
      then show ?thesis
        using BC(1) False by (auto simp: nth_append dest!: conjunct2 spec [of _ "i - length xs"])
    qed (use BC(1) in \<open>simp add: nth_append\<close>)
  qed
  then show ?thesis using True unfolding holds_nth n by auto
qed (auto simp: holds_nth)

lemma poke_Some:
  assumes "0 \<le> off" "off + int (length xs) \<le> int (length bs)"
  obtains bs' where "poke bs off xs = Some bs'" "length bs' = length bs" "holds bs' off xs"
    "\<And>o' ys. o' + int (length ys) \<le> off \<or> off + int (length xs) \<le> o' \<Longrightarrow> holds bs' o' ys = holds bs o' ys"
proof -
  let ?bs = "take (nat off) bs @ xs @ drop (nat off + length xs) bs"
  have "poke bs off xs = Some ?bs" using assms by (simp add: poke_def)
  moreover have len: "length ?bs = length bs" using assms by simp
  moreover have "holds ?bs off xs" using assms len unfolding holds_nth by (simp add: nth_append)
  moreover have "holds ?bs o' ys = holds bs o' ys"
    if d: "o' + int (length ys) \<le> off \<or> off + int (length xs) \<le> o'" for o' ys
  proof -
    have other: "?bs ! j = bs ! j" if "j < nat off \<or> nat off + length xs \<le> j" "j < length bs" for j
    proof (cases "j < nat off")
      case False
      have len2: "length (take (nat off) bs @ xs) = nat off + length xs" using assms by simp
      have "((take (nat off) bs @ xs) @ drop (nat off + length xs) bs) ! j = bs ! j"
        using that False assms by (subst nth_append, subst len2) simp
      then show ?thesis by simp
    qed (use assms in \<open>simp add: nth_append\<close>)
    have "?bs ! (nat o' + i) = bs ! (nat o' + i)"
      if "0 \<le> o'" "o' + int (length ys) \<le> int (length bs)" "i < length ys" for i
      using d that assms(1) by (intro other) linarith+
    then show ?thesis unfolding holds_nth len by auto
  qed
  ultimately show ?thesis using that by blast
qed

lemma holds_heap_fill:
  assumes "off + int (length xs) \<le> n" "off + int (length xs) \<le> int (length bs)"
  shows "holds (heap_fill k bs n) off xs = holds bs off xs"
proof -
  have "heap_fill k bs n ! (nat off + i) = bs ! (nat off + i)" if "0 \<le> off" "i < length xs" for i
    using that assms by (subst heap_fill_def, subst nth_append) (simp, linarith)
  moreover have "int (length (heap_fill k bs n)) \<ge> min n (int (length bs))" by (simp add: heap_fill_def)
  ultimately show ?thesis using assms unfolding holds_nth by auto
qed

lemma holds_take:
  assumes "off + int (length xs) \<le> int n"
  shows "holds (take n bs) off xs = holds bs off xs"
  using assms unfolding holds_nth by auto

lemma length_heap_fill: "int (length bs) \<le> n \<Longrightarrow> int (length (heap_fill k bs n)) = n"
  by (simp add: heap_fill_def)

lemma is_int32_nonneg: "0 \<le> x \<Longrightarrow> x \<le> INT_MAX \<Longrightarrow> is_int32 x"
  by (simp add: is_int32_def)

lemma peek_int32_holds: "holds bs off (le_bytes 4 x) \<Longrightarrow> is_int32 x \<Longrightarrow> peek_int32 bs off = Some x"
  by (simp add: holds_def peek_int32_def dec_int32_le_bytes)

lemma peek_uint32_holds:
  "holds bs off (le_bytes 4 x) \<Longrightarrow> 0 \<le> x \<Longrightarrow> x < 2 ^ 32 \<Longrightarrow> peek_uint32 bs off = Some x"
  using le_val_le_bytes [of 4 x] by (simp add: holds_def peek_uint32_def)

lemma peek_int16_holds:
  assumes "holds bs off (le_bytes 2 x)" "0 \<le> x" "x < 2 ^ 15"
  shows "peek_int16 bs off = Some x"
proof -
  have "le_val (le_bytes 2 x) = x" using le_val_le_bytes [of 2 x] assms(2,3) by simp
  then show ?thesis
    using assms by (simp add: holds_def peek_int16_def signed_take_bit_int_eq_self)
qed

lemma peek_cstr_holds:
  assumes "holds bs off (x @ [CHR 0x00])" "CHR 0x00 \<notin> set x"
  shows "peek_cstr bs off = Some x"
proof -
  have b: "0 \<le> off" "off + int (length x) + 1 \<le> int (length bs)"
    using holds_bounds [OF assms(1)] by auto
  have "take (Suc (length x)) (drop (nat off) bs) = x @ [CHR 0x00]"
    using assms(1) b unfolding holds_def peek_def by (simp add: nat_add_distrib split: if_splits)
  then obtain rest where "drop (nat off) bs = x @ [CHR 0x00] @ rest"
    by (metis append.assoc append_take_drop_id)
  then show ?thesis
    using b assms(2) by (simp add: peek_cstr_def cstr_def takeWhile_append)
qed

section \<open>What a buffer stands for\<close>

text \<open>
  A message stands for the list of its fields: the name, the type, the size of its elements (negative
  when every element has its own) and the elements. \<open>fields_at\<close> says that the buffer has them from
  an offset on, \<open>fields_end\<close> is where they end.
\<close>

record kfield =
  kf_name :: string
  kf_type :: int
  kf_size :: int
  kf_values :: "byte list list"

definition value_end :: "int \<Rightarrow> int \<Rightarrow> byte list \<Rightarrow> int" where
  "value_end es off v = (if es \<ge> 0 then off + es else align4 off + 4 + int (length v))"

definition value_at :: "byte list \<Rightarrow> int \<Rightarrow> int \<Rightarrow> byte list \<Rightarrow> bool" where
  "value_at mem es off v \<longleftrightarrow>
    (if es \<ge> 0 then int (length v) = es \<and> holds mem off v
     else holds mem (align4 off) (le_bytes 4 (int (length v))) \<and> holds mem (align4 off + 4) v)"

primrec values_end :: "int \<Rightarrow> int \<Rightarrow> byte list list \<Rightarrow> int" where
  "values_end es off [] = off"
| "values_end es off (v # vs) = values_end es (value_end es off v) vs"

primrec values_at :: "byte list \<Rightarrow> int \<Rightarrow> int \<Rightarrow> byte list list \<Rightarrow> bool" where
  "values_at mem es off [] \<longleftrightarrow> True"
| "values_at mem es off (v # vs) \<longleftrightarrow> value_at mem es off v \<and> values_at mem es (value_end es off v) vs"

definition header_size :: "kfield \<Rightarrow> int" where
  "header_size f = align4 (20 + int (length (kf_name f)))"

definition field_end :: "int \<Rightarrow> kfield \<Rightarrow> int" where
  "field_end h f = values_end (kf_size f) (h + header_size f) (kf_values f)"

definition field_at :: "byte list \<Rightarrow> int \<Rightarrow> kfield \<Rightarrow> bool" where
  "field_at mem h f \<longleftrightarrow>
    holds mem h (le_bytes 4 (kf_type f)) \<and> holds mem (h + 4) (le_bytes 4 (kf_size f)) \<and>
    holds mem (h + 8) (le_bytes 4 (int (length (kf_values f)))) \<and>
    holds mem (h + 12) (le_bytes 4 (field_end h f - h)) \<and>
    holds mem (h + 16) (le_bytes 2 (header_size f)) \<and> holds mem (h + 18) (kf_name f @ [CHR 0x00]) \<and>
    values_at mem (kf_size f) (h + header_size f) (kf_values f)"

primrec fields_end :: "int \<Rightarrow> kfield list \<Rightarrow> int" where
  "fields_end off [] = off"
| "fields_end off (f # fs) = fields_end (field_end (align4 off) f) fs"

primrec fields_at :: "byte list \<Rightarrow> int \<Rightarrow> kfield list \<Rightarrow> bool" where
  "fields_at mem off [] \<longleftrightarrow> True"
| "fields_at mem off (f # fs) \<longleftrightarrow> field_at mem (align4 off) f \<and> fields_at mem (field_end (align4 off) f) fs"

text \<open>What the fields themselves have to satisfy; 32744 keeps the size of a header in an \<open>int16\<close>.\<close>

definition field_ok :: "kfield \<Rightarrow> bool" where
  "field_ok f \<longleftrightarrow> kf_name f \<noteq> [] \<and> CHR 0x00 \<notin> set (kf_name f) \<and> length (kf_name f) < 32744 \<and>
    kf_type f \<noteq> B_ANY_TYPE \<and> 0 \<le> kf_type f \<and> kf_type f < 2 ^ 32 \<and> is_int32 (kf_size f) \<and>
    int (length (kf_values f)) \<le> INT_MAX \<and>
    (kf_size f \<ge> 0 \<longrightarrow> (\<forall>v\<in>set (kf_values f). int (length v) = kf_size f))"

text \<open>The offset of the field after the fields \<open>fs\<close>.\<close>

definition next_pos :: "kfield list \<Rightarrow> int" where
  "next_pos fs = align4 (fields_end 28 fs)"

definition message_repr :: "kmessage \<Rightarrow> byte list \<Rightarrow> kfield list \<Rightarrow> bool" where
  "message_repr m info fs \<longleftrightarrow>
    holds (km_mem m) 0 (le_bytes 4 kMessageHeaderMagic) \<and>
    holds (km_mem m) 4 (le_bytes 4 (fields_end 28 fs)) \<and>
    length info = 20 \<and> holds (km_mem m) 8 info \<and>
    fields_at (km_mem m) 28 fs \<and> (\<forall>f\<in>set fs. field_ok f) \<and>
    (if fs = [] then km_last m \<le> 0 else km_last m = next_pos (butlast fs)) \<and>
    km_addr m mod 4 = 0 \<and> km_self m mod 4 = 0 \<and> (km_inline m \<longrightarrow> km_capacity m = 28) \<and>
    fields_end 28 fs \<le> km_capacity m \<and> km_capacity m = int (length (km_mem m)) \<and> km_capacity m \<le> INT_MAX"

lemma values_end_append: "values_end es off (us @ vs) = values_end es (values_end es off us) vs"
  by (induction us arbitrary: off) auto

lemma values_at_append:
  "values_at mem es off (us @ vs) \<longleftrightarrow> values_at mem es off us \<and> values_at mem es (values_end es off us) vs"
  by (induction us arbitrary: off) auto

lemma fields_end_append [simp]: "fields_end off (fs @ gs) = fields_end (fields_end off fs) gs"
  by (induction fs arbitrary: off) auto

lemma fields_at_append [simp]:
  "fields_at mem off (fs @ gs) \<longleftrightarrow> fields_at mem off fs \<and> fields_at mem (fields_end off fs) gs"
  by (induction fs arbitrary: off) auto

lemma value_end_le: "off \<le> value_end es off v"
  using align4_bounds(1) [of off] by (simp add: value_end_def)

lemma values_end_le: "off \<le> values_end es off vs"
  by (induction vs arbitrary: off) (auto intro: order_trans [OF value_end_le])

lemma header_size_bounds:
  "20 + int (length (kf_name f)) \<le> header_size f" "header_size f \<le> 23 + int (length (kf_name f))"
  "header_size f mod 4 = 0"
  using align4_bounds [of "20 + int (length (kf_name f))"] by (simp_all add: header_size_def)

lemma field_end_le: "h + header_size f \<le> field_end h f"
  by (simp add: field_end_def values_end_le)

lemma field_end_gt: "h + 20 \<le> field_end h f"
  using field_end_le [of h f] header_size_bounds(1) [of f] by linarith

lemma fields_end_le: "off \<le> fields_end off fs"
proof (induction fs arbitrary: off)
  case (Cons f fs)
  have "off \<le> field_end (align4 off) f" using align4_bounds(1) [of off] field_end_gt [of "align4 off" f] by linarith
  also have "\<dots> \<le> fields_end (field_end (align4 off) f) fs" by (rule Cons.IH)
  finally show ?case by simp
qed simp

lemma values_end_fixed: "es \<ge> 0 \<Longrightarrow> values_end es off vs = off + es * int (length vs)"
  by (induction vs arbitrary: off) (simp_all add: value_end_def algebra_simps)

text \<open>What lies in front of \<open>lim\<close> only depends on the bytes there.\<close>

lemma value_at_cong:
  assumes "\<And>o' xs. lo \<le> o' \<Longrightarrow> o' + int (length xs) \<le> lim \<Longrightarrow> holds mem' o' xs = holds mem o' xs"
    and "lo \<le> off" "value_end es off v \<le> lim"
  shows "value_at mem' es off v = value_at mem es off v"
  using assms align4_bounds(1) [of off] by (auto simp: value_at_def value_end_def)

lemma values_at_cong:
  assumes "\<And>o' xs. lo \<le> o' \<Longrightarrow> o' + int (length xs) \<le> lim \<Longrightarrow> holds mem' o' xs = holds mem o' xs"
    and "lo \<le> off" "values_end es off vs \<le> lim"
  shows "values_at mem' es off vs = values_at mem es off vs"
  using assms(2,3)
proof (induction vs arbitrary: off)
  case (Cons v vs)
  have "value_end es off v \<le> lim" using Cons.prems(2) values_end_le [of "value_end es off v" es vs] by simp
  then have "value_at mem' es off v = value_at mem es off v"
    using value_at_cong [OF assms(1) Cons.prems(1)] by blast
  moreover have "lo \<le> value_end es off v" using Cons.prems(1) value_end_le [of off es v] by linarith
  ultimately show ?case using Cons by simp
qed simp

lemma field_at_cong:
  assumes "\<And>o' xs. lo \<le> o' \<Longrightarrow> o' + int (length xs) \<le> lim \<Longrightarrow> holds mem' o' xs = holds mem o' xs"
    and "lo \<le> h" "field_end h f \<le> lim"
  shows "field_at mem' h f = field_at mem h f"
proof -
  have b: "h + 20 + int (length (kf_name f)) \<le> lim"
    using header_size_bounds(1) [of f] field_end_le [of h f] assms(3) by linarith
  have "values_at mem' (kf_size f) (h + header_size f) (kf_values f) =
      values_at mem (kf_size f) (h + header_size f) (kf_values f)"
    using assms header_size_bounds(1) [of f] by (intro values_at_cong [of lo lim]) (auto simp: field_end_def)
  then show ?thesis
    unfolding field_at_def using b assms(2) by (simp add: assms(1))
qed

lemma fields_at_cong:
  assumes "\<And>o' xs. lo \<le> o' \<Longrightarrow> o' + int (length xs) \<le> lim \<Longrightarrow> holds mem' o' xs = holds mem o' xs"
    and "lo \<le> off" "fields_end off fs \<le> lim"
  shows "fields_at mem' off fs = fields_at mem off fs"
  using assms(2,3)
proof (induction fs arbitrary: off)
  case (Cons f fs)
  let ?e = "field_end (align4 off) f"
  have le: "lo \<le> align4 off" "?e \<le> lim" "lo \<le> ?e"
    using Cons.prems align4_bounds(1) [of off] fields_end_le [of ?e fs] field_end_gt [of "align4 off" f]
    by auto
  have "field_at mem' (align4 off) f = field_at mem (align4 off) f"
    using field_at_cong [OF assms(1) le(1,2)] by blast
  then show ?case using Cons.IH [OF le(3)] Cons.prems(2) by simp
qed simp

section \<open>Reading a message\<close>

lemma message_content_size:
  assumes "message_repr m info fs"
  shows "KMessage_ContentSize m = Some (fields_end 28 fs)" "28 \<le> fields_end 28 fs"
proof -
  show le: "28 \<le> fields_end 28 fs" by (rule fields_end_le)
  have "fields_end 28 fs \<le> INT_MAX" using assms unfolding message_repr_def by linarith
  then show "KMessage_ContentSize m = Some (fields_end 28 fs)"
    using assms le unfolding message_repr_def KMessage_ContentSize_def
    by (intro peek_int32_holds) (auto simp: is_int32_def)
qed

lemma next_pos_snoc: "next_pos (fs @ [f]) = align4 (field_end (next_pos fs) f)"
  by (simp add: next_pos_def)

lemma next_pos_bounds: "28 \<le> next_pos fs" "fields_end 28 fs \<le> next_pos fs" "next_pos fs mod 4 = 0"
  using fields_end_le [of 28 fs] align4_bounds [of "fields_end 28 fs"] by (simp_all add: next_pos_def)

lemma fields_split:
  "field_end (next_pos pre) f \<le> fields_end 28 (pre @ f # post)"
  "next_pos pre + 20 \<le> field_end (next_pos pre) f"
  "next_pos pre < next_pos (pre @ f # post)"
proof -
  show le: "field_end (next_pos pre) f \<le> fields_end 28 (pre @ f # post)"
    by (simp add: next_pos_def fields_end_le)
  show gt: "next_pos pre + 20 \<le> field_end (next_pos pre) f" by (rule field_end_gt)
  show "next_pos pre < next_pos (pre @ f # post)"
    using le gt next_pos_bounds(2) [of "pre @ f # post"] by linarith
qed

lemma message_field:
  assumes "message_repr m info (pre @ f # post)"
  shows "field_at (km_mem m) (next_pos pre) f" "field_ok f"
    "KMessage_FieldHeaderForOffset m (next_pos pre) = Some (Some (next_pos pre))"
proof -
  show "field_at (km_mem m) (next_pos pre) f" "field_ok f"
    using assms by (simp_all add: message_repr_def next_pos_def)
  have "0 < next_pos pre" "next_pos pre < fields_end 28 (pre @ f # post)"
    using next_pos_bounds(1) [of pre] fields_split(1) [of pre f post] fields_split(2) [of pre f] by linarith+
  then show "KMessage_FieldHeaderForOffset m (next_pos pre) = Some (Some (next_pos pre))"
    by (simp add: KMessage_FieldHeaderForOffset_def message_content_size(1) [OF assms])
qed

lemma message_last_field:
  assumes "message_repr m info fs"
  shows "KMessage_LastFieldHeader m = Some (if fs = [] then None else Some (next_pos (butlast fs)))"
proof (cases fs rule: rev_cases)
  case Nil
  then have "km_last m \<le> 0" using assms by (simp add: message_repr_def)
  then show ?thesis
    using Nil by (simp add: KMessage_LastFieldHeader_def KMessage_FieldHeaderForOffset_def
        message_content_size(1) [OF assms])
next
  case (snoc pre f)
  then have "km_last m = next_pos pre" using assms by (simp add: message_repr_def)
  then show ?thesis
    using message_field(3) [of m info pre f "[]"] assms snoc by (simp add: KMessage_LastFieldHeader_def)
qed

lemma message_first_field: "message_repr m info fs \<Longrightarrow> KMessage_FirstFieldHeader m = 28"
  by (simp add: KMessage_FirstFieldHeader_def message_repr_def Align_address_aligned)

text \<open>The field that a walk through the message is at when it has seen \<open>pre\<close>.\<close>

definition walk_pos :: "kfield list \<Rightarrow> int option" where
  "walk_pos pre = (if pre = [] then None else Some (next_pos (butlast pre)))"

lemma walk_pos_simps [simp]: "walk_pos [] = None" "walk_pos (pre @ [f]) = Some (next_pos pre)"
  by (simp_all add: walk_pos_def)

lemma field_header_ints:
  assumes "field_at mem h f" "field_ok f" "field_end h f - h \<le> INT_MAX"
  shows "peek_uint32 mem h = Some (kf_type f)" "peek_int32 mem (h + 4) = Some (kf_size f)"
    "peek_int32 mem (h + 8) = Some (int (length (kf_values f)))"
    "peek_int32 mem (h + 12) = Some (field_end h f - h)" "peek_int16 mem (h + 16) = Some (header_size f)"
    "peek_cstr mem (h + 18) = Some (kf_name f)"
proof -
  note at = assms(1) [unfolded field_at_def] and ok = assms(2) [unfolded field_ok_def]
  show "peek_uint32 mem h = Some (kf_type f)" using at ok by (intro peek_uint32_holds) auto
  show "peek_int32 mem (h + 4) = Some (kf_size f)" using at ok by (intro peek_int32_holds) auto
  show "peek_int32 mem (h + 8) = Some (int (length (kf_values f)))"
    using at ok by (intro peek_int32_holds) (auto simp: is_int32_def)
  show "peek_int32 mem (h + 12) = Some (field_end h f - h)"
    using at assms(3) field_end_gt [of h f] by (intro peek_int32_holds) (auto simp: is_int32_def)
  have "0 \<le> header_size f" "header_size f < 2 ^ 15"
    using header_size_bounds(1,2) [of f] ok by simp_all
  then show "peek_int16 mem (h + 16) = Some (header_size f)"
    using at by (intro peek_int16_holds) auto
  show "peek_cstr mem (h + 18) = Some (kf_name f)" using at ok by (intro peek_cstr_holds) auto
qed

lemma message_field_ints:
  assumes "message_repr m info (pre @ f # post)"
  shows "field_end (next_pos pre) f - next_pos pre \<le> INT_MAX"
proof -
  have "fields_end 28 (pre @ f # post) \<le> INT_MAX" using assms unfolding message_repr_def by linarith
  then show ?thesis
    using fields_split(1) [of pre f post] next_pos_bounds(1) [of pre] by linarith
qed

lemma get_next_field:
  assumes "message_repr m info (pre @ post)"
  shows "KMessage_GetNextField m (walk_pos pre) =
    Some (if post = [] then (B_NAME_NOT_FOUND, walk_pos pre) else (B_OK, Some (next_pos pre)))"
proof -
  note last = message_last_field [OF assms] and first = message_first_field [OF assms]
  show ?thesis
  proof (cases pre rule: rev_cases)
    case Nil
    then show ?thesis
      using last first by (simp add: KMessage_GetNextField_def KMessageField_Header_def next_pos_def)
  next
    case (snoc qs f)
    have msg: "message_repr m info (qs @ f # post)" using assms snoc by simp
    note fld = message_field [OF msg]
    note ints = field_header_ints [OF fld(1,2) message_field_ints [OF msg]]
    have hdr: "KMessageField_Header m (walk_pos pre) = Some (Some (next_pos qs))"
      using snoc fld(3) by (simp add: KMessageField_Header_def)
    show ?thesis
    proof (cases "post = []")
      case True
      then show ?thesis
        using last first snoc hdr next_pos_bounds(1) [of qs]
        by (simp add: KMessage_GetNextField_def)
    next
      case False
      have lt: "next_pos qs < next_pos (qs @ f # butlast post)" by (rule fields_split(3))
      have "km_addr m mod 4 = 0" using msg by (simp add: message_repr_def)
      then have "Align_address (km_addr m) (next_pos qs + (field_end (next_pos qs) f - next_pos qs)) = next_pos pre"
        using snoc by (simp add: Align_address_aligned next_pos_snoc)
      then show ?thesis
        using last first snoc hdr False lt next_pos_bounds(1) [of qs] ints(4)
        by (simp add: KMessage_GetNextField_def butlast_append)
    qed
  qed
qed

definition field_is :: "string \<Rightarrow> int \<Rightarrow> kfield \<Rightarrow> bool" where
  "field_is name type f \<longleftrightarrow> (type = B_ANY_TYPE \<or> kf_type f = type) \<and> kf_name f = name"

lemma find_field_loop_ok:
  assumes "message_repr m info (pre @ post)"
  shows "find_field_loop m name type (walk_pos pre) =
    Some (if \<exists>f\<in>set post. field_is name type f
      then (B_OK, Some (next_pos (pre @ takeWhile (\<lambda>f. \<not> field_is name type f) post)))
      else (B_NAME_NOT_FOUND, walk_pos (pre @ post)))"
  using assms
proof (induction post arbitrary: pre)
  case Nil
  have "B_NAME_NOT_FOUND \<noteq> B_OK" by (simp add: status_codes)
  then show ?case
    using get_next_field [OF Nil] by (simp add: find_field_loop.simps [of m name type "walk_pos pre"])
next
  case (Cons f post)
  note fld = message_field [OF Cons.prems]
  note ints = field_header_ints [OF fld(1,2) message_field_ints [OF Cons.prems]]
  have IH: "find_field_loop m name type (Some (next_pos pre)) =
    Some (if \<exists>f\<in>set post. field_is name type f
      then (B_OK, Some (next_pos (pre @ f # takeWhile (\<lambda>f. \<not> field_is name type f) post)))
      else (B_NAME_NOT_FOUND, walk_pos (pre @ f # post)))"
    using Cons.IH [of "pre @ [f]"] Cons.prems by (simp cong: if_cong)
  have "find_field_loop m name type (walk_pos pre) =
      (if field_is name type f then Some (B_OK, Some (next_pos pre))
       else find_field_loop m name type (Some (next_pos pre)))"
    using get_next_field [OF Cons.prems] ints(1,6) fld(3)
    by (subst find_field_loop.simps)
      (simp add: KMessageField_TypeCode_def KMessageField_Name_def KMessageField_Header_def field_is_def)
  then show ?case using IH by (simp cong: if_cong)
qed

lemma find_field_ok:
  assumes "message_repr m info fs"
  shows "KMessage_FindField m (Some name) type =
    Some (if \<exists>f\<in>set fs. field_is name type f
      then (B_OK, Some (next_pos (takeWhile (\<lambda>f. \<not> field_is name type f) fs)))
      else (B_NAME_NOT_FOUND, walk_pos fs))"
  using find_field_loop_ok [of m info "[]" fs name type] assms
  by (simp add: KMessage_FindField_def cong: if_cong)

text \<open>The offset of the \<open>i\<close>th element of a field that is at \<open>h\<close>.\<close>

definition value_pos :: "int \<Rightarrow> kfield \<Rightarrow> nat \<Rightarrow> int" where
  "value_pos h f i =
    (let off = values_end (kf_size f) (h + header_size f) (take i (kf_values f))
     in if kf_size f \<ge> 0 then off else align4 off + 4)"

lemma values_at_nth:
  assumes "values_at mem es off vs" "i < length vs"
  shows "value_at mem es (values_end es off (take i vs)) (vs ! i)"
proof -
  have "vs = take i vs @ vs ! i # drop (Suc i) vs" using assms(2) by (simp add: id_take_nth_drop)
  then have "values_at mem es off (take i vs @ vs ! i # drop (Suc i) vs)" using assms(1) by simp
  then show ?thesis by (simp add: values_at_append)
qed

lemma values_end_take_le: "values_end es off (take i vs) \<le> values_end es off vs"
  using values_end_le [of "values_end es off (take i vs)" es "drop i vs"]
  by (metis append_take_drop_id values_end_append)

lemma skip_values_ok:
  assumes "values_at (km_mem m) es off vs" "es < 0" "n < length vs" "km_addr m mod 4 = 0"
    and "\<forall>v\<in>set vs. int (length v) \<le> INT_MAX"
  shows "skip_values m n (align4 off) = Some (align4 (values_end es off (take n vs)))"
  using assms(1,3,5)
proof (induction n arbitrary: off vs)
  case (Suc n)
  then obtain v vs' where vs: "vs = v # vs'" by (cases vs) auto
  have "value_at (km_mem m) es off v" using Suc.prems(1) vs by simp
  then have sz: "peek_int32 (km_mem m) (align4 off) = Some (int (length v))"
    using Suc.prems(3) assms(2) vs by (intro peek_int32_holds) (auto simp: value_at_def is_int32_def)
  have d: "value_data (km_addr m) (align4 off) = align4 off + 4"
    using assms(4) align4_bounds(3) [of off] by (simp add: value_data_def Align_address_aligned)
  have "skip_values m n (align4 (value_end es off v)) = Some (align4 (values_end es off (take (Suc n) vs)))"
    using Suc.IH [of "value_end es off v" vs'] Suc.prems vs by simp
  then show ?case
    using sz d assms(2,4) by (simp add: value_end_def Align_address_aligned add.assoc)
qed simp

lemma element_at_ok:
  assumes "message_repr m info (pre @ f # post)"
  shows "FieldHeader_ElementAt m i False (next_pos pre) =
    Some (if 0 \<le> i \<and> i < int (length (kf_values f))
      then Some (value_pos (next_pos pre) f (nat i), int (length (kf_values f ! nat i))) else None)"
    and "0 \<le> i \<Longrightarrow> i < int (length (kf_values f)) \<Longrightarrow>
      holds (km_mem m) (value_pos (next_pos pre) f (nat i)) (kf_values f ! nat i)"
proof -
  let ?h = "next_pos pre" and ?vs = "kf_values f"
  note fld = message_field [OF assms]
  note ints = field_header_ints [OF fld(1,2) message_field_ints [OF assms]]
  have at: "values_at (km_mem m) (kf_size f) (?h + header_size f) ?vs"
    using fld(1) by (simp add: field_at_def)
  have addr: "km_addr m mod 4 = 0" and len: "int (length (km_mem m)) \<le> INT_MAX"
    using assms by (auto simp: message_repr_def)
  have elem: "value_at (km_mem m) (kf_size f) (values_end (kf_size f) (?h + header_size f) (take j ?vs)) (?vs ! j)"
    if "j < length ?vs" for j
    by (rule values_at_nth [OF at that])
  show held: "holds (km_mem m) (value_pos ?h f (nat i)) (?vs ! nat i)"
    if "0 \<le> i" "i < int (length ?vs)" for i
    using elem [of "nat i"] that by (auto simp: value_at_def value_pos_def Let_def split: if_splits)
  show "FieldHeader_ElementAt m i False ?h =
    Some (if 0 \<le> i \<and> i < int (length ?vs) then Some (value_pos ?h f (nat i), int (length (?vs ! nat i))) else None)"
  proof (cases "0 \<le> i \<and> i < int (length ?vs)")
    case True
    then have lt: "nat i < length ?vs" by linarith
    have small: "\<forall>v\<in>set ?vs. int (length v) \<le> INT_MAX"
    proof
      fix v assume "v \<in> set ?vs"
      then obtain j where j: "j < length ?vs" "v = ?vs ! j" by (auto simp: in_set_conv_nth)
      have "int (length v) \<le> int (length (km_mem m))"
        using holds_bounds [OF held [of "int j"]] j by auto
      then show "int (length v) \<le> INT_MAX" using len by linarith
    qed
    show ?thesis
    proof (cases "kf_size f \<ge> 0")
      case fixed: True
      have le: "kf_size f * i \<le> kf_size f * int (length ?vs)" using True fixed by (simp add: mult_left_mono)
      have "field_end ?h f \<le> INT_MAX + ?h" using message_field_ints [OF assms] by simp
      then have "kf_size f * int (length ?vs) \<le> INT_MAX"
        using fixed header_size_bounds(1) [of f] by (simp add: field_end_def values_end_fixed)
      moreover have "0 \<le> kf_size f * i" using True fixed by simp
      ultimately have "is_int32 (kf_size f * i)" using le by (simp add: is_int32_def)
      moreover have "int (length (?vs ! nat i)) = kf_size f"
        using elem [OF lt] fixed by (simp add: value_at_def)
      ultimately show ?thesis
        using ints True fixed lt
        by (simp add: FieldHeader_ElementAt_def int32_op_def value_pos_def values_end_fixed min_def)
    next
      case var: False
      let ?off = "?h + header_size f"
      have al: "align4 ?off = ?off"
        using next_pos_bounds(3) [of pre] header_size_bounds(3) [of f] by (intro align4_id) presburger
      have "skip_values m (nat i) ?off = Some (align4 (values_end (kf_size f) ?off (take (nat i) ?vs)))"
        using skip_values_ok [OF at _ lt addr small] var al by simp
      moreover have "peek_int32 (km_mem m) (align4 (values_end (kf_size f) ?off (take (nat i) ?vs))) =
          Some (int (length (?vs ! nat i)))"
        using elem [OF lt] var bspec [OF small nth_mem [OF lt]]
        by (intro peek_int32_holds) (auto simp: value_at_def is_int32_def)
      ultimately show ?thesis
        using ints True var addr align4_bounds(3)
        by (simp add: FieldHeader_ElementAt_def value_pos_def Let_def value_data_def Align_address_aligned)
    qed
  next
    case False
    then show ?thesis using ints by (auto simp: FieldHeader_ElementAt_def)
  qed
qed

section \<open>Growing a message\<close>

text \<open>
  A message that may grow up to 128 bytes below a limit: over memory of its own, over none yet, or
  over a buffer of someone else that is large enough. Without such a buffer the limit is that of int.
\<close>

definition writable_in :: "int \<Rightarrow> kmessage \<Rightarrow> bool" where
  "writable_in lim m \<longleftrightarrow> lim \<le> INT_MAX \<and> km_flags m AND KMESSAGE_READ_ONLY = 0 \<and>
    (km_inline m \<or> km_flags m AND KMESSAGE_OWNS_BUFFER \<noteq> 0 \<or> lim \<le> km_capacity m + 128)"

abbreviation writable :: "kmessage \<Rightarrow> bool" where "writable \<equiv> writable_in INT_MAX"

lemma own_flag:
  "(x OR KMESSAGE_OWNS_BUFFER) AND KMESSAGE_READ_ONLY = x AND KMESSAGE_READ_ONLY"
  "(x OR KMESSAGE_OWNS_BUFFER) AND KMESSAGE_OWNS_BUFFER \<noteq> 0"
  by (simp_all add: KMESSAGE_OWNS_BUFFER_def KMESSAGE_READ_ONLY_def bit.conj_disj_distrib2 or_eq_0_iff)

definition heap_ok :: "km_heap \<Rightarrow> bool" where
  "heap_ok k \<longleftrightarrow> heap_addr k mod 4 = 0 \<and> heap_can k = (\<lambda>_. True)"

lemma capacity_for:
  assumes "0 \<le> n" "n + 64 \<le> INT_MAX"
  obtains cap where "KMessage_CapacityFor n = Some cap" "n \<le> cap" "cap \<le> INT_MAX"
proof -
  have "is_int32 (n + 64)" using assms by (simp add: is_int32_def)
  then have "KMessage_CapacityFor n = Some ((n + 63) div 64 * 64)"
    by (simp add: KMessage_CapacityFor_def int32_op_def kMessageReallocChunkSize_def)
  moreover have "n \<le> (n + 63) div 64 * 64" "(n + 63) div 64 * 64 \<le> n + 63" by presburger+
  ultimately show ?thesis using that assms(2) by fastforce
qed

lemma align_offset: "0 \<le> x \<Longrightarrow> x + 64 \<le> INT_MAX \<Longrightarrow> Align_offset x = align4 x"
  using align4_bounds(1,2) [of x] by (simp add: Align_offset_def is_int32_def)

text \<open>Space is reserved at the end; nothing in front of it changes except for the size in the header.\<close>

lemma allocate_space_ok:
  assumes repr: "message_repr m info fs" and w: "writable_in lim m" and k: "heap_ok k" and n: "0 \<le> n"
    and off: "off = (if alignAddress then align4 (fields_end 28 fs) else fields_end 28 fs)"
    and new: "new = (if alignSize then align4 (off + n) else off + n)" and room: "new + 128 \<le> lim"
  obtains m' where "KMessage_AllocateSpace k n alignAddress alignSize m = Some (Inr (off, new - off), m')"
    "\<And>o' xs. o' + int (length xs) \<le> 4 \<or> 8 \<le> o' \<Longrightarrow> o' + int (length xs) \<le> fields_end 28 fs \<Longrightarrow>
      holds (km_mem m') o' xs = holds (km_mem m) o' xs"
    "holds (km_mem m') 4 (le_bytes 4 new)" "km_capacity m' = int (length (km_mem m'))"
    "new \<le> km_capacity m'" "km_capacity m' \<le> INT_MAX" "km_addr m' mod 4 = 0" "km_self m' = km_self m"
    "km_last m' = km_last m" "writable_in lim m'" "\<not> km_inline m'"
proof -
  let ?e = "fields_end 28 fs"
  note e = message_content_size [OF repr]
  have al: "?e \<le> align4 ?e" "off + n \<le> align4 (off + n)" "align4 (off + n) \<le> off + n + 3" "align4 ?e \<le> ?e + 3"
    using align4_bounds by blast+
  have eoff: "?e \<le> off" using off al by (simp split: if_splits)
  have lim: "lim \<le> INT_MAX" using w by (simp add: writable_in_def)
  have bounds: "off \<le> new" "off + n \<le> new" "new + 64 \<le> INT_MAX"
    using new al(2,3) room lim n by (auto split: if_splits)
  have big: "28 \<le> off" using e(2) eoff by linarith
  have aoff: "(if alignAddress then Align_offset ?e else ?e) = off"
    using off e(2) bounds eoff n by (simp add: align_offset)
  have anew: "(if alignSize then Align_offset (off + n) else off + n) = new"
    using new big n bounds by (simp add: align_offset)
  have i32: "is_int32 (off + n)" using big n bounds by (simp add: is_int32_def)
  have mem: "28 \<le> int (length (km_mem m))" "?e \<le> int (length (km_mem m))"
    "km_capacity m = int (length (km_mem m))" "km_capacity m \<le> INT_MAX"
    using repr e(2) by (auto simp: message_repr_def)
  obtain cap where cap: "KMessage_CapacityFor new = Some cap" "new \<le> cap" "cap \<le> INT_MAX"
    using capacity_for [of new] bounds big by auto
  define grown where "grown = (km_inline m \<or> new > km_capacity m)"
  define m1 where "m1 = (if grown
    then m\<lparr>km_addr := heap_addr k, km_mem := heap_fill k (km_mem m) cap, km_capacity := cap,
      km_flags := (if km_inline m then km_flags m OR KMESSAGE_OWNS_BUFFER else km_flags m), km_inline := False\<rparr>
    else m)"
  have m1: "km_capacity m1 = int (length (km_mem m1))" "new \<le> km_capacity m1" "km_capacity m1 \<le> INT_MAX"
    "km_addr m1 mod 4 = 0" "km_self m1 = km_self m" "km_last m1 = km_last m"
    "\<And>o' xs. o' + int (length xs) \<le> ?e \<Longrightarrow> holds (km_mem m1) o' xs = holds (km_mem m) o' xs"
  proof -
    have "int (length (km_mem m)) \<le> cap" if grown
    proof (cases "km_inline m")
      case True
      then have "km_capacity m = 28" using repr unfolding message_repr_def by blast
      then show ?thesis using mem(3) cap(2) bounds big by linarith
    qed (use that mem(3) cap(2) in \<open>simp add: grown_def\<close>)
    then have len: "int (length (heap_fill k (km_mem m) cap)) = cap" if grown
      using that by (simp add: length_heap_fill)
    show "km_capacity m1 = int (length (km_mem m1))" "new \<le> km_capacity m1" "km_capacity m1 \<le> INT_MAX"
      using len mem cap(2,3) by (auto simp: m1_def grown_def)
    show "km_addr m1 mod 4 = 0" using k repr by (simp add: m1_def heap_ok_def message_repr_def)
    show "km_self m1 = km_self m" "km_last m1 = km_last m" by (simp_all add: m1_def)
    show "holds (km_mem m1) o' xs = holds (km_mem m) o' xs" if "o' + int (length xs) \<le> ?e" for o' xs
      using that cap(2) bounds eoff mem(2) by (auto simp: m1_def intro!: holds_heap_fill)
  qed
  have "writable_in lim m1" "\<not> km_inline m1" using w cap(2) by (auto simp: m1_def grown_def writable_in_def own_flag)
  have len: "8 \<le> int (length (km_mem m1))" using m1(1,2) bounds big by linarith
  obtain mem' where poke: "poke (km_mem m1) 4 (le_bytes 4 new) = Some mem'"
    "length mem' = length (km_mem m1)" "holds mem' 4 (le_bytes 4 new)"
    "\<And>o' ys. o' + int (length ys) \<le> 4 \<or> 4 + int (length (le_bytes 4 new)) \<le> o' \<Longrightarrow>
      holds mem' o' ys = holds (km_mem m1) o' ys"
    using poke_Some [of 4 "le_bytes 4 new" "km_mem m1"] len by auto
  have "KMessage_AllocateSpace k n alignAddress alignSize m =
      Some (Inr (off, new - off), m1\<lparr>km_mem := mem'\<rparr>)"
  proof -
    have ro: "km_flags m AND KMESSAGE_READ_ONLY = 0"
      and own: "km_inline m \<or> new \<le> km_capacity m \<or> km_flags m AND KMESSAGE_OWNS_BUFFER \<noteq> 0"
      using w room by (auto simp: writable_in_def)
    have can: "heap_can k cap" using k by (simp add: heap_ok_def)
    have "KMessage_AllocateSpace k n alignAddress alignSize m =
        do { mem \<leftarrow> poke (km_mem m1) 4 (le_bytes 4 new); Some (Inr (off, new - off), m1\<lparr>km_mem := mem\<rparr>) }"
      using ro own can cap(1) e(1) i32
      by (cases "km_inline m")
        (auto simp: KMessage_AllocateSpace_def aoff anew int32_op_def m1_def grown_def Let_def)
    then show ?thesis using poke(1) by simp
  qed
  then show ?thesis
    using poke m1 \<open>writable_in lim m1\<close> \<open>\<not> km_inline m1\<close> by (intro that [of "m1\<lparr>km_mem := mem'\<rparr>"]) (auto simp: writable_in_def)
qed

lemma message_bounds:
  assumes "message_repr m info fs"
  shows "fields_end 28 fs \<le> int (length (km_mem m))" "km_capacity m = int (length (km_mem m))"
  using assms by (auto simp: message_repr_def)

lemma add_field_ok:
  assumes repr: "message_repr m info fs" and w: "writable_in lim m" and k: "heap_ok k"
    and f: "field_ok f" "kf_values f = []" and room: "field_end (next_pos fs) f + 128 \<le> lim"
  obtains m' where
    "KMessage_PrivAddField k (kf_name f) (kf_type f) (kf_size f) m = Some (B_OK, Some (next_pos fs), m')"
    "message_repr m' info (fs @ [f])" "writable_in lim m'"
proof -
  let ?h = "next_pos fs" and ?n = "20 + int (length (kf_name f))" and ?e = "fields_end 28 fs"
  define new where "new = ?h + header_size f"
  note h = next_pos_bounds [of fs] and hs = header_size_bounds [of f]
  have fe: "field_end ?h f = new" using f(2) by (simp add: field_end_def new_def)
  have al: "align4 (?h + ?n) = new"
    using h(3) unfolding new_def header_size_def align4_eq by presburger
  have i32: "to_int32 ?n = ?n" using f(1) by (simp add: field_ok_def is_int32_def)
  have rm: "new + 128 \<le> lim" using room fe by simp
  obtain m1 where m1: "KMessage_AllocateSpace k ?n True True m = Some (Inr (?h, new - ?h), m1)"
    "\<And>o' xs. o' + int (length xs) \<le> 4 \<or> 8 \<le> o' \<Longrightarrow> o' + int (length xs) \<le> ?e \<Longrightarrow>
      holds (km_mem m1) o' xs = holds (km_mem m) o' xs"
    "holds (km_mem m1) 4 (le_bytes 4 new)" "km_capacity m1 = int (length (km_mem m1))"
    "new \<le> km_capacity m1" "km_capacity m1 \<le> INT_MAX" "km_addr m1 mod 4 = 0" "km_self m1 = km_self m"
    "km_last m1 = km_last m" "writable_in lim m1" "\<not> km_inline m1"
    using allocate_space_ok [OF repr w k, of ?n ?h True new True] rm al by (auto simp: next_pos_def)
  let ?bs = "le_bytes 4 (kf_type f) @ le_bytes 4 (kf_size f) @ le_bytes 4 0 @ le_bytes 4 (new - ?h) @
    le_bytes 2 (new - ?h) @ kf_name f @ [CHR 0x00]"
  have "0 \<le> ?h" "?h + int (length ?bs) \<le> int (length (km_mem m1))"
    using h(1) m1(4,5) hs(1) unfolding new_def by auto
  then obtain mem where mem: "poke (km_mem m1) ?h ?bs = Some mem" "length mem = length (km_mem m1)"
    "holds mem ?h ?bs"
    "\<And>o' ys. o' + int (length ys) \<le> ?h \<or> ?h + int (length ?bs) \<le> o' \<Longrightarrow>
      holds mem o' ys = holds (km_mem m1) o' ys"
    by (rule poke_Some) (rule that)
  let ?m' = "m1\<lparr>km_mem := mem, km_last := ?h\<rparr>"
  have front: "holds mem o' xs = holds (km_mem m) o' xs"
    if "o' + int (length xs) \<le> 4 \<or> 8 \<le> o'" "o' + int (length xs) \<le> ?e" for o' xs
    using mem(4) [of o' xs] m1(2) [OF that] that(2) h(2) by auto
  have at: "field_at mem ?h f"
    using mem(3) fe f(2) unfolding field_at_def new_def by (simp add: holds_append add.assoc)
  have "fields_at mem 28 fs = fields_at (km_mem m) 28 fs"
    by (rule fields_at_cong [of 28 ?e]) (use front in auto)
  then have flds: "fields_at mem 28 (fs @ [f])" using repr at by (simp add: message_repr_def next_pos_def)
  have e28: "28 \<le> ?e" by (rule fields_end_le)
  have "message_repr ?m' info (fs @ [f])"
    unfolding message_repr_def
  proof (intro conjI)
    show "holds (km_mem ?m') 0 (le_bytes 4 kMessageHeaderMagic)" "holds (km_mem ?m') 8 info" "length info = 20"
      using repr e28 by (auto simp: message_repr_def front)
    show "holds (km_mem ?m') 4 (le_bytes 4 (fields_end 28 (fs @ [f])))"
      using m1(3) mem(4) [of 4 "le_bytes 4 new"] h(1) fe by (simp add: next_pos_def)
    show "fields_end 28 (fs @ [f]) \<le> km_capacity ?m'" using m1(5) fe by (simp add: next_pos_def)
    show "km_self ?m' mod 4 = 0" using repr m1(8) by (simp add: message_repr_def)
    show "km_inline ?m' \<longrightarrow> km_capacity ?m' = 28" using m1(11) by simp
  qed (use flds f(1) repr m1 mem(2) in \<open>auto simp: message_repr_def\<close>)
  moreover have "KMessage_PrivAddField k (kf_name f) (kf_type f) (kf_size f) m = Some (B_OK, Some ?h, ?m')"
    using m1(1) mem(1) i32 by (simp add: KMessage_PrivAddField_def)
  moreover have "writable_in lim ?m'" using m1(10) by (simp add: writable_in_def)
  ultimately show ?thesis using that by blast
qed

section \<open>Adding elements\<close>

primrec chunks :: "nat \<Rightarrow> nat \<Rightarrow> byte list \<Rightarrow> byte list list" where
  "chunks es 0 bs = []"
| "chunks es (Suc n) bs = take es bs # chunks es n (drop es bs)"

lemma length_chunks [simp]: "length (chunks es n bs) = n"
  by (induction n arbitrary: bs) auto

lemma chunks_elements: "es * n \<le> length bs \<Longrightarrow> v \<in> set (chunks es n bs) \<Longrightarrow> length v = es"
proof (induction n arbitrary: bs)
  case (Suc n)
  have "es * n \<le> length (drop es bs)" using Suc.prems(1) by simp
  then show ?case using Suc.IH [of "drop es bs"] Suc.prems by auto
qed simp

lemma concat_chunks: "concat (chunks es n bs) = take (es * n) bs"
  by (induction n arbitrary: bs) (simp_all add: take_add)

definition with_values :: "kfield \<Rightarrow> byte list list \<Rightarrow> kfield" where
  "with_values f vs = f\<lparr>kf_values := vs\<rparr>"

lemma with_values_simps [simp]:
  "kf_name (with_values f vs) = kf_name f" "kf_type (with_values f vs) = kf_type f"
  "kf_size (with_values f vs) = kf_size f" "kf_values (with_values f vs) = vs"
  "header_size (with_values f vs) = header_size f" "with_values (with_values f us) vs = with_values f vs"
  by (simp_all add: with_values_def header_size_def)

lemma field_end_with_values:
  "field_end h (with_values f (kf_values f @ us)) = values_end (kf_size f) (field_end h f) us"
  by (simp add: field_end_def values_end_append)

text \<open>Elements of fixed size lie side by side.\<close>

lemma values_at_fixed:
  assumes "0 \<le> es" "\<forall>v\<in>set vs. int (length v) = es" "holds mem off (concat vs)"
  shows "values_at mem es off vs"
  using assms(2,3)
proof (induction vs arbitrary: off)
  case (Cons v vs)
  then have "holds mem off v" "holds mem (off + es) (concat vs)" by (simp_all add: holds_append)
  then show ?case using Cons assms(1) by (simp add: value_at_def value_end_def)
qed simp

text \<open>
  The last field gets further elements \<open>us\<close> behind its old ones, when these are in the buffer
  already and its header is brought up to date.
\<close>

lemma count_elements_ok:
  assumes repr: "message_repr m info (pre @ [f])" and h: "h = next_pos pre"
    and mem: "km_capacity m1 = int (length (km_mem m1))" "km_capacity m1 \<le> INT_MAX" "km_addr m1 mod 4 = 0"
      "km_self m1 = km_self m" "km_last m1 = km_last m" "\<not> km_inline m1" "writable_in lim m1"
    and same: "\<And>o' xs. o' + int (length xs) \<le> 4 \<or> 8 \<le> o' \<Longrightarrow> o' + int (length xs) \<le> field_end h f \<Longrightarrow>
      holds (km_mem m1) o' xs = holds (km_mem m) o' xs"
    and us: "values_at (km_mem m1) (kf_size f) (field_end h f) us"
    and new: "new = values_end (kf_size f) (field_end h f) us" "new \<le> km_capacity m1"
      "holds (km_mem m1) 4 (le_bytes 4 new)"
    and ok: "field_ok (with_values f (kf_values f @ us))"
  obtains m' where "count_elements h (int (length (kf_values f @ us))) (new - h) m1 = Some m'"
    "message_repr m' info (pre @ [with_values f (kf_values f @ us)])" "writable_in lim m'"
proof -
  let ?g = "with_values f (kf_values f @ us)" and ?e = "field_end h f"
  let ?cnt = "le_bytes 4 (int (length (kf_values f @ us)))" and ?sz = "le_bytes 4 (new - h)"
  have at: "field_at (km_mem m) h f" using message_field(1) [of m info pre f "[]"] repr h by simp
  have hb: "28 \<le> h" "h + 20 \<le> ?e" "h + header_size f \<le> ?e" "?e \<le> new"
    using next_pos_bounds(1) [of pre] field_end_gt [of h f] field_end_le [of h f] values_end_le h new(1) by auto
  have b1: "0 \<le> h + 8" "h + 8 + int (length ?cnt) \<le> int (length (km_mem m1))"
    using hb new(2) mem(1) by auto
  obtain x where x: "poke (km_mem m1) (h + 8) ?cnt = Some x" "length x = length (km_mem m1)" "holds x (h + 8) ?cnt"
    "\<And>o' ys. o' + int (length ys) \<le> h + 8 \<or> h + 8 + int (length ?cnt) \<le> o' \<Longrightarrow>
      holds x o' ys = holds (km_mem m1) o' ys"
    using b1 by (rule poke_Some) (rule that)
  have b2: "0 \<le> h + 12" "h + 12 + int (length ?sz) \<le> int (length x)"
    using hb new(2) mem(1) x(2) by auto
  obtain y where y: "poke x (h + 12) ?sz = Some y" "length y = length x" "holds y (h + 12) ?sz"
    "\<And>o' ys. o' + int (length ys) \<le> h + 12 \<or> h + 12 + int (length ?sz) \<le> o' \<Longrightarrow> holds y o' ys = holds x o' ys"
    using b2 by (rule poke_Some) (rule that)
  let ?m' = "m1\<lparr>km_mem := y\<rparr>"
  have out: "holds y o' ys = holds (km_mem m1) o' ys"
    if "o' + int (length ys) \<le> h + 8 \<or> h + 16 \<le> o'" for o' ys
    using x(4) [of o' ys] y(4) [of o' ys] that by auto
  have head: "holds y o' ys = holds (km_mem m) o' ys"
    if "o' + int (length ys) \<le> 4 \<or> 8 \<le> o'" "o' + int (length ys) \<le> h + 8" for o' ys
    using out [of o' ys] same [of o' ys] that hb(2) by linarith
  have cnt: "holds y (h + 8) ?cnt" using x(3) y(4) [of "h + 8" ?cnt] by simp
  have name: "holds y (h + 18) (kf_name f @ [CHR 0x00])" "holds y (h + 16) (le_bytes 2 (header_size f))"
  proof -
    have "h + 18 + int (length (kf_name f @ [CHR 0x00])) \<le> ?e"
      using hb(3) header_size_bounds(1) [of f] by simp
    then show "holds y (h + 18) (kf_name f @ [CHR 0x00])" "holds y (h + 16) (le_bytes 2 (header_size f))"
      using at hb(1,2) out same by (auto simp: field_at_def)
  qed
  have vals: "values_at y (kf_size f) (h + header_size f) (kf_values f @ us)"
  proof -
    have lo: "h + 16 \<le> h + header_size f" "h + 16 \<le> ?e" "values_end (kf_size f) (h + header_size f) (kf_values f) = ?e"
      using header_size_bounds(1) [of f] hb(2) by (auto simp: field_end_def)
    have "values_at y (kf_size f) (h + header_size f) (kf_values f) =
        values_at (km_mem m) (kf_size f) (h + header_size f) (kf_values f)"
      by (rule values_at_cong [of "h + 16" ?e]) (use out same hb(1) lo in auto)
    moreover have "values_at y (kf_size f) ?e us = values_at (km_mem m1) (kf_size f) ?e us"
      by (rule values_at_cong [of "h + 16" new]) (use out lo new(1) in auto)
    ultimately show ?thesis using at us lo(3) by (simp add: values_at_append field_at_def)
  qed
  have ge: "field_end h ?g = new" using new(1) by (simp add: field_end_with_values)
  have "field_at y h ?g"
    unfolding field_at_def ge
    using at name vals cnt y(3) head [of h "le_bytes 4 (kf_type f)"] head [of "h + 4" "le_bytes 4 (kf_size f)"] hb(1)
    by (simp add: field_at_def)
  moreover have "fields_at y 28 pre = fields_at (km_mem m) 28 pre"
    by (rule fields_at_cong [of 28 "fields_end 28 pre"])
      (use head next_pos_bounds(2) [of pre] h in auto)
  ultimately have flds: "fields_at y 28 (pre @ [?g])" using repr h by (simp add: message_repr_def next_pos_def)
  have "message_repr ?m' info (pre @ [?g])"
    unfolding message_repr_def
  proof (intro conjI)
    show "holds (km_mem ?m') 0 (le_bytes 4 kMessageHeaderMagic)" "holds (km_mem ?m') 8 info" "length info = 20"
      using repr hb(1) by (auto simp: message_repr_def head)
    show "holds (km_mem ?m') 4 (le_bytes 4 (fields_end 28 (pre @ [?g])))"
      using new(3) out [of 4 "le_bytes 4 new"] hb(1) ge h by (simp add: next_pos_def)
    show "fields_end 28 (pre @ [?g]) \<le> km_capacity ?m'" using new(2) ge h by (simp add: next_pos_def)
  qed (use flds ok repr mem x(2) y(2) in \<open>auto simp: message_repr_def\<close>)
  moreover have "count_elements h (int (length (kf_values f @ us))) (new - h) m1 = Some ?m'"
    using x(1) y(1) by (simp add: count_elements_def)
  moreover have "writable_in lim ?m'" using mem(7) by (simp add: writable_in_def)
  ultimately show ?thesis using that by blast
qed

lemma with_values_same [simp]: "with_values f (kf_values f) = f"
  by (simp add: with_values_def)

lemma field_ok_with_values:
  assumes "field_ok f" "int (length vs) \<le> INT_MAX" "kf_size f \<ge> 0 \<Longrightarrow> \<forall>v\<in>set vs. int (length v) = kf_size f"
  shows "field_ok (with_values f vs)"
  using assms by (simp add: field_ok_def)

lemma add_values_ok:
  assumes repr: "message_repr m info (pre @ [f])" and w: "writable_in lim m" and k: "heap_ok k"
    and f: "kf_size f < 0" and es: "0 \<le> es" "nat es * n \<le> length data"
    and cnt: "int (length (kf_values f)) + int n \<le> INT_MAX"
    and room: "values_end (kf_size f) (field_end (next_pos pre) f) (chunks (nat es) n data) + 128 \<le> lim"
  shows "\<exists>m'. add_values k (next_pos pre) data es (4 + es) n m = Some (B_OK, m') \<and>
    message_repr m' info (pre @ [with_values f (kf_values f @ chunks (nat es) n data)]) \<and> writable_in lim m'"
  using assms
proof (induction n arbitrary: m f data)
  case 0
  then show ?case by simp
next
  case (Suc n)
  let ?h = "next_pos pre" and ?v = "take (nat es) data"
  let ?e = "field_end ?h f"
  note repr = Suc.prems(1) and es = Suc.prems(5,6)
  have lv: "int (length ?v) = es" using es by simp
  have ve: "value_end (kf_size f) ?e ?v = align4 ?e + 4 + es" using Suc.prems(4) lv by (simp add: value_end_def)
  have last: "values_end (kf_size f) (align4 ?e + 4 + es) (chunks (nat es) n (drop (nat es) data)) + 128 \<le> lim"
    using Suc.prems(8) ve by simp
  have rm: "align4 ?e + (4 + es) + 128 \<le> lim"
    using last values_end_le [of "align4 ?e + 4 + es" "kf_size f" "chunks (nat es) n (drop (nat es) data)"] by linarith
  have E: "fields_end 28 (pre @ [f]) = ?e" by (simp add: next_pos_def)
  define a where "a = align4 ?e"
  define new where "new = a + (4 + es)"
  obtain m1 where m1: "KMessage_AllocateSpace k (4 + es) True False m = Some (Inr (a, new - a), m1)"
    "\<And>o' xs. o' + int (length xs) \<le> 4 \<or> 8 \<le> o' \<Longrightarrow> o' + int (length xs) \<le> ?e \<Longrightarrow>
      holds (km_mem m1) o' xs = holds (km_mem m) o' xs"
    "holds (km_mem m1) 4 (le_bytes 4 new)" "km_capacity m1 = int (length (km_mem m1))"
    "new \<le> km_capacity m1" "km_capacity m1 \<le> INT_MAX" "km_addr m1 mod 4 = 0" "km_self m1 = km_self m"
    "km_last m1 = km_last m" "writable_in lim m1" "\<not> km_inline m1"
    using allocate_space_ok [OF repr Suc.prems(2,3), of "4 + es" a True new False] rm es(1) E
    by (auto simp: a_def new_def)
  have h: "28 \<le> ?h" "?h + 20 \<le> ?e" "?e \<le> a" "a mod 4 = 0"
    using next_pos_bounds(1) [of pre] field_end_gt [of ?h f] align4_bounds [of ?e] by (auto simp: a_def)
  have b1: "0 \<le> a" "a + int (length (le_bytes 4 es)) \<le> int (length (km_mem m1))"
    using h m1(4,5) es(1) by (auto simp: new_def)
  obtain x where x: "poke (km_mem m1) a (le_bytes 4 es) = Some x" "length x = length (km_mem m1)"
    "holds x a (le_bytes 4 es)"
    "\<And>o' ys. o' + int (length ys) \<le> a \<or> a + int (length (le_bytes 4 es)) \<le> o' \<Longrightarrow>
      holds x o' ys = holds (km_mem m1) o' ys"
    using b1 by (rule poke_Some) (rule that)
  have b2: "0 \<le> a + 4" "a + 4 + int (length ?v) \<le> int (length x)"
    using h m1(4,5) es(1) x(2) lv by (auto simp: new_def)
  obtain y where y: "poke x (a + 4) ?v = Some y" "length y = length x" "holds y (a + 4) ?v"
    "\<And>o' ys. o' + int (length ys) \<le> a + 4 \<or> a + 4 + int (length ?v) \<le> o' \<Longrightarrow> holds y o' ys = holds x o' ys"
    using b2 by (rule poke_Some) (rule that)
  let ?m1 = "m1\<lparr>km_mem := y\<rparr>"
  have out: "holds y o' ys = holds (km_mem m1) o' ys" if "o' + int (length ys) \<le> a" for o' ys
    using x(4) [of o' ys] y(4) [of o' ys] that by auto
  have same: "holds (km_mem ?m1) o' xs = holds (km_mem m) o' xs"
    if "o' + int (length xs) \<le> 4 \<or> 8 \<le> o'" "o' + int (length xs) \<le> ?e" for o' xs
    using out [of o' xs] m1(2) [OF that] that(2) h(3) by auto
  have at: "values_at y (kf_size f) ?e [?v]"
    using Suc.prems(4) x(3) y(3) y(4) [of a "le_bytes 4 es"] lv
    by (simp add: value_at_def flip: a_def)
  have new': "new = values_end (kf_size f) ?e [?v]" using ve by (simp add: new_def a_def)
  have size: "holds (km_mem ?m1) 4 (le_bytes 4 new)" using m1(3) out [of 4 "le_bytes 4 new"] h by simp
  have ok: "field_ok f" using message_field(2) [of m info pre f "[]"] repr by simp
  have ok': "field_ok (with_values f (kf_values f @ [?v]))"
    using ok Suc.prems(4,7) by (intro field_ok_with_values) auto
  obtain m2 where m2: "count_elements ?h (int (length (kf_values f @ [?v]))) (new - ?h) ?m1 = Some m2"
    "message_repr m2 info (pre @ [with_values f (kf_values f @ [?v])])" "writable_in lim m2"
    using count_elements_ok [OF repr refl, of ?m1 lim "[?v]" new] m1 same at new' size ok' x(2) y(2)
    by (auto simp: writable_in_def)
  let ?g = "with_values f (kf_values f @ [?v])"
  have ge: "field_end ?h ?g = align4 ?e + 4 + es" using ve by (simp add: field_end_with_values)
  have IH: "\<exists>m'. add_values k ?h (drop (nat es) data) es (4 + es) n m2 = Some (B_OK, m') \<and>
      message_repr m' info (pre @ [with_values ?g (kf_values ?g @ chunks (nat es) n (drop (nat es) data))]) \<and>
      writable_in lim m'"
  proof -
    have "nat es * n \<le> length (drop (nat es) data)" using es(2) by (simp add: le_diff_conv2)
    moreover have "int (length (kf_values ?g)) + int n \<le> INT_MAX" using Suc.prems(7) by simp
    moreover have "values_end (kf_size ?g) (field_end ?h ?g) (chunks (nat es) n (drop (nat es) data)) + 128 \<le> lim"
      using last unfolding ge by simp
    ultimately show ?thesis
      using Suc.IH [of m2 ?g "drop (nat es) data"] m2(2,3) Suc.prems(3,4) es(1) by simp
  qed
  have "km_addr m1 mod 4 = 0" by (rule m1(7))
  then have vd: "value_data (km_addr m1) a = a + 4"
    using h(4) by (simp add: value_data_def Align_address_aligned)
  have pk: "peek data 0 es = Some ?v" using es by (simp add: peek_def)
  have cnt: "peek_int32 y (?h + 8) = Some (int (length (kf_values f)))"
  proof -
    have "field_at (km_mem m) ?h f" using message_field(1) [of m info pre f "[]"] repr by simp
    then have "holds y (?h + 8) (le_bytes 4 (int (length (kf_values f))))"
      using same [of "?h + 8" "le_bytes 4 (int (length (kf_values f)))"] h by (simp add: field_at_def)
    then show ?thesis using Suc.prems(7) by (intro peek_int32_holds) (auto simp: is_int32_def)
  qed
  have i32: "is_int32 (int (length (kf_values f)) + 1)" using Suc.prems(7) by (simp add: is_int32_def)
  have step: "add_values k ?h data es (4 + es) (Suc n) m = add_values k ?h (drop (nat es) data) es (4 + es) n m2"
    using m1(1) x(1) y(1) vd pk cnt i32 m2(1) by (simp add: int32_op_def algebra_simps)
  then show ?case using IH by simp
qed

lemma add_field_data_ok:
  assumes repr: "message_repr m info (pre @ [f])" and w: "writable_in lim m" and k: "heap_ok k"
    and es: "0 \<le> es" "kf_size f \<ge> 0 \<Longrightarrow> es = kf_size f" and n: "0 \<le> n" "nat es * nat n \<le> length data"
    and cnt: "int (length (kf_values f)) + n \<le> INT_MAX"
    and room: "values_end (kf_size f) (field_end (next_pos pre) f) (chunks (nat es) (nat n) data) + 128 \<le> lim"
  shows "\<exists>m'. KMessage_AddFieldData k (Some (next_pos pre)) (Some data) es n m = Some (B_OK, m') \<and>
    message_repr m' info (pre @ [with_values f (kf_values f @ chunks (nat es) (nat n) data)]) \<and> writable_in lim m'"
proof -
  let ?h = "next_pos pre" and ?us = "chunks (nat es) (nat n) data"
  let ?e = "field_end ?h f"
  note fld = message_field [of m info pre f "[]", OF repr]
  note ints = field_header_ints [OF fld(1,2) message_field_ints [OF repr]]
  have hdr: "KMessageField_Header m (Some ?h) = Some (Some ?h)" "KMessage_LastFieldHeader m = Some (Some ?h)"
    using fld(3) message_last_field [OF repr] by (simp_all add: KMessageField_Header_def)
  have E: "fields_end 28 (pre @ [f]) = ?e" by (simp add: next_pos_def)
  show ?thesis
  proof (cases "n = 0")
    case True
    then show ?thesis using repr w es(1) hdr by (simp add: KMessage_AddFieldData_def)
  next
    case False
    then have pos: "0 < n" using n(1) by simp
    show ?thesis
    proof (cases "kf_size f \<ge> 0")
      case var: False
      have "values_end (kf_size f) ?e [take (nat es) data] \<le> values_end (kf_size f) ?e ?us"
      proof -
        have "?us = take (nat es) data # chunks (nat es) (nat n - 1) (drop (nat es) data)"
          using pos by (cases "nat n") auto
        then show ?thesis by (simp add: values_end_le)
      qed
      moreover have "int (length (take (nat es) data)) = es"
      proof -
        have "nat es \<le> nat es * nat n" using pos by (cases "nat n") auto
        then have "nat es \<le> length data" using n(2) by (rule order_trans)
        then show ?thesis using es(1) by simp
      qed
      ultimately have "align4 ?e + 4 + es + 128 \<le> lim" using room var by (simp add: value_end_def)
      then have "is_int32 (4 + es)"
        using align4_bounds(1) [of ?e] field_end_gt [of ?h f] next_pos_bounds(1) [of pre] es(1) w
        by (simp add: is_int32_def writable_in_def)
      then show ?thesis
        using add_values_ok [OF repr w k _ es(1) n(2) _ room] var hdr ints es(1) pos cnt
        by (simp add: KMessage_AddFieldData_def int32_op_def)
    next
      case fixed: True
      then have eq: "es = kf_size f" by (rule es(2))
      have lens: "\<forall>v\<in>set ?us. int (length v) = es"
        using chunks_elements [OF n(2)] es(1) by fastforce
      have ve: "values_end (kf_size f) ?e ?us = ?e + es * n"
        using fixed n(1) eq by (simp add: values_end_fixed)
      define total where "total = es * n"
      define new where "new = ?e + total"
      have tot: "0 \<le> total" "total + ?e + 128 \<le> lim" using es(1) n(1) room ve by (auto simp: total_def)
      have h: "28 \<le> ?h" "?h + 20 \<le> ?e" using next_pos_bounds(1) [of pre] field_end_gt [of ?h f] by auto
      have i32: "is_int32 total" using tot h w by (simp add: is_int32_def writable_in_def)
      have off: "?e = (if int (length (kf_values f)) = 0 then align4 (fields_end 28 (pre @ [f])) else fields_end 28 (pre @ [f]))"
      proof (cases "kf_values f = []")
        case True
        then have "?e mod 4 = 0"
          using header_size_bounds(3) [of f] next_pos_bounds(3) [of pre] by (simp add: field_end_def mod_add_eq) presburger
        then show ?thesis using E by simp
      qed (use E in simp)
      obtain m1 where m1:
        "KMessage_AllocateSpace k total (int (length (kf_values f)) = 0) False m = Some (Inr (?e, new - ?e), m1)"
        "\<And>o' xs. o' + int (length xs) \<le> 4 \<or> 8 \<le> o' \<Longrightarrow> o' + int (length xs) \<le> ?e \<Longrightarrow>
          holds (km_mem m1) o' xs = holds (km_mem m) o' xs"
        "holds (km_mem m1) 4 (le_bytes 4 new)" "km_capacity m1 = int (length (km_mem m1))"
        "new \<le> km_capacity m1" "km_capacity m1 \<le> INT_MAX" "km_addr m1 mod 4 = 0" "km_self m1 = km_self m"
        "km_last m1 = km_last m" "writable_in lim m1" "\<not> km_inline m1"
        using allocate_space_ok [OF repr w k tot(1) off, of new False] tot(2) E by (auto simp: new_def)
      let ?bs = "take (nat total) data"
      have ntot: "nat total = nat es * nat n" using es(1) by (simp add: total_def nat_mult_distrib)
      have bs: "peek data 0 total = Some ?bs" "int (length ?bs) = total" "concat ?us = ?bs"
      proof -
        have le: "nat total \<le> length data" using n(2) ntot by simp
        then show "peek data 0 total = Some ?bs" "int (length ?bs) = total"
          using tot(1) by (simp_all add: peek_def le_nat_iff nat_le_iff)
        show "concat ?us = ?bs" by (simp add: concat_chunks ntot)
      qed
      have b1: "0 \<le> ?e" "?e + int (length ?bs) \<le> int (length (km_mem m1))"
        using h m1(4,5) bs(2) by (auto simp: new_def)
      obtain x where x: "poke (km_mem m1) ?e ?bs = Some x" "length x = length (km_mem m1)" "holds x ?e ?bs"
        "\<And>o' ys. o' + int (length ys) \<le> ?e \<or> ?e + int (length ?bs) \<le> o' \<Longrightarrow>
          holds x o' ys = holds (km_mem m1) o' ys"
        using b1 by (rule poke_Some) (rule that)
      let ?m1 = "m1\<lparr>km_mem := x\<rparr>"
      have same: "holds (km_mem ?m1) o' xs = holds (km_mem m) o' xs"
        if "o' + int (length xs) \<le> 4 \<or> 8 \<le> o'" "o' + int (length xs) \<le> ?e" for o' xs
        using x(4) [of o' xs] m1(2) [OF that] that(2) by auto
      have at: "values_at x (kf_size f) ?e ?us"
        using fixed lens x(3) bs(3) eq by (intro values_at_fixed) auto
      have new': "new = values_end (kf_size f) ?e ?us" using ve by (simp add: new_def total_def)
      have size: "holds (km_mem ?m1) 4 (le_bytes 4 new)" using m1(3) x(4) [of 4 "le_bytes 4 new"] h by simp
      have ok: "field_ok (with_values f (kf_values f @ ?us))"
        using fld(2) cnt n(1) lens eq by (intro field_ok_with_values) (auto simp: field_ok_def)
      obtain m2 where m2: "count_elements ?h (int (length (kf_values f @ ?us))) (new - ?h) ?m1 = Some m2"
        "message_repr m2 info (pre @ [with_values f (kf_values f @ ?us)])" "writable_in lim m2"
        using count_elements_ok [OF repr refl, of ?m1 lim ?us new] m1 same at new' size ok x(2)
        by (auto simp: writable_in_def)
      have i32': "is_int32 (int (length (kf_values f)) + n)" using cnt n(1) by (simp add: is_int32_def)
      have "KMessage_AddFieldData k (Some ?h) (Some data) es n m = Some (B_OK, m2)"
        using hdr ints es(1) pos fixed eq [symmetric] i32 i32' m1(1) bs(1) x(1) m2(1)
        by (simp add: KMessage_AddFieldData_def int32_op_def flip: total_def)
      then show ?thesis using m2(2,3) by blast
    qed
  qed
qed

section \<open>Building a message\<close>

text \<open>
  What adding to a field does to the fields of a message: a field with a new name is made, the last
  field is extended, any other field is refused.
\<close>

definition add_elements ::
    "string \<Rightarrow> int \<Rightarrow> int \<Rightarrow> byte list \<Rightarrow> int \<Rightarrow> int \<Rightarrow> kfield list \<Rightarrow> int \<times> kfield list" where
  "add_elements name type fs_size data es n fs =
    (case dropWhile (\<lambda>f. kf_name f \<noteq> name) fs of
       [] \<Rightarrow> (B_OK, fs @ [\<lparr>kf_name = name, kf_type = type, kf_size = fs_size,
                       kf_values = chunks (nat es) (nat n) data\<rparr>])
     | f # rest \<Rightarrow>
         if kf_type f \<noteq> type then (B_BAD_TYPE, fs)
         else if rest \<noteq> [] then (B_BAD_VALUE, fs)
         else if n = 0 then (B_OK, fs)
         else if kf_size f \<ge> 0 \<and> es \<noteq> kf_size f then (B_BAD_VALUE, fs)
         else (B_OK, butlast fs @ [with_values f (kf_values f @ chunks (nat es) (nat n) data)]))"

text \<open>Messages that stay below a limit, at most 2 GB, with fields of fewer elements than that.\<close>

definition fields_fit_in :: "int \<Rightarrow> kfield list \<Rightarrow> bool" where
  "fields_fit_in lim fs \<longleftrightarrow> fields_end 28 fs + 128 \<le> lim \<and> (\<forall>f\<in>set fs. int (length (kf_values f)) \<le> INT_MAX)"

abbreviation fields_fit :: "kfield list \<Rightarrow> bool" where "fields_fit \<equiv> fields_fit_in INT_MAX"

definition name_ok :: "string \<Rightarrow> bool" where
  "name_ok name \<longleftrightarrow> name \<noteq> [] \<and> CHR 0x00 \<notin> set name \<and> length name < 32744"

definition type_ok :: "int \<Rightarrow> bool" where
  "type_ok type \<longleftrightarrow> type \<noteq> B_ANY_TYPE \<and> 0 \<le> type \<and> type < 2 ^ 32"

lemma find_by_name:
  assumes "message_repr m info fs"
  shows "KMessage_FindField m (Some name) B_ANY_TYPE =
    Some (if \<exists>f\<in>set fs. kf_name f = name
      then (B_OK, Some (next_pos (takeWhile (\<lambda>f. kf_name f \<noteq> name) fs)))
      else (B_NAME_NOT_FOUND, walk_pos fs))"
proof -
  have "field_is name B_ANY_TYPE = (\<lambda>f. kf_name f = name)" by (simp add: field_is_def fun_eq_iff)
  then show ?thesis using find_field_ok [OF assms, of name B_ANY_TYPE] by simp
qed

lemma not_ok: "B_NAME_NOT_FOUND \<noteq> B_OK" "B_BAD_TYPE \<noteq> B_OK" "B_BAD_VALUE \<noteq> B_OK"
  by (simp_all add: status_codes)

lemma add_to_field_ok:
  assumes repr: "message_repr m info fs" and w: "writable_in lim m" and k: "heap_ok k"
    and name: "name_ok name" and type: "type_ok type" and es: "0 \<le> es" and n: "0 \<le> n" "nat es * nat n \<le> length data"
    and new: "fs_size = es \<or> fs_size < 0" "is_int32 fs_size"
    and fit: "fields_fit_in lim (snd (add_elements name type fs_size data es n fs))"
  shows "\<exists>m'. add_to_field k name type data fs_size es n m =
      Some (fst (add_elements name type fs_size data es n fs), m') \<and>
    message_repr m' info (snd (add_elements name type fs_size data es n fs)) \<and> writable_in lim m'"
proof (cases "dropWhile (\<lambda>f. kf_name f \<noteq> name) fs")
  case Nil
  let ?g = "\<lparr>kf_name = name, kf_type = type, kf_size = fs_size, kf_values = []\<rparr>"
  let ?us = "chunks (nat es) (nat n) data"
  have ok: "field_ok ?g" using name type new(2) by (simp add: field_ok_def name_ok_def type_ok_def)
  have fit': "values_end fs_size (field_end (next_pos fs) ?g) ?us + 128 \<le> lim" "n \<le> INT_MAX"
    using fit n(1) Nil
    by (auto simp: add_elements_def fields_fit_in_def field_end_def header_size_def next_pos_def nat_le_iff)
  then have "field_end (next_pos fs) ?g + 128 \<le> lim"
    using values_end_le [of "field_end (next_pos fs) ?g" fs_size ?us] by linarith
  then obtain m1 where m1: "KMessage_PrivAddField k name type fs_size m = Some (B_OK, Some (next_pos fs), m1)"
    "message_repr m1 info (fs @ [?g])" "writable_in lim m1"
    using add_field_ok [OF repr w k ok] by auto
  have size: "kf_size ?g \<ge> 0 \<Longrightarrow> es = kf_size ?g" using new(1) es by auto
  have cnt: "int (length (kf_values ?g)) + n \<le> INT_MAX" using fit'(2) by simp
  have rm: "values_end (kf_size ?g) (field_end (next_pos fs) ?g) ?us + 128 \<le> lim" using fit'(1) by simp
  from add_field_data_ok [OF m1(2,3) k es size n cnt rm]
  obtain m' where "KMessage_AddFieldData k (Some (next_pos fs)) (Some data) es n m1 = Some (B_OK, m')"
    "message_repr m' info (fs @ [with_values ?g ?us])" "writable_in lim m'" by auto
  moreover have "add_elements name type fs_size data es n fs = (B_OK, fs @ [with_values ?g ?us])"
    unfolding add_elements_def Nil by (simp add: with_values_def)
  moreover have "KMessage_FindField m (Some name) B_ANY_TYPE = Some (B_NAME_NOT_FOUND, walk_pos fs)"
    using find_by_name [OF repr, of name] Nil by simp
  ultimately show ?thesis using m1(1) not_ok by (simp add: add_to_field_def)
next
  case (Cons f rest)
  define pre where "pre = takeWhile (\<lambda>f. kf_name f \<noteq> name) fs"
  have fs: "fs = pre @ f # rest" using Cons by (metis pre_def takeWhile_dropWhile_id)
  have repr': "message_repr m info (pre @ f # rest)" using repr fs by simp
  note fld = message_field [OF repr']
  note ints = field_header_ints [OF fld(1,2) message_field_ints [OF repr']]
  have found: "KMessage_FindField m (Some name) B_ANY_TYPE = Some (B_OK, Some (next_pos pre))"
  proof -
    have "f \<in> set fs" "kf_name f = name" using fs Cons by (simp_all add: dropWhile_eq_Cons_conv)
    then have "\<exists>f\<in>set fs. kf_name f = name" by blast
    then show ?thesis using find_by_name [OF repr, of name] by (simp add: pre_def)
  qed
  have t: "KMessageField_TypeCode m (Some (next_pos pre)) = Some (kf_type f)"
    using fld(3) ints(1) by (simp add: KMessageField_TypeCode_def KMessageField_Header_def)
  have hdr: "KMessageField_Header m (Some (next_pos pre)) = Some (Some (next_pos pre))"
    using fld(3) by (simp add: KMessageField_Header_def)
  have last: "KMessage_LastFieldHeader m = Some (Some (next_pos (butlast fs)))"
    using message_last_field [OF repr] fs by simp
  consider "kf_type f \<noteq> type" | "kf_type f = type" "rest \<noteq> []" | "kf_type f = type" "rest = []" "n = 0"
    | "kf_type f = type" "rest = []" "n \<noteq> 0" "kf_size f \<ge> 0" "es \<noteq> kf_size f"
    | "kf_type f = type" "rest = []" "n \<noteq> 0" "kf_size f \<ge> 0 \<Longrightarrow> es = kf_size f" by blast
  then show ?thesis
  proof cases
    case 1
    then show ?thesis using Cons found t repr w by (simp add: add_to_field_def add_elements_def)
  next
    case 2
    then have "next_pos pre < next_pos (butlast fs)"
      using fields_split(3) [of pre f "butlast rest"] fs by (simp add: butlast_append)
    then show ?thesis
      using 2 Cons found t hdr last repr w by (simp add: add_to_field_def add_elements_def KMessage_AddFieldData_def)
  next
    case 3
    then show ?thesis
      using Cons found t hdr last repr w es fs
      by (simp add: add_to_field_def add_elements_def KMessage_AddFieldData_def)
  next
    case 4
    then show ?thesis
      using Cons found t hdr last repr w es n fs ints(2,3)
      by (simp add: add_to_field_def add_elements_def KMessage_AddFieldData_def)
  next
    case 5
    have add: "add_elements name type fs_size data es n fs =
        (B_OK, pre @ [with_values f (kf_values f @ chunks (nat es) (nat n) data)])"
    proof -
      have "\<not> (kf_size f \<ge> 0 \<and> es \<noteq> kf_size f)" using 5(4) by blast
      then show ?thesis using Cons 5(1-3) fs by (auto simp: add_elements_def)
    qed
    have cnt: "int (length (kf_values f)) + n \<le> INT_MAX"
      and rm: "values_end (kf_size f) (field_end (next_pos pre) f) (chunks (nat es) (nat n) data) + 128 \<le> lim"
      using fit n(1) unfolding add
      by (auto simp: fields_fit_in_def field_end_with_values next_pos_def)
    have "message_repr m info (pre @ [f])" using repr' 5 by simp
    from add_field_data_ok [OF this w k es 5(4) n cnt rm] show ?thesis
      unfolding add using found t 5(1) by (simp add: add_to_field_def)
  qed
qed

section \<open>Receiving a message\<close>

lemma check_values_ok:
  assumes at: "values_at mem es off vs" and es: "es < 0" and a: "a mod 4 = 0"
    and b: "0 \<le> off" "values_end es off vs \<le> lim" "lim \<le> INT_MAX" "0 \<le> data" "data \<le> off"
  shows "check_values mem a lim data (length vs) (align4 off) need =
    Some (Some (if vs = [] then need else values_end es off vs - data))"
  using at b(1,2,5)
proof (induction vs arbitrary: off need)
  case (Cons v vs)
  define p where "p = align4 off"
  have p: "off \<le> p" "p mod 4 = 0" using align4_bounds [of off] by (simp_all add: p_def)
  have ve: "value_end es off v = p + 4 + int (length v)" using es by (simp add: value_end_def p_def)
  have le: "p + 4 + int (length v) \<le> lim" using Cons.prems(3) values_end_le [of "value_end es off v" es vs] ve by simp
  have sz: "peek_int32 mem p = Some (int (length v))"
    using Cons.prems(1,2) es le p(1) b(3)
    by (intro peek_int32_holds) (auto simp: value_at_def is_int32_def p_def)
  have d: "value_data a p = p + 4" "Align_address a (p + 4 + int (length v)) = align4 (value_end es off v)"
    using a p(2) ve by (simp_all add: value_data_def Align_address_aligned)
  have i32: "is_int32 (lim - p)" "is_int32 (lim - (p + 4))" "is_int32 (p + 4 + int (length v) - data)"
    using le p(1) Cons.prems(2,4) b(3,4) by (auto simp: is_int32_def)
  have nxt: "0 \<le> value_end es off v" "data \<le> value_end es off v" using ve p(1) Cons.prems(2,4) by auto
  have "check_values mem a lim data (length (v # vs)) p need =
      check_values mem a lim data (length vs) (align4 (value_end es off v)) (p + 4 + int (length v) - data)"
    using sz d i32 le by (simp add: Let_def)
  also have "\<dots> = Some (Some (if vs = [] then p + 4 + int (length v) - data
      else values_end es (value_end es off v) vs - data))"
    using Cons.IH [of "value_end es off v"] Cons.prems nxt by simp
  finally show ?case using ve by (simp add: p_def)
qed simp

lemma peek_name:
  assumes "holds bs off (x @ [CHR 0x00])" "CHR 0x00 \<notin> set x" "int (length x) < n" "off + n \<le> int (length bs)"
  obtains r where "peek bs off n = Some r" "cstr r = x"
proof -
  have b: "0 \<le> off" "0 \<le> n" using holds_bounds [OF assms(1)] assms(3) by auto
  have "take (Suc (length x)) (drop (nat off) bs) = x @ [CHR 0x00]"
    using assms(1) b assms(3,4) unfolding holds_def peek_def by (simp add: nat_add_distrib split: if_splits)
  then obtain rest where r: "drop (nat off) bs = x @ [CHR 0x00] @ rest"
    by (metis append.assoc append_take_drop_id)
  have "nat n = Suc (length x) + (nat n - Suc (length x))" using assms(3) by simp
  then have "take (nat n) (x @ [CHR 0x00] @ rest) = x @ [CHR 0x00] @ take (nat n - Suc (length x)) rest"
    by (metis append.assoc append_eq_conv_conj length_append_singleton take_add drop_eq_Nil append_take_drop_id add_diff_cancel_left' take_append take_all_iff order_refl)
  then have "peek bs off n = Some (x @ [CHR 0x00] @ take (nat n - Suc (length x)) rest)"
    using b assms(4) r by (simp add: peek_def)
  then show ?thesis using assms(2) by (intro that) (auto simp: cstr_def takeWhile_append)
qed

lemma check_fields_ok:
  assumes "fields_at mem 28 (pre @ post)" "\<forall>f\<in>set (pre @ post). field_ok f" and a: "a mod 4 = 0"
    and lim: "lim = fields_end 28 (pre @ post)" "lim \<le> INT_MAX" "lim \<le> int (length mem)"
  shows "check_fields mem a lim (next_pos pre) prev =
    Some (Some (if post = [] then prev else next_pos (butlast (pre @ post))))"
  using assms(1,2) lim(1)
proof (induction post arbitrary: pre prev)
  case Nil
  have "lim - next_pos pre \<le> 0" "- 3 \<le> lim - next_pos pre"
    using Nil.prems(3) next_pos_bounds(2) [of pre] align4_bounds(2) [of "fields_end 28 pre"]
    by (auto simp: next_pos_def)
  then have "to_int32 (lim - next_pos pre) \<le> 0" by (simp add: is_int32_def)
  then show ?case by (simp add: check_fields.simps [of mem a lim "next_pos pre"] Let_def)
next
  case (Cons f post)
  let ?h = "next_pos pre" and ?hs = "header_size f"
  have at: "field_at mem ?h f" and ok: "field_ok f" using Cons.prems by (simp_all add: next_pos_def)
  have fe: "field_end ?h f \<le> lim" using fields_split(1) [of pre f post] Cons.prems(3) by simp
  have h: "28 \<le> ?h" "?h mod 4 = 0" "?h + 20 \<le> field_end ?h f" "?h + ?hs \<le> field_end ?h f"
    using next_pos_bounds [of pre] field_end_gt [of ?h f] field_end_le [of ?h f] by auto
  have hs: "20 + int (length (kf_name f)) \<le> ?hs" "?hs mod 4 = 0" using header_size_bounds [of f] by auto
  have "field_end ?h f - ?h \<le> INT_MAX" using fe h lim(2) by linarith
  note ints = field_header_ints [OF at ok this]
  have rem: "to_int32 (lim - ?h) = lim - ?h" using fe h lim(2) by (simp add: is_int32_def)
  obtain r where r: "peek mem (?h + 18) (?hs - 18) = Some r" "cstr r = kf_name f"
    using at ok fe h hs lim(3) by (elim peek_name [rotated 4]) (auto simp: field_at_def field_ok_def)
  have name: "int (length (kf_name f)) \<noteq> ?hs - 18" "int (length (kf_name f)) \<noteq> 0"
    using hs(1) ok by (auto simp: field_ok_def)
  have vals: "values_at mem (kf_size f) (?h + ?hs) (kf_values f)" using at by (simp add: field_at_def)
  have elems1: "int32_op (kf_size f * int (length (kf_values f))) = Some (kf_size f * int (length (kf_values f)))"
    if "kf_size f \<ge> 0"
  proof -
    have "0 \<le> kf_size f * int (length (kf_values f))" using that by simp
    moreover have "kf_size f * int (length (kf_values f)) \<le> INT_MAX"
      using fe h(1) hs(1) lim(2) that by (simp add: field_end_def values_end_fixed)
    ultimately have "is_int32 (kf_size f * int (length (kf_values f)))" by (rule is_int32_nonneg)
    then show ?thesis by (simp add: int32_op_def)
  qed
  have elems2: "check_values mem a lim ?h (length (kf_values f)) (?h + ?hs) ?hs =
      Some (Some (if kf_values f = [] then ?hs else field_end ?h f - ?h))" if "kf_size f < 0"
  proof -
    have "align4 (?h + ?hs) = ?h + ?hs" using h(2) hs(2) by (intro align4_id) presburger
    then show ?thesis
      using check_values_ok [OF vals that a, of lim ?h ?hs] fe h hs(1) lim(2)
      by (simp add: field_end_def)
  qed
  have "Align_address a (?h + (field_end ?h f - ?h)) = next_pos (pre @ [f])"
    using a by (simp add: Align_address_aligned next_pos_snoc)
  moreover have "?h + 18 = 18 + ?h" by simp
  ultimately have step: "check_fields mem a lim ?h prev = check_fields mem a lim (next_pos (pre @ [f])) ?h"
    using ints rem r name fe h hs(1) ok elems1 elems2
    by (subst check_fields.simps, cases "kf_size f \<ge> 0") (simp_all add: Let_def field_ok_def)
  show ?case
    using Cons.IH [of "pre @ [f]" ?h] Cons.prems unfolding step by (auto simp: butlast_append)
qed

definition what_info :: "int \<Rightarrow> byte list" where
  "what_info what = le_bytes 4 what @ le_bytes 4 (- 1) @ le_bytes 4 (- 1) @ le_bytes 4 (- 1) @ le_bytes 4 (- 1)"

lemma init_buffer_ok:
  assumes "28 \<le> length (km_mem m)"
  obtains mem where "KMessage_InitBuffer what m = Some (m\<lparr>km_mem := mem, km_last := 0\<rparr>)"
    "length mem = length (km_mem m)" "holds mem 0 (le_bytes 4 kMessageHeaderMagic)" "holds mem 4 (le_bytes 4 28)"
    "holds mem 8 (what_info what)"
proof -
  have l: "length (header_bytes what) = 28" by (simp add: header_bytes_def)
  have b: "0 \<le> (0 :: int)" "0 + int (length (header_bytes what)) \<le> int (length (km_mem m))"
    using assms by (simp_all add: l)
  obtain mem where mem: "poke (km_mem m) 0 (header_bytes what) = Some mem" "length mem = length (km_mem m)"
    "holds mem 0 (header_bytes what)"
    "\<And>o' ys. o' + int (length ys) \<le> 0 \<or> 0 + int (length (header_bytes what)) \<le> o' \<Longrightarrow>
      holds mem o' ys = holds (km_mem m) o' ys"
    using b by (rule poke_Some) (rule that)
  show ?thesis
  proof (rule that)
    show "KMessage_InitBuffer what m = Some (m\<lparr>km_mem := mem, km_last := 0\<rparr>)"
      using mem(1) by (simp add: KMessage_InitBuffer_def)
    show "holds mem 0 (le_bytes 4 kMessageHeaderMagic)" "holds mem 4 (le_bytes 4 28)" "holds mem 8 (what_info what)"
      using mem(3) by (simp_all add: header_bytes_def what_info_def holds_append)
  qed (fact mem(2))
qed

lemma unset_ok:
  assumes "km_self m mod 4 = 0"
  obtains m0 where "KMessage_Unset m = Some m0" "message_repr m0 (what_info 0) []" "km_self m0 = km_self m"
    "km_inline m0" "km_flags m0 = km_flags m"
proof -
  let ?m = "m\<lparr>km_addr := km_self m, km_mem := replicate 28 (CHR 0x00), km_capacity := 28, km_inline := True\<rparr>"
  have len: "28 \<le> length (km_mem ?m)" by simp
  from init_buffer_ok [OF len, of 0] obtain mem where
    mem: "KMessage_InitBuffer 0 ?m = Some (?m\<lparr>km_mem := mem, km_last := 0\<rparr>)" "length mem = length (km_mem ?m)"
      "holds mem 0 (le_bytes 4 kMessageHeaderMagic)" "holds mem 4 (le_bytes 4 28)" "holds mem 8 (what_info 0)" .
  have "message_repr (?m\<lparr>km_mem := mem, km_last := 0\<rparr>) (what_info 0) []"
    using mem(2-5) assms by (simp add: message_repr_def what_info_def)
  then show ?thesis
    using mem(1) by (intro that [of "?m\<lparr>km_mem := mem, km_last := 0\<rparr>"]) (simp_all add: KMessage_Unset_def)
qed

lemma message_new:
  assumes "self mod 4 = 0"
  obtains m where "KMessage_new self what = Some m" "message_repr m (what_info what) []" "writable m"
proof -
  let ?m = "\<lparr>km_self = self, km_addr = 0, km_mem = [], km_capacity = 0, km_flags = 0, km_last = 0, km_inline = False\<rparr>"
  from unset_ok [of ?m] assms obtain m0 where
    m0: "KMessage_Unset ?m = Some m0" "message_repr m0 (what_info 0) []" "km_self m0 = self" "km_inline m0" "km_flags m0 = 0"
    by auto
  note r = m0(2) [unfolded message_repr_def, simplified]
  have b: "0 \<le> (8 :: int)" "8 + int (length (le_bytes 4 what)) \<le> int (length (km_mem m0))" using r m0(4) by auto
  obtain mem where mem: "poke (km_mem m0) 8 (le_bytes 4 what) = Some mem" "length mem = length (km_mem m0)"
    "holds mem 8 (le_bytes 4 what)"
    "\<And>o' ys. o' + int (length ys) \<le> 8 \<or> 8 + int (length (le_bytes 4 what)) \<le> o' \<Longrightarrow>
      holds mem o' ys = holds (km_mem m0) o' ys"
    using b by (rule poke_Some) (rule that)
  have "message_repr (m0\<lparr>km_mem := mem\<rparr>) (what_info what) []"
    using r mem(2-4) m0(4) by (simp add: message_repr_def what_info_def holds_append)
  moreover have "KMessage_new self what = Some (m0\<lparr>km_mem := mem\<rparr>)"
    using m0(1) mem(1) by (simp add: KMessage_new_def KMessage_SetWhat_def)
  moreover have "writable (m0\<lparr>km_mem := mem\<rparr>)" using m0(4,5) by (simp add: writable_in_def)
  ultimately show ?thesis using that by blast
qed

lemma receive_ok:
  assumes repr: "message_repr m info fs" and k: "heap_ok k" and r: "km_self r mod 4 = 0"
    and flags: "flags AND KMESSAGE_INIT_FROM_BUFFER \<noteq> 0"
    and bs: "bs = take (nat (fields_end 28 fs)) (km_mem m)"
  shows "\<exists>r'. KMessage_SetTo_buffer k (Some (addr, bs)) (fields_end 28 fs) what flags r = Some (B_OK, r') \<and>
    message_repr r' info fs"
proof -
  let ?e = "fields_end 28 fs"
  have e: "28 \<le> ?e" "?e \<le> int (length (km_mem m))" "?e \<le> INT_MAX"
    using message_content_size(2) [OF repr] message_bounds [OF repr] repr unfolding message_repr_def by auto
  have len: "int (length bs) = ?e" using e(1,2) bs by simp
  have held: "holds bs o' xs = holds (km_mem m) o' xs" if "o' + int (length xs) \<le> ?e" for o' xs
    using that e(1) unfolding bs by (intro holds_take) simp
  obtain m0 where m0: "KMessage_Unset r = Some m0" "km_self m0 = km_self r" using unset_ok [OF r] by blast
  define m1 where "m1 = m0\<lparr>km_addr := addr, km_mem := bs, km_capacity := ?e, km_flags := flags, km_inline := False\<rparr>"
  define m2 where "m2 = (if flags AND KMESSAGE_CLONE_BUFFER \<noteq> 0 \<or> Align_address addr 0 \<noteq> 0
    then m1\<lparr>km_capacity := ?e, km_addr := heap_addr k, km_mem := bs,
      km_flags := flags AND NOT (KMESSAGE_READ_ONLY OR KMESSAGE_CLONE_BUFFER) OR KMESSAGE_OWNS_BUFFER,
      km_capacity := ?e\<rparr> else m1\<lparr>km_capacity := ?e\<rparr>)"
  have m2: "km_mem m2 = bs" "km_capacity m2 = ?e" "km_self m2 = km_self r" "\<not> km_inline m2" "km_addr m2 mod 4 = 0"
  proof -
    have "addr mod 4 = 0" if "Align_address addr 0 = 0"
      using that align4_bounds(3) [of addr] by (simp add: Align_address_def)
    then show "km_addr m2 mod 4 = 0" using k by (auto simp: m2_def m1_def heap_ok_def)
  qed (auto simp: m2_def m1_def m0(2))
  define l where "l = (if fs = [] then - 1 else next_pos (butlast fs))"
  have whole: "peek bs 0 ?e = Some bs" using e(1) len by (simp add: peek_def)
  have al: "Align_address (km_addr m2) 0 = 0" using m2(5) by (simp add: Align_address_aligned)
  have magic: "peek_uint32 bs 0 = Some kMessageHeaderMagic"
    using repr held [of 0 "le_bytes 4 kMessageHeaderMagic"] e(1)
    by (intro peek_uint32_holds) (simp_all add: message_repr_def kMessageHeaderMagic_def)
  have content: "peek_int32 bs 4 = Some ?e"
    using repr held [of 4 "le_bytes 4 ?e"] e(1,3)
    by (intro peek_int32_holds) (auto simp: message_repr_def is_int32_def)
  have first: "Align_address (km_addr m2) 28 = 28" using m2(5) by (simp add: Align_address_aligned)
  have flds: "fields_at bs 28 fs"
  proof -
    have "fields_at bs 28 fs = fields_at (km_mem m) 28 fs"
      by (rule fields_at_cong [of 28 ?e]) (use held in auto)
    then show ?thesis using repr by (simp add: message_repr_def)
  qed
  have chk: "check_fields bs (km_addr m2) ?e 28 (- 1) = Some (Some l)"
  proof -
    have "\<forall>f\<in>set fs. field_ok f" using repr by (simp add: message_repr_def)
    then have "check_fields bs (km_addr m2) ?e (next_pos []) (- 1) = Some (Some l)"
      using check_fields_ok [of bs "[]" fs "km_addr m2" ?e "- 1"] flds m2(5) e(3) len by (simp add: l_def)
    then show ?thesis by (simp add: next_pos_def)
  qed
  have "heap_can k = (\<lambda>_. True)" using k by (simp add: heap_ok_def)
  then have init: "KMessage_InitFromBuffer k False m1 = Some (B_OK, m2\<lparr>km_last := l\<rparr>)"
    using whole al magic content first chk e(1) m2(1,2)
    by (cases "flags AND KMESSAGE_CLONE_BUFFER \<noteq> 0 \<or> Align_address addr 0 \<noteq> 0")
      (simp_all add: KMessage_InitFromBuffer_def KMessage_ContentSize_def KMessage_FirstFieldHeader_def
        m2_def m1_def Let_def)
  have "KMessage_SetTo_buffer k (Some (addr, bs)) ?e what flags r = Some (B_OK, m2\<lparr>km_last := l\<rparr>)"
    using m0(1) flags e(1) init by (simp add: KMessage_SetTo_buffer_def Let_def flip: m1_def)
  moreover have "message_repr (m2\<lparr>km_last := l\<rparr>) info fs"
    using repr m2 len e r held flds by (auto simp: message_repr_def l_def)
  ultimately show ?thesis by blast
qed

section \<open>Histories of a message\<close>

text \<open>Calls of \<open>AddData\<close> (name, type, data, fixed size) and \<open>AddArray\<close> (name, type, element size, count, data).\<close>

datatype km_add = Add_Data string int "byte list" bool | Add_Array string int int int "byte list"

fun km_add_step :: "km_heap \<Rightarrow> km_add \<Rightarrow> kmessage \<Rightarrow> (int \<times> kmessage) option" where
  "km_add_step k (Add_Data name type data fixed) m =
    KMessage_AddData k (Some name) type (Some data) (int (length data)) fixed m"
| "km_add_step k (Add_Array name type es n data) m = KMessage_AddArray k (Some name) type (Some data) es n m"

fun km_add_fields :: "km_add \<Rightarrow> kfield list \<Rightarrow> int \<times> kfield list" where
  "km_add_fields (Add_Data name type data fixed) fs =
    add_elements name type (if fixed then int (length data) else - 1) data (int (length data)) 1 fs"
| "km_add_fields (Add_Array name type es n data) fs = add_elements name type es data es n fs"

fun km_add_ok :: "km_add \<Rightarrow> bool" where
  "km_add_ok (Add_Data name type data fixed) \<longleftrightarrow> name_ok name \<and> type_ok type \<and> int (length data) \<le> INT_MAX"
| "km_add_ok (Add_Array name type es n data) \<longleftrightarrow>
    name_ok name \<and> type_ok type \<and> is_int32 es \<and> 0 \<le> es \<and> 0 \<le> n \<and> nat es * nat n \<le> length data"

primrec km_run :: "km_heap \<Rightarrow> km_add list \<Rightarrow> kmessage \<Rightarrow> (int list \<times> kmessage) option" where
  "km_run k [] m = Some ([], m)"
| "km_run k (a # as) m =
    do { (st, m1) \<leftarrow> km_add_step k a m; (sts, m2) \<leftarrow> km_run k as m1; Some (st # sts, m2) }"

primrec km_run_fields :: "km_add list \<Rightarrow> kfield list \<Rightarrow> int list \<times> kfield list" where
  "km_run_fields [] fs = ([], fs)"
| "km_run_fields (a # as) fs =
    (case km_add_fields a fs of (st, fs1) \<Rightarrow>
       (case km_run_fields as fs1 of (sts, fs2) \<Rightarrow> (st # sts, fs2)))"

lemma add_elements_fit:
  assumes "fields_fit_in lim (snd (add_elements name type fs_size data es n fs))"
  shows "fields_fit_in lim fs"
proof (cases "dropWhile (\<lambda>f. kf_name f \<noteq> name) fs")
  case Nil
  let ?g = "\<lparr>kf_name = name, kf_type = type, kf_size = fs_size, kf_values = chunks (nat es) (nat n) data\<rparr>"
  have "add_elements name type fs_size data es n fs = (B_OK, fs @ [?g])"
    unfolding add_elements_def Nil by simp
  then show ?thesis
    using assms next_pos_bounds(2) [of fs] field_end_gt [of "next_pos fs" ?g]
    by (auto simp: fields_fit_in_def next_pos_def)
next
  case (Cons f rest)
  show ?thesis
  proof (cases "snd (add_elements name type fs_size data es n fs) = fs")
    case False
    let ?us = "chunks (nat es) (nat n) data"
    define pre where "pre = butlast fs"
    have rest: "rest = []" using False Cons by (auto simp: add_elements_def split: if_splits)
    then have fs: "fs = pre @ [f]"
      using Cons by (metis append_butlast_last_id dropWhile_eq_Cons_conv last_snoc pre_def snoc_eq_iff_butlast)
    have "snd (add_elements name type fs_size data es n fs) = pre @ [with_values f (kf_values f @ ?us)]"
      using False Cons rest by (auto simp: add_elements_def pre_def split: if_splits)
    then have "fields_fit_in lim (pre @ [with_values f (kf_values f @ ?us)])" using assms by simp
    then show ?thesis
      using fs values_end_le [of "field_end (next_pos pre) f" "kf_size f" ?us]
      by (auto simp: fields_fit_in_def field_end_with_values next_pos_def)
  qed (use assms in simp)
qed

lemma km_add_step_ok:
  assumes "message_repr m info fs" "writable_in lim m" "heap_ok k" "km_add_ok a" "fields_fit_in lim (snd (km_add_fields a fs))"
  shows "\<exists>m'. km_add_step k a m = Some (fst (km_add_fields a fs), m') \<and>
    message_repr m' info (snd (km_add_fields a fs)) \<and> writable_in lim m'"
proof (cases a)
  case (Add_Data name type data fixed)
  let ?n = "int (length data)"
  have "is_int32 (if fixed then ?n else - 1)" using assms(4) Add_Data by (simp add: is_int32_def)
  then show ?thesis
    using add_to_field_ok [OF assms(1-3), of name type ?n 1 data "if fixed then ?n else - 1"] assms(4,5) Add_Data
    by (auto simp: KMessage_AddData_def type_ok_def)
next
  case (Add_Array name type es n data)
  then show ?thesis
    using add_to_field_ok [OF assms(1-3), of name type es n data es] assms(4,5)
    by (auto simp: KMessage_AddArray_def type_ok_def)
qed

lemma km_run_fit: "fields_fit_in lim (snd (km_run_fields as fs)) \<Longrightarrow> fields_fit_in lim fs"
proof (induction as arbitrary: fs)
  case (Cons a as)
  then have "fields_fit_in lim (snd (km_add_fields a fs))" by (simp split: prod.splits)
  then show ?case by (cases a) (auto dest: add_elements_fit)
qed simp

lemma km_run_ok:
  assumes "message_repr m info fs" "writable_in lim m" "heap_ok k" "\<forall>a\<in>set as. km_add_ok a"
    and "fields_fit_in lim (snd (km_run_fields as fs))"
  shows "\<exists>m'. km_run k as m = Some (fst (km_run_fields as fs), m') \<and>
    message_repr m' info (snd (km_run_fields as fs)) \<and> writable_in lim m'"
  using assms
proof (induction as arbitrary: m fs)
  case (Cons a as)
  obtain st fs1 where a: "km_add_fields a fs = (st, fs1)" by force
  have fit: "fields_fit_in lim (snd (km_run_fields as fs1))" using Cons.prems(5) a by (simp split: prod.splits)
  then have "fields_fit_in lim fs1" by (rule km_run_fit)
  then obtain m1 where m1: "km_add_step k a m = Some (st, m1)" "message_repr m1 info fs1" "writable_in lim m1"
    using km_add_step_ok [OF Cons.prems(1-3), of a] Cons.prems(4) a by auto
  from Cons.IH [OF m1(2,3) Cons.prems(3) _ fit] obtain m' where
    "km_run k as m1 = Some (fst (km_run_fields as fs1), m')" "message_repr m' info (snd (km_run_fields as fs1))"
    "writable_in lim m'" using Cons.prems(4) by auto
  then show ?case using m1(1) a by (cases "km_run_fields as fs1") simp
qed simp

text \<open>What a reader of a message gets: the bytes of an element.\<close>

definition km_read :: "kmessage \<Rightarrow> string \<Rightarrow> int \<Rightarrow> int \<Rightarrow> (int + byte list) option" where
  "km_read m name type i =
    do { r \<leftarrow> KMessage_FindData m (Some name) type i;
         case r of Inl st \<Rightarrow> Some (Inl st)
         | Inr (off, n) \<Rightarrow> do { bs \<leftarrow> peek (km_mem m) off n; Some (Inr bs) } }"

definition km_lookup :: "kfield list \<Rightarrow> string \<Rightarrow> int \<Rightarrow> int \<Rightarrow> int + byte list" where
  "km_lookup fs name type i =
    (case find (field_is name type) fs of
       None \<Rightarrow> Inl B_NAME_NOT_FOUND
     | Some f \<Rightarrow> if 0 \<le> i \<and> i < int (length (kf_values f)) then Inr (kf_values f ! nat i) else Inl B_BAD_INDEX)"

lemma km_read_ok:
  assumes "message_repr m info fs"
  shows "km_read m name type i = Some (km_lookup fs name type i)"
proof (cases "find (field_is name type) fs")
  case None
  then have "\<not> (\<exists>f\<in>set fs. field_is name type f)" by (auto simp: find_None_iff)
  then show ?thesis
    using None find_field_ok [OF assms, of name type] not_ok
    by (simp add: km_read_def km_lookup_def KMessage_FindData_def)
next
  case (Some f)
  define pre where "pre = takeWhile (\<lambda>f. \<not> field_is name type f) fs"
  have ex: "\<exists>f\<in>set fs. field_is name type f" using Some by (auto simp: find_Some_iff)
  have "dropWhile (\<lambda>f. \<not> field_is name type f) fs = f # tl (dropWhile (\<lambda>f. \<not> field_is name type f) fs)"
    using Some ex by (simp add: find_dropWhile comp_def split: list.splits)
  then have "fs = pre @ f # tl (dropWhile (\<lambda>f. \<not> field_is name type f) fs)"
    unfolding pre_def by (metis takeWhile_dropWhile_id)
  then obtain post where "fs = pre @ f # post" by blast
  then have msg: "message_repr m info (pre @ f # post)" using assms by simp
  note fld = message_field [OF msg] and el = element_at_ok [OF msg, of i]
  have found: "KMessage_FindField m (Some name) type = Some (B_OK, Some (next_pos pre))"
    using find_field_ok [OF assms, of name type] ex by (simp add: pre_def)
  show ?thesis
  proof (cases "0 \<le> i \<and> i < int (length (kf_values f))")
    case True
    then have "holds (km_mem m) (value_pos (next_pos pre) f (nat i)) (kf_values f ! nat i)" using el(2) by blast
    then show ?thesis
      using Some found fld(3) el(1) True
      by (simp add: km_read_def km_lookup_def KMessage_FindData_def KMessageField_ElementAt_def
          KMessageField_Header_def holds_def)
  next
    case False
    then have "FieldHeader_ElementAt m i False (next_pos pre) = Some None" using el(1) by (simp only: if_False)
    then show ?thesis
      using Some found fld(3) False
      by (auto simp: km_read_def km_lookup_def KMessage_FindData_def KMessageField_ElementAt_def
          KMessageField_Header_def)
  qed
qed

section \<open>Properties of messages\<close>

text \<open>
  C4: a message refines the list of its fields. Whatever is added to a fresh message by \<open>AddData\<close>
  and \<open>AddArray\<close>, every call returns the status that the list of fields demands (success for a new
  name and for the last field, B_BAD_TYPE for another type, B_BAD_VALUE for a field that is not the
  last or another element size), the buffer then stands for the list, and every element can be read
  back by name, type and index. The names are C strings short enough for the 16 bits of the header
  size, and the message stays below 2 GB.
\<close>

theorem message_refines_fields:
  assumes "self mod 4 = 0" "heap_ok k" "\<forall>a\<in>set as. km_add_ok a" "km_run_fields as [] = (sts, fs)" "fields_fit fs"
  shows "\<exists>m m'. KMessage_new self what = Some m \<and> km_run k as m = Some (sts, m') \<and>
    message_repr m' (what_info what) fs \<and>
    (\<forall>name type i. km_read m' name type i = Some (km_lookup fs name type i))"
proof -
  obtain m where m: "KMessage_new self what = Some m" "message_repr m (what_info what) []" "writable m"
    using message_new [OF assms(1)] .
  obtain m' where "km_run k as m = Some (sts, m')" "message_repr m' (what_info what) fs"
    using km_run_ok [OF m(2,3) assms(2,3)] assms(4,5) by auto
  then show ?thesis using m(1) km_read_ok by blast
qed

definition sample_heap :: km_heap where
  "sample_heap = \<lparr>heap_can = \<lambda>_. True, heap_addr = 4096, heap_byte = \<lambda>_. CHR 0x55\<rparr>"

definition sample_adds :: "km_add list" where
  "sample_adds = [Add_Data ''ev'' B_INT32_TYPE (le_bytes 4 7) True, Add_Data ''s'' B_STRING_TYPE ''abc'' False,
     Add_Data ''s'' B_STRING_TYPE ''x'' False, Add_Data ''ev'' B_INT32_TYPE (le_bytes 4 8) True]"

lemma sample_heap_ok: "heap_ok sample_heap"
  by (simp add: heap_ok_def sample_heap_def)

lemma sample_adds_ok: "\<forall>a\<in>set sample_adds. km_add_ok a"
  by (simp add: sample_adds_def name_ok_def type_ok_def B_INT32_TYPE_def B_STRING_TYPE_def B_ANY_TYPE_def)

definition sample_fields :: "kfield list" where
  "sample_fields =
    [\<lparr>kf_name = ''ev'', kf_type = B_INT32_TYPE, kf_size = 4, kf_values = [le_bytes 4 7]\<rparr>,
     \<lparr>kf_name = ''s'', kf_type = B_STRING_TYPE, kf_size = - 1, kf_values = [''abc'', ''x'']\<rparr>]"

lemma sample_adds_run: "km_run_fields sample_adds [] = ([B_OK, B_OK, B_OK, B_BAD_VALUE], sample_fields)"
  by (simp add: sample_adds_def add_elements_def sample_fields_def with_values_def)

lemma sample_fields_fit: "fields_fit sample_fields"
  by (simp add: sample_fields_def fields_fit_in_def field_end_def header_size_def value_end_def align4_eq)

lemma sample_message:
  obtains m m' where "KMessage_new 64 1 = Some m" "message_repr m (what_info 1) []"
    "km_run sample_heap sample_adds m = Some ([B_OK, B_OK, B_OK, B_BAD_VALUE], m')"
    "message_repr m' (what_info 1) sample_fields" "writable m'"
proof -
  have "(64 :: int) mod 4 = 0" by simp
  then obtain m where m: "KMessage_new 64 1 = Some m" "message_repr m (what_info 1) []" "writable m"
    by (rule message_new) (rule that)
  show ?thesis
    using km_run_ok [OF m(2,3) sample_heap_ok sample_adds_ok] sample_adds_run sample_fields_fit m(1,2) that
    by auto
qed

theorem message_refines_fields_witness:
  "\<exists>m m'. KMessage_new 64 1 = Some m \<and>
    km_run sample_heap sample_adds m = Some ([B_OK, B_OK, B_OK, B_BAD_VALUE], m') \<and>
    km_read m' ''s'' B_STRING_TYPE 1 = Some (Inr ''x'') \<and> km_read m' ''s'' B_ANY_TYPE 2 = Some (Inl B_BAD_INDEX)"
proof -
  have "km_lookup sample_fields ''s'' B_STRING_TYPE 1 = Inr ''x''"
    "km_lookup sample_fields ''s'' B_ANY_TYPE 2 = Inl B_BAD_INDEX"
    by (simp_all add: km_lookup_def sample_fields_def field_is_def B_INT32_TYPE_def B_STRING_TYPE_def B_ANY_TYPE_def)
  moreover have "(64 :: int) mod 4 = 0" by simp
  ultimately show ?thesis
    using message_refines_fields [OF _ sample_heap_ok sample_adds_ok sample_adds_run sample_fields_fit, of 64 1]
    by metis
qed

text \<open>
  C7: messages survive their delivery. The first \<open>ContentSize\<close> bytes of a message, which is what is
  written to a port, are accepted by \<open>SetTo\<close> in another process at any address, with or without the
  flags for cloning and for a read-only message, and stand for the same header and fields there: each
  element is read back unchanged.
\<close>

theorem message_roundtrip:
  assumes "message_repr m info fs" "heap_ok k" "km_self r mod 4 = 0" "KMessage_ContentSize m = Some n"
    and "flags AND KMESSAGE_INIT_FROM_BUFFER \<noteq> 0"
  shows "\<exists>r'. KMessage_SetTo_buffer k (Some (addr, take (nat n) (km_mem m))) n what flags r = Some (B_OK, r') \<and>
    message_repr r' info fs \<and> (\<forall>name type i. km_read r' name type i = km_read m name type i)"
proof -
  have n: "n = fields_end 28 fs" using message_content_size(1) [OF assms(1)] assms(4) by simp
  obtain r' where r': "KMessage_SetTo_buffer k (Some (addr, take (nat n) (km_mem m))) n what flags r = Some (B_OK, r')"
    "message_repr r' info fs"
    using receive_ok [OF assms(1,2,3,5) refl] n by blast
  then show ?thesis using km_read_ok [OF r'(2)] km_read_ok [OF assms(1)] by auto
qed

theorem message_roundtrip_witness:
  "\<exists>m m' n r'. KMessage_new 64 1 = Some m \<and> km_run sample_heap sample_adds m = Some ([B_OK, B_OK, B_OK, B_BAD_VALUE], m') \<and>
    KMessage_ContentSize m' = Some n \<and>
    KMessage_SetTo_buffer sample_heap (Some (8193, take (nat n) (km_mem m'))) n 0 KMESSAGE_INIT_FROM_BUFFER m =
      Some (B_OK, r') \<and> km_read r' ''ev'' B_INT32_TYPE 0 = Some (Inr (le_bytes 4 7))"
proof -
  obtain m m' where m: "KMessage_new 64 1 = Some m" "message_repr m (what_info 1) []"
    and m': "km_run sample_heap sample_adds m = Some ([B_OK, B_OK, B_OK, B_BAD_VALUE], m')"
    "message_repr m' (what_info 1) sample_fields" "writable m'"
    by (rule sample_message)
  have "km_self m mod 4 = 0" using m(2) by (simp add: message_repr_def)
  moreover have "km_read m' ''ev'' B_INT32_TYPE 0 = Some (Inr (le_bytes 4 7))"
    using km_read_ok [OF m'(2), of "''ev''" B_INT32_TYPE 0]
    by (simp add: km_lookup_def sample_fields_def field_is_def)
  moreover have "KMESSAGE_INIT_FROM_BUFFER AND KMESSAGE_INIT_FROM_BUFFER \<noteq> 0"
    by (simp add: KMESSAGE_INIT_FROM_BUFFER_def)
  ultimately show ?thesis
    using message_roundtrip [OF m'(2) sample_heap_ok _ message_content_size(1) [OF m'(2)]] m(1) m'(1)
      message_content_size(1) [OF m'(2)] by metis
qed

text \<open>
  \<open>SetData\<close> cannot replace a value. On a field of the right type and size that has an element
  the call runs into undefined behaviour: it asks \<open>ElementAt\<close> for the element without a place for the
  size, which is then written through a null pointer.
\<close>

theorem set_data_replaces_nothing:
  assumes "message_repr m info fs" "writable m" "find (\<lambda>f. kf_name f = name) fs = Some f"
    and "kf_size f \<ge> 0" "kf_values f \<noteq> []"
  shows "KMessage_SetData k (Some name) (kf_type f) data (kf_size f) m = None"
proof -
  define pre where "pre = takeWhile (\<lambda>f. kf_name f \<noteq> name) fs"
  have "dropWhile (\<lambda>f. kf_name f \<noteq> name) fs = f # tl (dropWhile (\<lambda>f. kf_name f \<noteq> name) fs)"
    using assms(3) by (simp add: find_dropWhile comp_def split: list.splits)
  then obtain post where fs: "fs = pre @ f # post" unfolding pre_def by (metis takeWhile_dropWhile_id)
  have msg: "message_repr m info (pre @ f # post)" using assms(1) fs by simp
  note fld = message_field [OF msg]
  note ints = field_header_ints [OF fld(1,2) message_field_ints [OF msg]]
  have "\<exists>f\<in>set fs. kf_name f = name" using assms(3) by (auto simp: find_Some_iff)
  then have found: "KMessage_FindField m (Some name) B_ANY_TYPE = Some (B_OK, Some (next_pos pre))"
    using find_by_name [OF assms(1), of name] by (simp add: pre_def)
  have "\<not> (\<not> km_inline m \<and> km_flags m AND KMESSAGE_READ_ONLY \<noteq> 0)" using assms(2) by (simp add: writable_in_def)
  then show ?thesis
    using found fld(3) ints assms(4,5)
    by (simp add: KMessage_SetData_def KMessageField_TypeCode_def KMessageField_HasFixedElementSize_def
        KMessageField_ElementSize_def KMessageField_CountElements_def KMessageField_ElementAt_def
        KMessageField_Header_def FieldHeader_ElementAt_def)
qed

theorem set_data_replaces_nothing_witness:
  "\<exists>m m'. KMessage_new 64 1 = Some m \<and> km_run sample_heap sample_adds m = Some ([B_OK, B_OK, B_OK, B_BAD_VALUE], m') \<and>
    KMessage_SetData sample_heap (Some ''ev'') B_INT32_TYPE (Some (le_bytes 4 9)) 4 m' = None"
proof -
  obtain m m' where m: "KMessage_new 64 1 = Some m" "message_repr m (what_info 1) []"
    and m': "km_run sample_heap sample_adds m = Some ([B_OK, B_OK, B_OK, B_BAD_VALUE], m')"
    "message_repr m' (what_info 1) sample_fields" "writable m'"
    by (rule sample_message)
  then show ?thesis
    using set_data_replaces_nothing [OF m'(2,3), of "''ev''" "hd sample_fields" sample_heap "Some (le_bytes 4 9)"] m(1)
    by (auto simp: sample_fields_def)
qed

text \<open>
  A field of fixed element size is accepted although its elements do not fit into the message: the
  size that they need is not compared with anything. Reading one of them leaves the buffer.
\<close>

declare check_fields.simps [code] find_field_loop.simps [code]

definition overlong_message :: "byte list" where
  "overlong_message =
    le_bytes 4 kMessageHeaderMagic @ le_bytes 4 48 @ le_bytes 20 0 @
    le_bytes 4 B_INT32_TYPE @ le_bytes 4 4 @ le_bytes 4 100 @ le_bytes 4 20 @ le_bytes 2 20 @ ''n'' @ [CHR 0x00]"

lemma overlong_field_is_accepted:
  "(case KMessage_SetTo_const sample_heap (Some (4096, overlong_message)) 48 0 (the (KMessage_new 64 0)) of
     Some (st, m) \<Rightarrow> st = B_OK \<and> KMessage_ContentSize m = Some 48 \<and>
       KMessage_FindData m (Some ''n'') B_INT32_TYPE 99 = Some (Inr (444, 4)) \<and>
       km_read m ''n'' B_INT32_TYPE 99 = None
   | None \<Rightarrow> False)"
  by code_simp

text \<open>
  A message that was read-only once stays so: \<open>SetTo(what)\<close> keeps the flags, so that the first field
  can be made, as the header moves to memory of its own, and its data are refused.
\<close>

lemma read_only_flag_sticks:
  "(case KMessage_SetTo_const sample_heap (Some (4096, overlong_message)) 48 0 (the (KMessage_new 64 0)) of
     Some (_, m) \<Rightarrow>
       (case KMessage_SetTo 1 m of
          Some (st, m1) \<Rightarrow>
            st = B_OK \<and>
            map_option fst (KMessage_AddData sample_heap (Some ''n'') B_INT32_TYPE (Some (le_bytes 4 7)) 4 True m1) =
              Some B_NOT_ALLOWED
        | None \<Rightarrow> False)
   | None \<Rightarrow> False)"
  by code_simp

end
