(* ===== verification/FsPath.thy ===== *)
theory FsPath
  imports Path
begin

text \<open>
  The lexical operations of \<open>std::filesystem::path\<close> the file system code relies on. A path is
  compared, hashed and iterated by its elements, so here it is the root flag and the list of the
  elements after the root; an empty last element stands for a trailing slash. The operations
  follow the C++ standard for POSIX paths.
\<close>

datatype fpath = FPath (fp_abs: bool) (fp_parts: "string list")

abbreviation fp_empty :: fpath where "fp_empty \<equiv> FPath False []"
abbreviation fp_root :: fpath where "fp_root \<equiv> FPath True []"

definition parse_path :: "path \<Rightarrow> fpath" where
  "parse_path p = FPath (is_absolute p)
    (names p @ (if names p \<noteq> [] \<and> last p = CHR ''/'' then [''''] else []))"

fun join_names :: "string list \<Rightarrow> string" where
  "join_names [] = []"
| "join_names [n] = n"
| "join_names (n # m # ns) = n @ ''/'' @ join_names (m # ns)"

definition path_string :: "fpath \<Rightarrow> path" where
  "path_string p = (if fp_abs p then ''/'' else []) @ join_names (fp_parts p)"

text \<open>The elements \<open>begin()\<close> to \<open>end()\<close> run over.\<close>

definition fp_elements :: "fpath \<Rightarrow> string list" where
  "fp_elements p = (if fp_abs p then [''/''] else []) @ fp_parts p"

definition fp_filename :: "fpath \<Rightarrow> string" where
  "fp_filename p = (if fp_parts p = [] then [] else last (fp_parts p))"

definition fp_parent :: "fpath \<Rightarrow> fpath" where
  "fp_parent p = FPath (fp_abs p) (butlast (fp_parts p))"

definition fp_has_parent :: "fpath \<Rightarrow> bool" where
  "fp_has_parent p \<longleftrightarrow> fp_parent p \<noteq> fp_empty"

definition fp_relative_path :: "fpath \<Rightarrow> fpath" where
  "fp_relative_path p = FPath False (fp_parts p)"

text \<open>\<open>operator/\<close>: an absolute right-hand side wins; an empty one adds a trailing slash.\<close>

definition strip_trailing :: "string list \<Rightarrow> string list" where
  "strip_trailing ps = (if ps \<noteq> [] \<and> last ps = [] then butlast ps else ps)"

definition fp_append :: "fpath \<Rightarrow> fpath \<Rightarrow> fpath" where
  "fp_append a b =
    (if fp_abs b then b
     else if fp_parts b = []
       then (if fp_filename a \<noteq> [] then FPath (fp_abs a) (fp_parts a @ [[]]) else a)
     else FPath (fp_abs a) (strip_trailing (fp_parts a) @ fp_parts b))"

text \<open>A single element as a path; \<open>fp_elem\<close> is for elements that include the root.\<close>

definition fp_name :: "string \<Rightarrow> fpath" where
  "fp_name n = FPath False (if n = [] then [] else [n])"

definition fp_elem :: "string \<Rightarrow> fpath" where
  "fp_elem e = (if e = ''/'' then fp_root else fp_name e)"

section \<open>Normal form\<close>

text \<open>
  The elements are read from the left onto a stack (top first); the flag says whether what has
  been built ends in a slash.
\<close>

definition normal_step :: "bool \<Rightarrow> string list \<times> bool \<Rightarrow> string \<Rightarrow> string list \<times> bool" where
  "normal_step rooted acc e =
    (let stk = fst acc in
     if e = [] \<or> e = ''.'' then (stk, stk \<noteq> [])
     else if e = ''..'' then
       (case stk of
          [] \<Rightarrow> (if rooted then ([], False) else ([''..''], False))
        | x # r \<Rightarrow> if x = ''..'' then (''..'' # stk, False) else (r, r \<noteq> []))
     else (e # stk, False))"

definition lexically_normal :: "fpath \<Rightarrow> fpath" where
  "lexically_normal p =
    (if p = fp_empty then p
     else let (stk, slash) = foldl (normal_step (fp_abs p)) ([], False) (fp_parts p) in
       if stk = [] then (if fp_abs p then fp_root else FPath False [''.''])
       else FPath (fp_abs p)
         (rev stk @ (if slash \<and> hd stk \<noteq> ''..'' then [[]] else [])))"

section \<open>Relative paths\<close>

fun mismatch_tails :: "string list \<Rightarrow> string list \<Rightarrow> string list \<times> string list" where
  "mismatch_tails (x # xs) (y # ys) =
    (if x = y then mismatch_tails xs ys else (x # xs, y # ys))"
| "mismatch_tails xs ys = (xs, ys)"

definition depth_of :: "string list \<Rightarrow> int" where
  "depth_of ps = sum_list (map (\<lambda>e. if e = ''..'' then -1 else if e \<noteq> [] \<and> e \<noteq> ''.'' then 1 else 0) ps)"

definition lexically_relative :: "fpath \<Rightarrow> fpath \<Rightarrow> fpath" where
  "lexically_relative p base =
    (if fp_abs p \<noteq> fp_abs base then fp_empty
     else let (a, b) = mismatch_tails (fp_parts p) (fp_parts base); n = depth_of b in
       if a = [] \<and> b = [] then FPath False [''.'']
       else if n = 0 \<and> (a = [] \<or> hd a = []) then FPath False [''.'']
       else if n \<ge> 0 then FPath False (replicate (nat n) ''..'' @ a)
       else fp_empty)"

text \<open>\<open>if (path.filename().empty()) path = path.parent_path();\<close>\<close>

definition drop_slash :: "fpath \<Rightarrow> fpath" where
  "drop_slash p = (if fp_filename p = [] then fp_parent p else p)"

text \<open>\<open>std::mismatch(p, r).second == r.end()\<close>: \<open>r\<close> is a prefix of \<open>p\<close>, element by element.\<close>

definition fp_under :: "fpath \<Rightarrow> fpath \<Rightarrow> bool" where
  "fp_under p r \<longleftrightarrow> take (length (fp_elements r)) (fp_elements p) = fp_elements r"

section \<open>Clean paths\<close>

text \<open>
  What \<open>_DoWork\<close> makes of a path: absolute, no dots and no trailing slash.
\<close>

definition proper_name :: "string \<Rightarrow> bool" where
  "proper_name n \<longleftrightarrow> n \<noteq> [] \<and> n \<noteq> ''.'' \<and> n \<noteq> ''..''"

definition clean_path :: "fpath \<Rightarrow> bool" where
  "clean_path p \<longleftrightarrow> fp_abs p \<and> list_all proper_name (fp_parts p)"

lemma normal_step_proper:
  "list_all proper_name (fst acc) \<Longrightarrow> list_all proper_name (fst (normal_step True acc e))"
  by (cases "fst acc") (auto simp: normal_step_def Let_def proper_name_def)

lemma normal_fold_proper:
  "list_all proper_name (fst acc) \<Longrightarrow>
    list_all proper_name (fst (foldl (normal_step True) acc ps))"
  by (induction ps arbitrary: acc) (simp_all add: normal_step_proper)

lemma normal_fold_names:
  "list_all proper_name ps \<Longrightarrow>
    foldl (normal_step rooted) (stk, s) ps = (rev ps @ stk, ps = [] \<and> s)"
  by (induction ps arbitrary: stk s) (auto simp: normal_step_def proper_name_def Let_def)

lemma proper_not_dots: "proper_name n \<Longrightarrow> n \<noteq> [] \<and> n \<noteq> ''.'' \<and> n \<noteq> ''..''"
  by (simp add: proper_name_def)

lemma lexically_normal_clean [simp]: "clean_path p \<Longrightarrow> lexically_normal p = p"
proof -
  assume c: "clean_path p"
  let ?r = "foldl (normal_step True) ([], False) (fp_parts p)"
  have r: "?r = (rev (fp_parts p), False)"
    using normal_fold_names [of "fp_parts p" True "[]" False] c by (auto simp: clean_path_def)
  show ?thesis
    using c r by (cases p) (auto simp: lexically_normal_def clean_path_def)
qed

lemma drop_slash_abs [simp]: "fp_abs (drop_slash p) = fp_abs p"
  by (simp add: drop_slash_def fp_parent_def)

lemma clean_drop_normal:
  assumes "fp_abs p"
  shows "clean_path (drop_slash (lexically_normal p))"
proof -
  let ?r = "foldl (normal_step True) ([], False) (fp_parts p)"
  have l: "list_all proper_name (fst ?r)" by (rule normal_fold_proper) simp
  obtain stk s where e: "?r = (stk, s)" by fastforce
  have stk: "list_all proper_name (rev stk)" using l e by (auto simp: list_all_iff)
  show ?thesis
  proof (cases "stk = []")
    case True
    then show ?thesis
      using assms e by (cases p) (auto simp: lexically_normal_def drop_slash_def clean_path_def
          fp_parent_def)
  next
    case False
    then have "proper_name (hd stk)" using stk by (simp add: list_all_iff)
    then show ?thesis
      using assms e stk False
      by (cases p) (auto simp: lexically_normal_def drop_slash_def clean_path_def fp_parent_def
          fp_filename_def last_rev dest: proper_not_dots)
  qed
qed

lemma clean_last: "clean_path p \<Longrightarrow> fp_parts p \<noteq> [] \<Longrightarrow> last (fp_parts p) \<noteq> []"
  using last_in_set [of "fp_parts p"] by (auto simp: clean_path_def list_all_iff proper_name_def)

lemma drop_slash_clean [simp]: "clean_path p \<Longrightarrow> drop_slash p = p"
  using clean_last [of p]
  by (cases p) (auto simp: drop_slash_def fp_filename_def fp_parent_def)

lemma clean_parent: "clean_path p \<Longrightarrow> clean_path (fp_parent p)"
  by (auto simp: clean_path_def fp_parent_def list_all_iff dest: in_set_butlastD)

lemma clean_rootI [simp]: "clean_path fp_root"
  by (simp add: clean_path_def)

section \<open>Below a directory\<close>

lemma last_nonempty: "[] \<notin> set xs \<Longrightarrow> xs \<noteq> [] \<Longrightarrow> last xs \<noteq> []"
  by (metis last_in_set)

lemma fp_append_name: "[] \<notin> set xs \<Longrightarrow> n \<noteq> [] \<Longrightarrow> fp_append (FPath r xs) (fp_name n) = FPath r (xs @ [n])"
  by (auto simp: fp_append_def fp_name_def strip_trailing_def last_nonempty)

lemma fp_append_slash: "[] \<notin> set xs \<Longrightarrow> xs \<noteq> [] \<Longrightarrow> fp_append (FPath r xs) (fp_name []) = FPath r (xs @ [[]])"
  by (auto simp: fp_append_def fp_name_def fp_filename_def last_nonempty)

lemma append_names: "[] \<notin> set xs \<Longrightarrow> [] \<notin> set ns \<Longrightarrow>
    foldl (\<lambda>q e. fp_append q (fp_name e)) (FPath r xs) ns = FPath r (xs @ ns)"
  by (induction ns arbitrary: xs) (auto simp: fp_append_name)

lemma clean_no_empty: "clean_path p \<Longrightarrow> [] \<notin> set (fp_parts p)"
  by (auto simp: clean_path_def list_all_iff proper_name_def)

lemma strip_trailing_clean: "clean_path p \<Longrightarrow> strip_trailing (fp_parts p) = fp_parts p"
  by (auto simp: strip_trailing_def dest: clean_last)

lemma mismatch_append: "mismatch_tails (xs @ ys) xs = (ys, [])"
  by (induction xs) (cases ys; simp)+

lemma depth_of_Nil [simp]: "depth_of [] = 0"
  by (simp add: depth_of_def)

lemma relative_below:
  "lexically_relative (FPath r (xs @ ys)) (FPath r xs) =
    FPath False (if ys = [] \<or> hd ys = [] then [''.''] else ys)"
  by (simp add: lexically_relative_def mismatch_append)

lemma relative_self: "lexically_relative p p = FPath False [''.'']"
  using relative_below [of "fp_abs p" "fp_parts p" "[]"] by simp

lemma fp_under_iff:
  "fp_abs p = fp_abs r \<Longrightarrow> fp_under p r \<longleftrightarrow> (\<exists>ys. fp_parts p = fp_parts r @ ys)"
  by (auto simp: fp_under_def fp_elements_def) (metis append_take_drop_id)+

end
