(* ===== verification/HostFs.thy ===== *)
theory HostFs
  imports FsPath UserMap Errno MemoryService "HOL-Library.Word"
begin

text \<open>
  What the file systems of the server use of the host: the file calls of
  \<^verbatim>\<open>sys/linux/server_native.cpp\<close> over the system calls of Linux, \<open>CppToB\<close> of
  \<^verbatim>\<open>server_errno.cpp\<close>, and the watches of \<^verbatim>\<open>sys/linux/server_inotify.cpp\<close>. The
  host's file system is a state of any type with the system calls as a record of functions on it.
\<close>

definition B_UNSUPPORTED :: int where [status_codes]: "B_UNSUPPORTED = B_STORAGE_ERROR_BASE + 14"
definition B_DEVICE_NOT_FOUND :: int where [status_codes]: "B_DEVICE_NOT_FOUND = HAIKU_POSIX_ENODEV"

section \<open>Calls that may not come back\<close>

text \<open>
  A call returns a value, is left by a \<open>std::system_error\<close> with an errno, does something C++
  gives no meaning (an index outside a vector, a failed assertion), or has used up the steps it
  was given. A call that is pending for every number of steps never returns.
\<close>

datatype 'a outcome = Returns 'a | Throws int | Undefined | Pending

primrec bind_outcome :: "'a outcome \<Rightarrow> ('a \<Rightarrow> 'b outcome) \<Rightarrow> 'b outcome" where
  "bind_outcome (Returns x) f = f x"
| "bind_outcome (Throws e) f = Throws e"
| "bind_outcome Undefined f = Undefined"
| "bind_outcome Pending f = Pending"

definition outcome_le :: "'a outcome \<Rightarrow> 'a outcome \<Rightarrow> bool" where
  "outcome_le a b \<longleftrightarrow> a = Pending \<or> a = b"

lemma outcome_le_refl [simp, intro]: "outcome_le a a"
  by (simp add: outcome_le_def)

lemma outcome_le_Pending [simp, intro]: "outcome_le Pending b"
  by (simp add: outcome_le_def)

lemma outcome_le_Returns: "outcome_le (Returns x) b \<Longrightarrow> b = Returns x"
  by (auto simp: outcome_le_def)

lemma bind_outcome_ReturnsE:
  assumes "bind_outcome a f = Returns y"
  obtains x where "a = Returns x" and "f x = Returns y"
  using assms by (cases a) auto

lemma bind_outcome_Pending_iff:
  "bind_outcome a f = Pending \<longleftrightarrow> a = Pending \<or> (\<exists>x. a = Returns x \<and> f x = Pending)"
  by (cases a) auto

lemma bind_outcome_mono:
  "outcome_le a b \<Longrightarrow> (\<And>x. outcome_le (f x) (g x)) \<Longrightarrow>
    outcome_le (bind_outcome a f) (bind_outcome b g)"
  by (cases a; cases b) (auto simp: outcome_le_def)

section \<open>Stat structures\<close>

record linux_stat =
  l_dev :: int
  l_ino :: int
  l_mode :: int
  l_nlink :: int
  l_uid :: int
  l_gid :: int
  l_size :: int
  l_rdev :: int
  l_blksize :: int
  l_atim :: "int \<times> int"
  l_mtim :: "int \<times> int"
  l_ctim :: "int \<times> int"
  l_blocks :: int

record haiku_stat =
  st_dev :: int
  st_ino :: int
  st_mode :: int
  st_nlink :: int
  st_uid :: int
  st_gid :: int
  st_size :: int
  st_rdev :: int
  st_blksize :: int
  st_atim :: "int \<times> int"
  st_mtim :: "int \<times> int"
  st_ctim :: "int \<times> int"
  st_crtim :: "int \<times> int"
  st_type :: int
  st_blocks :: int

definition to_int64 :: "int \<Rightarrow> int" where
  "to_int64 x = signed_take_bit 63 x"

definition B_STAT_MODE :: int where "B_STAT_MODE = 0x0001"
definition B_STAT_UID :: int where "B_STAT_UID = 0x0002"
definition B_STAT_GID :: int where "B_STAT_GID = 0x0004"
definition B_STAT_SIZE :: int where "B_STAT_SIZE = 0x0008"
definition B_STAT_ACCESS_TIME :: int where "B_STAT_ACCESS_TIME = 0x0010"
definition B_STAT_MODIFICATION_TIME :: int where "B_STAT_MODIFICATION_TIME = 0x0020"
definition HAIKU_UTIME_NOW :: int where "HAIKU_UTIME_NOW = 1000000000"

lemmas stat_mask_defs = B_STAT_MODE_def B_STAT_UID_def B_STAT_GID_def B_STAT_SIZE_def
  B_STAT_ACCESS_TIME_def B_STAT_MODIFICATION_TIME_def

text \<open>\<open>S_IFMT\<close>, \<open>S_IFLNK\<close> and \<open>S_IFDIR\<close> have the same values on Linux and Haiku.\<close>

definition is_link_mode :: "int \<Rightarrow> bool" where
  "is_link_mode mode \<longleftrightarrow> mode AND 0xF000 = 0xA000"

definition HAIKU_S_ISDIR :: "int \<Rightarrow> bool" where
  "HAIKU_S_ISDIR mode \<longleftrightarrow> mode AND 0xF000 = 0x4000"

section \<open>The host\<close>

record linux_statfs =
  f_bsize :: int
  f_blocks :: int
  f_bfree :: int
  f_files :: int
  f_ffree :: int

datatype utime = Omit | Now | At int int

text \<open>
  A failed call is \<open>Inl\<close> its errno, or a nonzero errno where there is no other result.
  \<open>op_write_file\<close> and \<open>op_append_file\<close> are an \<open>ofstream\<close> opened to truncate and in
  append mode, written once and closed; \<open>None\<close> if it does not open. \<open>op_remove\<close> and
  \<open>op_create_directories\<close> are the functions of the C++ library, for which a missing or an existing
  file is no error. The functions get the whole path; the host call behind them gets its C string,
  which ends at a zero byte in a name, so they answer for the path that is left then.
\<close>

record 'h fs_ops =
  op_lstat :: "'h \<Rightarrow> fpath \<Rightarrow> int + linux_stat"
  op_stat :: "'h \<Rightarrow> fpath \<Rightarrow> int + linux_stat"
  op_readlink :: "'h \<Rightarrow> fpath \<Rightarrow> int + fpath"
  op_lchmod :: "fpath \<Rightarrow> int \<Rightarrow> 'h \<Rightarrow> int \<times> 'h"
  op_lchown :: "fpath \<Rightarrow> int \<Rightarrow> int \<Rightarrow> 'h \<Rightarrow> int \<times> 'h"
  op_truncate :: "fpath \<Rightarrow> int \<Rightarrow> 'h \<Rightarrow> int \<times> 'h"
  op_utimensat :: "fpath \<Rightarrow> utime \<Rightarrow> utime \<Rightarrow> 'h \<Rightarrow> int \<times> 'h"
  op_exists :: "'h \<Rightarrow> fpath \<Rightarrow> bool"
  op_read_file :: "'h \<Rightarrow> fpath \<Rightarrow> byte list option"
  op_write_file :: "fpath \<Rightarrow> byte list \<Rightarrow> 'h \<Rightarrow> 'h option"
  op_append_file :: "fpath \<Rightarrow> byte list \<Rightarrow> 'h \<Rightarrow> 'h option"
  op_create_directories :: "fpath \<Rightarrow> 'h \<Rightarrow> int \<times> 'h"
  op_remove :: "fpath \<Rightarrow> 'h \<Rightarrow> int \<times> 'h"
  op_remove_all :: "fpath \<Rightarrow> 'h \<Rightarrow> 'h"
  op_symlink :: "fpath \<Rightarrow> fpath \<Rightarrow> 'h \<Rightarrow> int \<times> 'h"
  op_permit_all :: "fpath \<Rightarrow> 'h \<Rightarrow> 'h"
  op_statfs :: "'h \<Rightarrow> fpath \<Rightarrow> linux_statfs option"
  op_inotify_init :: "'h \<Rightarrow> (int + int) \<times> 'h"
  op_inotify_add_watch :: "int \<Rightarrow> fpath \<Rightarrow> 'h \<Rightarrow> (int + int) \<times> 'h"
  op_inotify_rm_watch :: "int \<Rightarrow> int \<Rightarrow> 'h \<Rightarrow> 'h"

text \<open>\<open>std::filesystem::symlink_status(path, ec)\<close>: the error code and whether it is a link.\<close>

definition symlink_status :: "'h fs_ops \<Rightarrow> 'h \<Rightarrow> fpath \<Rightarrow> int \<times> bool" where
  "symlink_status ops h p =
    (case op_lstat ops h p of Inl e \<Rightarrow> (e, False) | Inr st \<Rightarrow> (0, is_link_mode (l_mode st)))"

text \<open>\<open>None\<close>: the error code is thrown.\<close>

definition CppToB :: "int \<Rightarrow> int option" where
  "CppToB e =
    (if e = 2 then Some B_ENTRY_NOT_FOUND
     else if e = 13 then Some B_PERMISSION_DENIED
     else if e = 20 then Some B_NOT_A_DIRECTORY
     else if e = 36 then Some B_NAME_TOO_LONG
     else if e = 40 then Some B_LINK_LIMIT
     else None)"

text \<open>An overload without an error code throws.\<close>

definition throwing :: "('h \<Rightarrow> int \<times> 'h) \<Rightarrow> 'h \<Rightarrow> 'h outcome" where
  "throwing call h = (let (e, h') = call h in if e \<noteq> 0 then Throws e else Returns h')"

definition is_proc_fd_link :: "fpath \<Rightarrow> bool" where
  "is_proc_fd_link p =
    (let cs = fp_elements p
     in length cs > 4 \<and> cs ! 0 = ''/'' \<and> cs ! 1 = ''proc'' \<and> cs ! 3 = ''fd'')"

definition haiku_stat_of :: "user_map_service \<Rightarrow> linux_stat \<Rightarrow> haiku_stat" where
  "haiku_stat_of um l =
    \<lparr>st_dev = to_int32 (l_dev l), st_ino = to_int64 (l_ino l), st_mode = l_mode l,
     st_nlink = to_int32 (l_nlink l), st_uid = to_uint32 (GetUid um (l_uid l)),
     st_gid = to_uint32 (GetGid um (l_gid l)), st_size = l_size l,
     st_rdev = to_int32 (l_rdev l), st_blksize = to_int32 (l_blksize l),
     st_atim = l_atim l, st_mtim = l_mtim l, st_ctim = l_ctim l, st_crtim = (0, 0),
     st_type = 0, st_blocks = l_blocks l\<rparr>"

definition server_read_stat ::
    "'h fs_ops \<Rightarrow> user_map_service \<Rightarrow> 'h \<Rightarrow> fpath \<Rightarrow> haiku_stat \<Rightarrow> int \<times> haiku_stat" where
  "server_read_stat ops um h p st =
    (case (if is_proc_fd_link p then op_stat ops h p else op_lstat ops h p) of
       Inl e \<Rightarrow> (LinuxToB e, st)
     | Inr l \<Rightarrow> (B_OK, haiku_stat_of um l))"

text \<open>One step of \<open>server_write_stat\<close>: skipped, or a call whose failure ends the function.\<close>

definition stat_step :: "bool \<Rightarrow> ('h \<Rightarrow> int \<times> 'h) \<Rightarrow> ('h \<Rightarrow> int \<times> 'h) \<Rightarrow> 'h \<Rightarrow> int \<times> 'h" where
  "stat_step wanted call rest h =
    (if wanted then
       (let (e, h') = call h in if e \<noteq> 0 then (LinuxToB e, h') else rest h')
     else rest h)"

definition utime_arg :: "bool \<Rightarrow> int \<times> int \<Rightarrow> utime" where
  "utime_arg wanted t =
    (if \<not> wanted then Omit else if snd t = HAIKU_UTIME_NOW then Now else At (fst t) (snd t))"

definition server_write_stat ::
    "'h fs_ops \<Rightarrow> user_map_service \<Rightarrow> fpath \<Rightarrow> haiku_stat \<Rightarrow> int \<Rightarrow> 'h \<Rightarrow> int \<times> 'h" where
  "server_write_stat ops um p st m =
    (let wants = (\<lambda>f. m AND f \<noteq> 0) in
     stat_step (wants B_STAT_MODE) (op_lchmod ops p (st_mode st))
     (stat_step (wants (B_STAT_UID OR B_STAT_GID))
       (op_lchown ops p
          (if wants B_STAT_UID then GetHostUid um (to_int32 (st_uid st)) else -1)
          (if wants B_STAT_GID then GetHostGid um (to_int32 (st_gid st)) else -1))
     (stat_step (wants B_STAT_SIZE) (op_truncate ops p (st_size st))
     (stat_step (wants (B_STAT_ACCESS_TIME OR B_STAT_MODIFICATION_TIME))
       (op_utimensat ops p (utime_arg (wants B_STAT_ACCESS_TIME) (st_atim st))
          (utime_arg (wants B_STAT_MODIFICATION_TIME) (st_mtim st)))
     (\<lambda>h. (B_OK, h))))))"

lemma symlink_status_ok: "symlink_status ops h p = (0, b) \<Longrightarrow>
    (\<exists>l. op_lstat ops h p = Inr l \<and> b = is_link_mode (l_mode l)) \<or> op_lstat ops h p = Inl 0"
  by (auto simp: symlink_status_def split: sum.splits)

text \<open>
  Giving a file to a user the map does not know asks the host to leave the owner alone, and
  reports success.
\<close>

lemma chown_to_unmapped_user_does_nothing:
  assumes "uidReverseMap um (to_int32 (st_uid st)) = None"
  shows "server_write_stat ops um p st B_STAT_UID h =
    (let (e, h') = op_lchown ops p (-1) (-1) h in if e \<noteq> 0 then (LinuxToB e, h') else (B_OK, h'))"
  using assms
  by (simp add: server_write_stat_def stat_step_def stat_mask_defs Let_def GetHostUid_def
      cong: if_cong)

section \<open>Inode numbers\<close>

text \<open>
  \<open>_Hash\<close> of \<^verbatim>\<open>hostfs.cpp\<close> and \<^verbatim>\<open>bindfs.cpp\<close>, in the 64 bits of
  \<open>haiku_ino_t\<close>; the bytes are signed.
\<close>

definition hash_step :: "64 word \<Rightarrow> byte \<Rightarrow> 64 word" where
  "hash_step r b =
    word_of_int (signed_take_bit 7 (of_char b)) + push_bit 6 r + push_bit 16 r - r"

definition fs_Hash :: "int \<Rightarrow> int \<Rightarrow> int" where
  "fs_Hash hostDev hostIno =
    sint (foldl hash_step 0 (le_bytes 8 (to_uint64 hostDev) @ le_bytes 8 (to_uint64 hostIno)))"

section \<open>Native watches\<close>

text \<open>
  The static variables of \<^verbatim>\<open>server_inotify.cpp\<close>. \<open>in_once\<close> is the flag of
  \<open>call_once\<close>; the thread that reads the descriptor is not part of the state.
\<close>

text \<open>\<open>EntryRef(dev, ino)\<close>: both are widened to 64 unsigned bits.\<close>

definition ref_of :: "int \<Rightarrow> int \<Rightarrow> entry_ref" where
  "ref_of dev ino = EntryRef (to_uint64 dev) (to_uint64 ino)"

record inotify =
  in_fd :: int
  in_once :: bool
  in_status :: int
  in_listeners :: "int \<Rightarrow> entry_ref list"
  in_watches :: "entry_ref \<rightharpoonup> int"

definition inotify_idle :: inotify where
  "inotify_idle = \<lparr>in_fd = -1, in_once = False, in_status = B_NO_INIT, in_listeners = (\<lambda>_. []),
     in_watches = Map.empty\<rparr>"

text \<open>The status of a failed \<open>inotify_init\<close> is set and then overwritten.\<close>

definition server_init_inotify :: "'h fs_ops \<Rightarrow> inotify \<Rightarrow> 'h \<Rightarrow> inotify \<times> 'h" where
  "server_init_inotify ops s h =
    (let (r, h') = op_inotify_init ops h;
         s1 = (case r of
             Inl e \<Rightarrow> s\<lparr>in_fd := -1, in_status := LinuxToB e\<rparr>
           | Inr fd \<Rightarrow> s\<lparr>in_fd := fd\<rparr>)
     in (s1\<lparr>in_status := B_OK\<rparr>, h'))"

definition call_once_inotify :: "'h fs_ops \<Rightarrow> inotify \<Rightarrow> 'h \<Rightarrow> inotify \<times> 'h" where
  "call_once_inotify ops s h =
    (if in_once s then (s, h)
     else let (s', h') = server_init_inotify ops s h in (s'\<lparr>in_once := True\<rparr>, h'))"

text \<open>The assertion is that the node is not watched yet.\<close>

definition server_add_native_monitor ::
    "'h fs_ops \<Rightarrow> fpath \<Rightarrow> int \<Rightarrow> int \<Rightarrow> inotify \<Rightarrow> 'h \<Rightarrow> (int \<times> inotify \<times> 'h) outcome" where
  "server_add_native_monitor ops p dev node s h =
    (let (s1, h1) = call_once_inotify ops s h in
     if in_status s1 \<noteq> B_OK then Returns (in_status s1, s1, h1)
     else let (r, h2) = op_inotify_add_watch ops (in_fd s1) p h1 in
       case r of
         Inl e \<Rightarrow> Returns (LinuxToB e, s1, h2)
       | Inr wd \<Rightarrow>
           (if ref_of dev node \<in> set (in_listeners s1 wd) then Undefined
            else Returns (B_OK,
              s1\<lparr>in_listeners := (in_listeners s1)(wd := ref_of dev node # in_listeners s1 wd),
                 in_watches := (in_watches s1)(ref_of dev node \<mapsto> wd)\<rparr>, h2)))"

definition server_remove_native_monitor ::
    "'h fs_ops \<Rightarrow> int \<Rightarrow> int \<Rightarrow> inotify \<Rightarrow> 'h \<Rightarrow> int \<times> inotify \<times> 'h" where
  "server_remove_native_monitor ops dev node s h =
    (if in_status s \<noteq> B_OK then (in_status s, s, h)
     else case in_watches s (ref_of dev node) of
       None \<Rightarrow> (B_BAD_VALUE, s, h)
     | Some wd \<Rightarrow>
         (let rest = removeAll (ref_of dev node) (in_listeners s wd) in
          (B_OK,
           s\<lparr>in_listeners := (in_listeners s)(wd := rest),
             in_watches := (in_watches s)(ref_of dev node := None)\<rparr>,
           if rest = [] then op_inotify_rm_watch ops (in_fd s) wd h else h)))"

text \<open>
  Every watch is listed under its descriptor and every listed node has that watch: a node is
  watched once.
\<close>

definition inotify_ok :: "inotify \<Rightarrow> bool" where
  "inotify_ok s \<longleftrightarrow> (\<forall>r wd. in_watches s r = Some wd \<longleftrightarrow> r \<in> set (in_listeners s wd))"

lemma inotify_ok_idle: "inotify_ok inotify_idle"
  by (simp add: inotify_ok_def inotify_idle_def)

lemma call_once_inotify_tables:
  "call_once_inotify ops s h = (s', h') \<Longrightarrow>
    in_listeners s' = in_listeners s \<and> in_watches s' = in_watches s"
  by (auto simp: call_once_inotify_def server_init_inotify_def Let_def split: if_splits prod.splits
      sum.splits)

lemma inotify_init_failure_hidden:
  assumes "\<not> in_once s" and "op_inotify_init ops h = (Inl e, h')"
  shows "call_once_inotify ops s h = (s\<lparr>in_fd := -1, in_once := True, in_status := B_OK\<rparr>, h')"
  using assms by (simp add: call_once_inotify_def server_init_inotify_def)

lemma add_native_monitor_ok:
  assumes "inotify_ok s" and "in_watches s (ref_of dev node) = None"
    and "server_add_native_monitor ops p dev node s h = Returns (r, s', h')"
  shows "inotify_ok s'"
proof -
  obtain s1 h1 where c: "call_once_inotify ops s h = (s1, h1)" by fastforce
  have t: "in_listeners s1 = in_listeners s" "in_watches s1 = in_watches s"
    using call_once_inotify_tables [OF c] by auto
  have "ref_of dev node \<notin> set (in_listeners s wd)" for wd
    using assms(1,2) unfolding inotify_ok_def by (metis option.distinct(1))
  then show ?thesis
    using assms c t
    by (auto simp: server_add_native_monitor_def inotify_ok_def Let_def split: if_splits prod.splits
        sum.splits)
qed

lemma remove_native_monitor_ok:
  assumes "inotify_ok s" and "server_remove_native_monitor ops dev node s h = (r, s', h')"
  shows "inotify_ok s'"
proof (cases "in_status s = B_OK \<and> in_watches s (ref_of dev node) \<noteq> None")
  case True
  then obtain wd where wd: "in_watches s (ref_of dev node) = Some wd" by blast
  define rest where "rest = removeAll (ref_of dev node) (in_listeners s wd)"
  have "set rest = set (in_listeners s wd) - {ref_of dev node}" by (simp add: rest_def)
  moreover have "s' = s\<lparr>in_listeners := (in_listeners s)(wd := rest),
      in_watches := (in_watches s)(ref_of dev node := None)\<rparr>"
    using assms(2) True wd by (simp add: server_remove_native_monitor_def rest_def Let_def)
  moreover have "ref_of dev node \<in> set (in_listeners s w) \<longleftrightarrow> w = wd" for w
    using assms(1) wd by (metis inotify_ok_def option.inject)
  ultimately show ?thesis
    using assms(1) by (auto simp: inotify_ok_def)
next
  case False
  then have "s' = s"
    using assms(2) by (auto simp: server_remove_native_monitor_def split: if_splits option.splits)
  then show ?thesis using assms(1) by simp
qed

lemma watched_once:
  "inotify_ok s \<Longrightarrow> in_watches s r = Some wd \<Longrightarrow> r \<in> set (in_listeners s wd') \<Longrightarrow> wd' = wd"
  by (metis inotify_ok_def option.inject)

end
