(* ===== verification/PackageAttrs.thy ===== *)
theory PackageAttrs
  imports HostFs
begin

text \<open>
  The extended attributes of \<^verbatim>\<open>hyclone_server/fs/packagefs.cpp\<close>. An attribute of a file is
  a file of its own under \<^verbatim>\<open>.hyclone.pkgfsattrs\<close>: the directories on the way have the names of
  the path behind an \<open>f\<close>, the data is under an \<open>a\<close>, the type code under a \<open>t\<close>, and the
  attribute's name is escaped.
\<close>

definition relativeAttributesPath :: fpath where
  "relativeAttributesPath = FPath False [''.hyclone.pkgfsattrs'']"

definition relativeInstalledPackagesPath :: fpath where
  "relativeInstalledPackagesPath = FPath False [''.hpkgvfsPackages'']"

section \<open>Attribute names\<close>

text \<open>The case of the underscore runs on into the default case.\<close>

definition escape_char :: "char \<Rightarrow> string" where
  "escape_char c =
    (if c = CHR ''/'' then ''_s''
     else if c = CHR ''.'' then ''_d''
     else if c = CHR ''_'' then ''_u'' @ [c]
     else [c])"

definition escape_name :: "string \<Rightarrow> string" where
  "escape_name n = CHR ''a'' # concat (map escape_char n)"

fun unescape_loop :: "string \<Rightarrow> string" where
  "unescape_loop [] = []"
| "unescape_loop [c] = [c]"
| "unescape_loop (c # x # r) =
    (if c = CHR ''_'' then
       (if x = CHR ''s'' then CHR ''/'' # unescape_loop r
        else if x = CHR ''d'' then CHR ''.'' # unescape_loop r
        else if x = CHR ''u'' then CHR ''_'' # unescape_loop r
        else CHR ''_'' # x # unescape_loop r)
     else c # unescape_loop (x # r))"

definition UnescapeAttrName :: "string \<Rightarrow> string" where
  "UnescapeAttrName n = unescape_loop (drop 1 n)"

definition GetAttrPathInternal :: "fpath \<Rightarrow> string \<Rightarrow> fpath" where
  "GetAttrPathInternal p n =
    (let dir = foldl (\<lambda>r part. fp_append r (fp_name (CHR ''f'' # part))) relativeAttributesPath
                 (fp_elements p)
     in if n = [] then dir else fp_append dir (fp_name (escape_name n)))"

text \<open>\<open>attrTypeName[0] = PACKAGEFS_ATTREMU_TYPE\<close>\<close>

definition type_file :: "fpath \<Rightarrow> fpath" where
  "type_file p = fp_append (fp_parent p) (fp_name (CHR ''t'' # drop 1 (fp_filename p)))"

section \<open>Operations\<close>

record attr_info =
  at_type :: "byte list"
  at_size :: int

definition attr_host_path :: "fpath \<Rightarrow> fpath \<Rightarrow> fpath \<Rightarrow> string \<Rightarrow> fpath" where
  "attr_host_path hostRoot root p n =
    fp_append hostRoot (GetAttrPathInternal (lexically_relative p root) n)"

text \<open>The part of \<open>GetAttrPath\<close> after the host path of the file has been found.\<close>

definition packagefs_attr_path ::
    "'h fs_ops \<Rightarrow> fpath \<Rightarrow> fpath \<Rightarrow> fpath \<Rightarrow> string \<Rightarrow> byte list \<Rightarrow> bool \<Rightarrow> 'h \<Rightarrow>
      (fpath \<times> 'h) outcome" where
  "packagefs_attr_path ops hostRoot root p n ty createNew h =
    (let rel = GetAttrPathInternal (lexically_relative p hostRoot) n;
         hp = fp_append hostRoot rel
     in bind_outcome
         (if n = [] then throwing (op_create_directories ops hp) h
          else if createNew \<and> \<not> op_exists ops h hp then
            bind_outcome (throwing (op_create_directories ops (fp_parent hp)) h) (\<lambda>h1.
              Returns (case op_write_file ops (type_file hp) ty h1 of None \<Rightarrow> h1 | Some h2 \<Rightarrow> h2))
          else Returns h)
         (\<lambda>h'. Returns (fp_append root rel, h')))"

definition packagefs_StatAttr ::
    "'h fs_ops \<Rightarrow> fpath \<Rightarrow> fpath \<Rightarrow> 'h \<Rightarrow> fpath \<Rightarrow> string \<Rightarrow> attr_info \<Rightarrow> int \<times> attr_info" where
  "packagefs_StatAttr ops hostRoot root h p n info =
    (let hp = attr_host_path hostRoot root p n in
     if \<not> op_exists ops h hp then (B_ENTRY_NOT_FOUND, info)
     else
       (let ty = (case op_read_file ops h (type_file hp) of None \<Rightarrow> [] | Some bs \<Rightarrow> take 4 bs);
            size = (case op_read_file ops h hp of None \<Rightarrow> -1 | Some bs \<Rightarrow> int (length bs))
        in (B_OK, info\<lparr>at_type := ty @ drop (length ty) (at_type info), at_size := size\<rparr>)))"

text \<open>The bytes read replace the front of the buffer; the result is their number.\<close>

definition packagefs_ReadAttr ::
    "'h fs_ops \<Rightarrow> fpath \<Rightarrow> fpath \<Rightarrow> 'h \<Rightarrow> fpath \<Rightarrow> string \<Rightarrow> nat \<Rightarrow> byte list \<Rightarrow> int \<times> byte list" where
  "packagefs_ReadAttr ops hostRoot root h p n pos buf =
    (case op_read_file ops h (attr_host_path hostRoot root p n) of
       None \<Rightarrow> (B_ENTRY_NOT_FOUND, buf)
     | Some content \<Rightarrow>
         (let bs = take (length buf) (drop pos content)
          in (int (length bs), bs @ drop (length bs) buf)))"

text \<open>
  In append mode the seek is undone by the write, which goes to the end of the file. A type file
  that does not open is ignored.
\<close>

definition packagefs_WriteAttr ::
    "'h fs_ops \<Rightarrow> fpath \<Rightarrow> fpath \<Rightarrow> fpath \<Rightarrow> string \<Rightarrow> byte list \<Rightarrow> nat \<Rightarrow> byte list \<Rightarrow> 'h \<Rightarrow>
      (int \<times> 'h) outcome" where
  "packagefs_WriteAttr ops hostRoot root p n ty pos buf h =
    (let hp = attr_host_path hostRoot root p n in
     bind_outcome
       (if op_exists ops h (fp_parent hp) then Returns h
        else throwing (op_create_directories ops (fp_parent hp)) h)
       (\<lambda>h1. case (if pos = 0 then op_write_file ops hp buf h1 else op_append_file ops hp buf h1) of
          None \<Rightarrow> Returns (B_ENTRY_NOT_FOUND, h1)
        | Some h2 \<Rightarrow>
            Returns (int (length buf),
              case op_write_file ops (type_file hp) ty h2 of None \<Rightarrow> h2 | Some h3 \<Rightarrow> h3)))"

definition packagefs_RemoveAttr ::
    "'h fs_ops \<Rightarrow> fpath \<Rightarrow> fpath \<Rightarrow> fpath \<Rightarrow> string \<Rightarrow> 'h \<Rightarrow> (int \<times> 'h) outcome" where
  "packagefs_RemoveAttr ops hostRoot root p n h =
    (let hp = attr_host_path hostRoot root p n; (e, h1) = op_remove ops hp h in
     if e \<noteq> 0 then (case CppToB e of None \<Rightarrow> Throws e | Some s \<Rightarrow> Returns (s, h1))
     else Returns (B_OK, snd (op_remove ops (type_file hp) h1)))"

section \<open>Names are escaped injectively\<close>

lemma escape_char_eq_iff:
  "escape_char c @ s = escape_char d @ t \<longleftrightarrow> c = d \<and> s = t"
  by (auto simp: escape_char_def)

lemma escape_chars_inj: "concat (map escape_char m) = concat (map escape_char n) \<Longrightarrow> m = n"
proof (induction m arbitrary: n)
  case Nil
  have "escape_char c \<noteq> []" for c by (simp add: escape_char_def)
  then show ?case using Nil by (cases n) auto
next
  case (Cons c m)
  have "escape_char c \<noteq> []" for c by (simp add: escape_char_def)
  then obtain d n' where n: "n = d # n'" using Cons.prems by (cases n) auto
  then show ?case using Cons by (simp add: escape_char_eq_iff)
qed

lemma escape_name_inj: "escape_name m = escape_name n \<longleftrightarrow> m = n"
  using escape_chars_inj by (auto simp: escape_name_def)

lemma escape_name_no_slash: "CHR ''/'' \<notin> set (escape_name n)"
  by (induction n) (auto simp: escape_name_def escape_char_def)

section \<open>Which names survive\<close>

text \<open>What \<open>UnescapeAttrName\<close> makes of an escaped name, and of one behind a stray underscore.\<close>

abbreviation readback :: "string \<Rightarrow> string" where
  "readback n \<equiv> unescape_loop (concat (map escape_char n))"

abbreviation stray :: "string \<Rightarrow> string" where
  "stray n \<equiv> unescape_loop (CHR ''_'' # concat (map escape_char n))"

lemma unescape_plain: "c \<noteq> CHR ''_'' \<Longrightarrow> unescape_loop (c # r) = c # unescape_loop r"
  by (cases r) auto

lemma back_Cons: "readback (c # n) = (if c = CHR ''_'' then CHR ''_'' # stray n else c # readback n)"
  by (auto simp: escape_char_def unescape_plain)

lemma stray_Cons: "stray (c # n) =
    (if c = CHR ''_'' then ''__u'' @ stray n
     else if c = CHR ''/'' then ''__s'' @ readback n
     else if c = CHR ''.'' then ''__d'' @ readback n
     else if c = CHR ''s'' then CHR ''/'' # readback n
     else if c = CHR ''d'' then CHR ''.'' # readback n
     else if c = CHR ''u'' then CHR ''_'' # readback n
     else CHR ''_'' # c # readback n)"
  by (auto simp: escape_char_def unescape_plain)

lemma back_stray_length: "length n \<le> length (readback n) \<and> length n \<le> length (stray n)"
proof (induction n)
  case (Cons c n)
  then show ?case
    unfolding back_Cons stray_Cons by (simp split: if_split)
qed simp

lemma stray_differs: "stray n \<noteq> n"
proof (cases n)
  case (Cons c m)
  have "length m \<le> length (readback m)" "length m \<le> length (stray m)"
    using back_stray_length by auto
  moreover from this have "\<And>x y. x # y # stray m \<noteq> m" "\<And>x y. x # y # readback m \<noteq> m"
      "\<And>x. x # readback m \<noteq> m"
    by (metis length_Cons not_less_eq_eq le_SucI)+
  ultimately show ?thesis
    unfolding Cons stray_Cons by (simp split: if_split)
qed simp

lemma back_iff: "readback n = n \<longleftrightarrow> CHR ''_'' \<notin> set n"
proof (induction n)
  case (Cons c n)
  then show ?case
    unfolding back_Cons by (simp add: stray_differs split: if_split)
qed simp

text \<open>
  An attribute's name comes back from the name of its file exactly when it has no underscore:
  \<open>UnescapeAttrName\<close> undoes the escaping of slashes and dots, but an underscore is written as
  \<open>_u_\<close> and never read back as one. Different names still have different files, none of them in
  another directory.
\<close>

theorem attr_name_roundtrip_iff:
  "(UnescapeAttrName (escape_name n) = n \<longleftrightarrow> CHR ''_'' \<notin> set n) \<and>
   (escape_name m = escape_name n \<longleftrightarrow> m = n) \<and> CHR ''/'' \<notin> set (escape_name n)"
  using back_iff [of n] escape_name_inj escape_name_no_slash
  by (simp add: UnescapeAttrName_def escape_name_def)

lemma underscore_doubles: "UnescapeAttrName (escape_name ''BEOS_APP'') = ''BEOS__APP''"
  by (simp add: UnescapeAttrName_def escape_name_def escape_char_def)

text \<open>
  A write behind the start of an attribute ignores the position: it is the same for every one.
\<close>

lemma write_attr_ignores_position:
  assumes "pos \<noteq> 0" and "pos' \<noteq> 0"
  shows "packagefs_WriteAttr ops hostRoot root p n ty pos buf h =
    packagefs_WriteAttr ops hostRoot root p n ty pos' buf h"
  using assms by (simp add: packagefs_WriteAttr_def)

end
