(* ===== verification/Vfs.thy ===== *)
theory Vfs
  imports PackageAttrs IdMap
begin

text \<open>
  The virtual file system: \<^verbatim>\<open>hyclone_server/server_vfs.h\<close>, \<^verbatim>\<open>server_vfs.cpp\<close>
  and the file systems of \<^verbatim>\<open>hyclone_server/fs\<close>. A device is a record with its class; a
  virtual function is a case distinction over the class. \<open>_DoWork\<close> finds the device of a path
  and calls it until no symbolic link is left; it gets a number of rounds, and every call of the
  service from inside a device gets one less.
\<close>

section \<open>Devices\<close>

record fs_info =
  fi_dev :: int
  fi_root :: int
  fi_flags :: int
  fi_block_size :: int
  fi_io_size :: int
  fi_total_blocks :: int
  fi_free_blocks :: int
  fi_total_nodes :: int
  fi_free_nodes :: int
  fi_device_name :: string
  fi_volume_name :: string
  fi_fsh_name :: string

text \<open>The host directory of a \<open>HostfsDevice\<close>, the bound directory of a \<open>BindfsDevice\<close>.\<close>

datatype device_class =
    RootfsDevice fpath
  | DevfsDevice fpath
  | SystemfsDevice fpath
  | RamfsDevice fpath
  | PackagefsDevice fpath int
  | BindfsDevice fpath

record vfs_device =
  dv_info :: fs_info
  dv_root :: fpath
  dv_mountFlags :: int
  dv_class :: device_class

fun host_root :: "device_class \<Rightarrow> fpath option" where
  "host_root (RootfsDevice r) = Some r"
| "host_root (DevfsDevice r) = Some r"
| "host_root (SystemfsDevice r) = Some r"
| "host_root (RamfsDevice r) = Some r"
| "host_root (PackagefsDevice r _) = Some r"
| "host_root (BindfsDevice _) = None"

abbreviation GetId :: "vfs_device \<Rightarrow> int" where
  "GetId d \<equiv> fi_dev (dv_info d)"

type_synonym mounts = "fpath \<rightharpoonup> vfs_device"

text \<open>
  What a call runs in: the host's calls, the user map, the root of the calling team, the prefix of
  the installation, and what an uninitialised \<open>_info\<close> holds. The extraction and the removal of
  packages, which rest on the library \<open>libhpkg\<close>, are what they do to the host.
\<close>

record 'h vfs_env =
  env_ops :: "'h fs_ops"
  env_usermap :: user_map_service
  env_root :: fpath
  env_prefix :: path
  env_junk :: fs_info
  env_pkg_install :: "fpath \<Rightarrow> fpath \<Rightarrow> 'h \<Rightarrow> 'h outcome"
  env_pkg_cleanup :: "fpath \<Rightarrow> 'h \<Rightarrow> (int \<times> 'h) outcome"

section \<open>\<open>HostfsDevice\<close>\<close>

definition Rootfs_IsBlacklisted :: "fpath \<Rightarrow> fpath \<Rightarrow> bool" where
  "Rootfs_IsBlacklisted hostRoot hostPath =
    (let p = path_string (lexically_normal hostPath);
         prefix = path_string (fp_append hostRoot (fp_name ''.hyclone''))
     in take (length prefix) p = prefix)"

definition Packagefs_IsBlacklisted :: "fpath \<Rightarrow> fpath \<Rightarrow> bool" where
  "Packagefs_IsBlacklisted hostRoot hostPath =
    (lexically_relative hostPath hostRoot = relativeInstalledPackagesPath \<or>
     lexically_relative hostPath hostRoot = relativeAttributesPath)"

fun IsBlacklisted :: "device_class \<Rightarrow> fpath \<Rightarrow> bool" where
  "IsBlacklisted (RootfsDevice r) p = Rootfs_IsBlacklisted r p"
| "IsBlacklisted (PackagefsDevice r _) p = Packagefs_IsBlacklisted r p"
| "IsBlacklisted _ p = False"

text \<open>\<open>return CppToB(ec)\<close> with the path and the flag as they are.\<close>

definition cpp_result :: "int \<Rightarrow> fpath \<Rightarrow> bool \<Rightarrow> (int \<times> fpath \<times> bool) outcome" where
  "cpp_result e p isSymlink = (case CppToB e of None \<Rightarrow> Throws e | Some s \<Rightarrow> Returns (s, p, isSymlink))"

text \<open>Where a link found at \<open>path\<close> leads, with the rest of the path behind it.\<close>

definition link_target :: "fpath \<Rightarrow> fpath \<Rightarrow> fpath \<Rightarrow> string list \<Rightarrow> fpath" where
  "link_target croot path l rest =
    (let p = (if fp_abs l then fp_append croot (fp_relative_path l) else fp_append (fp_parent path) l)
     in lexically_normal (foldl (\<lambda>q e. fp_append q (fp_name e)) p rest))"

text \<open>The loop over the elements of the relative path; \<open>ec\<close> is the error of the last call.\<close>

fun hostfs_walk ::
    "'h vfs_env \<Rightarrow> 'h \<Rightarrow> bool \<Rightarrow> fpath \<Rightarrow> int \<Rightarrow> fpath \<Rightarrow> fpath \<Rightarrow> string list \<Rightarrow>
      (int \<times> fpath \<times> bool) outcome" where
  "hostfs_walk env h isSymlink orig ec hostPath path [] =
    Returns (if ec \<noteq> 0 then B_ENTRY_NOT_FOUND else B_OK, orig, False)"
| "hostfs_walk env h isSymlink orig ec hostPath path (e # es) =
    (let hp = fp_append hostPath (fp_name e); q = fp_append path (fp_name e);
         (ec', link) = symlink_status (env_ops env) h hp
     in if ec' \<noteq> 0 then
          (if ec' \<noteq> 2 then cpp_result ec' q isSymlink
           else Returns (B_ENTRY_NOT_FOUND, orig, False))
        else if link then
          (if isSymlink \<or> es \<noteq> [] then
             (case op_readlink (env_ops env) h hp of
                Inl e' \<Rightarrow> cpp_result e' q isSymlink
              | Inr l \<Rightarrow> Returns (B_OK, link_target (env_root env) q l es, True))
           else Returns (B_OK, orig, False))
        else hostfs_walk env h isSymlink orig 0 hp q es)"

definition HostfsDevice_GetPath ::
    "'h vfs_env \<Rightarrow> 'h \<Rightarrow> vfs_device \<Rightarrow> fpath \<Rightarrow> fpath \<Rightarrow> bool \<Rightarrow> (int \<times> fpath \<times> bool) outcome" where
  "HostfsDevice_GetPath env h d hostRoot p isSymlink =
    (let rel = lexically_relative p (dv_root d) in
     if rel = fp_empty then Returns (B_ENTRY_NOT_FOUND, p, isSymlink)
     else
       (let hostPath = (if rel \<noteq> fp_name ''.'' then fp_append hostRoot rel else hostRoot) in
        if IsBlacklisted (dv_class d) hostPath then Returns (B_ENTRY_NOT_FOUND, p, isSymlink)
        else
          (let (ec, _) = symlink_status (env_ops env) h hostPath in
           if ec \<noteq> 0 \<and> ec \<noteq> 2 then cpp_result ec p isSymlink
           else hostfs_walk env h isSymlink hostPath ec hostRoot (dv_root d) (fp_elements rel))))"

definition HostfsDevice_RealPath ::
    "'h vfs_env \<Rightarrow> 'h \<Rightarrow> vfs_device \<Rightarrow> fpath \<Rightarrow> fpath \<Rightarrow> bool \<Rightarrow> (int \<times> fpath \<times> bool) outcome" where
  "HostfsDevice_RealPath env h d hostRoot p isSymlink =
    bind_outcome (HostfsDevice_GetPath env h d hostRoot p isSymlink) (\<lambda>(status, q, isSymlink').
      if \<not> isSymlink' then
        (let rel = lexically_relative q hostRoot in
         if rel = fp_empty \<or> rel = fp_name ''.'' then Returns (status, dv_root d, isSymlink')
         else Returns (status, fp_append (dv_root d) rel, isSymlink'))
      else Returns (status, q, isSymlink'))"

definition HostfsDevice_ReadStat ::
    "'h vfs_env \<Rightarrow> 'h \<Rightarrow> vfs_device \<Rightarrow> fpath \<Rightarrow> fpath \<Rightarrow> bool \<Rightarrow> haiku_stat \<Rightarrow>
      (int \<times> fpath \<times> bool \<times> haiku_stat) outcome" where
  "HostfsDevice_ReadStat env h d hostRoot p isSymlink st =
    bind_outcome (HostfsDevice_GetPath env h d hostRoot p isSymlink) (\<lambda>(status, q, isSymlink').
      if isSymlink' \<or> status \<noteq> B_OK then Returns (status, q, isSymlink', st)
      else
        (let (status', st') = server_read_stat (env_ops env) (env_usermap env) h q st in
         if status' = B_OK then
           Returns (status', q, isSymlink',
             st'\<lparr>st_ino := fs_Hash (st_dev st') (st_ino st'), st_dev := GetId d\<rparr>)
         else Returns (status', q, isSymlink', st')))"

definition HostfsDevice_WriteStat ::
    "'h vfs_env \<Rightarrow> vfs_device \<Rightarrow> fpath \<Rightarrow> haiku_stat \<Rightarrow> int \<Rightarrow> fpath \<Rightarrow> bool \<Rightarrow> 'h \<Rightarrow>
      (int \<times> fpath \<times> bool \<times> 'h) outcome" where
  "HostfsDevice_WriteStat env d hostRoot st statMask p isSymlink h =
    bind_outcome (HostfsDevice_GetPath env h d hostRoot p isSymlink) (\<lambda>(status, q, isSymlink').
      if isSymlink' \<or> status \<noteq> B_OK then Returns (status, q, isSymlink', h)
      else
        (let (status', h') = server_write_stat (env_ops env) (env_usermap env) q st statMask h
         in Returns (status', q, isSymlink', h')))"

section \<open>\<open>BindfsDevice\<close>\<close>

text \<open>\<open>relativePath.begin()->string()\<close> on a nonempty path.\<close>

definition BindfsDevice_TransformPath :: "vfs_device \<Rightarrow> fpath \<Rightarrow> fpath \<Rightarrow> int \<times> fpath" where
  "BindfsDevice_TransformPath d boundRoot p =
    (let rel = lexically_relative p (dv_root d) in
     if rel = fp_empty then (B_ENTRY_NOT_FOUND, p)
     else if hd (fp_elements rel) = ''..'' then (B_ENTRY_NOT_FOUND, p)
     else if hd (fp_elements rel) \<noteq> ''.'' then (B_OK, fp_append boundRoot rel)
     else (B_OK, boundRoot))"

text \<open>
  The calls forward to the service; \<open>svc\<close> is the service's call. The flag is passed by value, so
  it comes back as it was.
\<close>

definition BindfsDevice_GetPath ::
    "(fpath \<Rightarrow> bool \<Rightarrow> (int \<times> fpath) outcome) \<Rightarrow> vfs_device \<Rightarrow> fpath \<Rightarrow> fpath \<Rightarrow> bool \<Rightarrow>
      (int \<times> fpath \<times> bool) outcome" where
  "BindfsDevice_GetPath svc d boundRoot p isSymlink =
    (let (status, q) = BindfsDevice_TransformPath d boundRoot p in
     if status \<noteq> B_OK then Returns (status, q, isSymlink)
     else bind_outcome (svc q isSymlink) (\<lambda>(s, r). Returns (s, r, isSymlink)))"

definition BindfsDevice_RealPath ::
    "(fpath \<Rightarrow> (int \<times> fpath) outcome) \<Rightarrow> vfs_device \<Rightarrow> fpath \<Rightarrow> fpath \<Rightarrow> bool \<Rightarrow>
      (int \<times> fpath \<times> bool) outcome" where
  "BindfsDevice_RealPath svc d boundRoot p isSymlink =
    (let (status, q) = BindfsDevice_TransformPath d boundRoot p in
     if status \<noteq> B_OK then Returns (status, q, isSymlink)
     else bind_outcome (svc q) (\<lambda>(s, r).
       (let rel = lexically_relative r boundRoot in
        Returns (s, if rel = fp_empty \<or> rel = fp_name ''.'' then dv_root d
                    else fp_append (dv_root d) rel, False))))"

definition BindfsDevice_ReadStat ::
    "(fpath \<Rightarrow> bool \<Rightarrow> haiku_stat \<Rightarrow> (int \<times> haiku_stat) outcome) \<Rightarrow> vfs_device \<Rightarrow> fpath \<Rightarrow>
      fpath \<Rightarrow> bool \<Rightarrow> haiku_stat \<Rightarrow> (int \<times> fpath \<times> bool \<times> haiku_stat) outcome" where
  "BindfsDevice_ReadStat svc d boundRoot p isSymlink st =
    (let (status, q) = BindfsDevice_TransformPath d boundRoot p in
     if status \<noteq> B_OK then Returns (status, q, isSymlink, st)
     else bind_outcome (svc q isSymlink st) (\<lambda>(s, st').
       Returns (s, q, isSymlink,
         if s = B_OK then st'\<lparr>st_ino := fs_Hash (st_dev st') (st_ino st'), st_dev := GetId d\<rparr>
         else st')))"

text \<open>Every other call of the class does nothing but forward.\<close>

definition BindfsDevice_forward ::
    "(fpath \<Rightarrow> 's \<Rightarrow> (int \<times> 's) outcome) \<Rightarrow> vfs_device \<Rightarrow> fpath \<Rightarrow> fpath \<Rightarrow> 's \<Rightarrow>
      (int \<times> 's) outcome" where
  "BindfsDevice_forward svc d boundRoot p s =
    (let (status, q) = BindfsDevice_TransformPath d boundRoot p in
     if status \<noteq> B_OK then Returns (status, s) else svc q s)"

section \<open>\<open>_DoWork\<close>\<close>

text \<open>
  The inner loop: up to the nearest mount point. At the root directory \<open>parent_path\<close> stays where
  it is, so without a device there the loop does not end; \<open>None\<close>.
\<close>

partial_function (option) find_drive :: "mounts \<Rightarrow> fpath \<Rightarrow> fpath option" where
  "find_drive m p =
    (if fp_has_parent p \<and> m p = None then find_drive m (fp_parent p) else Some p)"

declare find_drive.simps [code]

fun DoWork_loop ::
    "nat \<Rightarrow> mounts \<Rightarrow> (fpath \<Rightarrow> vfs_device \<Rightarrow> bool \<Rightarrow> 's \<Rightarrow> (int \<times> fpath \<times> bool \<times> 's) outcome) \<Rightarrow>
      bool \<Rightarrow> fpath \<Rightarrow> 's \<Rightarrow> (int \<times> fpath \<times> 's) outcome" where
  "DoWork_loop 0 m work traverse p s = Pending"
| "DoWork_loop (Suc n) m work traverse p s =
    (case find_drive m p of
       None \<Rightarrow> Pending
     | Some drive \<Rightarrow>
         (case m drive of
            None \<Rightarrow> Returns (B_ENTRY_NOT_FOUND, p, s)
          | Some d \<Rightarrow>
              bind_outcome (work p d traverse s) (\<lambda>(status, q, isSymlink, s').
                if status \<noteq> B_OK then Returns (status, q, s')
                else if isSymlink then DoWork_loop n m work traverse q s'
                else Returns (B_OK, q, s'))))"

definition DoWork ::
    "nat \<Rightarrow> mounts \<Rightarrow> (fpath \<Rightarrow> vfs_device \<Rightarrow> bool \<Rightarrow> 's \<Rightarrow> (int \<times> fpath \<times> bool \<times> 's) outcome) \<Rightarrow>
      bool \<Rightarrow> fpath \<Rightarrow> 's \<Rightarrow> (int \<times> fpath \<times> 's) outcome" where
  "DoWork n m work traverse p s =
    DoWork_loop n m work traverse (drop_slash (lexically_normal p)) s"

text \<open>A callback with no result besides the path, and one that keeps the path.\<close>

definition path_work ::
    "(fpath \<Rightarrow> vfs_device \<Rightarrow> bool \<Rightarrow> (int \<times> fpath \<times> bool) outcome) \<Rightarrow>
      fpath \<Rightarrow> vfs_device \<Rightarrow> bool \<Rightarrow> unit \<Rightarrow> (int \<times> fpath \<times> bool \<times> unit) outcome" where
  "path_work f p d isSymlink u = bind_outcome (f p d isSymlink) (\<lambda>(s, q, b). Returns (s, q, b, ()))"

definition keep_work ::
    "(fpath \<Rightarrow> vfs_device \<Rightarrow> 's \<Rightarrow> (int \<times> 's) outcome) \<Rightarrow>
      fpath \<Rightarrow> vfs_device \<Rightarrow> bool \<Rightarrow> 's \<Rightarrow> (int \<times> fpath \<times> bool \<times> 's) outcome" where
  "keep_work f p d isSymlink s = bind_outcome (f p d s) (\<lambda>(r, s'). Returns (r, p, isSymlink, s'))"

definition path_result :: "(int \<times> fpath \<times> unit) outcome \<Rightarrow> (int \<times> fpath) outcome" where
  "path_result r = bind_outcome r (\<lambda>(s, p, _). Returns (s, p))"

text \<open>The \<open>const\<close> overload works on a copy of the path.\<close>

definition state_result :: "(int \<times> fpath \<times> 's) outcome \<Rightarrow> (int \<times> 's) outcome" where
  "state_result r = bind_outcome r (\<lambda>(s, _, x). Returns (s, x))"

section \<open>Calls of the service on paths\<close>

definition device_GetPath ::
    "(fpath \<Rightarrow> bool \<Rightarrow> (int \<times> fpath) outcome) \<Rightarrow> 'h vfs_env \<Rightarrow> 'h \<Rightarrow> fpath \<Rightarrow> vfs_device \<Rightarrow> bool \<Rightarrow>
      (int \<times> fpath \<times> bool) outcome" where
  "device_GetPath svc env h p d isSymlink =
    (case dv_class d of
       BindfsDevice b \<Rightarrow> BindfsDevice_GetPath svc d b p isSymlink
     | c \<Rightarrow> HostfsDevice_GetPath env h d (the (host_root c)) p isSymlink)"

primrec Vfs_GetPath ::
    "nat \<Rightarrow> 'h vfs_env \<Rightarrow> mounts \<Rightarrow> 'h \<Rightarrow> fpath \<Rightarrow> bool \<Rightarrow> (int \<times> fpath) outcome" where
  "Vfs_GetPath 0 env m h p traverse = Pending"
| "Vfs_GetPath (Suc n) env m h p traverse =
    path_result (DoWork (Suc n) m (path_work (device_GetPath (Vfs_GetPath n env m h) env h)) traverse p ())"

definition device_RealPath ::
    "(fpath \<Rightarrow> (int \<times> fpath) outcome) \<Rightarrow> 'h vfs_env \<Rightarrow> 'h \<Rightarrow> fpath \<Rightarrow> vfs_device \<Rightarrow> bool \<Rightarrow>
      (int \<times> fpath \<times> bool) outcome" where
  "device_RealPath svc env h p d isSymlink =
    (case dv_class d of
       BindfsDevice b \<Rightarrow> BindfsDevice_RealPath svc d b p isSymlink
     | c \<Rightarrow> HostfsDevice_RealPath env h d (the (host_root c)) p isSymlink)"

text \<open>
  A path with dots is resolved element by element: what stands before a \<open>..\<close> is resolved first.
  On an error the rest is put back behind the parent.
\<close>

fun realpath_elements ::
    "(fpath \<Rightarrow> (int \<times> fpath) outcome) \<Rightarrow> fpath \<Rightarrow> string list \<Rightarrow> (int \<times> fpath) outcome" where
  "realpath_elements svc cur [] = svc cur"
| "realpath_elements svc cur (e # es) =
    (if e = ''..'' then
       bind_outcome (svc cur) (\<lambda>(status, q).
         if status \<noteq> B_OK
         then Returns (status, foldl (\<lambda>r x. fp_append r (fp_name x)) (fp_parent q) es)
         else realpath_elements svc (fp_parent q) es)
     else if e \<noteq> [] \<and> e \<noteq> ''.'' then realpath_elements svc (fp_append cur (fp_elem e)) es
     else realpath_elements svc cur es)"

primrec Vfs_RealPath ::
    "nat \<Rightarrow> 'h vfs_env \<Rightarrow> mounts \<Rightarrow> 'h \<Rightarrow> fpath \<Rightarrow> (int \<times> fpath) outcome" where
  "Vfs_RealPath 0 env m h p = Pending"
| "Vfs_RealPath (Suc n) env m h p =
    (if p = lexically_normal p then
       path_result (DoWork (Suc n) m (path_work (device_RealPath (Vfs_RealPath n env m h) env h)) True p ())
     else realpath_elements (Vfs_RealPath n env m h) fp_empty (fp_elements p))"

definition device_ReadStat ::
    "(fpath \<Rightarrow> bool \<Rightarrow> haiku_stat \<Rightarrow> (int \<times> haiku_stat) outcome) \<Rightarrow> 'h vfs_env \<Rightarrow> 'h \<Rightarrow> fpath \<Rightarrow>
      vfs_device \<Rightarrow> bool \<Rightarrow> haiku_stat \<Rightarrow> (int \<times> fpath \<times> bool \<times> haiku_stat) outcome" where
  "device_ReadStat svc env h p d isSymlink st =
    (case dv_class d of
       BindfsDevice b \<Rightarrow> BindfsDevice_ReadStat svc d b p isSymlink st
     | c \<Rightarrow> HostfsDevice_ReadStat env h d (the (host_root c)) p isSymlink st)"

primrec Vfs_ReadStat ::
    "nat \<Rightarrow> 'h vfs_env \<Rightarrow> mounts \<Rightarrow> 'h \<Rightarrow> fpath \<Rightarrow> bool \<Rightarrow> haiku_stat \<Rightarrow> (int \<times> haiku_stat) outcome" where
  "Vfs_ReadStat 0 env m h p traverse st = Pending"
| "Vfs_ReadStat (Suc n) env m h p traverse st =
    state_result (DoWork (Suc n) m (device_ReadStat (Vfs_ReadStat n env m h) env h) traverse p st)"

text \<open>The path of a bound file is transformed and handed on with the flag.\<close>

definition BindfsDevice_WriteStat ::
    "(fpath \<Rightarrow> bool \<Rightarrow> 'h \<Rightarrow> (int \<times> 'h) outcome) \<Rightarrow> vfs_device \<Rightarrow> fpath \<Rightarrow> fpath \<Rightarrow> bool \<Rightarrow> 'h \<Rightarrow>
      (int \<times> fpath \<times> bool \<times> 'h) outcome" where
  "BindfsDevice_WriteStat svc d boundRoot p isSymlink h =
    (let (status, q) = BindfsDevice_TransformPath d boundRoot p in
     if status \<noteq> B_OK then Returns (status, q, isSymlink, h)
     else bind_outcome (svc q isSymlink h) (\<lambda>(s, h'). Returns (s, q, isSymlink, h')))"

primrec Vfs_WriteStat ::
    "nat \<Rightarrow> 'h vfs_env \<Rightarrow> mounts \<Rightarrow> haiku_stat \<Rightarrow> int \<Rightarrow> fpath \<Rightarrow> bool \<Rightarrow> 'h \<Rightarrow> (int \<times> 'h) outcome" where
  "Vfs_WriteStat 0 env m st statMask p traverse h = Pending"
| "Vfs_WriteStat (Suc n) env m st statMask p traverse h =
    state_result (DoWork (Suc n) m
      (\<lambda>q d isSymlink x. case dv_class d of
          BindfsDevice b \<Rightarrow> BindfsDevice_WriteStat (Vfs_WriteStat n env m st statMask) d b q isSymlink x
        | c \<Rightarrow> HostfsDevice_WriteStat env d (the (host_root c)) st statMask q isSymlink x)
      traverse p h)"

section \<open>The nearest mount point\<close>

lemma find_drive_here: "m p \<noteq> None \<Longrightarrow> find_drive m p = Some p"
  by (subst find_drive.simps) auto

lemma find_drive_up: "fp_has_parent p \<Longrightarrow> m p = None \<Longrightarrow> find_drive m p = find_drive m (fp_parent p)"
  by (subst find_drive.simps) simp

lemma has_parent_abs: "fp_abs p \<Longrightarrow> fp_has_parent p"
  by (simp add: fp_has_parent_def fp_parent_def)

lemma find_drive_abs:
  assumes "m fp_root \<noteq> None"
  shows "\<exists>r ys. find_drive m (FPath True ps) = Some r \<and> m r \<noteq> None \<and> fp_abs r \<and>
    ps = fp_parts r @ ys \<and> (\<forall>i. length (fp_parts r) < i \<and> i \<le> length ps \<longrightarrow> m (FPath True (take i ps)) = None)"
proof (induction ps rule: rev_induct)
  case Nil
  then show ?case using find_drive_here [of m fp_root] assms by simp
next
  case (snoc x xs)
  show ?case
  proof (cases "m (FPath True (xs @ [x])) = None")
    case True
    then have e: "find_drive m (FPath True (xs @ [x])) = find_drive m (FPath True xs)"
      using find_drive_up [of "FPath True (xs @ [x])" m] by (simp add: has_parent_abs fp_parent_def)
    obtain r ys where IH: "find_drive m (FPath True xs) = Some r" "m r \<noteq> None" "fp_abs r"
        "xs = fp_parts r @ ys"
        "\<forall>i. length (fp_parts r) < i \<and> i \<le> length xs \<longrightarrow> m (FPath True (take i xs)) = None"
      using snoc.IH by blast
    have "m (FPath True (take i (xs @ [x]))) = None"
      if "length (fp_parts r) < i" "i \<le> length (xs @ [x])" for i
      using IH(5) True that by (cases "i = length (xs @ [x])") auto
    moreover have "xs @ [x] = fp_parts r @ (ys @ [x])" using IH(4) by simp
    ultimately show ?thesis using e IH(1,2,3) by metis
  next
    case False
    then show ?thesis using find_drive_here [of m "FPath True (xs @ [x])"] by auto
  qed
qed

lemma find_drive_result:
  "find_drive m p = Some r \<Longrightarrow> fp_abs p \<longrightarrow> m r \<noteq> None \<and> (\<exists>i. r = FPath True (take i (fp_parts p)))"
proof (rule find_drive.raw_induct [where P = "\<lambda>m p r. fp_abs p \<longrightarrow> m r \<noteq> None \<and>
      (\<exists>i. r = FPath True (take i (fp_parts p)))"])
  fix f :: "mounts \<Rightarrow> fpath \<Rightarrow> fpath option" and m p r
  assume IH: "\<And>m p r. f m p = Some r \<Longrightarrow> fp_abs p \<longrightarrow> m r \<noteq> None \<and> (\<exists>i. r = FPath True (take i (fp_parts p)))"
    and s: "(if fp_has_parent p \<and> m p = None then f m (fp_parent p) else Some p) = Some r"
  show "fp_abs p \<longrightarrow> m r \<noteq> None \<and> (\<exists>i. r = FPath True (take i (fp_parts p)))"
  proof (cases "fp_has_parent p \<and> m p = None")
    case True
    then have "f m (fp_parent p) = Some r" using s by simp
    from IH [OF this] show ?thesis
      by (auto simp: fp_parent_def butlast_conv_take)
  next
    case False
    then have "r = p" using s by auto
    moreover have "\<exists>i. p = FPath True (take i (fp_parts p))" if "fp_abs p"
      using that by (cases p) (auto intro: exI [of _ "length (fp_parts p)"])
    ultimately show ?thesis using False has_parent_abs by auto
  qed
qed

lemma find_drive_unmounted:
  assumes "fp_abs p" and "\<And>i. m (FPath True (take i (fp_parts p))) = None"
  shows "find_drive m p = None"
  using find_drive_result [of m p] assms by (cases "find_drive m p") auto

section \<open>More rounds do not change an answer\<close>

lemma DoWork_loop_mono:
  assumes "\<And>p d b s. outcome_le (f p d b s) (g p d b s)" and "n \<le> k"
  shows "outcome_le (DoWork_loop n m f traverse p s) (DoWork_loop k m g traverse p s)"
  using assms(2)
proof (induction n arbitrary: k p s)
  case (Suc n)
  then obtain k' where k: "k = Suc k'" "n \<le> k'" by (cases k) auto
  show ?case
    unfolding k DoWork_loop.simps
    by (auto split: option.split intro!: bind_outcome_mono assms(1) Suc.IH k(2))
qed simp

lemma path_result_mono: "outcome_le a b \<Longrightarrow> outcome_le (path_result a) (path_result b)"
  by (auto simp: path_result_def intro: bind_outcome_mono)

lemma state_result_mono: "outcome_le a b \<Longrightarrow> outcome_le (state_result a) (state_result b)"
  by (auto simp: state_result_def intro: bind_outcome_mono)

lemma path_work_mono:
  "(\<And>p d b. outcome_le (f p d b) (g p d b)) \<Longrightarrow> outcome_le (path_work f p d b u) (path_work g p d b u)"
  by (auto simp: path_work_def intro: bind_outcome_mono)

lemma device_GetPath_mono:
  assumes "\<And>q b. outcome_le (f q b) (g q b)"
  shows "outcome_le (device_GetPath f env h p d s) (device_GetPath g env h p d s)"
  using assms
  by (auto simp: device_GetPath_def BindfsDevice_GetPath_def Let_def split: device_class.split prod.split
      intro!: bind_outcome_mono)

lemma GetPath_more_rounds:
  "n \<le> k \<Longrightarrow> outcome_le (Vfs_GetPath n env m h p t) (Vfs_GetPath k env m h p t)"
proof (induction n arbitrary: k p t)
  case (Suc n)
  then obtain k' where k: "k = Suc k'" "n \<le> k'" by (cases k) auto
  show ?case
    unfolding k Vfs_GetPath.simps DoWork_def
    by (intro path_result_mono DoWork_loop_mono path_work_mono device_GetPath_mono Suc.IH k(2))
      (simp add: k(2))
qed simp

end
