(* ===== verification/LinkSteps.thy ===== *)
theory LinkSteps
  imports Vfs
begin

text \<open>
  What a guest path means, said without the loops of the code: the file system nearest above it,
  its names below the mount point, the steps over the symbolic links of the host on its way, and
  the place of the host it leads to when no link is left. The loop of a device over the names of a
  path is shown to find exactly the first link on the way.
\<close>

section \<open>Normal forms\<close>

abbreviation normal_stack :: "string list \<Rightarrow> string list" where
  "normal_stack ps \<equiv> fst (foldl (normal_step True) ([], False) ps)"

lemma normal_step_stack: "fst a = fst b \<Longrightarrow> normal_step True a e = normal_step True b e"
  by (simp add: normal_step_def)

lemma normal_fold_stack:
  assumes "fst a = fst b" and "ps \<noteq> []"
  shows "foldl (normal_step True) a ps = foldl (normal_step True) b ps"
  using assms normal_step_stack [OF assms(1)] by (cases ps) simp_all

lemma normal_stack_append:
  assumes "normal_stack xs = normal_stack ys"
  shows "normal_stack (xs @ zs) = normal_stack (ys @ zs)"
  using assms normal_fold_stack [where ps = zs, OF assms] by (cases "zs = []") simp_all

lemma normal_stack_slash [simp]: "normal_stack (ps @ [[]]) = normal_stack ps"
  by (simp add: normal_step_def Let_def)

lemma normal_stack_strip [simp]: "normal_stack (strip_trailing ps) = normal_stack ps"
proof (cases "ps \<noteq> [] \<and> last ps = []")
  case True
  then have "ps = strip_trailing ps @ [[]]" using append_butlast_last_id [of ps] by (simp add: strip_trailing_def)
  then show ?thesis using normal_stack_slash [of "strip_trailing ps"] by metis
qed (auto simp: strip_trailing_def)

lemma lexically_normal_fold:
  assumes "foldl (normal_step True) ([], False) xs = foldl (normal_step True) ([], False) ys"
  shows "lexically_normal (FPath True xs) = lexically_normal (FPath True ys)"
  using assms by (cases "foldl (normal_step True) ([], False) ys") (simp add: lexically_normal_def)

lemma lexically_normal_cong:
  assumes "normal_stack xs = normal_stack ys" and "zs \<noteq> []"
  shows "lexically_normal (FPath True (xs @ zs)) = lexically_normal (FPath True (ys @ zs))"
  by (rule lexically_normal_fold) (use normal_fold_stack [OF assms] in \<open>simp only: foldl_append\<close>)

text \<open>What a path adds when it is put behind another one; an empty path adds a slash.\<close>

definition appended_names :: "fpath \<Rightarrow> string list" where
  "appended_names p = (if fp_parts p = [] then [[]] else fp_parts p)"

lemma appended_names_not_empty [simp]: "appended_names p \<noteq> []"
  by (simp add: appended_names_def)

lemma normal_fold_append:
  assumes "\<not> fp_abs b"
  shows "foldl (normal_step True) ([], False) (fp_parts (fp_append a b)) =
    foldl (normal_step True) ([], False) (fp_parts a @ appended_names b)"
proof (cases "fp_parts b = []")
  case True
  show ?thesis
  proof (cases "fp_parts a" rule: rev_cases)
    case (snoc xs x)
    then show ?thesis
      using True assms by (auto simp: fp_append_def appended_names_def fp_filename_def normal_step_def Let_def)
  qed (use True assms in \<open>simp add: fp_append_def appended_names_def fp_filename_def normal_step_def\<close>)
next
  case False
  have "normal_stack (strip_trailing (fp_parts a)) = normal_stack (fp_parts a)" by simp
  from normal_fold_stack [OF this False] show ?thesis
    using assms False by (simp add: fp_append_def appended_names_def)
qed

lemma fp_append_abs: "fp_abs (fp_append a b) = (fp_abs a \<or> fp_abs b)"
  by (auto simp: fp_append_def)

lemma normal_append_names:
  assumes "fp_abs a"
  shows "lexically_normal (foldl (\<lambda>q e. fp_append q (fp_name e)) a es) =
    lexically_normal (FPath True (fp_parts a @ es))"
  using assms
proof (induction es arbitrary: a)
  case Nil
  then show ?case by (cases a) simp
next
  case (Cons e es)
  have n: "appended_names (fp_name e) = [e]" "\<not> fp_abs (fp_name e)"
    by (simp_all add: appended_names_def fp_name_def)
  have "lexically_normal (FPath True (fp_parts (fp_append a (fp_name e)) @ es)) =
      lexically_normal (FPath True ((fp_parts a @ [e]) @ es))"
    by (rule lexically_normal_fold) (use normal_fold_append [OF n(2), of a] n(1) in simp)
  then show ?case using Cons.IH [of "fp_append a (fp_name e)"] Cons.prems by (simp add: fp_append_abs)
qed

lemma normal_stack_parent:
  "normal_stack (fp_parts (fp_parent (fp_append a (fp_name e)))) = normal_stack (fp_parts a)"
proof (cases "e = []")
  case True
  have "butlast (ys @ [y, []]) = ys @ [y]" for ys :: "string list" and y by (simp add: butlast_append)
  then show ?thesis
    using True by (cases "fp_parts a" rule: rev_cases)
      (auto simp: fp_append_def fp_name_def fp_filename_def fp_parent_def normal_step_def Let_def)
next
  case False
  then have "fp_parts (fp_parent (fp_append a (fp_name e))) = strip_trailing (fp_parts a)"
    by (simp add: fp_append_def fp_name_def fp_parent_def)
  then show ?thesis by simp
qed

lemma link_target_names:
  assumes "fp_abs croot" and "fp_abs path" and "normal_stack (fp_parts path) = normal_stack base"
  shows "link_target croot (fp_append path (fp_name e)) l es =
    lexically_normal (FPath True ((if fp_abs l then fp_parts croot else base) @ appended_names l @ es))"
proof -
  define p where "p = (if fp_abs l then fp_append croot (fp_relative_path l)
    else fp_append (fp_parent (fp_append path (fp_name e))) l)"
  define a where "a = (if fp_abs l then croot else fp_parent (fp_append path (fp_name e)))"
  have p: "fp_abs p" using assms(1,2) by (simp add: p_def fp_parent_def fp_append_abs)
  have a: "foldl (normal_step True) ([], False) (fp_parts p) =
      foldl (normal_step True) ([], False) (fp_parts a @ appended_names l)"
    using normal_fold_append [of "fp_relative_path l" croot]
      normal_fold_append [of l "fp_parent (fp_append path (fp_name e))"]
    by (cases "fp_abs l") (simp_all add: p_def a_def fp_relative_path_def appended_names_def)
  have b: "normal_stack (fp_parts a) = normal_stack (if fp_abs l then fp_parts croot else base)"
    using assms(3) normal_stack_parent by (simp add: a_def)
  have "link_target croot (fp_append path (fp_name e)) l es = lexically_normal (FPath True (fp_parts p @ es))"
    using normal_append_names [OF p, of es] by (simp only: link_target_def p_def Let_def)
  also have "\<dots> = lexically_normal (FPath True (fp_parts a @ appended_names l @ es))"
    by (rule lexically_normal_fold) (use a in simp)
  finally show ?thesis using lexically_normal_cong [OF b, of "appended_names l @ es"] by simp
qed

section \<open>What a path names\<close>

text \<open>
  The file system a path belongs to is the one mounted nearest above it. Its names below the mount
  point are looked up in the host directory, a dot for the mount point itself.
\<close>

definition mounted_at :: "mounts \<Rightarrow> fpath \<Rightarrow> fpath \<Rightarrow> bool" where
  "mounted_at m a r \<longleftrightarrow> fp_abs a \<and> fp_abs r \<and> m r \<noteq> None \<and>
    (\<exists>ys. fp_parts a = fp_parts r @ ys \<and>
      (\<forall>i. 0 < i \<and> i \<le> length ys \<longrightarrow> m (FPath True (fp_parts r @ take i ys)) = None))"

definition names_below :: "fpath \<Rightarrow> fpath \<Rightarrow> string list" where
  "names_below r a =
    (let ys = drop (length (fp_parts r)) (fp_parts a) in if ys = [] \<or> hd ys = [] then [''.''] else ys)"

definition host_name :: "fpath \<Rightarrow> string list \<Rightarrow> fpath" where
  "host_name hr ns = FPath True (fp_parts hr @ ns)"

definition host_place :: "fpath \<Rightarrow> string list \<Rightarrow> fpath" where
  "host_place hr ns = (if ns = [''.''] then hr else host_name hr ns)"

text \<open>
  A step over a symbolic link: the names \<open>xs\<close> below the mount point lead through directories that
  are no links, the next name is a link of the host, and the path goes on where the link leads,
  with the names behind it. An absolute link starts at the root of the team, a relative one in the
  directory it is in. The last name of a path is only followed with \<open>traverse\<close>, and nothing is
  followed in a path the device hides.
\<close>

inductive link_step :: "'h vfs_env \<Rightarrow> 'h \<Rightarrow> mounts \<Rightarrow> bool \<Rightarrow> fpath \<Rightarrow> fpath \<Rightarrow> bool" for env h m traverse where
  link_step: "link_step env h m traverse a
      (lexically_normal (FPath True
        ((if fp_abs l then fp_parts (env_root env) else fp_parts r @ xs) @ appended_names l @ zs)))"
  if "mounted_at m a r" and "m r = Some d" and "host_root (dv_class d) = Some hr"
    and "names_below r a = xs @ x # zs"
    and "\<not> IsBlacklisted (dv_class d) (host_place hr (names_below r a))"
    and "\<forall>i. 0 < i \<and> i \<le> length xs \<longrightarrow>
      symlink_status (env_ops env) h (host_name hr (take i xs)) = (0, False)"
    and "symlink_status (env_ops env) h (host_name hr (xs @ [x])) = (0, True)"
    and "traverse \<or> zs \<noteq> []"
    and "op_readlink (env_ops env) h (host_name hr (xs @ [x])) = Inr l"

text \<open>
  The place of the host a path leads to without a further link: the host directory of its file
  system with the names below the mount point behind it, none of which is \<open>..\<close>, through
  directories that are no links; the last one is no link either if links are to be followed.
\<close>

definition leads_to ::
    "'h vfs_env \<Rightarrow> 'h \<Rightarrow> bool \<Rightarrow> fpath \<Rightarrow> device_class \<Rightarrow> fpath \<Rightarrow> fpath \<Rightarrow> bool" where
  "leads_to env h traverse r c a q \<longleftrightarrow>
    (\<exists>hr. host_root c = Some hr \<and> q = host_place hr (names_below r a) \<and> \<not> IsBlacklisted c q \<and>
      ''..'' \<notin> set (names_below r a) \<and>
      (\<forall>i. 0 < i \<and> (i < length (names_below r a) \<or> traverse \<and> i = length (names_below r a)) \<longrightarrow>
        symlink_status (env_ops env) h (host_name hr (take i (names_below r a))) = (0, False)))"

lemma mounted_at_unique:
  assumes "mounted_at m a r" and "mounted_at m a r'"
  shows "r = r'"
proof -
  have le: "length (fp_parts r1) \<le> length (fp_parts r2)" if m1: "mounted_at m a r1" and m2: "mounted_at m a r2" for r1 r2
  proof (rule ccontr)
    assume n: "\<not> ?thesis"
    obtain ys where y: "fp_parts a = fp_parts r1 @ ys" using m1 by (auto simp: mounted_at_def)
    obtain zs where z: "fp_parts a = fp_parts r2 @ zs"
        "\<forall>i. 0 < i \<and> i \<le> length zs \<longrightarrow> m (FPath True (fp_parts r2 @ take i zs)) = None"
      using m2 unfolding mounted_at_def by blast
    let ?i = "length (fp_parts r1) - length (fp_parts r2)"
    have "take (length (fp_parts r1)) (fp_parts a) = fp_parts r1" using y by simp
    then have e: "fp_parts r2 @ take ?i zs = fp_parts r1" using z(1) n by simp
    have "length (fp_parts r1) \<le> length (fp_parts a)" using y by simp
    then have "0 < ?i" "?i \<le> length zs" using z(1) n by simp_all
    then have "m (FPath True (fp_parts r1)) = None" using z(2) e by metis
    then show False using m1 by (cases r1) (auto simp: mounted_at_def)
  qed
  have "length (fp_parts r) = length (fp_parts r')" using le assms by (simp add: le_antisym)
  moreover have "r1 = FPath True (take (length (fp_parts r1)) (fp_parts a))" if "mounted_at m a r1" for r1
    using that by (cases r1) (auto simp: mounted_at_def)
  ultimately show ?thesis using assms by metis
qed

lemma find_drive_mounted:
  assumes "m fp_root \<noteq> None" and "fp_abs a"
  shows "find_drive m a = Some r \<longleftrightarrow> mounted_at m a r"
proof -
  obtain ps where a: "a = FPath True ps" using assms(2) by (cases a) simp
  obtain r' ys where r: "find_drive m a = Some r'" "m r' \<noteq> None" "fp_abs r'" "ps = fp_parts r' @ ys"
      "\<forall>i. length (fp_parts r') < i \<and> i \<le> length ps \<longrightarrow> m (FPath True (take i ps)) = None"
    using find_drive_abs [of m ps, OF assms(1)] a by blast
  have "m (FPath True (fp_parts r' @ take i ys)) = None" if "0 < i" "i \<le> length ys" for i
    using r(5) [rule_format, of "length (fp_parts r') + i"] r(4) that by simp
  then have "mounted_at m a r'" using r a unfolding mounted_at_def by auto
  then show ?thesis using r(1) mounted_at_unique by auto
qed

lemma first_link_unique:
  assumes "us @ u # us' = vs @ v # vs'" and "symlink_status ops h (host_name hr (us @ [u])) = (0, True)"
    and "\<forall>i. 0 < i \<and> i \<le> length vs \<longrightarrow> symlink_status ops h (host_name hr (take i vs)) = (0, False)"
  shows "length vs \<le> length us"
proof (rule ccontr)
  assume n: "\<not> ?thesis"
  have "take (Suc (length us)) (us @ u # us') = us @ [u]" by simp
  then have "take (Suc (length us)) vs = us @ [u]" using assms(1) n by simp
  then have "symlink_status ops h (host_name hr (us @ [u])) = (0, False)"
    using assms(3) [rule_format, of "Suc (length us)"] n by simp
  then show False using assms(2) by simp
qed

lemma link_step_det: "link_step env h m t a b \<Longrightarrow> link_step env h m t a c \<Longrightarrow> b = c"
proof -
  assume "link_step env h m t a b" and ac: "link_step env h m t a c"
  then show ?thesis
  proof cases
    case one: (link_step r d hr xs x zs l)
    from ac show ?thesis
    proof cases
      case two: (link_step r' d' hr' xs' x' zs' l')
      have e: "r' = r" by (rule mounted_at_unique [OF two(2) one(2)])
      then have d: "d' = d" "hr' = hr" using one(3,4) two(3,4) by auto
      have z: "xs @ x # zs = xs' @ x' # zs'" using one(5) two(5) e by simp
      have "length xs = length xs'"
        by (rule le_antisym) (rule first_link_unique [OF z [symmetric] two(8) [unfolded d] one(7)]
          first_link_unique [OF z one(8) two(7) [unfolded d]])+
      then have "xs' = xs" "x' = x" "zs' = zs" using z by auto
      then show ?thesis using one(1,10) two(1,10) e d by simp
    qed
  qed
qed

section \<open>The walk over the names\<close>

lemma cpp_result_not_ok: "cpp_result e p b \<noteq> Returns (B_OK, q, c)"
  by (auto simp: cpp_result_def CppToB_def status_codes)

text \<open>Names as a normal path has them: only the last may be empty.\<close>

definition walkable :: "string list \<Rightarrow> bool" where
  "walkable ns \<longleftrightarrow> ns \<noteq> [] \<and> hd ns \<noteq> [] \<and> [] \<notin> set (butlast ns)"

lemma host_name_step:
  assumes "clean_path hr" and "walkable (front @ e # es)"
  shows "fp_append (host_name hr front) (fp_name e) = host_name hr (front @ [e])"
proof -
  have n: "[] \<notin> set (fp_parts hr @ front)"
    using clean_no_empty [OF assms(1)] assms(2) by (auto simp: walkable_def butlast_append split: if_splits)
  show ?thesis
  proof (cases "e = []")
    case True
    then have "fp_parts hr @ front \<noteq> []" using assms(2) by (auto simp: walkable_def)
    then show ?thesis using fp_append_slash [OF n] True by (simp add: host_name_def)
  qed (use fp_append_name [OF n] in \<open>simp add: host_name_def\<close>)
qed

lemma hostfs_walk_step:
  assumes "clean_path hr" and "walkable (front @ e # es)"
    and "hostfs_walk env h b orig ec (host_name hr front) path (e # es) = Returns (B_OK, q, k)"
  shows "symlink_status (env_ops env) h (host_name hr (front @ [e])) = (0, True) \<and> (b \<or> es \<noteq> []) \<and> k \<and>
      (\<exists>l. op_readlink (env_ops env) h (host_name hr (front @ [e])) = Inr l \<and>
        q = link_target (env_root env) (fp_append path (fp_name e)) l es) \<or>
    symlink_status (env_ops env) h (host_name hr (front @ [e])) = (0, True) \<and> \<not> b \<and> es = [] \<and> \<not> k \<and> q = orig \<or>
    symlink_status (env_ops env) h (host_name hr (front @ [e])) = (0, False) \<and>
      hostfs_walk env h b orig 0 (host_name hr (front @ [e])) (fp_append path (fp_name e)) es = Returns (B_OK, q, k)"
proof -
  note n = host_name_step [OF assms(1,2)]
  obtain ec' l where s: "symlink_status (env_ops env) h (host_name hr (front @ [e])) = (ec', l)" by fastforce
  show ?thesis
    using assms(3) cpp_result_not_ok s n by (auto simp: Let_def status_codes split: if_splits sum.splits)
qed

lemma hostfs_walk_outcome:
  assumes "clean_path hr" and "fp_abs (env_root env)"
    and "walkable (front @ rest)" and "fp_abs path" and "normal_stack (fp_parts path) = normal_stack (base @ front)"
    and "hostfs_walk env h b orig ec (host_name hr front) path rest = Returns (B_OK, q, k)"
  shows "if k then \<exists>xs x zs l. rest = xs @ x # zs \<and>
        (\<forall>i. 0 < i \<and> i \<le> length xs \<longrightarrow>
          symlink_status (env_ops env) h (host_name hr (front @ take i xs)) = (0, False)) \<and>
        symlink_status (env_ops env) h (host_name hr (front @ xs @ [x])) = (0, True) \<and> (b \<or> zs \<noteq> []) \<and>
        op_readlink (env_ops env) h (host_name hr (front @ xs @ [x])) = Inr l \<and>
        q = lexically_normal (FPath True
          ((if fp_abs l then fp_parts (env_root env) else base @ front @ xs) @ appended_names l @ zs))
    else q = orig \<and> (\<forall>i. 0 < i \<and> (i < length rest \<or> b \<and> i = length rest) \<longrightarrow>
      symlink_status (env_ops env) h (host_name hr (front @ take i rest)) = (0, False))"
  using assms(3-6)
proof (induction rest arbitrary: front path ec)
  case Nil
  then show ?case by (auto split: if_splits)
next
  case (Cons e es)
  have abs: "fp_abs (fp_append path (fp_name e))" using Cons.prems(2) by (simp add: fp_append_abs)
  consider (link) l where "symlink_status (env_ops env) h (host_name hr (front @ [e])) = (0, True)" "b \<or> es \<noteq> []" "k"
      "op_readlink (env_ops env) h (host_name hr (front @ [e])) = Inr l"
      "q = link_target (env_root env) (fp_append path (fp_name e)) l es"
    | (end_link) "\<not> b" "es = []" "\<not> k" "q = orig"
    | (on) "symlink_status (env_ops env) h (host_name hr (front @ [e])) = (0, False)"
      "hostfs_walk env h b orig 0 (host_name hr (front @ [e])) (fp_append path (fp_name e)) es = Returns (B_OK, q, k)"
    using hostfs_walk_step [OF assms(1) Cons.prems(1,4)] by blast
  then show ?case
  proof cases
    case link
    have "q = lexically_normal (FPath True
        ((if fp_abs l then fp_parts (env_root env) else base @ front) @ appended_names l @ es))"
      using link(5) link_target_names [OF assms(2) Cons.prems(2,3)] by simp
    then show ?thesis
      unfolding if_P [OF link(3)]
      by (intro exI [of _ "[]"] exI [of _ e] exI [of _ es] exI [of _ l]) (use link in simp)
  next
    case end_link
    then show ?thesis by simp
  next
    case on
    have w: "walkable ((front @ [e]) @ es)" using Cons.prems(1) by simp
    have st: "normal_stack (fp_parts (fp_append path (fp_name e))) = normal_stack (base @ front @ [e])"
      using normal_fold_append [of "fp_name e" path] normal_stack_append [OF Cons.prems(3), of "[e]"]
      by (simp add: fp_name_def appended_names_def split: if_splits)
    note IH = Cons.IH [OF w abs _ on(2)]
    show ?thesis
    proof (cases k)
      case True
      then obtain xs x zs l where x: "es = xs @ x # zs"
          "\<forall>i. 0 < i \<and> i \<le> length xs \<longrightarrow>
            symlink_status (env_ops env) h (host_name hr ((front @ [e]) @ take i xs)) = (0, False)"
          "symlink_status (env_ops env) h (host_name hr ((front @ [e]) @ xs @ [x])) = (0, True)" "b \<or> zs \<noteq> []"
          "op_readlink (env_ops env) h (host_name hr ((front @ [e]) @ xs @ [x])) = Inr l"
          "q = lexically_normal (FPath True
            ((if fp_abs l then fp_parts (env_root env) else base @ (front @ [e]) @ xs) @ appended_names l @ zs))"
        using IH st by (simp only: if_True append_assoc) blast
      have d: "symlink_status (env_ops env) h (host_name hr (front @ take i (e # xs))) = (0, False)"
        if "0 < i" "i \<le> length (e # xs)" for i
        using x(2) on(1) that by (cases i; cases "i - 1") auto
      show ?thesis
        unfolding if_P [OF True]
        by (intro exI [of _ "e # xs"] exI [of _ x] exI [of _ zs] exI [of _ l]) (use x d in simp)
    next
      case False
      then have i: "q = orig" "\<forall>i. 0 < i \<and> (i < length es \<or> b \<and> i = length es) \<longrightarrow>
          symlink_status (env_ops env) h (host_name hr ((front @ [e]) @ take i es)) = (0, False)"
        using IH st by simp_all
      have "symlink_status (env_ops env) h (host_name hr (front @ take i (e # es))) = (0, False)"
        if "0 < i" "i < length (e # es) \<or> b \<and> i = length (e # es)" for i
        using i(2) on(1) that by (cases i; cases "i - 1") auto
      then show ?thesis using i(1) False by simp
    qed
  qed
qed

end
