(* ===== verification/VfsResolve.thy ===== *)
theory VfsResolve
  imports LinkSteps
begin

text \<open>
  What resolving a path promises. The locale \<open>path_device\<close> is what \<open>_DoWork\<close> relies on in the
  mounted devices: they answer, and a symbolic link they report is the next one on the way of the
  path. It is interpreted on the file systems over host directories, with the steps of
  \<open>link_step\<close>.
\<close>

section \<open>Normal paths\<close>

text \<open>A clean path, or one with a slash behind it, as a link target may have.\<close>

definition normal_path :: "fpath \<Rightarrow> bool" where
  "normal_path p \<longleftrightarrow> fp_abs p \<and>
    (\<exists>ns s. fp_parts p = ns @ s \<and> list_all proper_name ns \<and> (s = [] \<or> s = [[]] \<and> ns \<noteq> []))"

lemma clean_normal_path: "clean_path p \<Longrightarrow> normal_path p"
  by (auto simp: clean_path_def normal_path_def)

lemma normal_path_abs: "normal_path p \<Longrightarrow> fp_abs p"
  by (simp add: normal_path_def)

lemma normal_path_normal:
  assumes "fp_abs p"
  shows "normal_path (lexically_normal p)"
proof -
  obtain stk s where e: "foldl (normal_step True) ([], False) (fp_parts p) = (stk, s)" by fastforce
  have l: "list_all proper_name (rev stk)"
    using normal_fold_proper [of "([], False)" "fp_parts p"] e by (simp add: list_all_iff)
  show ?thesis
  proof (cases "stk = []")
    case True
    then show ?thesis using assms e by (cases p) (auto simp: lexically_normal_def normal_path_def)
  next
    case False
    define sl where "sl = (if s \<and> hd stk \<noteq> ''..'' then [[]] else ([] :: string list))"
    have "lexically_normal p = FPath True (rev stk @ sl)"
      using assms e False by (cases p) (auto simp: lexically_normal_def sl_def)
    moreover have "normal_path (FPath True (rev stk @ sl))"
      unfolding normal_path_def fpath.sel
      by (intro conjI exI [of _ "rev stk"] exI [of _ sl]) (use False l in \<open>auto simp: sl_def\<close>)
    ultimately show ?thesis by simp
  qed
qed

lemma normal_path_no_dotdot: "normal_path p \<Longrightarrow> ''..'' \<notin> set (fp_parts p) \<and> ''.'' \<notin> set (fp_parts p)"
proof -
  assume "normal_path p"
  then obtain ns s where n: "fp_parts p = ns @ s" "list_all proper_name ns" "s = [] \<or> s = [[]]"
    by (auto simp: normal_path_def)
  have "''..'' \<notin> set ns \<and> ''.'' \<notin> set ns" using n(2) by (auto simp: list_all_iff proper_name_def)
  then show ?thesis using n(1,3) by auto
qed

lemma normal_path_empty_last:
  assumes "normal_path p" and "fp_parts p = xs @ [] # ys"
  shows "ys = [] \<and> xs \<noteq> []"
proof -
  obtain ns s where n: "fp_parts p = ns @ s" "list_all proper_name ns" "s = [] \<or> s = [[]] \<and> ns \<noteq> []"
    using assms(1) by (auto simp: normal_path_def)
  have e: "[] \<notin> set ns" using n(2) by (auto simp: list_all_iff proper_name_def)
  then have s: "s = [[]]" "ns \<noteq> []" using n assms(2) by force+
  show ?thesis
  proof (cases ys rule: rev_cases)
    case Nil
    then show ?thesis using n(1) s assms(2) by simp
  next
    case (snoc zs z)
    then have "ns = xs @ [] # zs" using n(1) s(1) assms(2) by simp
    then show ?thesis using e by simp
  qed
qed

section \<open>The devices\<close>

locale path_device =
  fixes dev_path :: "fpath \<Rightarrow> vfs_device \<Rightarrow> bool \<Rightarrow> (int \<times> fpath \<times> bool) outcome"
    and usable :: "mounts \<Rightarrow> bool"
    and link :: "mounts \<Rightarrow> bool \<Rightarrow> fpath \<Rightarrow> fpath \<Rightarrow> bool"
  assumes answers: "usable m \<Longrightarrow> m r = Some d \<Longrightarrow> fp_abs p \<Longrightarrow> dev_path p d b \<noteq> Pending"
    and rooted: "usable m \<Longrightarrow> m fp_root \<noteq> None"
    and leads: "usable m \<Longrightarrow> normal_path p \<Longrightarrow> find_drive m p = Some r \<Longrightarrow> m r = Some d \<Longrightarrow>
      dev_path p d b = Returns (B_OK, q, True) \<Longrightarrow> link m b p q \<and> normal_path q"
    and one_way: "link m b p q \<Longrightarrow> link m b p q' \<Longrightarrow> q = q'"
begin

lemma loop_step:
  assumes "find_drive m p = Some r" and "m r = Some d" and "dev_path p d t = Returns (s, q, b)"
  shows "DoWork_loop (Suc n) m (path_work dev_path) t p u =
    (if s \<noteq> B_OK then Returns (s, q, ())
     else if b then DoWork_loop n m (path_work dev_path) t q () else Returns (B_OK, q, ()))"
  using assms by (simp add: path_work_def)

lemma loop_stuck:
  assumes "find_drive m p = Some r" and "m r = Some d"
  shows "dev_path p d t = Throws e \<Longrightarrow> DoWork_loop (Suc n) m (path_work dev_path) t p u = Throws e"
    and "dev_path p d t = Undefined \<Longrightarrow> DoWork_loop (Suc n) m (path_work dev_path) t p u = Undefined"
    and "dev_path p d t = Pending \<Longrightarrow> DoWork_loop (Suc n) m (path_work dev_path) t p u = Pending"
  using assms by (simp_all add: path_work_def)

text \<open>A result is what a device gave at the end of a chain of links.\<close>

lemma loop_result:
  assumes "usable m" and "normal_path p"
    and "DoWork_loop n m (path_work dev_path) t p u = Returns (B_OK, q, u')"
  shows "\<exists>p' r d. (link m t)\<^sup>*\<^sup>* p p' \<and> normal_path p' \<and> find_drive m p' = Some r \<and> m r = Some d \<and>
    dev_path p' d t = Returns (B_OK, q, False)"
  using assms(2,3)
proof (induction n arbitrary: p u)
  case (Suc n)
  obtain r where r: "find_drive m p = Some r"
    using Suc.prems(2) by (auto split: option.splits)
  obtain d where d: "m r = Some d"
    using Suc.prems(2) r by (auto simp: B_OK_def status_codes split: option.splits)
  show ?case
  proof (cases "dev_path p d t")
    case (Returns x)
    obtain s q' b where x: "x = (s, q', b)" by (cases x)
    show ?thesis
    proof (cases "s = B_OK \<and> b")
      case True
      then have l: "link m t p q'" "normal_path q'"
        using leads [OF assms(1) Suc.prems(1) r d, of t q'] Returns x by simp_all
      moreover have "DoWork_loop n m (path_work dev_path) t q' () = Returns (B_OK, q, u')"
        using Suc.prems(2) loop_step [OF r d Returns [unfolded x]] True by simp
      ultimately show ?thesis using Suc.IH [OF l(2)] by (meson converse_rtranclp_into_rtranclp)
    next
      case False
      then have "s = B_OK \<and> \<not> b \<and> q' = q"
        using Suc.prems(2) loop_step [OF r d Returns [unfolded x]] by (auto split: if_splits)
      then have "dev_path p d t = Returns (B_OK, q, False)" using Returns x by simp
      then show ?thesis using Suc.prems(1) r d by blast
    qed
  qed (use Suc.prems(2) loop_stuck [OF r d] in simp_all)
qed simp

text \<open>One round more than there are links on the way is enough.\<close>

lemma loop_returns:
  assumes "usable m" and "normal_path p" and "(link m t ^^ k) p a" and "\<nexists>b. link m t a b" and "k < n"
  shows "DoWork_loop n m (path_work dev_path) t p u \<noteq> Pending"
  using assms(2,3,5)
proof (induction n arbitrary: p u k)
  case (Suc n)
  obtain r d where r: "find_drive m p = Some r" and d: "m r = Some d"
    using find_drive_abs [of m "fp_parts p", OF rooted [OF assms(1)]] normal_path_abs [OF Suc.prems(1)]
    by (cases p) auto
  show ?case
  proof (cases "dev_path p d t")
    case (Returns x)
    obtain s q b where x: "x = (s, q, b)" by (cases x)
    show ?thesis
    proof (cases "s = B_OK \<and> b")
      case True
      then have l: "link m t p q" "normal_path q"
        using leads [OF assms(1) Suc.prems(1) r d, of t q] Returns x by simp_all
      obtain j where k: "k = Suc j" using Suc.prems(2) assms(4) l(1) by (cases k) auto
      then obtain q' where "link m t p q'" "(link m t ^^ j) q' a"
        using Suc.prems(2) relpowp_Suc_D2 [of j "link m t" p a] by blast
      then have "(link m t ^^ j) q a" using one_way [OF l(1)] by simp
      then show ?thesis
        using Suc.IH [OF l(2), of j "()"] Suc.prems(3) k loop_step [OF r d Returns [unfolded x]] True by simp
    next
      case False
      then show ?thesis using loop_step [OF r d Returns [unfolded x]] by auto
    qed
  next
    case Pending
    then show ?thesis using answers [OF assms(1) d normal_path_abs [OF Suc.prems(1)]] by blast
  qed (use loop_stuck [OF r d] in simp_all)
qed simp

end

section \<open>Host directories\<close>

lemma cpp_result_answers: "cpp_result e p b \<noteq> Pending"
  by (simp add: cpp_result_def split: option.split)

lemma hostfs_walk_answers: "hostfs_walk env h b orig ec hp p es \<noteq> Pending"
  by (induction es arbitrary: ec hp p)
    (auto simp: Let_def cpp_result_answers split: prod.split sum.split)

lemma append_names_abs: "fp_abs a \<Longrightarrow> fp_abs (foldl (\<lambda>q e. fp_append q (fp_name e)) a es)"
  by (induction es arbitrary: a) (simp_all add: fp_append_abs)

lemma link_target_normal:
  assumes "fp_abs croot" and "fp_abs p"
  shows "normal_path (link_target croot p l es)"
  unfolding link_target_def Let_def
  by (rule normal_path_normal, rule append_names_abs) (use assms in \<open>simp add: fp_append_abs fp_parent_def\<close>)

lemma hostfs_walk_link:
  assumes "fp_abs (env_root env)" and "fp_abs p"
    and "hostfs_walk env h b orig ec hp p es = Returns (B_OK, q, True)"
  shows "normal_path q"
  using assms(2,3)
proof (induction es arbitrary: ec hp p)
  case (Cons e es)
  have a: "fp_abs (fp_append p (fp_name e))" using Cons.prems(1) by (simp add: fp_append_abs)
  obtain ec' l where s: "symlink_status (env_ops env) h (fp_append hp (fp_name e)) = (ec', l)"
    by fastforce
  show ?case
  proof (cases "ec' = 0 \<and> \<not> l")
    case True
    then show ?thesis using Cons.prems(2) Cons.IH [OF a] s by simp
  next
    case False
    then show ?thesis
      using Cons.prems(2) s cpp_result_not_ok link_target_normal [OF assms(1) a, of _ es]
      by (auto simp: Let_def split: sum.splits if_splits)
  qed
qed simp

lemma hostfs_GetPath_answers: "HostfsDevice_GetPath env h d hr p b \<noteq> Pending"
  by (simp add: HostfsDevice_GetPath_def Let_def cpp_result_answers hostfs_walk_answers split: prod.split)

lemma hostfs_GetPath_link:
  assumes "fp_abs (env_root env)" and "fp_abs (dv_root d)"
    and "HostfsDevice_GetPath env h d hr p b = Returns (B_OK, q, True)"
  shows "normal_path q"
  using assms(3) cpp_result_not_ok hostfs_walk_link [OF assms(1,2)]
  by (auto simp: HostfsDevice_GetPath_def Let_def status_codes split: prod.splits if_splits)

definition on_host :: "'h vfs_env \<Rightarrow> vfs_device \<Rightarrow> bool" where
  "on_host env d \<longleftrightarrow> fp_abs (env_root env) \<and> fp_abs (dv_root d) \<and> host_root (dv_class d) \<noteq> None"

lemma device_GetPath_on_host:
  "on_host env d \<Longrightarrow> device_GetPath svc env h p d b =
    HostfsDevice_GetPath env h d (the (host_root (dv_class d))) p b"
  by (cases "dv_class d") (auto simp: on_host_def device_GetPath_def)

text \<open>
  The mount table as \<open>RegisterDevice\<close> builds it: a device stands at its own root, which is an
  absolute path, and there is one at the root directory.
\<close>

definition mounts_ok :: "mounts \<Rightarrow> bool" where
  "mounts_ok m \<longleftrightarrow> m fp_root \<noteq> None \<and>
    (\<forall>r d. m r = Some d \<longrightarrow> dv_root d = r \<and> fp_abs r \<and>
      (\<forall>hr. host_root (dv_class d) = Some hr \<longrightarrow> clean_path hr))"

definition host_mounts :: "mounts \<Rightarrow> bool" where
  "host_mounts m \<longleftrightarrow> (\<forall>r d. m r = Some d \<longrightarrow> host_root (dv_class d) \<noteq> None)"

lemma host_mounts_on_host:
  "mounts_ok m \<Longrightarrow> host_mounts m \<Longrightarrow> fp_abs (env_root env) \<Longrightarrow> m r = Some d \<Longrightarrow> on_host env d"
  by (auto simp: mounts_ok_def host_mounts_def on_host_def)

lemma start_normal_path: "fp_abs p \<Longrightarrow> normal_path (drop_slash (lexically_normal p))"
  by (simp add: clean_normal_path clean_drop_normal)

section \<open>What a device makes of a path\<close>

lemma names_below_walkable:
  assumes "normal_path a" and "fp_parts a = fp_parts r @ ys"
  shows "walkable (names_below r a)" "''..'' \<notin> set (names_below r a)"
proof -
  have n: "names_below r a = (if ys = [] \<or> hd ys = [] then [''.''] else ys)"
    using assms(2) by (simp add: names_below_def Let_def)
  have "[] \<notin> set (butlast ys)"
  proof
    assume "[] \<in> set (butlast ys)"
    then obtain us vs where u: "butlast ys = us @ [] # vs" by (meson split_list)
    then have "ys \<noteq> []" by auto
    then have "ys = us @ [] # (vs @ [last ys])" using u append_butlast_last_id [of ys] by simp
    then have "fp_parts a = (fp_parts r @ us) @ [] # (vs @ [last ys])" using assms(2) by simp
    then show False using normal_path_empty_last [OF assms(1)] by blast
  qed
  then show "walkable (names_below r a)" by (simp add: n walkable_def)
  show "''..'' \<notin> set (names_below r a)"
    using normal_path_no_dotdot [OF assms(1)] assms(2) by (simp add: n)
qed

text \<open>
  A link the device reports is the first on the way of the path, and a place it gives is the one
  the path leads to.
\<close>

lemma hostfs_GetPath_outcome:
  assumes a: "normal_path a" "mounted_at m a r" and d: "m r = Some d" "dv_root d = r"
    and hr: "host_root (dv_class d) = Some hr" "clean_path hr" and root: "fp_abs (env_root env)"
    and g: "HostfsDevice_GetPath env h d hr a t = Returns (B_OK, q, k)"
  shows "if k then link_step env h m t a q else leads_to env h t r (dv_class d) a q"
proof -
  define ns where "ns = names_below r a"
  obtain ys where y: "fp_parts a = fp_parts r @ ys" using a(2) by (auto simp: mounted_at_def)
  have r: "r = FPath True (fp_parts r)" using a(2) by (cases r) (simp add: mounted_at_def)
  have w: "walkable ns" "''..'' \<notin> set ns" using names_below_walkable [OF a(1) y] by (simp_all add: ns_def)
  have rel: "lexically_relative a (dv_root d) = FPath False ns"
    using relative_below [of True "fp_parts r" ys] y r normal_path_abs [OF a(1)] d(2)
    by (cases a) (auto simp: ns_def names_below_def Let_def)
  have ne: "ns \<noteq> []" using w(1) by (simp add: walkable_def)
  have place: "(if FPath False ns \<noteq> fp_name ''.'' then fp_append hr (FPath False ns) else hr) = host_place hr ns"
    using hr(2) ne strip_trailing_clean [OF hr(2)]
    by (auto simp: host_place_def host_name_def fp_name_def fp_append_def clean_path_def)
  have hr0: "host_name hr [] = hr" using hr(2) by (cases hr) (simp add: host_name_def clean_path_def)
  obtain ec where bl: "\<not> IsBlacklisted (dv_class d) (host_place hr ns)"
    and walk: "hostfs_walk env h t (host_place hr ns) ec hr (dv_root d) ns = Returns (B_OK, q, k)"
    using g ne cpp_result_not_ok
    by (auto simp: HostfsDevice_GetPath_def Let_def rel place fp_elements_def status_codes
        split: prod.splits if_splits)
  have abs: "fp_abs r" using a(2) by (simp add: mounted_at_def)
  note o = hostfs_walk_outcome [of hr env "[]" ns r "fp_parts r" h t "host_place hr ns" ec q k,
      unfolded append_Nil append_Nil2 hr0, OF hr(2) root w(1) abs refl walk [unfolded d(2)]]
  show ?thesis
  proof (cases k)
    case True
    obtain xs x zs l where x: "ns = xs @ x # zs"
        "\<forall>i. 0 < i \<and> i \<le> length xs \<longrightarrow> symlink_status (env_ops env) h (host_name hr (take i xs)) = (0, False)"
        "symlink_status (env_ops env) h (host_name hr (xs @ [x])) = (0, True)" "t \<or> zs \<noteq> []"
        "op_readlink (env_ops env) h (host_name hr (xs @ [x])) = Inr l"
        "q = lexically_normal (FPath True
          ((if fp_abs l then fp_parts (env_root env) else fp_parts r @ xs) @ appended_names l @ zs))"
      using o [unfolded if_P [OF True]] by (elim exE conjE) (rule that)
    have "link_step env h m t a q"
      unfolding x(6)
      by (rule link_step.intros [OF a(2) d(1) hr(1) x(1) [unfolded ns_def] bl [unfolded ns_def] x(2-5)])
    then show ?thesis using True by simp
  next
    case False
    then have "q = host_place hr ns" "\<forall>i. 0 < i \<and> (i < length ns \<or> t \<and> i = length ns) \<longrightarrow>
        symlink_status (env_ops env) h (host_name hr (take i ns)) = (0, False)"
      using o [unfolded if_not_P [OF False]] by simp_all
    then show ?thesis using False hr(1) bl w(2) by (auto simp: leads_to_def ns_def)
  qed
qed

text \<open>Where a path leads to a place, no link is left on its way.\<close>

lemma leads_to_no_link:
  assumes "leads_to env h t r (dv_class d) a q" and "mounted_at m a r" and "m r = Some d"
  shows "\<not> link_step env h m t a b"
proof
  assume "link_step env h m t a b"
  then show False
  proof cases
    case (link_step r' d' hr xs x zs l)
    have r: "r' = r" by (rule mounted_at_unique [OF link_step(2) assms(2)])
    then have "hr = the (host_root (dv_class d))" using link_step(3,4) assms(3) by simp
    moreover have "take (Suc (length xs)) (names_below r a) = xs @ [x]" using link_step(5) r by simp
    moreover have "Suc (length xs) < length (names_below r a) \<or> t \<and> Suc (length xs) = length (names_below r a)"
      using link_step(5,9) r by (cases zs) auto
    ultimately show False
      using assms(1) link_step(8) unfolding leads_to_def by (metis option.sel prod.inject zero_less_Suc)
  qed
qed

definition host_only :: "'h vfs_env \<Rightarrow> mounts \<Rightarrow> bool" where
  "host_only env m \<longleftrightarrow> mounts_ok m \<and> host_mounts m \<and> fp_abs (env_root env)"

lemma host_only_GetPath:
  assumes "host_only env m" and "normal_path a" and "find_drive m a = Some r" and "m r = Some d"
    and "device_GetPath svc env h a d t = Returns (B_OK, q, k)"
  shows "mounted_at m a r \<and> (if k then link_step env h m t a q else leads_to env h t r (dv_class d) a q)"
proof -
  have m: "mounts_ok m" "host_mounts m" "fp_abs (env_root env)" "m fp_root \<noteq> None"
    using assms(1) by (simp_all add: host_only_def mounts_ok_def)
  obtain hr where hr: "host_root (dv_class d) = Some hr" using m(2) assms(4) by (auto simp: host_mounts_def)
  have at: "mounted_at m a r" using find_drive_mounted [where m = m, OF m(4) normal_path_abs [OF assms(2)]] assms(3) by blast
  have g: "HostfsDevice_GetPath env h d hr a t = Returns (B_OK, q, k)"
    using assms(5) device_GetPath_on_host [OF host_mounts_on_host [OF m(1-3) assms(4)]] hr by simp
  have "dv_root d = r" "clean_path hr" using m(1) assms(4) hr by (auto simp: mounts_ok_def)
  then show ?thesis using at hostfs_GetPath_outcome [OF assms(2) at assms(4) _ hr _ m(3) g] by simp
qed

interpretation hostfs: path_device "device_GetPath svc env h" "host_only env" "link_step env h" for svc env h
proof
  fix m r d p b
  assume "host_only env m" and "m r = Some d"
  then have o: "on_host env d" by (auto simp: host_only_def intro: host_mounts_on_host)
  show "device_GetPath svc env h p d b \<noteq> Pending"
    by (simp only: device_GetPath_on_host [OF o] hostfs_GetPath_answers not_False_eq_True)
next
  fix m
  assume "host_only env m"
  then show "m fp_root \<noteq> None" by (simp add: host_only_def mounts_ok_def)
next
  fix m p r d b q
  assume a: "host_only env m" "normal_path p" "find_drive m p = Some r" "m r = Some d"
    "device_GetPath svc env h p d b = Returns (B_OK, q, True)"
  then have o: "on_host env d" by (auto simp: host_only_def intro: host_mounts_on_host)
  have "normal_path q"
    using hostfs_GetPath_link [of env d h] a(5) o by (simp only: device_GetPath_on_host [OF o] on_host_def)
  then show "link_step env h m b p q \<and> normal_path q" using host_only_GetPath [OF a] by simp
next
  fix m b p q q'
  assume "link_step env h m b p q" and "link_step env h m b p q'"
  then show "q = q'" by (rule link_step_det)
qed

section \<open>Where a lookup leads\<close>

text \<open>
  The host path \<open>q\<close> is where \<open>p\<close> leads: from \<open>p\<close> in normal form, over the symbolic links on the
  way, to a path without a further link, and from there into the host directory of its file system.
\<close>

definition resolves_to :: "'h vfs_env \<Rightarrow> 'h \<Rightarrow> mounts \<Rightarrow> bool \<Rightarrow> fpath \<Rightarrow> fpath \<Rightarrow> bool" where
  "resolves_to env h m traverse p q \<longleftrightarrow>
    (\<exists>a r d. (link_step env h m traverse)\<^sup>*\<^sup>* (drop_slash (lexically_normal p)) a \<and>
      mounted_at m a r \<and> m r = Some d \<and> leads_to env h traverse r (dv_class d) a q)"

lemma resolved_path:
  assumes "mounts_ok m" and "host_mounts m" and "fp_abs (env_root env)" and "fp_abs p"
    and "Vfs_GetPath n env m h p traverse = Returns (B_OK, q)"
  shows "resolves_to env h m traverse p q"
proof -
  obtain k where n: "n = Suc k" using assms(5) by (cases n) auto
  have ho: "host_only env m" using assms(1-3) by (simp add: host_only_def)
  obtain u where w: "DoWork_loop n m (path_work (device_GetPath (Vfs_GetPath k env m h) env h)) traverse
      (drop_slash (lexically_normal p)) () = Returns (B_OK, q, u)"
    using assms(5) by (auto simp: n path_result_def DoWork_def elim: bind_outcome_ReturnsE)
  obtain p' r d where p': "(link_step env h m traverse)\<^sup>*\<^sup>* (drop_slash (lexically_normal p)) p'"
      "normal_path p'" "find_drive m p' = Some r" "m r = Some d"
      "device_GetPath (Vfs_GetPath k env m h) env h p' d traverse = Returns (B_OK, q, False)"
    using hostfs.loop_result [OF ho start_normal_path [OF assms(4)] w] by blast
  then show ?thesis using host_only_GetPath [OF ho p'(2-5)] unfolding resolves_to_def by auto
qed

lemma chain_end_unique:
  assumes "(link_step env h m t ^^ k) p a" and "\<nexists>b. link_step env h m t a b"
    and "(link_step env h m t)\<^sup>*\<^sup>* p a'" and "\<nexists>b. link_step env h m t a' b"
  shows "a' = a"
  using assms(1,3)
proof (induction k arbitrary: p)
  case 0
  then show ?case using assms(2) by (auto elim: converse_rtranclpE)
next
  case (Suc k)
  obtain b where b: "link_step env h m t p b" "(link_step env h m t ^^ k) b a"
    using Suc.prems(1) by (meson relpowp_Suc_D2)
  then have "(link_step env h m t)\<^sup>*\<^sup>* b a'"
    using Suc.prems(2) assms(4) link_step_det by (metis converse_rtranclpE)
  then show ?case by (rule Suc.IH [OF b(2)])
qed

section \<open>When a lookup comes back\<close>

text \<open>
  C22: a lookup ends when the symbolic links on its way do. If the chain of links from an absolute
  path ends after \<open>k\<close> of them, \<open>GetPath\<close> answers in every number of rounds above \<open>k\<close>, always the
  same, and a success is the place of the host the end of the chain leads to. The mounted file
  systems are all over host directories (none is a bound directory), with one at the root, and the
  root of the team is absolute.
\<close>

theorem lookup_answers_when_links_end:
  assumes "mounts_ok m" and "host_mounts m" and "fp_abs (env_root env)" and "fp_abs p"
    and "(link_step env h m traverse ^^ k) (drop_slash (lexically_normal p)) a"
    and "\<nexists>b. link_step env h m traverse a b"
  shows "\<exists>x. x \<noteq> Pending \<and> (\<forall>n>k. Vfs_GetPath n env m h p traverse = x) \<and>
    (\<forall>q. x = Returns (B_OK, q) \<longrightarrow>
      (\<exists>r d. mounted_at m a r \<and> m r = Some d \<and> leads_to env h traverse r (dv_class d) a q))"
proof -
  have ho: "host_only env m" using assms(1-3) by (simp add: host_only_def)
  have "DoWork_loop (Suc k) m (path_work (device_GetPath (Vfs_GetPath k env m h) env h)) traverse
      (drop_slash (lexically_normal p)) () \<noteq> Pending"
    by (rule hostfs.loop_returns [OF ho start_normal_path [OF assms(4)] assms(5,6)]) simp
  then have x: "Vfs_GetPath (Suc k) env m h p traverse \<noteq> Pending"
    unfolding Vfs_GetPath.simps path_result_def DoWork_def
    by (auto simp: bind_outcome_Pending_iff split: prod.split)
  have "Vfs_GetPath n env m h p traverse = Vfs_GetPath (Suc k) env m h p traverse" if "k < n" for n
    using GetPath_more_rounds [of "Suc k" n env m h p traverse] that x by (auto simp: outcome_le_def)
  moreover have "\<exists>r d. mounted_at m a r \<and> m r = Some d \<and> leads_to env h traverse r (dv_class d) a q"
    if g: "Vfs_GetPath (Suc k) env m h p traverse = Returns (B_OK, q)" for q
  proof -
    obtain a' r d where a': "(link_step env h m traverse)\<^sup>*\<^sup>* (drop_slash (lexically_normal p)) a'"
        "mounted_at m a' r" "m r = Some d" "leads_to env h traverse r (dv_class d) a' q"
      using resolved_path [OF assms(1-4) g] unfolding resolves_to_def by blast
    have "a' = a"
      by (rule chain_end_unique [OF assms(5,6) a'(1)]) (use leads_to_no_link [OF a'(4,2,3)] in blast)
    then show ?thesis using a' by blast
  qed
  ultimately show ?thesis using x by blast
qed

section \<open>A small host\<close>

text \<open>
  A root file system at \<^verbatim>\<open>/h\<close> of the host, with a file \<open>f\<close>, a link \<open>l\<close> to it, a link
  \<open>x\<close> to itself, and a bound directory \<open>b\<close> for \<open>d\<close>.
\<close>

definition sample_stat :: "int \<Rightarrow> int \<Rightarrow> linux_stat" where
  "sample_stat ino mode = \<lparr>l_dev = 7, l_ino = ino, l_mode = mode, l_nlink = 1, l_uid = 0, l_gid = 0,
     l_size = 0, l_rdev = 0, l_blksize = 512, l_atim = (0, 0), l_mtim = (0, 0), l_ctim = (0, 0),
     l_blocks = 0\<rparr>"

definition sample_lstat :: "fpath \<Rightarrow> int + linux_stat" where
  "sample_lstat p =
    (if p = FPath True [''h''] \<or> p = FPath True [''h'', ''.''] \<or> p = FPath True [''h'', ''d'']
     then Inr (sample_stat 1 0x41ED)
     else if p = FPath True [''h'', ''f''] \<or> p = FPath True [''h'', ''d'', ''f'']
     then Inr (sample_stat 2 0x81A4)
     else if p = FPath True [''h'', ''l''] \<or> p = FPath True [''h'', ''x'']
     then Inr (sample_stat 3 0xA1FF)
     else Inl 2)"

definition sample_ops :: "unit fs_ops" where
  "sample_ops =
    \<lparr>op_lstat = (\<lambda>_. sample_lstat), op_stat = (\<lambda>_. sample_lstat),
     op_readlink = (\<lambda>_ p. if p = FPath True [''h'', ''l''] then Inr (FPath False [''f''])
       else if p = FPath True [''h'', ''x''] then Inr (FPath False [''x'']) else Inl 22),
     op_lchmod = (\<lambda>_ _ h. (0, h)), op_lchown = (\<lambda>_ _ _ h. (0, h)),
     op_truncate = (\<lambda>_ _ h. (0, h)), op_utimensat = (\<lambda>_ _ _ h. (0, h)),
     op_exists = (\<lambda>_ p. \<not> isl (sample_lstat p)), op_read_file = (\<lambda>_ _. Some []),
     op_write_file = (\<lambda>_ _ h. Some h), op_append_file = (\<lambda>_ _ h. Some h),
     op_create_directories = (\<lambda>_ h. (0, h)), op_remove = (\<lambda>_ h. (0, h)),
     op_remove_all = (\<lambda>_ h. h), op_symlink = (\<lambda>_ _ h. (0, h)), op_permit_all = (\<lambda>_ h. h),
     op_statfs = (\<lambda>_ _. None),
     op_inotify_init = (\<lambda>h. (Inr 5, h)), op_inotify_add_watch = (\<lambda>_ _ h. (Inr 1, h)),
     op_inotify_rm_watch = (\<lambda>_ _ h. h)\<rparr>"

definition sample_info :: "int \<Rightarrow> fs_info" where
  "sample_info dev = \<lparr>fi_dev = dev, fi_root = 1, fi_flags = 0, fi_block_size = 0, fi_io_size = 0,
     fi_total_blocks = 0, fi_free_blocks = 0, fi_total_nodes = 0, fi_free_nodes = 0,
     fi_device_name = [], fi_volume_name = [], fi_fsh_name = []\<rparr>"

definition sample_env :: "unit vfs_env" where
  "sample_env = \<lparr>env_ops = sample_ops, env_usermap = user_map_init, env_root = fp_root,
     env_prefix = ''/h'', env_junk = sample_info 0, env_pkg_install = (\<lambda>_ _ h. Returns h),
     env_pkg_cleanup = (\<lambda>_ h. Returns (B_OK, h))\<rparr>"

definition sample_device :: "int \<Rightarrow> fpath \<Rightarrow> device_class \<Rightarrow> vfs_device" where
  "sample_device dev root c = \<lparr>dv_info = sample_info dev, dv_root = root, dv_mountFlags = 0, dv_class = c\<rparr>"

definition sample_mounts :: mounts where
  "sample_mounts = [fp_root \<mapsto> sample_device 1 fp_root (SystemfsDevice (FPath True [''h'']))]"

definition sample_bind_mounts :: mounts where
  "sample_bind_mounts = sample_mounts(FPath True [''b''] \<mapsto>
     sample_device 2 (FPath True [''b'']) (BindfsDevice (FPath True [''d''])))"

lemma sample_runs:
  "Vfs_GetPath 2 sample_env sample_mounts () (FPath True [''l'']) True =
    Returns (B_OK, FPath True [''h'', ''f''])"
  "Vfs_GetPath 2 sample_env sample_mounts () (FPath True [''l'']) False =
    Returns (B_OK, FPath True [''h'', ''l''])"
  "Vfs_RealPath 3 sample_env sample_mounts () (FPath True [''d'', ''..'', ''l'']) =
    Returns (B_OK, FPath True [''f''])"
  by code_simp+

lemma sample_mounts_ok: "mounts_ok sample_mounts" "host_mounts sample_mounts"
  by (auto simp: mounts_ok_def host_mounts_def sample_mounts_def sample_device_def clean_path_def
      proper_name_def split: if_splits)

text \<open>A host without links.\<close>

definition linkless_env :: "unit vfs_env" where
  "linkless_env = sample_env\<lparr>env_ops := sample_ops\<lparr>op_lstat := \<lambda>_ _. Inr (sample_stat 1 0x41ED)\<rparr>\<rparr>"

lemma linkless_status: "symlink_status (env_ops linkless_env) h p = (0, False)"
  by (simp add: symlink_status_def linkless_env_def sample_env_def sample_stat_def is_link_mode_def)

lemma linkless_walk: "hostfs_walk linkless_env h b orig ec hp p es \<noteq> Returns (s, q, True)"
  by (induction es arbitrary: ec hp p) (simp_all add: linkless_status)

lemma linkless_GetPath: "HostfsDevice_GetPath linkless_env h d hr p b \<noteq> Returns (B_OK, q, True)"
  using linkless_walk by (auto simp: HostfsDevice_GetPath_def Let_def linkless_status status_codes)

text \<open>The link \<open>/l\<close> of the small host is one step to \<open>/f\<close>, where the way ends.\<close>

lemma sample_link_step:
  "link_step sample_env () sample_mounts True (FPath True [''l'']) (FPath True [''f''])"
  "\<not> link_step sample_env () sample_mounts True (FPath True [''f'']) b"
proof -
  let ?d = "sample_device 1 fp_root (SystemfsDevice (FPath True [''h'']))"
  have m: "sample_mounts fp_root = Some ?d" by (simp add: sample_mounts_def)
  have at: "mounted_at sample_mounts (FPath True [n]) fp_root" if "n = ''l'' \<or> n = ''f''" for n
    using that find_drive_mounted [of sample_mounts "FPath True [n]" fp_root] m
    by (elim disjE) (simp_all add: sample_mounts_def find_drive_up has_parent_abs fp_parent_def find_drive_here)
  have g: "HostfsDevice_GetPath sample_env () ?d (FPath True [''h'']) (FPath True [''l'']) True =
      Returns (B_OK, FPath True [''f''], True)"
    "HostfsDevice_GetPath sample_env () ?d (FPath True [''h'']) (FPath True [''f'']) True =
      Returns (B_OK, FPath True [''h'', ''f''], False)"
    by code_simp+
  have n: "normal_path (FPath True [''l''])" "normal_path (FPath True [''f''])"
    by (simp_all add: clean_normal_path clean_path_def proper_name_def)
  have r: "dv_root ?d = fp_root" "host_root (dv_class ?d) = Some (FPath True [''h''])"
    "clean_path (FPath True [''h''])" "fp_abs (env_root sample_env)"
    by (simp_all add: sample_device_def clean_path_def proper_name_def sample_env_def)
  show "link_step sample_env () sample_mounts True (FPath True [''l'']) (FPath True [''f''])"
    using hostfs_GetPath_outcome [OF n(1) at m r g(1)] by simp
  have "leads_to sample_env () True fp_root (dv_class ?d) (FPath True [''f'']) (FPath True [''h'', ''f''])"
    using hostfs_GetPath_outcome [OF n(2) at m r g(2)] by simp
  then show "\<not> link_step sample_env () sample_mounts True (FPath True [''f'']) b"
    by (rule leads_to_no_link [OF _ at m]) simp
qed

theorem lookup_answers_when_links_end_witness:
  "Vfs_GetPath 100 sample_env sample_mounts () (FPath True [''l'']) True = Returns (B_OK, FPath True [''h'', ''f''])"
proof -
  have s: "drop_slash (lexically_normal (FPath True [''l''])) = FPath True [''l'']" by code_simp
  have "(link_step sample_env () sample_mounts True ^^ 1) (drop_slash (lexically_normal (FPath True [''l''])))
      (FPath True [''f''])"
    unfolding relpowp_1 s by (rule sample_link_step(1))
  then obtain x where "\<forall>n>1. Vfs_GetPath n sample_env sample_mounts () (FPath True [''l'']) True = x"
    using lookup_answers_when_links_end [OF sample_mounts_ok, where env = sample_env and h = "()" and k = 1
        and p = "FPath True [''l'']" and a = "FPath True [''f'']" and traverse = True] sample_link_step(2)
    by (auto simp: sample_env_def)
  then have "Vfs_GetPath 2 sample_env sample_mounts () (FPath True [''l'']) True = x"
    "Vfs_GetPath 100 sample_env sample_mounts () (FPath True [''l'']) True = x"
    by (simp_all del: Vfs_GetPath.simps)
  then show ?thesis using sample_runs(1) by simp
qed

section \<open>When it does not\<close>

lemma DoWork_loop_stays:
  assumes "find_drive m p = Some r" and "m r = Some d" and "f p d t u = Returns (B_OK, p, True, u)"
  shows "DoWork_loop n m f t p u = Pending"
  using assms by (induction n) simp_all

text \<open>
  Nothing bounds the links \<open>_DoWork\<close> follows: a file that is a symbolic link to itself keeps
  \<open>GetPath\<close> going for ever, with the lock of the service held. No number of rounds ends it.
\<close>

theorem self_link_never_resolves:
  "Vfs_GetPath n sample_env sample_mounts () (FPath True [''x'']) True = Pending"
proof (cases n)
  case (Suc k)
  let ?p = "FPath True [''x'']"
  let ?d = "sample_device 1 fp_root (SystemfsDevice (FPath True [''h'']))"
  let ?f = "path_work (device_GetPath (Vfs_GetPath k sample_env sample_mounts ()) sample_env ())"
  have "HostfsDevice_GetPath sample_env () ?d (FPath True [''h'']) ?p True = Returns (B_OK, ?p, True)"
    by code_simp
  then have w: "?f ?p ?d True () = Returns (B_OK, ?p, True, ())"
    by (simp add: path_work_def device_GetPath_def sample_device_def)
  have "find_drive sample_mounts ?p = Some fp_root" by code_simp
  then have "DoWork_loop n sample_mounts ?f True ?p () = Pending"
    by (rule DoWork_loop_stays [where f = ?f and d = ?d]) (simp add: sample_mounts_def, rule w)
  moreover have "clean_path ?p" by (simp add: clean_path_def proper_name_def)
  ultimately show ?thesis by (simp add: Suc DoWork_def path_result_def)
qed simp

text \<open>
  Through a bound directory the flag stays set after the device has answered, so \<open>_DoWork\<close> goes
  another round with the answer as if it were a guest path: the host path of the file is looked
  up in the guest's tree and not found, and the stat of the second round loses the device and
  inode of the bound volume.
\<close>

lemma bound_path_is_looked_up_again:
  "Vfs_GetPath 3 sample_env sample_bind_mounts () (FPath True [''b'', ''f'']) False =
    Returns (B_OK, FPath True [''h'', ''d'', ''f''])"
  "Vfs_GetPath 3 sample_env sample_bind_mounts () (FPath True [''b'', ''f'']) True =
    Returns (B_ENTRY_NOT_FOUND, FPath True [''h'', ''h'', ''d'', ''f''])"
  by code_simp+

definition sample_host_device :: vfs_device where
  "sample_host_device = sample_device 1 fp_root (SystemfsDevice (FPath True [''h'']))"

definition sample_bound_device :: vfs_device where
  "sample_bound_device = sample_device 2 (FPath True [''b'']) (BindfsDevice (FPath True [''d'']))"

definition sample_bound_stat :: haiku_stat where
  "sample_bound_stat = (haiku_stat_of user_map_init (sample_stat 2 0x81A4))
     \<lparr>st_ino := fs_Hash 7 2, st_dev := 1\<rparr>"

lemma sample_bind_lookups:
  "find_drive sample_bind_mounts (FPath True [''b'', ''f'']) = Some (FPath True [''b''])"
  "find_drive sample_bind_mounts (FPath True [''d'', ''f'']) = Some fp_root"
  "sample_bind_mounts (FPath True [''b'']) = Some sample_bound_device"
  "sample_bind_mounts fp_root = Some sample_host_device"
  by code_simp+

lemma sample_host_stat:
  "device_ReadStat svc sample_env () (FPath True [''d'', ''f'']) sample_host_device t st =
    Returns (B_OK, FPath True [''h'', ''d'', ''f''], False, sample_bound_stat)"
proof -
  have "HostfsDevice_GetPath sample_env () sample_host_device (FPath True [''h''])
      (FPath True [''d'', ''f'']) b = Returns (B_OK, FPath True [''h'', ''d'', ''f''], False)" for b
    by (cases b; simp only:; code_simp)
  moreover have "server_read_stat sample_ops user_map_init () (FPath True [''h'', ''d'', ''f'']) st =
      (B_OK, haiku_stat_of user_map_init (sample_stat 2 0x81A4))"
    by (simp add: server_read_stat_def is_proc_fd_link_def fp_elements_def sample_ops_def sample_lstat_def)
  moreover have "st_dev (haiku_stat_of user_map_init (sample_stat 2 m)) = 7"
    "st_ino (haiku_stat_of user_map_init (sample_stat 2 m)) = 2" for m
    by (simp_all add: haiku_stat_of_def sample_stat_def to_int32_def to_int64_def)
  ultimately show ?thesis
    by (simp add: device_ReadStat_def HostfsDevice_ReadStat_def sample_host_device_def
        sample_device_def sample_bound_stat_def sample_info_def sample_env_def)
qed

lemma bound_stat_depends_on_traversal:
  "Vfs_ReadStat 3 sample_env sample_bind_mounts () (FPath True [''b'', ''f'']) False st =
    Returns (B_OK, sample_bound_stat\<lparr>st_ino := fs_Hash 1 (fs_Hash 7 2), st_dev := 2\<rparr>)"
  "Vfs_ReadStat 3 sample_env sample_bind_mounts () (FPath True [''b'', ''f'']) True st =
    Returns (B_OK, sample_bound_stat)"
proof -
  let ?p = "FPath True [''b'', ''f'']" and ?q = "FPath True [''d'', ''f'']"
  have c: "clean_path ?p" "clean_path ?q" by (simp_all add: clean_path_def proper_name_def)
  have tr: "BindfsDevice_TransformPath sample_bound_device (FPath True [''d'']) ?p = (B_OK, ?q)"
    by code_simp
  have inner: "Vfs_ReadStat (Suc n) sample_env sample_bind_mounts () ?q t st = Returns (B_OK, sample_bound_stat)"
    for n t st
    by (simp add: DoWork_def c state_result_def sample_bind_lookups sample_host_stat)
  have bound: "device_ReadStat (Vfs_ReadStat (Suc n) sample_env sample_bind_mounts ()) sample_env () ?p
      sample_bound_device t st = Returns (B_OK, ?q, t,
        sample_bound_stat\<lparr>st_ino := fs_Hash 1 (fs_Hash 7 2), st_dev := 2\<rparr>)" for n t st
    using tr inner [of n]
    by (simp add: device_ReadStat_def sample_bound_device_def sample_device_def BindfsDevice_ReadStat_def
        sample_bound_stat_def sample_info_def del: Vfs_ReadStat.simps)
  show "Vfs_ReadStat 3 sample_env sample_bind_mounts () ?p False st =
      Returns (B_OK, sample_bound_stat\<lparr>st_ino := fs_Hash 1 (fs_Hash 7 2), st_dev := 2\<rparr>)"
    "Vfs_ReadStat 3 sample_env sample_bind_mounts () ?p True st = Returns (B_OK, sample_bound_stat)"
    using bound [of 1]
    by (simp_all add: numeral_3_eq_3 Vfs_ReadStat.simps(2) [of "Suc (Suc 0)"] DoWork_def c state_result_def
        sample_bind_lookups sample_host_stat del: Vfs_ReadStat.simps)
qed

text \<open>The test for hidden files is one on the first characters of the path.\<close>

lemma hidden_by_prefix:
  "Rootfs_IsBlacklisted (FPath True [''h'']) (FPath True [''h'', ''.hyclone-notes''])"
  by code_simp

text \<open>An error other than five known ones leaves the server as an exception.\<close>

lemma io_error_is_thrown:
  assumes "op_lstat (env_ops env) h (FPath True [''h'', ''f'']) = Inl 5"
  shows "Vfs_GetPath (Suc n) env sample_mounts h (FPath True [''f'']) t = Throws 5"
proof -
  have f: "find_drive sample_mounts (FPath True [''f'']) = Some fp_root" by code_simp
  have m: "sample_mounts fp_root = Some (sample_device 1 fp_root (SystemfsDevice (FPath True [''h''])))"
    by (simp add: sample_mounts_def)
  have d: "drop_slash (lexically_normal (FPath True [''f''])) = FPath True [''f'']" by code_simp
  have "lexically_relative (FPath True [''f'']) fp_root = FPath False [''f'']"
    "fp_append (FPath True [''h'']) (FPath False [''f'']) = FPath True [''h'', ''f'']"
    "FPath False [''f''] \<noteq> fp_name ''.''"
    using relative_below [of True "[]" "[''f'']"]
    by (simp_all add: fp_append_def strip_trailing_def fp_name_def)
  then have "device_GetPath svc env h (FPath True [''f''])
      (sample_device 1 fp_root (SystemfsDevice (FPath True [''h'']))) t = Throws 5" for svc
    using assms
    by (simp add: sample_device_def device_GetPath_def HostfsDevice_GetPath_def symlink_status_def
        cpp_result_def CppToB_def)
  then show ?thesis
    using hostfs.loop_stuck(1) [OF f, of "sample_device 1 fp_root (SystemfsDevice (FPath True [''h'']))"
        "Vfs_GetPath n env sample_mounts h" env h t 5 n "()"] d
    by (simp add: DoWork_def path_result_def m del: DoWork_loop.simps)
qed

end
