(* ===== verification/VfsService.thy ===== *)
theory VfsService
  imports VfsResolve "HOL-Library.AList"
begin

text \<open>
  The class \<open>VfsService\<close> of \<^verbatim>\<open>hyclone_server/server_vfs.cpp\<close>: devices, mounts, entry
  references and monitors, with the mount functions of the file systems. A device is shared between
  the table of ids and the table of mounts; both hold its record, and \<open>put_device\<close> writes both. The
  hash map of the entry references is an association list; its order stands for the iteration order
  of the map. The messages to the node monitor are recorded.
\<close>

section \<open>State\<close>

datatype vfs_event = NotifyMount int int int | NotifyUnmount int

type_synonym 'h mounter =
  "nat \<Rightarrow> 'h vfs_env \<Rightarrow> mounts \<Rightarrow> fpath \<Rightarrow> fpath \<Rightarrow> int \<Rightarrow> string \<Rightarrow> 'h \<Rightarrow>
    (int \<times> vfs_device option \<times> 'h) outcome"

record 'h vfs_service =
  vs_entryRefs :: "(entry_ref \<times> string) list"
  vs_devices :: "vfs_device option IdMap"
  vs_deviceMounts :: mounts
  vs_deviceReferences :: "int \<rightharpoonup> int"
  vs_monitors :: "int \<Rightarrow> int list"
  vs_mounters :: "string \<rightharpoonup> 'h mounter"
  vs_inotify :: inotify
  vs_events :: "vfs_event list"

definition VfsService_new :: "'h vfs_service" where
  "VfsService_new =
    \<lparr>vs_entryRefs = [], vs_devices = snd (IdMap_Add IdMap_empty None), vs_deviceMounts = Map.empty,
     vs_deviceReferences = Map.empty, vs_monitors = (\<lambda>_. []), vs_mounters = Map.empty,
     vs_inotify = inotify_idle, vs_events = []\<rparr>"

section \<open>Entry references\<close>


definition RegisterEntryRef :: "entry_ref \<Rightarrow> string \<Rightarrow> 'h vfs_service \<Rightarrow> nat \<times> 'h vfs_service" where
  "RegisterEntryRef r p v =
    (let v' = v\<lparr>vs_entryRefs := AList.update r p (vs_entryRefs v)\<rparr> in (length (vs_entryRefs v'), v'))"

definition UnregisterEntryRef :: "entry_ref \<Rightarrow> 'h vfs_service \<Rightarrow> nat \<times> 'h vfs_service" where
  "UnregisterEntryRef r v =
    (let v' = v\<lparr>vs_entryRefs := AList.delete r (vs_entryRefs v)\<rparr> in (length (vs_entryRefs v'), v'))"

definition GetEntryRef :: "'h vfs_service \<Rightarrow> entry_ref \<Rightarrow> string option" where
  "GetEntryRef v r = map_of (vs_entryRefs v) r"

fun search_refs :: "(entry_ref \<times> string) list \<Rightarrow> string \<Rightarrow> entry_ref option" where
  "search_refs [] p = None"
| "search_refs ((r, q) # refs) p = (if q = p then Some r else search_refs refs p)"

definition SearchEntryRef :: "'h vfs_service \<Rightarrow> string \<Rightarrow> entry_ref option" where
  "SearchEntryRef v p = search_refs (vs_entryRefs v) p"

section \<open>Devices\<close>

definition put_device :: "int \<Rightarrow> vfs_device \<Rightarrow> 'h vfs_service \<Rightarrow> 'h vfs_service" where
  "put_device i d v =
    v\<lparr>vs_devices := (vs_devices v)\<lparr>items := (items (vs_devices v))[nat i := Some d]\<rparr>,
      vs_deviceMounts := (vs_deviceMounts v)(dv_root d \<mapsto> d)\<rparr>"

definition with_dev :: "int \<Rightarrow> vfs_device \<Rightarrow> vfs_device" where
  "with_dev i d = d\<lparr>dv_info := (dv_info d)\<lparr>fi_dev := i\<rparr>\<rparr>"

definition with_root :: "int \<Rightarrow> vfs_device \<Rightarrow> vfs_device" where
  "with_root i d = d\<lparr>dv_info := (dv_info d)\<lparr>fi_root := i\<rparr>\<rparr>"

text \<open>
  The device gets its id, is mounted, and is asked for the stat of its own root; \<open>st0\<close> is the
  uninitialised structure, which stays if the call fails.
\<close>

definition RegisterDevice ::
    "nat \<Rightarrow> 'h vfs_env \<Rightarrow> haiku_stat \<Rightarrow> vfs_device \<Rightarrow> 'h \<Rightarrow> 'h vfs_service \<Rightarrow>
      (vfs_device \<times> 'h vfs_service) outcome" where
  "RegisterDevice n env st0 d h v =
    (let (i, devs) = IdMap_Add (vs_devices v) (Some d);
         d1 = with_dev i d;
         v1 = put_device i d1 (v\<lparr>vs_devices := devs\<rparr>)
     in bind_outcome (Vfs_ReadStat n env (vs_deviceMounts v1) h (dv_root d1) False st0) (\<lambda>(_, st).
          (let d2 = with_root (st_ino st) d1;
               v2 = put_device i d2 v1
           in Returns (d2, snd (RegisterEntryRef (ref_of (GetId d2) (fi_root (dv_info d2)))
                                  (path_string (dv_root d2)) v2)))))"

definition VfsService_GetDevice :: "'h vfs_service \<Rightarrow> int \<Rightarrow> vfs_device option" where
  "VfsService_GetDevice v i =
    (if IdMap_IsValidId (vs_devices v) i
     then (case IdMap_Get (vs_devices v) i of Some (Some d) \<Rightarrow> Some d | _ \<Rightarrow> None) else None)"

definition VfsService_GetDevice_at :: "'h vfs_service \<Rightarrow> fpath \<Rightarrow> vfs_device option" where
  "VfsService_GetDevice_at v p = vs_deviceMounts v p"

definition VfsService_NextDeviceId :: "'h vfs_service \<Rightarrow> int \<Rightarrow> int" where
  "VfsService_NextDeviceId v i = IdMap_NextId (vs_devices v) i"

definition RegisterBuiltinFilesystem :: "string \<Rightarrow> 'h mounter \<Rightarrow> 'h vfs_service \<Rightarrow> 'h vfs_service" where
  "RegisterBuiltinFilesystem fs f v = v\<lparr>vs_mounters := (vs_mounters v)(fs \<mapsto> f)\<rparr>"

section \<open>Mount and unmount\<close>

text \<open>\<open>status\<close> is an error, or the id of the new device.\<close>

definition Vfs_Mount ::
    "nat \<Rightarrow> 'h vfs_env \<Rightarrow> haiku_stat \<Rightarrow> fpath \<Rightarrow> fpath \<Rightarrow> string \<Rightarrow> int \<Rightarrow> string \<Rightarrow> 'h \<Rightarrow>
      'h vfs_service \<Rightarrow> (int \<times> 'h \<times> 'h vfs_service) outcome" where
  "Vfs_Mount n env st0 path device fsName flags args h v =
    bind_outcome (Vfs_RealPath n env (vs_deviceMounts v) h (lexically_normal path)) (\<lambda>(status, realPath).
    if status \<noteq> B_OK then Returns (status, h, v)
    else bind_outcome (Vfs_ReadStat n env (vs_deviceMounts v) h realPath False st0) (\<lambda>(status, st).
    if status \<noteq> B_OK then Returns (status, h, v)
    else if \<not> HAIKU_S_ISDIR (st_mode st) then Returns (B_NOT_A_DIRECTORY, h, v)
    else bind_outcome
      (case vs_mounters v fsName of
         None \<Rightarrow> Returns (B_DEVICE_NOT_FOUND, None, h)
       | Some f \<Rightarrow> f n env (vs_deviceMounts v) realPath device flags args h) (\<lambda>(status, vol, h').
    case (if status = B_OK then vol else None) of
      None \<Rightarrow> Returns (status, h', v)
    | Some d \<Rightarrow>
        bind_outcome (RegisterDevice n env st0 d h' v) (\<lambda>(d', v').
          Returns (GetId d', h',
            v'\<lparr>vs_events := vs_events v' @ [NotifyMount (GetId d') (st_dev st) (st_ino st)]\<rparr>)))))"

text \<open>\<open>Cleanup\<close> does nothing except for the package file system.\<close>

fun device_Cleanup :: "'h vfs_env \<Rightarrow> device_class \<Rightarrow> 'h \<Rightarrow> (int \<times> 'h) outcome" where
  "device_Cleanup env (PackagefsDevice hr _) h = env_pkg_cleanup env hr h"
| "device_Cleanup env _ h = Returns (B_OK, h)"

definition device_RemoveMonitor ::
    "'h fs_ops \<Rightarrow> vfs_device \<Rightarrow> int \<Rightarrow> inotify \<Rightarrow> 'h \<Rightarrow> int \<times> inotify \<times> 'h" where
  "device_RemoveMonitor ops d node s h =
    (case dv_class d of
       BindfsDevice _ \<Rightarrow> (B_UNSUPPORTED, s, h)
     | _ \<Rightarrow> server_remove_native_monitor ops (GetId d) node s h)"

fun remove_monitors ::
    "'h fs_ops \<Rightarrow> vfs_device \<Rightarrow> int list \<Rightarrow> inotify \<Rightarrow> 'h \<Rightarrow> inotify \<times> 'h" where
  "remove_monitors ops d [] s h = (s, h)"
| "remove_monitors ops d (node # nodes) s h =
    (let (_, s', h') = device_RemoveMonitor ops d node s h in remove_monitors ops d nodes s' h')"

definition Vfs_Unmount ::
    "nat \<Rightarrow> 'h vfs_env \<Rightarrow> fpath \<Rightarrow> 'h \<Rightarrow> 'h vfs_service \<Rightarrow> (int \<times> 'h \<times> 'h vfs_service) outcome" where
  "Vfs_Unmount n env path h v =
    bind_outcome (Vfs_RealPath n env (vs_deviceMounts v) h (lexically_normal path)) (\<lambda>(status, realPath).
    if status \<noteq> B_OK then Returns (status, h, v)
    else case vs_deviceMounts v realPath of
        None \<Rightarrow> Returns (B_DEVICE_NOT_FOUND, h, v)
      | Some d \<Rightarrow>
          bind_outcome (device_Cleanup env (dv_class d) h) (\<lambda>(status, h1).
           let dev = GetId d in
           if status \<noteq> B_OK then Returns (status, h1, v)
           else case IdMap_Remove None (vs_devices v) dev of
               None \<Rightarrow> Undefined
             | Some devs \<Rightarrow>
                 (let (ino, h2) = remove_monitors (env_ops env) d (vs_monitors v dev) (vs_inotify v) h1
                  in Returns (B_OK, h2,
                    v\<lparr>vs_entryRefs := filter (\<lambda>(r, _). to_int32 (GetDevice r) \<noteq> GetId d) (vs_entryRefs v),
                      vs_devices := devs,
                      vs_deviceMounts := (vs_deviceMounts v)(realPath := None),
                      vs_deviceReferences := (vs_deviceReferences v)(dev := None),
                      vs_monitors := (vs_monitors v)(dev := []),
                      vs_inotify := ino,
                      vs_events := vs_events v @ [NotifyUnmount dev]\<rparr>))))"

section \<open>Monitors\<close>

text \<open>
  \<open>HostfsDevice::AddMonitor\<close> watches the host directory of the node's registered path. The
  other classes keep the default, which is not supported.
\<close>

definition device_AddMonitor ::
    "'h fs_ops \<Rightarrow> 'h vfs_service \<Rightarrow> vfs_device \<Rightarrow> int \<Rightarrow> 'h \<Rightarrow> (int \<times> inotify \<times> 'h) outcome" where
  "device_AddMonitor ops v d node h =
    (case host_root (dv_class d) of
       None \<Rightarrow> Returns (B_UNSUPPORTED, vs_inotify v, h)
     | Some hr \<Rightarrow>
         (case GetEntryRef v (ref_of (GetId d) node) of
            None \<Rightarrow> Returns (B_ENTRY_NOT_FOUND, vs_inotify v, h)
          | Some p \<Rightarrow>
              server_add_native_monitor ops
                (fp_append hr (lexically_relative (parse_path p) (dv_root d)))
                (GetId d) node (vs_inotify v) h))"

text \<open>The device table is indexed without a check of the id.\<close>

definition Vfs_AddMonitor ::
    "'h fs_ops \<Rightarrow> int \<Rightarrow> int \<Rightarrow> 'h \<Rightarrow> 'h vfs_service \<Rightarrow> (int \<times> 'h \<times> 'h vfs_service) outcome" where
  "Vfs_AddMonitor ops dev node h v =
    (case IdMap_Get (vs_devices v) dev of
       None \<Rightarrow> Undefined
     | Some None \<Rightarrow> Returns (B_ENTRY_NOT_FOUND, h, v)
     | Some (Some d) \<Rightarrow>
         (if node \<in> set (vs_monitors v dev) then Returns (B_OK, h, v)
          else bind_outcome (device_AddMonitor ops v d node h) (\<lambda>(status, ino, h').
            if status \<noteq> B_OK then Returns (status, h', v\<lparr>vs_inotify := ino\<rparr>)
            else Returns (B_OK, h',
              v\<lparr>vs_monitors := (vs_monitors v)(dev := node # vs_monitors v dev), vs_inotify := ino\<rparr>))))"

definition Vfs_RemoveMonitor ::
    "'h fs_ops \<Rightarrow> int \<Rightarrow> int \<Rightarrow> 'h \<Rightarrow> 'h vfs_service \<Rightarrow> (int \<times> 'h \<times> 'h vfs_service) outcome" where
  "Vfs_RemoveMonitor ops dev node h v =
    (case IdMap_Get (vs_devices v) dev of
       None \<Rightarrow> Undefined
     | Some None \<Rightarrow> Returns (B_ENTRY_NOT_FOUND, h, v)
     | Some (Some d) \<Rightarrow>
         (if node \<notin> set (vs_monitors v dev) then Returns (B_OK, h, v)
          else let (status, ino, h') = device_RemoveMonitor ops d node (vs_inotify v) h in
            if status \<noteq> B_OK then Returns (status, h', v\<lparr>vs_inotify := ino\<rparr>)
            else Returns (B_OK, h',
              v\<lparr>vs_monitors := (vs_monitors v)(dev := removeAll node (vs_monitors v dev)),
                vs_inotify := ino\<rparr>)))"

section \<open>Attributes\<close>

definition BindfsDevice_GetAttrPath ::
    "(fpath \<Rightarrow> bool \<Rightarrow> 'h \<Rightarrow> (int \<times> fpath \<times> 'h) outcome) \<Rightarrow> vfs_device \<Rightarrow> fpath \<Rightarrow> fpath \<Rightarrow> bool \<Rightarrow> 'h \<Rightarrow>
      (int \<times> fpath \<times> bool \<times> 'h) outcome" where
  "BindfsDevice_GetAttrPath svc d boundRoot p isSymlink h =
    (let (status, q) = BindfsDevice_TransformPath d boundRoot p in
     if status \<noteq> B_OK then Returns (status, q, isSymlink, h)
     else bind_outcome (svc q isSymlink h) (\<lambda>(s, r, h'). Returns (s, r, isSymlink, h')))"

definition PackagefsDevice_GetAttrPath ::
    "'h vfs_env \<Rightarrow> vfs_device \<Rightarrow> fpath \<Rightarrow> string \<Rightarrow> byte list \<Rightarrow> bool \<Rightarrow> fpath \<Rightarrow> bool \<Rightarrow> 'h \<Rightarrow>
      (int \<times> fpath \<times> bool \<times> 'h) outcome" where
  "PackagefsDevice_GetAttrPath env d hostRoot attr ty createNew p isSymlink h =
    bind_outcome (HostfsDevice_GetPath env h d hostRoot p isSymlink) (\<lambda>(status, q, isSymlink').
      if isSymlink' \<or> status \<noteq> B_OK then Returns (status, q, isSymlink', h)
      else bind_outcome (packagefs_attr_path (env_ops env) hostRoot (dv_root d) q attr ty createNew h)
        (\<lambda>(r, h'). Returns (B_OK, r, isSymlink', h')))"

primrec Vfs_GetAttrPath ::
    "nat \<Rightarrow> 'h vfs_env \<Rightarrow> mounts \<Rightarrow> string \<Rightarrow> byte list \<Rightarrow> bool \<Rightarrow> fpath \<Rightarrow> bool \<Rightarrow> 'h \<Rightarrow>
      (int \<times> fpath \<times> 'h) outcome" where
  "Vfs_GetAttrPath 0 env m attr ty createNew p traverse h = Pending"
| "Vfs_GetAttrPath (Suc n) env m attr ty createNew p traverse h =
    DoWork (Suc n) m
      (\<lambda>q d b x. case dv_class d of
          BindfsDevice r \<Rightarrow>
            BindfsDevice_GetAttrPath (Vfs_GetAttrPath n env m attr ty createNew) d r q b x
        | PackagefsDevice hr _ \<Rightarrow> PackagefsDevice_GetAttrPath env d hr attr ty createNew q b x
        | _ \<Rightarrow> Returns (B_UNSUPPORTED, q, b, x))
      traverse p h"

primrec Vfs_StatAttr ::
    "nat \<Rightarrow> 'h vfs_env \<Rightarrow> mounts \<Rightarrow> 'h \<Rightarrow> string \<Rightarrow> fpath \<Rightarrow> attr_info \<Rightarrow> (int \<times> attr_info) outcome" where
  "Vfs_StatAttr 0 env m h attr p info = Pending"
| "Vfs_StatAttr (Suc n) env m h attr p info =
    state_result (DoWork (Suc n) m
      (keep_work (\<lambda>q d x. case dv_class d of
          BindfsDevice r \<Rightarrow> BindfsDevice_forward (Vfs_StatAttr n env m h attr) d r q x
        | PackagefsDevice hr _ \<Rightarrow> Returns (packagefs_StatAttr (env_ops env) hr (dv_root d) h q attr x)
        | _ \<Rightarrow> Returns (B_UNSUPPORTED, x)))
      False p info)"

text \<open>A positive count ends the loop like an error does.\<close>

primrec Vfs_ReadAttr ::
    "nat \<Rightarrow> 'h vfs_env \<Rightarrow> mounts \<Rightarrow> 'h \<Rightarrow> string \<Rightarrow> nat \<Rightarrow> fpath \<Rightarrow> byte list \<Rightarrow> (int \<times> byte list) outcome" where
  "Vfs_ReadAttr 0 env m h attr pos p buf = Pending"
| "Vfs_ReadAttr (Suc n) env m h attr pos p buf =
    state_result (DoWork (Suc n) m
      (keep_work (\<lambda>q d x. case dv_class d of
          BindfsDevice r \<Rightarrow> BindfsDevice_forward (Vfs_ReadAttr n env m h attr pos) d r q x
        | PackagefsDevice hr _ \<Rightarrow> Returns (packagefs_ReadAttr (env_ops env) hr (dv_root d) h q attr pos x)
        | _ \<Rightarrow> Returns (B_UNSUPPORTED, x)))
      False p buf)"

primrec Vfs_WriteAttr ::
    "nat \<Rightarrow> 'h vfs_env \<Rightarrow> mounts \<Rightarrow> string \<Rightarrow> byte list \<Rightarrow> nat \<Rightarrow> byte list \<Rightarrow> fpath \<Rightarrow> 'h \<Rightarrow>
      (int \<times> 'h) outcome" where
  "Vfs_WriteAttr 0 env m attr ty pos buf p h = Pending"
| "Vfs_WriteAttr (Suc n) env m attr ty pos buf p h =
    state_result (DoWork (Suc n) m
      (keep_work (\<lambda>q d x. case dv_class d of
          BindfsDevice r \<Rightarrow> BindfsDevice_forward (Vfs_WriteAttr n env m attr ty pos buf) d r q x
        | PackagefsDevice hr _ \<Rightarrow>
            packagefs_WriteAttr (env_ops env) hr (dv_root d) q attr ty pos buf x
        | _ \<Rightarrow> Returns (B_UNSUPPORTED, x)))
      False p h)"

primrec Vfs_RemoveAttr ::
    "nat \<Rightarrow> 'h vfs_env \<Rightarrow> mounts \<Rightarrow> string \<Rightarrow> fpath \<Rightarrow> 'h \<Rightarrow> (int \<times> 'h) outcome" where
  "Vfs_RemoveAttr 0 env m attr p h = Pending"
| "Vfs_RemoveAttr (Suc n) env m attr p h =
    state_result (DoWork (Suc n) m
      (keep_work (\<lambda>q d x. case dv_class d of
          BindfsDevice r \<Rightarrow> BindfsDevice_forward (Vfs_RemoveAttr n env m attr) d r q x
        | PackagefsDevice hr _ \<Rightarrow> packagefs_RemoveAttr (env_ops env) hr (dv_root d) q attr x
        | _ \<Rightarrow> Returns (B_UNSUPPORTED, x)))
      False p h)"

section \<open>Directory entries\<close>

record haiku_dirent =
  d_dev :: int
  d_ino :: int
  d_reclen :: int
  d_name :: string

type_synonym dirent_state = "haiku_dirent \<times> (entry_ref \<times> string) list"

text \<open>
  The entry gets the device and inode of its own stat, and its path becomes known under them. The
  result is the length of the record.
\<close>

definition HostfsDevice_TransformDirent ::
    "(fpath \<Rightarrow> (int \<times> haiku_stat) outcome) \<Rightarrow> fpath \<Rightarrow> dirent_state \<Rightarrow> (int \<times> dirent_state) outcome" where
  "HostfsDevice_TransformDirent readStat p s =
    (let (e, refs) = s;
         filePath = lexically_normal (fp_append p (parse_path (d_name e)))
     in bind_outcome (readStat filePath) (\<lambda>(status, st).
          if status \<noteq> B_OK then Returns (status, s)
          else
            (let e' = e\<lparr>d_dev := st_dev st, d_ino := st_ino st\<rparr>;
                 refs' = (if d_name e \<noteq> ''.'' \<and> d_name e \<noteq> ''..''
                   then AList.update (ref_of (st_dev st) (st_ino st)) (path_string filePath) refs
                   else refs)
             in Returns (d_reclen e', (e', refs')))))"

text \<open>
  In the directory of the attributes the entries are the attribute files; only those that hold
  data are kept, under the attribute's name.
\<close>

definition PackagefsDevice_TransformDirent ::
    "(fpath \<Rightarrow> (int \<times> haiku_stat) outcome) \<Rightarrow> vfs_device \<Rightarrow> fpath \<Rightarrow> dirent_state \<Rightarrow>
      (int \<times> dirent_state) outcome" where
  "PackagefsDevice_TransformDirent readStat d p s =
    (let (e, refs) = s;
         rel = path_string (lexically_relative p (dv_root d));
         attrs = path_string relativeAttributesPath
     in if take (length attrs) rel \<noteq> attrs then HostfsDevice_TransformDirent readStat p s
        else
          (let e1 = e\<lparr>d_dev := GetId d, d_ino := fs_Hash (d_dev e) (d_ino e)\<rparr>;
               name = UnescapeAttrName (d_name e)
           in if d_name e = ''.'' \<or> d_name e = ''..'' then Returns (B_BAD_VALUE, (e1, refs))
              else if take 1 (d_name e) \<noteq> ''a'' then Returns (B_BAD_VALUE, (e1, refs))
              else
                (let e2 = e1\<lparr>d_reclen := (d_reclen e1 - (int (length (d_name e)) - int (length name))) mod 2 ^ 16,
                             d_name := name\<rparr>
                 in Returns (d_reclen e2, (e2, refs)))))"

text \<open>
  The callback hands the path of the caller to the device, not the one \<open>_DoWork\<close> has normalised;
  the device asserts that it is absolute and normal.
\<close>

primrec Vfs_TransformDirent ::
    "nat \<Rightarrow> 'h vfs_env \<Rightarrow> mounts \<Rightarrow> 'h \<Rightarrow> haiku_stat \<Rightarrow> fpath \<Rightarrow> dirent_state \<Rightarrow>
      (int \<times> dirent_state) outcome" where
  "Vfs_TransformDirent 0 env m h st0 p s = Pending"
| "Vfs_TransformDirent (Suc n) env m h st0 p s =
    state_result (DoWork (Suc n) m
      (keep_work (\<lambda>_ d x.
        if \<not> fp_abs p \<or> lexically_normal p \<noteq> p then
          (case dv_class d of PackagefsDevice _ _ \<Rightarrow>
             PackagefsDevice_TransformDirent (\<lambda>_. Undefined) d p x | _ \<Rightarrow> Undefined)
        else case dv_class d of
          BindfsDevice r \<Rightarrow>
            bind_outcome (BindfsDevice_forward (Vfs_TransformDirent n env m h st0) d r p x)
              (\<lambda>(status, e, refs).
                 Returns (status,
                   (if status = B_OK then e\<lparr>d_dev := GetId d, d_ino := fs_Hash (d_dev e) (d_ino e)\<rparr> else e,
                    refs)))
        | PackagefsDevice _ _ \<Rightarrow>
            PackagefsDevice_TransformDirent (\<lambda>q. Vfs_ReadStat n env m h q False st0) d p x
        | _ \<Rightarrow> HostfsDevice_TransformDirent (\<lambda>q. Vfs_ReadStat n env m h q False st0) p x))
      False p s)"

end
