(* ===== verification/VfsTables.thy ===== *)
theory VfsTables
  imports VfsService
begin

text \<open>
  The tables of \<open>VfsService\<close> agree with each other through registration, mount and unmount, and
  what each of these leaves behind.
\<close>

section \<open>The invariant\<close>

definition vfs_ok :: "'h vfs_service \<Rightarrow> bool" where
  "vfs_ok v \<longleftrightarrow> IdMap_ok (vs_devices v) \<and> distinct (map fst (vs_entryRefs v)) \<and>
    (\<forall>i d. VfsService_GetDevice v i = Some d \<longrightarrow> GetId d = i) \<and>
    (\<forall>p d. vs_deviceMounts v p = Some d \<longrightarrow>
      dv_root d = p \<and> VfsService_GetDevice v (GetId d) = Some d)"

lemma vfs_ok_mount: "vfs_ok v \<Longrightarrow> vs_deviceMounts v p = Some d \<Longrightarrow>
    dv_root d = p \<and> VfsService_GetDevice v (GetId d) = Some d"
  by (simp add: vfs_ok_def)

lemma GetDevice_lookup:
  "VfsService_GetDevice v i =
    (case IdMap_lookup (vs_devices v) i of Some (Some d) \<Rightarrow> Some d | _ \<Rightarrow> None)"
  by (simp add: VfsService_GetDevice_def IdMap_lookup_def)

lemma GetDevice_iff:
  "VfsService_GetDevice v i = Some d \<longleftrightarrow> IdMap_lookup (vs_devices v) i = Some (Some d)"
  by (auto simp: GetDevice_lookup split: option.splits)

lemma put_item:
  fixes x :: 'a
  assumes "IdMap_ok m" and "IdMap_lookup m i \<noteq> None"
  defines "m' \<equiv> m\<lparr>items := (items m)[nat i := x]\<rparr>"
  shows "IdMap_ok m' \<and> IdMap_lookup m' = (IdMap_lookup m)(i \<mapsto> x)"
proof -
  have ok: "IdMap_ok m'" using assms(1) by (auto simp: IdMap_ok_def in_vector_def m'_def)
  moreover have "IdMap_lookup m' j = ((IdMap_lookup m)(i \<mapsto> x)) j" for j
    using assms(1,2) unfolding IdMap_lookup_ok [OF ok]
    by (auto simp: IdMap_lookup_ok m'_def in_vector_def nth_list_update eq_nat_nat_iff split: if_splits)
  ultimately show ?thesis by blast
qed

lemma put_device_tables:
  assumes "IdMap_ok (vs_devices v)" and "IdMap_lookup (vs_devices v) i \<noteq> None"
  shows "IdMap_ok (vs_devices (put_device i d v))"
    and "IdMap_lookup (vs_devices (put_device i d v)) = (IdMap_lookup (vs_devices v))(i \<mapsto> Some d)"
    and "vs_deviceMounts (put_device i d v) = (vs_deviceMounts v)(dv_root d \<mapsto> d)"
    and "vs_entryRefs (put_device i d v) = vs_entryRefs v"
  using put_item [OF assms, of "Some d"] by (simp_all add: put_device_def)

lemma vfs_ok_new: "vfs_ok VfsService_new"
proof -
  have room: "IdMap_has_room (IdMap_empty :: vfs_device option IdMap)"
    by (simp add: IdMap_has_room_def IdMap_empty_def)
  have l: "IdMap_lookup (IdMap_empty :: vfs_device option IdMap) i = None" for i
    by (simp add: IdMap_lookup_ok IdMap_ok_empty) (simp add: IdMap_empty_def in_vector_def)
  show ?thesis
    using IdMap_ok_Add [OF IdMap_ok_empty room, of None] IdMap_Add_lookup [OF IdMap_ok_empty room, of None]
    by (auto simp: vfs_ok_def VfsService_new_def GetDevice_lookup l split: if_splits)
qed

section \<open>Registration\<close>

lemma RegisterDevice_tables:
  assumes "IdMap_ok (vs_devices v)" and "IdMap_has_room (vs_devices v)"
    and "RegisterDevice n env st0 d h v = Returns (d', v')"
  shows "dv_root d' = dv_root d" and "dv_class d' = dv_class d"
    and "GetId d' = fst (IdMap_Add (vs_devices v) (Some d))"
    and "IdMap_ok (vs_devices v')"
    and "IdMap_lookup (vs_devices v') = (IdMap_lookup (vs_devices v))(GetId d' \<mapsto> Some d')"
    and "vs_deviceMounts v' = (vs_deviceMounts v)(dv_root d \<mapsto> d')"
    and "vs_entryRefs v' = AList.update (ref_of (GetId d') (fi_root (dv_info d'))) (path_string (dv_root d))
      (vs_entryRefs v)"
proof -
  obtain i devs where a: "IdMap_Add (vs_devices v) (Some d) = (i, devs)" by fastforce
  define d1 where "d1 = with_dev i d"
  define v1 where "v1 = put_device i d1 (v\<lparr>vs_devices := devs\<rparr>)"
  obtain s st where r: "Vfs_ReadStat n env (vs_deviceMounts v1) h (dv_root d1) False st0 = Returns (s, st)"
      and e: "d' = with_root (st_ino st) d1"
        "v' = snd (RegisterEntryRef (ref_of (GetId d') (fi_root (dv_info d'))) (path_string (dv_root d'))
           (put_device i d' v1))"
    using assms(3) a by (auto simp: RegisterDevice_def d1_def v1_def Let_def elim!: bind_outcome_ReturnsE)
  have d1: "dv_root d1 = dv_root d" "dv_class d1 = dv_class d" "GetId d1 = i"
    by (simp_all add: d1_def with_dev_def)
  have d': "dv_root d' = dv_root d" "dv_class d' = dv_class d" "GetId d' = i"
    by (simp_all add: e(1) with_root_def d1)
  have l: "IdMap_lookup devs = (IdMap_lookup (vs_devices v))(i \<mapsto> Some d)" "IdMap_ok devs"
    using IdMap_Add_lookup [OF assms(1,2), of "Some d"] IdMap_ok_Add [OF assms(1,2), of "Some d"] a
    by simp_all
  have p1: "IdMap_ok (vs_devices v1)" "IdMap_lookup (vs_devices v1) = (IdMap_lookup (vs_devices v))(i \<mapsto> Some d1)"
    "vs_deviceMounts v1 = (vs_deviceMounts v)(dv_root d \<mapsto> d1)" "vs_entryRefs v1 = vs_entryRefs v"
    unfolding v1_def using put_device_tables [of "v\<lparr>vs_devices := devs\<rparr>" i d1] l d1 by simp_all
  have p2: "IdMap_ok (vs_devices (put_device i d' v1))"
    "IdMap_lookup (vs_devices (put_device i d' v1)) = (IdMap_lookup (vs_devices v))(i \<mapsto> Some d')"
    "vs_deviceMounts (put_device i d' v1) = (vs_deviceMounts v)(dv_root d \<mapsto> d')"
    "vs_entryRefs (put_device i d' v1) = vs_entryRefs v"
    using put_device_tables [of v1 i d'] p1 d' by simp_all
  show "dv_root d' = dv_root d" "dv_class d' = dv_class d"
    "GetId d' = fst (IdMap_Add (vs_devices v) (Some d))" using d' a by simp_all
  show "IdMap_ok (vs_devices v')"
    "IdMap_lookup (vs_devices v') = (IdMap_lookup (vs_devices v))(GetId d' \<mapsto> Some d')"
    "vs_deviceMounts v' = (vs_deviceMounts v)(dv_root d \<mapsto> d')"
    "vs_entryRefs v' = AList.update (ref_of (GetId d') (fi_root (dv_info d'))) (path_string (dv_root d))
      (vs_entryRefs v)"
    using p2 d' by (simp_all add: e(2) RegisterEntryRef_def Let_def)
qed

lemma RegisterDevice_fresh:
  assumes "vfs_ok v" and "IdMap_has_room (vs_devices v)"
    and "RegisterDevice n env st0 d h v = Returns (d', v')"
  shows "VfsService_GetDevice v (GetId d') = None"
proof -
  have "IdMap_lookup (vs_devices v) (GetId d') = None"
    using RegisterDevice_tables(3) [OF _ assms(2,3)] IdMap_Add_fresh [OF _ assms(2), of "Some d"] assms(1)
    by (simp add: vfs_ok_def)
  then show ?thesis by (simp add: GetDevice_lookup)
qed

lemma RegisterDevice_vfs_ok:
  assumes "vfs_ok v" and "IdMap_has_room (vs_devices v)"
    and "RegisterDevice n env st0 d h v = Returns (d', v')"
  shows "vfs_ok v'"
proof -
  have i: "IdMap_ok (vs_devices v)" using assms(1) by (simp add: vfs_ok_def)
  note t = RegisterDevice_tables [OF i assms(2,3)]
  have n: "vs_deviceMounts v p = Some x \<Longrightarrow> GetId x \<noteq> GetId d'" for p x
    using assms(1) RegisterDevice_fresh [OF assms] unfolding vfs_ok_def by (metis option.distinct(1))
  show ?thesis
    unfolding vfs_ok_def
    using assms(1) t(1,4-7) n
    by (auto simp: vfs_ok_def GetDevice_iff distinct_update)
qed

lemma registered_device_found:
  assumes "vfs_ok v" and "IdMap_has_room (vs_devices v)"
    and "RegisterDevice n env st0 d h v = Returns (d', v')"
  shows "vfs_ok v' \<and> VfsService_GetDevice v (GetId d') = None \<and>
    VfsService_GetDevice v' = (VfsService_GetDevice v)(GetId d' \<mapsto> d') \<and>
    VfsService_GetDevice_at v' = (VfsService_GetDevice_at v)(dv_root d \<mapsto> d') \<and>
    GetEntryRef v' (ref_of (GetId d') (fi_root (dv_info d'))) = Some (path_string (dv_root d)) \<and>
    dv_class d' = dv_class d"
proof -
  have i: "IdMap_ok (vs_devices v)" using assms(1) by (simp add: vfs_ok_def)
  note t = RegisterDevice_tables [OF i assms(2,3)]
  have "VfsService_GetDevice v' = (VfsService_GetDevice v)(GetId d' \<mapsto> d')"
    by (rule ext) (simp add: GetDevice_lookup t(5))
  then show ?thesis
    using RegisterDevice_vfs_ok [OF assms] RegisterDevice_fresh [OF assms] t(2,6,7)
    by (simp add: VfsService_GetDevice_at_def [abs_def] GetEntryRef_def update_conv)
qed

text \<open>
  A device that is registered is found by its id, by its mount point and by the reference of
  its root directory; its id was free; nothing else changes in the tables, and they still agree.
\<close>

theorem registered_device_is_found:
  assumes "vfs_ok v" and "IdMap_has_room (vs_devices v)"
    and "RegisterDevice n env st0 d h v = Returns (d', v')"
  shows "vfs_ok v' \<and> VfsService_GetDevice v (GetId d') = None \<and>
    VfsService_GetDevice v' = (VfsService_GetDevice v)(GetId d' \<mapsto> d') \<and>
    VfsService_GetDevice_at v' = (VfsService_GetDevice_at v)(dv_root d \<mapsto> d') \<and>
    GetEntryRef v' (ref_of (GetId d') (fi_root (dv_info d'))) = Some (path_string (dv_root d)) \<and>
    dv_class d' = dv_class d"
  using registered_device_found [OF assms] .

section \<open>Unmount\<close>

lemma map_of_filter_keys: "map_of (filter (\<lambda>(r, _). P r) xs) k = (if P k then map_of xs k else None)"
  by (induction xs) auto

lemma unmount_device:
  assumes "vfs_ok v" and "Vfs_Unmount n env path h v = Returns (B_OK, h', v')"
  shows "\<exists>p d. Vfs_RealPath n env (vs_deviceMounts v) h (lexically_normal path) = Returns (B_OK, p) \<and>
    vs_deviceMounts v p = Some d \<and> VfsService_GetDevice v (GetId d) = Some d \<and> vfs_ok v' \<and>
    vs_deviceMounts v' = (vs_deviceMounts v)(p := None) \<and>
    VfsService_GetDevice v' = (VfsService_GetDevice v)(GetId d := None) \<and>
    (\<forall>r. GetEntryRef v' r = (if to_int32 (GetDevice r) = GetId d then None else GetEntryRef v r)) \<and>
    vs_deviceReferences v' = (vs_deviceReferences v)(GetId d := None) \<and>
    vs_monitors v' = (vs_monitors v)(GetId d := []) \<and> vs_mounters v' = vs_mounters v"
proof -
  obtain p where p: "Vfs_RealPath n env (vs_deviceMounts v) h (lexically_normal path) = Returns (B_OK, p)"
    using assms(2) by (auto simp: Vfs_Unmount_def elim!: bind_outcome_ReturnsE split: if_splits)
  obtain d where d: "vs_deviceMounts v p = Some d"
    using assms(2) p by (auto simp: Vfs_Unmount_def status_codes split: option.splits)
  have dd: "dv_root d = p" "VfsService_GetDevice v (GetId d) = Some d"
    using vfs_ok_mount [OF assms(1) d] by auto
  obtain devs where r: "IdMap_Remove None (vs_devices v) (GetId d) = Some devs" "IdMap_ok devs"
      "IdMap_lookup devs = (IdMap_lookup (vs_devices v))(GetId d := None)"
    using idmap.remove_ok [of "vs_devices v" "GetId d" None] assms(1) dd(2)
    unfolding vfs_ok_def GetDevice_iff by blast
  let ?refs = "filter (\<lambda>(r, _). to_int32 (GetDevice r) \<noteq> GetId d) (vs_entryRefs v)"
  have u: "bind_outcome (device_Cleanup env (dv_class d) h) (\<lambda>(status, h1).
      let dev = GetId d in
      if status \<noteq> B_OK then Returns (status, h1, v)
      else let (ino, h2) = remove_monitors (env_ops env) d (vs_monitors v dev) (vs_inotify v) h1
        in Returns (B_OK, h2, v\<lparr>vs_entryRefs := ?refs, vs_devices := devs,
          vs_deviceMounts := (vs_deviceMounts v)(p := None),
          vs_deviceReferences := (vs_deviceReferences v)(dev := None),
          vs_monitors := (vs_monitors v)(dev := []), vs_inotify := ino,
          vs_events := vs_events v @ [NotifyUnmount dev]\<rparr>)) = Returns (B_OK, h', v')"
    using assms(2) by (simp add: Vfs_Unmount_def p d r(1) Let_def cong: if_cong)
  obtain h1 where "device_Cleanup env (dv_class d) h = Returns (B_OK, h1)"
    using u by (elim bind_outcome_ReturnsE) (auto simp: Let_def split: if_splits prod.splits)
  then have v': "vs_entryRefs v' = ?refs" "vs_devices v' = devs"
    "vs_deviceMounts v' = (vs_deviceMounts v)(p := None)" "vs_monitors v' = (vs_monitors v)(GetId d := [])"
    "vs_deviceReferences v' = (vs_deviceReferences v)(GetId d := None)" "vs_mounters v' = vs_mounters v"
    using u by (auto simp: Let_def split: prod.splits)
  have g: "VfsService_GetDevice v' = (VfsService_GetDevice v)(GetId d := None)"
    by (rule ext) (simp add: GetDevice_lookup v'(2) r(3))
  have refs: "GetEntryRef v' r = (if to_int32 (GetDevice r) = GetId d then None else GetEntryRef v r)" for r
    by (simp add: GetEntryRef_def v'(1) map_of_filter_keys)
  have "GetId x \<noteq> GetId d" if "vs_deviceMounts v q = Some x" "q \<noteq> p" for q x
    using vfs_ok_mount [OF assms(1) that(1)] that(2) dd by (metis option.inject)
  then have "vfs_ok v'"
    using assms(1) r(2) v' g
    by (auto simp: vfs_ok_def distinct_map_filter split: if_splits)
  then show ?thesis using p d dd(2) g refs v'(3-6) by blast
qed

text \<open>
  C14: when the tables agree with each other, a successful unmount takes out the device mounted at
  the path \<open>RealPath\<close> gives for the normal form of the argument, and only that one: its mount point
  and id are free, no entry reference names it, its reference count is gone and no monitor is kept
  for it, while every other device, mount, reference, count, monitor and the registered file
  systems stay, and the tables still agree.
\<close>

theorem unmount_removes_device:
  assumes "vfs_ok v" and "Vfs_Unmount n env path h v = Returns (B_OK, h', v')"
  shows "\<exists>p d. Vfs_RealPath n env (vs_deviceMounts v) h (lexically_normal path) = Returns (B_OK, p) \<and>
    vs_deviceMounts v p = Some d \<and> VfsService_GetDevice v (GetId d) = Some d \<and> vfs_ok v' \<and>
    vs_deviceMounts v' = (vs_deviceMounts v)(p := None) \<and>
    VfsService_GetDevice v' = (VfsService_GetDevice v)(GetId d := None) \<and>
    (\<forall>r. GetEntryRef v' r = (if to_int32 (GetDevice r) = GetId d then None else GetEntryRef v r)) \<and>
    vs_deviceReferences v' = (vs_deviceReferences v)(GetId d := None) \<and>
    vs_monitors v' = (vs_monitors v)(GetId d := []) \<and> vs_mounters v' = vs_mounters v"
  using unmount_device [OF assms] .

section \<open>Mount and monitors\<close>

lemma vfs_ok_events [simp]: "vfs_ok (v\<lparr>vs_events := e\<rparr>) = vfs_ok v"
  by (simp add: vfs_ok_def VfsService_GetDevice_def)

lemma vfs_ok_inotify [simp]: "vfs_ok (v\<lparr>vs_inotify := s\<rparr>) = vfs_ok v"
  by (simp add: vfs_ok_def VfsService_GetDevice_def)

lemma vfs_ok_monitor_sets [simp]: "vfs_ok (v\<lparr>vs_monitors := f\<rparr>) = vfs_ok v"
  by (simp add: vfs_ok_def VfsService_GetDevice_def)

lemma vfs_ok_monitors [simp]: "vfs_ok (v\<lparr>vs_monitors := f, vs_inotify := s\<rparr>) = vfs_ok v"
  by (simp add: vfs_ok_def VfsService_GetDevice_def)

text \<open>A mount that comes back either changed nothing or registered a device.\<close>

lemma Vfs_Mount_cases:
  assumes "Vfs_Mount n env st0 path device fs flags args h v = Returns (s, h', v')"
  shows "v' = v \<or> (\<exists>d d' v1 e. RegisterDevice n env st0 d h' v = Returns (d', v1) \<and>
    v' = v1\<lparr>vs_events := e\<rparr> \<and> s = GetId d')"
  using assms unfolding Vfs_Mount_def
  by (auto elim!: bind_outcome_ReturnsE split: if_splits option.splits) blast

lemma Mount_vfs_ok:
  assumes "vfs_ok v" and "IdMap_has_room (vs_devices v)"
    and "Vfs_Mount n env st0 path device fs flags args h v = Returns (s, h', v')"
  shows "vfs_ok v'"
  using Vfs_Mount_cases [OF assms(3)] RegisterDevice_vfs_ok [OF assms(1,2)] assms(1) by auto

lemma AddMonitor_vfs_ok:
  assumes "vfs_ok v" and "Vfs_AddMonitor ops dev node h v = Returns (s, h', v')"
  shows "vfs_ok v'"
  using assms
  by (auto simp: Vfs_AddMonitor_def elim!: bind_outcome_ReturnsE split: option.splits if_splits)

text \<open>
  Asking for a monitor on a device id that no device ever had is an access outside the table.
\<close>

lemma monitor_of_unknown_device:
  assumes "vfs_ok v" and "dev < 0 \<or> int (length (items (vs_devices v))) \<le> dev"
  shows "Vfs_AddMonitor ops dev node h v = Undefined" "Vfs_RemoveMonitor ops dev node h v = Undefined"
  using assms(2) by (auto simp: Vfs_AddMonitor_def Vfs_RemoveMonitor_def IdMap_Get_def in_vector_def)

text \<open>
  A mount over a mount point hides the first device for good: unmounting the second leaves nothing
  mounted there, and the first keeps its id without a place.
\<close>

lemma covered_device_is_lost:
  assumes "vfs_ok v" and "IdMap_has_room (vs_devices v)" and "vs_deviceMounts v p = Some d0"
    and "RegisterDevice n env st0 d h v = Returns (d1, v1)" and "dv_root d = p"
    and "Vfs_Unmount n env path h v1 = Returns (B_OK, h', v2)" and "vs_deviceMounts v2 p = None"
  shows "VfsService_GetDevice v2 (GetId d0) = Some d0 \<and> (\<forall>q. vs_deviceMounts v2 q \<noteq> Some d0)"
proof -
  note r = registered_device_found [OF assms(1,2,4)]
  obtain q x where u: "vs_deviceMounts v1 q = Some x" "vfs_ok v2" "vs_deviceMounts v2 = (vs_deviceMounts v1)(q := None)"
      "VfsService_GetDevice v2 = (VfsService_GetDevice v1)(GetId x := None)"
    using unmount_device [OF _ assms(6)] r by blast
  have m1: "vs_deviceMounts v1 = (vs_deviceMounts v)(p \<mapsto> d1)"
    using r assms(5) by (simp add: VfsService_GetDevice_at_def [abs_def])
  then have "q = p" "x = d1" using u assms(7) by (auto split: if_splits)
  have d0: "dv_root d0 = p" "VfsService_GetDevice v (GetId d0) = Some d0"
    using vfs_ok_mount [OF assms(1,3)] by auto
  then have "GetId d0 \<noteq> GetId d1" using r by auto
  moreover have "vs_deviceMounts v q = Some d0 \<Longrightarrow> q = p" for q
    using vfs_ok_mount [OF assms(1)] d0 by auto
  ultimately show ?thesis
    using u r m1 d0 \<open>q = p\<close> \<open>x = d1\<close> by auto
qed

section \<open>Without a root\<close>

lemma find_drive_no_mounts: "fp_abs p \<Longrightarrow> find_drive Map.empty p = None"
  by (rule find_drive_unmounted) simp_all

lemma no_mounts_no_answer:
  assumes "fp_abs p"
  shows "Vfs_GetPath n env Map.empty h p t = Pending"
proof (cases n)
  case (Suc k)
  have "fp_abs (drop_slash (lexically_normal p))" using clean_drop_normal [OF assms] by (simp add: clean_path_def)
  then show ?thesis by (simp add: Suc DoWork_def path_result_def find_drive_no_mounts)
qed simp

text \<open>
  Nothing keeps the root from being unmounted. When the only mount is taken away, no absolute
  path is ever looked up again: the search for the device stays at the root directory, whose
  parent is itself, with the lock of the service held.
\<close>

theorem unmounted_root_stops_lookups:
  assumes "vfs_ok v" and "dom (vs_deviceMounts v) = {fp_root}"
    and "Vfs_Unmount n env path h v = Returns (B_OK, h', v')" and "fp_abs p"
  shows "Vfs_GetPath k env (vs_deviceMounts v') h' p traverse = Pending"
proof -
  obtain q d where "vs_deviceMounts v q = Some d" "vs_deviceMounts v' = (vs_deviceMounts v)(q := None)"
    using unmount_device [OF assms(1,3)] by blast
  moreover have "q = fp_root" using \<open>vs_deviceMounts v q = Some d\<close> assms(2) by blast
  ultimately have "vs_deviceMounts v' = Map.empty" using assms(2) by (auto simp: fun_eq_iff)
  then show ?thesis by (simp add: no_mounts_no_answer assms(4))
qed

section \<open>A small service\<close>

definition sample_service :: "unit vfs_service" where
  "sample_service = VfsService_new
     \<lparr>vs_entryRefs := [(ref_of 1 9, ''/''), (ref_of 1 3, ''/f'')],
      vs_devices := \<lparr>items = [None, Some sample_host_device], freeIds = []\<rparr>,
      vs_deviceMounts := sample_mounts\<rparr>"

lemma sample_service_ok: "vfs_ok sample_service" "IdMap_has_room (vs_devices sample_service)"
proof -
  have ok: "IdMap_ok \<lparr>items = [None, Some sample_host_device], freeIds = []\<rparr>"
    by (simp add: IdMap_ok_def os_ok_Nil)
  have "VfsService_GetDevice sample_service i = (if i = 1 then Some sample_host_device else None)" for i
    by (auto simp: GetDevice_lookup sample_service_def IdMap_lookup_ok [OF ok] in_vector_def nth_Cons'
        split: if_splits)
  then show "vfs_ok sample_service"
    using ok by (auto simp: vfs_ok_def sample_mounts_def sample_host_device_def sample_device_def
        sample_info_def sample_service_def ref_of_def to_uint64_def take_bit_eq_mod split: if_splits)
  show "IdMap_has_room (vs_devices sample_service)"
    by (simp add: IdMap_has_room_def sample_service_def)
qed

lemma sample_unmount:
  "\<exists>v'. Vfs_Unmount 2 sample_env fp_root () sample_service = Returns (B_OK, (), v')"
proof -
  have "Vfs_RealPath 2 sample_env sample_mounts () (lexically_normal fp_root) = Returns (B_OK, fp_root)"
    by code_simp
  then show ?thesis
    by (simp add: Vfs_Unmount_def sample_service_def sample_mounts_def sample_device_def sample_info_def
        IdMap_Remove_def in_vector_def VfsService_new_def)
qed

theorem unmount_removes_device_witness:
  "\<exists>v' p d. Vfs_Unmount 2 sample_env fp_root () sample_service = Returns (B_OK, (), v') \<and>
    Vfs_RealPath 2 sample_env (vs_deviceMounts sample_service) () (lexically_normal fp_root) = Returns (B_OK, p) \<and>
    vs_deviceMounts sample_service p = Some d \<and> vs_deviceMounts v' p = None \<and>
    VfsService_GetDevice v' (GetId d) = None"
proof -
  obtain v' where u: "Vfs_Unmount 2 sample_env fp_root () sample_service = Returns (B_OK, (), v')"
    using sample_unmount by blast
  show ?thesis using unmount_removes_device [OF sample_service_ok(1) u] u by auto
qed

theorem unmounted_root_stops_lookups_witness:
  "\<exists>v'. Vfs_Unmount 2 sample_env fp_root () sample_service = Returns (B_OK, (), v') \<and>
    Vfs_GetPath 100 sample_env (vs_deviceMounts v') () (FPath True [''f'']) True = Pending"
proof -
  obtain v' where u: "Vfs_Unmount 2 sample_env fp_root () sample_service = Returns (B_OK, (), v')"
    using sample_unmount by blast
  have "dom (vs_deviceMounts sample_service) = {fp_root}"
    by (simp add: sample_service_def sample_mounts_def)
  then show ?thesis
    using unmounted_root_stops_lookups [OF sample_service_ok(1) _ u, of "FPath True [''f'']" 100 True] u
    by simp
qed

definition sample_new_device :: vfs_device where
  "sample_new_device = sample_device 0 (FPath True [''n'']) (SystemfsDevice (FPath True [''none'']))"

lemma sample_register:
  "\<exists>d' v'. RegisterDevice 2 sample_env st0 sample_new_device () sample_service = Returns (d', v') \<and>
    GetId d' = 2"
proof -
  let ?p = "FPath True [''n'']"
  let ?d = "with_dev 2 sample_new_device"
  let ?m = "sample_mounts(?p \<mapsto> ?d)"
  have "HostfsDevice_GetPath sample_env () ?d (FPath True [''none'']) ?p False =
      Returns (B_ENTRY_NOT_FOUND, FPath True [''none''], False)"
    by code_simp
  then have r: "device_ReadStat svc sample_env () ?p ?d False st0 =
      Returns (B_ENTRY_NOT_FOUND, FPath True [''none''], False, st0)" for svc
    by (simp add: device_ReadStat_def HostfsDevice_ReadStat_def sample_new_device_def sample_device_def
        with_dev_def status_codes)
  have f: "find_drive ?m ?p = Some ?p" by (rule find_drive_here) simp
  have "clean_path ?p" by (simp add: clean_path_def proper_name_def)
  then have "Vfs_ReadStat 2 sample_env ?m () ?p False st0 = Returns (B_ENTRY_NOT_FOUND, st0)"
    using f r by (simp add: numeral_2_eq_2 DoWork_def state_result_def status_codes)
  then show ?thesis
    by (simp add: RegisterDevice_def sample_service_def IdMap_Add_def Let_def put_device_def
        sample_new_device_def sample_device_def with_dev_def with_root_def sample_info_def is_int32_def)
qed

theorem registered_device_is_found_witness:
  "\<exists>d' v'. RegisterDevice 2 sample_env sample_bound_stat sample_new_device () sample_service = Returns (d', v') \<and>
    VfsService_GetDevice v' 2 = Some d' \<and> VfsService_GetDevice_at v' (FPath True [''n'']) = Some d'"
proof -
  obtain d' v' where r: "RegisterDevice 2 sample_env sample_bound_stat sample_new_device () sample_service = Returns (d', v')"
      "GetId d' = 2"
    using sample_register by blast
  show ?thesis
    using registered_device_is_found [OF sample_service_ok r(1)] r
    by (simp add: sample_new_device_def sample_device_def)
qed

end
