(* ===== verification/FileSystems.thy ===== *)
theory FileSystems
  imports VfsTables
begin

text \<open>
  The constructors and mount functions of the file systems in \<^verbatim>\<open>hyclone_server/fs\<close>, and
  the start-up of \<^verbatim>\<open>server_filesystem.cpp\<close> that mounts the first of them.
\<close>

definition B_FS_IS_PERSISTENT :: int where "B_FS_IS_PERSISTENT = 0x00000004"
definition B_FS_IS_SHARED :: int where "B_FS_IS_SHARED = 0x00000008"
definition B_FS_HAS_ATTR :: int where "B_FS_HAS_ATTR = 0x00020000"
definition B_ERROR :: int where [status_codes]: "B_ERROR = -1"
definition B_PAGE_SIZE :: int where "B_PAGE_SIZE = 4096"

definition PACKAGE_FS_MOUNT_TYPE_SYSTEM :: int where "PACKAGE_FS_MOUNT_TYPE_SYSTEM = 0"
definition PACKAGE_FS_MOUNT_TYPE_HOME :: int where "PACKAGE_FS_MOUNT_TYPE_HOME = 1"
definition PACKAGE_FS_MOUNT_TYPE_CUSTOM :: int where "PACKAGE_FS_MOUNT_TYPE_CUSTOM = 2"

section \<open>Constructors\<close>

text \<open>
  No constructor initialises the whole of \<open>_info\<close>; what it does not set is what was in the
  memory.
\<close>

definition clear_name :: "string \<Rightarrow> string" where
  "clear_name s = CHR 0x00 # drop 1 s"

definition fs_info_new :: "fs_info \<Rightarrow> int \<Rightarrow> int \<Rightarrow> string \<Rightarrow> fs_info" where
  "fs_info_new junk flags block fsh =
    junk\<lparr>fi_flags := flags, fi_block_size := block, fi_io_size := block, fi_total_blocks := 0,
      fi_free_blocks := 0, fi_total_nodes := 0, fi_free_nodes := 0, fi_fsh_name := strncpy 32 fsh\<rparr>"

definition server_fill_fs_info :: "'h fs_ops \<Rightarrow> 'h \<Rightarrow> fpath \<Rightarrow> fs_info \<Rightarrow> fs_info" where
  "server_fill_fs_info ops h p info =
    (case op_statfs ops h p of
       None \<Rightarrow> info
     | Some s \<Rightarrow>
         info\<lparr>fi_block_size := f_bsize s, fi_io_size := f_bsize s, fi_total_blocks := f_blocks s,
           fi_free_blocks := f_bfree s, fi_total_nodes := f_files s, fi_free_nodes := f_ffree s\<rparr>)"

definition under :: "fpath \<Rightarrow> string list \<Rightarrow> fpath" where
  "under p ns = foldl (\<lambda>q n. fp_append q (fp_name n)) p ns"

definition essential_link :: "'h fs_ops \<Rightarrow> fpath \<Rightarrow> string list \<Rightarrow> string \<Rightarrow> 'h \<Rightarrow> 'h outcome" where
  "essential_link ops hostRoot target n h =
    bind_outcome (throwing (op_remove ops (under hostRoot [n])) h)
      (throwing (op_symlink ops (FPath False target) (under hostRoot [n])))"

definition RootfsDevice_new :: "'h vfs_env \<Rightarrow> fpath \<Rightarrow> int \<Rightarrow> 'h \<Rightarrow> (vfs_device \<times> 'h) outcome" where
  "RootfsDevice_new env hostRoot flags h =
    (let ops = env_ops env;
         info = (fs_info_new (env_junk env) 0 0 ''rootfs'')
           \<lparr>fi_device_name := clear_name (fi_device_name (env_junk env)),
            fi_volume_name := clear_name (fi_volume_name (env_junk env))\<rparr>;
         tmp = under hostRoot [''tmp'']
     in bind_outcome (essential_link ops hostRoot [''boot'', ''system'', ''bin''] ''bin'' h) (\<lambda>h.
        bind_outcome (essential_link ops hostRoot [''boot'', ''system'', ''lib''] ''lib'' h) (\<lambda>h.
        bind_outcome (essential_link ops hostRoot [''boot'', ''system'', ''etc''] ''etc'' h) (\<lambda>h.
        bind_outcome (essential_link ops hostRoot [''boot'', ''system'', ''package-links''] ''packages'' h) (\<lambda>h.
        let h' =
          (if snd (symlink_status ops h tmp) \<or> \<not> op_exists ops h tmp then
             snd (op_symlink ops (FPath False [''boot'', ''system'', ''cache'', ''tmp'']) tmp
               (snd (op_create_directories ops (under hostRoot [''boot'', ''system'', ''cache'', ''tmp''])
                 (snd (op_remove ops tmp h)))))
           else h)
        in Returns (\<lparr>dv_info = info, dv_root = fp_root, dv_mountFlags = flags,
             dv_class = RootfsDevice hostRoot\<rparr>, h'))))))"

definition DevfsDevice_new :: "'h vfs_env \<Rightarrow> int \<Rightarrow> vfs_device" where
  "DevfsDevice_new env flags =
    \<lparr>dv_info = (fs_info_new (env_junk env) 0 0 ''devfs'')
       \<lparr>fi_device_name := clear_name (fi_device_name (env_junk env)),
        fi_volume_name := clear_name (fi_volume_name (env_junk env))\<rparr>,
     dv_root = FPath True [''dev''], dv_mountFlags = flags, dv_class = DevfsDevice (FPath True [''dev''])\<rparr>"

definition SystemfsDevice_new :: "'h vfs_env \<Rightarrow> fpath \<Rightarrow> fpath \<Rightarrow> int \<Rightarrow> 'h \<Rightarrow> vfs_device" where
  "SystemfsDevice_new env root hostRoot flags h =
    \<lparr>dv_info = server_fill_fs_info (env_ops env) h hostRoot
       ((fs_info_new (env_junk env) (B_FS_IS_PERSISTENT OR B_FS_IS_SHARED) 0 ''systemfs'')
          \<lparr>fi_volume_name := strncpy 256 (fp_filename root)\<rparr>),
     dv_root = root, dv_mountFlags = flags, dv_class = SystemfsDevice hostRoot\<rparr>"

definition RamfsDevice_new :: "'h vfs_env \<Rightarrow> fpath \<Rightarrow> fpath \<Rightarrow> int \<Rightarrow> 'h \<Rightarrow> vfs_device" where
  "RamfsDevice_new env root hostRoot flags h =
    \<lparr>dv_info = server_fill_fs_info (env_ops env) h hostRoot
       ((fs_info_new (env_junk env) B_FS_HAS_ATTR B_PAGE_SIZE ''ramfs'')
          \<lparr>fi_device_name := clear_name (fi_device_name (env_junk env)),
           fi_volume_name := strncpy 256 (fp_filename root)\<rparr>),
     dv_root = root, dv_mountFlags = flags, dv_class = RamfsDevice hostRoot\<rparr>"

definition BindfsDevice_new :: "'h vfs_env \<Rightarrow> fpath \<Rightarrow> fpath \<Rightarrow> int \<Rightarrow> vfs_device" where
  "BindfsDevice_new env root boundRoot flags =
    \<lparr>dv_info = (fs_info_new (env_junk env)
         (B_FS_IS_PERSISTENT OR B_FS_IS_SHARED OR B_FS_HAS_ATTR) 0 ''bindfs'')
       \<lparr>fi_volume_name := strncpy 256 (fp_filename root)\<rparr>,
     dv_root = root, dv_mountFlags = flags, dv_class = BindfsDevice boundRoot\<rparr>"

text \<open>The body of this constructor installs the packages; that is the call of the environment.\<close>

definition PackagefsDevice_new ::
    "'h vfs_env \<Rightarrow> fpath \<Rightarrow> fpath \<Rightarrow> int \<Rightarrow> int \<Rightarrow> 'h \<Rightarrow> (vfs_device \<times> 'h) outcome" where
  "PackagefsDevice_new env root hostRoot mountType flags h =
    bind_outcome (env_pkg_install env root hostRoot h) (\<lambda>h'.
      Returns (\<lparr>dv_info = server_fill_fs_info (env_ops env) h' hostRoot
          ((fs_info_new (env_junk env) (B_FS_IS_PERSISTENT OR B_FS_IS_SHARED OR B_FS_HAS_ATTR) 0 ''packagefs'')
             \<lparr>fi_volume_name := strncpy 256 (fp_filename hostRoot)\<rparr>),
        dv_root = root, dv_mountFlags = flags, dv_class = PackagefsDevice hostRoot mountType\<rparr>, h'))"

section \<open>Mount functions\<close>

definition SystemfsDevice_Mount :: "'h mounter" where
  "SystemfsDevice_Mount n env m path device flags args h =
    (if args \<noteq> [] then
       (let hostRoot = parse_path args in
        if \<not> fp_abs hostRoot then Returns (B_BAD_VALUE, None, h)
        else if \<not> op_exists (env_ops env) h hostRoot then Returns (B_ENTRY_NOT_FOUND, None, h)
        else Returns (B_OK, Some (SystemfsDevice_new env path hostRoot flags h), h))
     else Returns (B_OK, Some (SystemfsDevice_new env path fp_root flags h), h))"

text \<open>
  The source follows the word \<open>source\<close> and one more character. Without that character the
  substring starts behind the end of the string and throws, -1 here.
\<close>

definition BindfsDevice_Mount :: "'h mounter" where
  "BindfsDevice_Mount n env m path device flags args h =
    (if args = [] then Returns (B_BAD_VALUE, None, h)
     else if take 6 args \<noteq> ''source'' then Returns (B_BAD_VALUE, None, h)
     else if length args < 7 then Throws (-1)
     else
       (let s = drop 7 args;
            t = dropWhile (\<lambda>c. c = CHR '' '') s;
            source = parse_path (if t \<noteq> [] then t else s)
        in bind_outcome (Vfs_RealPath n env m h source) (\<lambda>(status, q).
             if status \<noteq> B_OK then Returns (status, None, h)
             else Returns (B_OK, Some (BindfsDevice_new env path q flags), h))))"

fun mangle :: "string list \<Rightarrow> string \<Rightarrow> string" where
  "mangle [] acc = acc"
| "mangle (part # ps) acc = mangle ps ((if acc \<noteq> [] then acc @ ''.'' else acc) @ part)"

definition RamfsDevice_Mount :: "'h mounter" where
  "RamfsDevice_Mount n env m path device flags args h =
    (let mangled = mangle (fp_elements (fp_relative_path path)) [] in
     if mangled = [] then Returns (B_BAD_VALUE, None, h)
     else
       (let ops = env_ops env;
            hostRoot = fp_append (fp_append (parse_path (env_prefix env)) (fp_name ''.hyclone.ramfs''))
              (parse_path mangled);
            (e, h') = op_create_directories ops hostRoot (op_remove_all ops hostRoot h)
        in if e \<noteq> 0 then Returns (B_ERROR, None, h')
           else (let h'' = op_permit_all ops hostRoot h'
                 in Returns (B_OK, Some (RamfsDevice_new env path hostRoot flags h''), h''))))"

definition is_space :: "char \<Rightarrow> bool" where
  "is_space c \<longleftrightarrow> c \<in> set [CHR '' '', CHR 0x09, CHR 0x0A, CHR 0x0B, CHR 0x0C, CHR 0x0D]"

text \<open>\<open>ss >> arg\<close>: at the end of the stream the variable keeps its value.\<close>

definition next_word :: "string \<Rightarrow> string \<Rightarrow> string \<times> string" where
  "next_word s old =
    (let t = dropWhile is_space s in
     if t = [] then (old, []) else (takeWhile (\<lambda>c. \<not> is_space c) t, dropWhile (\<lambda>c. \<not> is_space c) t))"

definition packagefs_mount_type :: "string \<Rightarrow> int option" where
  "packagefs_mount_type args =
    (if args = [] then Some PACKAGE_FS_MOUNT_TYPE_SYSTEM
     else let (w, r) = next_word args [] in
       if w \<noteq> ''type'' then None
       else let (w', _) = next_word r w in
         if w' = ''system'' then Some PACKAGE_FS_MOUNT_TYPE_SYSTEM
         else if w' = ''home'' then Some PACKAGE_FS_MOUNT_TYPE_HOME
         else if w' = ''custom'' then Some PACKAGE_FS_MOUNT_TYPE_CUSTOM
         else None)"

definition PackagefsDevice_Mount :: "'h mounter" where
  "PackagefsDevice_Mount n env m path device flags args h =
    (case packagefs_mount_type args of
       None \<Rightarrow> Returns (B_BAD_VALUE, None, h)
     | Some ty \<Rightarrow>
         bind_outcome (Vfs_GetPath n env m h path False) (\<lambda>(status, hostPath).
           if status \<noteq> B_OK then Returns (status, None, h)
           else bind_outcome (PackagefsDevice_new env path hostPath ty flags h) (\<lambda>(d, h').
             Returns (B_OK, Some d, h'))))"

section \<open>Start-up\<close>

definition register_new ::
    "nat \<Rightarrow> 'h vfs_env \<Rightarrow> haiku_stat \<Rightarrow> ('h \<Rightarrow> (vfs_device \<times> 'h) outcome) \<Rightarrow> 'h \<times> 'h vfs_service \<Rightarrow>
      ('h \<times> 'h vfs_service) outcome" where
  "register_new n env st0 mk s =
    bind_outcome (mk (fst s)) (\<lambda>(d, h).
    bind_outcome (RegisterDevice n env st0 d h (snd s)) (\<lambda>(_, v). Returns (h, v)))"

definition audio_device :: "'h vfs_env \<Rightarrow> fpath \<Rightarrow> 'h \<Rightarrow> (vfs_device \<times> 'h) outcome" where
  "audio_device env pre h =
    (let ops = env_ops env;
         dir = under pre [''.hyclone.audio''];
         h1 = snd (op_create_directories ops dir h);
         leaf = under dir [''0''];
         h2 = (if op_exists ops h1 leaf then h1
               else case op_write_file ops leaf [] h1 of None \<Rightarrow> h1 | Some h' \<Rightarrow> h')
     in Returns (SystemfsDevice_new env (FPath True [''dev'', ''audio'', ''hmulti'']) dir 0 h2, h2))"

text \<open>
  \<open>passwd\<close> is the content of the user file; \<open>setup_prefix\<close> copies the host's network settings.
  A malformed user file throws.
\<close>

definition server_setup_filesystem ::
    "nat \<Rightarrow> 'h vfs_env \<Rightarrow> haiku_stat \<Rightarrow> string \<Rightarrow> ('h \<Rightarrow> 'h outcome) \<Rightarrow> 'h \<Rightarrow> 'h vfs_service \<Rightarrow>
      (bool \<times> 'h \<times> 'h vfs_service) outcome" where
  "server_setup_filesystem n env st0 passwd setup_prefix h v =
    (if env_prefix env = [] then Returns (False, h, v)
     else case GetHomeDir passwd 0 of
       None \<Rightarrow> Throws (-1)
     | Some (status, homeStr) \<Rightarrow>
       if status \<noteq> B_OK then Returns (False, h, v)
       else
       (let ops = env_ops env;
            pre = parse_path (env_prefix env);
            home = fp_relative_path (parse_path homeStr);
            config = (\<lambda>base. fp_append (fp_append base home) (fp_name ''config''));
            mkdirs = (\<lambda>p h. throwing (op_create_directories ops p) h);
            host = (\<lambda>root dir h. Returns (SystemfsDevice_new env root dir 0 h, h))
        in
        bind_outcome (mkdirs pre h) (\<lambda>h.
        bind_outcome (mkdirs (under pre [''dev'']) h) (\<lambda>h.
        bind_outcome (mkdirs (under pre [''boot'', ''system'']) h) (\<lambda>h.
        bind_outcome (mkdirs (config pre) h) (\<lambda>h.
        bind_outcome (register_new n env st0 (RootfsDevice_new env pre 0) (h, v)) (\<lambda>s.
        bind_outcome (register_new n env st0 (\<lambda>h. Returns (DevfsDevice_new env 0, h)) s) (\<lambda>s.
        bind_outcome (register_new n env st0 (host (FPath True [''boot'']) (under pre [''boot''])) s) (\<lambda>s.
        bind_outcome (register_new n env st0 (PackagefsDevice_new env (FPath True [''boot'', ''system''])
            (under pre [''boot'', ''system'']) PACKAGE_FS_MOUNT_TYPE_SYSTEM 0) s) (\<lambda>s.
        bind_outcome (register_new n env st0 (PackagefsDevice_new env (config fp_root)
            (config pre) PACKAGE_FS_MOUNT_TYPE_HOME 0) s) (\<lambda>s.
        bind_outcome (register_new n env st0 (host (FPath True [''SystemRoot'']) fp_root) s) (\<lambda>s.
        bind_outcome (register_new n env st0 (audio_device env pre) s) (\<lambda>(h, v).
        bind_outcome (setup_prefix h) (\<lambda>h.
          Returns (True, h,
            RegisterBuiltinFilesystem ''ramfs'' RamfsDevice_Mount
            (RegisterBuiltinFilesystem ''bindfs'' BindfsDevice_Mount
            (RegisterBuiltinFilesystem ''systemfs'' SystemfsDevice_Mount
            (RegisterBuiltinFilesystem ''packagefs'' PackagefsDevice_Mount v))))))))))))))))))"

section \<open>What start-up leaves\<close>

text \<open>A service under construction: \<open>k\<close> devices in a row, all over clean host directories.\<close>

definition starting :: "nat \<Rightarrow> 'h vfs_service \<Rightarrow> bool" where
  "starting k v \<longleftrightarrow> vfs_ok v \<and> freeIds (vs_devices v) = [] \<and> length (items (vs_devices v)) = k \<and>
    (\<forall>p d. vs_deviceMounts v p = Some d \<longrightarrow> fp_abs p \<and>
      (\<exists>hr. host_root (dv_class d) = Some hr \<and> clean_path hr))"

lemma starting_new: "starting 1 VfsService_new"
  using vfs_ok_new
  by (simp add: starting_def VfsService_new_def IdMap_Add_def IdMap_empty_def Let_def)

lemma RegisterDevice_ids:
  assumes "freeIds (vs_devices v) = []" and "RegisterDevice n env st0 d h v = Returns (d', v')"
  shows "freeIds (vs_devices v') = [] \<and> length (items (vs_devices v')) = Suc (length (items (vs_devices v)))"
  using assms
  by (auto simp: RegisterDevice_def IdMap_Add_def Let_def put_device_def RegisterEntryRef_def
      elim!: bind_outcome_ReturnsE)

lemma register_new_starting:
  assumes "register_new n env st0 mk s = Returns s'" and "starting k (snd s)" and "k < 2 ^ 31"
    and "\<forall>h d h'. mk h = Returns (d, h') \<longrightarrow> dv_root d = r \<and> dv_class d = c"
    and "host_root c = Some hr" and "fp_abs r" and "clean_path hr"
  shows "starting (Suc k) (snd s') \<and>
    map_option dv_class \<circ> vs_deviceMounts (snd s') = (map_option dv_class \<circ> vs_deviceMounts (snd s))(r \<mapsto> c)"
proof -
  obtain d h d' v' where m: "mk (fst s) = Returns (d, h)"
      and reg: "RegisterDevice n env st0 d h (snd s) = Returns (d', v')" and s': "s' = (h, v')"
    using assms(1) by (auto simp: register_new_def elim!: bind_outcome_ReturnsE)
  have ok: "vfs_ok (snd s)" "IdMap_ok (vs_devices (snd s))" "IdMap_has_room (vs_devices (snd s))"
      "freeIds (vs_devices (snd s)) = []"
    using assms(2,3) by (auto simp: starting_def vfs_ok_def IdMap_has_room_def)
  note t = RegisterDevice_tables [OF ok(2,3) reg]
  have dv: "dv_root d = r" "dv_class d' = c" using assms(4) m t(2) by auto
  show ?thesis
    using assms(2,5,6,7) RegisterDevice_vfs_ok [OF ok(1,3) reg] RegisterDevice_ids [OF ok(4) reg] t(6) dv
    by (auto simp: starting_def s' map_option_o_map_upd)
qed

lemma starting_mounts:
  "starting k v \<Longrightarrow> vs_deviceMounts v fp_root \<noteq> None \<Longrightarrow>
    mounts_ok (vs_deviceMounts v) \<and> host_mounts (vs_deviceMounts v)"
  by (fastforce simp: starting_def mounts_ok_def host_mounts_def vfs_ok_def)

lemma under_clean: "clean_path p \<Longrightarrow> list_all proper_name ns \<Longrightarrow>
    under p ns = FPath True (fp_parts p @ ns) \<and> clean_path (under p ns)"
proof -
  assume p: "clean_path p" and ns: "list_all proper_name ns"
  have "[] \<notin> set ns" using ns by (auto simp: list_all_iff proper_name_def)
  moreover have "p = FPath True (fp_parts p)" using p by (cases p) (simp add: clean_path_def)
  ultimately have "under p ns = FPath True (fp_parts p @ ns)"
    using append_names [OF clean_no_empty [OF p], of ns True] by (simp add: under_def)
  then show ?thesis using p ns by (simp add: clean_path_def)
qed

lemma append_home_clean:
  assumes "clean_path p" and "clean_path (FPath True hs)"
  shows "clean_path (fp_append (fp_append p (FPath False hs)) (fp_name ''config''))"
proof -
  have "fp_append p (FPath False hs) = FPath True (fp_parts p @ hs) \<or> hs = []"
    using assms(1) strip_trailing_clean [OF assms(1)] by (auto simp: fp_append_def clean_path_def)
  moreover have "fp_append p (FPath False []) = p \<or> clean_path (fp_append (fp_append p (FPath False [])) (fp_name ''config''))"
    using assms(1) clean_last [OF assms(1)]
    by (auto simp: fp_append_def fp_name_def strip_trailing_def clean_path_def proper_name_def fp_filename_def)
  moreover have "p = FPath True (fp_parts p)" using assms(1) by (cases p) (simp add: clean_path_def)
  moreover have "[] \<notin> set (fp_parts p @ hs)"
    using clean_no_empty [OF assms(1)] clean_no_empty [OF assms(2)] by simp
  ultimately show ?thesis
    using fp_append_name [of "fp_parts p @ hs" "''config''" True] assms
      fp_append_name [of "fp_parts p" "''config''" True]
    by (cases "hs = []") (auto simp: clean_path_def proper_name_def)
qed

lemma RootfsDevice_new_root:
  "RootfsDevice_new env r f h = Returns (d, h') \<Longrightarrow> dv_root d = fp_root \<and> dv_class d = RootfsDevice r"
  by (auto simp: RootfsDevice_new_def Let_def elim!: bind_outcome_ReturnsE)

lemma PackagefsDevice_new_root:
  "PackagefsDevice_new env p r t f h = Returns (d, h') \<Longrightarrow> dv_root d = p \<and> dv_class d = PackagefsDevice r t"
  by (auto simp: PackagefsDevice_new_def elim!: bind_outcome_ReturnsE)

lemma audio_device_root:
  "audio_device env r h = Returns (d, h') \<Longrightarrow> dv_root d = FPath True [''dev'', ''audio'', ''hmulti''] \<and>
    dv_class d = SystemfsDevice (under r [''.hyclone.audio''])"
  by (auto simp: audio_device_def SystemfsDevice_new_def Let_def)

text \<open>The devices of a started server: prefix, home directory of the user.\<close>

definition started_mounts :: "fpath \<Rightarrow> fpath \<Rightarrow> fpath \<rightharpoonup> device_class" where
  "started_mounts pre home =
    (let config = (\<lambda>b. fp_append (fp_append b (fp_relative_path home)) (fp_name ''config'')) in
     [fp_root \<mapsto> RootfsDevice pre,
      FPath True [''dev''] \<mapsto> DevfsDevice (FPath True [''dev'']),
      FPath True [''boot''] \<mapsto> SystemfsDevice (under pre [''boot'']),
      FPath True [''boot'', ''system''] \<mapsto>
        PackagefsDevice (under pre [''boot'', ''system'']) PACKAGE_FS_MOUNT_TYPE_SYSTEM,
      config fp_root \<mapsto> PackagefsDevice (config pre) PACKAGE_FS_MOUNT_TYPE_HOME,
      FPath True [''SystemRoot''] \<mapsto> SystemfsDevice fp_root,
      FPath True [''dev'', ''audio'', ''hmulti''] \<mapsto> SystemfsDevice (under pre [''.hyclone.audio''])])"

lemma setup_mounts:
  fixes env :: "'h vfs_env"
  assumes "GetHomeDir passwd 0 = Some (B_OK, home)"
    and "clean_path (parse_path (env_prefix env))" and "clean_path (FPath True (fp_parts (parse_path home)))"
    and "server_setup_filesystem n env st0 passwd setup_prefix h VfsService_new = Returns (True, h', v')"
  shows "mounts_ok (vs_deviceMounts v') \<and> host_mounts (vs_deviceMounts v') \<and>
    map_option dv_class \<circ> vs_deviceMounts v' = started_mounts (parse_path (env_prefix env)) (parse_path home)"
proof -
  let ?pre = "parse_path (env_prefix env)"
  let ?config = "\<lambda>b. fp_append (fp_append b (fp_relative_path (parse_path home))) (fp_name ''config'')"
  let ?t = "\<lambda>s :: 'h \<times> 'h vfs_service. map_option dv_class \<circ> vs_deviceMounts (snd s)"
  have prefix: "env_prefix env \<noteq> []" using assms(4) by (auto simp: server_setup_filesystem_def split: if_splits)
  obtain h0 s1 s2 s3 s4 s5 s6 s7 where
      r1: "register_new n env st0 (RootfsDevice_new env ?pre 0) (h0, VfsService_new) = Returns s1"
    and r2: "register_new n env st0 (\<lambda>h. Returns (DevfsDevice_new env 0, h)) s1 = Returns s2"
    and r3: "register_new n env st0 (\<lambda>h. Returns (SystemfsDevice_new env (FPath True [''boot''])
        (under ?pre [''boot'']) 0 h, h)) s2 = Returns s3"
    and r4: "register_new n env st0 (PackagefsDevice_new env (FPath True [''boot'', ''system''])
        (under ?pre [''boot'', ''system'']) PACKAGE_FS_MOUNT_TYPE_SYSTEM 0) s3 = Returns s4"
    and r5: "register_new n env st0 (PackagefsDevice_new env (?config fp_root) (?config ?pre)
        PACKAGE_FS_MOUNT_TYPE_HOME 0) s4 = Returns s5"
    and r6: "register_new n env st0 (\<lambda>h. Returns (SystemfsDevice_new env (FPath True [''SystemRoot''])
        fp_root 0 h, h)) s5 = Returns s6"
    and r7: "register_new n env st0 (audio_device env ?pre) s6 = Returns s7"
    and v': "vs_deviceMounts v' = vs_deviceMounts (snd s7)"
    using assms(1,4) prefix
    by (auto simp: server_setup_filesystem_def Let_def RegisterBuiltinFilesystem_def elim!: bind_outcome_ReturnsE)
  have dirs: "clean_path (under ?pre ns)" if "list_all proper_name ns" for ns
    by (rule conjunct2 [OF under_clean [OF assms(2) that]])
  have conf: "fp_abs (?config fp_root)" "clean_path (?config ?pre)"
    using append_home_clean [OF assms(2,3)] by (simp_all add: fp_relative_path_def fp_append_abs)
  have new: "starting 1 (snd (h0, VfsService_new :: 'h vfs_service))" "?t (h0, VfsService_new) = Map.empty"
    using starting_new by (simp_all add: VfsService_new_def fun_eq_iff)
  have rootfs: "\<forall>h d h'. RootfsDevice_new env ?pre 0 h = Returns (d, h') \<longrightarrow>
      dv_root d = fp_root \<and> dv_class d = RootfsDevice ?pre"
    by (auto dest: RootfsDevice_new_root)
  have s1: "starting 2 (snd s1) \<and> ?t s1 = [fp_root \<mapsto> RootfsDevice ?pre]"
    using register_new_starting [OF r1 new(1) _ rootfs _ _ assms(2)] new(2) by (simp flip: numeral_2_eq_2)
  have s2: "starting 3 (snd s2) \<and> ?t s2 = (?t s1)(FPath True [''dev''] \<mapsto> DevfsDevice (FPath True [''dev'']))"
    using register_new_starting [OF r2 conjunct1 [OF s1], of "FPath True [''dev'']"]
    by (auto simp: DevfsDevice_new_def clean_path_def proper_name_def)
  have s3: "starting 4 (snd s3) \<and> ?t s3 = (?t s2)(FPath True [''boot''] \<mapsto> SystemfsDevice (under ?pre [''boot'']))"
    using register_new_starting [OF r3 conjunct1 [OF s2], of "FPath True [''boot'']"] dirs [of "[''boot'']"]
    by (auto simp: SystemfsDevice_new_def proper_name_def)
  have s4: "starting 5 (snd s4) \<and> ?t s4 = (?t s3)(FPath True [''boot'', ''system''] \<mapsto>
      PackagefsDevice (under ?pre [''boot'', ''system'']) PACKAGE_FS_MOUNT_TYPE_SYSTEM)"
    using register_new_starting [OF r4 conjunct1 [OF s3], of "FPath True [''boot'', ''system'']"
        "PackagefsDevice (under ?pre [''boot'', ''system'']) PACKAGE_FS_MOUNT_TYPE_SYSTEM"]
      dirs [of "[''boot'', ''system'']"]
    by (auto simp: proper_name_def dest: PackagefsDevice_new_root)
  have s5: "starting 6 (snd s5) \<and> ?t s5 = (?t s4)(?config fp_root \<mapsto>
      PackagefsDevice (?config ?pre) PACKAGE_FS_MOUNT_TYPE_HOME)"
    using register_new_starting [OF r5 conjunct1 [OF s4] _ _ _ conf,
        of "PackagefsDevice (?config ?pre) PACKAGE_FS_MOUNT_TYPE_HOME"]
    by (auto dest: PackagefsDevice_new_root)
  have s6: "starting 7 (snd s6) \<and> ?t s6 = (?t s5)(FPath True [''SystemRoot''] \<mapsto> SystemfsDevice fp_root)"
    using register_new_starting [OF r6 conjunct1 [OF s5], of "FPath True [''SystemRoot'']"]
    by (auto simp: SystemfsDevice_new_def)
  have s7: "starting 8 (snd s7) \<and> ?t s7 = (?t s6)(FPath True [''dev'', ''audio'', ''hmulti''] \<mapsto>
      SystemfsDevice (under ?pre [''.hyclone.audio'']))"
    using register_new_starting [OF r7 conjunct1 [OF s6], of "FPath True [''dev'', ''audio'', ''hmulti'']"
        "SystemfsDevice (under ?pre [''.hyclone.audio''])"] dirs [of "[''.hyclone.audio'']"]
    by (auto simp: proper_name_def dest: audio_device_root)
  have t: "?t s7 = started_mounts ?pre (parse_path home)"
    using s1 s2 s3 s4 s5 s6 s7 by (simp add: started_mounts_def Let_def)
  have "(?t s7) fp_root \<noteq> None" unfolding t by (simp add: started_mounts_def Let_def)
  then have "vs_deviceMounts (snd s7) fp_root \<noteq> None" by auto
  then show ?thesis using starting_mounts [OF conjunct1 [OF s7]] t by (simp add: v')
qed

text \<open>
  C9: from start-up on, guest paths stay in the host directories of the server. After a successful
  start with the empty service, over a prefix and a home directory that are clean absolute paths,
  the seven devices of \<open>started_mounts\<close> are mounted. Whatever absolute path a team with an absolute
  root then looks up with success, on any state of the host, the host path is the one the guest
  path means: the symbolic links on the way lead to a path \<open>a\<close>, \<open>r\<close> is the nearest of the seven
  mount points above it, and the host path is the host directory of the device at \<open>r\<close> with the
  names of \<open>a\<close> below \<open>r\<close> behind it, none of them \<open>..\<close>, through directories that are no symbolic
  links, and is not hidden by that device.
\<close>

theorem started_server_contains_paths:
  assumes "GetHomeDir passwd 0 = Some (B_OK, home)"
    and "clean_path (parse_path (env_prefix env))" and "clean_path (FPath True (fp_parts (parse_path home)))"
    and "server_setup_filesystem n env st0 passwd setup_prefix h VfsService_new = Returns (True, h', v')"
    and "fp_abs (env_root team)" and "fp_abs p"
    and "Vfs_GetPath k team (vs_deviceMounts v') host p traverse = Returns (B_OK, q)"
  shows "\<exists>a r c. (link_step team host (vs_deviceMounts v') traverse)\<^sup>*\<^sup>* (drop_slash (lexically_normal p)) a \<and>
    mounted_at (vs_deviceMounts v') a r \<and>
    started_mounts (parse_path (env_prefix env)) (parse_path home) r = Some c \<and>
    leads_to team host traverse r c a q"
proof -
  note t = setup_mounts [OF assms(1-4)]
  obtain a r d where d: "(link_step team host (vs_deviceMounts v') traverse)\<^sup>*\<^sup>* (drop_slash (lexically_normal p)) a"
      "mounted_at (vs_deviceMounts v') a r" "vs_deviceMounts v' r = Some d"
      "leads_to team host traverse r (dv_class d) a q"
    using resolved_path [OF _ _ assms(5-7)] t unfolding resolves_to_def by blast
  have "started_mounts (parse_path (env_prefix env)) (parse_path home) r = Some (dv_class d)"
    using fun_cong [OF conjunct2 [OF conjunct2 [OF t]], of r] d(3) by simp
  then show ?thesis using d by blast
qed

section \<open>A start-up\<close>

lemma linkless_ReadStat:
  "\<exists>s q st'. HostfsDevice_ReadStat linkless_env h d hr p False st = Returns (s, q, False, st')"
proof -
  have w: "\<exists>s q. hostfs_walk linkless_env h False orig ec hp path es = Returns (s, q, False)" for orig ec hp path es
    by (induction es arbitrary: ec hp path) (simp_all add: linkless_status)
  have "\<exists>s q. HostfsDevice_GetPath linkless_env h d hr p False = Returns (s, q, False)"
    using w by (simp add: HostfsDevice_GetPath_def Let_def linkless_status)
  then show ?thesis
    by (auto simp: HostfsDevice_ReadStat_def Let_def split: prod.split)
qed

lemma linkless_register:
  assumes "mk (fst s) = Returns (d, h)" and "clean_path (dv_root d)" and "host_root (dv_class d) \<noteq> None"
  shows "\<exists>s'. register_new (Suc n) linkless_env st0 mk s = Returns s'"
proof -
  have stat: "\<exists>r st. Vfs_ReadStat (Suc n) linkless_env (m(dv_root d \<mapsto> with_dev i d)) h (dv_root d) False st0 =
      Returns (r, st)" for m i
  proof -
    obtain r q st where "HostfsDevice_ReadStat linkless_env h (with_dev i d) (the (host_root (dv_class d)))
        (dv_root d) False st0 = Returns (r, q, False, st)"
      using linkless_ReadStat by blast
    then have "device_ReadStat svc linkless_env h (dv_root d) (with_dev i d) False st0 = Returns (r, q, False, st)"
      for svc
      using assms(3) by (cases "dv_class d") (auto simp: device_ReadStat_def with_dev_def)
    moreover have "find_drive (m(dv_root d \<mapsto> with_dev i d)) (dv_root d) = Some (dv_root d)"
      by (rule find_drive_here) simp
    ultimately show ?thesis
      using assms(2) by (simp add: DoWork_def state_result_def)
  qed
  have root: "dv_root (with_dev i d) = dv_root d" for i by (simp add: with_dev_def)
  obtain i devs where a: "IdMap_Add (vs_devices (snd s)) (Some d) = (i, devs)" by fastforce
  obtain r st where "Vfs_ReadStat (Suc n) linkless_env ((vs_deviceMounts (snd s))(dv_root d \<mapsto> with_dev i d)) h
      (dv_root d) False st0 = Returns (r, st)"
    using stat by blast
  then show ?thesis
    using assms(1)
    by (simp add: register_new_def RegisterDevice_def a Let_def root put_device_def del: Vfs_ReadStat.simps)
qed

definition sample_passwd :: string where
  "sample_passwd = ''root:x:0:0::/boot/home:/bin/sh''"

lemma sample_home: "GetHomeDir sample_passwd 0 = Some (B_OK, ''/boot/home'')"
  by code_simp

lemma linkless_prefix [simp]: "env_prefix linkless_env = ''/h''" "env_root linkless_env = fp_root"
  "env_ops linkless_env = sample_ops\<lparr>op_lstat := \<lambda>_ _. Inr (sample_stat 1 0x41ED)\<rparr>"
  "env_pkg_install linkless_env = (\<lambda>_ _ h. Returns h)"
  by (simp_all add: linkless_env_def sample_env_def)

lemma sample_prefix: "parse_path ''/h'' = FPath True [''h'']"
  "parse_path ''/boot/home'' = FPath True [''boot'', ''home'']"
  by code_simp+

lemma setup_runs:
  fixes env :: "'h vfs_env"
  assumes "env_prefix env \<noteq> []" and "GetHomeDir passwd 0 = Some (B_OK, home)"
    and "\<And>p h. throwing (op_create_directories (env_ops env) p) h = Returns h"
    and "\<And>h. setup_prefix h = Returns h"
    and root: "\<And>s. \<exists>s'. register_new n env st0 (RootfsDevice_new env (parse_path (env_prefix env)) 0) s = Returns s'"
    and dev: "\<And>s. \<exists>s'. register_new n env st0 (\<lambda>h. Returns (DevfsDevice_new env 0, h)) s = Returns s'"
    and host: "\<And>r p s. clean_path r \<Longrightarrow>
      \<exists>s'. register_new n env st0 (\<lambda>h. Returns (SystemfsDevice_new env r p 0 h, h)) s = Returns s'"
    and pkg: "\<And>r p t s. clean_path r \<Longrightarrow> \<exists>s'. register_new n env st0 (PackagefsDevice_new env r p t 0) s = Returns s'"
    and audio: "\<And>s. \<exists>s'. register_new n env st0 (audio_device env (parse_path (env_prefix env))) s = Returns s'"
    and config: "clean_path (fp_append (fp_append fp_root (fp_relative_path (parse_path home))) (fp_name ''config''))"
  shows "\<exists>h' v'. server_setup_filesystem n env st0 passwd setup_prefix h v = Returns (True, h', v')"
proof -
  let ?p = "parse_path (env_prefix env)"
  let ?config = "\<lambda>b. fp_append (fp_append b (fp_relative_path (parse_path home))) (fp_name ''config'')"
  have cl: "clean_path (FPath True [''boot''])" "clean_path (FPath True [''boot'', ''system''])"
      "clean_path (FPath True [''SystemRoot''])"
    by (simp_all add: clean_path_def proper_name_def)
  obtain s1 where s1: "register_new n env st0 (RootfsDevice_new env ?p 0) (h, v) = Returns s1"
    using root by blast
  obtain s2 where s2: "register_new n env st0 (\<lambda>h. Returns (DevfsDevice_new env 0, h)) s1 = Returns s2"
    using dev by blast
  obtain s3 where s3: "register_new n env st0 (\<lambda>h. Returns (SystemfsDevice_new env
      (FPath True [''boot'']) (under ?p [''boot'']) 0 h, h)) s2 = Returns s3"
    using host [OF cl(1)] by blast
  obtain s4 where s4: "register_new n env st0 (PackagefsDevice_new env (FPath True [''boot'', ''system''])
      (under ?p [''boot'', ''system'']) PACKAGE_FS_MOUNT_TYPE_SYSTEM 0) s3 = Returns s4"
    using pkg [OF cl(2)] by blast
  obtain s5 where s5: "register_new n env st0 (PackagefsDevice_new env (?config fp_root) (?config ?p)
      PACKAGE_FS_MOUNT_TYPE_HOME 0) s4 = Returns s5"
    using pkg [OF config] by blast
  obtain s6 where s6: "register_new n env st0 (\<lambda>h. Returns (SystemfsDevice_new env
      (FPath True [''SystemRoot'']) fp_root 0 h, h)) s5 = Returns s6"
    using host [OF cl(3)] by blast
  obtain s7 where s7: "register_new n env st0 (audio_device env ?p) s6 = Returns s7"
    using audio by blast
  show ?thesis
    using assms(1) by (simp add: server_setup_filesystem_def Let_def assms(2-4) s1 s2 s3 s4 s5 s6 s7 split: prod.split)
qed

lemma sample_setup:
  "\<exists>h v. server_setup_filesystem 1 linkless_env st0 sample_passwd Returns () VfsService_new = Returns (True, h, v)"
proof -
  have ok [simp]: "throwing (op_create_directories sample_ops p) h = Returns h"
    "throwing (op_remove sample_ops p) h = Returns h" "throwing (op_symlink sample_ops p q) h = Returns h" for p q h
    by (simp_all add: throwing_def sample_ops_def)
  have clean [simp]: "clean_path (FPath True ns) \<longleftrightarrow> list_all proper_name ns" for ns by (simp add: clean_path_def)
  have config: "fp_append (fp_append fp_root (FPath False [''boot'', ''home''])) (fp_name ''config'') =
      FPath True [''boot'', ''home'', ''config'']"
    by code_simp
  show ?thesis
  proof (rule setup_runs [OF _ sample_home])
    show "\<exists>s'. register_new 1 linkless_env st0 (\<lambda>h. Returns (SystemfsDevice_new linkless_env r p 0 h, h)) s = Returns s'"
      if "clean_path r" for r p s
      unfolding One_nat_def
      by (rule linkless_register [where h = "()"]) (simp, use that in \<open>simp_all add: SystemfsDevice_new_def\<close>)
    show "\<exists>s'. register_new 1 linkless_env st0 (RootfsDevice_new linkless_env (parse_path (env_prefix linkless_env)) 0) s =
        Returns s'" for s
      unfolding One_nat_def
      by (rule linkless_register [OF _ , where h = "()"])
        (simp add: RootfsDevice_new_def essential_link_def Let_def, simp_all)
    show "\<exists>s'. register_new 1 linkless_env st0 (\<lambda>h. Returns (DevfsDevice_new linkless_env 0, h)) s = Returns s'" for s
      unfolding One_nat_def
      by (rule linkless_register [where h = "()"]) (simp, simp_all add: DevfsDevice_new_def proper_name_def)
    show "\<exists>s'. register_new 1 linkless_env st0 (PackagefsDevice_new linkless_env r p t 0) s = Returns s'"
      if "clean_path r" for r p t s
      unfolding One_nat_def
      by (rule linkless_register [OF _ , where h = "()"]) (simp add: PackagefsDevice_new_def, use that in simp_all)
    show "\<exists>s'. register_new 1 linkless_env st0 (audio_device linkless_env (parse_path (env_prefix linkless_env))) s =
        Returns s'" for s
      unfolding One_nat_def
      by (rule linkless_register [OF _ , where h = "()"])
        (simp add: audio_device_def Let_def, simp_all add: SystemfsDevice_new_def proper_name_def)
  qed (simp_all add: sample_prefix fp_relative_path_def config proper_name_def)
qed

text \<open>A lookup of \<open>/SystemRoot/etc\<close> in the server just started.\<close>

theorem started_server_contains_paths_witness:
  "\<exists>h v. server_setup_filesystem 1 linkless_env sample_bound_stat sample_passwd Returns () VfsService_new =
      Returns (True, h, v) \<and>
    Vfs_GetPath 1 linkless_env (vs_deviceMounts v) () (FPath True [''SystemRoot'', ''etc'']) True =
      Returns (B_OK, FPath True [''etc'']) \<and>
    (\<exists>a r c. mounted_at (vs_deviceMounts v) a r \<and>
      started_mounts (FPath True [''h'']) (FPath True [''boot'', ''home'']) r = Some c \<and>
      leads_to linkless_env () True r c a (FPath True [''etc'']))"
proof -
  let ?p = "FPath True [''SystemRoot'', ''etc'']" and ?r = "FPath True [''SystemRoot'']"
  obtain h v where s: "server_setup_filesystem 1 linkless_env sample_bound_stat sample_passwd Returns () VfsService_new =
      Returns (True, h, v)"
    using sample_setup by blast
  have cl: "clean_path (parse_path (env_prefix linkless_env))"
    "clean_path (FPath True (fp_parts (parse_path ''/boot/home'')))"
    by (simp_all add: sample_prefix clean_path_def proper_name_def)
  note t = setup_mounts [OF sample_home cl s]
  have e: "map_option dv_class (vs_deviceMounts v q) = started_mounts (FPath True [''h''])
      (FPath True [''boot'', ''home'']) q" for q
    using fun_cong [OF conjunct2 [OF conjunct2 [OF t]], of q] by (simp add: sample_prefix)
  have "started_mounts (FPath True [''h'']) (FPath True [''boot'', ''home'']) ?r = Some (SystemfsDevice fp_root)"
    "started_mounts (FPath True [''h'']) (FPath True [''boot'', ''home'']) ?p = None"
    by code_simp+
  then obtain d where d: "vs_deviceMounts v ?r = Some d" "dv_class d = SystemfsDevice fp_root"
      and p: "vs_deviceMounts v ?p = None"
    using e [of ?r] e [of ?p] by auto
  have root: "dv_root d = ?r" using t d(1) by (auto simp: mounts_ok_def)
  have f: "find_drive (vs_deviceMounts v) ?p = Some ?r"
    using find_drive_up [of ?p "vs_deviceMounts v"] find_drive_here [of "vs_deviceMounts v" ?r] p d(1)
    by (simp add: has_parent_abs fp_parent_def)
  have g: "HostfsDevice_GetPath linkless_env () d fp_root ?p True = Returns (B_OK, FPath True [''etc''], False)"
    using relative_below [of True "[''SystemRoot'']" "[''etc'']"] linkless_status
    by (simp add: HostfsDevice_GetPath_def Let_def root d(2) fp_name_def fp_append_def strip_trailing_def
        fp_elements_def)
  have q: "Vfs_GetPath 1 linkless_env (vs_deviceMounts v) () ?p True = Returns (B_OK, FPath True [''etc''])"
    using f d g by (simp add: DoWork_def clean_path_def proper_name_def path_result_def path_work_def device_GetPath_def)
  show ?thesis
    using s q started_server_contains_paths [OF sample_home cl s _ _ q] by (simp add: sample_prefix) blast
qed

end
