(* ===== verification/VfsCalls.thy ===== *)
theory VfsCalls
  imports FileSystems Calls
begin

text \<open>
  The server calls on paths: \<open>Process::ReadDirFd\<close> and the calls on descriptors, directories and
  roots of \<^verbatim>\<open>hyclone_server/process.cpp\<close>, the calls of
  \<^verbatim>\<open>server_filesystem.cpp\<close> and of \<^verbatim>\<open>entry_ref.cpp\<close>. A call runs on the state of the
  server, of the host's file system and of the virtual file system. Each part of a call that is
  under a lock is taken at once, and no other thread changes the team between two parts.
\<close>

record 'h vfs_state =
  vst_world :: world
  vst_host :: 'h
  vst_vfs :: "'h vfs_service"

text \<open>
  What a call gets besides its arguments: the rounds for following links, the guest's memory, the
  file system's environment, and what an uninitialised \<open>haiku_stat\<close> and the padding of a
  structure hold.
\<close>

record 'h call_env =
  ce_rounds :: nat
  ce_memory :: host
  ce_vfs :: "'h vfs_env"
  ce_stat :: haiku_stat
  ce_pad :: "byte list"

abbreviation team_of :: "hserver_context \<Rightarrow> 'h vfs_state \<Rightarrow> process" where
  "team_of c s \<equiv> the_process c (vst_world s)"

text \<open>\<open>gCurrentContext->process->GetRoot()\<close>\<close>

definition team_env :: "'h call_env \<Rightarrow> hserver_context \<Rightarrow> 'h vfs_state \<Rightarrow> 'h vfs_env" where
  "team_env e c s = (ce_vfs e)\<lparr>env_root := parse_path (p_root (team_of c s))\<rparr>"

definition team_read :: "'h call_env \<Rightarrow> hserver_context \<Rightarrow> 'h vfs_state \<Rightarrow> int \<Rightarrow> int \<Rightarrow> byte list option" where
  "team_read e c s addr n = Process_ReadMemory (ce_memory e) (team_of c s) addr n"

text \<open>A pair of a pointer and a size.\<close>

definition read_pair :: "'h call_env \<Rightarrow> hserver_context \<Rightarrow> 'h vfs_state \<Rightarrow> int \<Rightarrow> (int \<times> int) option" where
  "read_pair e c s addr =
    map_option (\<lambda>bs. (le_val (take 8 bs), le_val (take 8 (drop 8 bs)))) (team_read e c s addr 16)"

definition read_string :: "'h call_env \<Rightarrow> hserver_context \<Rightarrow> 'h vfs_state \<Rightarrow> int \<Rightarrow> string option" where
  "read_string e c s addr =
    (case read_pair e c s addr of None \<Rightarrow> None | Some (p, n) \<Rightarrow> team_read e c s p n)"

definition team_reply ::
    "'h call_env \<Rightarrow> hserver_context \<Rightarrow> int \<Rightarrow> byte list \<Rightarrow> int \<Rightarrow> 'h vfs_state \<Rightarrow> int \<times> 'h vfs_state" where
  "team_reply e c addr bs r s =
    (let (r', w) = reply_with (ce_memory e) c addr (OBytes bs) r (vst_world s) in (r', s\<lparr>vst_world := w\<rparr>))"

definition with_team :: "hserver_context \<Rightarrow> (process \<Rightarrow> process) \<Rightarrow> 'h vfs_state \<Rightarrow> 'h vfs_state" where
  "with_team c f s = s\<lparr>vst_world := upd_process (ctx_process c) f (vst_world s)\<rparr>"

text \<open>A C++ string written with its terminator.\<close>

definition c_bytes :: "string \<Rightarrow> byte list" where
  "c_bytes p = p @ [CHR 0x00]"

section \<open>\<open>ReadDirFd\<close>\<close>

definition HAIKU_AT_FDCWD :: int where "HAIKU_AT_FDCWD = -100"

definition HAIKU_IS_AT_FDCWD :: "int \<Rightarrow> bool" where
  "HAIKU_IS_AT_FDCWD fd \<longleftrightarrow> fd = HAIKU_AT_FDCWD \<or> fd = -1"

text \<open>
  The path before links are resolved, and whether the directory it starts from lies outside the
  root. \<open>Inl\<close> is the error.
\<close>

definition dirfd_path :: "process \<Rightarrow> int \<Rightarrow> string \<Rightarrow> int + fpath \<times> bool" where
  "dirfd_path p fd path =
    (let root = parse_path (p_root p) in
     if take 1 path \<noteq> ''/'' then
       (case (if \<not> HAIKU_IS_AT_FDCWD fd then Process_GetFd p fd
              else if p_cwd p = [] then None else Some (p_cwd p)) of
          None \<Rightarrow> Inl HAIKU_POSIX_EBADF
        | Some b \<Rightarrow>
            (let out = parse_path b; jailBroken = (\<not> fp_under out root) in
             Inr (if path = [] then out
                  else if fp_filename out = [] then fp_append (fp_parent out) (parse_path path)
                  else fp_append out (parse_path path), jailBroken)))
     else Inr (fp_append root (fp_relative_path (parse_path path)), False))"

text \<open>The status of \<open>RealPath\<close> is not looked at.\<close>

definition dirfd_resolve ::
    "nat \<Rightarrow> 'h vfs_env \<Rightarrow> mounts \<Rightarrow> 'h \<Rightarrow> bool \<Rightarrow> fpath \<Rightarrow> fpath outcome" where
  "dirfd_resolve n env m h traverseLink out =
    (if traverseLink then bind_outcome (Vfs_RealPath n env m h out) (\<lambda>(_, q). Returns q)
     else if fp_has_parent out then
       bind_outcome (Vfs_RealPath n env m h (fp_parent out)) (\<lambda>(_, q).
         Returns (fp_append q (fp_name (fp_filename out))))
     else Returns out)"

definition jail_step :: "nat \<Rightarrow> string list \<Rightarrow> string \<Rightarrow> string list" where
  "jail_step rootLevel parts part =
    (if part = ''..'' then (if length parts > rootLevel then butlast parts else parts)
     else if part \<noteq> [] \<and> part \<noteq> ''.'' then parts @ [part]
     else parts)"

definition jail_path :: "fpath \<Rightarrow> fpath \<Rightarrow> fpath" where
  "jail_path root out =
    foldl (\<lambda>q part. fp_append q (fp_elem part)) out
      (foldl (jail_step (length (fp_elements root))) [] (fp_elements out))"

definition Process_ReadDirFd ::
    "'h call_env \<Rightarrow> hserver_context \<Rightarrow> 'h vfs_state \<Rightarrow> int \<Rightarrow> int \<Rightarrow> int \<Rightarrow> bool \<Rightarrow> (int \<times> fpath) outcome" where
  "Process_ReadDirFd e c s fd addr n traverseLink =
    (case team_read e c s addr n of
       None \<Rightarrow> Returns (B_BAD_ADDRESS, fp_empty)
     | Some path \<Rightarrow>
         (case dirfd_path (team_of c s) fd path of
            Inl r \<Rightarrow> Returns (r, fp_empty)
          | Inr (out, jailBroken) \<Rightarrow>
              bind_outcome (dirfd_resolve (ce_rounds e) (team_env e c s) (vs_deviceMounts (vst_vfs s))
                  (vst_host s) traverseLink out) (\<lambda>out.
                let out = drop_slash out;
                    out = (if \<not> jailBroken then jail_path (parse_path (p_root (team_of c s))) out else out)
                in Returns (B_OK, lexically_normal out))))"

text \<open>What most calls begin with: on an error the call ends.\<close>

definition with_path ::
    "'h call_env \<Rightarrow> hserver_context \<Rightarrow> int \<Rightarrow> int \<Rightarrow> int \<Rightarrow> bool \<Rightarrow> 'h vfs_state \<Rightarrow>
      (fpath \<Rightarrow> (int \<times> 'h vfs_state) outcome) \<Rightarrow> (int \<times> 'h vfs_state) outcome" where
  "with_path e c fd addr n traverseLink s f =
    bind_outcome (Process_ReadDirFd e c s fd addr n traverseLink) (\<lambda>(status, p).
      if status \<noteq> B_OK then Returns (status, s) else f p)"

text \<open>The path of a descriptor.\<close>

definition with_fd ::
    "hserver_context \<Rightarrow> int \<Rightarrow> 'h vfs_state \<Rightarrow> (fpath \<Rightarrow> (int \<times> 'h vfs_state) outcome) \<Rightarrow>
      (int \<times> 'h vfs_state) outcome" where
  "with_fd c fd s f =
    (case Process_GetFd (team_of c s) fd of
       None \<Rightarrow> Returns (HAIKU_POSIX_EBADF, s) | Some p \<Rightarrow> f (parse_path p))"

text \<open>A read that fails is \<open>B_BAD_ADDRESS\<close>.\<close>

definition or_bad_address ::
    "'a option \<Rightarrow> 'h vfs_state \<Rightarrow> ('a \<Rightarrow> (int \<times> 'h vfs_state) outcome) \<Rightarrow> (int \<times> 'h vfs_state) outcome" where
  "or_bad_address r s f = (case r of None \<Rightarrow> Returns (B_BAD_ADDRESS, s) | Some x \<Rightarrow> f x)"

section \<open>Descriptors\<close>

definition known_path :: "haiku_stat \<Rightarrow> fpath \<Rightarrow> 'h vfs_state \<Rightarrow> 'h vfs_state" where
  "known_path st p s =
    s\<lparr>vst_vfs := snd (RegisterEntryRef (ref_of (st_dev st) (st_ino st)) (path_string p) (vst_vfs s))\<rparr>"

abbreviation state_ReadStat ::
    "'h call_env \<Rightarrow> hserver_context \<Rightarrow> 'h vfs_state \<Rightarrow> fpath \<Rightarrow> bool \<Rightarrow> (int \<times> haiku_stat) outcome" where
  "state_ReadStat e c s p traverse \<equiv>
    Vfs_ReadStat (ce_rounds e) (team_env e c s) (vs_deviceMounts (vst_vfs s)) (vst_host s) p traverse (ce_stat e)"

definition call_register_fd ::
    "'h call_env \<Rightarrow> hserver_context \<Rightarrow> int \<Rightarrow> int \<Rightarrow> int \<Rightarrow> int \<Rightarrow> bool \<Rightarrow> 'h vfs_state \<Rightarrow>
      (int \<times> 'h vfs_state) outcome" where
  "call_register_fd e c fd parentFd userPath userPathSize traverseSymlink s =
    with_path e c parentFd userPath userPathSize traverseSymlink s (\<lambda>p.
      let p = lexically_normal p;
          s1 = with_team c (\<lambda>t. Process_RegisterFd t fd (path_string p)) s
      in bind_outcome (state_ReadStat e c s1 p True) (\<lambda>(status, st).
           Returns (status, if status = B_OK then known_path st p s1 else s1)))"

definition call_register_fd1 ::
    "'h call_env \<Rightarrow> hserver_context \<Rightarrow> int \<Rightarrow> int \<Rightarrow> int \<Rightarrow> int \<Rightarrow> int \<Rightarrow> 'h vfs_state \<Rightarrow>
      (int \<times> 'h vfs_state) outcome" where
  "call_register_fd1 e c fd dev ino userName userNameSize s =
    (case GetEntryRef (vst_vfs s) (EntryRef dev ino) of
       None \<Rightarrow> Returns (B_ENTRY_NOT_FOUND, s)
     | Some p \<Rightarrow>
         or_bad_address (team_read e c s userName userNameSize) s (\<lambda>name.
           let q = (if name \<noteq> [] \<and> name \<noteq> ''.'' then fp_append (parse_path p) (parse_path name)
                    else parse_path p)
           in Returns (B_OK,
             with_team c (\<lambda>t. Process_RegisterFd t fd (path_string (lexically_normal q))) s)))"

definition call_register_parent_dir_fd ::
    "'h call_env \<Rightarrow> hserver_context \<Rightarrow> int \<Rightarrow> int \<Rightarrow> int \<Rightarrow> int \<Rightarrow> 'h vfs_state \<Rightarrow>
      (int \<times> 'h vfs_state) outcome" where
  "call_register_parent_dir_fd e c fd originalFd userName userNameSize s =
    with_fd c originalFd s (\<lambda>orig.
      let p = fp_parent orig; name = fp_filename orig in
      if int (length name) \<ge> userNameSize then Returns (B_BUFFER_OVERFLOW, s)
      else
        (let (r, s1) = team_reply e c userName (c_bytes name) B_OK s in
         if r \<noteq> B_OK then Returns (r, s1)
         else
           (let s2 = with_team c (\<lambda>t. Process_RegisterFd t fd (path_string p)) s1 in
            bind_outcome (state_ReadStat e c s2 p True) (\<lambda>(status, st).
              Returns (B_OK, if status = B_OK then known_path st p s2 else s2)))))"

definition call_register_dup_fd ::
    "hserver_context \<Rightarrow> int \<Rightarrow> int \<Rightarrow> 'h vfs_state \<Rightarrow> (int \<times> 'h vfs_state) outcome" where
  "call_register_dup_fd c fd oldFd s =
    (case Process_GetFd (team_of c s) oldFd of
       None \<Rightarrow> Returns (HAIKU_POSIX_EBADF, s)
     | Some p \<Rightarrow> Returns (B_OK, with_team c (\<lambda>t. Process_RegisterFd t fd p) s))"

abbreviation state_GetAttrPath ::
    "'h call_env \<Rightarrow> hserver_context \<Rightarrow> 'h vfs_state \<Rightarrow> string \<Rightarrow> byte list \<Rightarrow> bool \<Rightarrow> fpath \<Rightarrow> bool \<Rightarrow>
      (int \<times> fpath \<times> 'h) outcome" where
  "state_GetAttrPath e c s name ty createNew p traverse \<equiv>
    Vfs_GetAttrPath (ce_rounds e) (team_env e c s) (vs_deviceMounts (vst_vfs s)) name ty createNew p traverse
      (vst_host s)"

definition call_register_attr_fd ::
    "'h call_env \<Rightarrow> hserver_context \<Rightarrow> int \<Rightarrow> int \<Rightarrow> int \<Rightarrow> int \<Rightarrow> bool \<Rightarrow> 'h vfs_state \<Rightarrow>
      (int \<times> 'h vfs_state) outcome" where
  "call_register_attr_fd e c fd parentFd userPathAndSize userNameAndSize traverseSymlink s =
    or_bad_address (read_pair e c s userPathAndSize) s (\<lambda>(addr, n).
      with_path e c parentFd addr n traverseSymlink s (\<lambda>p.
        or_bad_address (read_string e c s userNameAndSize) s (\<lambda>name.
          bind_outcome (state_GetAttrPath e c s name (le_bytes 4 0) False p False) (\<lambda>(status, q, h).
            if status \<noteq> B_OK then Returns (status, s\<lparr>vst_host := h\<rparr>)
            else Returns (B_OK,
              with_team c (\<lambda>t. Process_RegisterFd t fd (path_string q)) (s\<lparr>vst_host := h\<rparr>))))))"

definition call_unregister_fd :: "hserver_context \<Rightarrow> int \<Rightarrow> 'h vfs_state \<Rightarrow> int \<times> 'h vfs_state" where
  "call_unregister_fd c fd s = (B_OK, with_team c (\<lambda>t. Process_UnregisterFd t fd) s)"

section \<open>Working directory and root\<close>

definition set_cwd :: "path \<Rightarrow> process \<Rightarrow> process" where "set_cwd p t = t\<lparr>p_cwd := p\<rparr>"
definition set_root :: "path \<Rightarrow> process \<Rightarrow> process" where "set_root p t = t\<lparr>p_root := p\<rparr>"

definition call_setcwd ::
    "'h call_env \<Rightarrow> hserver_context \<Rightarrow> int \<Rightarrow> int \<Rightarrow> int \<Rightarrow> bool \<Rightarrow> 'h vfs_state \<Rightarrow>
      (int \<times> 'h vfs_state) outcome" where
  "call_setcwd e c fd userPath userPathSize respectChroot s =
    (if respectChroot then
       with_path e c fd userPath userPathSize True s (\<lambda>p.
         Returns (B_OK, with_team c (set_cwd (path_string (lexically_normal p))) s))
     else if \<not> HAIKU_IS_AT_FDCWD fd then Returns (B_BAD_VALUE, s)
     else or_bad_address (team_read e c s userPath userPathSize) s (\<lambda>p.
       Returns (B_OK, with_team c (set_cwd p) s)))"

definition cwd_string :: "process \<Rightarrow> bool \<Rightarrow> string" where
  "cwd_string t respectChroot =
    (if respectChroot then
       (let r = path_string (lexically_relative (parse_path (p_cwd t)) (parse_path (p_root t))) in
        if take 2 r = ''..'' then p_cwd t
        else if r = ''.'' then ''/''
        else ''/'' @ r)
     else p_cwd t)"

definition call_getcwd ::
    "'h call_env \<Rightarrow> hserver_context \<Rightarrow> int \<Rightarrow> int \<Rightarrow> bool \<Rightarrow> 'h vfs_state \<Rightarrow> int \<times> 'h vfs_state" where
  "call_getcwd e c userBuffer userSize respectChroot s =
    (let cwd = cwd_string (team_of c s) respectChroot in
     if int (length cwd) \<ge> userSize then (B_BUFFER_OVERFLOW, s)
     else team_reply e c userBuffer (c_bytes cwd) B_OK s)"

definition call_change_root ::
    "'h call_env \<Rightarrow> hserver_context \<Rightarrow> int \<Rightarrow> int \<Rightarrow> bool \<Rightarrow> 'h vfs_state \<Rightarrow> (int \<times> 'h vfs_state) outcome" where
  "call_change_root e c userPath userPathSize respectChroot s =
    (if respectChroot then
       with_path e c HAIKU_AT_FDCWD userPath userPathSize True s (\<lambda>p.
         Returns (B_OK, with_team c (set_cwd (path_string p) \<circ> set_root (path_string p)) s))
     else or_bad_address (team_read e c s userPath userPathSize) s (\<lambda>p.
       Returns (B_OK, with_team c (set_root p) s)))"

definition call_get_root ::
    "'h call_env \<Rightarrow> hserver_context \<Rightarrow> int \<Rightarrow> int \<Rightarrow> 'h vfs_state \<Rightarrow> int \<times> 'h vfs_state" where
  "call_get_root e c userPath userPathSize s =
    (let root = p_root (team_of c s) in
     if int (length root) \<ge> userPathSize then (B_BUFFER_OVERFLOW, s)
     else team_reply e c userPath (c_bytes root) B_OK s)"

section \<open>Entry references\<close>

text \<open>\<open>"/" / path.lexically_relative(root)\<close> for a path below the root.\<close>

definition seen_from_root :: "process \<Rightarrow> fpath \<Rightarrow> fpath" where
  "seen_from_root t p =
    (let root = parse_path (p_root t) in
     if fp_under p root then fp_append fp_root (lexically_relative p root) else p)"

definition call_get_entry_ref ::
    "'h call_env \<Rightarrow> hserver_context \<Rightarrow> int \<Rightarrow> int \<Rightarrow> int \<Rightarrow> int \<Rightarrow> bool \<Rightarrow> 'h vfs_state \<Rightarrow>
      (int \<times> 'h vfs_state) outcome" where
  "call_get_entry_ref e c device inode userNameAndSize userPathAndSize traverseLinks s =
    or_bad_address (read_pair e c s userNameAndSize) s (\<lambda>(nameAddr, nameSize).
      or_bad_address (if nameSize > 0 then team_read e c s nameAddr nameSize else Some []) s (\<lambda>name.
        case GetEntryRef (vst_vfs s) (EntryRef device inode) of
          None \<Rightarrow> Returns (B_ENTRY_NOT_FOUND, s)
        | Some pathStr \<Rightarrow>
            bind_outcome
              (if name \<noteq> [] \<and> name \<noteq> ''.'' then
                 bind_outcome
                   (if traverseLinks
                    then Vfs_RealPath (ce_rounds e) (team_env e c s) (vs_deviceMounts (vst_vfs s)) (vst_host s)
                           (fp_append (parse_path pathStr) (parse_path name))
                    else Returns (B_OK, fp_append (parse_path pathStr) (parse_path name))) (\<lambda>(status, p).
                   Returns (status, drop_slash (lexically_normal p)))
               else Returns (B_OK, parse_path pathStr)) (\<lambda>(status, p).
              if status \<noteq> B_OK then Returns (status, s)
              else
                (let q = path_string (seen_from_root (team_of c s) p); copyLen = int (length q) + 1 in
                 or_bad_address (read_pair e c s userPathAndSize) s (\<lambda>(addr, n).
                   if copyLen > n then Returns (B_BUFFER_OVERFLOW, s)
                   else Returns (team_reply e c addr (c_bytes q) copyLen s))))))"

definition call_register_entry_ref ::
    "hserver_context \<Rightarrow> int \<Rightarrow> int \<Rightarrow> int \<Rightarrow> 'h vfs_state \<Rightarrow> int \<times> 'h vfs_state" where
  "call_register_entry_ref c device inode fd s =
    (case Process_GetFd (team_of c s) fd of
       None \<Rightarrow> (HAIKU_POSIX_EBADF, s)
     | Some p \<Rightarrow> (B_OK, s\<lparr>vst_vfs := snd (RegisterEntryRef (EntryRef device inode) p (vst_vfs s))\<rparr>))"

definition call_register_entry_ref_child ::
    "'h call_env \<Rightarrow> hserver_context \<Rightarrow> int \<Rightarrow> int \<Rightarrow> int \<Rightarrow> int \<Rightarrow> int \<Rightarrow> int \<Rightarrow> 'h vfs_state \<Rightarrow> int \<times> 'h vfs_state" where
  "call_register_entry_ref_child e c pdevice pinode device inode userPath userPathLength s =
    (case team_read e c s userPath userPathLength of
       None \<Rightarrow> (B_BAD_ADDRESS, s)
     | Some bs \<Rightarrow>
         (case GetEntryRef (vst_vfs s) (EntryRef pdevice pinode) of
            None \<Rightarrow> (B_ENTRY_NOT_FOUND, s)
          | Some parentPath \<Rightarrow>
              (B_OK, s\<lparr>vst_vfs := snd (RegisterEntryRef (EntryRef device inode)
                 (parentPath @ ''/'' @ cstr bs) (vst_vfs s))\<rparr>)))"

end
