(* ===== verification/FileCalls.thy ===== *)
theory FileCalls
  imports VfsCalls
begin

text \<open>
  The server calls of \<^verbatim>\<open>hyclone_server/server_filesystem.cpp\<close>: volumes, stat structures,
  attributes, directory entries and path translation. The structures that cross to the guest are
  laid out byte by byte as on x86-64. \<open>ioctl\<close> is not modelled: only the package file system
  answers it, from the library that reads packages.
\<close>

section \<open>Structures as bytes\<close>

definition padding :: "byte list \<Rightarrow> nat \<Rightarrow> byte list" where
  "padding junk n = take n (junk @ replicate n (CHR 0x00))"

definition c_field :: "nat \<Rightarrow> string \<Rightarrow> byte list" where
  "c_field n s = take n (s @ replicate n (CHR 0x00))"

definition le_at :: "byte list \<Rightarrow> nat \<Rightarrow> nat \<Rightarrow> int" where
  "le_at bs i n = le_val (take n (drop i bs))"

definition overwrite :: "nat \<Rightarrow> byte list \<Rightarrow> byte list \<Rightarrow> byte list" where
  "overwrite i new bs = take i bs @ new @ drop (i + length new) bs"

definition timespec_bytes :: "int \<times> int \<Rightarrow> byte list" where
  "timespec_bytes t = le_bytes 8 (fst t) @ le_bytes 8 (snd t)"

definition haiku_stat_bytes :: "byte list \<Rightarrow> haiku_stat \<Rightarrow> byte list" where
  "haiku_stat_bytes junk st =
    le_bytes 4 (st_dev st) @ padding junk 4 @ le_bytes 8 (st_ino st) @ le_bytes 4 (st_mode st) @
    le_bytes 4 (st_nlink st) @ le_bytes 4 (st_uid st) @ le_bytes 4 (st_gid st) @ le_bytes 8 (st_size st) @
    le_bytes 4 (st_rdev st) @ le_bytes 4 (st_blksize st) @ timespec_bytes (st_atim st) @
    timespec_bytes (st_mtim st) @ timespec_bytes (st_ctim st) @ timespec_bytes (st_crtim st) @
    le_bytes 4 (st_type st) @ padding junk 4 @ le_bytes 8 (st_blocks st)"

definition sizeof_haiku_stat :: int where "sizeof_haiku_stat = 128"

definition timespec_at :: "byte list \<Rightarrow> nat \<Rightarrow> int \<times> int" where
  "timespec_at bs i = (to_int64 (le_at bs i 8), to_int64 (le_at bs (i + 8) 8))"

definition haiku_stat_of_bytes :: "byte list \<Rightarrow> haiku_stat" where
  "haiku_stat_of_bytes bs =
    \<lparr>st_dev = to_int32 (le_at bs 0 4), st_ino = to_int64 (le_at bs 8 8), st_mode = le_at bs 16 4,
     st_nlink = to_int32 (le_at bs 20 4), st_uid = le_at bs 24 4, st_gid = le_at bs 28 4,
     st_size = to_int64 (le_at bs 32 8), st_rdev = to_int32 (le_at bs 40 4),
     st_blksize = to_int32 (le_at bs 44 4), st_atim = timespec_at bs 48, st_mtim = timespec_at bs 64,
     st_ctim = timespec_at bs 80, st_crtim = timespec_at bs 96, st_type = le_at bs 112 4,
     st_blocks = to_int64 (le_at bs 120 8)\<rparr>"

definition fs_info_bytes :: "byte list \<Rightarrow> fs_info \<Rightarrow> byte list" where
  "fs_info_bytes junk x =
    le_bytes 4 (fi_dev x) @ padding junk 4 @ le_bytes 8 (fi_root x) @ le_bytes 4 (fi_flags x) @
    padding junk 4 @ le_bytes 8 (fi_block_size x) @ le_bytes 8 (fi_io_size x) @
    le_bytes 8 (fi_total_blocks x) @ le_bytes 8 (fi_free_blocks x) @ le_bytes 8 (fi_total_nodes x) @
    le_bytes 8 (fi_free_nodes x) @ c_field 128 (fi_device_name x) @ c_field 256 (fi_volume_name x) @
    c_field 32 (fi_fsh_name x)"

text \<open>The four bytes after the type are padding and keep what the guest sent.\<close>

definition attr_info_of_bytes :: "byte list \<Rightarrow> attr_info" where
  "attr_info_of_bytes bs = \<lparr>at_type = take 4 bs, at_size = to_int64 (le_at bs 8 8)\<rparr>"

definition attr_info_bytes :: "byte list \<Rightarrow> attr_info \<Rightarrow> byte list" where
  "attr_info_bytes bs x = at_type x @ take 4 (drop 4 bs) @ le_bytes 8 (at_size x)"

text \<open>
  A directory entry is read in the buffer it was copied to. \<open>None\<close> if the buffer ends before the
  name does.
\<close>

definition dirent_of_bytes :: "byte list \<Rightarrow> haiku_dirent option" where
  "dirent_of_bytes bs =
    (if CHR 0x00 \<in> set (drop 26 bs)
     then Some \<lparr>d_dev = to_int32 (le_at bs 0 4), d_ino = to_int64 (le_at bs 8 8), d_reclen = le_at bs 24 2,
            d_name = cstr (drop 26 bs)\<rparr>
     else None)"

definition dirent_bytes :: "byte list \<Rightarrow> haiku_dirent \<Rightarrow> byte list" where
  "dirent_bytes bs x =
    overwrite 26 (c_bytes (d_name x)) (overwrite 24 (le_bytes 2 (d_reclen x))
      (overwrite 8 (le_bytes 8 (d_ino x)) (overwrite 0 (le_bytes 4 (d_dev x)) bs)))"

section \<open>Volumes\<close>

definition call_read_fs_info ::
    "'h call_env \<Rightarrow> hserver_context \<Rightarrow> int \<Rightarrow> int \<Rightarrow> 'h vfs_state \<Rightarrow> int \<times> 'h vfs_state" where
  "call_read_fs_info e c deviceId info s =
    (case VfsService_GetDevice (vst_vfs s) deviceId of
       None \<Rightarrow> (B_BAD_VALUE, s)
     | Some d \<Rightarrow> team_reply e c info (fs_info_bytes (ce_pad e) (dv_info d)) B_OK s)"

lemma IdMap_NextId_above: "IdMap_NextId m i \<noteq> -1 \<Longrightarrow> i < IdMap_NextId m i \<and> i < IdMap_MaxId m"
proof (induction m i rule: IdMap_NextId.induct)
  case (1 m i)
  then show ?case
    using IdMap_NextId.simps [of m i] by (auto split: if_splits)
qed

text \<open>The next device from \<open>cookie\<close> on, with the number it was found at.\<close>

function next_device_loop :: "'h vfs_service \<Rightarrow> int \<Rightarrow> (vfs_device \<times> int) option" where
  "next_device_loop v cookie =
    (case VfsService_GetDevice v cookie of
       Some d \<Rightarrow> Some (d, cookie)
     | None \<Rightarrow>
         (let next = VfsService_NextDeviceId v cookie in
          if next = -1 then None else next_device_loop v next))"
  by pat_completeness auto
termination
  by (relation "measure (\<lambda>(v, i). nat (IdMap_MaxId (vs_devices v) - i))")
    (auto simp: VfsService_NextDeviceId_def dest: IdMap_NextId_above)

declare next_device_loop.simps [simp del]

definition call_next_device ::
    "'h call_env \<Rightarrow> hserver_context \<Rightarrow> int \<Rightarrow> 'h vfs_state \<Rightarrow> int \<times> 'h vfs_state" where
  "call_next_device e c userCookie s =
    (case team_read e c s userCookie 4 of
       None \<Rightarrow> (B_BAD_ADDRESS, s)
     | Some bs \<Rightarrow>
         (let cookie = dec_int32 bs in
          if cookie = -1 then (B_BAD_VALUE, s)
          else case next_device_loop (vst_vfs s) cookie of
              None \<Rightarrow> (B_BAD_VALUE, s)
            | Some (d, cookie) \<Rightarrow>
                team_reply e c userCookie (le_bytes 4 (VfsService_NextDeviceId (vst_vfs s) cookie)) (GetId d) s))"

section \<open>Mounting\<close>

definition call_mount ::
    "'h call_env \<Rightarrow> hserver_context \<Rightarrow> int \<Rightarrow> int \<Rightarrow> int \<Rightarrow> int \<Rightarrow> int \<Rightarrow> int \<Rightarrow> 'h vfs_state \<Rightarrow>
      (int \<times> 'h vfs_state) outcome" where
  "call_mount e c userPathAndSize userDeviceAndSize userFsNameAndSize flags userArgs userArgsSize s =
    or_bad_address (read_pair e c s userPathAndSize) s (\<lambda>(addr, n).
      with_path e c HAIKU_AT_FDCWD addr n True s (\<lambda>p.
        or_bad_address (read_string e c s userDeviceAndSize) s (\<lambda>device.
          or_bad_address (read_string e c s userFsNameAndSize) s (\<lambda>fsName.
            or_bad_address (team_read e c s userArgs userArgsSize) s (\<lambda>args.
              bind_outcome (Vfs_Mount (ce_rounds e) (team_env e c s) (ce_stat e) p (parse_path device) fsName
                  flags args (vst_host s) (vst_vfs s)) (\<lambda>(r, h, v).
                Returns (r, s\<lparr>vst_host := h, vst_vfs := v\<rparr>)))))))"

definition call_unmount ::
    "'h call_env \<Rightarrow> hserver_context \<Rightarrow> int \<Rightarrow> int \<Rightarrow> int \<Rightarrow> 'h vfs_state \<Rightarrow> (int \<times> 'h vfs_state) outcome" where
  "call_unmount e c userPath userPathSize flags s =
    with_path e c HAIKU_AT_FDCWD userPath userPathSize True s (\<lambda>p.
      bind_outcome (Vfs_Unmount (ce_rounds e) (team_env e c s) p (vst_host s) (vst_vfs s)) (\<lambda>(r, h, v).
        Returns (r, s\<lparr>vst_host := h, vst_vfs := v\<rparr>)))"

section \<open>Stat structures\<close>

text \<open>The number of bytes written is the guest's; beyond the structure it is the server's stack.\<close>

definition call_read_stat ::
    "'h call_env \<Rightarrow> hserver_context \<Rightarrow> int \<Rightarrow> int \<Rightarrow> int \<Rightarrow> bool \<Rightarrow> int \<Rightarrow> int \<Rightarrow> 'h vfs_state \<Rightarrow>
      (int \<times> 'h vfs_state) outcome" where
  "call_read_stat e c fd userPath userPathSize traverseSymlink userStatBuf userStatSize s =
    with_path e c fd userPath userPathSize traverseSymlink s (\<lambda>p.
      bind_outcome (state_ReadStat e c s p traverseSymlink) (\<lambda>(status, st).
        if status \<noteq> B_OK then Returns (status, s)
        else if userStatSize > sizeof_haiku_stat then Undefined
        else Returns (team_reply e c userStatBuf
          (take (nat userStatSize) (haiku_stat_bytes (ce_pad e) st)) B_OK s)))"

definition call_write_stat ::
    "'h call_env \<Rightarrow> hserver_context \<Rightarrow> int \<Rightarrow> int \<Rightarrow> int \<Rightarrow> bool \<Rightarrow> int \<Rightarrow> int \<Rightarrow> 'h vfs_state \<Rightarrow>
      (int \<times> 'h vfs_state) outcome" where
  "call_write_stat e c fd userPath userPathSize traverseSymlink userStatBuf statMask s =
    with_path e c fd userPath userPathSize traverseSymlink s (\<lambda>p.
      or_bad_address (team_read e c s userStatBuf sizeof_haiku_stat) s (\<lambda>bs.
        bind_outcome (Vfs_WriteStat (ce_rounds e) (team_env e c s) (vs_deviceMounts (vst_vfs s))
            (haiku_stat_of_bytes bs) statMask p traverseSymlink (vst_host s)) (\<lambda>(status, h).
          Returns (status, s\<lparr>vst_host := h\<rparr>))))"

section \<open>Attributes\<close>

definition call_stat_attr ::
    "'h call_env \<Rightarrow> hserver_context \<Rightarrow> int \<Rightarrow> int \<Rightarrow> int \<Rightarrow> int \<Rightarrow> 'h vfs_state \<Rightarrow> (int \<times> 'h vfs_state) outcome" where
  "call_stat_attr e c fd userName userNameSize userAttrInfo s =
    or_bad_address (team_read e c s userName userNameSize) s (\<lambda>name.
      or_bad_address (team_read e c s userAttrInfo 16) s (\<lambda>bs.
        with_fd c fd s (\<lambda>p.
          bind_outcome (Vfs_StatAttr (ce_rounds e) (team_env e c s) (vs_deviceMounts (vst_vfs s)) (vst_host s)
              name p (attr_info_of_bytes bs)) (\<lambda>(status, info).
            if status \<noteq> B_OK then Returns (status, s)
            else Returns (team_reply e c userAttrInfo (attr_info_bytes bs info) B_OK s)))))"

definition call_read_attr ::
    "'h call_env \<Rightarrow> hserver_context \<Rightarrow> int \<Rightarrow> int \<Rightarrow> int \<Rightarrow> int \<Rightarrow> int \<Rightarrow> int \<Rightarrow> 'h vfs_state \<Rightarrow>
      (int \<times> 'h vfs_state) outcome" where
  "call_read_attr e c fd userName userNameSize pos userBuffer userBufferSize s =
    with_fd c fd s (\<lambda>p.
      or_bad_address (team_read e c s userName userNameSize) s (\<lambda>name.
        bind_outcome (Vfs_ReadAttr (ce_rounds e) (team_env e c s) (vs_deviceMounts (vst_vfs s)) (vst_host s)
            name (nat pos) p (replicate (nat userBufferSize) (CHR 0x00))) (\<lambda>(status, buf).
          if status < 0 then Returns (status, s)
          else Returns (team_reply e c userBuffer buf status s))))"

definition call_write_attr ::
    "'h call_env \<Rightarrow> hserver_context \<Rightarrow> int \<Rightarrow> int \<Rightarrow> int \<Rightarrow> int \<Rightarrow> int \<Rightarrow> int \<Rightarrow> 'h vfs_state \<Rightarrow>
      (int \<times> 'h vfs_state) outcome" where
  "call_write_attr e c fd userNameAndSize type pos userBuffer userBufferSize s =
    with_fd c fd s (\<lambda>p.
      or_bad_address (read_string e c s userNameAndSize) s (\<lambda>name.
        or_bad_address (team_read e c s userBuffer userBufferSize) s (\<lambda>buf.
          bind_outcome (Vfs_WriteAttr (ce_rounds e) (team_env e c s) (vs_deviceMounts (vst_vfs s)) name
              (le_bytes 4 type) (nat pos) buf p (vst_host s)) (\<lambda>(r, h). Returns (r, s\<lparr>vst_host := h\<rparr>)))))"

definition call_remove_attr ::
    "'h call_env \<Rightarrow> hserver_context \<Rightarrow> int \<Rightarrow> int \<Rightarrow> int \<Rightarrow> 'h vfs_state \<Rightarrow> (int \<times> 'h vfs_state) outcome" where
  "call_remove_attr e c fd userName userNameSize s =
    with_fd c fd s (\<lambda>p.
      or_bad_address (team_read e c s userName userNameSize) s (\<lambda>name.
        bind_outcome (Vfs_RemoveAttr (ce_rounds e) (team_env e c s) (vs_deviceMounts (vst_vfs s)) name p
            (vst_host s)) (\<lambda>(r, h). Returns (r, s\<lparr>vst_host := h\<rparr>))))"

definition HAIKU_O_CREAT :: int where "HAIKU_O_CREAT = 0x0200"

definition call_get_attr_path ::
    "'h call_env \<Rightarrow> hserver_context \<Rightarrow> int \<Rightarrow> int \<Rightarrow> int \<Rightarrow> int \<Rightarrow> int \<Rightarrow> int \<Rightarrow> 'h vfs_state \<Rightarrow>
      (int \<times> 'h vfs_state) outcome" where
  "call_get_attr_path e c fd userPathAndSize userNameAndSize type openMode userHostPathAndSize s =
    (let createNew = (openMode AND HAIKU_O_CREAT \<noteq> 0) in
     or_bad_address (read_pair e c s userPathAndSize) s (\<lambda>(addr, n).
      with_path e c fd addr n False s (\<lambda>p.
       or_bad_address (read_string e c s userNameAndSize) s (\<lambda>name.
        bind_outcome (state_GetAttrPath e c s name (le_bytes 4 type) createNew p False) (\<lambda>(status, q, h).
         let s1 = s\<lparr>vst_host := h\<rparr> in
         if status \<noteq> B_OK then Returns (status, s1)
         else bind_outcome (Vfs_GetPath (ce_rounds e) (team_env e c s1) (vs_deviceMounts (vst_vfs s1))
             (vst_host s1) q False) (\<lambda>(status, hp).
           if status \<noteq> B_OK \<and> status \<noteq> B_ENTRY_NOT_FOUND then Returns (status, s1)
           else if status = B_ENTRY_NOT_FOUND \<and> \<not> createNew then Returns (status, s1)
           else or_bad_address (read_pair e c s1 userHostPathAndSize) s1 (\<lambda>(addr, n).
             if int (length (path_string hp)) \<ge> n then Returns (B_NAME_TOO_LONG, s1)
             else Returns (team_reply e c addr (c_bytes (path_string hp)) 0 s1))))))))"

section \<open>Paths\<close>

definition call_normalize_path ::
    "'h call_env \<Rightarrow> hserver_context \<Rightarrow> int \<Rightarrow> int \<Rightarrow> bool \<Rightarrow> int \<Rightarrow> int \<Rightarrow> 'h vfs_state \<Rightarrow>
      (int \<times> 'h vfs_state) outcome" where
  "call_normalize_path e c userPath userPathSize traverseLink userBuffer userBufferSize s =
    with_path e c HAIKU_AT_FDCWD userPath userPathSize traverseLink s (\<lambda>p.
      let q = path_string (seen_from_root (team_of c s) p) in
      if int (length q) + 1 > userBufferSize then Returns (B_BUFFER_OVERFLOW, s)
      else Returns (team_reply e c userBuffer (c_bytes q) B_OK s))"

definition call_vchroot_expandat ::
    "'h call_env \<Rightarrow> hserver_context \<Rightarrow> int \<Rightarrow> int \<Rightarrow> int \<Rightarrow> bool \<Rightarrow> int \<Rightarrow> int \<Rightarrow> 'h vfs_state \<Rightarrow>
      (int \<times> 'h vfs_state) outcome" where
  "call_vchroot_expandat e c fd userPath userPathSize traverseSymlink userBuffer userBufferSize s =
    with_path e c fd userPath userPathSize traverseSymlink s (\<lambda>p.
      bind_outcome (Vfs_GetPath (ce_rounds e) (team_env e c s) (vs_deviceMounts (vst_vfs s)) (vst_host s) p
          traverseSymlink) (\<lambda>(status, q).
        if status \<noteq> B_OK \<and> status \<noteq> B_ENTRY_NOT_FOUND then Returns (status, s)
        else if int (length (path_string q)) \<ge> userBufferSize then Returns (B_NAME_TOO_LONG, s)
        else Returns (team_reply e c userBuffer (c_bytes (path_string q)) status s)))"

section \<open>Directory entries\<close>

text \<open>
  As many bytes are written back as the entry says it is long, whatever the size of the buffer.
  A buffer that does not hold an entry with a terminated name is undefined behaviour from the
  start here.
\<close>

definition call_transform_dirent ::
    "'h call_env \<Rightarrow> hserver_context \<Rightarrow> int \<Rightarrow> int \<Rightarrow> int \<Rightarrow> 'h vfs_state \<Rightarrow> (int \<times> 'h vfs_state) outcome" where
  "call_transform_dirent e c fd userEntry userEntrySize s =
    or_bad_address (team_read e c s userEntry userEntrySize) s (\<lambda>bs.
      with_fd c fd s (\<lambda>p.
        case dirent_of_bytes bs of
          None \<Rightarrow> Undefined
        | Some entry \<Rightarrow>
            bind_outcome (Vfs_TransformDirent (ce_rounds e) (team_env e c s) (vs_deviceMounts (vst_vfs s))
                (vst_host s) (ce_stat e) p (entry, vs_entryRefs (vst_vfs s))) (\<lambda>(status, entry', refs).
              let s1 = s\<lparr>vst_vfs := (vst_vfs s)\<lparr>vs_entryRefs := refs\<rparr>\<rparr>; bs' = dirent_bytes bs entry' in
              if status < 0 then Returns (status, s1)
              else if status > int (length bs') then Undefined
              else Returns (team_reply e c userEntry (take (nat status) bs') status s1))))"

end
