(* ===== verification/PathSafety.thy ===== *)
theory PathSafety
  imports FileCalls
begin

text \<open>
  What the paths of the calls promise: every path the server keeps for a team or an inode is
  absolute, so that the assertions of the virtual file system hold, and the host paths handed to a
  guest stay in the mounted directories.
\<close>

section \<open>Absolute paths stay absolute\<close>

lemma parse_path_abs [simp]: "fp_abs (parse_path p) = is_absolute p"
  by (simp add: parse_path_def)

lemma path_string_abs: "fp_abs p \<Longrightarrow> is_absolute (path_string p)"
  by (simp add: path_string_def is_absolute_def)

lemma fp_parent_abs [simp]: "fp_abs (fp_parent p) = fp_abs p"
  by (simp add: fp_parent_def)

lemma lexically_normal_abs: "fp_abs p \<Longrightarrow> fp_abs (lexically_normal p)"
  using normal_path_normal normal_path_abs by blast

lemma fold_append_abs: "fp_abs p \<Longrightarrow> fp_abs (foldl (\<lambda>q x. fp_append q (f x)) p xs)"
  by (induction xs arbitrary: p) (simp_all add: fp_append_abs)

definition abs_device :: "vfs_device \<Rightarrow> bool" where
  "abs_device d \<longleftrightarrow> fp_abs (dv_root d) \<and> (\<forall>b. dv_class d = BindfsDevice b \<longrightarrow> fp_abs b)"

definition abs_mounts :: "mounts \<Rightarrow> bool" where
  "abs_mounts m \<longleftrightarrow> (\<forall>r d. m r = Some d \<longrightarrow> abs_device d)"

lemma abs_device_root: "abs_device d \<Longrightarrow> fp_abs (dv_root d)"
  by (simp add: abs_device_def)

text \<open>\<open>ok\<close> says for which results the path matters.\<close>

lemma DoWork_loop_abs:
  assumes "abs_mounts m" and "ok B_OK"
    and f: "\<And>p d s st q b s'. fp_abs p \<Longrightarrow> abs_device d \<Longrightarrow> ok st \<Longrightarrow>
      f p d t s = Returns (st, q, b, s') \<Longrightarrow> fp_abs q"
    and "fp_abs p" and "ok st" and "DoWork_loop n m f t p s = Returns (st, q, s')"
  shows "fp_abs q"
  using assms(4,6)
proof (induction n arbitrary: p s)
  case (Suc n)
  obtain r where r: "find_drive m p = Some r"
    using Suc.prems(2) by (auto split: option.splits)
  show ?case
  proof (cases "m r")
    case None
    then show ?thesis using Suc.prems r by simp
  next
    case (Some d)
    obtain st1 q1 b1 s1 where w: "f p d t s = Returns (st1, q1, b1, s1)"
      using Suc.prems(2) r Some by (auto elim!: bind_outcome_ReturnsE)
    have "st1 = B_OK \<or> st1 = st" using Suc.prems(2) r Some w by (auto split: if_splits)
    then have "fp_abs q1"
      using f [OF Suc.prems(1) _ _ w] assms(1,2,5) Some by (auto simp: abs_mounts_def)
    then show ?thesis
      using Suc.prems(2) r Some w Suc.IH [of q1 s1] by (auto split: if_splits)
  qed
qed simp

lemma DoWork_abs:
  assumes "abs_mounts m" and "ok B_OK"
    and "\<And>p d s st q b s'. fp_abs p \<Longrightarrow> abs_device d \<Longrightarrow> ok st \<Longrightarrow>
      f p d t s = Returns (st, q, b, s') \<Longrightarrow> fp_abs q"
    and "fp_abs p" and "ok st" and "DoWork n m f t p s = Returns (st, q, s')"
  shows "fp_abs q"
  by (rule DoWork_loop_abs [where ok = ok, OF assms(1-3) _ assms(5) assms(6) [unfolded DoWork_def]])
    (use assms(4) in \<open>simp_all add: lexically_normal_abs\<close>)

lemma DoWork_state:
  assumes f: "\<And>p d s st q b s'. P s \<Longrightarrow> f p d t s = Returns (st, q, b, s') \<Longrightarrow> P s'"
    and "P s" and "DoWork n m f t p s = Returns (st, q, s')"
  shows "P s'"
proof -
  have "P s \<Longrightarrow> DoWork_loop n m f t p s = Returns (st, q, s') \<Longrightarrow> P s'" for p
  proof (induction n arbitrary: p s)
    case (Suc n)
    then show ?case
      using f by (auto split: option.splits if_splits elim!: bind_outcome_ReturnsE) blast+
  qed simp
  then show ?thesis using assms(2,3) unfolding DoWork_def by blast
qed

lemma hostfs_walk_abs:
  assumes "fp_abs p" and "fp_abs (env_root env)" and "hostfs_walk env h b orig ec hp p es = Returns (s, q, True)"
  shows "fp_abs q"
  using assms(1,3)
proof (induction es arbitrary: ec hp p)
  case (Cons e es)
  have a: "fp_abs (fp_append p (fp_name e))" using Cons.prems(1) by (simp add: fp_append_abs)
  show ?case
    using Cons.prems(2) Cons.IH [OF a] a normal_path_abs [OF link_target_normal [OF assms(2) a]]
    by (auto simp: Let_def cpp_result_def split: prod.splits sum.splits if_splits option.splits)
qed simp

lemma hostfs_RealPath_abs:
  assumes "fp_abs p" and "fp_abs (dv_root d)" and "fp_abs (env_root env)"
    and "HostfsDevice_RealPath env h d hr p b = Returns (s, q, b')"
  shows "fp_abs q"
proof -
  obtain st r l where g: "HostfsDevice_GetPath env h d hr p b = Returns (st, r, l)"
    using assms(4) by (auto simp: HostfsDevice_RealPath_def elim!: bind_outcome_ReturnsE)
  have "fp_abs r" if l
    using g that assms(1) hostfs_walk_abs [OF assms(2,3)]
    by (auto simp: HostfsDevice_GetPath_def Let_def cpp_result_def
        split: prod.splits if_splits option.splits)
  then show ?thesis
    using assms(2,4) g
    by (auto simp: HostfsDevice_RealPath_def Let_def fp_append_abs split: if_splits)
qed

lemma bindfs_transform_abs:
  "fp_abs p \<Longrightarrow> BindfsDevice_TransformPath d b p = (s, q) \<Longrightarrow> s \<noteq> B_OK \<Longrightarrow> fp_abs q"
  by (auto simp: BindfsDevice_TransformPath_def Let_def split: if_splits)

lemma bindfs_transform_ok:
  "fp_abs b \<Longrightarrow> BindfsDevice_TransformPath d b p = (B_OK, q) \<Longrightarrow> fp_abs q"
  by (auto simp: BindfsDevice_TransformPath_def Let_def fp_append_abs B_OK_def status_codes split: if_splits)

lemma device_RealPath_abs:
  assumes "fp_abs p" and "fp_abs (dv_root d)" and "fp_abs (env_root env)"
    and "device_RealPath svc env h p d b = Returns (s, q, b')"
  shows "fp_abs q"
proof (cases "dv_class d")
  case (BindfsDevice r)
  show ?thesis
    using assms(1,2,4) bindfs_transform_abs [of p d r]
    by (auto simp: device_RealPath_def BindfsDevice BindfsDevice_RealPath_def Let_def fp_append_abs
        split: prod.splits if_splits elim!: bind_outcome_ReturnsE)
qed (use assms hostfs_RealPath_abs in \<open>auto simp: device_RealPath_def\<close>)

lemma realpath_elements_abs:
  assumes svc: "\<And>p s q. fp_abs p \<Longrightarrow> svc p = Returns (s, q) \<Longrightarrow> fp_abs q"
    and "fp_abs cur" and "realpath_elements svc cur es = Returns (s, q)"
  shows "fp_abs q"
  using assms(2,3)
proof (induction es arbitrary: cur)
  case (Cons e es)
  show ?case
  proof (cases "e = ''..''")
    case True
    then obtain s1 q1 where r: "svc cur = Returns (s1, q1)"
      using Cons.prems(2) by (auto elim!: bind_outcome_ReturnsE)
    then have "fp_abs (fp_parent q1)" using svc [OF Cons.prems(1)] by simp
    then show ?thesis
      using Cons.prems(2) Cons.IH [of "fp_parent q1"] True r by (auto split: if_splits intro!: fold_append_abs)
  next
    case False
    then show ?thesis
      using Cons.prems Cons.IH [of cur] Cons.IH [of "fp_append cur (fp_elem e)"]
      by (auto simp: fp_append_abs split: if_splits)
  qed
qed (use svc in simp)

lemma RealPath_abs:
  assumes "abs_mounts m" and "fp_abs (env_root env)" and "fp_abs p"
    and "Vfs_RealPath n env m h p = Returns (s, q)"
  shows "fp_abs q"
  using assms(3,4)
proof (induction n arbitrary: p s q)
  case (Suc n)
  show ?case
  proof (cases "p = lexically_normal p")
    case True
    have "path_result (DoWork (Suc n) m (path_work (device_RealPath (Vfs_RealPath n env m h) env h)) True p ()) =
        Returns (s, q)"
      using Suc.prems(2) unfolding Vfs_RealPath.simps(2) if_P [OF True] .
    then obtain u where w: "DoWork (Suc n) m (path_work (device_RealPath (Vfs_RealPath n env m h) env h)) True p () =
        Returns (s, q, u)"
      by (auto simp: path_result_def elim!: bind_outcome_ReturnsE)
    have "fp_abs q'" if p': "fp_abs p'" "abs_device d"
      and dev: "path_work (device_RealPath (Vfs_RealPath n env m h) env h) p' d True x = Returns (st, q', b, x')"
      for p' d x st q' b x'
    proof -
      have "device_RealPath (Vfs_RealPath n env m h) env h p' d True = Returns (st, q', b)"
        using dev by (auto simp: path_work_def elim!: bind_outcome_ReturnsE)
      then show ?thesis by (rule device_RealPath_abs [OF p'(1) abs_device_root [OF p'(2)] assms(2)])
    qed
    then show ?thesis by (rule DoWork_abs [where ok = "\<lambda>_. True", OF assms(1) TrueI _ Suc.prems(1) TrueI w])
  next
    case False
    obtain ps where p: "p = FPath True ps" using Suc.prems(1) by (cases p) simp
    have "realpath_elements (Vfs_RealPath n env m h) fp_root ps = Returns (s, q)"
      using Suc.prems(2) unfolding Vfs_RealPath.simps(2) if_not_P [OF False]
      by (simp add: p fp_elements_def fp_elem_def fp_append_def)
    then show ?thesis using realpath_elements_abs Suc.IH by (metis fpath.sel(1))
  qed
qed simp

section \<open>\<open>ReadDirFd\<close>\<close>

text \<open>The paths of a team.\<close>

definition team_paths :: "process \<Rightarrow> bool" where
  "team_paths t \<longleftrightarrow> is_absolute (p_root t) \<and> (p_cwd t = [] \<or> is_absolute (p_cwd t)) \<and>
    (\<forall>x\<in>set (p_fds t). is_absolute (snd x))"

lemma team_paths_GetFd: "team_paths t \<Longrightarrow> Process_GetFd t fd = Some q \<Longrightarrow> is_absolute q"
  by (auto simp: team_paths_def Process_GetFd_def dest!: map_of_SomeD)

lemma dirfd_path_abs:
  assumes "team_paths t" and "dirfd_path t fd path = Inr (out, j)"
  shows "fp_abs out"
  using assms team_paths_GetFd [OF assms(1), of fd]
  by (auto simp: dirfd_path_def team_paths_def Let_def fp_append_abs split: if_splits option.splits)

lemma dirfd_path_error: "dirfd_path t fd path \<noteq> Inl B_OK"
  by (simp add: dirfd_path_def Let_def B_OK_def status_codes split: option.split)

lemma dirfd_resolve_abs:
  assumes "abs_mounts m" and "fp_abs (env_root env)" and "fp_abs out"
    and "dirfd_resolve n env m h t out = Returns q"
  shows "fp_abs q"
proof (cases t)
  case True
  then show ?thesis
    using assms(3,4) RealPath_abs [OF assms(1,2)] by (auto simp: dirfd_resolve_def elim!: bind_outcome_ReturnsE)
next
  case False
  have "fp_abs (fp_parent out)" using assms(3) by simp
  then show ?thesis
    using assms(3,4) False RealPath_abs [OF assms(1,2), of "fp_parent out"]
    by (auto simp: dirfd_resolve_def fp_append_abs split: if_splits elim!: bind_outcome_ReturnsE)
qed

lemma ReadDirFd_is_absolute:
  assumes "abs_mounts (vs_deviceMounts (vst_vfs s))" and "team_paths (team_of c s)"
    and "Process_ReadDirFd e c s fd addr n traverseLink = Returns (B_OK, p)"
  shows "fp_abs p \<and> normal_path p"
proof -
  have root: "fp_abs (env_root (team_env e c s))" using assms(2) by (simp add: team_env_def team_paths_def)
  obtain path where "team_read e c s addr n = Some path"
    using assms(3) by (auto simp: Process_ReadDirFd_def status_codes split: option.splits)
  moreover obtain out j where o: "dirfd_path (team_of c s) fd path = Inr (out, j)"
    using assms(3) calculation dirfd_path_error [of "team_of c s" fd path]
    by (cases "dirfd_path (team_of c s) fd path") (auto simp: Process_ReadDirFd_def)
  ultimately obtain q where q: "dirfd_resolve (ce_rounds e) (team_env e c s) (vs_deviceMounts (vst_vfs s))
      (vst_host s) traverseLink out = Returns q"
    and p: "p = lexically_normal (if \<not> j then jail_path (parse_path (p_root (team_of c s))) (drop_slash q)
      else drop_slash q)"
    using assms(3) by (auto simp: Process_ReadDirFd_def Let_def elim!: bind_outcome_ReturnsE)
  have "fp_abs q" by (rule dirfd_resolve_abs [OF assms(1) root dirfd_path_abs [OF assms(2) o] q])
  then show ?thesis
    using normal_path_normal normal_path_abs by (simp add: p jail_path_def fold_append_abs)
qed

section \<open>The host paths a guest gets\<close>

lemma mounts_ok_abs: "mounts_ok m \<Longrightarrow> host_mounts m \<Longrightarrow> abs_mounts m"
  by (fastforce simp: mounts_ok_def host_mounts_def abs_mounts_def abs_device_def)

lemma team_reply_ok:
  assumes "team_reply e c addr bs r s = (r', s')" and "r' \<noteq> B_BAD_ADDRESS"
  shows "r' = r \<and> s' = s\<lparr>vst_world := (vst_world s)\<lparr>guestWrites := guestWrites (vst_world s) @
    [(p_pid (team_of c s), addr, OBytes bs)]\<rparr>\<rparr>"
  using assms
  by (auto simp: team_reply_def reply_with_def Process_WriteMemory_def write_guest_def
      split: prod.splits option.splits if_splits)

section \<open>A history of calls\<close>

lemma expanded_path_resolves:
  assumes "mounts_ok (vs_deviceMounts (vst_vfs s))" and "host_mounts (vs_deviceMounts (vst_vfs s))"
    and "team_paths (team_of c s)"
    and "call_vchroot_expandat e c fd userPath userPathSize traverseSymlink userBuffer userBufferSize s =
      Returns (B_OK, s')"
  shows "\<exists>p q. Process_ReadDirFd e c s fd userPath userPathSize traverseSymlink = Returns (B_OK, p) \<and>
    resolves_to (team_env e c s) (vst_host s) (vs_deviceMounts (vst_vfs s)) traverseSymlink p q \<and>
    guestWrites (vst_world s') = guestWrites (vst_world s) @
      [(p_pid (team_of c s), userBuffer, OBytes (c_bytes (path_string q)))]"
proof -
  let ?m = "vs_deviceMounts (vst_vfs s)" and ?env = "team_env e c s"
  have root: "fp_abs (env_root ?env)" using assms(3) by (simp add: team_env_def team_paths_def)
  obtain st p where rd: "Process_ReadDirFd e c s fd userPath userPathSize traverseSymlink = Returns (st, p)"
    using assms(4) by (auto simp: call_vchroot_expandat_def with_path_def elim!: bind_outcome_ReturnsE)
  have st: "st = B_OK"
    using assms(4) rd by (auto simp: call_vchroot_expandat_def with_path_def split: if_splits)
  have p: "fp_abs p"
    using ReadDirFd_is_absolute [OF mounts_ok_abs [OF assms(1,2)] assms(3)] rd st by blast
  obtain st2 q where g: "Vfs_GetPath (ce_rounds e) ?env ?m (vst_host s) p traverseSymlink = Returns (st2, q)"
    using assms(4) rd st by (auto simp: call_vchroot_expandat_def with_path_def elim!: bind_outcome_ReturnsE)
  have r: "team_reply e c userBuffer (c_bytes (path_string q)) st2 s = (B_OK, s')"
    using assms(4) rd st g
    by (auto simp: call_vchroot_expandat_def with_path_def status_codes split: if_splits)
  have ok: "st2 = B_OK" "guestWrites (vst_world s') = guestWrites (vst_world s) @
      [(p_pid (team_of c s), userBuffer, OBytes (c_bytes (path_string q)))]"
    using team_reply_ok [OF r] by (simp_all add: B_OK_def status_codes)
  show ?thesis
    using resolved_path [OF assms(1,2) root p] g ok rd st by blast
qed

text \<open>All paths the server keeps are absolute.\<close>

definition paths_ok :: "'h vfs_state \<Rightarrow> bool" where
  "paths_ok s \<longleftrightarrow> abs_mounts (vs_deviceMounts (vst_vfs s)) \<and>
    (\<forall>r. team_paths (processObjs (vst_world s) r)) \<and>
    (\<forall>x\<in>set (vs_entryRefs (vst_vfs s)). is_absolute (snd x))"

lemma paths_ok_team: "paths_ok s \<Longrightarrow> team_paths (team_of c s)"
  by (simp add: paths_ok_def)

lemma paths_ok_with_team:
  "paths_ok s \<Longrightarrow> (\<And>t. team_paths t \<Longrightarrow> team_paths (f t)) \<Longrightarrow> paths_ok (with_team c f s)"
  by (simp add: paths_ok_def with_team_def upd_process_def)

lemma set_om_insert: "set (om_insert k v m) \<subseteq> insert (k, v) (set m)"
  by (induction k v m rule: om_insert.induct) auto

lemma team_paths_fd: "team_paths t \<Longrightarrow> is_absolute q \<Longrightarrow> team_paths (Process_RegisterFd t fd q)"
  using set_om_insert [of fd q "p_fds t"]
  by (auto simp: team_paths_def Process_RegisterFd_def)

lemma team_paths_no_fd: "team_paths t \<Longrightarrow> team_paths (Process_UnregisterFd t fd)"
  by (auto simp: team_paths_def Process_UnregisterFd_def om_erase_def)

lemma team_paths_cwd: "team_paths t \<Longrightarrow> is_absolute q \<Longrightarrow> team_paths (set_cwd q t)"
  by (simp add: team_paths_def set_cwd_def)

lemma team_paths_root: "team_paths t \<Longrightarrow> is_absolute q \<Longrightarrow> team_paths (set_root q t)"
  by (simp add: team_paths_def set_root_def)

lemma update_paths:
  "\<forall>x\<in>set xs. is_absolute (snd x) \<Longrightarrow> is_absolute p \<Longrightarrow> x \<in> set (AList.update r p xs) \<Longrightarrow> is_absolute (snd x)"
  by (induction xs) (auto split: if_splits)

lemma paths_ok_entry:
  "paths_ok s \<Longrightarrow> is_absolute p \<Longrightarrow> paths_ok (s\<lparr>vst_vfs := snd (RegisterEntryRef r p (vst_vfs s))\<rparr>)"
  using update_paths [of "vs_entryRefs (vst_vfs s)" p _ r] by (simp add: paths_ok_def RegisterEntryRef_def Let_def)

lemma paths_ok_known: "paths_ok s \<Longrightarrow> fp_abs p \<Longrightarrow> paths_ok (known_path st p s)"
  unfolding known_path_def by (rule paths_ok_entry) (simp_all add: path_string_abs)

lemma paths_ok_host: "paths_ok (s\<lparr>vst_host := h\<rparr>) = paths_ok s"
  by (simp add: paths_ok_def)

lemma paths_ok_reply: "paths_ok s \<Longrightarrow> team_reply e c addr bs r s = (r', s') \<Longrightarrow> paths_ok s'"
  by (auto simp: paths_ok_def team_reply_def reply_with_def Process_WriteMemory_def write_guest_def
      split: prod.splits option.splits if_splits)

lemma entry_ref_abs: "paths_ok s \<Longrightarrow> GetEntryRef (vst_vfs s) r = Some p \<Longrightarrow> is_absolute p"
  by (auto simp: paths_ok_def GetEntryRef_def dest!: map_of_SomeD)

lemma fd_abs: "paths_ok s \<Longrightarrow> Process_GetFd (team_of c s) fd = Some q \<Longrightarrow> is_absolute q"
  using team_paths_GetFd [OF paths_ok_team] by blast

lemma with_path_cases:
  assumes "with_path e c fd addr n t s f = Returns x" and "paths_ok s"
  obtains (error) r where "x = (r, s)"
    | (path) p where "fp_abs p" and "f p = Returns x"
proof -
  obtain st p where rd: "Process_ReadDirFd e c s fd addr n t = Returns (st, p)"
      and x: "(if st \<noteq> B_OK then Returns (st, s) else f p) = Returns x"
    using assms(1) by (auto simp: with_path_def elim!: bind_outcome_ReturnsE)
  have m: "abs_mounts (vs_deviceMounts (vst_vfs s))" using assms(2) by (simp add: paths_ok_def)
  show thesis
  proof (cases "st = B_OK")
    case True
    have "fp_abs p"
      using ReadDirFd_is_absolute [OF m paths_ok_team [OF assms(2)], of e c fd addr n t p] rd True by simp
    then show thesis using x True path by simp
  next
    case False
    then show thesis using x error by auto
  qed
qed

subsection \<open>What the file systems hand back\<close>

lemma hostfs_GetPath_link_abs:
  assumes "fp_abs (dv_root d)" and "fp_abs (env_root env)"
    and "HostfsDevice_GetPath env h d hr p b = Returns (B_OK, q, True)"
  shows "fp_abs q"
  using hostfs_GetPath_link [OF assms(2,1,3)] by (rule normal_path_abs)

lemma GetAttrPath_abs:
  assumes "abs_mounts m" and "fp_abs (env_root env)" and "fp_abs p"
    and "Vfs_GetAttrPath n env m attr ty createNew p t h = Returns (B_OK, q, h')"
  shows "fp_abs q"
  using assms(3,4)
proof (induction n arbitrary: p t h q h')
  case (Suc n)
  let ?f = "\<lambda>q d b x. case dv_class d of
      BindfsDevice r \<Rightarrow> BindfsDevice_GetAttrPath (Vfs_GetAttrPath n env m attr ty createNew) d r q b x
    | PackagefsDevice hr _ \<Rightarrow> PackagefsDevice_GetAttrPath env d hr attr ty createNew q b x
    | _ \<Rightarrow> Returns (B_UNSUPPORTED, q, b, x)"
  have w: "DoWork (Suc n) m ?f t p h = Returns (B_OK, q, h')" using Suc.prems(2) by simp
  have f: "fp_abs q1" if a: "fp_abs p1" "abs_device d" "st = B_OK" "?f p1 d t x = Returns (st, q1, b, x')"
    for p1 d x st q1 b x'
  proof (cases "dv_class d")
    case (BindfsDevice r)
    obtain s1 p2 where tp: "BindfsDevice_TransformPath d r p1 = (s1, p2)" by fastforce
    have st: "s1 = B_OK"
      using a(3,4) BindfsDevice tp by (auto simp: BindfsDevice_GetAttrPath_def split: if_splits)
    obtain h3 where "Vfs_GetAttrPath n env m attr ty createNew p2 t x = Returns (B_OK, q1, h3)"
      using a(3,4) BindfsDevice tp st
      by (auto simp: BindfsDevice_GetAttrPath_def elim!: bind_outcome_ReturnsE)
    moreover have "fp_abs p2"
      using tp st a(2) BindfsDevice bindfs_transform_ok by (auto simp: abs_device_def)
    ultimately show ?thesis using Suc.IH by blast
  next
    case (PackagefsDevice hr ty')
    then show ?thesis
      using a(2-4) hostfs_GetPath_link_abs [OF abs_device_root [OF a(2)] assms(2)] abs_device_root [OF a(2)]
      by (auto simp: PackagefsDevice_GetAttrPath_def packagefs_attr_path_def Let_def fp_append_abs
          split: if_splits elim!: bind_outcome_ReturnsE)
  qed (use a in \<open>simp_all add: B_OK_def status_codes\<close>)
  show ?case
    by (rule DoWork_abs [where ok = "\<lambda>st. st = B_OK", OF assms(1) refl _ Suc.prems(1) refl w]) (rule f)
qed simp

abbreviation abs_refs :: "(entry_ref \<times> string) list \<Rightarrow> bool" where
  "abs_refs refs \<equiv> \<forall>x\<in>set refs. is_absolute (snd x)"

lemma HostfsDevice_TransformDirent_abs:
  assumes "abs_refs (snd s)" and "HostfsDevice_TransformDirent rs p s = Returns (r, s')"
    and "\<And>q. rs q \<noteq> Undefined \<Longrightarrow> fp_abs p"
  shows "abs_refs (snd s')"
proof -
  obtain e refs where s: "s = (e, refs)" by (cases s)
  let ?q = "lexically_normal (fp_append p (parse_path (d_name e)))"
  obtain st x where rd: "rs ?q = Returns (st, x)"
    using assms(2) by (auto simp: HostfsDevice_TransformDirent_def s Let_def elim!: bind_outcome_ReturnsE)
  have "is_absolute (path_string ?q)"
    using assms(3) [of ?q] rd by (simp add: path_string_abs lexically_normal_abs fp_append_abs)
  then have u: "abs_refs (AList.update ref (path_string ?q) refs)" for ref
    using update_paths [of refs] assms(1) s by simp
  then have "snd s' = refs \<or> (\<exists>ref. snd s' = AList.update ref (path_string ?q) refs)"
    using assms(2) rd by (auto simp: HostfsDevice_TransformDirent_def s Let_def split: if_splits)
  then show ?thesis using assms(1) s u by (elim disjE exE) simp_all
qed

lemma PackagefsDevice_TransformDirent_abs:
  assumes "abs_refs (snd s)" and "PackagefsDevice_TransformDirent rs d p s = Returns (r, s')"
    and "\<And>q. rs q \<noteq> Undefined \<Longrightarrow> fp_abs p"
  shows "abs_refs (snd s')"
proof -
  obtain e refs where s: "s = (e, refs)" by (cases s)
  show ?thesis
    using assms HostfsDevice_TransformDirent_abs [OF assms(1) _ assms(3)]
    by (auto simp: PackagefsDevice_TransformDirent_def s Let_def split: if_splits)
qed

lemma TransformDirent_abs:
  assumes "abs_refs (snd s)" and "Vfs_TransformDirent n env m h st0 p s = Returns (r, s')"
  shows "abs_refs (snd s')"
  using assms
proof (induction n arbitrary: p s r s')
  case (Suc n)
  let ?P = "\<lambda>s :: dirent_state. abs_refs (snd s)"
  let ?g = "\<lambda>d x. if \<not> fp_abs p \<or> lexically_normal p \<noteq> p then
      (case dv_class d of PackagefsDevice _ _ \<Rightarrow> PackagefsDevice_TransformDirent (\<lambda>_. Undefined) d p x | _ \<Rightarrow> Undefined)
    else case dv_class d of
      BindfsDevice r \<Rightarrow>
        bind_outcome (BindfsDevice_forward (Vfs_TransformDirent n env m h st0) d r p x)
          (\<lambda>(status, e, refs). Returns (status,
             (if status = B_OK then e\<lparr>d_dev := GetId d, d_ino := fs_Hash (d_dev e) (d_ino e)\<rparr> else e, refs)))
    | PackagefsDevice _ _ \<Rightarrow> PackagefsDevice_TransformDirent (\<lambda>q. Vfs_ReadStat n env m h q False st0) d p x
    | _ \<Rightarrow> HostfsDevice_TransformDirent (\<lambda>q. Vfs_ReadStat n env m h q False st0) p x"
  have g: "?P x'" if x: "?P x" and e: "?g d x = Returns (st, x')" for d x st x'
  proof (cases "fp_abs p \<and> lexically_normal p = p")
    case False
    then show ?thesis
      using e PackagefsDevice_TransformDirent_abs [OF x, where rs = "\<lambda>_. Undefined"]
      by (auto split: device_class.splits)
  next
    case True
    show ?thesis
    proof (cases "dv_class d")
      case (BindfsDevice b)
      obtain st1 e1 refs1 where f: "BindfsDevice_forward (Vfs_TransformDirent n env m h st0) d b p x =
          Returns (st1, e1, refs1)" and x': "snd x' = refs1"
        using e True BindfsDevice by (auto elim!: bind_outcome_ReturnsE)
      obtain st2 q where tp: "BindfsDevice_TransformPath d b p = (st2, q)" by fastforce
      show ?thesis
        using f x x' tp Suc.IH [OF x, of q] by (auto simp: BindfsDevice_forward_def split: if_splits)
    next
      case (PackagefsDevice hr ty)
      then show ?thesis using e True PackagefsDevice_TransformDirent_abs [OF x] by auto
    qed (use e True HostfsDevice_TransformDirent_abs [OF x] in auto)
  qed
  have w: "\<exists>q. DoWork (Suc n) m (keep_work (\<lambda>_. ?g)) False p s = Returns (r, q, s')"
    using Suc.prems(2) by (auto simp: state_result_def elim!: bind_outcome_ReturnsE)
  then obtain q where w: "DoWork (Suc n) m (keep_work (\<lambda>_. ?g)) False p s = Returns (r, q, s')" by blast
  have k: "?P x'" if x: "?P x" and e: "keep_work (\<lambda>_. ?g) p1 d t x = Returns (st, q1, b, x')" for p1 d t x st q1 b x'
  proof -
    have "?g d x = Returns (st, x')" using e by (auto simp: keep_work_def elim!: bind_outcome_ReturnsE)
    then show ?thesis by (rule g [OF x])
  qed
  show ?case by (rule DoWork_state [where P = ?P, OF k Suc.prems(1) w])
qed simp

subsection \<open>The calls that store paths\<close>

definition same_paths :: "process \<Rightarrow> process \<Rightarrow> bool" where
  "same_paths t u \<longleftrightarrow> p_root t = p_root u \<and> p_cwd t = p_cwd u \<and> p_fds t = p_fds u"

lemma same_paths_ok: "same_paths t u \<Longrightarrow> team_paths u \<Longrightarrow> team_paths t"
  by (simp add: same_paths_def team_paths_def)

lemma new_team_paths: "team_paths (Process_new pid uid gid euid egid)"
  by (simp add: team_paths_def Process_new_def is_absolute_def)

text \<open>
  One step is one call that stores a path or changes the mounts, by any team with any arguments; an
  inode that becomes known by an absolute path, as in \<open>get_extended_team_info\<close>; or anything that
  leaves the virtual file system alone and gives a team no other paths than those of a team there
  was, as a fork does, or of a new team. What \<open>mount\<close> mounts must have an
  absolute bound path, and without \<open>respectChroot\<close> the path the guest gives must be absolute, since
  the server keeps it as it is.
\<close>

inductive path_call :: "'h call_env \<Rightarrow> 'h vfs_state \<Rightarrow> 'h vfs_state \<Rightarrow> bool" for e where
  register_fd: "path_call e s s'" if "call_register_fd e c fd parentFd p n t s = Returns (r, s')"
| register_fd1: "path_call e s s'" if "call_register_fd1 e c fd dev ino p n s = Returns (r, s')"
| register_parent_dir_fd: "path_call e s s'" if "call_register_parent_dir_fd e c fd fd' p n s = Returns (r, s')"
| register_dup_fd: "path_call e s s'" if "call_register_dup_fd c fd fd' s = Returns (r, s')"
| register_attr_fd: "path_call e s s'" if "call_register_attr_fd e c fd fd' p n t s = Returns (r, s')"
| unregister_fd: "path_call e s s'" if "call_unregister_fd c fd s = (r, s')"
| setcwd: "path_call e s s'" if "call_setcwd e c fd p n True s = Returns (r, s')"
| setcwd_raw: "path_call e s s'" if "call_setcwd e c fd p n False s = Returns (r, s')"
    and "\<forall>q. team_read e c s p n = Some q \<longrightarrow> is_absolute q"
| change_root: "path_call e s s'" if "call_change_root e c p n True s = Returns (r, s')"
| change_root_raw: "path_call e s s'" if "call_change_root e c p n False s = Returns (r, s')"
    and "\<forall>q. team_read e c s p n = Some q \<longrightarrow> is_absolute q"
| mount: "path_call e s s'" if "call_mount e c p device fs flags args n s = Returns (r, s')"
    and "abs_mounts (vs_deviceMounts (vst_vfs s'))"
| unmount: "path_call e s s'" if "call_unmount e c p n flags s = Returns (r, s')"
| register_entry_ref: "path_call e s s'" if "call_register_entry_ref c dev ino fd s = (r, s')"
| register_entry_ref_child: "path_call e s s'"
    if "call_register_entry_ref_child e c pdev pino dev ino p n s = (r, s')"
| transform_dirent: "path_call e s s'" if "call_transform_dirent e c fd p n s = Returns (r, s')"
| register_name: "path_call e s s'" if "s' = s\<lparr>vst_vfs := snd (RegisterEntryRef ref q (vst_vfs s))\<rparr>" and "is_absolute q"
| teams: "path_call e s s'" if "vst_vfs s' = vst_vfs s"
    and "\<forall>r. same_paths (processObjs (vst_world s') r) (Process_new 0 0 0 0 0) \<or>
      (\<exists>r'. same_paths (processObjs (vst_world s') r) (processObjs (vst_world s) r'))"

lemma register_fd_ok:
  assumes "paths_ok s" and "call_register_fd e c fd parentFd p n t s = Returns (r, s')"
  shows "paths_ok s'"
  using assms(2) unfolding call_register_fd_def
proof (rule with_path_cases [OF _ assms(1)])
  fix q
  assume q: "fp_abs q" and f: "(let p = lexically_normal q;
      s1 = with_team c (\<lambda>t. Process_RegisterFd t fd (path_string p)) s
    in bind_outcome (state_ReadStat e c s1 p True) (\<lambda>(status, st).
         Returns (status, if status = B_OK then known_path st p s1 else s1))) = Returns (r, s')"
  let ?p = "lexically_normal q" and ?s1 = "with_team c (\<lambda>t. Process_RegisterFd t fd (path_string (lexically_normal q))) s"
  have "paths_ok ?s1"
    using q by (intro paths_ok_with_team [OF assms(1)] team_paths_fd path_string_abs lexically_normal_abs)
  moreover have "s' = ?s1 \<or> (\<exists>st. s' = known_path st ?p ?s1)"
    using f by (auto simp: Let_def split: if_splits elim!: bind_outcome_ReturnsE)
  ultimately show ?thesis using paths_ok_known [OF _ lexically_normal_abs [OF q]] by auto
qed (use assms(1) in auto)

lemma register_fd1_ok:
  assumes "paths_ok s" and "call_register_fd1 e c fd dev ino p n s = Returns (r, s')"
  shows "paths_ok s'"
proof (cases "GetEntryRef (vst_vfs s) (EntryRef dev ino)")
  case (Some x)
  have x: "fp_abs (parse_path x)" "fp_abs (fp_append (parse_path x) y)" for y
    using entry_ref_abs [OF assms(1) Some] by (simp_all add: fp_append_abs)
  have w: "paths_ok (with_team c (\<lambda>t. Process_RegisterFd t fd (path_string (lexically_normal q))) s)" if "fp_abs q" for q
    using that by (intro paths_ok_with_team [OF assms(1)] team_paths_fd path_string_abs lexically_normal_abs)
  show ?thesis
    using assms(2) Some w x assms(1)
    by (simp add: call_register_fd1_def or_bad_address_def Let_def split: option.splits if_splits) auto
qed (use assms in \<open>simp add: call_register_fd1_def\<close>)

lemma register_parent_dir_fd_ok:
  assumes "paths_ok s" and "call_register_parent_dir_fd e c fd fd' p n s = Returns (r, s')"
  shows "paths_ok s'"
proof (cases "Process_GetFd (team_of c s) fd'")
  case (Some x)
  let ?q = "fp_parent (parse_path x)"
  have q: "fp_abs ?q" using fd_abs [OF assms(1) Some] by simp
  obtain r1 s1 where rep: "team_reply e c p (c_bytes (fp_filename (parse_path x))) B_OK s = (r1, s1)" by fastforce
  note s1 = paths_ok_reply [OF assms(1) rep]
  let ?s2 = "with_team c (\<lambda>t. Process_RegisterFd t fd (path_string ?q)) s1"
  have s2: "paths_ok ?s2"
    using q by (intro paths_ok_with_team [OF s1] team_paths_fd path_string_abs)
  have "s' = s \<or> s' = s1 \<or> s' = ?s2 \<or> (\<exists>st. s' = known_path st ?q ?s2)"
    using assms(2) Some rep
    by (auto simp: call_register_parent_dir_fd_def with_fd_def Let_def split: if_splits elim!: bind_outcome_ReturnsE)
  then show ?thesis using assms(1) s1 s2 paths_ok_known [OF s2 q] by auto
qed (use assms in \<open>simp add: call_register_parent_dir_fd_def with_fd_def\<close>)

lemma register_dup_fd_ok:
  assumes "paths_ok s" and "call_register_dup_fd c fd fd' s = Returns (r, s')"
  shows "paths_ok s'"
  using assms(2) fd_abs [OF assms(1)] paths_ok_with_team [OF assms(1)] team_paths_fd assms(1)
  by (auto simp: call_register_dup_fd_def split: option.splits)

lemma register_attr_fd_ok:
  assumes "paths_ok s" and "call_register_attr_fd e c fd fd' p n t s = Returns (r, s')"
  shows "paths_ok s'"
proof (cases "read_pair e c s p")
  case (Some x)
  obtain addr k where x: "x = (addr, k)" by fastforce
  have "with_path e c fd' addr k t s (\<lambda>p.
        or_bad_address (read_string e c s n) s (\<lambda>name.
          bind_outcome (state_GetAttrPath e c s name (le_bytes 4 0) False p False) (\<lambda>(status, q, h).
            if status \<noteq> B_OK then Returns (status, s\<lparr>vst_host := h\<rparr>)
            else Returns (B_OK,
              with_team c (\<lambda>t. Process_RegisterFd t fd (path_string q)) (s\<lparr>vst_host := h\<rparr>))))) = Returns (r, s')"
    using assms(2) Some x by (simp add: call_register_attr_fd_def or_bad_address_def)
  then show ?thesis
  proof (rule with_path_cases [OF _ assms(1)])
    fix q
    assume q: "fp_abs q" and f: "or_bad_address (read_string e c s n) s (\<lambda>name.
          bind_outcome (state_GetAttrPath e c s name (le_bytes 4 0) False q False) (\<lambda>(status, q, h).
            if status \<noteq> B_OK then Returns (status, s\<lparr>vst_host := h\<rparr>)
            else Returns (B_OK,
              with_team c (\<lambda>t. Process_RegisterFd t fd (path_string q)) (s\<lparr>vst_host := h\<rparr>)))) = Returns (r, s')"
    have a: "fp_abs q'" if "state_GetAttrPath e c s name (le_bytes 4 0) False q False = Returns (B_OK, q', h)" for name q' h
      by (rule GetAttrPath_abs [OF _ _ q that])
        (use assms(1) in \<open>auto simp: paths_ok_def team_env_def team_paths_def\<close>)
    have w: "paths_ok (with_team c (\<lambda>t. Process_RegisterFd t fd (path_string q')) (s\<lparr>vst_host := h\<rparr>))"
      if "fp_abs q'" for q' h
      using that assms(1) by (intro paths_ok_with_team team_paths_fd path_string_abs) (simp_all add: paths_ok_host)
    show ?thesis
      using f a w assms(1)
      by (auto simp: or_bad_address_def paths_ok_host split: option.splits if_splits elim!: bind_outcome_ReturnsE)
  qed (use assms(1) in auto)
qed (use assms in \<open>simp add: call_register_attr_fd_def or_bad_address_def\<close>)

lemma set_paths_ok:
  assumes "paths_ok s" and "with_path e c fd p n t s (\<lambda>q. Returns (B_OK, with_team c (f q) s)) = Returns (r, s')"
    and "\<And>q t. fp_abs q \<Longrightarrow> team_paths t \<Longrightarrow> team_paths (f q t)"
  shows "paths_ok s'"
  using assms(2)
proof (rule with_path_cases [OF _ assms(1)])
  fix q
  assume "fp_abs q" and "Returns (B_OK, with_team c (f q) s) = Returns (r, s')"
  then show ?thesis using paths_ok_with_team [OF assms(1), of "f q" c] assms(3) by auto
qed (use assms(1) in auto)

lemma team_reply_frame:
  "team_reply e c addr bs r s = (r', s') \<Longrightarrow> vst_vfs s' = vst_vfs s \<and> processObjs (vst_world s') = processObjs (vst_world s)"
  by (auto simp: team_reply_def reply_with_def Process_WriteMemory_def write_guest_def
      split: prod.splits option.splits if_splits)

lemma paths_ok_refs: "paths_ok s \<Longrightarrow> abs_refs refs \<Longrightarrow> paths_ok (s\<lparr>vst_vfs := (vst_vfs s)\<lparr>vs_entryRefs := refs\<rparr>\<rparr>)"
  by (simp add: paths_ok_def)

lemma transform_dirent_ok:
  assumes "paths_ok s" and "call_transform_dirent e c fd p n s = Returns (r, s')"
  shows "paths_ok s'"
proof (cases "s' = s")
  case False
  obtain bs x entry where "team_read e c s p n = Some bs" "Process_GetFd (team_of c s) fd = Some x"
      "dirent_of_bytes bs = Some entry"
    using assms(2) False
    by (auto simp: call_transform_dirent_def or_bad_address_def with_fd_def split: option.splits)
  moreover from calculation obtain st entry' refs where
    t: "Vfs_TransformDirent (ce_rounds e) (team_env e c s) (vs_deviceMounts (vst_vfs s))
      (vst_host s) (ce_stat e) (parse_path x) (entry, vs_entryRefs (vst_vfs s)) = Returns (st, entry', refs)"
    using assms(2) False
    by (auto simp: call_transform_dirent_def or_bad_address_def with_fd_def elim!: bind_outcome_ReturnsE)
  moreover let ?s1 = "s\<lparr>vst_vfs := (vst_vfs s)\<lparr>vs_entryRefs := refs\<rparr>\<rparr>"
  have "abs_refs (snd (entry', refs))"
    by (rule TransformDirent_abs [OF _ t]) (use assms(1) in \<open>simp add: paths_ok_def\<close>)
  then have "paths_ok ?s1" using paths_ok_refs [OF assms(1)] by simp
  moreover have "s' = ?s1 \<or> (\<exists>addr out r0. team_reply e c addr out r0 ?s1 = (r, s'))"
    using assms(2) calculation
    by (auto simp: call_transform_dirent_def or_bad_address_def with_fd_def Let_def split: if_splits)
  ultimately show ?thesis using paths_ok_reply by blast
qed (use assms(1) in simp)

lemma is_absolute_append: "is_absolute p \<Longrightarrow> is_absolute (p @ q)"
  by (auto simp: is_absolute_def)

lemma RegisterDevice_entry:
  assumes "RegisterDevice n env st0 d h v = Returns (d', v')"
  shows "vs_deviceMounts v' (dv_root d') = Some d' \<and>
    (\<exists>ref. vs_entryRefs v' = AList.update ref (path_string (dv_root d')) (vs_entryRefs v))"
proof -
  obtain i devs where a: "IdMap_Add (vs_devices v) (Some d) = (i, devs)" by fastforce
  obtain st where d': "d' = with_root st (with_dev i d)"
    and v': "v' = snd (RegisterEntryRef (ref_of (GetId d') (fi_root (dv_info d'))) (path_string (dv_root d'))
      (put_device i d' (put_device i (with_dev i d) (v\<lparr>vs_devices := devs\<rparr>))))"
    using assms by (auto simp: RegisterDevice_def a Let_def elim!: bind_outcome_ReturnsE)
  show ?thesis
    unfolding v' by (auto simp: RegisterEntryRef_def Let_def put_device_def)
qed

lemma mount_vfs_paths:
  assumes "abs_refs (vs_entryRefs v)" and "abs_mounts (vs_deviceMounts v')"
    and "Vfs_Mount n env st0 q dev fs flags args h v = Returns (r, h', v')"
  shows "abs_refs (vs_entryRefs v')"
  using Vfs_Mount_cases [OF assms(3)]
proof (elim disjE exE conjE)
  fix d d' v1 e
  assume reg: "RegisterDevice n env st0 d h' v = Returns (d', v1)" and v': "v' = v1\<lparr>vs_events := e\<rparr>"
  have "vs_deviceMounts v' (dv_root d') = Some d'" using RegisterDevice_entry [OF reg] v' by simp
  then have "is_absolute (path_string (dv_root d'))"
    using assms(2) by (auto simp: abs_mounts_def abs_device_def intro: path_string_abs)
  then show ?thesis
    using RegisterDevice_entry [OF reg] v' update_paths [of "vs_entryRefs v"] assms(1) by fastforce
qed (use assms(1) in simp)

lemma mount_paths_ok:
  assumes "paths_ok s" and "call_mount e c p device fs flags args n s = Returns (r, s')"
    and "abs_mounts (vs_deviceMounts (vst_vfs s'))"
  shows "paths_ok s'"
proof -
  have "s' = s \<or> (\<exists>q dev fsName as h v. Vfs_Mount (ce_rounds e) (team_env e c s) (ce_stat e) q dev fsName flags as
      (vst_host s) (vst_vfs s) = Returns (r, h, v) \<and> s' = s\<lparr>vst_host := h, vst_vfs := v\<rparr>)"
    using assms(2)
    by (auto simp: call_mount_def or_bad_address_def with_path_def
        split: option.splits if_splits elim!: bind_outcome_ReturnsE) blast+
  then show ?thesis
  proof (elim disjE exE conjE)
    fix q dev fsName as h v
    assume m: "Vfs_Mount (ce_rounds e) (team_env e c s) (ce_stat e) q dev fsName flags as (vst_host s) (vst_vfs s) =
        Returns (r, h, v)"
      and s': "s' = s\<lparr>vst_host := h, vst_vfs := v\<rparr>"
    have "abs_refs (vs_entryRefs v)"
      by (rule mount_vfs_paths [OF _ _ m]) (use assms(1,3) s' in \<open>simp_all add: paths_ok_def\<close>)
    then show ?thesis using assms(1,3) s' by (simp add: paths_ok_def)
  qed (use assms(1) in simp)
qed

lemma unmount_vfs_paths:
  assumes "Vfs_Unmount n env q h v = Returns (r, h', v')"
  shows "set (vs_entryRefs v') \<subseteq> set (vs_entryRefs v)"
    and "vs_deviceMounts v' p = Some d \<Longrightarrow> vs_deviceMounts v p = Some d"
  using assms
  by (auto simp: Vfs_Unmount_def Let_def elim!: bind_outcome_ReturnsE
      split: if_splits option.splits prod.splits)

lemma unmount_paths_ok:
  assumes "paths_ok s" and "call_unmount e c p n flags s = Returns (r, s')"
  shows "paths_ok s'"
proof -
  have "s' = s \<or> (\<exists>q h v. Vfs_Unmount (ce_rounds e) (team_env e c s) q (vst_host s) (vst_vfs s) = Returns (r, h, v) \<and>
      s' = s\<lparr>vst_host := h, vst_vfs := v\<rparr>)"
    using assms(2)
    by (auto simp: call_unmount_def with_path_def split: if_splits elim!: bind_outcome_ReturnsE) blast+
  then show ?thesis
  proof (elim disjE exE conjE)
    fix q h v
    assume u: "Vfs_Unmount (ce_rounds e) (team_env e c s) q (vst_host s) (vst_vfs s) = Returns (r, h, v)"
      and s': "s' = s\<lparr>vst_host := h, vst_vfs := v\<rparr>"
    have "abs_mounts (vs_deviceMounts v)"
      using assms(1) unmount_vfs_paths(2) [OF u] unfolding paths_ok_def abs_mounts_def by blast
    then show ?thesis using assms(1) unmount_vfs_paths(1) [OF u] s' by (auto simp: paths_ok_def)
  qed (use assms(1) in simp)
qed

lemma path_call_ok: "path_call e s s' \<Longrightarrow> paths_ok s \<Longrightarrow> paths_ok s'"
proof (induction rule: path_call.induct)
  case (setcwd c fd p n s r s')
  then show ?case
    by (auto simp: call_setcwd_def elim!: set_paths_ok [rotated] intro!: team_paths_cwd path_string_abs lexically_normal_abs)
next
  case (change_root c p n s r s')
  then show ?case
    by (auto simp: call_change_root_def elim!: set_paths_ok [rotated] intro!: team_paths_cwd team_paths_root path_string_abs)
next
  case (unregister_fd c fd s r s')
  then show ?case by (auto simp: call_unregister_fd_def intro!: paths_ok_with_team team_paths_no_fd)
next
  case (setcwd_raw c fd p n s r s')
  then show ?case
    by (auto simp: call_setcwd_def or_bad_address_def split: option.splits if_splits
        intro!: paths_ok_with_team team_paths_cwd)
next
  case (change_root_raw c p n s r s')
  then show ?case
    by (auto simp: call_change_root_def or_bad_address_def split: option.splits
        intro!: paths_ok_with_team team_paths_root)
next
  case (mount c p device fs flags args n s r s')
  then show ?case by (blast intro: mount_paths_ok)
next
  case (unmount c p n flags s r s')
  then show ?case by (blast intro: unmount_paths_ok)
next
  case (register_entry_ref c dev ino fd s r s')
  then show ?case
    by (auto simp: call_register_entry_ref_def split: option.splits intro!: paths_ok_entry fd_abs)
next
  case (register_entry_ref_child c pdev pino dev ino p n s r s')
  then show ?case
    by (auto simp: call_register_entry_ref_child_def split: option.splits
        intro!: paths_ok_entry is_absolute_append elim: entry_ref_abs)
next
  case (register_name s' s ref q)
  then show ?case by (simp add: paths_ok_entry)
next
  case (teams s' s)
  then have "team_paths (processObjs (vst_world s') r)" for r
    using same_paths_ok new_team_paths unfolding paths_ok_def by metis
  then show ?case using teams by (simp add: paths_ok_def)
qed (auto dest: register_fd_ok register_fd1_ok register_parent_dir_fd_ok register_dup_fd_ok register_attr_fd_ok
    transform_dirent_ok)

text \<open>
  C2: after any history of \<open>path_call\<close> steps from a state whose paths are absolute, and with only
  host directories mounted at the time of the call, a host path that \<open>vchroot_expandat\<close> gives to a
  guest with success is where the guest's path leads: from the path \<open>ReadDirFd\<close> makes of the
  arguments, over the symbolic links of the host on its way, into the host directory of the file
  system it ends in, by names none of which is \<open>..\<close>, through no further link, and to a place the
  device does not hide. It is the one thing written to the guest.
\<close>

theorem expanded_path_stays_in_mounts:
  assumes "(path_call e)\<^sup>*\<^sup>* s0 s" and "paths_ok s0"
    and "mounts_ok (vs_deviceMounts (vst_vfs s))" and "host_mounts (vs_deviceMounts (vst_vfs s))"
    and "call_vchroot_expandat e c fd userPath userPathSize traverseSymlink userBuffer userBufferSize s =
      Returns (B_OK, s')"
  shows "\<exists>p q. Process_ReadDirFd e c s fd userPath userPathSize traverseSymlink = Returns (B_OK, p) \<and>
    resolves_to (team_env e c s) (vst_host s) (vs_deviceMounts (vst_vfs s)) traverseSymlink p q \<and>
    guestWrites (vst_world s') = guestWrites (vst_world s) @
      [(p_pid (team_of c s), userBuffer, OBytes (c_bytes (path_string q)))]"
proof -
  have "paths_ok s" using assms(1,2) by (induction rule: rtranclp_induct) (auto intro: path_call_ok)
  then show ?thesis
    by (rule expanded_path_resolves [OF assms(3,4) paths_ok_team assms(5)])
qed

section \<open>A run\<close>

definition sample_path_host :: host where
  "sample_path_host = sample_host\<lparr>vm_read := \<lambda>_ _ _. Some ''/l''\<rparr>"

definition sample_call_env :: "unit call_env" where
  "sample_call_env = \<lparr>ce_rounds = 3, ce_memory = sample_path_host, ce_vfs = sample_env, ce_stat = sample_bound_stat,
     ce_pad = []\<rparr>"

definition sample_paths_state :: "unit vfs_state" where
  "sample_paths_state = \<lparr>vst_world = sample_world, vst_host = (),
     vst_vfs = VfsService_new\<lparr>vs_deviceMounts := sample_mounts\<rparr>\<rparr>"

lemma sample_paths_ok: "paths_ok sample_paths_state"
  using mounts_ok_abs [OF sample_mounts_ok]
  by (simp add: paths_ok_def sample_paths_state_def VfsService_new_def team_paths_def sample_world_def
      Process_new_def is_absolute_def)

lemma sample_path_reads: "read_exact sample_path_host pid addr 2 = Some ''/l''"
  by (simp add: read_exact_def server_read_process_memory_def sample_path_host_def)

lemma sample_path_writes: "write_exact sample_path_host pid addr obj"
  by (simp add: write_exact_def server_write_process_memory_def sample_path_host_def sample_host_def)

lemma sample_env_root: "sample_env\<lparr>env_root := parse_path ''/''\<rparr> = sample_env"
  by (simp add: sample_env_def parse_path_def is_absolute_def) code_simp

lemma sample_read_path:
  assumes "p_root (team_of c s) = ''/''" and "vs_deviceMounts (vst_vfs s) = sample_mounts" and "vst_host s = ()"
  shows "Process_ReadDirFd sample_call_env c s fd addr 2 True = Returns (B_OK, FPath True [''f''])"
    and "team_env sample_call_env c s = sample_env"
proof -
  show env: "team_env sample_call_env c s = sample_env"
    by (simp add: team_env_def assms(1) sample_call_env_def sample_env_root)
  have r: "team_read sample_call_env c s addr 2 = Some ''/l''"
    by (simp add: team_read_def Process_ReadMemory_def sample_call_env_def sample_path_reads)
  have d: "dirfd_path (team_of c s) fd ''/l'' = Inr (FPath True [''l''], False)"
    unfolding dirfd_path_def Let_def assms(1) by code_simp
  have q: "dirfd_resolve 3 sample_env sample_mounts () True (FPath True [''l'']) = Returns (FPath True [''f''])"
    by code_simp
  have j: "lexically_normal (jail_path (parse_path ''/'') (drop_slash (FPath True [''f'']))) = FPath True [''f'']"
    by code_simp
  show "Process_ReadDirFd sample_call_env c s fd addr 2 True = Returns (B_OK, FPath True [''f''])"
    using q j by (simp add: Process_ReadDirFd_def r d env assms) (simp add: sample_call_env_def)
qed

lemma sample_team_root: "p_root (team_of sample_context sample_paths_state) = ''/''"
  by (simp add: sample_paths_state_def sample_world_def sample_context_def Process_new_def)

lemma sample_expand:
  "\<exists>s'. call_vchroot_expandat sample_call_env sample_context 7 64 2 True 128 256
    (snd (call_unregister_fd sample_context 5 sample_paths_state)) = Returns (B_OK, s')"
proof -
  let ?s = "snd (call_unregister_fd sample_context 5 sample_paths_state)"
  have root: "p_root (team_of sample_context ?s) = ''/''"
    using sample_team_root
    by (simp add: call_unregister_fd_def with_team_def upd_process_def Process_UnregisterFd_def)
  have m: "vs_deviceMounts (vst_vfs ?s) = sample_mounts" "vst_host ?s = ()"
    by (simp_all add: call_unregister_fd_def with_team_def sample_paths_state_def)
  have "Vfs_GetPath 3 sample_env sample_mounts () (FPath True [''f'']) True = Returns (B_OK, FPath True [''h'', ''f''])"
    by code_simp
  then show ?thesis
    by (simp add: call_vchroot_expandat_def with_path_def sample_read_path [OF root m] m)
      (simp add: sample_call_env_def team_reply_def reply_with_def Process_WriteMemory_def write_guest_def
        sample_path_writes path_string_def split: prod.split)
qed

theorem expanded_path_stays_in_mounts_witness:
  "\<exists>s'. call_vchroot_expandat sample_call_env sample_context 7 64 2 True 128 256
      (snd (call_unregister_fd sample_context 5 sample_paths_state)) = Returns (B_OK, s') \<and>
    (\<exists>p q. resolves_to (team_env sample_call_env sample_context
        (snd (call_unregister_fd sample_context 5 sample_paths_state))) () sample_mounts True p q \<and>
      guestWrites (vst_world s') =
        guestWrites (vst_world (snd (call_unregister_fd sample_context 5 sample_paths_state))) @
        [(p_pid (team_of sample_context (snd (call_unregister_fd sample_context 5 sample_paths_state))), 128,
          OBytes (c_bytes (path_string q)))])"
proof -
  let ?s = "snd (call_unregister_fd sample_context 5 sample_paths_state)"
  have "call_unregister_fd sample_context 5 sample_paths_state = (B_OK, ?s)"
    by (simp add: call_unregister_fd_def)
  then have "(path_call sample_call_env)\<^sup>*\<^sup>* sample_paths_state ?s"
    by (intro r_into_rtranclp path_call.unregister_fd)
  moreover obtain s' where "call_vchroot_expandat sample_call_env sample_context 7 64 2 True 128 256 ?s =
      Returns (B_OK, s')"
    using sample_expand by blast
  moreover have m: "vs_deviceMounts (vst_vfs ?s) = sample_mounts" "vst_host ?s = ()"
    by (simp_all add: call_unregister_fd_def with_team_def sample_paths_state_def)
  ultimately show ?thesis
    using expanded_path_stays_in_mounts [OF _ sample_paths_ok, of sample_call_env ?s] sample_mounts_ok m by metis
qed

end
