(* ===== verification/FileCallFacts.thy ===== *)
theory FileCallFacts
  imports PathSafety
begin

text \<open>
  What the calls on paths promise beyond the safety of \<open>PathSafety\<close>: the layout of the stat
  structure, what is known of a descriptor after it was registered, and where the code falls
  short of what it is meant to do.
\<close>

section \<open>The stat structure\<close>

text \<open>Every field is within its C type.\<close>

definition timespec_fits :: "int \<times> int \<Rightarrow> bool" where
  "timespec_fits t \<longleftrightarrow> to_int64 (fst t) = fst t \<and> to_int64 (snd t) = snd t"

definition stat_fits :: "haiku_stat \<Rightarrow> bool" where
  "stat_fits st \<longleftrightarrow>
    is_int32 (st_dev st) \<and> to_int64 (st_ino st) = st_ino st \<and> to_uint32 (st_mode st) = st_mode st \<and>
    is_int32 (st_nlink st) \<and> to_uint32 (st_uid st) = st_uid st \<and> to_uint32 (st_gid st) = st_gid st \<and>
    to_int64 (st_size st) = st_size st \<and> is_int32 (st_rdev st) \<and> is_int32 (st_blksize st) \<and>
    timespec_fits (st_atim st) \<and> timespec_fits (st_mtim st) \<and> timespec_fits (st_ctim st) \<and>
    timespec_fits (st_crtim st) \<and> to_uint32 (st_type st) = st_type st \<and> to_int64 (st_blocks st) = st_blocks st"

lemma length_padding [simp]: "length (padding junk n) = n"
  by (simp add: padding_def)

lemma length_timespec_bytes [simp]: "length (timespec_bytes t) = 16"
  by (simp add: timespec_bytes_def)

lemma to_int64_mod: "to_int64 (x mod 2 ^ 64) = to_int64 x"
proof -
  have "take_bit (Suc 63) (x mod 2 ^ 64) = take_bit (Suc 63) x"
    by (simp add: take_bit_eq_mod)
  then show ?thesis
    unfolding to_int64_def by (simp add: signed_take_bit_eq_iff_take_bit_eq)
qed

lemma field_values:
  "to_int32 (le_val (le_bytes 4 x)) = to_int32 x" "to_int64 (le_val (le_bytes 8 x)) = to_int64 x"
  "le_val (le_bytes 4 x) = to_uint32 x" "to_int32 (to_uint32 x) = to_int32 x"
  using to_int32_mod [of x] to_int64_mod [of x] le_val_le_bytes [of 4 x] le_val_le_bytes [of 8 x]
  by (simp_all add: to_uint32_def take_bit_eq_mod)

text \<open>Fields are found by cutting off, one after the other, what stands in front.\<close>

lemma le_at_front: "le_at (le_bytes n x @ bs) 0 n = le_val (le_bytes n x)"
  by (simp add: le_at_def)

lemma le_at_skip: "length as \<le> i \<Longrightarrow> le_at (as @ bs) i n = le_at bs (i - length as) n"
  by (simp add: le_at_def)

lemma le_at_end: "le_at (le_bytes n x) 0 n = le_val (le_bytes n x)"
  by (simp add: le_at_def)

lemmas le_at_simps = le_at_front le_at_skip le_at_end timespec_bytes_def append_assoc

lemma length_haiku_stat_bytes [simp]: "length (haiku_stat_bytes junk st) = 128"
  by (simp add: haiku_stat_bytes_def)

text \<open>
  The bytes \<open>read_stat\<close> sends to a guest are those \<open>write_stat\<close> understands: laid out and read
  back, a stat structure is the same, whatever is in the padding.
\<close>

theorem stat_structure_roundtrip:
  assumes "stat_fits st"
  shows "haiku_stat_of_bytes (haiku_stat_bytes junk st) = st"
proof -
  have "timespec_at (haiku_stat_bytes junk st) 48 = st_atim st"
    "timespec_at (haiku_stat_bytes junk st) 64 = st_mtim st"
    "timespec_at (haiku_stat_bytes junk st) 80 = st_ctim st"
    "timespec_at (haiku_stat_bytes junk st) 96 = st_crtim st"
    using assms
    by (simp_all add: timespec_at_def haiku_stat_bytes_def le_at_simps field_values stat_fits_def
        timespec_fits_def prod_eq_iff)
  moreover have "le_at (haiku_stat_bytes junk st) 112 4 = st_type st" "le_at (haiku_stat_bytes junk st) 16 4 = st_mode st"
    "le_at (haiku_stat_bytes junk st) 24 4 = st_uid st" "le_at (haiku_stat_bytes junk st) 28 4 = st_gid st"
    using assms by (simp_all add: haiku_stat_bytes_def le_at_simps field_values stat_fits_def)
  moreover have "to_int32 (le_at (haiku_stat_bytes junk st) 0 4) = st_dev st"
    "to_int64 (le_at (haiku_stat_bytes junk st) 8 8) = st_ino st"
    "to_int32 (le_at (haiku_stat_bytes junk st) 20 4) = st_nlink st"
    "to_int64 (le_at (haiku_stat_bytes junk st) 32 8) = st_size st"
    "to_int32 (le_at (haiku_stat_bytes junk st) 40 4) = st_rdev st"
    "to_int32 (le_at (haiku_stat_bytes junk st) 44 4) = st_blksize st"
    "to_int64 (le_at (haiku_stat_bytes junk st) 120 8) = st_blocks st"
    using assms by (simp_all add: haiku_stat_bytes_def le_at_simps field_values stat_fits_def)
  ultimately show ?thesis by (simp add: haiku_stat_of_bytes_def)
qed

theorem stat_structure_roundtrip_witness:
  "haiku_stat_of_bytes (haiku_stat_bytes [] sample_bound_stat) = sample_bound_stat"
proof (rule stat_structure_roundtrip)
  have "to_int64 (fs_Hash 7 2) = fs_Hash 7 2" by code_simp
  moreover have "to_int64 0 = 0" "to_int64 512 = 512" by code_simp+
  moreover have "to_uint32 33188 = 33188" by code_simp
  moreover have "to_uint32 (to_uint32 x) = to_uint32 x" for x by (simp add: to_uint32_def)
  ultimately show "stat_fits sample_bound_stat"
    by (simp add: stat_fits_def sample_bound_stat_def haiku_stat_of_def sample_stat_def timespec_fits_def is_int32_def)
      (simp add: to_uint32_def)
qed

section \<open>A registered descriptor\<close>

lemma map_of_om_insert_same: "map_of (om_insert k v m) k = Some v"
  by (induction k v m rule: om_insert.induct) auto

text \<open>
  C23: a descriptor that \<open>register_fd\<close> has registered with success is known in three ways that
  agree: under its number with a path, that path by its stat in the virtual file system, and the
  device and inode of that stat by an entry reference with the same path. So \<open>get_entry_ref\<close> and
  the node monitor find the file the descriptor stands for.
\<close>

theorem registered_fd_is_known:
  assumes "call_register_fd e c fd parentFd userPath userPathSize t s = Returns (B_OK, s1)"
  shows "\<exists>p st. Process_GetFd (team_of c s1) fd = Some (path_string p) \<and>
    state_ReadStat e c s1 p True = Returns (B_OK, st) \<and>
    GetEntryRef (vst_vfs s1) (ref_of (st_dev st) (st_ino st)) = Some (path_string p)"
proof -
  obtain st0 p0 where rd: "Process_ReadDirFd e c s parentFd userPath userPathSize t = Returns (st0, p0)"
    using assms by (auto simp: call_register_fd_def with_path_def elim!: bind_outcome_ReturnsE)
  let ?p = "lexically_normal p0"
  let ?s = "with_team c (\<lambda>x. Process_RegisterFd x fd (path_string ?p)) s"
  have ok: "st0 = B_OK"
    using assms rd by (auto simp: call_register_fd_def with_path_def split: if_splits)
  then obtain st where st: "state_ReadStat e c ?s ?p True = Returns (B_OK, st)" and s1: "s1 = known_path st ?p ?s"
    using assms rd
    by (auto simp: call_register_fd_def with_path_def Let_def split: if_splits elim!: bind_outcome_ReturnsE)
  have same: "team_env e c s1 = team_env e c ?s" "vs_deviceMounts (vst_vfs s1) = vs_deviceMounts (vst_vfs ?s)"
    "vst_host s1 = vst_host ?s"
    by (simp_all add: s1 known_path_def team_env_def RegisterEntryRef_def Let_def)
  have "Process_GetFd (team_of c s1) fd = Some (path_string ?p)"
    by (simp add: s1 known_path_def with_team_def upd_process_def Process_GetFd_def Process_RegisterFd_def
        map_of_om_insert_same)
  moreover have "state_ReadStat e c s1 ?p True = Returns (B_OK, st)" using st by (simp add: same)
  moreover have "GetEntryRef (vst_vfs s1) (ref_of (st_dev st) (st_ino st)) = Some (path_string ?p)"
    by (simp add: s1 known_path_def RegisterEntryRef_def GetEntryRef_def Let_def update_conv')
  ultimately show ?thesis by blast
qed

lemma sample_file_stat:
  "Vfs_ReadStat (Suc n) sample_env sample_mounts () (FPath True [''f'']) t st = Returns (B_OK, sample_bound_stat)"
proof -
  have c: "clean_path (FPath True [''f''])" by (simp add: clean_path_def proper_name_def)
  have f: "find_drive sample_mounts (FPath True [''f'']) = Some fp_root" by code_simp
  have m: "sample_mounts fp_root = Some sample_host_device"
    by (simp add: sample_mounts_def sample_host_device_def)
  have "HostfsDevice_GetPath sample_env () sample_host_device (FPath True [''h''])
      (FPath True [''f'']) b = Returns (B_OK, FPath True [''h'', ''f''], False)" for b
    by (cases b; simp only:; code_simp)
  moreover have "server_read_stat sample_ops user_map_init () (FPath True [''h'', ''f'']) st =
      (B_OK, haiku_stat_of user_map_init (sample_stat 2 0x81A4))"
    by (simp add: server_read_stat_def is_proc_fd_link_def fp_elements_def sample_ops_def sample_lstat_def)
  moreover have "st_dev (haiku_stat_of user_map_init (sample_stat 2 m)) = 7"
    "st_ino (haiku_stat_of user_map_init (sample_stat 2 m)) = 2" for m
    by (simp_all add: haiku_stat_of_def sample_stat_def to_int32_def to_int64_def)
  ultimately have "device_ReadStat svc sample_env () (FPath True [''f'']) sample_host_device t st =
      Returns (B_OK, FPath True [''h'', ''f''], False, sample_bound_stat)" for svc
    by (simp add: device_ReadStat_def HostfsDevice_ReadStat_def sample_host_device_def
        sample_device_def sample_bound_stat_def sample_info_def sample_env_def)
  then show ?thesis using c f m by (simp add: DoWork_def state_result_def)
qed

theorem registered_fd_is_known_witness:
  "\<exists>s1. call_register_fd sample_call_env sample_context 9 (-1) 64 2 True sample_paths_state = Returns (B_OK, s1) \<and>
    (\<exists>p (st :: haiku_stat). Process_GetFd (team_of sample_context s1) 9 = Some (path_string p) \<and>
      GetEntryRef (vst_vfs s1) (ref_of (st_dev st) (st_ino st)) = Some (path_string p))"
proof -
  have m: "vs_deviceMounts (vst_vfs sample_paths_state) = sample_mounts" "vst_host sample_paths_state = ()"
    by (simp_all add: sample_paths_state_def)
  let ?s = "with_team sample_context (\<lambda>t. Process_RegisterFd t 9 (path_string (FPath True [''f'']))) sample_paths_state"
  have root: "p_root (team_of sample_context ?s) = ''/''"
    using sample_team_root by (simp add: with_team_def upd_process_def Process_RegisterFd_def)
  have ms: "vs_deviceMounts (vst_vfs ?s) = sample_mounts" "vst_host ?s = ()"
    by (simp_all add: with_team_def sample_paths_state_def)
  have st: "state_ReadStat sample_call_env sample_context ?s (FPath True [''f'']) True = Returns (B_OK, sample_bound_stat)"
    using sample_file_stat [of 2] by (simp add: sample_read_path(2) [OF root ms] ms) (simp add: sample_call_env_def numeral_3_eq_3)
  have "lexically_normal (FPath True [''f'']) = FPath True [''f'']"
    by (simp add: clean_path_def proper_name_def)
  then have "call_register_fd sample_call_env sample_context 9 (-1) 64 2 True sample_paths_state =
      Returns (B_OK, known_path sample_bound_stat (FPath True [''f'']) ?s)"
    using st by (simp add: call_register_fd_def with_path_def Let_def sample_read_path [OF sample_team_root m])
  note run = this
  obtain p and st :: haiku_stat where "Process_GetFd (team_of sample_context (known_path sample_bound_stat (FPath True [''f'']) ?s)) 9 =
      Some (path_string p)" and "GetEntryRef (vst_vfs (known_path sample_bound_stat (FPath True [''f'']) ?s))
      (ref_of (st_dev st) (st_ino st)) = Some (path_string p)"
    using registered_fd_is_known [OF run] by blast
  then show ?thesis using run by (intro exI conjI)
qed

section \<open>Leaving the root\<close>

definition sample_jail_host :: host where
  "sample_jail_host = sample_host\<lparr>vm_read := \<lambda>_ _ _. Some ''/../f''\<rparr>"

definition sample_jailed :: "unit vfs_state" where
  "sample_jailed = with_team sample_context (set_root ''/d'') sample_paths_state"

text \<open>
  A team can leave the root that \<open>change_root\<close> gave it. \<open>ReadDirFd\<close> holds back the \<open>..\<close> it finds
  at the level of the root, but only after \<open>RealPath\<close> has resolved every one of them: a team with the
  root \<open>/d\<close> that asks for \<open>/../f\<close> gets the file \<open>/f\<close> next to its root.
\<close>

theorem root_is_left_by_dotdot:
  "p_root (team_of sample_context sample_jailed) = ''/d'' \<and>
   Process_ReadDirFd (sample_call_env\<lparr>ce_memory := sample_jail_host\<rparr>) sample_context sample_jailed
     HAIKU_AT_FDCWD 64 5 True = Returns (B_OK, FPath True [''f''])"
proof
  show root: "p_root (team_of sample_context sample_jailed) = ''/d''"
    by (simp add: sample_jailed_def with_team_def upd_process_def set_root_def)
  let ?e = "sample_call_env\<lparr>ce_memory := sample_jail_host\<rparr>"
  have m: "vs_deviceMounts (vst_vfs sample_jailed) = sample_mounts" "vst_host sample_jailed = ()"
    by (simp_all add: sample_jailed_def with_team_def sample_paths_state_def)
  have r: "team_read ?e sample_context sample_jailed 64 5 = Some ''/../f''"
    by (simp add: team_read_def Process_ReadMemory_def read_exact_def server_read_process_memory_def
        sample_jail_host_def)
  have d: "dirfd_path (team_of sample_context sample_jailed) HAIKU_AT_FDCWD ''/../f'' =
      Inr (FPath True [''d'', ''..'', ''f''], False)"
    unfolding dirfd_path_def Let_def root by code_simp
  have q: "dirfd_resolve 3 (sample_env\<lparr>env_root := parse_path ''/d''\<rparr>) sample_mounts () True
      (FPath True [''d'', ''..'', ''f'']) = Returns (FPath True [''f''])"
    by code_simp
  have j: "lexically_normal (jail_path (parse_path ''/d'') (drop_slash (FPath True [''f'']))) = FPath True [''f'']"
    by code_simp
  show "Process_ReadDirFd ?e sample_context sample_jailed HAIKU_AT_FDCWD 64 5 True = Returns (B_OK, FPath True [''f''])"
    using q j by (simp add: Process_ReadDirFd_def r d m root team_env_def) (simp add: sample_call_env_def)
qed

text \<open>
  A hidden path comes back from \<open>GetPath\<close> as it was, a guest path, with the status of a file that
  does not exist. \<open>vchroot_expandat\<close> accepts that status and hands the path out as a host path.
\<close>

lemma hidden_path_is_handed_out:
  "Vfs_GetPath 1 sample_env [fp_root \<mapsto> sample_device 1 fp_root (RootfsDevice (FPath True [''h'']))] ()
    (FPath True [''.hyclone'']) True = Returns (B_ENTRY_NOT_FOUND, FPath True [''.hyclone''])"
  by code_simp

text \<open>The root directory itself is reported as \<open>/.\<close>.\<close>

lemma root_is_reported_with_dot:
  assumes "p_root t = ''/''"
  shows "path_string (seen_from_root t fp_root) = ''/.''"
  unfolding seen_from_root_def Let_def assms by code_simp

text \<open>A directory whose name begins with two dots is taken for one outside the root.\<close>

lemma cwd_with_dots_in_its_name:
  assumes "p_root t = ''/d''"
  shows "p_cwd t = ''/d/x'' \<Longrightarrow> cwd_string t True = ''/x''"
    and "p_cwd t = ''/d/..x'' \<Longrightarrow> cwd_string t True = ''/d/..x''"
  unfolding cwd_string_def Let_def assms by (simp only:, code_simp)+

text \<open>The size of the buffer for a stat structure is taken from the guest.\<close>

lemma stat_size_overruns:
  assumes "call_read_stat e c fd userPath userPathSize t buf 128 s = Returns (B_OK, s')" and "n > 128"
  shows "call_read_stat e c fd userPath userPathSize t buf n s = Undefined"
proof -
  obtain p where rd: "Process_ReadDirFd e c s fd userPath userPathSize t = Returns (B_OK, p)"
    using assms(1) by (auto simp: call_read_stat_def with_path_def split: if_splits elim!: bind_outcome_ReturnsE)
  moreover obtain st where "state_ReadStat e c s p t = Returns (B_OK, st)"
    using assms(1) rd by (auto simp: call_read_stat_def with_path_def split: if_splits elim!: bind_outcome_ReturnsE)
  ultimately show ?thesis
    using assms(2) by (simp add: call_read_stat_def with_path_def sizeof_haiku_stat_def)
qed

end
