(* ===== verification/ProcInfo.thy ===== *)
theory ProcInfo
  imports UserMap Thread
begin

text \<open>
  What \<^verbatim>\<open>hyclone_server/sys/linux/server_native.cpp\<close> adds to the description of a team or a
  thread from \<^verbatim>\<open>/proc\<close>: the files of a process are arguments, their parsing is translated.
\<close>

text \<open>
  The files \<^verbatim>\<open>maps\<close>, \<^verbatim>\<open>cmdline\<close> and \<^verbatim>\<open>stat\<close> of a process, empty when they cannot be read; the
  number of entries of \<^verbatim>\<open>task\<close> and the owner of the directory, \<open>None\<close> on an error.
\<close>

record proc_host =
  proc_tasks :: "int \<Rightarrow> nat option"
  proc_maps :: "int \<Rightarrow> string"
  proc_cmdline :: "int \<Rightarrow> string"
  proc_stat :: "int \<Rightarrow> string"
  proc_owner :: "int \<Rightarrow> (int \<times> int) option"
  proc_self :: int
  clock_ticks :: int

section \<open>Reading words\<close>

text \<open>The words \<open>stream >> s\<close> reads one after the other.\<close>

function stream_words :: "string \<Rightarrow> string list" where
  "stream_words s =
    (let t = dropWhile is_space s in
     if t = [] then []
     else takeWhile (\<lambda>c. \<not> is_space c) t # stream_words (dropWhile (\<lambda>c. \<not> is_space c) t))"
  by pat_completeness auto

lemma shorter_rest:
  assumes "dropWhile is_space s \<noteq> []"
  shows "length (dropWhile (\<lambda>c. \<not> is_space c) (dropWhile is_space s)) < length s"
proof -
  obtain c t where t: "dropWhile is_space s = c # t" using assms by (cases "dropWhile is_space s") auto
  then have "\<not> is_space c" using hd_dropWhile [OF assms] by simp
  moreover have "length (dropWhile (\<lambda>c. \<not> is_space c) t) \<le> length t" by (rule length_dropWhile_le)
  moreover have "length (c # t) \<le> length s" using length_dropWhile_le [of is_space s] t by simp
  ultimately show ?thesis by (simp add: t)
qed

termination stream_words
  by (relation "measure length") (use shorter_rest in auto)

declare stream_words.simps [simp del]

text \<open>A number out of a whole word; a word that is none gives 0, a value out of range the bound.\<close>

definition stream_num :: "int \<Rightarrow> int \<Rightarrow> string \<Rightarrow> int" where
  "stream_num lo hi s =
    (let neg = (s \<noteq> [] \<and> hd s = CHR ''-'');
         t = (if s \<noteq> [] \<and> hd s \<in> {CHR ''-'', CHR ''+''} then tl s else s);
         v = digits_val (takeWhile is_digit t)
     in max lo (min hi (if neg then - v else v)))"

definition has_substring :: "string \<Rightarrow> string \<Rightarrow> bool" where
  "has_substring p s = list_ex (\<lambda>i. take (length p) (drop i s) = p) [0..<Suc (length s)]"

text \<open>A variable that \<open>n\<close> words are read into; where no word is left it keeps the last one.\<close>

definition word_into :: "nat \<Rightarrow> string \<Rightarrow> string" where
  "word_into n l = (let ws = stream_words l in if ws = [] then l else ws ! (min n (length ws) - 1))"

section \<open>Teams\<close>

definition B_SYSTEM_TEAM :: int where "B_SYSTEM_TEAM = 1"

text \<open>The path of a mapped library, of a line of \<^verbatim>\<open>maps\<close>.\<close>

definition mapped_library :: "string \<Rightarrow> string option" where
  "mapped_library l =
    (if CHR ''x'' \<notin> set (word_into 2 l) then None
     else if has_substring ''.so'' (word_into 6 l) then Some (word_into 6 l) else None)"

definition count_images :: "string \<Rightarrow> int" where
  "count_images maps =
    int (length (remdups (List.map_filter mapped_library (pieces (CHR 0x0A) maps)))) + 1"

definition count_lines :: "string \<Rightarrow> int" where
  "count_lines s = int (length (filter (\<lambda>c. c = CHR 0x0A) s))"

definition join_arg :: "string \<Rightarrow> string \<Rightarrow> string" where
  "join_arg args arg = (if length args < 64 then args @ arg @ '' '' else args)"

definition with_args :: "string list \<Rightarrow> haiku_team_info \<Rightarrow> haiku_team_info" where
  "with_args argv x =
    (let args = foldl join_arg [] argv;
         n = min 64 (length args + 1)
     in x\<lparr>ti_argc := to_int32 (int (length argv)),
          ti_args := take n (args @ [CHR 0x00]) @ drop n (ti_args x)\<rparr>)"

definition fill_owner :: "user_map_service \<Rightarrow> (int \<times> int) option \<Rightarrow> haiku_team_info \<Rightarrow> haiku_team_info" where
  "fill_owner um own x =
    (case own of None \<Rightarrow> x
     | Some (u, g) \<Rightarrow> x\<lparr>ti_uid := to_uint32 (GetUid um u), ti_gid := to_uint32 (GetGid um g)\<rparr>)"

definition server_fill_team_info ::
    "proc_host \<Rightarrow> user_map_service \<Rightarrow> haiku_team_info \<Rightarrow> haiku_team_info" where
  "server_fill_team_info pr um x =
    (let x = (if ti_team x = 0 then x\<lparr>ti_team := B_SYSTEM_TEAM\<rparr> else x);
         pid = ti_team x;
         x = (if ti_thread_count x = 0
              then x\<lparr>ti_thread_count := (case proc_tasks pr pid of None \<Rightarrow> 0 | Some n \<Rightarrow> to_int32 (int n))\<rparr> else x);
         x = (if ti_image_count x = 0 then x\<lparr>ti_image_count := to_int32 (count_images (proc_maps pr pid))\<rparr> else x);
         x = (if ti_area_count x = 0 then x\<lparr>ti_area_count := to_int32 (count_lines (proc_maps pr pid))\<rparr> else x);
         x = (if ti_argc x = 0 then with_args (pieces (CHR 0x00) (proc_cmdline pr pid)) x else x)
     in if ti_uid x = 2 ^ 32 - 1 then fill_owner um (proc_owner pr pid) x else x)"

text \<open>The fields of \<^verbatim>\<open>stat\<close> after the name in parentheses.\<close>

definition stat_fields :: "string \<Rightarrow> string list" where
  "stat_fields s = stream_words (tl (dropWhile (\<lambda>c. c \<noteq> CHR '')'') s))"

definition field_num :: "int \<Rightarrow> int \<Rightarrow> nat \<Rightarrow> string list \<Rightarrow> int" where
  "field_num lo hi n ws = (if n < length ws then stream_num lo hi (ws ! n) else 0)"

definition server_fill_extended_team_info :: "proc_host \<Rightarrow> int \<Rightarrow> int \<Rightarrow> int \<Rightarrow> int \<times> int" where
  "server_fill_extended_team_info pr pid pgid sid =
    (let ws = stat_fields (proc_stat pr (if pid = 0 then proc_self pr else pid));
         pgid = (if pgid = 0 then field_num (- (2 ^ 31)) INT_MAX 2 ws else pgid)
     in (pgid, if sid = 0 then field_num (- (2 ^ 31)) INT_MAX 3 ws else sid))"

section \<open>Threads\<close>

definition B_THREAD_ASLEEP :: int where "B_THREAD_ASLEEP = 4"
definition B_THREAD_WAITING :: int where "B_THREAD_WAITING = 6"

definition thread_state_of :: "char \<Rightarrow> int" where
  "thread_state_of c =
    (if c = CHR ''R'' then B_THREAD_RUNNING
     else if c = CHR ''S'' then B_THREAD_ASLEEP
     else if c = CHR ''D'' then B_THREAD_WAITING
     else B_THREAD_SUSPENDED)"

text \<open>
  \<open>(uint64_t)(clockTicks / (long double)1000000.0)\<close> is a division of integers. A file that ends
  before the priority leaves variables without a value: \<open>None\<close>.
\<close>

definition server_fill_thread_info :: "proc_host \<Rightarrow> haiku_thread_info \<Rightarrow> haiku_thread_info option" where
  "server_fill_thread_info pr x =
    (let ws = stat_fields (proc_stat pr (hi_thread x));
         num = (\<lambda>n. field_num 0 (2 ^ 64 - 1) n ws);
         factor = clock_ticks pr div 1000000
     in if length ws < 38 then None
        else Some (x\<lparr>hi_state := thread_state_of (hd (ws ! 0)),
               hi_user_time := (num 11 * factor) mod 2 ^ 64, hi_kernel_time := (num 12 * factor) mod 2 ^ 64,
               hi_stack_base := (if num 25 \<noteq> 0 then num 25 else hi_stack_base x),
               hi_stack_end := (if num 26 \<noteq> 0 then num 26 else hi_stack_end x),
               hi_priority := field_num (- (2 ^ 31)) INT_MAX 37 ws\<rparr>))"

section \<open>Facts\<close>

lemma filled_team: "ti_team (server_fill_team_info pr um x) = (if ti_team x = 0 then B_SYSTEM_TEAM else ti_team x)"
  by (auto simp: server_fill_team_info_def with_args_def fill_owner_def Let_def split: option.splits)

text \<open>What a team has registered is reported as it is: only unset fields are filled in.\<close>

lemma fill_keeps_registered:
  assumes "ti_team x \<noteq> 0" "ti_thread_count x \<noteq> 0" "ti_image_count x \<noteq> 0" "ti_area_count x \<noteq> 0" "ti_argc x \<noteq> 0"
    and "ti_uid x \<noteq> 2 ^ 32 - 1"
  shows "server_fill_team_info pr um x = x"
  using assms by (simp add: server_fill_team_info_def)

text \<open>Linux counts 100 ticks a second: every thread is reported to have run for no time.\<close>

lemma thread_times_are_zero:
  assumes "server_fill_thread_info pr x = Some y" and "0 \<le> clock_ticks pr" and "clock_ticks pr < 1000000"
  shows "hi_user_time y = 0 \<and> hi_kernel_time y = 0"
  using assms by (auto simp: server_fill_thread_info_def Let_def split: if_splits)

text \<open>
  A parenthesis in the name of a program ends the name too early: the parent is taken for the
  process group and the group for the session.
\<close>

lemma name_with_parenthesis_shifts_fields:
  assumes "proc_stat pr 7 = ''7 (a) b) S 1 5 6 0''"
  shows "server_fill_extended_team_info pr 7 0 0 = (1, 5)"
proof -
  have "stat_fields ''7 (a) b) S 1 5 6 0'' = [''b)'', ''S'', ''1'', ''5'', ''6'', ''0'']" by code_simp
  moreover have "stream_num (- (2 ^ 31)) INT_MAX ''1'' = 1" "stream_num (- (2 ^ 31)) INT_MAX ''5'' = 5"
    by code_simp+
  ultimately show ?thesis using assms by (simp add: server_fill_extended_team_info_def field_num_def Let_def)
qed

end
