(* ===== verification/TeamCalls.thy ===== *)
theory TeamCalls
  imports ProcInfo VfsCalls KMessage ThreadCalls
begin

text \<open>
  The rest of the calls of \<^verbatim>\<open>hyclone_server/process.cpp\<close>: \<open>exec\<close>, the descriptions of teams,
  and the user and group ids of a team.
\<close>

definition call_exec :: "hserver_context \<Rightarrow> bool \<Rightarrow> world \<Rightarrow> int \<times> world" where
  "call_exec c isExec w = (B_OK, upd_process (ctx_process c) (\<lambda>p. p\<lparr>p_isExecutingExec := isExec\<rparr>) w)"

section \<open>Descriptions\<close>

definition B_TEAM_INFO_BASIC :: int where "B_TEAM_INFO_BASIC = 1"

text \<open>The zeroed description of the system team, before it is filled in.\<close>

definition system_team_info :: haiku_team_info where
  "system_team_info = zero_team_info\<lparr>ti_debugger_nub_thread := -1, ti_debugger_nub_port := -1\<rparr>"

definition call_get_team_info ::
    "host \<Rightarrow> proc_host \<Rightarrow> user_map_service \<Rightarrow> hserver_context \<Rightarrow> int \<Rightarrow> int \<Rightarrow> world \<Rightarrow> int \<times> world" where
  "call_get_team_info h pr um c teamId userTeamInfo w =
    (case (if teamId = B_SYSTEM_TEAM then Some system_team_info
           else map_option (\<lambda>p. p_info (processObjs w p))
                  (if teamId = B_CURRENT_TEAM then Some (ctx_process c) else System_GetProcess w teamId)) of
       None \<Rightarrow> (B_BAD_TEAM_ID, w)
     | Some info \<Rightarrow>
         (case write_guest h (ctx_pid c) userTeamInfo (OTeamInfo (server_fill_team_info pr um info)) w of
            None \<Rightarrow> (B_BAD_ADDRESS, w)
          | Some w' \<Rightarrow> (B_OK, w')))"

text \<open>
  The next cookie and the description it comes with. After the system team the cookie is -2, below
  every id. \<open>None\<close>: an id without a team, whose description would not be set.
\<close>

definition next_team ::
    "proc_host \<Rightarrow> user_map_service \<Rightarrow> world \<Rightarrow> int \<Rightarrow> (int \<times> haiku_team_info option) option" where
  "next_team pr um w cookie =
    (if cookie = 0 then Some (-2, Some (server_fill_team_info pr um system_team_info))
     else
       (let next = System_NextProcessId w cookie in
        if next = -1 then Some (-1, None)
        else case System_GetProcess w next of
            None \<Rightarrow> None
          | Some p \<Rightarrow> Some (next, Some (server_fill_team_info pr um (p_info (processObjs w p))))))"

definition call_get_next_team_info ::
    "host \<Rightarrow> proc_host \<Rightarrow> user_map_service \<Rightarrow> hserver_context \<Rightarrow> int \<Rightarrow> int \<Rightarrow> world \<Rightarrow>
      (int \<times> world) option" where
  "call_get_next_team_info h pr um c userCookie userTeamInfo w =
    (case Process_ReadMemory h (the_process c w) userCookie 4 of
       None \<Rightarrow> Some (B_BAD_ADDRESS, w)
     | Some bs \<Rightarrow>
         if dec_int32 bs = -1 then Some (B_BAD_VALUE, w)
         else
           (case next_team pr um w (dec_int32 bs) of
              None \<Rightarrow> None
            | Some (cookie, info) \<Rightarrow>
                (case Process_WriteMemory h c userCookie (OInt32 cookie) w of
                   None \<Rightarrow> Some (B_BAD_ADDRESS, w)
                 | Some w1 \<Rightarrow>
                     (case info of
                        None \<Rightarrow> Some (B_BAD_VALUE, w1)
                      | Some x \<Rightarrow> Some (reply_with h c userTeamInfo (OTeamInfo x) B_OK w1)))))"

definition call_register_team_info :: "host \<Rightarrow> hserver_context \<Rightarrow> int \<Rightarrow> world \<Rightarrow> int \<times> world" where
  "call_register_team_info h c userTeamInfo w =
    (case read_exact h (ctx_pid c) userTeamInfo sizeof_team_info of
       None \<Rightarrow> (B_BAD_ADDRESS, w)
     | Some bs \<Rightarrow>
         (let info = dec_team_info bs
          in if ti_team info \<noteq> ctx_pid c then (B_NOT_ALLOWED, w)
             else (B_OK, upd_process (ctx_process c) (\<lambda>p. p\<lparr>p_info := info\<rparr>) w)))"

subsection \<open>The extended description\<close>

text \<open>\<open>a || b || ...\<close>: the fields are added until one cannot be.\<close>

fun add_all :: "(kmessage \<Rightarrow> (int \<times> kmessage) option) list \<Rightarrow> kmessage \<Rightarrow> (bool \<times> kmessage) option" where
  "add_all [] m = Some (True, m)"
| "add_all (f # fs) m =
    (case f m of None \<Rightarrow> None | Some (status, m') \<Rightarrow> if status \<noteq> B_OK then Some (False, m') else add_all fs m')"

definition team_fields :: "km_heap \<Rightarrow> proc_host \<Rightarrow> process \<Rightarrow> (kmessage \<Rightarrow> (int \<times> kmessage) option) list" where
  "team_fields k pr p =
    (let (pgid, sid) = server_fill_extended_team_info pr (p_pid p) (p_pgid p) (p_sid p) in
     [KMessage_AddInt32 k (Some ''id'') (p_pid p), KMessage_AddString k (Some ''name'') (Some (cstr (Process_GetName p))),
      KMessage_AddInt32 k (Some ''process group'') pgid, KMessage_AddInt32 k (Some ''session'') sid,
      KMessage_AddInt32 k (Some ''uid'') (p_uid p), KMessage_AddInt32 k (Some ''gid'') (p_gid p),
      KMessage_AddInt32 k (Some ''euid'') (p_euid p), KMessage_AddInt32 k (Some ''egid'') (p_egid p)])"

definition cwd_fields :: "km_heap \<Rightarrow> haiku_stat \<Rightarrow> (kmessage \<Rightarrow> (int \<times> kmessage) option) list" where
  "cwd_fields k st =
    [KMessage_AddInt32 k (Some ''cwd device'') (st_dev st), KMessage_AddInt64 k (Some ''cwd directory'') (st_ino st)]"

text \<open>A member of the message class that runs into undefined behaviour takes the call with it.\<close>

definition or_undefined :: "'a option \<Rightarrow> ('a \<Rightarrow> 'b outcome) \<Rightarrow> 'b outcome" where
  "or_undefined r f = (case r of None \<Rightarrow> Undefined | Some x \<Rightarrow> f x)"

text \<open>The message for \<open>B_TEAM_INFO_BASIC\<close>, or the status the call ends with.\<close>

definition known_name :: "haiku_stat \<Rightarrow> string \<Rightarrow> 'h vfs_state \<Rightarrow> 'h vfs_state" where
  "known_name st n s =
    s\<lparr>vst_vfs := snd (RegisterEntryRef (ref_of (st_dev st) (st_ino st)) n (vst_vfs s))\<rparr>"

definition basic_team_message ::
    "'h call_env \<Rightarrow> km_heap \<Rightarrow> proc_host \<Rightarrow> hserver_context \<Rightarrow> process \<Rightarrow> kmessage \<Rightarrow> 'h vfs_state \<Rightarrow>
      ((int + kmessage) \<times> 'h vfs_state) outcome" where
  "basic_team_message e k pr c p m s =
    or_undefined (add_all (team_fields k pr p) m) (\<lambda>(ok, m1).
      if \<not> ok then Returns (Inl B_NO_MEMORY, s)
      else
        bind_outcome (state_ReadStat e c s (parse_path (p_cwd p)) True) (\<lambda>(status, st).
          if status \<noteq> B_OK then Returns (Inl status, s)
          else
            (let s1 = known_name st (p_cwd p) s in
             or_undefined (add_all (cwd_fields k st) m1) (\<lambda>(ok, m2).
               Returns (if ok then Inr m2 else Inl B_NO_MEMORY, s1)))))"

text \<open>\<open>KMessage info;\<close>\<close>

definition KMessage_default :: "int \<Rightarrow> kmessage option" where
  "KMessage_default self =
    KMessage_Unset \<lparr>km_self = self, km_addr = 0, km_mem = [], km_capacity = 0, km_flags = 0, km_last = 0,
      km_inline = False\<rparr>"

definition call_get_extended_team_info ::
    "'h call_env \<Rightarrow> km_heap \<Rightarrow> int \<Rightarrow> proc_host \<Rightarrow> hserver_context \<Rightarrow> int \<Rightarrow> int \<Rightarrow> int \<Rightarrow> int \<Rightarrow> int \<Rightarrow>
      'h vfs_state \<Rightarrow> (int \<times> 'h vfs_state) outcome" where
  "call_get_extended_team_info e k self pr c teamID flags userBuffer userBufferSize userSizeNeeded s =
    (case (if teamID = B_CURRENT_TEAM then Some (ctx_process c) else System_GetProcess (vst_world s) teamID) of
       None \<Rightarrow> Returns (B_BAD_TEAM_ID, s)
     | Some r \<Rightarrow>
         or_undefined (KMessage_default self) (\<lambda>m.
           bind_outcome
             (if flags AND B_TEAM_INFO_BASIC \<noteq> 0
              then basic_team_message e k pr c (processObjs (vst_world s) r) m s
              else Returns (Inr m, s)) (\<lambda>(res, s1).
             case res of
               Inl status \<Rightarrow> Returns (status, s1)
             | Inr m \<Rightarrow>
                 or_undefined (KMessage_ContentSize m) (\<lambda>sizeNeeded.
                   case Process_WriteMemory (ce_memory e) c userSizeNeeded (OUint64 sizeNeeded) (vst_world s1) of
                     None \<Rightarrow> Returns (B_BAD_ADDRESS, s1)
                   | Some w \<Rightarrow>
                       (let s2 = s1\<lparr>vst_world := w\<rparr> in
                        if sizeNeeded > userBufferSize then Returns (B_BUFFER_OVERFLOW, s2)
                        else Returns (team_reply e c userBuffer (take (nat sizeNeeded) (km_mem m)) B_OK s2))))))"

section \<open>User and group ids\<close>

definition call_getuid :: "hserver_context \<Rightarrow> bool \<Rightarrow> world \<Rightarrow> int" where
  "call_getuid c effective w = (if effective then p_euid (the_process c w) else p_uid (the_process c w))"

definition call_getgid :: "hserver_context \<Rightarrow> bool \<Rightarrow> world \<Rightarrow> int" where
  "call_getgid c effective w = (if effective then p_egid (the_process c w) else p_gid (the_process c w))"

text \<open>\<open>setAllIfPrivileged\<close>: the real id is also the effective one.\<close>

definition both_ids :: "bool \<Rightarrow> int \<Rightarrow> int \<Rightarrow> int \<times> int" where
  "both_ids setAll real eff = (if setAll then (if real \<noteq> -1 then (real, real) else (eff, eff)) else (real, eff))"

definition host_gid :: "user_map_service \<Rightarrow> int \<Rightarrow> int" where
  "host_gid um g = (if g \<ge> HYCLONE_MIN_HOST_GID then GetHostGid um g else -1)"

definition host_uid :: "user_map_service \<Rightarrow> int \<Rightarrow> int" where
  "host_uid um u = (if u \<ge> HYCLONE_MIN_HOST_UID then GetHostUid um u else -1)"

definition set_gids :: "int \<times> int \<Rightarrow> process \<Rightarrow> process" where
  "set_gids ids p =
    (let p = (if fst ids \<noteq> -1 then p\<lparr>p_gid := fst ids\<rparr> else p)
     in if snd ids \<noteq> -1 then p\<lparr>p_egid := snd ids\<rparr> else p)"

definition set_uids :: "int \<times> int \<Rightarrow> process \<Rightarrow> process" where
  "set_uids ids p =
    (let p = (if fst ids \<noteq> -1 then p\<lparr>p_uid := fst ids\<rparr> else p)
     in if snd ids \<noteq> -1 then p\<lparr>p_euid := snd ids\<rparr> else p)"

text \<open>
  The ids of the host go to the guest first. With one of them the call ends there: the guest sets
  its ids with the host and calls again without pointers.
\<close>

definition report_host_ids ::
    "host \<Rightarrow> hserver_context \<Rightarrow> int \<Rightarrow> int \<Rightarrow> int \<Rightarrow> int \<Rightarrow> world \<Rightarrow> world option" where
  "report_host_ids h c userReal userEffective hr he w =
    (case Process_WriteMemory h c userReal (OInt64s [hr]) w of
       None \<Rightarrow> None
     | Some w1 \<Rightarrow> Process_WriteMemory h c userEffective (OInt64s [he]) w1)"

definition partial_write :: "host \<Rightarrow> hserver_context \<Rightarrow> int \<Rightarrow> guest_object \<Rightarrow> world \<Rightarrow> world" where
  "partial_write h c addr obj w = (case Process_WriteMemory h c addr obj w of None \<Rightarrow> w | Some w1 \<Rightarrow> w1)"

definition call_setregid ::
    "host \<Rightarrow> user_map_service \<Rightarrow> hserver_context \<Rightarrow> int \<Rightarrow> int \<Rightarrow> bool \<Rightarrow> int \<Rightarrow> int \<Rightarrow> world \<Rightarrow> int \<times> world" where
  "call_setregid h um c realGID effectiveGID setAll userReal userEffective w =
    (if realGID = -1 \<and> effectiveGID = -1 then (B_BAD_VALUE, w)
     else
       (let ids = both_ids setAll realGID effectiveGID;
            set = (\<lambda>w. (B_OK, upd_process (ctx_process c) (set_gids ids) w))
        in if userReal \<noteq> 0 \<and> userEffective \<noteq> 0 then
             (let hr = host_gid um (fst ids); he = host_gid um (snd ids) in
              case report_host_ids h c userReal userEffective hr he w of
                None \<Rightarrow> (B_BAD_ADDRESS, partial_write h c userReal (OInt64s [hr]) w)
              | Some w1 \<Rightarrow> if hr \<noteq> -1 \<or> he \<noteq> -1 then (B_OK, w1) else set w1)
           else set w))"

definition call_setreuid ::
    "host \<Rightarrow> user_map_service \<Rightarrow> hserver_context \<Rightarrow> int \<Rightarrow> int \<Rightarrow> bool \<Rightarrow> int \<Rightarrow> int \<Rightarrow> world \<Rightarrow> int \<times> world" where
  "call_setreuid h um c realUID effectiveUID setAll userReal userEffective w =
    (if realUID = -1 \<and> effectiveUID = -1 then (B_BAD_VALUE, w)
     else
       (let ids = both_ids setAll realUID effectiveUID;
            set = (\<lambda>w. (B_OK, upd_process (ctx_process c) (set_uids ids) w))
        in if userReal \<noteq> 0 \<and> userEffective \<noteq> 0 then
             (let hr = host_uid um (fst ids); he = host_uid um (snd ids) in
              case report_host_ids h c userReal userEffective hr he w of
                None \<Rightarrow> (B_BAD_ADDRESS, partial_write h c userReal (OInt64s [hr]) w)
              | Some w1 \<Rightarrow> if hr \<noteq> -1 \<or> he \<noteq> -1 then (B_OK, w1) else set w1)
           else set w))"

subsection \<open>Groups\<close>

definition call_getgroups :: "host \<Rightarrow> hserver_context \<Rightarrow> int \<Rightarrow> int \<Rightarrow> world \<Rightarrow> int \<times> world" where
  "call_getgroups h c groupCount groupList w =
    (let groups = p_groups (the_process c w); n = int (length groups) in
     if groupCount = 0 then (n, w)
     else if groupCount < n then (B_BAD_VALUE, w)
     else reply_with h c groupList (OInt32s (take (nat (min groupCount n)) groups)) (min groupCount n) w)"

definition int32s_at :: "nat \<Rightarrow> byte list \<Rightarrow> int list" where
  "int32s_at n bs = map (\<lambda>i. i32_at (4 * i) bs) [0..<n]"

text \<open>
  \<open>std::vector<int>\<close> throws for more than 2^61 - 1 elements and nothing catches it: \<open>None\<close>. That
  the server has the memory for a smaller vector is taken for granted.
\<close>

definition int_vector_max :: int where "int_vector_max = 2 ^ 61 - 1"

definition call_setgroups ::
    "host \<Rightarrow> user_map_service \<Rightarrow> hserver_context \<Rightarrow> int \<Rightarrow> int \<Rightarrow> int \<Rightarrow> world \<Rightarrow> (int \<times> world) option" where
  "call_setgroups h um c groupCount groupList hostGroupList w =
    (if groupCount > int_vector_max then None
     else
       (case (if hostGroupList = 0 \<and> groupCount = 0 then Some []
              else Process_ReadMemory h (the_process c w) groupList (groupCount * 4)) of
          None \<Rightarrow> Some (B_BAD_ADDRESS, w)
        | Some bs \<Rightarrow>
            (let groups = int32s_at (nat groupCount) bs in
             if hostGroupList = 0 then Some (B_OK, upd_process (ctx_process c) (\<lambda>p. p\<lparr>p_groups := groups\<rparr>) w)
             else
               (let mapped = filter (\<lambda>g. \<not> g < HYCLONE_MIN_HOST_GID) groups;
                    hostGroups = map (GetHostGid um) mapped;
                    needed = (\<exists>g\<in>set mapped. g \<notin> set (p_groups (the_process c w)))
                in Some (if needed
                         then reply_with h c hostGroupList (OInt64s hostGroups) (int (length hostGroups)) w
                         else (0, w))))))"

end
