(* ===== verification/TeamCallFacts.thy ===== *)
theory TeamCallFacts
  imports TeamCalls FileCallFacts
begin

text \<open>
  Properties of the team calls (theory TeamCalls): the message with the extended description
  can be read by its receiver, and enumerating the teams ends with every team listed.
\<close>

section \<open>The extended description\<close>

lemma run_add_all:
  "km_run k as m = Some (replicate (length as) B_OK, m') \<Longrightarrow> add_all (map (km_add_step k) as) m = Some (True, m')"
  by (induction as arbitrary: m) (auto split: bind_splits)

lemma add_all_append:
  assumes "add_all (fs @ gs) m = Some (True, m')"
  obtains m1 where "add_all fs m = Some (True, m1)" "add_all gs m1 = Some (True, m')"
  using assms by (induction fs m rule: add_all.induct) (auto split: option.splits prod.splits if_splits)

definition int_field :: "string \<Rightarrow> int \<Rightarrow> km_add" where
  "int_field name v = Add_Data name B_INT32_TYPE (le_bytes 4 v) True"

definition team_adds :: "string \<Rightarrow> process \<Rightarrow> int \<times> int \<Rightarrow> haiku_stat \<Rightarrow> km_add list" where
  "team_adds name p ids st =
    [int_field ''id'' (p_pid p), Add_Data ''name'' B_STRING_TYPE (name @ [CHR 0x00]) False,
     int_field ''process group'' (fst ids), int_field ''session'' (snd ids), int_field ''uid'' (p_uid p),
     int_field ''gid'' (p_gid p), int_field ''euid'' (p_euid p), int_field ''egid'' (p_egid p),
     int_field ''cwd device'' (st_dev st), Add_Data ''cwd directory'' B_INT64_TYPE (le_bytes 8 (st_ino st)) True]"

definition one_value :: "string \<Rightarrow> int \<Rightarrow> int \<Rightarrow> byte list \<Rightarrow> kfield" where
  "one_value name type es v = \<lparr>kf_name = name, kf_type = type, kf_size = es, kf_values = [v]\<rparr>"

definition team_list :: "string \<Rightarrow> process \<Rightarrow> int \<times> int \<Rightarrow> haiku_stat \<Rightarrow> kfield list" where
  "team_list name p ids st =
    [one_value ''id'' B_INT32_TYPE 4 (le_bytes 4 (p_pid p)),
     one_value ''name'' B_STRING_TYPE (-1) (name @ [CHR 0x00]),
     one_value ''process group'' B_INT32_TYPE 4 (le_bytes 4 (fst ids)),
     one_value ''session'' B_INT32_TYPE 4 (le_bytes 4 (snd ids)),
     one_value ''uid'' B_INT32_TYPE 4 (le_bytes 4 (p_uid p)),
     one_value ''gid'' B_INT32_TYPE 4 (le_bytes 4 (p_gid p)),
     one_value ''euid'' B_INT32_TYPE 4 (le_bytes 4 (p_euid p)),
     one_value ''egid'' B_INT32_TYPE 4 (le_bytes 4 (p_egid p)),
     one_value ''cwd device'' B_INT32_TYPE 4 (le_bytes 4 (st_dev st)),
     one_value ''cwd directory'' B_INT64_TYPE 8 (le_bytes 8 (st_ino st))]"

lemma chunk_all: "length data = n \<Longrightarrow> chunks n (Suc 0) data = [data]"
  by simp

lemma no_field: "name \<notin> kf_name ` set fs \<Longrightarrow> dropWhile (\<lambda>f. kf_name f \<noteq> name) fs = []"
  by auto

lemma add_data_new:
  "name \<notin> kf_name ` set fs \<Longrightarrow>
    km_add_fields (Add_Data name type v fixed) fs =
      (B_OK, fs @ [one_value name type (if fixed then int (length v) else -1) v])"
  by (simp only: km_add_fields.simps add_elements_def no_field list.case one_value_def not_False_eq_True) simp

lemma add_int_new:
  "name \<notin> kf_name ` set fs \<Longrightarrow>
    km_add_fields (int_field name v) fs = (B_OK, fs @ [one_value name B_INT32_TYPE 4 (le_bytes 4 v)])"
  by (simp only: int_field_def add_data_new not_False_eq_True) simp

lemma team_adds_fields:
  "km_run_fields (team_adds name p ids st) [] = (replicate 10 B_OK, team_list name p ids st)"
  by (simp add: team_adds_def team_list_def add_int_new add_data_new one_value_def eval_nat_numeral
      del: km_add_fields.simps le_bytes.simps)

definition one_bound :: "kfield \<Rightarrow> int" where
  "one_bound f = 64 + int (length (kf_name f)) + int (length (hd (kf_values f)))"

lemma one_value_end:
  assumes "kf_values f = [v]" "kf_size f = -1 \<or> kf_size f = int (length v)"
  shows "field_end (align4 off) f \<le> off + one_bound f"
  using assms align4_bounds(2) [of off] align4_bounds(2) [of "20 + int (length (kf_name f))"]
    align4_bounds(2) [of "align4 off + align4 (20 + int (length (kf_name f)))"]
  by (auto simp: field_end_def value_end_def header_size_def one_bound_def)

lemma single_values_end:
  "\<forall>f\<in>set fs. \<exists>v. kf_values f = [v] \<and> (kf_size f = -1 \<or> kf_size f = int (length v)) \<Longrightarrow>
    fields_end off fs \<le> off + sum_list (map one_bound fs)"
proof (induction fs arbitrary: off)
  case (Cons f fs)
  then have "fields_end (field_end (align4 off) f) fs \<le> field_end (align4 off) f + sum_list (map one_bound fs)"
    by simp
  moreover have "field_end (align4 off) f \<le> off + one_bound f" using one_value_end Cons.prems by auto
  ultimately show ?case by simp
qed simp

lemma team_list_size:
  assumes "length name \<le> 64"
  shows "fields_end 28 (team_list name p ids st) \<le> 1000"
proof -
  let ?l = "team_list name p ids st"
  have "fields_end 28 ?l \<le> 28 + sum_list (map one_bound ?l)"
    by (rule single_values_end) (simp add: team_list_def one_value_def)
  also have "\<dots> \<le> 1000" using assms by (simp add: team_list_def one_value_def one_bound_def)
  finally show ?thesis .
qed

lemma team_list_fit:
  assumes "length name \<le> 64"
  shows "fields_fit (team_list name p ids st)"
proof -
  have "\<forall>f\<in>set (team_list name p ids st). int (length (kf_values f)) \<le> INT_MAX"
    by (simp add: team_list_def one_value_def)
  moreover have "fields_end 28 (team_list name p ids st) + 128 \<le> INT_MAX" using team_list_size [OF assms, of p ids st] by simp
  ultimately show ?thesis unfolding fields_fit_in_def by blast
qed

lemma team_adds_ok:
  assumes "CHR 0x00 \<notin> set name" "length name \<le> 64"
  shows "\<forall>a\<in>set (team_adds name p ids st). km_add_ok a"
  using assms
  by (simp add: team_adds_def int_field_def name_ok_def type_ok_def B_INT32_TYPE_def B_INT64_TYPE_def
      B_STRING_TYPE_def B_ANY_TYPE_def)

lemma team_fields_adds:
  assumes "length (cstr (Process_GetName p)) \<le> 64"
  shows "team_fields k pr p @ cwd_fields k st = map (km_add_step k)
    (team_adds (cstr (Process_GetName p)) p (server_fill_extended_team_info pr (p_pid p) (p_pgid p) (p_sid p)) st)"
proof -
  have "to_int32 (int (length (cstr (Process_GetName p))) + 1) = int (length (cstr (Process_GetName p))) + 1"
    using assms by (simp add: to_int32_id is_int32_def)
  then show ?thesis
    by (simp add: team_fields_def cwd_fields_def team_adds_def int_field_def fun_eq_iff KMessage_AddInt32_def
        KMessage_AddInt64_def KMessage_AddString_def case_prod_beta add.commute)
qed

lemma length_name_loop: "length (name_loop esc nm cs) \<le> length nm + length cs"
proof (induction esc nm cs rule: name_loop.induct)
  case (2 esc nm c cs)
  then show ?case by (simp only: name_loop.simps split: if_split) (cases nm; auto)
qed simp

lemma length_team_name: "length (cstr (Process_GetName p)) \<le> length (ti_args (p_info p))"
proof -
  have "length (Process_GetName p) \<le> length (name_loop False [] (ti_args (p_info p)))"
    by (auto simp: Process_GetName_def Let_def after_last_slash_def intro: order_trans [OF length_takeWhile_le])
  then show ?thesis
    using length_cstr_le [of "Process_GetName p"] length_name_loop [of False "[]" "ti_args (p_info p)"] by simp
qed


lemma default_message:
  assumes "self mod 4 = 0"
  obtains m where "KMessage_default self = Some m" "message_repr m (what_info 0) []" "km_inline m" "km_flags m = 0"
    "km_self m = self"
proof -
  let ?m = "\<lparr>km_self = self, km_addr = 0, km_mem = [], km_capacity = 0, km_flags = 0, km_last = 0, km_inline = False\<rparr>"
  have "km_self ?m mod 4 = 0" using assms by simp
  then obtain m where "KMessage_Unset ?m = Some m" "message_repr m (what_info 0) []" "km_self m = km_self ?m"
    "km_inline m" "km_flags m = km_flags ?m"
    by (rule unset_ok)
  then show ?thesis using that by (simp add: KMessage_default_def)
qed

lemma basic_message:
  assumes "heap_ok k" and "self mod 4 = 0" and "length (ti_args (p_info p)) \<le> 64"
    and "state_ReadStat e c s (parse_path (p_cwd p)) True = Returns (B_OK, st)"
  obtains m m' where "KMessage_default self = Some m"
    "basic_team_message e k pr c p m s = Returns (Inr m', known_name st (p_cwd p) s)"
    "message_repr m' (what_info 0) (team_list (cstr (Process_GetName p)) p
      (server_fill_extended_team_info pr (p_pid p) (p_pgid p) (p_sid p)) st)"
proof -
  let ?name = "cstr (Process_GetName p)"
  let ?ids = "server_fill_extended_team_info pr (p_pid p) (p_pgid p) (p_sid p)"
  let ?as = "team_adds ?name p ?ids st" and ?fs = "team_list ?name p ?ids st"
  have l: "length ?name \<le> 64" using length_team_name [of p] assms(3) by simp
  obtain m where m: "KMessage_default self = Some m" "message_repr m (what_info 0) []" "km_inline m" "km_flags m = 0"
    using default_message [OF assms(2)] by blast
  have w: "writable m" using m(3,4) by (simp add: writable_in_def)
  have fit: "fields_fit (snd (km_run_fields ?as []))" by (simp add: team_adds_fields team_list_fit [OF l])
  obtain m' where m': "km_run k ?as m = Some (replicate 10 B_OK, m')" "message_repr m' (what_info 0) ?fs"
    using km_run_ok [OF m(2) w assms(1) team_adds_ok [OF cstr_no_nul l] fit] by (auto simp: team_adds_fields)
  have "length ?as = 10" by (simp add: team_adds_def)
  with m'(1) have "add_all (map (km_add_step k) ?as) m = Some (True, m')" using run_add_all by metis
  then have "add_all (team_fields k pr p @ cwd_fields k st) m = Some (True, m')" by (simp add: team_fields_adds [OF l])
  then obtain m1 where "add_all (team_fields k pr p) m = Some (True, m1)" "add_all (cwd_fields k st) m1 = Some (True, m')"
    by (rule add_all_append)
  then have "basic_team_message e k pr c p m s = Returns (Inr m', known_name st (p_cwd p) s)"
    by (simp add: basic_team_message_def or_undefined_def assms(4))
  then show ?thesis using that m(1) m'(2) by blast
qed


text \<open>
  C10: what \<open>get_extended_team_info\<close> tells of a team can be read by whoever asks. If the working
  directory of the team has a stat and the buffer holds 1000 bytes the call succeeds; the bytes it
  writes are accepted as a message at any address, and reading a field by name gives the id, name,
  group, session, user and group ids and the working directory of the team. The working directory is
  then known under its device and inode, so that the guest can ask for its path.
\<close>

theorem extended_team_info_is_readable:
  assumes "heap_ok k" and "self mod 4 = 0" and "flags AND B_TEAM_INFO_BASIC \<noteq> 0" and "1000 \<le> userBufferSize"
    and "teamID \<noteq> B_CURRENT_TEAM" and "System_GetProcess (vst_world s) teamID = Some r"
    and "p = processObjs (vst_world s) r" and "length (ti_args (p_info p)) \<le> 64"
    and "state_ReadStat e c s (parse_path (p_cwd p)) True = Returns (B_OK, st)"
    and "\<And>a obj. write_exact (ce_memory e) (p_pid (team_of c s)) a obj"
  shows "\<exists>s' bs. call_get_extended_team_info e k self pr c teamID flags userBuffer userBufferSize userSizeNeeded s =
      Returns (B_OK, s') \<and>
    last (guestWrites (vst_world s')) = (p_pid (team_of c s), userBuffer, OBytes bs) \<and>
    GetEntryRef (vst_vfs s') (ref_of (st_dev st) (st_ino st)) = Some (p_cwd p) \<and>
    (\<forall>k' m addr what flags'. heap_ok k' \<longrightarrow> km_self m mod 4 = 0 \<longrightarrow> flags' AND KMESSAGE_INIT_FROM_BUFFER \<noteq> 0 \<longrightarrow>
      (\<exists>m'. KMessage_SetTo_buffer k' (Some (addr, bs)) (int (length bs)) what flags' m = Some (B_OK, m') \<and>
        (\<forall>name type i. km_read m' name type i = Some (km_lookup (team_list (cstr (Process_GetName p)) p
          (server_fill_extended_team_info pr (p_pid p) (p_pgid p) (p_sid p)) st) name type i))))"
proof -
  let ?fs = "team_list (cstr (Process_GetName p)) p (server_fill_extended_team_info pr (p_pid p) (p_pgid p) (p_sid p)) st"
  let ?s1 = "known_name st (p_cwd p) s"
  let ?pid = "p_pid (team_of c s)" and ?n = "fields_end 28 ?fs"
  obtain m m' where m: "KMessage_default self = Some m" "basic_team_message e k pr c p m s = Returns (Inr m', ?s1)"
    and m': "message_repr m' (what_info 0) ?fs"
    by (rule basic_message [OF assms(1,2,8,9)])
  have size: "KMessage_ContentSize m' = Some ?n" by (rule message_content_size(1) [OF m'])
  have bounds: "0 \<le> ?n" "?n \<le> int (length (km_mem m'))" "?n \<le> userBufferSize"
  proof -
    have "?n \<le> 1000" by (rule team_list_size) (use length_team_name [of p] assms(8) in simp)
    then show "?n \<le> userBufferSize" using assms(4) by simp
    show "0 \<le> ?n" using message_content_size(2) [OF m'] by simp
    show "?n \<le> int (length (km_mem m'))" using m' by (simp add: message_repr_def)
  qed
  define bs where "bs = take (nat ?n) (km_mem m')"
  have bs: "int (length bs) = ?n" using bounds by (simp add: bs_def)
  have team: "team_of c ?s1 = team_of c s" "vst_world ?s1 = vst_world s" by (simp_all add: known_name_def)
  let ?w = "vst_world s"
  let ?w1 = "?w\<lparr>guestWrites := guestWrites ?w @ [(?pid, userSizeNeeded, OUint64 ?n)]\<rparr>"
  let ?w2 = "?w1\<lparr>guestWrites := guestWrites ?w1 @ [(?pid, userBuffer, OBytes bs)]\<rparr>"
  have "call_get_extended_team_info e k self pr c teamID flags userBuffer userBufferSize userSizeNeeded s =
      Returns (B_OK, ?s1\<lparr>vst_world := ?w2\<rparr>)"
    using assms(3,5,6,10) m size bounds(3)
    by (simp add: call_get_extended_team_info_def or_undefined_def team Process_WriteMemory_def write_guest_def
        team_reply_def reply_with_def flip: assms(7) bs_def)
  moreover have "\<exists>x. KMessage_SetTo_buffer k' (Some (addr, bs)) (int (length bs)) what flags' y = Some (B_OK, x) \<and>
      (\<forall>name type i. km_read x name type i = Some (km_lookup ?fs name type i))"
    if "heap_ok k'" "km_self y mod 4 = 0" "flags' AND KMESSAGE_INIT_FROM_BUFFER \<noteq> 0" for k' y addr what flags'
    using receive_ok [OF m' that bs_def] bs km_read_ok by metis
  moreover have "GetEntryRef (vst_vfs (?s1\<lparr>vst_world := ?w2\<rparr>)) (ref_of (st_dev st) (st_ino st)) =
      Some (p_cwd p)"
    by (simp add: known_name_def RegisterEntryRef_def GetEntryRef_def Let_def update_conv)
  ultimately show ?thesis by (intro exI [of _ "?s1\<lparr>vst_world := ?w2\<rparr>"] exI [of _ bs]) simp
qed

definition sample_team_state :: "unit vfs_state" where
  "sample_team_state = with_team sample_context (set_cwd ''/f'') sample_paths_state"

definition sample_proc :: proc_host where
  "sample_proc = \<lparr>proc_tasks = \<lambda>_. None, proc_maps = \<lambda>_. [], proc_cmdline = \<lambda>_. [], proc_stat = \<lambda>_. [],
     proc_owner = \<lambda>_. None, proc_self = 1, clock_ticks = 100\<rparr>"

lemma sample_team_facts:
  "System_GetProcess (vst_world sample_team_state) 4 = Some 0"
  "team_of sample_context sample_team_state = (Process_new 4 0 0 0 0)\<lparr>p_threads := [(4, 0)], p_cwd := ''/f''\<rparr>"
  "processObjs (vst_world sample_team_state) 0 = (Process_new 4 0 0 0 0)\<lparr>p_threads := [(4, 0)], p_cwd := ''/f''\<rparr>"
  by (simp_all add: sample_team_state_def with_team_def upd_process_def set_cwd_def sample_paths_state_def
      sample_world_def sample_context_def System_GetProcess_def Process_new_def)

lemma sample_cwd_stat:
  "state_ReadStat sample_call_env sample_context sample_team_state (parse_path ''/f'') True = Returns (B_OK, sample_bound_stat)"
proof -
  have root: "p_root (team_of sample_context sample_team_state) = ''/''"
    by (simp add: sample_team_facts Process_new_def)
  have m: "vs_deviceMounts (vst_vfs sample_team_state) = sample_mounts" "vst_host sample_team_state = ()"
    by (simp_all add: sample_team_state_def with_team_def sample_paths_state_def)
  have p: "parse_path ''/f'' = FPath True [''f'']" by code_simp
  show ?thesis
    unfolding p using sample_file_stat [of 2] by (simp add: sample_read_path(2) [OF root m] m) (simp add: sample_call_env_def numeral_3_eq_3)
qed

theorem extended_team_info_is_readable_witness:
  "\<exists>s' bs m'. call_get_extended_team_info sample_call_env sample_heap 64 sample_proc sample_context 4 1 512 1000 520
      sample_team_state = Returns (B_OK, s') \<and>
    last (guestWrites (vst_world s')) = (4, 512, OBytes bs) \<and>
    KMessage_SetTo_buffer sample_heap (Some (4097, bs)) (int (length bs)) 0 KMESSAGE_INIT_FROM_BUFFER
      (the (KMessage_default 64)) = Some (B_OK, m') \<and>
    km_read m' ''id'' B_INT32_TYPE 0 = Some (Inr (le_bytes 4 4))"
proof -
  let ?p = "(Process_new 4 0 0 0 0)\<lparr>p_threads := [(4, 0)], p_cwd := ''/f''\<rparr>"
  let ?m = "the (KMessage_default 64)"
  have f: "(1 :: int) AND B_TEAM_INFO_BASIC \<noteq> 0" "KMESSAGE_INIT_FROM_BUFFER AND KMESSAGE_INIT_FROM_BUFFER \<noteq> 0"
    by (simp_all add: B_TEAM_INFO_BASIC_def KMESSAGE_INIT_FROM_BUFFER_def)
  have p: "length (ti_args (p_info ?p)) \<le> 64" "p_cwd ?p = ''/f''" "p_pid ?p = 4"
    by (simp_all add: Process_new_def zero_team_info_def)
  have w: "write_exact (ce_memory sample_call_env) pid a obj" for pid a obj
    by (simp add: sample_call_env_def sample_path_writes)
  have al: "(64 :: int) mod 4 = 0" by simp
  have a: "km_self ?m mod 4 = 0" using default_message [of 64] by force
  have st: "state_ReadStat sample_call_env sample_context sample_team_state (parse_path (p_cwd ?p)) True =
      Returns (B_OK, sample_bound_stat)"
    unfolding p(2) by (rule sample_cwd_stat)
  have b: "(4 :: int) \<noteq> B_CURRENT_TEAM" by (simp add: B_CURRENT_TEAM_def)
  have team: "p_pid (team_of sample_context sample_team_state) = 4" unfolding sample_team_facts(2) by (rule p(3))
  let ?run = "\<lambda>s'. call_get_extended_team_info sample_call_env sample_heap 64 sample_proc sample_context 4 1 512 1000 520
      sample_team_state = Returns (B_OK, s')"
  let ?fs = "team_list (cstr (Process_GetName ?p)) ?p
    (server_fill_extended_team_info sample_proc (p_pid ?p) (p_pgid ?p) (p_sid ?p)) sample_bound_stat"
  obtain s' bs where run: "?run s'"
      "last (guestWrites (vst_world s')) = (p_pid (team_of sample_context sample_team_state), 512, OBytes bs)"
    and rd: "\<forall>k' m addr what flags'. heap_ok k' \<longrightarrow> km_self m mod 4 = 0 \<longrightarrow>
      flags' AND KMESSAGE_INIT_FROM_BUFFER \<noteq> 0 \<longrightarrow>
      (\<exists>m'. KMessage_SetTo_buffer k' (Some (addr, bs)) (int (length bs)) what flags' m = Some (B_OK, m') \<and>
        (\<forall>name type i. km_read m' name type i = Some (km_lookup ?fs name type i)))"
    using extended_team_info_is_readable [OF sample_heap_ok al f(1) order_refl b sample_team_facts(1)
      sample_team_facts(3) [symmetric] p(1) st w, of sample_proc 512 520]
    by (elim exE conjE)
  obtain m' where m': "KMessage_SetTo_buffer sample_heap (Some (4097, bs)) (int (length bs)) 0 KMESSAGE_INIT_FROM_BUFFER ?m = Some (B_OK, m')"
      "\<forall>name type i. km_read m' name type i = Some (km_lookup ?fs name type i)"
    using rd [rule_format, OF sample_heap_ok a f(2)] by blast
  have "km_lookup ?fs ''id'' B_INT32_TYPE 0 = Inr (le_bytes 4 4)"
    by (simp add: km_lookup_def team_list_def one_value_def field_is_def p(3) del: le_bytes.simps)
  then have "km_read m' ''id'' B_INT32_TYPE 0 = Some (Inr (le_bytes 4 4))" using m'(2) by simp
  moreover have "last (guestWrites (vst_world s')) = (4, 512, OBytes bs)" using run(2) team by simp
  ultimately show ?thesis using run(1) m'(1) by blast
qed


section \<open>Enumeration\<close>

text \<open>
  A guest enumerates the teams by calling \<open>get_next_team_info\<close> until it fails, starting from the
  cookie 0. \<open>team_walk\<close> runs \<open>n\<close> such calls; \<open>h k\<close> is the host when the guest's cookie variable
  holds \<open>k\<close>.
\<close>

definition last_cookie :: "world \<Rightarrow> int" where
  "last_cookie w = last (List.map_filter (\<lambda>(_, _, obj). case obj of OInt32 k \<Rightarrow> Some k | _ \<Rightarrow> None) (guestWrites w))"

primrec team_walk ::
    "(int \<Rightarrow> host) \<Rightarrow> proc_host \<Rightarrow> user_map_service \<Rightarrow> hserver_context \<Rightarrow> int \<Rightarrow> int \<Rightarrow> nat \<Rightarrow> int \<Rightarrow>
      world \<Rightarrow> (int \<times> world) option" where
  "team_walk h pr um c userCookie userInfo 0 cookie w = Some (B_OK, w)"
| "team_walk h pr um c userCookie userInfo (Suc n) cookie w =
    (case call_get_next_team_info (h cookie) pr um c userCookie userInfo w of
       None \<Rightarrow> None
     | Some (status, w') \<Rightarrow>
         if status \<noteq> B_OK then Some (status, w')
         else team_walk h pr um c userCookie userInfo n (last_cookie w') w')"

definition team_infos :: "guest_write list \<Rightarrow> haiku_team_info list" where
  "team_infos gs = List.map_filter (\<lambda>(_, _, obj). case obj of OTeamInfo i \<Rightarrow> Some i | _ \<Rightarrow> None) gs"

lemma team_infos_simps [simp]:
  "team_infos [] = []" "team_infos (xs @ ys) = team_infos xs @ team_infos ys"
  "team_infos ((p, a, OTeamInfo i) # gs) = i # team_infos gs" "team_infos ((p, a, OInt32 k) # gs) = team_infos gs"
  by (simp_all add: team_infos_def map_filter_def)

lemma last_cookie_simp:
  "last_cookie (w\<lparr>guestWrites := gs @ [(p, a, OInt32 k), (p, b, OTeamInfo i)]\<rparr>) = k"
  by (simp add: last_cookie_def map_filter_def)

text \<open>The ids a team can have: positive, so -2 and 0 are below them.\<close>

lemma om_next_below:
  assumes "nonneg_keys m" "om_keys m \<subseteq> {1..}"
  shows "om_next m (-2) = om_next m 0"
proof -
  have "dropWhile (\<lambda>p. fst p \<le> - 2) m = dropWhile (\<lambda>p. fst p \<le> 0) m"
    using assms(2) by (intro dropWhile_cong refl) auto
  then show ?thesis by (simp add: om_next_def om_upper_bound_def)
qed


definition info_of_team :: "proc_host \<Rightarrow> user_map_service \<Rightarrow> world \<Rightarrow> int \<Rightarrow> haiku_team_info" where
  "info_of_team pr um w k = server_fill_team_info pr um (p_info (processObjs w (the (System_GetProcess w k))))"

lemma info_of_team_writes [simp]: "info_of_team pr um (w\<lparr>guestWrites := gs\<rparr>) k = info_of_team pr um w k"
  by (simp add: info_of_team_def System_GetProcess_def)

text \<open>One call of the enumeration behind the system team.\<close>

lemma next_team_info_step:
  assumes m: "nonneg_keys (processes w)" "is_int32 i" "i \<noteq> 0" "i \<noteq> -1"
    and j: "j = om_next (processes w) i" "j = -1 \<or> j \<in> om_keys (processes w)"
    and rd: "read_exact h (p_pid (the_process c w)) userCookie 4 = Some (le_bytes 4 i)"
    and wr: "\<And>a obj. write_exact h (p_pid (the_process c w)) a obj"
  shows "call_get_next_team_info h pr um c userCookie userInfo w =
    Some (if j = -1
      then (B_BAD_VALUE, w\<lparr>guestWrites := guestWrites w @ [(p_pid (the_process c w), userCookie, OInt32 (-1))]\<rparr>)
      else (B_OK, w\<lparr>guestWrites := guestWrites w @ [(p_pid (the_process c w), userCookie, OInt32 j),
             (p_pid (the_process c w), userInfo, OTeamInfo (info_of_team pr um w j))]\<rparr>))"
proof -
  have "next_team pr um w i = Some (if j = -1 then (-1, None) else (j, Some (info_of_team pr um w j)))"
    using j m(3) by (auto simp: next_team_def System_NextProcessId_def System_GetProcess_def info_of_team_def
        om_keys_dom Let_def simp flip: j(1))
  moreover have "dec_int32 (le_bytes 4 i) = i" using m(2) by (rule dec_int32_le_bytes)
  ultimately show ?thesis
    using rd wr m(4)
    by (simp add: call_get_next_team_info_def Process_ReadMemory_def reply_with_def Process_WriteMemory_def
        write_guest_def)
qed

lemma team_walk_run:
  assumes "nonneg_keys (processes w)" "\<forall>k\<in>om_keys (processes w). k \<le> INT_MAX"
    and "\<And>k. read_exact (h k) (p_pid (the_process c w)) userCookie 4 = Some (le_bytes 4 k)"
      "\<And>k a obj. write_exact (h k) (p_pid (the_process c w)) a obj"
    and "is_int32 i" "i \<noteq> 0" "i \<noteq> -1" "om_next (processes w) i = om_next (processes w) b" "0 \<le> b"
    and "card {j \<in> om_keys (processes w). b < j} < n"
  shows "\<exists>gs. team_walk h pr um c userCookie userInfo n i w =
      Some (B_BAD_VALUE, w\<lparr>guestWrites := guestWrites w @ gs\<rparr>) \<and>
    team_infos gs = map (info_of_team pr um w) (cursor_walk om_next n (processes w) b)"
  using assms
proof (induction n arbitrary: i b w)
  case 0
  from "0.prems"(10) show ?case by simp
next
  case (Suc n)
  let ?m = "processes w" and ?pid = "p_pid (the_process c w)"
  let ?j = "om_next ?m b"
  have b: "-1 \<le> b" using Suc.prems(9) by simp
  note cases = map_cursor.nxt_cases [OF Suc.prems(1) b]
  have "?j = -1 \<or> ?j \<in> om_keys ?m" using cases by blast
  note step = next_team_info_step [OF Suc.prems(1,5,6,7) Suc.prems(8) [symmetric] this Suc.prems(3,4), of pr um userInfo]
  from cases show ?case
  proof (elim disjE conjE)
    assume "?j = -1"
    then show ?thesis
      by (intro exI [of _ "[(?pid, userCookie, OInt32 (-1))]"]) (simp add: step status_codes)
  next
    assume j: "?j \<in> om_keys ?m" "b < ?j" "0 \<le> ?j" "{k \<in> om_keys ?m. b < k} = insert ?j {k \<in> om_keys ?m. ?j < k}"
    let ?gs = "[(?pid, userCookie, OInt32 ?j), (?pid, userInfo, OTeamInfo (info_of_team pr um w ?j))]"
    let ?w = "w\<lparr>guestWrites := guestWrites w @ ?gs\<rparr>"
    have jj: "?j \<noteq> -1" "?j \<noteq> 0" "is_int32 ?j" using j(1-3) Suc.prems(2,9) by (auto simp: is_int32_def)
    have less: "card {k \<in> om_keys (processes ?w). ?j < k} < n" using Suc.prems(10) j(4) by simp
    have same: "processes ?w = ?m" "the_process c ?w = the_process c w" by simp_all
    obtain gs where gs: "team_walk h pr um c userCookie userInfo n ?j ?w =
        Some (B_BAD_VALUE, ?w\<lparr>guestWrites := guestWrites ?w @ gs\<rparr>)"
      "team_infos gs = map (info_of_team pr um ?w) (cursor_walk om_next n (processes ?w) ?j)"
      using Suc.IH [of ?w ?j ?j] Suc.prems(1-4) jj j(3) less unfolding same by blast
    have "team_walk h pr um c userCookie userInfo (Suc n) i w = team_walk h pr um c userCookie userInfo n ?j ?w"
      using jj(1) by (simp add: step last_cookie_simp)
    moreover have "team_infos (?gs @ gs) = map (info_of_team pr um w) (cursor_walk om_next (Suc n) ?m b)"
      using gs(2) jj(1) by (simp add: Let_def)
    ultimately show ?thesis using gs(1) by (intro exI [of _ "?gs @ gs"]) simp
  qed
qed

text \<open>
  C30: enumerating the teams ends. A guest that calls \<open>get_next_team_info\<close> from the cookie 0 until it
  fails gets the description of the system team and then that of every team exactly once, in the
  order of the ids, and then \<open>B_BAD_VALUE\<close>; two calls more than there are teams are enough.
\<close>

theorem team_walk_lists_teams:
  assumes "nonneg_keys (processes w)" and "om_keys (processes w) \<subseteq> {1..INT_MAX}"
    and "\<And>k. read_exact (h k) (p_pid (the_process c w)) userCookie 4 = Some (le_bytes 4 k)"
    and "\<And>k a obj. write_exact (h k) (p_pid (the_process c w)) a obj"
    and "length (processes w) + 1 < n"
  shows "\<exists>gs. team_walk h pr um c userCookie userInfo n 0 w =
      Some (B_BAD_VALUE, w\<lparr>guestWrites := guestWrites w @ gs\<rparr>) \<and>
    team_infos gs = server_fill_team_info pr um system_team_info #
      map (\<lambda>k. server_fill_team_info pr um (p_info (processObjs w (the (System_GetProcess w k)))))
        (sorted_list_of_set (om_keys (processes w)))"
proof -
  let ?m = "processes w" and ?pid = "p_pid (the_process c w)"
  obtain n' where n: "n = Suc n'" "length ?m < n'" using assms(5) by (cases n) auto
  have all: "{j \<in> om_keys ?m. 0 < j} = om_keys ?m" using assms(2) by fastforce
  have card: "card {j \<in> om_keys ?m. 0 < j} < n'"
    using n(2) card_image_le [of "set ?m" fst] card_length [of ?m] unfolding all by simp
  have "sorted_wrt (<) (cursor_walk om_next n' ?m 0) \<and> set (cursor_walk om_next n' ?m 0) = om_keys ?m"
    using map_cursor.walk_complete [OF assms(1), of 0 n'] card unfolding all by simp
  then have walk: "cursor_walk om_next n' ?m 0 = sorted_list_of_set (om_keys ?m)"
    using sorted_list_of_set.idem_if_sorted_distinct strict_sorted_iff by metis
  let ?gs = "[(?pid, userCookie, OInt32 (-2)), (?pid, userInfo, OTeamInfo (server_fill_team_info pr um system_team_info))]"
  let ?w = "w\<lparr>guestWrites := guestWrites w @ ?gs\<rparr>"
  have "dec_int32 (le_bytes 4 0) = 0" by (rule dec_int32_le_bytes) (simp add: is_int32_def)
  then have "call_get_next_team_info (h 0) pr um c userCookie userInfo w = Some (B_OK, ?w)"
    using assms(3,4)
    by (simp add: call_get_next_team_info_def next_team_def Process_ReadMemory_def reply_with_def
        Process_WriteMemory_def write_guest_def)
  then have first: "team_walk h pr um c userCookie userInfo n 0 w = team_walk h pr um c userCookie userInfo n' (-2) ?w"
    by (simp add: n(1) last_cookie_simp)
  have below: "om_next (processes ?w) (-2) = om_next (processes ?w) 0"
    using om_next_below [OF assms(1) subset_trans [OF assms(2)]] by auto
  have i32: "is_int32 (-2)" by (simp add: is_int32_def)
  have max: "\<forall>k\<in>om_keys ?m. k \<le> INT_MAX" using assms(2) by fastforce
  have "\<exists>gs. team_walk h pr um c userCookie userInfo n' (-2) ?w =
      Some (B_BAD_VALUE, ?w\<lparr>guestWrites := guestWrites ?w @ gs\<rparr>) \<and>
    team_infos gs = map (info_of_team pr um ?w) (cursor_walk om_next n' (processes ?w) 0)"
    by (rule team_walk_run [OF _ _ _ _ i32 _ _ below]) (simp_all add: assms(1,3,4) max card)
  then obtain gs where "team_walk h pr um c userCookie userInfo n' (-2) ?w =
      Some (B_BAD_VALUE, ?w\<lparr>guestWrites := guestWrites ?w @ gs\<rparr>)"
    "team_infos gs = map (info_of_team pr um ?w) (cursor_walk om_next n' (processes ?w) 0)"
    by blast
  then show ?thesis
    using first walk by (intro exI [of _ "?gs @ gs"]) (simp add: info_of_team_def [abs_def] System_GetProcess_def)
qed

definition sample_two_teams :: world where
  "sample_two_teams = sample_world\<lparr>processes := [(4, 0), (9, 1)],
     processObjs := \<lambda>r. Process_new (if r = 0 then 4 else 9) 0 0 0 0\<rparr>"

theorem team_walk_lists_teams_witness:
  "\<exists>w'. team_walk cookie_host sample_proc user_map_init sample_context 100 200 4 0 sample_two_teams =
      Some (B_BAD_VALUE, w') \<and> map ti_team (team_infos (guestWrites w')) = [1, 4, 9]"
proof -
  have ps: "processes sample_two_teams = [(4, 0), (9, 1)]" and ws: "guestWrites sample_two_teams = []"
    and objs: "processObjs sample_two_teams = (\<lambda>r. Process_new (if r = 0 then 4 else 9) 0 0 0 0)"
    by (simp_all add: sample_two_teams_def sample_world_def world_init_def)
  have ok: "nonneg_keys (processes sample_two_teams)" unfolding ps by (simp add: nonneg_keys_def om_ok_def)
  have rd: "read_exact (cookie_host k) pid a 4 = Some (le_bytes 4 k)" for k pid a
    by (simp add: cookie_host_def read_exact_def server_read_process_memory_def)
  have wr: "write_exact (cookie_host k) pid a obj" for k pid a obj
    by (simp add: cookie_host_def sample_host_def write_exact_def server_write_process_memory_def)
  obtain gs where "team_walk cookie_host sample_proc user_map_init sample_context 100 200 4 0 sample_two_teams =
      Some (B_BAD_VALUE, sample_two_teams\<lparr>guestWrites := guestWrites sample_two_teams @ gs\<rparr>)"
    "team_infos gs = server_fill_team_info sample_proc user_map_init system_team_info #
      map (\<lambda>k. server_fill_team_info sample_proc user_map_init
        (p_info (processObjs sample_two_teams (the (System_GetProcess sample_two_teams k)))))
        (sorted_list_of_set (om_keys (processes sample_two_teams)))"
    using team_walk_lists_teams [OF ok _ rd wr, where n = 4 and c = sample_context and pr = sample_proc
      and um = user_map_init and userCookie = 100 and userInfo = 200] by (auto simp: ps)
  then show ?thesis
    by (simp add: ws ps objs filled_team System_GetProcess_def Process_new_def system_team_info_def zero_team_info_def
        B_SYSTEM_TEAM_def)
qed

end
