(* ===== verification/UserIds.thy ===== *)
theory UserIds
  imports TeamCalls Errno
begin

text \<open>
  User and group ids from both sides: \<^verbatim>\<open>monika/linux/userid.cpp\<close>, which runs in the guest,
  over the server calls of theory TeamCalls. A guest whose ids are those of a host user sets them
  with the host first: the server tells it the host ids, the guest makes the Linux call, and only
  then the server takes over the new ids. \<open>linux\<close> is what the Linux call returns; the calls that
  are made are listed.
\<close>

section \<open>The guest's side\<close>

text \<open>A variable of the guest that the server may have written to during a call, -1 before.\<close>

definition written_values :: "int \<Rightarrow> int \<Rightarrow> world \<Rightarrow> world \<Rightarrow> int list" where
  "written_values pid addr w w' =
    (case find (\<lambda>(p, a, _). p = pid \<and> a = addr) (rev (drop (length (guestWrites w)) (guestWrites w'))) of
       Some (_, _, OInt64s xs) \<Rightarrow> xs
     | _ \<Rightarrow> [])"

definition host_id_variable :: "int \<Rightarrow> int \<Rightarrow> world \<Rightarrow> world \<Rightarrow> int" where
  "host_id_variable pid addr w w' = (case written_values pid addr w w' of [x] \<Rightarrow> x | _ \<Rightarrow> -1)"

text \<open>
  \<open>_moni_setregid\<close> and \<open>_moni_setreuid\<close> have the same body: \<open>call a b\<close> is the server call with
  the pointers \<open>a\<close> and \<open>b\<close>, and \<open>ra\<close>, \<open>ea\<close> are the addresses of the two variables.
\<close>

definition moni_set_ids ::
    "(int \<Rightarrow> int \<Rightarrow> world \<Rightarrow> int \<times> world) \<Rightarrow> (int \<Rightarrow> int \<Rightarrow> int) \<Rightarrow> int \<Rightarrow> int \<Rightarrow> int \<Rightarrow> world \<Rightarrow>
      int \<times> (int \<times> int) list \<times> world" where
  "moni_set_ids call linux pid ra ea w =
    (let (status, w1) = call ra ea w in
     if status < 0 then (status, [], w1)
     else
       (let hr = host_id_variable pid ra w w1; he = host_id_variable pid ea w w1 in
        if hr \<noteq> -1 \<or> he \<noteq> -1 then
          (let result = linux hr he in
           if result < 0 then (LinuxToB (- result), [(hr, he)], w1)
           else (let (status, w2) = call 0 0 w1 in (if status < 0 then status else B_OK, [(hr, he)], w2)))
        else (B_OK, [], w1)))"

definition moni_setregid ::
    "host \<Rightarrow> user_map_service \<Rightarrow> (int \<Rightarrow> int \<Rightarrow> int) \<Rightarrow> hserver_context \<Rightarrow> int \<Rightarrow> int \<Rightarrow> bool \<Rightarrow> int \<Rightarrow> int \<Rightarrow>
      world \<Rightarrow> int \<times> (int \<times> int) list \<times> world" where
  "moni_setregid h um linux c rgid egid setAll ra ea w =
    moni_set_ids (call_setregid h um c (to_int32 rgid) (to_int32 egid) setAll) linux (p_pid (the_process c w)) ra ea w"

definition moni_setreuid ::
    "host \<Rightarrow> user_map_service \<Rightarrow> (int \<Rightarrow> int \<Rightarrow> int) \<Rightarrow> hserver_context \<Rightarrow> int \<Rightarrow> int \<Rightarrow> bool \<Rightarrow> int \<Rightarrow> int \<Rightarrow>
      world \<Rightarrow> int \<times> (int \<times> int) list \<times> world" where
  "moni_setreuid h um linux c ruid euid setAll ra ea w =
    moni_set_ids (call_setreuid h um c (to_int32 ruid) (to_int32 euid) setAll) linux (p_pid (the_process c w)) ra ea w"

text \<open>The ids are unsigned in the guest; the saved id is not kept.\<close>

definition no_id :: int where "no_id = 2 ^ 32 - 1"

definition moni_setresgid ::
    "host \<Rightarrow> user_map_service \<Rightarrow> (int \<Rightarrow> int \<Rightarrow> int) \<Rightarrow> hserver_context \<Rightarrow> int \<Rightarrow> int \<Rightarrow> int \<Rightarrow> bool \<Rightarrow> int \<Rightarrow> int \<Rightarrow>
      world \<Rightarrow> int \<times> (int \<times> int) list \<times> world" where
  "moni_setresgid h um linux c rgid egid sgid setAll ra ea w =
    (if rgid = no_id \<and> egid = no_id then (B_OK, [], w)
     else moni_setregid h um linux c rgid egid setAll ra ea w)"

definition moni_setresuid ::
    "host \<Rightarrow> user_map_service \<Rightarrow> (int \<Rightarrow> int \<Rightarrow> int) \<Rightarrow> hserver_context \<Rightarrow> int \<Rightarrow> int \<Rightarrow> int \<Rightarrow> bool \<Rightarrow> int \<Rightarrow> int \<Rightarrow>
      world \<Rightarrow> int \<times> (int \<times> int) list \<times> world" where
  "moni_setresuid h um linux c ruid euid suid setAll ra ea w =
    (if ruid = no_id \<and> euid = no_id then (B_OK, [], w)
     else moni_setreuid h um linux c ruid euid setAll ra ea w)"

text \<open>What is stored where a pointer is given: the saved id is the effective one.\<close>

definition moni_getresgid :: "hserver_context \<Rightarrow> bool \<Rightarrow> bool \<Rightarrow> bool \<Rightarrow> world \<Rightarrow> int option \<times> int option \<times> int option" where
  "moni_getresgid c r e s w =
    (if r then Some (to_uint32 (call_getgid c False w)) else None,
     if e then Some (to_uint32 (call_getgid c True w)) else None,
     if s then Some (to_uint32 (call_getgid c True w)) else None)"

definition moni_getresuid :: "hserver_context \<Rightarrow> bool \<Rightarrow> bool \<Rightarrow> bool \<Rightarrow> world \<Rightarrow> int option \<times> int option \<times> int option" where
  "moni_getresuid c r e s w =
    (if r then Some (to_uint32 (call_getuid c False w)) else None,
     if e then Some (to_uint32 (call_getuid c True w)) else None,
     if s then Some (to_uint32 (call_getuid c True w)) else None)"

text \<open>An \<open>int\<close> that is passed as a \<open>size_t\<close>.\<close>

definition size_of_int :: "int \<Rightarrow> int" where "size_of_int n = n mod 2 ^ 64"

definition moni_getgroups :: "host \<Rightarrow> hserver_context \<Rightarrow> int \<Rightarrow> int \<Rightarrow> world \<Rightarrow> int \<times> world" where
  "moni_getgroups h c groupCount groupList w = call_getgroups h c (size_of_int groupCount) groupList w"

text \<open>\<open>la\<close> is the address of the list for the host's groups; the last component are the Linux calls.\<close>

definition moni_setgroups ::
    "host \<Rightarrow> user_map_service \<Rightarrow> (int list \<Rightarrow> int) \<Rightarrow> hserver_context \<Rightarrow> int \<Rightarrow> int \<Rightarrow> int \<Rightarrow> world \<Rightarrow>
      (int \<times> int list list \<times> world) option" where
  "moni_setgroups h um linux c groupCount groupList la w =
    (let set = (\<lambda>calls w. map_option (\<lambda>(r, w'). (r, calls, w'))
                  (call_setgroups h um c (size_of_int groupCount) groupList 0 w))
     in if groupCount > 0 then
          (case call_setgroups h um c (size_of_int groupCount) groupList la w of
             None \<Rightarrow> None
           | Some (n, w1) \<Rightarrow>
               if n < 0 then Some (n, [], w1)
               else if n > 0 then
                 (let gs = map to_uint32 (take (nat n) (written_values (p_pid (the_process c w)) la w w1));
                      status = linux gs
                  in if status < 0 then Some (LinuxToB (- status), [gs], w1) else set [gs] w1)
               else set [] w1)
        else set [] w)"

section \<open>Setting ids\<close>

text \<open>What the two server calls share.\<close>

locale id_call =
  fixes call :: "host \<Rightarrow> user_map_service \<Rightarrow> hserver_context \<Rightarrow> int \<Rightarrow> int \<Rightarrow> bool \<Rightarrow> int \<Rightarrow> int \<Rightarrow> world \<Rightarrow> int \<times> world"
    and host_id :: "user_map_service \<Rightarrow> int \<Rightarrow> int"
    and set_ids :: "int \<times> int \<Rightarrow> process \<Rightarrow> process"
  assumes report: "real \<noteq> -1 \<or> eff \<noteq> -1 \<Longrightarrow> ra \<noteq> 0 \<Longrightarrow> ea \<noteq> 0 \<Longrightarrow> ids = both_ids setAll real eff \<Longrightarrow>
      hr = host_id um (fst ids) \<Longrightarrow> he = host_id um (snd ids) \<Longrightarrow>
      report_host_ids h c ra ea hr he w = Some w1 \<Longrightarrow>
      call h um c real eff setAll ra ea w =
        (B_OK, if hr \<noteq> -1 \<or> he \<noteq> -1 then w1 else upd_process (ctx_process c) (set_ids ids) w1)"
    and take_over: "real \<noteq> -1 \<or> eff \<noteq> -1 \<Longrightarrow>
      call h um c real eff setAll 0 0 w =
        (B_OK, upd_process (ctx_process c) (set_ids (both_ids setAll real eff)) w)"
begin

lemma set_ids_follow_host:
  assumes "real \<noteq> -1 \<or> eff \<noteq> -1" and a: "ra \<noteq> 0" "ea \<noteq> 0" "ra \<noteq> ea"
    and pid: "pid = p_pid (the_process c w)"
    and wr: "\<And>a obj. write_exact h pid a obj"
    and ids: "ids = both_ids setAll real eff" and hr: "hr = host_id um (fst ids)" and he: "he = host_id um (snd ids)"
  shows "\<exists>w'. moni_set_ids (call h um c real eff setAll) linux pid ra ea w =
      (if (hr \<noteq> -1 \<or> he \<noteq> -1) \<and> linux hr he < 0 then LinuxToB (- linux hr he) else B_OK,
       if hr \<noteq> -1 \<or> he \<noteq> -1 then [(hr, he)] else [], w') \<and>
    processObjs w' = (if (hr \<noteq> -1 \<or> he \<noteq> -1) \<and> linux hr he < 0 then processObjs w
      else (processObjs w)(ctx_process c := set_ids ids (the_process c w)))"
proof -
  let ?w1 = "w\<lparr>guestWrites := (guestWrites w @ [(pid, ra, OInt64s [hr])]) @ [(pid, ea, OInt64s [he])]\<rparr>"
  have "report_host_ids h c ra ea hr he w = Some ?w1"
    using wr by (simp add: report_host_ids_def Process_WriteMemory_def write_guest_def flip: pid)
  note first = report [OF assms(1) a(1,2) ids hr he this]
  note second = take_over [OF assms(1), of h um c setAll, folded ids]
  have vars: "host_id_variable pid ra w w' = hr" "host_id_variable pid ea w w' = he"
    if "guestWrites w' = guestWrites ?w1" for w'
    using a(3) by (simp_all add: host_id_variable_def written_values_def that)
  show ?thesis
  proof (cases "hr \<noteq> -1 \<or> he \<noteq> -1")
    case True
    then show ?thesis
      using first second vars [of ?w1] by (simp add: moni_set_ids_def upd_process_def B_OK_def)
  next
    case False
    then have "hr = -1" "he = -1" by simp_all
    with first vars [of "upd_process (ctx_process c) (set_ids ids) ?w1"] show ?thesis
      by (simp add: moni_set_ids_def upd_process_def B_OK_def Let_def)
  qed
qed

end

interpretation gids: id_call call_setregid host_gid set_gids
  by unfold_locales (auto simp: call_setregid_def Let_def)

interpretation uids: id_call call_setreuid host_uid set_uids
  by unfold_locales (auto simp: call_setreuid_def Let_def)


text \<open>
  C20: the user ids of a team only change when the host agrees. Without ids \<open>setreuid\<close> of the guest
  is a bad value and changes nothing. Otherwise, when the server can write to the guest's two
  variables, the Linux call is made exactly when one of the new ids is 2000 or more and mapped to a
  host user, with the ids of the host (-1 for an id that is not mapped). If Linux refuses, its error
  is reported and no process is changed; otherwise the real and effective user id of the team, and
  nothing else of any process, become the ones asked for, an id of -1 leaving the old one, and one
  id standing for both when all are to be set.
\<close>

theorem setreuid_follows_host:
  assumes "ra \<noteq> 0" "ea \<noteq> 0" "ra \<noteq> ea"
    and "\<And>a obj. write_exact h (p_pid (the_process c w)) a obj"
    and "real = (if setAll \<and> to_int32 ruid = -1 then to_int32 euid else to_int32 ruid)"
    and "eff = (if setAll \<and> to_int32 ruid \<noteq> -1 then to_int32 ruid else to_int32 euid)"
    and "hr = (if 2000 \<le> real then case uidReverseMap um real of None \<Rightarrow> -1 | Some x \<Rightarrow> x else -1)"
    and "he = (if 2000 \<le> eff then case uidReverseMap um eff of None \<Rightarrow> -1 | Some x \<Rightarrow> x else -1)"
  shows "if to_int32 ruid = -1 \<and> to_int32 euid = -1 then
      moni_setreuid h um linux c ruid euid setAll ra ea w = (B_BAD_VALUE, [], w)
    else \<exists>w'. moni_setreuid h um linux c ruid euid setAll ra ea w =
        (if (hr \<noteq> -1 \<or> he \<noteq> -1) \<and> linux hr he < 0 then LinuxToB (- linux hr he) else B_OK,
         if hr \<noteq> -1 \<or> he \<noteq> -1 then [(hr, he)] else [], w') \<and>
      processObjs w' = (if (hr \<noteq> -1 \<or> he \<noteq> -1) \<and> linux hr he < 0 then processObjs w
        else (processObjs w)(ctx_process c := (the_process c w)
          \<lparr>p_uid := (if real = -1 then p_uid (the_process c w) else real),
           p_euid := (if eff = -1 then p_euid (the_process c w) else eff)\<rparr>))"
proof (cases "to_int32 ruid = -1 \<and> to_int32 euid = -1")
  case True
  then show ?thesis
    by (simp add: moni_setreuid_def moni_set_ids_def call_setreuid_def status_codes)
next
  case False
  have ids: "(real, eff) = both_ids setAll (to_int32 ruid) (to_int32 euid)"
    using assms(5,6) by (simp add: both_ids_def)
  have hosts: "hr = host_uid um (fst (real, eff))" "he = host_uid um (snd (real, eff))"
    using assms(7,8) by (simp_all add: host_uid_def GetHostUid_def HYCLONE_MIN_HOST_UID_def)
  have ids': "set_uids (real, eff) p =
      p\<lparr>p_uid := (if real = -1 then p_uid p else real), p_euid := (if eff = -1 then p_euid p else eff)\<rparr>" for p
    by (simp add: set_uids_def Let_def)
  have "\<exists>w'. moni_setreuid h um linux c ruid euid setAll ra ea w =
        (if (hr \<noteq> -1 \<or> he \<noteq> -1) \<and> linux hr he < 0 then LinuxToB (- linux hr he) else B_OK,
         if hr \<noteq> -1 \<or> he \<noteq> -1 then [(hr, he)] else [], w') \<and>
      processObjs w' = (if (hr \<noteq> -1 \<or> he \<noteq> -1) \<and> linux hr he < 0 then processObjs w
        else (processObjs w)(ctx_process c := set_uids (real, eff) (the_process c w)))"
    unfolding moni_setreuid_def
    by (rule uids.set_ids_follow_host [OF _ assms(1-3) refl assms(4) ids hosts]) (use False in blast)
  then show ?thesis unfolding ids' if_not_P [OF False] .
qed

lemma setregid_follows_host:
  assumes "to_int32 rgid \<noteq> -1 \<or> to_int32 egid \<noteq> -1" and "ra \<noteq> 0" "ea \<noteq> 0" "ra \<noteq> ea"
    and "\<And>a obj. write_exact h (p_pid (the_process c w)) a obj"
    and "ids = both_ids setAll (to_int32 rgid) (to_int32 egid)"
    and "hr = host_gid um (fst ids)" and "he = host_gid um (snd ids)"
  shows "\<exists>w'. moni_setregid h um linux c rgid egid setAll ra ea w =
      (if (hr \<noteq> -1 \<or> he \<noteq> -1) \<and> linux hr he < 0 then LinuxToB (- linux hr he) else B_OK,
       if hr \<noteq> -1 \<or> he \<noteq> -1 then [(hr, he)] else [], w') \<and>
    processObjs w' = (if (hr \<noteq> -1 \<or> he \<noteq> -1) \<and> linux hr he < 0 then processObjs w
      else (processObjs w)(ctx_process c := set_gids ids (the_process c w)))"
  unfolding moni_setregid_def by (rule gids.set_ids_follow_host [OF assms(1-4) refl assms(5-8)])

definition sample_user_map :: user_map_service where
  "sample_user_map = RegisterUid 1001 2000 user_map_init"

theorem setreuid_follows_host_witness:
  "\<exists>w'. moni_setreuid sample_host sample_user_map (\<lambda>_ _. 0) sample_context 2000 (2 ^ 32 - 1) False 100 108 sample_world =
      (B_OK, [(1001, -1)], w') \<and> p_uid (the_process sample_context w') = 2000 \<and>
    p_euid (the_process sample_context w') = p_euid (the_process sample_context sample_world)"
proof -
  have i: "to_int32 2000 = 2000" "to_int32 (2 ^ 32 - 1) = -1" by code_simp+
  have m: "uidReverseMap sample_user_map 2000 = Some 1001"
    by (simp add: sample_user_map_def RegisterUid_def)
  show ?thesis
    using setreuid_follows_host [where h = sample_host and um = sample_user_map and linux = "\<lambda>_ _. 0"
        and c = sample_context and w = sample_world and ruid = 2000 and euid = "2 ^ 32 - 1" and setAll = False
        and ra = 100 and ea = 108, OF _ _ _ sample_host_writes(2) refl refl refl refl]
    by (auto simp only: i m) (auto simp: i m)
qed

section \<open>Groups\<close>

lemma setgroups_run:
  assumes "0 < n" "n \<le> INT_MAX" and "la \<noteq> 0" and pid: "pid = p_pid (the_process c w)"
    and rd: "read_exact h pid groupList (n * 4) = Some bs" and wr: "\<And>a obj. write_exact h pid a obj"
    and groups: "groups = int32s_at (nat n) bs"
    and mapped: "mapped = filter (\<lambda>g. \<not> g < HYCLONE_MIN_HOST_GID) groups"
    and needed: "needed = (\<exists>g\<in>set mapped. g \<notin> set (p_groups (the_process c w)))"
    and gs: "gs = map (\<lambda>g. to_uint32 (GetHostGid um g)) mapped"
  shows "\<exists>w'. moni_setgroups h um linux c n groupList la w =
      Some (if needed \<and> linux gs < 0 then LinuxToB (- linux gs) else B_OK, if needed then [gs] else [], w') \<and>
    processObjs w' = (if needed \<and> linux gs < 0 then processObjs w
      else (processObjs w)(ctx_process c := (the_process c w)\<lparr>p_groups := groups\<rparr>))"
proof -
  have n: "size_of_int n = n" "\<not> n > int_vector_max" using assms(1,2) by (simp_all add: size_of_int_def int_vector_max_def)
  let ?w1 = "w\<lparr>guestWrites := guestWrites w @ [(pid, la, OInt64s (map (GetHostGid um) mapped))]\<rparr>"
  have set: "call_setgroups h um c n groupList 0 v =
      Some (B_OK, upd_process (ctx_process c) (\<lambda>p. p\<lparr>p_groups := groups\<rparr>) v)"
    if "the_process c v = the_process c w" for v
    using assms(1) n(2) rd by (simp add: call_setgroups_def Process_ReadMemory_def that groups flip: pid)
  have ask: "call_setgroups h um c n groupList la w =
      Some (if needed then (int (length mapped), ?w1) else (0, w))"
    using assms(1,3) n(2) rd wr
    by (simp add: call_setgroups_def Process_ReadMemory_def reply_with_def Process_WriteMemory_def write_guest_def
        needed mapped groups Let_def flip: pid) blast
  show ?thesis
  proof (cases needed)
    case True
    then have "0 < length mapped" by (auto simp: needed)
    moreover have "written_values pid la w ?w1 = map (GetHostGid um) mapped" by (simp add: written_values_def)
    ultimately show ?thesis
      using True ask set [of ?w1] assms(1)
      by (simp add: moni_setgroups_def n gs comp_def upd_process_def Let_def flip: pid)
  next
    case False
    then show ?thesis using ask set [of w] assms(1) by (simp add: moni_setgroups_def n upd_process_def)
  qed
qed

text \<open>
  C24: \<open>setgroups\<close> asks the host exactly when the team gains a group with an id of the host's range,
  2000 and up. The Linux call gets the host's ids of all groups of the list in that range, and for
  one that is not mapped the id -1, which Linux sees as \<^verbatim>\<open>(gid_t)-1\<close>. If the call is made and
  fails its error is reported and no process is changed; otherwise the team has the new list and
  nothing else is changed. The list has at least one entry and the server can read it and write to
  the guest.
\<close>

theorem setgroups_follows_host:
  assumes "0 < n" "n \<le> INT_MAX" and "la \<noteq> 0" and "pid = p_pid (the_process c w)"
    and "read_exact h pid groupList (n * 4) = Some bs" and "\<And>a obj. write_exact h pid a obj"
    and "groups = int32s_at (nat n) bs"
    and "high = filter (\<lambda>g. 2000 \<le> g) groups"
    and "needed = (\<exists>g\<in>set high. g \<notin> set (p_groups (the_process c w)))"
    and "gs = map (\<lambda>g. case gidReverseMap um g of None \<Rightarrow> 2 ^ 32 - 1 | Some x \<Rightarrow> to_uint32 x) high"
  shows "\<exists>w'. moni_setgroups h um linux c n groupList la w =
      Some (if needed \<and> linux gs < 0 then LinuxToB (- linux gs) else B_OK, if needed then [gs] else [], w') \<and>
    processObjs w' = (if needed \<and> linux gs < 0 then processObjs w
      else (processObjs w)(ctx_process c := (the_process c w)\<lparr>p_groups := groups\<rparr>))"
proof -
  have high: "high = filter (\<lambda>g. \<not> g < HYCLONE_MIN_HOST_GID) groups"
    using assms(8) by (simp add: HYCLONE_MIN_HOST_GID_def not_less)
  have gs: "gs = map (\<lambda>g. to_uint32 (GetHostGid um g)) high"
    unfolding assms(10) by (auto simp: GetHostGid_def to_uint32_def take_bit_eq_mod split: option.splits)
  show ?thesis by (rule setgroups_run [OF assms(1-7) high assms(9) gs])
qed

definition group_host :: host where
  "group_host = sample_host\<lparr>vm_read := \<lambda>_ _ _. Some (le_bytes 4 2000)\<rparr>"

definition sample_group_map :: user_map_service where
  "sample_group_map = RegisterGid 27 2000 user_map_init"

theorem setgroups_follows_host_witness:
  "\<exists>w'. moni_setgroups group_host sample_group_map (\<lambda>_. 0) sample_context 1 64 128 sample_world =
      Some (B_OK, [[27]], w') \<and> p_groups (the_process sample_context w') = [2000]"
proof -
  have rd: "read_exact group_host pid 64 (1 * 4) = Some (le_bytes 4 2000)" for pid
    by (simp add: group_host_def read_exact_def server_read_process_memory_def)
  have wr: "write_exact group_host pid a obj" for pid a obj
    by (simp add: group_host_def sample_host_def write_exact_def server_write_process_memory_def)
  have groups: "int32s_at (nat 1) (le_bytes 4 2000) = [2000]" by code_simp
  have old: "p_groups (the_process sample_context sample_world) = []"
    by (simp add: sample_world_def Process_new_def)
  have gid: "gidReverseMap sample_group_map 2000 = Some 27" "to_uint32 27 = 27"
    by (simp add: sample_group_map_def RegisterGid_def) code_simp
  show ?thesis
    using setgroups_follows_host [where n = 1 and la = 128 and h = group_host and um = sample_group_map
        and linux = "\<lambda>_. 0" and c = sample_context and w = sample_world and groupList = 64,
        OF _ _ _ refl rd wr groups [symmetric] refl refl refl]
    by (auto simp: old gid)
qed

text \<open>Groups that a team gives up stay with the host's process: nothing is asked of the host.\<close>

lemma dropped_groups_stay_on_host:
  assumes "0 < n" "n \<le> INT_MAX" "la \<noteq> 0"
    and "read_exact h (p_pid (the_process c w)) groupList (n * 4) = Some bs"
    and "\<And>a obj. write_exact h (p_pid (the_process c w)) a obj"
    and "set (int32s_at (nat n) bs) \<subset> set (p_groups (the_process c w))"
  shows "\<exists>w'. moni_setgroups h um linux c n groupList la w = Some (B_OK, [], w') \<and>
    p_groups (the_process c w') = int32s_at (nat n) bs"
proof -
  have "\<not> (\<exists>g\<in>set (filter (\<lambda>g. \<not> g < HYCLONE_MIN_HOST_GID) (int32s_at (nat n) bs)).
      g \<notin> set (p_groups (the_process c w)))"
    using assms(6) by auto
  then show ?thesis
    using setgroups_run [OF assms(1-3) refl assms(4,5) refl refl refl refl, of um linux] by auto
qed

text \<open>A negative number of groups becomes a vector too large to exist: the server throws.\<close>

lemma negative_group_count_throws:
  "n < 0 \<Longrightarrow> - (2 ^ 31) \<le> n \<Longrightarrow> moni_setgroups h um linux c n groupList la w = None"
proof -
  assume n: "n < 0" "- (2 ^ 31) \<le> n"
  then have "(n + 2 ^ 64) mod 2 ^ 64 = n + 2 ^ 64" by (intro mod_pos_pos_trivial) simp_all
  then have "size_of_int n = n + 2 ^ 64" by (simp only: size_of_int_def mod_add_self2)
  then show ?thesis using n by (simp add: moni_setgroups_def call_setgroups_def int_vector_max_def)
qed

end
