(* ===== verification/ImageCalls.thy ===== *)
theory ImageCalls
  imports ThreadCalls
begin

text \<open>
  The calls of \<^verbatim>\<open>hyclone_server/image.cpp\<close> on the images of a team, and those of
  \<^verbatim>\<open>server_debug.cpp\<close> that install debuggers. \<open>None\<close> is an index out of range.
\<close>

section \<open>Images\<close>

definition call_register_image :: "host \<Rightarrow> hserver_context \<Rightarrow> int \<Rightarrow> int \<Rightarrow> world \<Rightarrow> int \<times> world" where
  "call_register_image h c image_info infoSize w =
    (if infoSize \<noteq> sizeof_extended_image_info then (B_BAD_VALUE, w)
     else case Process_ReadMemory h (the_process c w) image_info sizeof_extended_image_info of
         None \<Rightarrow> (B_BAD_ADDRESS, w)
       | Some bs \<Rightarrow>
           (let (i, p) = Process_RegisterImage (the_process c w) (dec_extended_image_info bs)
            in (i, upd_process (ctx_process c) (\<lambda>_. p) w)))"

definition call_get_image_info :: "host \<Rightarrow> hserver_context \<Rightarrow> int \<Rightarrow> int \<Rightarrow> int \<Rightarrow> world \<Rightarrow> (int \<times> world) option" where
  "call_get_image_info h c i info infoSize w =
    (if infoSize \<noteq> sizeof_image_info then Some (B_BAD_VALUE, w)
     else if \<not> Process_IsValidImageId (the_process c w) i then Some (B_BAD_VALUE, w)
     else case Process_GetImage (the_process c w) i of
         None \<Rightarrow> None
       | Some x \<Rightarrow> Some (reply_with h c info (OImageInfo (xi_basic_info x)) B_OK w))"

text \<open>The id the cookie leads to: the id itself if it is in use, otherwise the next one.\<close>

definition image_from :: "process \<Rightarrow> int \<Rightarrow> int" where
  "image_from p i = (if Process_IsValidImageId p i then i else Process_NextImageId p i)"

definition call_get_next_image_info ::
    "host \<Rightarrow> hserver_context \<Rightarrow> int \<Rightarrow> int \<Rightarrow> int \<Rightarrow> int \<Rightarrow> world \<Rightarrow> (int \<times> world) option" where
  "call_get_next_image_info h c target_pid user_cookie user_image_info infoSize w =
    (case System_GetProcess w (if target_pid = 0 then ctx_pid c else target_pid) of
       None \<Rightarrow> Some (B_BAD_VALUE, w)
     | Some r \<Rightarrow>
         if infoSize \<noteq> sizeof_image_info then Some (B_BAD_VALUE, w)
         else case Process_ReadMemory h (the_process c w) user_cookie 4 of
             None \<Rightarrow> Some (B_BAD_ADDRESS, w)
           | Some bs \<Rightarrow>
               if dec_int32 bs < 0 then Some (B_BAD_VALUE, w)
               else
                 (let p = processObjs w r; i = image_from p (dec_int32 bs) in
                  if i < 0 then Some (B_BAD_VALUE, w)
                  else case Process_GetImage p i of
                      None \<Rightarrow> None
                    | Some x \<Rightarrow>
                        (case Process_WriteMemory h c user_image_info (OImageInfo (xi_basic_info x)) w of
                           None \<Rightarrow> Some (B_BAD_ADDRESS, w)
                         | Some w1 \<Rightarrow>
                             Some (reply_with h c user_cookie (OInt32 (Process_NextImageId p i)) B_OK w1))))"

text \<open>The id is not checked.\<close>

definition call_unregister_image :: "hserver_context \<Rightarrow> int \<Rightarrow> world \<Rightarrow> (int \<times> world) option" where
  "call_unregister_image c i w =
    (case Process_UnregisterImage (the_process c w) i of
       None \<Rightarrow> None
     | Some (_, p) \<Rightarrow> Some (B_OK, upd_process (ctx_process c) (\<lambda>_. p) w))"

definition B_APP_IMAGE :: int where "B_APP_IMAGE = 1"

text \<open>The notification runs in a thread of its own: here only that it is sent.\<close>

definition call_image_relocated :: "hserver_context \<Rightarrow> int \<Rightarrow> world \<Rightarrow> (int \<times> world) option" where
  "call_image_relocated c i w =
    (case Process_GetImage (the_process c w) i of
       None \<Rightarrow> None
     | Some x \<Rightarrow>
         Some (B_OK, if ii_type (xi_basic_info x) = B_APP_IMAGE then emit (AppLoadNotify (ctx_pid c)) w else w))"

section \<open>Debuggers\<close>

text \<open>
  The text that is printed, if any. A text too long for a string is an exception nobody catches:
  \<open>None\<close>; that the server has the memory for a shorter one is taken for granted.
\<close>

definition call_debug_output :: "host \<Rightarrow> hserver_context \<Rightarrow> int \<Rightarrow> int \<Rightarrow> world \<Rightarrow> (int \<times> byte list option) option" where
  "call_debug_output h c userString len w =
    (if len > 2 ^ 63 - 1 then None
     else case Process_ReadMemory h (the_process c w) userString len of
         None \<Rightarrow> Some (B_BAD_ADDRESS, None)
       | Some bs \<Rightarrow> Some (B_OK, Some bs))"

text \<open>The port of the default debugger, kept by the debug service.\<close>

definition call_install_default_debugger :: "int \<Rightarrow> world \<Rightarrow> ref option \<Rightarrow> int \<times> ref option" where
  "call_install_default_debugger portId w defaultPort =
    (case System_GetPort w portId of
       None \<Rightarrow> (B_BAD_PORT_ID, defaultPort)
     | Some r \<Rightarrow> (B_OK, Some r))"

text \<open>A lookup that is tried again after each of at most \<open>n\<close> naps; \<open>env\<close> is what happens meanwhile.\<close>

primrec retry :: "nat \<Rightarrow> (nat \<Rightarrow> world \<Rightarrow> world) \<Rightarrow> (world \<Rightarrow> ref option) \<Rightarrow> world \<Rightarrow> ref option \<times> world" where
  "retry 0 env f w = (f w, w)"
| "retry (Suc n) env f w = (case f w of Some r \<Rightarrow> (Some r, w) | None \<Rightarrow> retry n env f (env n w))"

text \<open>
  \<open>wait1\<close> is the wait for the right to send a request, \<open>wait2\<close> the wait for the reply. The request
  is refused by an assertion when another one is pending: \<open>None\<close>.
\<close>

definition ask_to_be_debugged ::
    "(world \<Rightarrow> world) \<Rightarrow> (world \<Rightarrow> world) \<Rightarrow> int \<Rightarrow> hserver_context \<Rightarrow> ref \<Rightarrow> ref \<Rightarrow> ref \<Rightarrow> int \<Rightarrow> world \<Rightarrow>
      (int \<times> world) option" where
  "ask_to_be_debugged wait1 wait2 reply c p t dp portId w =
    (if p_debuggerPid (processObjs w p) \<noteq> -1 then Some (B_NOT_ALLOWED, w)
     else
       (let w1 = wait1 w in
        case Thread_SendRequest (threadObjs w1 t)
            (Request_new (InstallTeamDebuggerRequest (ctx_pid c) (pi_port (port_info (portObjs w1 dp))))) of
          None \<Rightarrow> None
        | Some th \<Rightarrow>
            (let w2 = wait2 (upd_thread t (\<lambda>_. th) w1); status = to_int32 reply in
             if status < 0 then Some (status, w2)
             else Some (status, upd_process p (\<lambda>x. x\<lparr>p_debuggerPid := ctx_pid c, p_debuggerPort := portId\<rparr>) w2))))"

definition call_install_team_debugger ::
    "(nat \<Rightarrow> world \<Rightarrow> world) \<Rightarrow> (nat \<Rightarrow> world \<Rightarrow> world) \<Rightarrow> (world \<Rightarrow> world) \<Rightarrow> (world \<Rightarrow> world) \<Rightarrow> int \<Rightarrow>
      hserver_context \<Rightarrow> int \<Rightarrow> int \<Rightarrow> world \<Rightarrow> (int \<times> world) option" where
  "call_install_team_debugger naps1 naps2 wait1 wait2 reply c team portId w =
    (case retry 10 naps1 (\<lambda>w. System_GetProcess w team) w of
       (None, w1) \<Rightarrow> Some (B_BAD_TEAM_ID, w1)
     | (Some p, w1) \<Rightarrow>
         (case retry 10 naps2 (\<lambda>w. System_GetThread w team) w1 of
            (None, w2) \<Rightarrow> Some (B_BAD_TEAM_ID, w2)
          | (Some t, w2) \<Rightarrow>
              (case System_GetPort w2 portId of
                 None \<Rightarrow> Some (B_BAD_PORT_ID, w2)
               | Some dp \<Rightarrow> ask_to_be_debugged wait1 wait2 reply c p t dp portId w2)))"

definition call_register_nub :: "hserver_context \<Rightarrow> int \<Rightarrow> int \<Rightarrow> int \<Rightarrow> world \<Rightarrow> int \<times> world" where
  "call_register_nub c portId threadId writeLock w =
    (let w1 = upd_process (ctx_process c) (\<lambda>p. p\<lparr>p_debuggerWriteLock := writeLock,
            p_info := (p_info p)\<lparr>ti_debugger_nub_port := portId, ti_debugger_nub_thread := threadId\<rparr>,
            p_owningSemaphores := os_erase writeLock (p_owningSemaphores p)\<rparr>) w
     in (B_OK,
         case System_GetProcess w1 (p_debuggerPid (the_process c w1)) of
           None \<Rightarrow> w1
         | Some d \<Rightarrow> upd_process d (\<lambda>x. x\<lparr>p_owningSemaphores := os_insert writeLock (p_owningSemaphores x)\<rparr>) w1))"

section \<open>Facts\<close>

definition images_ok :: "process \<Rightarrow> bool" where
  "images_ok p \<longleftrightarrow> IdMap_ok (p_images p) \<and> IdMap_has_room (p_images p)"

text \<open>A registered image is found under the id it gets, and reported with that id.\<close>

lemma registered_image_is_reported:
  assumes "images_ok (the_process c w)"
    and "Process_ReadMemory h (the_process c w) addr sizeof_extended_image_info = Some bs"
    and "call_register_image h c addr sizeof_extended_image_info w = (i, w')"
    and "\<And>a obj. write_exact h (p_pid (the_process c w)) a obj"
  shows "0 \<le> i \<and> \<not> Process_IsValidImageId (the_process c w) i \<and>
    call_get_image_info h c i info sizeof_image_info w' =
      Some (B_OK, w'\<lparr>guestWrites := guestWrites w' @ [(p_pid (the_process c w), info,
        OImageInfo ((xi_basic_info (dec_extended_image_info bs))\<lparr>ii_id := i\<rparr>))]\<rparr>)"
proof -
  let ?p = "the_process c w" and ?img = "dec_extended_image_info bs"
  obtain m where add: "IdMap_Add (p_images ?p) ?img = (i, m)"
    using assms(2,3) by (auto simp: call_register_image_def Process_RegisterImage_def split: prod.splits)
  let ?m = "m\<lparr>items := (items m)[nat i := set_image_id i (items m ! nat i)]\<rparr>"
  have w': "w' = upd_process (ctx_process c) (\<lambda>_. with_image_count (?p\<lparr>p_images := ?m\<rparr>)) w"
    using assms(2,3) add by (auto simp: call_register_image_def Process_RegisterImage_def)
  have ok: "IdMap_ok (p_images ?p)" "IdMap_has_room (p_images ?p)" using assms(1) by (simp_all add: images_ok_def)
  have "IdMap_lookup m i = Some ?img" using IdMap_Add_lookup [OF ok, of ?img] add by simp
  then have found: "IdMap_IsValidId m i" "in_vector m i" "items m ! nat i = ?img"
    by (auto simp: IdMap_lookup_def IdMap_Get_def split: if_splits)
  have "0 \<le> i" using found(2) by (simp add: in_vector_def)
  moreover have "\<not> Process_IsValidImageId ?p i"
    using IdMap_Add_fresh [OF ok, of ?img] add ok(1)
    by (auto simp: Process_IsValidImageId_def IdMap_lookup_def IdMap_Get_def IdMap_IsValidId_ok split: if_splits)
  moreover have "IdMap_IsValidId ?m i" "IdMap_Get ?m i = Some (set_image_id i ?img)"
    using found by (simp_all add: IdMap_IsValidId_def IdMap_MaxId_def IdMap_Get_def in_vector_def nat_less_iff)
  ultimately show ?thesis
    using assms(4)
    by (simp add: call_get_image_info_def Process_IsValidImageId_def Process_GetImage_def w' upd_process_def
        with_image_count_def reply_with_def Process_WriteMemory_def write_guest_def set_image_id_def)
qed

text \<open>A guest that passes any number as the id of an image makes the server read behind its table.\<close>

lemma unchecked_image_id:
  assumes "i < 0 \<or> i \<ge> int (length (items (p_images (the_process c w))))"
  shows "call_image_relocated c i w = None" and "call_unregister_image c i w = None"
  using assms
  by (auto simp: call_image_relocated_def call_unregister_image_def Process_GetImage_def Process_UnregisterImage_def
      IdMap_Get_def IdMap_Remove_def in_vector_def)

text \<open>Nothing keeps the debugger that asked first: both pass the test before one is entered.\<close>

lemma second_debugger_takes_over:
  assumes "p_debuggerPid (processObjs w p) = -1" and "Thread_SendRequest (threadObjs (wait1 w) t) rq = Some th"
    and "rq = Request_new (InstallTeamDebuggerRequest (ctx_pid c) (pi_port (port_info (portObjs (wait1 w) dp))))"
    and "is_int32 reply" "0 \<le> reply"
  shows "\<exists>w'. ask_to_be_debugged wait1 wait2 reply c p t dp portId w = Some (reply, w') \<and>
    p_debuggerPid (processObjs w' p) = ctx_pid c"
  using assms by (simp add: ask_to_be_debugged_def Let_def upd_process_def)

end
