(* ===== verification/AppLoad.thy ===== *)
theory AppLoad
  imports Errno
begin

text \<open>
  \<^verbatim>\<open>hyclone_server/server_apploadnotification.cpp\<close>: a team that loads another one waits until
  the new one has told that it is loaded. Every part of a method that is under the lock is one
  operation on the state; the methods compose them, with \<open>env\<close> for what other threads do in
  between; a step relation interleaves the operations of any number of threads.
\<close>

section \<open>State and operations\<close>

text \<open>Of a condition variable only matters that there is one for a pid.\<close>

record app_load =
  al_waiting :: "int set"
  al_pending :: "int \<rightharpoonup> int"

definition AppLoad_new :: app_load where
  "AppLoad_new = \<lparr>al_waiting = {}, al_pending = Map.empty\<rparr>"

text \<open>The first part of \<open>WaitForAppLoad\<close>: a status that is there already is taken at once.\<close>

definition wait_begin :: "int \<Rightarrow> app_load \<Rightarrow> int option \<times> app_load" where
  "wait_begin pid s =
    (case al_pending s pid of
       Some status \<Rightarrow> (Some status, s\<lparr>al_pending := (al_pending s)(pid := None)\<rparr>)
     | None \<Rightarrow> (None, s\<lparr>al_waiting := insert pid (al_waiting s)\<rparr>))"

text \<open>
  The end of the wait on the condition, with the lock held: it succeeds if there is a status, which is
  what \<open>wait_for\<close> returns at the end of the time as well. Without a time limit it only ends then.
\<close>

definition wait_end :: "int \<Rightarrow> app_load \<Rightarrow> int \<times> app_load" where
  "wait_end pid s =
    (case al_pending s pid of
       Some status \<Rightarrow> (status, s\<lparr>al_pending := (al_pending s)(pid := None)\<rparr>)
     | None \<Rightarrow> (HAIKU_POSIX_ESRCH, s))"

definition wait_cleanup :: "int \<Rightarrow> app_load \<Rightarrow> app_load" where
  "wait_cleanup pid s = s\<lparr>al_waiting := al_waiting s - {pid}\<rparr>"

definition WaitForAppLoad ::
    "(app_load \<Rightarrow> app_load) \<Rightarrow> (app_load \<Rightarrow> app_load) \<Rightarrow> int \<Rightarrow> app_load \<Rightarrow> int \<times> app_load" where
  "WaitForAppLoad env1 env2 pid s =
    (case wait_begin pid s of
       (Some status, s1) \<Rightarrow> (status, s1)
     | (None, s1) \<Rightarrow>
         (let (status, s2) = wait_end pid (env1 s1) in (status, wait_cleanup pid (env2 s2))))"

definition notify_begin :: "int \<Rightarrow> int \<Rightarrow> app_load \<Rightarrow> app_load" where
  "notify_begin pid status s = s\<lparr>al_pending := (al_pending s)(pid \<mapsto> status)\<rparr>"

text \<open>A round of \<open>NotifyAppLoad\<close>: collected meanwhile, handed to a waiter, or neither yet.\<close>

datatype notify_result = Collected | Handed | Again

definition notify_round :: "int \<Rightarrow> app_load \<Rightarrow> notify_result" where
  "notify_round pid s =
    (if al_pending s pid = None then Collected
     else if pid \<in> al_waiting s then Handed
     else Again)"

definition notify_give_up :: "int \<Rightarrow> app_load \<Rightarrow> app_load" where
  "notify_give_up pid s = s\<lparr>al_pending := (al_pending s)(pid := None)\<rparr>"

text \<open>\<open>env t\<close> is what happens during the nap with \<open>t\<close> microseconds left.\<close>

function notify_loop :: "(int \<Rightarrow> app_load \<Rightarrow> app_load) \<Rightarrow> int \<Rightarrow> int \<Rightarrow> app_load \<Rightarrow> int \<times> app_load" where
  "notify_loop env pid t s =
    (if t > 0 then
       (case notify_round pid s of
          Collected \<Rightarrow> (HAIKU_POSIX_ESRCH, notify_give_up pid s)
        | Handed \<Rightarrow> (0, s)
        | Again \<Rightarrow> notify_loop env pid (t - 100 * 1000) (env t s))
     else (HAIKU_POSIX_ESRCH, notify_give_up pid s))"
  by pat_completeness auto
termination by (relation "measure (\<lambda>(env, pid, t, s). nat t)") auto

declare notify_loop.simps [simp del]

definition NotifyAppLoad ::
    "(int \<Rightarrow> app_load \<Rightarrow> app_load) \<Rightarrow> int \<Rightarrow> int \<Rightarrow> int \<Rightarrow> app_load \<Rightarrow> int \<times> app_load" where
  "NotifyAppLoad env pid status t s = notify_loop env pid t (notify_begin pid status s)"

definition kDefaultNotificationTimeout :: int where "kDefaultNotificationTimeout = 3000000"

text \<open>The calls; the notification runs in a thread of its own and the status is not passed on.\<close>

definition call_notify_loading_app ::
    "(int \<Rightarrow> app_load \<Rightarrow> app_load) \<Rightarrow> int \<Rightarrow> int \<Rightarrow> app_load \<Rightarrow> int \<times> app_load" where
  "call_notify_loading_app env pid status s =
    (B_OK, snd (NotifyAppLoad env pid B_OK kDefaultNotificationTimeout s))"

definition call_wait_for_app_load ::
    "(app_load \<Rightarrow> app_load) \<Rightarrow> (app_load \<Rightarrow> app_load) \<Rightarrow> int \<Rightarrow> app_load \<Rightarrow> int \<times> app_load" where
  "call_wait_for_app_load env1 env2 pid s = WaitForAppLoad env1 env2 pid s"

section \<open>Interleavings\<close>

text \<open>
  What a step of some thread does to the statuses: it posts one, a waiter takes one, a notifier takes
  its own back, or none of these.
\<close>

datatype load_event = Post int int | Collect int int | Withdraw int | Silent

inductive load_step :: "app_load \<Rightarrow> load_event \<Rightarrow> app_load \<Rightarrow> bool" where
  wait_takes: "wait_begin pid s = (Some status, s') \<Longrightarrow> load_step s (Collect pid status) s'"
| wait_starts: "wait_begin pid s = (None, s') \<Longrightarrow> load_step s Silent s'"
| wait_succeeds: "al_pending s pid \<noteq> None \<Longrightarrow> wait_end pid s = (status, s') \<Longrightarrow> load_step s (Collect pid status) s'"
| wait_fails: "al_pending s pid = None \<Longrightarrow> wait_end pid s = (status, s') \<Longrightarrow> load_step s Silent s'"
| wait_cleans: "load_step s Silent (wait_cleanup pid s)"
| notify_posts: "load_step s (Post pid status) (notify_begin pid status s)"
| notify_looks: "notify_round pid s = r \<Longrightarrow> load_step s Silent s"
| notify_ends: "load_step s (Withdraw pid) (notify_give_up pid s)"

inductive load_run :: "app_load \<Rightarrow> load_event list \<Rightarrow> app_load \<Rightarrow> bool" where
  start: "load_run s0 [] s0"
| step: "load_run s0 es s \<Longrightarrow> load_step s e s' \<Longrightarrow> load_run s0 (es @ [e]) s'"

inductive_cases load_stepE: "load_step s e s'"

fun concerns :: "int \<Rightarrow> load_event \<Rightarrow> bool" where
  "concerns p (Post q st) \<longleftrightarrow> p = q"
| "concerns p (Collect q st) \<longleftrightarrow> p = q"
| "concerns p (Withdraw q) \<longleftrightarrow> p = q"
| "concerns p Silent \<longleftrightarrow> False"


text \<open>What the events say is pending: the last status posted, unless it was taken or withdrawn.\<close>

fun after_event :: "load_event \<Rightarrow> (int \<rightharpoonup> int) \<Rightarrow> (int \<rightharpoonup> int)" where
  "after_event (Post p status) f = f(p \<mapsto> status)"
| "after_event (Collect p status) f = f(p := None)"
| "after_event (Withdraw p) f = f(p := None)"
| "after_event Silent f = f"

definition pending_of :: "load_event list \<Rightarrow> (int \<rightharpoonup> int)" where
  "pending_of es = fold after_event es Map.empty"

lemma pending_of_snoc [simp]: "pending_of (es @ [e]) = after_event e (pending_of es)" "pending_of [] = Map.empty"
  by (simp_all add: pending_of_def)

lemma step_pending: "load_step s e s' \<Longrightarrow> al_pending s' = after_event e (al_pending s)"
  by (auto elim!: load_stepE simp: wait_begin_def wait_end_def wait_cleanup_def notify_begin_def notify_give_up_def
      split: option.splits)

lemma step_collects: "load_step s (Collect pid status) s' \<Longrightarrow> al_pending s pid = Some status"
  by (auto elim!: load_stepE simp: wait_begin_def wait_end_def split: option.splits)

lemma run_pending: "load_run s0 es s \<Longrightarrow> s0 = AppLoad_new \<Longrightarrow> al_pending s = pending_of es"
  by (induction rule: load_run.induct) (auto simp: AppLoad_new_def dest: step_pending)

lemma pending_was_posted:
  "pending_of es pid = Some status \<Longrightarrow> \<exists>us vs. es = us @ Post pid status # vs \<and> (\<forall>e\<in>set vs. \<not> concerns pid e)"
proof (induction es rule: rev_induct)
  case (snoc e es)
  show ?case
  proof (cases "concerns pid e")
    case True
    then have "e = Post pid status" using snoc.prems by (cases e) (auto split: if_splits)
    then show ?thesis by (intro exI [of _ es] exI [of _ "[]"]) simp
  next
    case False
    then have "pending_of es pid = Some status" using snoc.prems by (cases e) auto
    from snoc.IH [OF this] obtain us vs where "es = us @ Post pid status # vs" "\<forall>e\<in>set vs. \<not> concerns pid e" by blast
    then show ?thesis using False by (intro exI [of _ us] exI [of _ "vs @ [e]"]) auto
  qed
qed simp

text \<open>
  C21: a waiting team only ever gets a status that was posted for the team it waits for, and every one
  at most once. In any interleaving of waiters and notifiers, when a waiter takes a status, the last
  thing that happened to that pid is that this status was posted; afterwards nothing is pending for it.
\<close>

theorem collected_status_was_posted:
  assumes "load_run AppLoad_new es s" and "load_step s (Collect pid status) s'"
  shows "\<exists>us vs. es = us @ Post pid status # vs \<and> (\<forall>e\<in>set vs. \<not> concerns pid e) \<and> al_pending s' pid = None"
proof -
  have "pending_of es pid = Some status" using run_pending [OF assms(1) refl] step_collects [OF assms(2)] by simp
  moreover have "al_pending s' pid = None" using step_pending [OF assms(2)] by simp
  ultimately show ?thesis using pending_was_posted by blast
qed

lemma sample_load_run: "load_run AppLoad_new [Silent, Post 7 3] (notify_begin 7 3 (snd (wait_begin 7 AppLoad_new)))"
proof -
  have "load_step AppLoad_new Silent (snd (wait_begin 7 AppLoad_new))"
    by (rule load_step.wait_starts [of 7]) (simp add: wait_begin_def AppLoad_new_def)
  from load_run.step [OF load_run.start this] show ?thesis
    using load_run.step [OF _ load_step.notify_posts, of AppLoad_new "[Silent]" _ 7 3] by simp
qed

theorem collected_status_was_posted_witness:
  "\<exists>s s'. load_run AppLoad_new [Silent, Post 7 3] s \<and> load_step s (Collect 7 3) s' \<and>
    (\<exists>us vs. [Silent, Post 7 3] = us @ Post 7 3 # vs) \<and> al_pending s' 7 = None"
proof -
  let ?s = "notify_begin 7 3 (snd (wait_begin 7 AppLoad_new))"
  have "load_step ?s (Collect 7 3) (snd (wait_end 7 ?s))"
    by (rule load_step.wait_succeeds) (simp_all add: notify_begin_def wait_end_def)
  then show ?thesis
    using collected_status_was_posted [OF sample_load_run] sample_load_run by blast
qed

section \<open>What goes wrong\<close>

text \<open>A team that reports that it could not be loaded is taken for loaded by the one that waits.\<close>

lemma failed_load_looks_loaded:
  assumes "al_pending s pid = None"
  shows "fst (call_wait_for_app_load (\<lambda>s. snd (call_notify_loading_app env pid status s)) env2 pid s) = B_OK"
  using assms
  by (simp add: call_wait_for_app_load_def WaitForAppLoad_def wait_begin_def wait_end_def call_notify_loading_app_def
      NotifyAppLoad_def notify_begin_def kDefaultNotificationTimeout_def
      notify_loop.simps [of env pid 3000000] notify_round_def)

text \<open>
  A notifier that comes between the end of a wait and its clean-up takes the waiter for one that still
  waits: its status stays for the next waiter, of another team with the same id.
\<close>

lemma status_left_behind:
  assumes "al_pending s pid = None" "0 < t"
  shows "\<exists>s'. fst (WaitForAppLoad id (\<lambda>s. snd (NotifyAppLoad env pid status t s)) pid s) = HAIKU_POSIX_ESRCH \<and>
    snd (WaitForAppLoad id (\<lambda>s. snd (NotifyAppLoad env pid status t s)) pid s) = s' \<and>
    fst (WaitForAppLoad env1 env2 pid s') = status"
  using assms
  by (simp add: WaitForAppLoad_def wait_begin_def wait_end_def wait_cleanup_def NotifyAppLoad_def notify_begin_def
      notify_loop.simps [of env pid t] notify_round_def)

end
