(* ===== verification/Messaging.thy ===== *)
theory Messaging
  imports KMessage SemCalls
begin

text \<open>
  \<^verbatim>\<open>hyclone_server/server_messaging.h\<close>, \<^verbatim>\<open>server_messaging.cpp\<close>: the areas through which
  the server hands messages to the registrar of Haiku, which delivers them to their targets. An area
  is a ring buffer in memory that both share; the registrar takes commands out of it. The memory is
  a list of bytes with the layout of the structures of the code; \<open>None\<close> is undefined behaviour,
  an access outside of the area or an overflow of a signed integer.
\<close>

definition kMessagingAreaSize :: int where "kMessagingAreaSize = 4096 * 4"

definition MESSAGING_COMMAND_SEND_MESSAGE :: int where "MESSAGING_COMMAND_SEND_MESSAGE = 0"


section \<open>The ring buffer\<close>

text \<open>
  The header: a counter at 0, then \<open>size\<close>, \<open>kernel_area\<close>, \<open>next_kernel_area\<close>,
  \<open>command_count\<close>, \<open>first_command\<close>, \<open>last_command\<close>. A command: \<open>next_command\<close>,
  \<open>command\<close>, \<open>size\<close>, data.
\<close>

definition sizeof_area_header :: int where "sizeof_area_header = 28"
definition sizeof_command :: int where "sizeof_command = 12"

definition area_header_bytes :: "int \<Rightarrow> int \<Rightarrow> int \<Rightarrow> byte list" where
  "area_header_bytes sz i next =
    le_bytes 4 1 @ le_bytes 4 sz @ le_bytes 4 i @ le_bytes 4 next @ le_bytes 4 0 @ le_bytes 4 0 @ le_bytes 4 0"

definition CheckCommandSize :: "int \<Rightarrow> bool" where
  "CheckCommandSize dataSize \<longleftrightarrow>
    dataSize \<ge> 0 \<and> to_int32 (sizeof_command + dataSize) \<le> kMessagingAreaSize - sizeof_area_header"

text \<open>A command at an offset and its size, aligned; the inner \<open>None\<close> is \<open>NULL\<close>.\<close>

definition CheckCommand :: "int \<Rightarrow> byte list \<Rightarrow> int \<Rightarrow> int option option" where
  "CheckCommand areaSize mem off =
    (if off < sizeof_area_header then Some None
     else
       do { e \<leftarrow> int32_op (off + sizeof_command);
            if e > areaSize \<or> off AND 3 \<noteq> 0 then Some None
            else
              do { sz \<leftarrow> peek_int32 mem (off + 8);
                   if sz < sizeof_command then Some None
                   else
                     do { n \<leftarrow> int32_op (sz + 3);
                          e \<leftarrow> int32_op (off + (n AND NOT 3));
                          Some (if e > areaSize then None else Some (n AND NOT 3)) } } })"

text \<open>
  Where a command of \<open>size\<close> bytes goes, given the first command and the end of the last one; the
  sizes in the area are those of an area that is not empty.
\<close>

definition find_space :: "int \<Rightarrow> int \<Rightarrow> int \<Rightarrow> int \<Rightarrow> int \<Rightarrow> int option" where
  "find_space areaSize sz first lst lastSize =
    (if first \<le> lst then
       (if sz \<le> areaSize - (lst + lastSize) then Some (lst + lastSize)
        else if sz > first - sizeof_area_header then None
        else Some sizeof_area_header)
     else if sz > first - (lst + lastSize) then None
     else Some (lst + lastSize))"

definition init_command :: "int \<Rightarrow> int \<Rightarrow> int \<Rightarrow> byte list \<Rightarrow> byte list option" where
  "init_command off what sz mem = poke mem off (le_bytes 4 0 @ le_bytes 4 what @ le_bytes 4 sz)"

text \<open>The offset of the data, or \<open>NULL\<close>; whether the area was empty; the memory.\<close>

definition AllocateCommand :: "int \<Rightarrow> int \<Rightarrow> int \<Rightarrow> byte list \<Rightarrow> (int option \<times> bool \<times> byte list) option" where
  "AllocateCommand areaSize what dataSize mem =
    (let sz = to_int32 (sizeof_command + dataSize) in
     if dataSize < 0 \<or> sz > areaSize - sizeof_area_header then Some (None, False, mem)
     else
       do { n \<leftarrow> peek_int32 mem 16;
            if n = 0 then
              do { mem \<leftarrow> poke mem 16 (le_bytes 4 1);
                   mem \<leftarrow> poke mem 24 (le_bytes 4 sizeof_area_header);
                   mem \<leftarrow> poke mem 20 (le_bytes 4 sizeof_area_header);
                   mem \<leftarrow> init_command sizeof_area_header what sz mem;
                   Some (Some (sizeof_area_header + sizeof_command), True, mem) }
            else
              do { first \<leftarrow> peek_int32 mem 20;
                   lst \<leftarrow> peek_int32 mem 24;
                   firstSize \<leftarrow> CheckCommand areaSize mem first;
                   lastSize \<leftarrow> CheckCommand areaSize mem lst;
                   case (firstSize, lastSize) of
                     (Some _, Some m) \<Rightarrow>
                       (case find_space areaSize sz first lst m of
                          None \<Rightarrow> Some (None, False, mem)
                        | Some off \<Rightarrow>
                            do { c \<leftarrow> int32_op (n + 1);
                                 mem \<leftarrow> poke mem 16 (le_bytes 4 c);
                                 mem \<leftarrow> poke mem 24 (le_bytes 4 off);
                                 mem \<leftarrow> poke mem lst (le_bytes 4 off);
                                 mem \<leftarrow> init_command off what sz mem;
                                 Some (Some (off + sizeof_command), False, mem) })
                   | _ \<Rightarrow> Some (None, False, mem) } })"

definition IsEmpty :: "byte list \<Rightarrow> bool option" where
  "IsEmpty mem = map_option (\<lambda>n. n = 0) (peek_int32 mem 16)"

section \<open>Areas\<close>

text \<open>
  \<open>ma_header\<close> is the address the memory is mapped at, 0 if it is not. An object made by
  \<open>new MessagingArea()\<close> has all members zero.
\<close>

record msg_area =
  ma_id :: int
  ma_size :: int
  ma_header :: int
  ma_mem :: "byte list"
  ma_lockSem :: "ref option"
  ma_counterSem :: "ref option"

definition MessagingArea_new :: msg_area where
  "MessagingArea_new =
    \<lparr>ma_id = 0, ma_size = 0, ma_header = 0, ma_mem = [], ma_lockSem = None, ma_counterSem = None\<rparr>"

text \<open>The areas from the first to the last, which the code links by \<open>_nextArea\<close>.\<close>

record msg_service =
  ms_areas :: "msg_area list"
  ms_serverTeam :: "ref option"
  ms_lockSem :: "ref option"
  ms_counterSem :: "ref option"

definition MessagingService_init :: msg_service where
  "MessagingService_init = \<lparr>ms_areas = [], ms_serverTeam = None, ms_lockSem = None, ms_counterSem = None\<rparr>"

text \<open>
  The host of the memory service, and what the memory of a new area holds before it is set up. The
  memory that is unmapped is not followed any further.
\<close>

record msg_host =
  mh_memory :: memory_host
  mh_content :: "int \<Rightarrow> byte list"

text \<open>A weak pointer to a semaphore leads to it while it is registered.\<close>

definition lock_weak_sem :: "world \<Rightarrow> ref option \<Rightarrow> ref option" where
  "lock_weak_sem w s = (case s of None \<Rightarrow> None | Some r \<Rightarrow> if sem_registered (semObjs w r) then Some r else None)"

definition MessagingArea_delete :: "msg_host \<Rightarrow> msg_area \<Rightarrow> world \<Rightarrow> world" where
  "MessagingArea_delete h a w =
    (if ma_id a \<ge> 0 then snd (System_UnregisterArea (mh_memory h) w (ma_id a)) else w)"

definition InitHeader :: "int option \<Rightarrow> msg_area \<Rightarrow> msg_area option" where
  "InitHeader next a =
    do { mem \<leftarrow> poke (ma_mem a) 0 (area_header_bytes (ma_size a) (ma_id a) (case next of None \<Rightarrow> -1 | Some i \<Rightarrow> i));
         Some (a\<lparr>ma_mem := mem\<rparr>) }"

definition SetNextArea :: "int option \<Rightarrow> msg_area \<Rightarrow> msg_area option" where
  "SetNextArea next a =
    do { mem \<leftarrow> poke (ma_mem a) 12 (le_bytes 4 (case next of None \<Rightarrow> 0 | Some i \<Rightarrow> i));
         Some (a\<lparr>ma_mem := mem\<rparr>) }"

definition messaging_area_info :: haiku_area_info where
  "messaging_area_info =
    \<lparr>ai_area = 0, ai_name = strncpy 32 ''messaging'', ai_size = kMessagingAreaSize, ai_lock = B_FULL_LOCK,
     ai_protection = B_CLONEABLE_AREA, ai_team = 0, ai_ram_size = 0, ai_copy_count = 0, ai_in_count = 0,
     ai_out_count = 0, ai_address = 0\<rparr>"

text \<open>
  The shared file behind a new area: created, opened, attached to the area and mapped. The result
  is the address, 0 if any of it fails; then the area is unregistered again.
\<close>

definition map_new_area :: "memory_host \<Rightarrow> ref \<Rightarrow> int \<Rightarrow> world \<Rightarrow> int \<times> world" where
  "map_new_area mh r i w =
    (let give_up = (\<lambda>w. (0, snd (System_UnregisterArea mh w i)));
         set = (\<lambda>ms w. w\<lparr>memoryService := ms\<rparr>)
     in case CreateSharedFile mh (memoryService w) (to_string i) (ai_size (area_info (areaObjs w r))) of
          (None, ms) \<Rightarrow> give_up (set ms w)
        | (Some path, ms) \<Rightarrow>
            (case OpenSharedFile_name mh ms path True of
               (None, ms) \<Rightarrow>
                 (let (a, w) = give_up (set ms w)
                  in (a, w\<lparr>memoryService := (memoryService w)\<lparr>removedFiles := removedFiles (memoryService w) @ [path]\<rparr>\<rparr>))
             | (Some ref, ms) \<Rightarrow>
                 (let w = w\<lparr>areaObjs := (areaObjs w)(r := Area_Share (areaObjs w r) ref 0)\<rparr>;
                      (addr, ms) = AcquireMemory mh ms ref (ai_size (area_info (areaObjs w r))) 0 True
                  in if addr = 0 then give_up (set ms w) else (addr, set ms w))))"

text \<open>
  \<open>None\<close> inside: no area. The object that was made for it is destroyed on that way and takes
  its id 0 for one of an area.
\<close>

definition MessagingArea_Create ::
    "msg_host \<Rightarrow> ref option \<Rightarrow> ref option \<Rightarrow> world \<Rightarrow> (msg_area option \<times> world) option" where
  "MessagingArea_Create h lockSem counterSem w =
    do { (r, w1) \<leftarrow> System_RegisterArea_info w messaging_area_info;
         let i = ai_area (area_info (areaObjs w1 r));
         let (addr, w2) = map_new_area (mh_memory h) r i w1;
         if addr = 0 then Some (None, MessagingArea_delete h MessagingArea_new w2)
         else
           do { a \<leftarrow> InitHeader None \<lparr>ma_id = i, ma_size = kMessagingAreaSize, ma_header = addr,
                  ma_mem = mh_content h i, ma_lockSem = lockSem, ma_counterSem = counterSem\<rparr>;
                Some (Some a, w2) } }"

text \<open>
  \<open>fetch_add\<close> on the counter; whoever finds it positive waits for the semaphore. \<open>env\<close> is
  what happens during the wait to the world and to the memory of the area.
\<close>

definition wait_for_lock ::
    "(world \<times> byte list \<Rightarrow> world \<times> byte list) \<Rightarrow> ref \<Rightarrow> world \<times> byte list \<Rightarrow> bool \<times> world \<times> byte list" where
  "wait_for_lock env r s =
    (let finish = (\<lambda>(status, x) (w, mem). (status = B_OK, upd_sem r (\<lambda>_. x) w, mem)) in
     case Semaphore_Acquire_begin (semObjs (fst s) r) 1 of
       Inl res \<Rightarrow> finish res s
     | Inr x \<Rightarrow>
         (let s1 = env (upd_sem r (\<lambda>_. x) (fst s), snd s)
          in finish (Semaphore_Acquire_end (semObjs (fst s1) r) 1) s1))"

definition Area_Lock ::
    "(world \<times> byte list \<Rightarrow> world \<times> byte list) \<Rightarrow> msg_area \<Rightarrow> world \<Rightarrow> (bool \<times> msg_area \<times> world) option" where
  "Area_Lock env a w =
    do { n \<leftarrow> peek_int32 (ma_mem a) 0;
         mem \<leftarrow> poke (ma_mem a) 0 (le_bytes 4 (to_int32 (n + 1)));
         if n = 0 then Some (True, a\<lparr>ma_mem := mem\<rparr>, w)
         else
           (case lock_weak_sem w (ma_lockSem a) of
              None \<Rightarrow> Some (False, a\<lparr>ma_mem := mem\<rparr>, w)
            | Some r \<Rightarrow>
                (let (ok, w1, mem1) = wait_for_lock env r (w, mem) in Some (ok, a\<lparr>ma_mem := mem1\<rparr>, w1))) }"

definition Area_Unlock :: "msg_area \<Rightarrow> world \<Rightarrow> (msg_area \<times> world) option" where
  "Area_Unlock a w =
    do { n \<leftarrow> peek_int32 (ma_mem a) 0;
         mem \<leftarrow> poke (ma_mem a) 0 (le_bytes 4 (to_int32 (n - 1)));
         Some (a\<lparr>ma_mem := mem\<rparr>,
           if n > 1 then
             (case lock_weak_sem w (ma_lockSem a) of
                None \<Rightarrow> w | Some r \<Rightarrow> upd_sem r (\<lambda>x. Semaphore_Release x 1) w)
           else w) }"

definition CommitCommand :: "msg_area \<Rightarrow> world \<Rightarrow> world" where
  "CommitCommand a w =
    (case lock_weak_sem w (ma_counterSem a) of None \<Rightarrow> w | Some r \<Rightarrow> upd_sem r (\<lambda>x. Semaphore_Release x 1) w)"

section \<open>The service\<close>

definition RegisterService ::
    "msg_host \<Rightarrow> ref \<Rightarrow> ref \<Rightarrow> ref \<Rightarrow> msg_service \<Rightarrow> world \<Rightarrow> (int \<times> int \<times> msg_service \<times> world) option" where
  "RegisterService h team lockSem counterSem s w =
    (let pid = p_pid (processObjs w team); owner = (\<lambda>r. si_team (sem_info (semObjs w r))) in
     if ms_areas s \<noteq> [] then Some (B_BAD_VALUE, 0, s, w)
     else if pid \<noteq> owner lockSem \<or> pid \<noteq> owner counterSem then Some (B_BAD_VALUE, 0, s, w)
     else
       do { (a, w1) \<leftarrow> MessagingArea_Create h (Some lockSem) (Some counterSem) w;
            case a of
              None \<Rightarrow> Some (B_NO_MEMORY, 0, s\<lparr>ms_areas := []\<rparr>, w1)
            | Some a \<Rightarrow>
                do { (a, w2) \<leftarrow> Area_Unlock a w1;
                     Some (B_OK, ma_id a,
                       s\<lparr>ms_areas := [a], ms_serverTeam := Some team, ms_lockSem := Some lockSem,
                         ms_counterSem := Some counterSem\<rparr>, w2) } })"

text \<open>The pointer to the team is a weak one: it leads to the team while that is registered.\<close>

definition lock_weak_team :: "world \<Rightarrow> ref option \<Rightarrow> ref option" where
  "lock_weak_team w t =
    (case t of None \<Rightarrow> None | Some r \<Rightarrow> if r \<in> snd ` set (processes w) then Some r else None)"

definition UnregisterService :: "msg_host \<Rightarrow> ref \<Rightarrow> msg_service \<Rightarrow> world \<Rightarrow> int \<times> msg_service \<times> world" where
  "UnregisterService h team s w =
    (if lock_weak_team w (ms_serverTeam s) \<noteq> Some team then (B_BAD_VALUE, s, w)
     else (B_OK, MessagingService_init, fold (MessagingArea_delete h) (ms_areas s) w))"

text \<open>
  Empty areas in front of the last one are taken out of the list; the one taken out last is kept
  for use, those before it are destroyed.
\<close>

fun drop_discarded ::
    "msg_host \<Rightarrow> (int \<Rightarrow> world \<times> byte list \<Rightarrow> world \<times> byte list) \<Rightarrow> msg_area option \<Rightarrow> msg_area list \<Rightarrow> world \<Rightarrow>
      (msg_area option \<times> msg_area list \<times> world) option" where
  "drop_discarded h env d (a # b # as) w =
    do { (_, a1, w1) \<leftarrow> Area_Lock (env (ma_id a)) a w;
         empty \<leftarrow> IsEmpty (ma_mem a1);
         if empty then
           do { a2 \<leftarrow> SetNextArea None a1;
                drop_discarded h env (Some a2) (b # as) (case d of None \<Rightarrow> w1 | Some x \<Rightarrow> MessagingArea_delete h x w1) }
         else do { (a2, w2) \<leftarrow> Area_Unlock a1 w1; Some (d, a2 # b # as, w2) } }"
| "drop_discarded h env d as w = Some (d, as, w)"

text \<open>
  The area that is added when the last one is full. \<open>Inl\<close>: none could be made; the last area is
  unlocked.
\<close>

definition add_area ::
    "msg_host \<Rightarrow> ref option \<Rightarrow> ref option \<Rightarrow> msg_area option \<Rightarrow> msg_area \<Rightarrow> world \<Rightarrow>
      ((msg_area + msg_area \<times> msg_area) \<times> world) option" where
  "add_area h lockSem counterSem d l w =
    do { (new, w1) \<leftarrow>
           (case d of
              Some x \<Rightarrow> do { y \<leftarrow> InitHeader None x; Some (Some y, w) }
            | None \<Rightarrow> MessagingArea_Create h lockSem counterSem w);
         case new of
           None \<Rightarrow> do { (l1, w2) \<leftarrow> Area_Unlock l w1; Some (Inl l1, w2) }
         | Some y \<Rightarrow>
             do { l1 \<leftarrow> SetNextArea (Some (ma_id y)) l;
                  (l2, w2) \<leftarrow> Area_Unlock l1 w1;
                  Some (Inr (l2, y), w2) } }"

text \<open>
  The command goes into the last area or a new one; on success that area is locked and last in the
  list. \<open>data\<close> is the offset of its data.
\<close>

definition AllocateCommand_service ::
    "msg_host \<Rightarrow> (int \<Rightarrow> world \<times> byte list \<Rightarrow> world \<times> byte list) \<Rightarrow> int \<Rightarrow> int \<Rightarrow> msg_service \<Rightarrow> world \<Rightarrow>
      (int \<times> int \<times> bool \<times> msg_service \<times> world) option" where
  "AllocateCommand_service h env what sz s w =
    (if ms_areas s = [] then Some (B_NO_INIT, 0, False, s, w)
     else if \<not> CheckCommandSize sz then Some (B_BAD_VALUE, 0, False, s, w)
     else
       do { (d, as, w1) \<leftarrow> drop_discarded h env None (ms_areas s) w;
            (_, l, w2) \<leftarrow> Area_Lock (env (ma_id (last as))) (last as) w1;
            (data, wasEmpty, mem) \<leftarrow> AllocateCommand (ma_size l) what sz (ma_mem l);
            case data of
              Some off \<Rightarrow>
                Some (B_OK, off, wasEmpty, s\<lparr>ms_areas := butlast as @ [l\<lparr>ma_mem := mem\<rparr>]\<rparr>,
                  case d of None \<Rightarrow> w2 | Some x \<Rightarrow> MessagingArea_delete h x w2)
            | None \<Rightarrow>
                do { (res, w3) \<leftarrow> add_area h (ms_lockSem s) (ms_counterSem s) d (l\<lparr>ma_mem := mem\<rparr>) w2;
                     case res of
                       Inl l1 \<Rightarrow> Some (B_NO_MEMORY, 0, False, s\<lparr>ms_areas := butlast as @ [l1]\<rparr>, w3)
                     | Inr (l1, y) \<Rightarrow>
                         do { (data, wasEmpty, mem) \<leftarrow> AllocateCommand (ma_size y) what sz (ma_mem y);
                              let y1 = y\<lparr>ma_mem := mem\<rparr>;
                              case data of
                                Some off \<Rightarrow> Some (B_OK, off, wasEmpty, s\<lparr>ms_areas := butlast as @ [l1, y1]\<rparr>, w3)
                              | None \<Rightarrow>
                                  do { (y2, w4) \<leftarrow> Area_Unlock y1 w3;
                                       Some (B_NO_MEMORY, 0, False, s\<lparr>ms_areas := butlast as @ [l1, y2]\<rparr>, w4) } } } })"

definition target_bytes :: "int \<times> int \<Rightarrow> byte list" where
  "target_bytes t = le_bytes 4 (fst t) @ le_bytes 4 (snd t)"

text \<open>
  The message and the targets are given as lists, with their lengths; \<open>NULL\<close> is the empty list,
  which the length excludes as well.
\<close>

definition MessagingService_SendMessage ::
    "msg_host \<Rightarrow> (int \<Rightarrow> world \<times> byte list \<Rightarrow> world \<times> byte list) \<Rightarrow> byte list \<Rightarrow> (int \<times> int) list \<Rightarrow>
      msg_service \<Rightarrow> world \<Rightarrow> (int \<times> msg_service \<times> world) option" where
  "MessagingService_SendMessage h env message targets s w =
    (if message = [] \<or> targets = [] then Some (B_BAD_VALUE, s, w)
     else
       (let n = int (length message); k = int (length targets); dataSize = to_int32 (8 + k * 8 + n) in
        do { (error, off, wasEmpty, s1, w1) \<leftarrow> AllocateCommand_service h env MESSAGING_COMMAND_SEND_MESSAGE dataSize s w;
             if error \<noteq> B_OK then Some (error, s1, w1)
             else
               do { let a = last (ms_areas s1);
                    mem \<leftarrow> poke (ma_mem a) off (le_bytes 4 n @ le_bytes 4 k);
                    mem \<leftarrow> poke mem (off + 8) (concat (map target_bytes targets));
                    mem \<leftarrow> poke mem (off + (dataSize - n)) message;
                    (a1, w2) \<leftarrow> Area_Unlock (a\<lparr>ma_mem := mem\<rparr>) w1;
                    Some (B_OK, s1\<lparr>ms_areas := butlast (ms_areas s1) @ [a1]\<rparr>,
                      if wasEmpty then CommitCommand a1 w2 else w2) } }))"

section \<open>The calls\<close>

definition call_register_messaging_service ::
    "msg_host \<Rightarrow> hserver_context \<Rightarrow> int \<Rightarrow> int \<Rightarrow> msg_service \<Rightarrow> world \<Rightarrow> (int \<times> msg_service \<times> world) option" where
  "call_register_messaging_service h c lockSemId counterSemId s w =
    (case (System_GetSemaphore w lockSemId, System_GetSemaphore w counterSemId) of
       (Some lockSem, Some counterSem) \<Rightarrow>
         do { (error, area, s1, w1) \<leftarrow> RegisterService h (ctx_process c) lockSem counterSem s w;
              Some (if error \<noteq> B_OK then error else area, s1, w1) }
     | _ \<Rightarrow> Some (B_BAD_SEM_ID, s, w))"

definition call_unregister_messaging_service ::
    "msg_host \<Rightarrow> hserver_context \<Rightarrow> msg_service \<Rightarrow> world \<Rightarrow> int \<times> msg_service \<times> world" where
  "call_unregister_messaging_service h c s w = UnregisterService h (ctx_process c) s w"

end
