(* ===== verification/MessagingRing.thy ===== *)
theory MessagingRing
  imports Messaging "HOL-Library.Sublist"
begin

text \<open>
  The ring buffer of a messaging area holds a queue of commands: allocating appends one, the
  registrar takes the first one out, and neither touches the others.
\<close>

section \<open>Commands in memory\<close>

datatype command = Command (c_off: int) (c_what: int) (c_data: "byte list")

definition c_size :: "command \<Rightarrow> int" where "c_size c = 12 + int (length (c_data c))"
definition c_end :: "command \<Rightarrow> int" where "c_end c = c_off c + align4 (c_size c)"

definition command_at :: "byte list \<Rightarrow> command \<Rightarrow> int \<Rightarrow> bool" where
  "command_at mem c nx \<longleftrightarrow>
    holds mem (c_off c) (le_bytes 4 nx @ le_bytes 4 (c_what c) @ le_bytes 4 (c_size c) @ c_data c)"

text \<open>A chain of commands whose last one points to \<open>nx\<close>.\<close>

fun commands_at :: "byte list \<Rightarrow> command list \<Rightarrow> int \<Rightarrow> bool" where
  "commands_at mem [] nx = True"
| "commands_at mem (c # cs) nx \<longleftrightarrow>
    command_at mem c (case cs of [] \<Rightarrow> nx | d # _ \<Rightarrow> c_off d) \<and> commands_at mem cs nx"

text \<open>Commands one behind the other, each at a multiple of four, between two bounds.\<close>

fun spread :: "int \<Rightarrow> int \<Rightarrow> command list \<Rightarrow> bool" where
  "spread lo hi [] \<longleftrightarrow> lo \<le> hi"
| "spread lo hi (c # cs) \<longleftrightarrow> lo \<le> c_off c \<and> c_off c mod 4 = 0 \<and> spread (c_end c) hi cs"

text \<open>
  The commands from the first one up to the end of the area, then those that were put in front of
  the first one again.
\<close>

definition layout :: "int \<Rightarrow> command list \<Rightarrow> bool" where
  "layout n cs \<longleftrightarrow> cs = [] \<or>
    (let first = c_off (hd cs); upper = (\<lambda>c. first \<le> c_off c)
     in 28 \<le> first \<and> spread first n (takeWhile upper cs) \<and> spread 28 first (dropWhile upper cs))"

definition ring_ok :: "int \<Rightarrow> byte list \<Rightarrow> command list \<Rightarrow> bool" where
  "ring_ok n mem cs \<longleftrightarrow> int (length mem) = n \<and> n mod 4 = 0 \<and> 28 \<le> n \<and> n \<le> 2 ^ 20 \<and>
    holds mem 16 (le_bytes 4 (int (length cs))) \<and>
    (cs \<noteq> [] \<longrightarrow> holds mem 20 (le_bytes 4 (c_off (hd cs))) \<and> holds mem 24 (le_bytes 4 (c_off (last cs)))) \<and>
    commands_at mem cs 0 \<and> layout n cs \<and> (\<forall>c\<in>set cs. 0 \<le> c_what c \<and> c_what c < 2 ^ 32)"



lemma spread_append [simp]:
  "spread lo hi (cs @ [c]) \<longleftrightarrow> spread lo (c_off c) cs \<and> c_off c mod 4 = 0 \<and> c_end c \<le> hi"
  by (induction lo hi cs rule: spread.induct) auto

lemma spread_append2 [simp]:
  "spread lo hi (cs @ [c, d]) \<longleftrightarrow> spread lo (c_off c) cs \<and> c_off c mod 4 = 0 \<and> c_end c \<le> c_off d \<and>
    c_off d mod 4 = 0 \<and> c_end d \<le> hi"
  using spread_append [of lo hi "cs @ [c]" d] by auto



lemma spread_below: "spread lo hi cs \<Longrightarrow> lo' \<le> lo \<Longrightarrow> spread lo' hi cs"
  by (cases cs) auto






section \<open>Chains under writes\<close>

lemma commands_at_append [simp]:
  "commands_at mem (cs @ [c]) nx \<longleftrightarrow> commands_at mem cs (c_off c) \<and> command_at mem c nx"
  by (induction cs) (auto split: list.splits)

lemma commands_at_append2 [simp]:
  "commands_at mem (cs @ [c, d]) nx \<longleftrightarrow>
    commands_at mem cs (c_off c) \<and> command_at mem c (c_off d) \<and> command_at mem d nx"
  using commands_at_append [of mem "cs @ [c]" d nx] by simp







section \<open>Allocating\<close>





lemma command_size_Command [simp]: "c_size (Command off what data) = 12 + int (length data)"
  by (simp add: c_size_def)






section \<open>Taking\<close>

text \<open>
  What the registrar does when it takes the first command: one command less is counted, and what
  its \<open>next_command\<close> says is the first one now. The commands stay where they are.
\<close>

definition reader_takes :: "byte list \<Rightarrow> byte list \<Rightarrow> bool" where
  "reader_takes mem mem' \<longleftrightarrow> length mem' = length mem \<and>
    (\<forall>o' xs. 28 \<le> o' \<longrightarrow> holds mem' o' xs = holds mem o' xs) \<and>
    (case peek_int32 mem 16 of
       None \<Rightarrow> False
     | Some k \<Rightarrow> k > 0 \<and> holds mem' 16 (le_bytes 4 (k - 1)) \<and>
         (k > 1 \<longrightarrow> (\<exists>first nx l. peek_int32 mem 20 = Some first \<and> peek_int32 mem first = Some nx \<and>
            holds mem' 20 (le_bytes 4 nx) \<and> peek_int32 mem 24 = Some l \<and> holds mem' 24 (le_bytes 4 l))))"



section \<open>An area is a queue\<close>





text \<open>What happens to an area, and the queue it is for those who use it.\<close>

datatype ring_event = Sent int "byte list" | Refused int "byte list" | Taken

inductive ring_step :: "int \<Rightarrow> byte list \<Rightarrow> ring_event \<Rightarrow> byte list \<Rightarrow> bool" for n where
  sent: "AllocateCommand n what (int (length data)) mem = Some (Some off, e, mem1) \<Longrightarrow>
    poke mem1 off data = Some mem2 \<Longrightarrow> ring_step n mem (Sent what data) mem2"
| refused: "AllocateCommand n what (int (length data)) mem = Some (None, e, mem1) \<Longrightarrow>
    ring_step n mem (Refused what data) mem1"
| taken: "reader_takes mem mem' \<Longrightarrow> ring_step n mem Taken mem'"


inductive_cases ring_stepE: "ring_step n mem e mem'"

fun after_ring_event :: "ring_event \<Rightarrow> (int \<times> byte list) list \<Rightarrow> (int \<times> byte list) list" where
  "after_ring_event (Sent what data) q = q @ [(what, data)]"
| "after_ring_event (Refused what data) q = q"
| "after_ring_event Taken q = tl q"

definition queue_after :: "ring_event list \<Rightarrow> (int \<times> byte list) list" where
  "queue_after es = fold after_ring_event es []"


lemma queue_after_snoc [simp]: "queue_after (es @ [e]) = after_ring_event e (queue_after es)" "queue_after [] = []"
  by (simp_all add: queue_after_def)











section \<open>What goes wrong\<close>

text \<open>A size near the largest int wraps around, and the check is passed.\<close>

lemma huge_command_is_accepted:
  assumes "ring_ok n mem []" "40 \<le> n"
  shows "CheckCommandSize INT_MAX" "\<exists>mem'. AllocateCommand n 0 INT_MAX mem = Some (Some 40, True, mem')"
proof -
  have wrap: "to_int32 (12 + INT_MAX) = 11 - 2 ^ 31" by code_simp
  show "CheckCommandSize INT_MAX"
    using wrap by (simp add: CheckCommandSize_def sizeof_command_def kMessagingAreaSize_def sizeof_area_header_def)
  have defined: "\<exists>m'. poke m off xs = Some m' \<and> length m' = length m"
    if "0 \<le> off" "off + int (length xs) \<le> 40" "length m = length mem" for m off and xs :: "byte list"
  proof -
    have "off + int (length xs) \<le> int (length m)" using that assms by (simp add: ring_ok_def)
    with that(1,3) show ?thesis by (auto simp: poke_def)
  qed
  have count: "peek_int32 mem 16 = Some 0" using assms(1) peek_int32_holds [of mem 16 0] by (simp add: ring_ok_def is_int32_def)
  obtain m1 where 1: "poke mem 16 (le_bytes 4 1) = Some m1" "length m1 = length mem" using defined [of 16 "le_bytes 4 1"] by auto
  obtain m2 where 2: "poke m1 24 (le_bytes 4 28) = Some m2" "length m2 = length mem"
    using defined [of 24 "le_bytes 4 28" m1] 1(2) by auto
  obtain m3 where 3: "poke m2 20 (le_bytes 4 28) = Some m3" "length m3 = length mem"
    using defined [of 20 "le_bytes 4 28" m2] 2(2) by auto
  obtain m4 where "init_command 28 0 (11 - 2 ^ 31) m3 = Some m4"
    using defined [of 28 "le_bytes 4 0 @ le_bytes 4 0 @ le_bytes 4 (11 - 2 ^ 31)" m3] 3(2) by (auto simp: init_command_def)
  then show "\<exists>mem'. AllocateCommand n 0 INT_MAX mem = Some (Some 40, True, mem')"
    using wrap count 1(1) 2(1) 3(1) assms(2) by (simp add: AllocateCommand_def sizeof_command_def sizeof_area_header_def)
qed

text \<open>The offsets come from memory that the registrar can write; the check of one overflows.\<close>

lemma offset_check_overflows: "CheckCommand n mem (2 ^ 31 - 4) = None"
  by (simp add: CheckCommand_def sizeof_area_header_def sizeof_command_def int32_op_def is_int32_def)

end
