(* ===== verification/MessagingFacts.thy ===== *)
theory MessagingFacts
  imports MessagingRing
begin

text \<open>
  Sending a message through the messaging service: whatever area it ends up in, the queues of the
  areas, one after the other, are the messages not yet taken.
\<close>

section \<open>Areas\<close>


text \<open>There is an id left for one more area.\<close>

definition area_room :: "world \<Rightarrow> bool" where
  "area_room w \<longleftrightarrow> areas_ok w \<and> int (length (areas w)) < INT_MAX"







lemma area_room_sem [simp]: "area_room (upd_sem r f w) = area_room w"
  unfolding area_room_def upd_sem_def areas_ok_def by simp









section \<open>The service\<close>








section \<open>Sending\<close>









end
