(* ===== verification/Spec2Isabelle.thy ===== *)
theory Spec2Isabelle
  imports Prelude Containers IdMap Guest ServerTime Semaphore Port Path MemoryService Area Process
    Thread System Calls SemCalls PortCalls AreaCalls RangeCalls UserMap SystemCalls ThreadCalls ReservedRange Errno Conversions Mman KMessage
    FsPath HostFs PackageAttrs Vfs VfsResolve VfsService VfsTables FileSystems VfsCalls FileCalls PathSafety FileCallFacts
    ProcInfo TeamCalls TeamCallFacts UserIds ImageCalls AppLoad Messaging MessagingRing MessagingFacts
begin

text \<open>
  HyClone runs Haiku programs on Linux. A guest process is loaded by \<^verbatim>\<open>haiku_loader\<close>; the
  system calls of Haiku are implemented in the guest by \<^verbatim>\<open>monika\<close>, and everything that is
  shared between processes (teams, threads, ports, semaphores, areas, users, notifications) is kept
  by one server, \<^verbatim>\<open>hyclone_server\<close>, which every guest thread talks to over a connection. The
  development models the server: its tables, its objects, and the handlers of its calls.

  Model. The whole state of the server is the record \<open>world\<close> (theory System): the tables of
  the singleton \<open>System\<close> and an object store that maps references to objects, since the code
  shares objects by \<open>shared_ptr\<close>. A server call is a function from its context (the
  connection, the acting team and thread) and its arguments to a status and the next world; the
  name of \<open>server_hserver_call_X\<close> is \<open>call_X\<close>. A result type with an option means that
  the C++ code can run into undefined behaviour (an index out of range, \<open>front\<close> of an empty
  queue, a null pointer) or into a loop that does not end; \<open>None\<close> is that case. What
  other threads do while a call waits is the argument \<open>env\<close>; a method that waits is split
  into the part before and the part after the wait. What the kernel and the host answer is the
  record \<open>host\<close> (theory Guest) or a further argument; writes into guest memory are recorded in
  \<open>guestWrites\<close>, notifications in \<open>events\<close>.

  Theories and code (under \<^verbatim>\<open>src/hyclone_server\<close> unless another directory is named):
    Prelude         status codes, C integers, bytes, C strings (\<^verbatim>\<open>shared_headers\<close>)
    Containers      \<open>std::set\<close> and \<open>std::map\<close> with int keys; cursors over tables (locale id_cursor)
    IdMap           \<^verbatim>\<open>id_map.h\<close> (locale id_table)
    Guest           guest memory, guest structures, the host
    ServerTime      \<^verbatim>\<open>server_time.h\<close>
    Semaphore       class Semaphore of \<^verbatim>\<open>hsemaphore.cpp\<close>; an interleaving semantics of its steps
    Port            class Port of \<^verbatim>\<open>port.cpp\<close> (locale fifo_channel)
    Path            \<^verbatim>\<open>entry_ref.h\<close> and the prefix test on paths
    MemoryService   \<^verbatim>\<open>server_memory.cpp\<close> (locale ref_counts)
    Area            class Area of \<^verbatim>\<open>area.cpp\<close>, splitting a range
    Process         class Process of \<^verbatim>\<open>process.cpp\<close>
    Thread          class Thread of \<^verbatim>\<open>thread.cpp\<close>, \<^verbatim>\<open>server_requests.cpp\<close>
    System          class System of \<^verbatim>\<open>system.cpp\<close>: the registry and its invariants
    Calls           \<^verbatim>\<open>server_dispatch.cpp\<close>
    SemCalls, PortCalls, AreaCalls, ThreadCalls   the calls of the four files
    RangeCalls      properties of the calls on address ranges (AreaCalls)
    UserMap         \<^verbatim>\<open>server_usermap.cpp\<close>
    SystemCalls     connect, disconnect, fork and the other calls of \<^verbatim>\<open>system.cpp\<close>
    ReservedRange   \<^verbatim>\<open>haiku_loader/loader_reservedrange.cpp\<close>
    Errno           \<^verbatim>\<open>monika/linux/errno_conversion.cpp\<close>, with the constants of both sides
    Conversions     the signal, fcntl and socket conversions of \<^verbatim>\<open>monika/linux\<close>
    Mman            \<^verbatim>\<open>monika/linux/mman.cpp\<close>, on top of ReservedRange
    KMessage        \<^verbatim>\<open>kmessage.h\<close>, \<^verbatim>\<open>kmessage.cpp\<close>, down to the bytes of the buffer
    FsPath          \<open>std::filesystem::path\<close> as the server uses it
    HostFs          the host's file system as a record of functions; \<^verbatim>\<open>sys/linux/server_filesystem.cpp\<close>,
                    \<^verbatim>\<open>server_inotify.cpp\<close> and the stat functions of \<^verbatim>\<open>server_native.cpp\<close>
    PackageAttrs    the attributes of \<^verbatim>\<open>fs/packagefs.cpp\<close>
    Vfs             the devices: \<^verbatim>\<open>fs/hostfs.cpp\<close> and what the six file systems make of it
    VfsService      \<^verbatim>\<open>server_vfs.cpp\<close>: mounts, entry references, lookup (\<open>_DoWork\<close>), monitors
    LinkSteps       what a guest path means: mount points, names and steps over symbolic links
    VfsResolve      properties of the lookup (locale path_device); VfsTables: of the tables
    FileSystems     mounting each file system, \<open>server_setup_filesystem\<close>
    VfsCalls        \<open>ReadDirFd\<close>, the descriptor, directory and root calls of \<^verbatim>\<open>process.cpp\<close>,
                    \<^verbatim>\<open>entry_ref.cpp\<close>
    FileCalls       the calls of \<^verbatim>\<open>server_filesystem.cpp\<close> and their structures byte by byte
    PathSafety, FileCallFacts   properties of these calls
    ProcInfo        what \<^verbatim>\<open>sys/linux/server_native.cpp\<close> reads from \<^verbatim>\<open>/proc\<close> about teams and threads
    TeamCalls       the remaining calls of \<^verbatim>\<open>process.cpp\<close>: descriptions of teams, user and group ids
    TeamCallFacts   properties of the descriptions, from the process to the message in the guest
    UserIds         \<^verbatim>\<open>monika/linux/userid.cpp\<close> over the server calls it makes (locale id_call)
    ImageCalls      \<^verbatim>\<open>image.cpp\<close>, \<^verbatim>\<open>server_debug.cpp\<close>
    AppLoad         \<^verbatim>\<open>server_apploadnotification.cpp\<close>, with an interleaving semantics
    Messaging       \<^verbatim>\<open>server_messaging.cpp\<close>: the areas shared with the registrar, byte by byte
    MessagingRing, MessagingFacts   properties of one area and of the service

  What the lemmas show. IdMap, System: an id that is handed out is fresh, leads to the object
  registered for it, and disturbs no other id. Semaphore: units are conserved and never oversold in
  every interleaving. Port, Thread: the queue is a bounded FIFO channel, and so is the mailbox with its
  waiting senders and receivers.
  MemoryService: a file lives exactly as long as its references. AreaCalls, RangeCalls: what an
  operation on an address range does to the addresses a team covers. Calls, SystemCalls: a
  connection acts for the thread it was registered with, from connect to disconnect, and the last
  disconnect leaves nothing of a team behind. UserMap: the files and the id maps are round trips.
  ReservedRange: the table of reserved ranges stands for two sets of addresses and every operation
  changes them as promised; Mman: unmapping and protecting memory respect these sets. Errno,
  Conversions: the translations between the two systems lose nothing where both sides have a value.
  KMessage: the bytes of a message stand for a list of fields, which building, sending and reading
  respect. LinkSteps, VfsResolve, PathSafety: a guest path leads to the place of the host it means
  and never out of the host directories of the mounted devices, from the lookup up to the calls; a
  lookup ends when its links do.
  VfsTables: registering, mounting and unmounting keep the tables of the VFS in agreement.
  FileCallFacts: the structures that cross to the guest and the descriptors. TeamCallFacts: what a
  guest learns about a team is what the server knows about it, and enumerating the teams ends.
  UserIds: the ids of a team change when the host agrees, and only then. ImageCalls: an image is
  reported as it was registered. AppLoad: a status is collected once, by the right waiter.
  MessagingRing: the ring buffer is a FIFO queue; MessagingFacts: a message that is sent is queued.

  Fuel. \<open>alloc_area_id\<close> tries every id once. \<open>area_loop\<close> has two rounds for each area and
  one more (\<open>area_fuel\<close>): a round either ends, or passes an area, or replaces it by pieces that
  the next rounds pass. \<open>unregister_areas\<close> has a round for each area and one more. The
  properties about these loops prove that the result is not \<open>None\<close>. \<open>_DoWork\<close> and the
  lookups that a bound directory makes in turn can run for ever; they get a number of rounds and
  are \<open>Pending\<close> when it does not suffice. How many rounds suffice is a property of VfsResolve.

  Not modelled. Locks and the memory model: a handler runs as one step apart from its waits. The
  scheduler, \<^verbatim>\<open>/proc\<close>, \<open>mmap\<close> and the host file system are parameters. Addresses of the
  memory calls are unbounded integers: an address range that wraps around 2^64 is not considered.
  Of the VFS, the extraction of packages with its \<open>ioctl\<close> and the set-up of the prefix directory
  are left out, as they hand the work to the library that reads packages. Node monitors and the
  notification service are not modelled, nor are the mutexes and the ELF loading of
  the loader and the rest of monika.
  \<^verbatim>\<open>libhpkg_old\<close>, \<^verbatim>\<open>hpkgvfs_analyze\<close>, \<^verbatim>\<open>hyclonefs_analyze\<close> and \<^verbatim>\<open>libhyclonefs\<close> are
  earlier code or tools that the running system does not use.
\<close>

end
